(* ===== verification/Galay_Prelude.thy ===== *)
theory Galay_Prelude
  imports Main "HOL-Library.Word" "HOL-Library.Monad_Syntax"
begin

unbundle bit_operations_syntax

text \<open>
  Shared vocabulary of the development: the C++ integer types as words, byte strings,
  big-endian stores and loads as the protocol code writes them, most-significant-first bit
  lists, checked buffer reads, and the locale of a byte codec whose decoder returns the unread
  rest of its input.
\<close>

section \<open>Integer types and byte strings\<close>

type_synonym u8 = "8 word"
type_synonym u16 = "16 word"
type_synonym u32 = "32 word"
type_synonym u64 = "64 word"
type_synonym bytes = "8 word list"

named_theorems byte_simps \<open>big-endian loads and stores\<close>
named_theorems bitlist_simps \<open>bit lists of words\<close>

text \<open>A C string literal as the bytes of a \<^typ>\<open>string\<close>.\<close>

definition str :: "string \<Rightarrow> bytes" where
  "str s = map of_char s"

text \<open>The largest value of \<open>size_t\<close>, as the code's sentinel and saturation bound.\<close>

definition SIZE_MAX :: nat where
  "SIZE_MAX = 2 ^ 64 - 1"

section \<open>Big-endian stores and loads\<close>

definition be16 :: "u16 \<Rightarrow> bytes" where
  "be16 w = [ucast (drop_bit 8 w AND 0xFF), ucast (w AND 0xFF)]"

definition be24 :: "u32 \<Rightarrow> bytes" where
  "be24 w = [ucast (drop_bit 16 w AND 0xFF), ucast (drop_bit 8 w AND 0xFF), ucast (w AND 0xFF)]"

definition be32 :: "u32 \<Rightarrow> bytes" where
  "be32 w = [ucast (drop_bit 24 w AND 0xFF), ucast (drop_bit 16 w AND 0xFF),
             ucast (drop_bit 8 w AND 0xFF), ucast (w AND 0xFF)]"

definition ld16 :: "u8 \<Rightarrow> u8 \<Rightarrow> u16" where
  "ld16 a b = push_bit 8 (ucast a) OR ucast b"

definition ld24 :: "u8 \<Rightarrow> u8 \<Rightarrow> u8 \<Rightarrow> u32" where
  "ld24 a b c = push_bit 16 (ucast a) OR push_bit 8 (ucast b) OR ucast c"

definition ld32 :: "u8 \<Rightarrow> u8 \<Rightarrow> u8 \<Rightarrow> u8 \<Rightarrow> u32" where
  "ld32 a b c d = push_bit 24 (ucast a) OR push_bit 16 (ucast b) OR push_bit 8 (ucast c) OR ucast d"

lemma mask_8_255: "(0xFF :: 'a::len word) = mask 8"
  by (simp add: mask_eq_exp_minus_1)

lemma unat_u8_less [simp]: "unat (b :: u8) < 256"
  using unsigned_less [of b, where 'a = nat] by simp

lemma unat_u32_less [simp]: "unat (w :: u32) < 4294967296"
  using unsigned_less [of w, where 'a = nat] by simp

text \<open>
  Bits of the mask constants that the code writes in hexadecimal; the simplifier moves a test
  on a word numeral to the integers first.
\<close>

lemma bit_mask_const [bitlist_simps]:
  "bit (0xFF :: int) n \<longleftrightarrow> n < 8" "bit (0x7F :: int) n \<longleftrightarrow> n < 7"
  "bit (0x0F :: int) n \<longleftrightarrow> n < 4" "bit (0x80 :: int) n \<longleftrightarrow> n = 7"
proof -
  have m: "(0xFF :: int) = mask 8" "(0x7F :: int) = mask 7" "(0x0F :: int) = mask 4"
    "(0x80 :: int) = 2 ^ 7"
    by (simp_all add: mask_eq_exp_minus_1)
  show "bit (0xFF :: int) n \<longleftrightarrow> n < 8" "bit (0x7F :: int) n \<longleftrightarrow> n < 7"
    "bit (0x0F :: int) n \<longleftrightarrow> n < 4" "bit (0x80 :: int) n \<longleftrightarrow> n = 7"
    unfolding m bit_mask_iff bit_exp_iff by auto
qed

lemma ucast_and_255 [simp]: "(ucast (x AND 0xFF) :: u8) = ucast x" for x :: "'a::len word"
  unfolding mask_8_255 take_bit_eq_mask [symmetric]
  by (rule bit_word_eqI) (auto simp: bit_ucast_iff bit_take_bit_iff dest: bit_imp_le_length)

lemma high_bits_clear:
  assumes "w < 2 ^ k" and "k \<le> n" and "k < LENGTH('a)"
  shows "\<not> bit (w :: 'a::len word) n"
proof -
  have "take_bit k w = w"
    using assms by (simp add: take_bit_eq_mask less_mask_eq)
  then show ?thesis
    using assms(2) by (metis bit_take_bit_iff linorder_not_less)
qed

lemma and_mask31 [simp]: "w < 2 ^ 31 \<Longrightarrow> w AND 0x7FFFFFFF = w" for w :: u32
proof -
  assume a: "w < 2 ^ 31"
  have m: "(0x7FFFFFFF :: u32) = mask 31" by (simp add: mask_eq_exp_minus_1)
  show ?thesis unfolding m by (rule less_mask_eq [OF a])
qed

lemma and_mask31_less [simp]: "w AND 0x7FFFFFFF < 0x80000000" for w :: u32
proof -
  have m: "(0x7FFFFFFF :: u32) = mask 31" by (simp add: mask_eq_exp_minus_1)
  have "w AND mask 31 < 2 ^ 31" by (rule and_mask_less_size) (simp add: word_size)
  then show ?thesis unfolding m by simp
qed

lemma ld16_be16 [byte_simps]: "ld16 (ucast (drop_bit 8 w)) (ucast w) = w"
proof (rule bit_word_eqI)
  fix n assume "n < LENGTH(16)"
  then consider "n < 8" | "8 \<le> n" "n < 16" by fastforce
  then show "bit (ld16 (ucast (drop_bit 8 w)) (ucast w)) n = bit w n"
    by cases (auto simp: ld16_def bit_simps)
qed

lemma ld32_be32 [byte_simps]:
  "ld32 (ucast (drop_bit 24 w)) (ucast (drop_bit 16 w)) (ucast (drop_bit 8 w)) (ucast w) = w"
proof (rule bit_word_eqI)
  fix n assume "n < LENGTH(32)"
  then consider "n < 8" | "8 \<le> n" "n < 16" | "16 \<le> n" "n < 24" | "24 \<le> n" "n < 32" by fastforce
  then show "bit (ld32 (ucast (drop_bit 24 w)) (ucast (drop_bit 16 w)) (ucast (drop_bit 8 w)) (ucast w)) n = bit w n"
    by cases (auto simp: ld32_def bit_simps)
qed

lemma ld24_be24 [byte_simps]:
  assumes "w < 2 ^ 24"
  shows "ld24 (ucast (drop_bit 16 w)) (ucast (drop_bit 8 w)) (ucast w) = w"
proof (rule bit_word_eqI)
  fix n assume n: "n < LENGTH(32)"
  have hi: "\<not> bit w n" if "24 \<le> n"
    by (rule high_bits_clear [OF assms that]) simp
  from n consider "n < 8" | "8 \<le> n" "n < 16" | "16 \<le> n" "n < 24" | "24 \<le> n" "n < 32" by fastforce
  then show "bit (ld24 (ucast (drop_bit 16 w)) (ucast (drop_bit 8 w)) (ucast w)) n = bit w n"
    by cases (auto simp: ld24_def bit_simps hi)
qed

lemma ld24_less [simp]: "ld24 a b c < 0x1000000"
proof -
  have "ld24 a b c AND mask 24 = ld24 a b c"
    by (rule bit_word_eqI) (auto simp: ld24_def bit_simps dest: bit_imp_le_length)
  moreover have "ld24 a b c AND mask 24 < 2 ^ 24"
    by (rule and_mask_less_size) (simp add: word_size)
  ultimately show ?thesis by simp
qed

lemma length_be [simp]: "length (be16 v) = 2" "length (be24 w) = 3" "length (be32 w) = 4"
  by (simp_all add: be16_def be24_def be32_def)

section \<open>Checked buffer reads\<close>

text \<open>
  The parsers read \<open>data[i]\<close> through a pointer. A read past the buffer is undefined behaviour
  in C++; here it is the value \<^term>\<open>None\<close>, so that a theorem saying that a parser never
  returns \<^term>\<open>None\<close> says that it stays inside its buffer.
\<close>

definition rd :: "bytes \<Rightarrow> nat \<Rightarrow> u8 option" where
  "rd d i = (if i < length d then Some (d ! i) else None)"

definition rd32 :: "bytes \<Rightarrow> nat \<Rightarrow> u32 option" where
  "rd32 d i = do { a \<leftarrow> rd d i; b \<leftarrow> rd d (i + 1); c \<leftarrow> rd d (i + 2); e \<leftarrow> rd d (i + 3);
                   Some (ld32 a b c e) }"

definition rd16 :: "bytes \<Rightarrow> nat \<Rightarrow> u16 option" where
  "rd16 d i = do { a \<leftarrow> rd d i; b \<leftarrow> rd d (i + 1); Some (ld16 a b) }"

text \<open>\<open>std::string::assign(data + off, n)\<close>: the bytes copied, \<^term>\<open>None\<close> past the buffer.\<close>

definition rd_block :: "bytes \<Rightarrow> nat \<Rightarrow> nat \<Rightarrow> bytes option" where
  "rd_block d off n = (if off + n \<le> length d then Some (take n (drop off d)) else None)"

lemma rd_in [simp]: "i < length d \<Longrightarrow> rd d i = Some (d ! i)"
  by (simp add: rd_def)

lemma rd_append1 [simp]: "rd (x # d) 0 = Some x" "rd (x # d) (Suc i) = rd d i"
  by (simp_all add: rd_def)

lemma rd32_in: "i + 4 \<le> length d \<Longrightarrow> rd32 d i = Some (ld32 (d ! i) (d ! (i + 1)) (d ! (i + 2)) (d ! (i + 3)))"
  by (simp add: rd32_def)

lemma rd16_in: "i + 2 \<le> length d \<Longrightarrow> rd16 d i = Some (ld16 (d ! i) (d ! (i + 1)))"
  by (simp add: rd16_def)

lemma rd_block_in: "off + n \<le> length d \<Longrightarrow> rd_block d off n = Some (take n (drop off d))"
  by (simp add: rd_block_def)

lemma rd32_be32 [byte_simps]: "length p = i \<Longrightarrow> rd32 (p @ be32 w @ q) i = Some w"
  by (simp add: rd32_in nth_append be32_def byte_simps)

lemma rd16_be16 [byte_simps]: "length p = i \<Longrightarrow> rd16 (p @ be16 w @ q) i = Some w"
  by (simp add: rd16_in nth_append be16_def byte_simps)

section \<open>Byte codecs\<close>

text \<open>
  The contract of an encoder and a decoder of one wire item: on admissible items the decoder
  reads back the item from the front of any longer buffer and returns the unread rest. Unique
  parsing and the round trip of item sequences follow once and for all.
\<close>

locale byte_codec =
  fixes enc :: "'a \<Rightarrow> bytes"
    and dec :: "bytes \<Rightarrow> 'e + ('a \<times> bytes)"
    and ok :: "'a \<Rightarrow> bool"
  assumes dec_enc: "ok x \<Longrightarrow> dec (enc x @ rest) = Inr (x, rest)"
begin

lemma unique_parse:
  assumes "ok x" and "ok y" and "enc x @ r = enc y @ s"
  shows "x = y \<and> r = s"
proof -
  have "Inr (x, r) = (Inr (y, s) :: 'e + ('a \<times> bytes))"
    using dec_enc [OF assms(1), of r] dec_enc [OF assms(2), of s] unfolding assms(3) by (rule trans [OF sym])
  then show ?thesis by simp
qed

lemma enc_concat_inj:
  assumes "list_all ok xs" and "list_all ok ys" and "\<And>x. ok x \<Longrightarrow> enc x \<noteq> []"
    and "concat (map enc xs) = concat (map enc ys)"
  shows "xs = ys"
  using assms(1,2,4)
proof (induction xs arbitrary: ys)
  case Nil
  then show ?case using assms(3) by (cases ys) auto
next
  case (Cons x xs)
  then obtain y ys' where ys: "ys = y # ys'"
    using assms(3) by (cases ys) auto
  have "x = y \<and> concat (map enc xs) = concat (map enc ys')"
    using Cons.prems ys by (intro unique_parse) auto
  then show ?case using Cons ys by auto
qed

end

end
