(* ===== verification/Http1_Base.thy ===== *)
theory Http1_Base
  imports Galay_Prelude
begin

text \<open>
  What the HTTP/1.1 code of galay shares: numbers in text as \<open>std::from_chars\<close> and \<open>std::to_string\<close> read and write them, the
  enumerations of \<^verbatim>\<open>galay-http/protoc/http_base.h\<close> and \<^verbatim>\<open>http_error.h\<close> with their tables, the ASCII helpers of
  \<^verbatim>\<open>http_header.cc\<close> and \<^verbatim>\<open>parse_utils.h\<close>, and the header store \<open>HeaderPair\<close>.
\<close>

section \<open>Octets\<close>

abbreviation CR :: u8 where "CR \<equiv> 0x0D"
abbreviation LF :: u8 where "LF \<equiv> 0x0A"
abbreviation SP :: u8 where "SP \<equiv> 0x20"

definition isspace :: "u8 \<Rightarrow> bool" where
  "isspace c = (c = 0x20 \<or> 0x09 \<le> c \<and> c \<le> 0x0D)"

definition toLowerAsciiChar :: "u8 \<Rightarrow> u8" where
  "toLowerAsciiChar ch = (if 0x41 \<le> ch \<and> ch \<le> 0x5A then ch + 0x20 else ch)"

definition toUpperAsciiChar :: "u8 \<Rightarrow> u8" where
  "toUpperAsciiChar ch = (if 0x61 \<le> ch \<and> ch \<le> 0x7A then ch - 0x20 else ch)"

definition hasUpperAscii :: "bytes \<Rightarrow> bool" where
  "hasUpperAscii value = list_ex (\<lambda>ch. 0x41 \<le> ch \<and> ch \<le> 0x5A) value"

definition toLowerAscii :: "bytes \<Rightarrow> bytes" where
  "toLowerAscii value = map toLowerAsciiChar value"

fun canonical_from :: "bool \<Rightarrow> bytes \<Rightarrow> bytes" where
  "canonical_from word_start [] = []"
| "canonical_from word_start (ch # cs) =
    (let ch = (if word_start then toUpperAsciiChar ch else toLowerAsciiChar ch) in ch # canonical_from (ch = 0x2D) cs)"

definition toCanonicalHeaderKey :: "bytes \<Rightarrow> bytes" where
  "toCanonicalHeaderKey value = canonical_from True value"

definition equalsIgnoreCaseAscii :: "bytes \<Rightarrow> bytes \<Rightarrow> bool" where
  "equalsIgnoreCaseAscii lhs rhs = (length lhs = length rhs \<and> map toLowerAsciiChar lhs = map toLowerAsciiChar rhs)"

text \<open>Both ends without white space.\<close>

definition trimAscii :: "bytes \<Rightarrow> bytes" where
  "trimAscii value = rev (dropWhile isspace (rev (dropWhile isspace value)))"

definition isSingleHeaderToken :: "bytes \<Rightarrow> bytes \<Rightarrow> bool" where
  "isSingleHeaderToken value expected = (let value = trimAscii value in 0x2C \<notin> set value \<and> equalsIgnoreCaseAscii value expected)"

text \<open>The elements of a comma separated value; after a final comma the loop of the code ends.\<close>

function comma_split :: "bytes \<Rightarrow> bytes list" where
  "comma_split value =
    (if value = [] then []
     else takeWhile (\<lambda>c. c \<noteq> 0x2C) value # comma_split (drop (length (takeWhile (\<lambda>c. c \<noteq> 0x2C) value) + 1) value))"
  by pat_completeness auto
termination
  by (relation "measure length") auto

declare comma_split.simps [simp del]

definition headerValueContainsToken :: "bytes \<Rightarrow> bytes \<Rightarrow> bool" where
  "headerValueContainsToken value token =
    (value \<noteq> [] \<and> token \<noteq> [] \<and>
     list_ex (\<lambda>part. trimAscii part \<noteq> [] \<and> equalsIgnoreCaseAscii (trimAscii part) token) (comma_split value))"

section \<open>Numbers\<close>

definition digit_value :: "nat \<Rightarrow> u8 \<Rightarrow> nat option" where
  "digit_value base c =
    (let v = (if 0x30 \<le> c \<and> c \<le> 0x39 then unat c - 0x30
              else if 0x61 \<le> c \<and> c \<le> 0x7A then unat c - 0x61 + 10
              else if 0x41 \<le> c \<and> c \<le> 0x5A then unat c - 0x41 + 10 else 36)
     in if v < base then Some v else None)"

definition digits_value :: "nat \<Rightarrow> bytes \<Rightarrow> nat" where
  "digits_value base ds = foldl (\<lambda>v d. v * base + the (digit_value base d)) 0 ds"

datatype from_chars_ec = EcOk | EcInvalid | EcRange

text \<open>\<open>std::from_chars\<close> into an unsigned type with maximum \<open>limit\<close>: the error code, the value and the octets read.\<close>

definition from_chars_unsigned :: "nat \<Rightarrow> nat \<Rightarrow> bytes \<Rightarrow> from_chars_ec \<times> nat \<times> nat" where
  "from_chars_unsigned base limit s =
    (let ds = takeWhile (\<lambda>c. digit_value base c \<noteq> None) s in
     if ds = [] then (EcInvalid, 0, 0)
     else if digits_value base ds > limit then (EcRange, 0, length ds)
     else (EcOk, digits_value base ds, length ds))"

text \<open>Into a signed type of \<open>w\<close> bits: an optional minus sign first.\<close>

definition from_chars_signed :: "nat \<Rightarrow> bytes \<Rightarrow> from_chars_ec \<times> int \<times> nat" where
  "from_chars_signed w s =
    (let neg = (s \<noteq> [] \<and> hd s = 0x2D); ds = takeWhile (\<lambda>c. digit_value 10 c \<noteq> None) (if neg then tl s else s);
         v = (if neg then - int (digits_value 10 ds) else int (digits_value 10 ds)); n = length ds + (if neg then 1 else 0) in
     if ds = [] then (EcInvalid, 0, 0)
     else if v < - (2 ^ (w - 1)) \<or> v \<ge> 2 ^ (w - 1) then (EcRange, 0, n)
     else (EcOk, v, n))"

text \<open>\<open>std::to_string\<close>, \<open>std::to_chars\<close> and \<open>std::hex\<close>: the digits of a number, lower case.\<close>

definition digit_char :: "nat \<Rightarrow> u8" where
  "digit_char d = (if d < 10 then of_nat (0x30 + d) else of_nat (0x61 + (d - 10)))"

function to_digits :: "nat \<Rightarrow> nat \<Rightarrow> bytes" where
  "to_digits base n = (if n < base \<or> base < 2 then [digit_char n] else to_digits base (n div base) @ [digit_char (n mod base)])"
  by pat_completeness auto
termination
  by (relation "measure snd") auto

declare to_digits.simps [simp del]

lemma unat_digit_char: "d < 36 \<Longrightarrow> unat (digit_char d) = (if d < 10 then 0x30 + d else 0x61 + (d - 10))"
  by (simp add: digit_char_def unat_of_nat del: of_nat_add of_nat_numeral)

lemma digit_value_char: "d < base \<Longrightarrow> base \<le> 36 \<Longrightarrow> digit_value base (digit_char d) = Some d"
  using unat_digit_char [of d] by (auto simp: digit_value_def word_le_nat_alt Let_def)

lemma digits_value_snoc: "digits_value base (ds @ [d]) = digits_value base ds * base + the (digit_value base d)"
  by (simp add: digits_value_def)

lemma to_digits_ne [simp]: "to_digits base n \<noteq> []"
  by (subst to_digits.simps) auto

lemma to_digits_ok:
  assumes "2 \<le> base" "base \<le> 36"
  shows "list_all (\<lambda>c. digit_value base c \<noteq> None) (to_digits base n) \<and> digits_value base (to_digits base n) = n"
  using assms
proof (induction base n rule: to_digits.induct)
  case (1 base n)
  show ?case
  proof (cases "n < base")
    case True
    then show ?thesis
      using 1 digit_value_char [of n base] by (simp add: to_digits.simps [of base n] digits_value_def)
  next
    case False
    then show ?thesis
      using 1 digit_value_char [of "n mod base" base] by (simp add: to_digits.simps [of base n] digits_value_snoc)
  qed
qed

lemma takeWhile_all: "list_all P xs \<Longrightarrow> ys = [] \<or> \<not> P (hd ys) \<Longrightarrow> takeWhile P (xs @ ys) = xs"
  by (induction xs) (auto simp: neq_Nil_conv, cases ys, auto)

lemma from_chars_to_digits:
  assumes "2 \<le> base" "base \<le> 36" "n \<le> limit" "rest = [] \<or> digit_value base (hd rest) = None"
  shows "from_chars_unsigned base limit (to_digits base n @ rest) = (EcOk, n, length (to_digits base n))"
  using to_digits_ok [OF assms(1,2), of n] assms(3,4)
  by (simp add: from_chars_unsigned_def takeWhile_all Let_def)

lemma from_chars_read: "from_chars_unsigned base limit s = (EcOk, v, n) \<Longrightarrow> n \<le> length s \<and> v \<le> limit"
  by (auto simp: from_chars_unsigned_def Let_def length_takeWhile_le split: if_splits)

text \<open>Into \<open>size_t\<close>. The second equation is for evaluation: up to fifteen digits fit.\<close>

definition from_chars_size :: "nat \<Rightarrow> bytes \<Rightarrow> from_chars_ec \<times> nat \<times> nat" where
  [code del]: "from_chars_size base s = from_chars_unsigned base SIZE_MAX s"

lemma digits_value_less:
  assumes "list_all (\<lambda>c. digit_value base c \<noteq> None) ds"
  shows "digits_value base ds < base ^ length ds"
  using assms
proof (induction ds rule: rev_induct)
  case (snoc d ds)
  obtain v where v: "digit_value base d = Some v" "v < base"
    using snoc.prems by (auto simp: digit_value_def Let_def split: if_splits)
  have "digits_value base ds + 1 \<le> base ^ length ds"
    using snoc by simp
  then have "(digits_value base ds + 1) * base \<le> base ^ length ds * base"
    by (rule mult_le_mono1)
  then show ?case
    using v by (simp add: digits_value_snoc algebra_simps)
qed (simp add: digits_value_def)

lemma from_chars_size_short [code]:
  "from_chars_size base s =
    (let ds = takeWhile (\<lambda>c. digit_value base c \<noteq> None) s in
     if base \<le> 16 \<and> length ds \<le> 15 then (if ds = [] then (EcInvalid, 0, 0) else (EcOk, digits_value base ds, length ds))
     else from_chars_unsigned base SIZE_MAX s)"
proof -
  obtain ds where ds: "takeWhile (\<lambda>c. digit_value base c \<noteq> None) s = ds" by simp
  then have "digits_value base ds < base ^ length ds"
    by (intro digits_value_less) (auto simp: list_all_iff dest: set_takeWhileD)
  moreover have "base ^ length ds \<le> 16 ^ 15" if "base \<le> 16" "length ds \<le> 15"
    using power_mono [of base 16 "length ds"] power_increasing [of "length ds" 15 "16 :: nat"] that by simp
  ultimately have "base \<le> 16 \<Longrightarrow> length ds \<le> 15 \<Longrightarrow> \<not> SIZE_MAX < digits_value base ds"
    by (fastforce simp: SIZE_MAX_def)
  then show ?thesis
    unfolding from_chars_size_def from_chars_unsigned_def Let_def ds by simp
qed

text \<open>\<open>parseSizeTStrict\<close>: white space around a decimal number that fits \<open>size_t\<close>, and nothing else.\<close>

definition parseSizeTStrict :: "bytes \<Rightarrow> nat option" where
  "parseSizeTStrict input =
    (let t = trimAscii input in
     if t = [] then None
     else (case from_chars_size 10 t of
             (ec, value, n) \<Rightarrow> if ec \<noteq> EcOk \<or> n \<noteq> length t then None else Some value))"

lemma isspace_nat: "isspace c \<longleftrightarrow> unat c = 32 \<or> 9 \<le> unat c \<and> unat c \<le> 13"
proof -
  have "c = 0x20 \<longleftrightarrow> unat c = 32"
    using word_unat_eq_iff [of c "0x20"] by simp
  then show ?thesis
    by (simp add: isspace_def word_le_nat_alt)
qed

lemma digit_value_10: "digit_value 10 c = (if 48 \<le> unat c \<and> unat c \<le> 57 then Some (unat c - 48) else None)"
proof -
  have "(0x30 \<le> c \<longleftrightarrow> 48 \<le> unat c) \<and> (c \<le> 0x39 \<longleftrightarrow> unat c \<le> 57)"
    by (simp add: word_le_nat_alt)
  then show ?thesis
    by (auto simp: digit_value_def Let_def)
qed

lemma digit_not_space: "digit_value 10 c \<noteq> None \<Longrightarrow> \<not> isspace c"
  by (auto simp: digit_value_10 isspace_nat split: if_splits)

lemma trimAscii_id: "s = [] \<or> \<not> isspace (hd s) \<and> \<not> isspace (last s) \<Longrightarrow> trimAscii s = s"
proof -
  assume a: "s = [] \<or> \<not> isspace (hd s) \<and> \<not> isspace (last s)"
  have d: "t = [] \<or> \<not> isspace (hd t) \<Longrightarrow> dropWhile isspace t = t" for t
    by (cases t) auto
  show ?thesis
    using a d [of s] d [of "rev s"] by (auto simp: trimAscii_def hd_rev)
qed

lemma parseSizeTStrict_digits:
  assumes "n \<le> SIZE_MAX"
  shows "parseSizeTStrict (to_digits 10 n) = Some n"
proof -
  have ok: "list_all (\<lambda>c. digit_value 10 c \<noteq> None) (to_digits 10 n)"
    using to_digits_ok [of 10 n] by simp
  have "\<forall>c \<in> set (to_digits 10 n). \<not> isspace c"
    using ok digit_not_space by (simp add: list_all_iff)
  then have "trimAscii (to_digits 10 n) = to_digits 10 n"
    by (intro trimAscii_id) auto
  then show ?thesis
    using from_chars_to_digits [of 10 n SIZE_MAX "[]"] assms by (simp add: parseSizeTStrict_def from_chars_size_def)
qed

section \<open>Enumerations\<close>

datatype HttpErrorCode = kNoError | kIncomplete | kConnectionClose | kTcpRecvError | kTcpSendError | kRequestTimeOut
  | kContentLengthNotContained | kContentLengthConvertError | kHeaderInComplete | kBodyInComplete | kHeaderTooLong | kUriTooLong
  | kChunkHasError | kHttpCodeInvalid | kHeaderPairExist | kHeaderPairNotExist | kBadRequest | kUrlInvalid | kPortInvalid
  | kMethodNotAllow | kVersionNotSupport | kRequestEntityTooLarge | kUriEncodeError | kContentTypeInvalid | kInvalidChunkFormat
  | kInvalidChunkLength | kBodyLengthNotMatch | kRecvTimeOut | kSendTimeOut | kNotFound | kNotImplemented | kUpgradeFailed
  | kUnknownError | kHeaderTooLarge | kRecvError | kSendError | kCloseError | kInternalError | kTcpConnectError | kChunkSizeConvertError

datatype HttpMethod = GET | POST | HEAD | PUT | DELETE | TRACE | OPTIONS | CONNECT | PATCH | PRI | UNKNOWN

datatype HttpVersion = HttpVersion_1_0 | HttpVersion_1_1 | HttpVersion_2_0 | HttpVersion_3_0 | HttpVersion_Unknown

definition g_HttpMethods :: "(HttpMethod \<times> bytes) list" where
  "g_HttpMethods = [(GET, str ''GET''), (POST, str ''POST''), (HEAD, str ''HEAD''), (PUT, str ''PUT''), (DELETE, str ''DELETE''),
     (TRACE, str ''TRACE''), (OPTIONS, str ''OPTIONS''), (CONNECT, str ''CONNECT''), (PATCH, str ''PATCH''), (PRI, str ''PRI''),
     (UNKNOWN, str ''UNKNOWN'')]"

definition g_HttpVersion :: "(HttpVersion \<times> bytes) list" where
  "g_HttpVersion = [(HttpVersion_1_0, str ''HTTP/1.0''), (HttpVersion_1_1, str ''HTTP/1.1''), (HttpVersion_2_0, str ''HTTP/2.0''),
     (HttpVersion_3_0, str ''HTTP/3.0''), (HttpVersion_Unknown, str ''Unknown'')]"

text \<open>A table is searched from its start.\<close>

definition table_find :: "('a \<times> bytes) list \<Rightarrow> 'a \<Rightarrow> bytes \<Rightarrow> 'a" where
  "table_find table dflt s = (case find (\<lambda>e. snd e = s) table of Some e \<Rightarrow> fst e | None \<Rightarrow> dflt)"

definition stringToHttpMethod :: "bytes \<Rightarrow> HttpMethod" where
  "stringToHttpMethod s = table_find g_HttpMethods UNKNOWN s"

definition httpMethodToString :: "HttpMethod \<Rightarrow> bytes" where
  "httpMethodToString m = the (map_of g_HttpMethods m)"

definition stringToHttpVersion :: "bytes \<Rightarrow> HttpVersion" where
  "stringToHttpVersion s = table_find g_HttpVersion HttpVersion_Unknown s"

definition httpVersionToString :: "HttpVersion \<Rightarrow> bytes" where
  "httpVersionToString v = the (map_of g_HttpVersion v)"

lemma method_roundtrip: "stringToHttpMethod (httpMethodToString m) = m"
  by (cases m) (simp_all add: stringToHttpMethod_def httpMethodToString_def table_find_def g_HttpMethods_def str_def)

lemma version_roundtrip: "stringToHttpVersion (httpVersionToString v) = v"
  by (cases v) (simp_all add: stringToHttpVersion_def httpVersionToString_def table_find_def g_HttpVersion_def str_def)

end
