(* ===== verification/Http1_Headers.thy ===== *)
theory Http1_Headers
  imports Http1_Base
begin

text \<open>
  The header store \<open>HeaderPair\<close> of \<^verbatim>\<open>galay-http/protoc/http_header.cc\<close>: fifteen slots with a presence bit for the common names, used on
  the server side, and a \<open>std::map\<close> for the rest. A map is the list of its entries in key order. The lemmas give the store as one
  lookup function and what each operation does to it.
\<close>

section \<open>Maps from strings to strings\<close>

type_synonym string_map = "(bytes \<times> bytes) list"

text \<open>\<open>insert_or_assign\<close>, \<open>erase\<close> and \<open>try_emplace\<close>; keys compare as strings of unsigned octets.\<close>

fun map_assign :: "bytes \<Rightarrow> bytes \<Rightarrow> string_map \<Rightarrow> string_map" where
  "map_assign k v [] = [(k, v)]"
| "map_assign k v ((k', v') # m) =
    (if k = k' then (k, v) # m else if lexordp (<) k k' then (k, v) # (k', v') # m else (k', v') # map_assign k v m)"

definition map_erase :: "bytes \<Rightarrow> string_map \<Rightarrow> string_map" where
  "map_erase k m = filter (\<lambda>e. fst e \<noteq> k) m"

definition map_try_emplace :: "bytes \<Rightarrow> bytes \<Rightarrow> string_map \<Rightarrow> bool \<times> string_map" where
  "map_try_emplace k v m = (case map_of m k of Some _ \<Rightarrow> (False, m) | None \<Rightarrow> (True, map_assign k v m))"

lemma map_of_assign [simp]: "map_of (map_assign k v m) = (map_of m)(k \<mapsto> v)"
  by (induction m) (auto simp: fun_eq_iff)

lemma map_of_erase [simp]: "map_of (map_erase k m) = (map_of m)(k := None)"
  by (induction m) (auto simp: map_erase_def fun_eq_iff)

lemma map_assign_keys: "fst ` set (map_assign k v m) = insert k (fst ` set m)"
proof (induction m)
  case (Cons e m)
  then show ?case by (cases e) (simp add: insert_commute split: if_split)
qed simp

section \<open>Common headers\<close>

datatype CommonHeaderIndex = Host | ContentLength | ContentType | UserAgent | Accept | AcceptEncoding | Connection | CacheControl
  | Cookie | Authorization | IfModifiedSince | IfNoneMatch | Referer | AcceptLanguage | Range | NotCommon

fun common_index :: "CommonHeaderIndex \<Rightarrow> nat" where
  "common_index Host = 0"
| "common_index ContentLength = 1"
| "common_index ContentType = 2"
| "common_index UserAgent = 3"
| "common_index Accept = 4"
| "common_index AcceptEncoding = 5"
| "common_index Connection = 6"
| "common_index CacheControl = 7"
| "common_index Cookie = 8"
| "common_index Authorization = 9"
| "common_index IfModifiedSince = 10"
| "common_index IfNoneMatch = 11"
| "common_index Referer = 12"
| "common_index AcceptLanguage = 13"
| "common_index Range = 14"
| "common_index NotCommon = 255"

definition common_names :: "bytes list" where
  "common_names = [str ''host'', str ''content-length'', str ''content-type'', str ''user-agent'', str ''accept'',
     str ''accept-encoding'', str ''connection'', str ''cache-control'', str ''cookie'', str ''authorization'',
     str ''if-modified-since'', str ''if-none-match'', str ''referer'', str ''accept-language'', str ''range'']"

definition getCommonHeaderName :: "nat \<Rightarrow> bytes" where
  "getCommonHeaderName i = common_names ! i"

definition matchCommonHeader :: "bytes \<Rightarrow> CommonHeaderIndex" where
  "matchCommonHeader key =
    (let len = length key in
     if len < 4 \<or> len > 19 then NotCommon
     else if key ! 0 = 0x68 then
       (if len = 4 \<and> key = str ''host'' then Host else NotCommon)
     else if key ! 0 = 0x63 then
       (if len = 14 \<and> key = str ''content-length'' then ContentLength
        else if len = 12 \<and> key = str ''content-type'' then ContentType
        else if len = 10 \<and> key = str ''connection'' then Connection
        else if len = 13 \<and> key = str ''cache-control'' then CacheControl
        else if len = 6 \<and> key = str ''cookie'' then Cookie else NotCommon)
     else if key ! 0 = 0x75 then
       (if len = 10 \<and> key = str ''user-agent'' then UserAgent else NotCommon)
     else if key ! 0 = 0x61 then
       (if len = 6 \<and> key = str ''accept'' then Accept
        else if len = 15 \<and> key = str ''accept-encoding'' then AcceptEncoding
        else if len = 15 \<and> key = str ''accept-language'' then AcceptLanguage
        else if len = 13 \<and> key = str ''authorization'' then Authorization else NotCommon)
     else if key ! 0 = 0x69 then
       (if len = 17 \<and> key = str ''if-modified-since'' then IfModifiedSince
        else if len = 13 \<and> key = str ''if-none-match'' then IfNoneMatch else NotCommon)
     else if key ! 0 = 0x72 then
       (if len = 7 \<and> key = str ''referer'' then Referer
        else if len = 5 \<and> key = str ''range'' then Range else NotCommon)
     else NotCommon)"

lemma common_index_less: "i \<noteq> NotCommon \<Longrightarrow> common_index i < 15"
  by (cases i) simp_all

lemma common_index_inj: "common_index i = common_index j \<Longrightarrow> i = j"
  by (cases i; cases j) simp_all

text \<open>The switch on the first character and the length finds exactly the fifteen names.\<close>

lemma match_name: "i \<noteq> NotCommon \<Longrightarrow> matchCommonHeader (getCommonHeaderName (common_index i)) = i"
  by (cases i) (simp_all add: matchCommonHeader_def getCommonHeaderName_def common_names_def str_def Let_def)

definition named :: "bytes \<Rightarrow> CommonHeaderIndex \<Rightarrow> bool" where
  "named key i = (i = NotCommon \<or> key = getCommonHeaderName (common_index i))"

lemma named_if: "(b \<Longrightarrow> named key i) \<Longrightarrow> named key j \<Longrightarrow> named key (if b then i else j)"
  by simp

lemma match_name_only:
  assumes "matchCommonHeader key \<noteq> NotCommon"
  shows "key = getCommonHeaderName (common_index (matchCommonHeader key))"
proof -
  have "named key (matchCommonHeader key)"
    unfolding matchCommonHeader_def Let_def by (intro named_if) (simp_all add: named_def getCommonHeaderName_def common_names_def)
  then show ?thesis
    using assms by (simp add: named_def)
qed

section \<open>The store\<close>

datatype Mode = ServerSide | ClientSide

record HeaderPair =
  hp_commonHeaders :: "bytes list"
  hp_headerPairs :: string_map
  hp_commonHeaderPresent :: "bool list"
  hp_mode :: Mode

definition new_headers :: "Mode \<Rightarrow> HeaderPair" where
  "new_headers mode = \<lparr>hp_commonHeaders = replicate 15 [], hp_headerPairs = [], hp_commonHeaderPresent = replicate 15 False, hp_mode = mode\<rparr>"

definition normalizeKey :: "Mode \<Rightarrow> bytes \<Rightarrow> bytes" where
  "normalizeKey mode key =
    (case mode of ServerSide \<Rightarrow> if \<not> hasUpperAscii key then key else toLowerAscii key | ClientSide \<Rightarrow> toCanonicalHeaderKey key)"

definition findHeaderPair :: "Mode \<Rightarrow> string_map \<Rightarrow> bytes \<Rightarrow> bytes option" where
  "findHeaderPair mode m key =
    (case mode of
       ServerSide \<Rightarrow>
         (case map_of m key of
            Some _ \<Rightarrow> Some key
          | None \<Rightarrow> if \<not> hasUpperAscii key then None
                    else (case map_of m (toLowerAscii key) of Some _ \<Rightarrow> Some (toLowerAscii key) | None \<Rightarrow> None))
     | ClientSide \<Rightarrow>
         (case map_of m key of
            Some _ \<Rightarrow> Some key
          | None \<Rightarrow> if toCanonicalHeaderKey key = key then None
                    else (case map_of m (toCanonicalHeaderKey key) of Some _ \<Rightarrow> Some (toCanonicalHeaderKey key) | None \<Rightarrow> None)))"

definition hasCommonHeader :: "CommonHeaderIndex \<Rightarrow> HeaderPair \<Rightarrow> bool" where
  "hasCommonHeader idx h = hp_commonHeaderPresent h ! common_index idx"

definition setCommonHeader :: "CommonHeaderIndex \<Rightarrow> bytes \<Rightarrow> HeaderPair \<Rightarrow> HeaderPair" where
  "setCommonHeader idx value h =
    (let i = common_index idx in
     if hp_commonHeaderPresent h ! i
     then h\<lparr>hp_commonHeaders := (hp_commonHeaders h)[i := hp_commonHeaders h ! i @ str '', '' @ value]\<rparr>
     else h\<lparr>hp_commonHeaders := (hp_commonHeaders h)[i := value], hp_commonHeaderPresent := (hp_commonHeaderPresent h)[i := True]\<rparr>)"

definition getCommonHeader :: "CommonHeaderIndex \<Rightarrow> HeaderPair \<Rightarrow> bytes" where
  "getCommonHeader idx h = (if hp_commonHeaderPresent h ! common_index idx then hp_commonHeaders h ! common_index idx else [])"

definition getValuePtr :: "bytes \<Rightarrow> HeaderPair \<Rightarrow> bytes option" where
  "getValuePtr key h =
    (let normalized = (if hasUpperAscii key then toLowerAscii key else key); idx = matchCommonHeader normalized in
     if hp_mode h = ServerSide \<and> idx \<noteq> NotCommon then
       (if hasCommonHeader idx h then Some (hp_commonHeaders h ! common_index idx) else None)
     else (case findHeaderPair (hp_mode h) (hp_headerPairs h) key of Some k \<Rightarrow> map_of (hp_headerPairs h) k | None \<Rightarrow> None))"

definition getValue :: "bytes \<Rightarrow> HeaderPair \<Rightarrow> bytes" where
  "getValue key h = (case getValuePtr key h of Some value \<Rightarrow> value | None \<Rightarrow> [])"

definition hasKey :: "bytes \<Rightarrow> HeaderPair \<Rightarrow> bool" where
  "hasKey key h = (getValuePtr key h \<noteq> None)"

definition removeHeaderPair :: "bytes \<Rightarrow> HeaderPair \<Rightarrow> HttpErrorCode \<times> HeaderPair" where
  "removeHeaderPair key h =
    (let normalized = normalizeKey ServerSide key; idx = matchCommonHeader normalized; i = common_index idx in
     if hp_mode h = ServerSide \<and> idx \<noteq> NotCommon \<and> hp_commonHeaderPresent h ! i then
       (kNoError, h\<lparr>hp_commonHeaders := (hp_commonHeaders h)[i := []], hp_commonHeaderPresent := (hp_commonHeaderPresent h)[i := False]\<rparr>)
     else
       (case findHeaderPair (hp_mode h) (hp_headerPairs h) key of
          None \<Rightarrow> (kHeaderPairNotExist, h)
        | Some k \<Rightarrow> (kNoError, h\<lparr>hp_headerPairs := map_erase k (hp_headerPairs h)\<rparr>)))"

definition try_emplace_header :: "bytes \<Rightarrow> bytes \<Rightarrow> HeaderPair \<Rightarrow> HttpErrorCode \<times> HeaderPair" where
  "try_emplace_header key value h =
    (case map_try_emplace key value (hp_headerPairs h) of
       (inserted, m) \<Rightarrow> (if inserted then kNoError else kHeaderPairExist, h\<lparr>hp_headerPairs := m\<rparr>))"

definition addHeaderPairIfNotExist :: "bytes \<Rightarrow> bytes \<Rightarrow> HeaderPair \<Rightarrow> HttpErrorCode \<times> HeaderPair" where
  "addHeaderPairIfNotExist key value h =
    (case hp_mode h of
       ServerSide \<Rightarrow>
         (let normalized = normalizeKey ServerSide key; idx = matchCommonHeader normalized in
          if idx \<noteq> NotCommon then
            (if hasCommonHeader idx h then (kHeaderPairExist, h) else (kNoError, setCommonHeader idx value h))
          else try_emplace_header normalized value h)
     | ClientSide \<Rightarrow> try_emplace_header (toCanonicalHeaderKey key) value h)"

definition setNormalizedUncommonHeaderPair :: "bytes \<Rightarrow> bytes \<Rightarrow> HeaderPair \<Rightarrow> HeaderPair" where
  "setNormalizedUncommonHeaderPair key value h = h\<lparr>hp_headerPairs := map_assign key value (hp_headerPairs h)\<rparr>"

definition addHeaderPair :: "bytes \<Rightarrow> bytes \<Rightarrow> HeaderPair \<Rightarrow> HttpErrorCode \<times> HeaderPair" where
  "addHeaderPair key value h =
    (case hp_mode h of
       ServerSide \<Rightarrow>
         (let normalized = normalizeKey ServerSide key; idx = matchCommonHeader normalized in
          if idx \<noteq> NotCommon then (kNoError, setCommonHeader idx value h)
          else (kNoError, setNormalizedUncommonHeaderPair normalized value h))
     | ClientSide \<Rightarrow> (kNoError, setNormalizedUncommonHeaderPair (toCanonicalHeaderKey key) value h))"

definition addNormalizedHeaderPair :: "bytes \<Rightarrow> bytes \<Rightarrow> HeaderPair \<Rightarrow> HttpErrorCode \<times> HeaderPair" where
  "addNormalizedHeaderPair key value h =
    (let idx = matchCommonHeader key; i = common_index idx in
     if hp_mode h = ServerSide \<and> idx \<noteq> NotCommon
     then (kNoError, h\<lparr>hp_commonHeaders := (hp_commonHeaders h)[i := value], hp_commonHeaderPresent := (hp_commonHeaderPresent h)[i := True]\<rparr>)
     else (kNoError, setNormalizedUncommonHeaderPair key value h))"

definition mergeNormalizedUncommonHeaderPair :: "bytes \<Rightarrow> bytes \<Rightarrow> HeaderPair \<Rightarrow> HeaderPair" where
  "mergeNormalizedUncommonHeaderPair key value h =
    (case map_try_emplace key value (hp_headerPairs h) of
       (True, m) \<Rightarrow> h\<lparr>hp_headerPairs := m\<rparr>
     | (False, m) \<Rightarrow> h\<lparr>hp_headerPairs := map_assign key (the (map_of m key) @ str '', '' @ value) m\<rparr>)"

definition header_line :: "bytes \<Rightarrow> bytes \<Rightarrow> bytes" where
  "header_line k v = k @ str '': '' @ v @ [CR, LF]"

text \<open>The headers in the order in which \<open>appendTo\<close> and \<open>forEachHeader\<close> visit them.\<close>

definition all_headers :: "HeaderPair \<Rightarrow> string_map" where
  "all_headers h =
    map (\<lambda>i. (getCommonHeaderName i, hp_commonHeaders h ! i)) (filter (\<lambda>i. hp_commonHeaderPresent h ! i) [0..<length (hp_commonHeaders h)])
    @ hp_headerPairs h"

definition appendTo :: "bytes \<Rightarrow> HeaderPair \<Rightarrow> bytes" where
  "appendTo out h = out @ concat (map (\<lambda>(k, v). header_line k v) (all_headers h))"

definition estimatedSerializedSize :: "HeaderPair \<Rightarrow> nat" where
  "estimatedSerializedSize h = sum_list (map (\<lambda>(k, v). length k + length v + 4) (all_headers h))"

definition clear_headers :: "HeaderPair \<Rightarrow> HeaderPair" where
  "clear_headers h =
    (let h = (if hp_mode h = ServerSide
              then h\<lparr>hp_commonHeaders := map (\<lambda>(p, v). if p then [] else v) (zip (hp_commonHeaderPresent h) (hp_commonHeaders h)),
                     hp_commonHeaderPresent := replicate 15 False\<rparr>
              else h)
     in h\<lparr>hp_headerPairs := []\<rparr>)"

section \<open>The invariant and the lookup laws\<close>

text \<open>
  On the server side the keys of the map are lower case and not common; a client's common slots are empty and its keys canonical.
\<close>

definition hp_ok :: "HeaderPair \<Rightarrow> bool" where
  "hp_ok h = (length (hp_commonHeaders h) = 15 \<and> length (hp_commonHeaderPresent h) = 15
    \<and> (case hp_mode h of
         ServerSide \<Rightarrow> \<forall>k \<in> fst ` set (hp_headerPairs h). \<not> hasUpperAscii k \<and> matchCommonHeader k = NotCommon
       | ClientSide \<Rightarrow> hp_commonHeaderPresent h = replicate 15 False))"

lemma new_headers_ok [simp]: "hp_ok (new_headers mode)"
  by (cases mode) (simp_all add: hp_ok_def new_headers_def)

lemma lower_char_nat:
  "unat (toLowerAsciiChar c) = (if 65 \<le> unat c \<and> unat c \<le> 90 then unat c + 32 else unat c)"
proof -
  have r: "(0x41 \<le> c \<longleftrightarrow> 65 \<le> unat c) \<and> (c \<le> 0x5A \<longleftrightarrow> unat c \<le> 90)"
    by (simp add: word_le_nat_alt)
  have "unat c \<le> 90 \<Longrightarrow> unat (c + 0x20) = unat c + 32"
    by (simp add: unat_word_ariths)
  then show ?thesis
    using r by (simp add: toLowerAsciiChar_def)
qed

lemma upper_test_nat: "(0x41 \<le> c \<and> c \<le> (0x5A :: u8)) \<longleftrightarrow> 65 \<le> unat c \<and> unat c \<le> 90"
  by (simp add: word_le_nat_alt)

lemma lower_no_upper [simp]: "\<not> hasUpperAscii (toLowerAscii k)"
  unfolding hasUpperAscii_def toLowerAscii_def list_ex_iff upper_test_nat
  by (auto simp: lower_char_nat split: if_splits)

lemma lower_id: "\<not> hasUpperAscii k \<Longrightarrow> toLowerAscii k = k"
  unfolding hasUpperAscii_def toLowerAscii_def list_ex_iff toLowerAsciiChar_def by (auto intro: map_idI)

lemma normalize_server [simp]: "normalizeKey ServerSide k = toLowerAscii k" "(if hasUpperAscii k then toLowerAscii k else k) = toLowerAscii k"
  by (simp_all add: normalizeKey_def lower_id)

lemma lower_idem [simp]: "toLowerAscii (toLowerAscii k) = toLowerAscii k"
  by (simp add: lower_id)

text \<open>The lookup of a server-side store: one function of the lower-case key.\<close>

definition server_lookup :: "HeaderPair \<Rightarrow> bytes \<Rightarrow> bytes option" where
  "server_lookup h k =
    (let idx = matchCommonHeader k in
     if idx \<noteq> NotCommon then (if hasCommonHeader idx h then Some (hp_commonHeaders h ! common_index idx) else None)
     else map_of (hp_headerPairs h) k)"

lemma getValuePtr_server:
  assumes "hp_ok h" "hp_mode h = ServerSide"
  shows "getValuePtr key h = server_lookup h (toLowerAscii key)"
proof -
  have "hasUpperAscii key \<Longrightarrow> map_of (hp_headerPairs h) key = None"
    using assms by (auto simp: hp_ok_def map_of_eq_None_iff)
  then show ?thesis
    using assms(2) by (auto simp: getValuePtr_def server_lookup_def findHeaderPair_def Let_def lower_id split: option.splits)
qed

lemma setCommonHeader_ok: "hp_ok h \<Longrightarrow> hp_mode h = ServerSide \<Longrightarrow> hp_ok (setCommonHeader idx v h)"
  by (auto simp: hp_ok_def setCommonHeader_def Let_def)

lemma setCommonHeader_mode [simp]: "hp_mode (setCommonHeader idx v h) = hp_mode h"
  by (simp add: setCommonHeader_def Let_def)

definition merged :: "bytes option \<Rightarrow> bytes \<Rightarrow> bytes" where
  "merged old v = (case old of None \<Rightarrow> v | Some w \<Rightarrow> w @ str '', '' @ v)"

lemma common_update_lookup:
  assumes "length (hp_commonHeaders h) = 15" "length (hp_commonHeaderPresent h) = 15" "matchCommonHeader k \<noteq> NotCommon"
  shows "server_lookup (h\<lparr>hp_commonHeaders := (hp_commonHeaders h)[common_index (matchCommonHeader k) := v],
      hp_commonHeaderPresent := (hp_commonHeaderPresent h)[common_index (matchCommonHeader k) := b]\<rparr>)
    = (server_lookup h)(k := if b then Some v else None)"
proof
  fix k'
  have i: "common_index (matchCommonHeader k) < 15"
    using common_index_less assms(3) by blast
  show "server_lookup (h\<lparr>hp_commonHeaders := (hp_commonHeaders h)[common_index (matchCommonHeader k) := v],
      hp_commonHeaderPresent := (hp_commonHeaderPresent h)[common_index (matchCommonHeader k) := b]\<rparr>) k'
    = ((server_lookup h)(k := if b then Some v else None)) k'"
  proof (cases "matchCommonHeader k' = matchCommonHeader k")
    case True
    then have "k' = k" using match_name_only assms(3) by metis
    then show ?thesis
      using assms i by (simp add: server_lookup_def hasCommonHeader_def Let_def)
  next
    case False
    then have "common_index (matchCommonHeader k') \<noteq> common_index (matchCommonHeader k)" "k' \<noteq> k"
      using common_index_inj by blast+
    then show ?thesis
      using assms i by (simp add: server_lookup_def hasCommonHeader_def Let_def)
  qed
qed

lemma setCommonHeader_lookup:
  assumes "hp_ok h" "matchCommonHeader k \<noteq> NotCommon"
  shows "server_lookup (setCommonHeader (matchCommonHeader k) v h) = (server_lookup h)(k \<mapsto> merged (server_lookup h k) v)"
proof -
  have l: "length (hp_commonHeaders h) = 15" "length (hp_commonHeaderPresent h) = 15"
    using assms(1) by (simp_all add: hp_ok_def)
  let ?i = "common_index (matchCommonHeader k)"
  show ?thesis
  proof (cases "hp_commonHeaderPresent h ! ?i")
    case True
    then have "(hp_commonHeaderPresent h)[?i := True] = hp_commonHeaderPresent h"
      by (metis (full_types) list_update_id)
    then have "setCommonHeader (matchCommonHeader k) v h = h\<lparr>hp_commonHeaders := (hp_commonHeaders h)[?i := hp_commonHeaders h ! ?i @ str '', '' @ v],
        hp_commonHeaderPresent := (hp_commonHeaderPresent h)[?i := True]\<rparr>"
      using True by (simp add: setCommonHeader_def Let_def)
    then show ?thesis
      using common_update_lookup [OF l assms(2), where b = True] True assms(2)
      by (simp add: merged_def server_lookup_def [of h k] hasCommonHeader_def)
  next
    case False
    then show ?thesis
      using common_update_lookup [OF l assms(2), where b = True] assms(2)
      by (simp add: setCommonHeader_def merged_def server_lookup_def [of h k] hasCommonHeader_def Let_def)
  qed
qed

lemma merge_lookup:
  assumes "matchCommonHeader k = NotCommon"
  shows "server_lookup (mergeNormalizedUncommonHeaderPair k v h) = (server_lookup h)(k \<mapsto> merged (server_lookup h k) v)"
proof
  show "server_lookup (mergeNormalizedUncommonHeaderPair k v h) k' = ((server_lookup h)(k \<mapsto> merged (server_lookup h k) v)) k'" for k'
    using assms by (auto simp: server_lookup_def mergeNormalizedUncommonHeaderPair_def hasCommonHeader_def map_try_emplace_def merged_def Let_def
        split: option.splits)
qed

lemma merge_ok:
  assumes "hp_ok h" "hp_mode h = ServerSide" "matchCommonHeader k = NotCommon" "\<not> hasUpperAscii k"
  shows "hp_ok (mergeNormalizedUncommonHeaderPair k v h) \<and> hp_mode (mergeNormalizedUncommonHeaderPair k v h) = ServerSide"
proof -
  have "\<forall>k' \<in> fst ` set (map_assign k w (hp_headerPairs h)). \<not> hasUpperAscii k' \<and> matchCommonHeader k' = NotCommon" for w
    using assms by (simp add: map_assign_keys hp_ok_def)
  then show ?thesis
    using assms by (simp add: hp_ok_def mergeNormalizedUncommonHeaderPair_def map_try_emplace_def split: option.split)
qed

lemma addHeaderPair_server:
  assumes "hp_ok h" "hp_mode h = ServerSide"
  shows "hp_ok (snd (addHeaderPair k v h)) \<and> hp_mode (snd (addHeaderPair k v h)) = ServerSide
    \<and> server_lookup (snd (addHeaderPair k v h)) = (server_lookup h)(toLowerAscii k \<mapsto>
        (if matchCommonHeader (toLowerAscii k) = NotCommon then v else merged (server_lookup h (toLowerAscii k)) v))"
proof (cases "matchCommonHeader (toLowerAscii k) = NotCommon")
  case True
  have "\<forall>k' \<in> fst ` set (map_assign (toLowerAscii k) v (hp_headerPairs h)). \<not> hasUpperAscii k' \<and> matchCommonHeader k' = NotCommon"
    using assms True by (auto simp: map_assign_keys hp_ok_def)
  then show ?thesis
    using assms True by (auto simp: addHeaderPair_def setNormalizedUncommonHeaderPair_def hp_ok_def server_lookup_def hasCommonHeader_def
        Let_def fun_eq_iff)
next
  case False
  then show ?thesis
    using assms setCommonHeader_lookup [OF assms(1) False] setCommonHeader_ok [OF assms]
    by (simp add: addHeaderPair_def)
qed

lemma removeHeaderPair_server:
  assumes "hp_ok h" "hp_mode h = ServerSide"
  shows "hp_ok (snd (removeHeaderPair k h)) \<and> hp_mode (snd (removeHeaderPair k h)) = ServerSide
    \<and> server_lookup (snd (removeHeaderPair k h)) = (server_lookup h)(toLowerAscii k := None)"
proof -
  let ?k = "toLowerAscii k" and ?i = "common_index (matchCommonHeader (toLowerAscii k))"
  have up: "hasUpperAscii k \<Longrightarrow> map_of (hp_headerPairs h) k = None"
    using assms by (auto simp: hp_ok_def map_of_eq_None_iff)
  show ?thesis
  proof (cases "matchCommonHeader ?k = NotCommon")
    case True
    have e: "snd (removeHeaderPair k h) = h\<lparr>hp_headerPairs := map_erase ?k (hp_headerPairs h)\<rparr> \<or>
       snd (removeHeaderPair k h) = h \<and> map_of (hp_headerPairs h) ?k = None"
      using assms(2) True up by (auto simp: removeHeaderPair_def findHeaderPair_def Let_def lower_id split: option.splits)
    have "hp_ok (h\<lparr>hp_headerPairs := map_erase ?k (hp_headerPairs h)\<rparr>)"
      using assms by (auto simp: hp_ok_def map_erase_def)
    then show ?thesis
      using e assms True by (auto simp: server_lookup_def hasCommonHeader_def Let_def fun_eq_iff)
  next
    case False
    have none: "map_of (hp_headerPairs h) ?k = None"
      using assms False by (auto simp: hp_ok_def map_of_eq_None_iff)
    have i: "?i < 15" using common_index_less False by blast
    have e: "snd (removeHeaderPair k h) = h\<lparr>hp_commonHeaders := (hp_commonHeaders h)[?i := []],
        hp_commonHeaderPresent := (hp_commonHeaderPresent h)[?i := False]\<rparr> \<or> snd (removeHeaderPair k h) = h \<and> \<not> hp_commonHeaderPresent h ! ?i"
      using assms(2) False up none by (auto simp: removeHeaderPair_def findHeaderPair_def Let_def lower_id split: option.splits)
    have l: "length (hp_commonHeaders h) = 15" "length (hp_commonHeaderPresent h) = 15"
      using assms(1) by (simp_all add: hp_ok_def)
    have "\<not> hp_commonHeaderPresent h ! ?i \<Longrightarrow> server_lookup h ?k = None"
      using False by (simp add: server_lookup_def hasCommonHeader_def)
    then show ?thesis
      using e assms common_update_lookup [OF l False, where v = "[]" and b = False] by (auto simp: hp_ok_def)
  qed
qed

text \<open>The size that is reserved is the size that is written.\<close>

lemma estimated_size: "length (appendTo out h) = length out + estimatedSerializedSize h"
proof -
  have "length (concat (map (\<lambda>(k, v). header_line k v) xs)) = sum_list (map (\<lambda>(k, v). length k + length v + 4) xs)" for xs
    by (induction xs) (auto simp: header_line_def str_def)
  then show ?thesis
    by (simp add: appendTo_def estimatedSerializedSize_def)
qed

end
