(* ===== verification/Http1_Uri.thy ===== *)
theory Http1_Uri
  imports Http1_Headers
begin

text \<open>
  The request target in \<^verbatim>\<open>galay-http/protoc/http_header.cc\<close>: percent decoding and encoding, and the split of the query into arguments.
  A decoding error, the flag \<open>m_uriDecodeError\<close> of the code, is \<^term>\<open>None\<close>.
\<close>

section \<open>Percent coding\<close>

definition isHex :: "u8 \<Rightarrow> nat option" where
  "isHex c =
    (if 0x30 \<le> c \<and> c \<le> 0x39 then Some (unat c - 0x30)
     else if 0x41 \<le> c \<and> c \<le> 0x46 then Some (unat c - 0x41 + 10)
     else if 0x61 \<le> c \<and> c \<le> 0x66 then Some (unat c - 0x61 + 10) else None)"

fun hex_loop :: "bytes \<Rightarrow> nat \<Rightarrow> nat option" where
  "hex_loop [] val = Some val"
| "hex_loop (c # cs) val = (case isHex c of Some v \<Rightarrow> hex_loop cs (val * 16 + v) | None \<Rightarrow> None)"

text \<open>The first \<open>cnt\<close> octets of what is left of the string.\<close>

definition fromHexToI :: "bytes \<Rightarrow> nat \<Rightarrow> nat option" where
  "fromHexToI s cnt = (if s = [] \<or> cnt > length s then None else hex_loop (take cnt s) 0)"

definition toUtf8 :: "nat \<Rightarrow> bytes" where
  "toUtf8 code =
    (if code < 0x80 then [of_nat (code AND 0x7F)]
     else if code < 0x800 then [of_nat (0xC0 OR (drop_bit 6 code AND 0x1F)), of_nat (0x80 OR (code AND 0x3F))]
     else if code < 0xD800 then
       [of_nat (0xE0 OR (drop_bit 12 code AND 0xF)), of_nat (0x80 OR (drop_bit 6 code AND 0x3F)), of_nat (0x80 OR (code AND 0x3F))]
     else if code < 0xE000 then []
     else if code < 0x10000 then
       [of_nat (0xE0 OR (drop_bit 12 code AND 0xF)), of_nat (0x80 OR (drop_bit 6 code AND 0x3F)), of_nat (0x80 OR (code AND 0x3F))]
     else if code < 0x110000 then
       [of_nat (0xF0 OR (drop_bit 18 code AND 0x7)), of_nat (0x80 OR (drop_bit 12 code AND 0x3F)),
        of_nat (0x80 OR (drop_bit 6 code AND 0x3F)), of_nat (0x80 OR (code AND 0x3F))]
     else [])"

function convertFromUri :: "bool \<Rightarrow> bytes \<Rightarrow> bytes option" where
  "convertFromUri plus_space [] = Some []"
| "convertFromUri plus_space (c # rest) =
    (if c = 0x25 then
       (if rest = [] then None
        else if hd rest = 0x75 then
          (case fromHexToI (tl rest) 4 of
             None \<Rightarrow> None
           | Some val \<Rightarrow> if toUtf8 val = [] then None
                         else map_option (\<lambda>r. toUtf8 val @ r) (convertFromUri plus_space (drop 5 rest)))
        else
          (case fromHexToI rest 2 of
             None \<Rightarrow> None
           | Some val \<Rightarrow> map_option (\<lambda>r. of_nat val # r) (convertFromUri plus_space (drop 2 rest))))
     else if plus_space \<and> c = 0x2B then map_option (\<lambda>r. 0x20 # r) (convertFromUri plus_space rest)
     else map_option (\<lambda>r. c # r) (convertFromUri plus_space rest))"
  by pat_completeness auto
termination
  by (relation "measure (\<lambda>(_, url). length url)") auto

definition hex_upper :: "nat \<Rightarrow> u8" where
  "hex_upper d = (if d < 10 then of_nat (0x30 + d) else of_nat (0x41 + (d - 10)))"

definition uri_char :: "u8 \<Rightarrow> bytes" where
  "uri_char c =
    (if c = 0x20 then str ''%20'' else if c = 0x2B then str ''%2B'' else if c = 0x0D then str ''%0D'' else if c = 0x0A then str ''%0A''
     else if c = 0x27 then str ''%27'' else if c = 0x2C then str ''%2C'' else if c = 0x3B then str ''%3B''
     else if c \<ge> 0x80 then [0x25, hex_upper (unat c div 16), hex_upper (unat c mod 16)] else [c])"

definition convertToUri :: "bytes \<Rightarrow> bytes" where
  "convertToUri url = concat (map uri_char url)"

section \<open>Query arguments\<close>

fun args_loop :: "bytes \<Rightarrow> bool \<Rightarrow> bytes \<Rightarrow> bytes \<Rightarrow> string_map \<Rightarrow> string_map" where
  "args_loop [] in_value key value m = m"
| "args_loop (c # cs) in_value key value m =
    (if \<not> in_value then
       (if c = 0x3D then args_loop cs True key value m else args_loop cs False (key @ [c]) value m)
     else if c = 0x26 then args_loop cs False [] [] (map_assign key value m)
     else args_loop cs True key (value @ [c]) (if cs = [] then map_assign key (value @ [c]) m else m))"

text \<open>\<open>parseArgs\<close> on the path and the arguments of the header.\<close>

definition parseArgs :: "bytes \<Rightarrow> bytes \<times> string_map \<Rightarrow> bytes \<times> string_map" where
  "parseArgs uri st =
    (if 0x3F \<in> set uri then
       (takeWhile (\<lambda>c. c \<noteq> 0x3F) uri, args_loop (drop (length (takeWhile (\<lambda>c. c \<noteq> 0x3F) uri) + 1) uri) False [] [] (snd st))
     else st)"

section \<open>Round trips\<close>

lemma isHex_upper: "d < 16 \<Longrightarrow> isHex (hex_upper d) = Some d"
proof -
  assume d: "d < 16"
  have "\<forall>d \<in> set [0..<16]. isHex (hex_upper d) = Some d"
    by code_simp
  then show ?thesis using d by simp
qed

lemma decode_escape:
  assumes "a < 16" "b < 16"
  shows "convertFromUri plus_space (0x25 # hex_upper a # hex_upper b # r) = map_option (\<lambda>r. of_nat (a * 16 + b) # r) (convertFromUri plus_space r)"
proof -
  have "\<forall>d \<in> set [0..<16]. hex_upper d \<noteq> 0x75"
    by code_simp
  then have "hex_upper a \<noteq> 0x75"
    using assms(1) by simp
  then show ?thesis
    using isHex_upper [OF assms(1)] isHex_upper [OF assms(2)] by (simp add: fromHexToI_def)
qed

lemma decode_uri_char:
  assumes "c \<noteq> 0x25"
  shows "convertFromUri False (uri_char c @ r) = map_option (\<lambda>r. c # r) (convertFromUri False r)"
proof -
  have esc: "convertFromUri False ([0x25, hex_upper a, hex_upper b] @ r) = map_option (\<lambda>r. c # r) (convertFromUri False r)"
    if "a < 16" "b < 16" "c = of_nat (a * 16 + b)" for a b
    using decode_escape [OF that(1,2), of False r] that(3) by simp
  have tables: "str ''%20'' = [0x25, hex_upper 2, hex_upper 0]" "str ''%2B'' = [0x25, hex_upper 2, hex_upper 11]"
    "str ''%0D'' = [0x25, hex_upper 0, hex_upper 13]" "str ''%0A'' = [0x25, hex_upper 0, hex_upper 10]"
    "str ''%27'' = [0x25, hex_upper 2, hex_upper 7]" "str ''%2C'' = [0x25, hex_upper 2, hex_upper 12]"
    "str ''%3B'' = [0x25, hex_upper 3, hex_upper 11]"
    by code_simp+
  have high: "c = of_nat (unat c div 16 * 16 + unat c mod 16)"
    by simp
  have small: "unat c div 16 < 16" "unat c mod 16 < 16"
    by (simp_all add: less_mult_imp_div_less)
  show ?thesis
    unfolding uri_char_def tables using assms esc [of 2 0] esc [of 2 11] esc [of 0 13] esc [of 0 10] esc [of 2 7] esc [of 2 12] esc [of 3 11]
      esc [OF small high]
    by simp
qed

text \<open>Decoding undoes encoding, as long as the text has no percent sign, which the encoder leaves alone.\<close>

lemma uri_roundtrip: "0x25 \<notin> set u \<Longrightarrow> convertFromUri False (convertToUri u) = Some u"
  by (induction u) (auto simp: convertToUri_def decode_uri_char)

text \<open>Arguments survive being written as a query, when keys and values are free of the separators and the last value is not empty.\<close>

definition query_of :: "string_map \<Rightarrow> bytes" where
  "query_of args = concat (map (\<lambda>(k, v). k @ 0x3D # v @ [0x26]) args)"

lemma args_key: "0x3D \<notin> set k \<Longrightarrow> args_loop (k @ 0x3D # r) False k0 v0 m = args_loop r True (k0 @ k) v0 m"
  by (induction k arbitrary: k0) auto

lemma args_value: "0x26 \<notin> set v \<Longrightarrow> args_loop (v @ 0x26 # r) True k v0 m = args_loop r False [] [] (map_assign k (v0 @ v) m)"
  by (induction v arbitrary: v0) auto

lemma args_last: "0x26 \<notin> set v \<Longrightarrow> v \<noteq> [] \<Longrightarrow> args_loop v True k v0 m = map_assign k (v0 @ v) m"
  by (induction v arbitrary: v0) auto

lemma args_query:
  assumes "list_all (\<lambda>(k, v). 0x3D \<notin> set k \<and> 0x26 \<notin> set v) args" "0x3D \<notin> set k" "0x26 \<notin> set v" "v \<noteq> []"
  shows "args_loop (query_of args @ k @ 0x3D # v) False [] [] m = fold (\<lambda>(k, v). map_assign k v) (args @ [(k, v)]) m"
  using assms(1)
proof (induction args arbitrary: m)
  case Nil
  then show ?case
    using assms(2-4) by (simp add: query_of_def args_key args_last)
next
  case (Cons a args)
  then show ?case
    by (cases a) (simp add: query_of_def args_key args_value)
qed

text \<open>
  The target is decoded before it is split: an encoded ampersand or question mark separates like a plain one. And an argument at the end of the query
  with an empty value is dropped, while the same argument before another one is kept.
\<close>

lemma encoded_separators_split:
  "map_option (\<lambda>u. parseArgs u ([], [])) (convertFromUri False (str ''/a?x=1%26y=2''))
     = Some (str ''/a'', [(str ''x'', str ''1''), (str ''y'', str ''2'')])"
  "map_option (\<lambda>u. parseArgs u ([], [])) (convertFromUri False (str ''/a%3Fx=1''))
     = Some (str ''/a'', [(str ''x'', str ''1'')])"
  by code_simp+

lemma last_empty_argument_dropped:
  "parseArgs (str ''/a?x='') ([], []) = (str ''/a'', [])"
  "parseArgs (str ''/a?x=&y=1'') ([], []) = (str ''/a'', [(str ''x'', []), (str ''y'', str ''1'')])"
  by code_simp+

end
