(* ===== verification/Octet_Machine.thy ===== *)
theory Octet_Machine
  imports Galay_Prelude
begin

text \<open>
  Incremental parsers. The text protocols of galay are written twice: as a machine that takes one octet at a time, and as a loop that
  walks memory segments and takes as many octets per turn as the state allows. The loop is written here once, with the turn as an argument; the
  locale says what a turn has to do with the octets it takes, and shows that the loop then is the machine on the concatenation of the
  segments, so that the cuts between segments, and between calls, do not matter.
\<close>

section \<open>The loop over segments\<close>

datatype 'e verdict = More | Finished | Failed 'e

fun octets_run :: "(u8 \<Rightarrow> 's \<Rightarrow> 'e verdict \<times> 's) \<Rightarrow> bytes \<Rightarrow> 's \<Rightarrow> 'e verdict \<times> nat \<times> 's" where
  "octets_run f [] s = (More, 0, s)"
| "octets_run f (c # cs) s =
    (case f c s of
       (More, s') \<Rightarrow> (case octets_run f cs s' of (v, n, s'') \<Rightarrow> (v, n + 1, s''))
     | (v, s') \<Rightarrow> (v, 1, s'))"

text \<open>
  One segment: \<open>while (i < len) switch (state)\<close>, a pass through the switch being a turn that reports how many octets it took. Every turn of the
  code takes at least one (the laws of the locale); the guard on none makes the loop a total function.
\<close>

function segment_loop :: "(bytes \<Rightarrow> 's \<Rightarrow> 'e verdict \<times> nat \<times> 's) \<Rightarrow> bytes \<Rightarrow> 's \<Rightarrow> 'e verdict \<times> nat \<times> 's" where
  "segment_loop turn data s =
    (if data = [] then (More, 0, s)
     else
       case turn data s of
         (More, n, s') \<Rightarrow>
           if n = 0 then (More, 0, s')
           else (case segment_loop turn (drop n data) s' of (v, m, s'') \<Rightarrow> (v, n + m, s''))
       | (v, n, s') \<Rightarrow> (v, n, s'))"
  by pat_completeness auto
termination
  by (relation "measure (\<lambda>(_, data, _). length data)") auto

declare segment_loop.simps [simp del]

fun iovec_loop :: "(bytes \<Rightarrow> 's \<Rightarrow> 'e verdict \<times> nat \<times> 's) \<Rightarrow> bytes list \<Rightarrow> 's \<Rightarrow> 'e verdict \<times> nat \<times> 's" where
  "iovec_loop turn [] s = (More, 0, s)"
| "iovec_loop turn (iov # iovs) s =
    (case segment_loop turn iov s of
       (More, n, s') \<Rightarrow> (case iovec_loop turn iovs s' of (v, m, s'') \<Rightarrow> (v, n + m, s''))
     | (v, n, s') \<Rightarrow> (v, n, s'))"

text \<open>What every turn keeps, every loop keeps, whatever the verdict.\<close>

lemma segment_loop_keeps:
  assumes "\<And>data s. P s \<Longrightarrow> data \<noteq> [] \<Longrightarrow> P (snd (snd (turn data s)))" "P s"
  shows "P (snd (snd (segment_loop turn data s)))"
  using assms(2)
proof (induction "length data" arbitrary: data s rule: less_induct)
  case less
  obtain v n t where t: "turn data s = (v, n, t)" by (cases "turn data s")
  have keep: "data \<noteq> [] \<Longrightarrow> P t"
    using assms(1) [OF less.prems, of data] t by simp
  then show ?case
    using less.prems less.hyps [of "drop n data" t] t
    by (cases v) (auto simp: segment_loop.simps [of turn data] split: prod.splits)
qed

lemma iovec_loop_keeps:
  assumes "\<And>data s. P s \<Longrightarrow> data \<noteq> [] \<Longrightarrow> P (snd (snd (turn data s)))" "P s"
  shows "P (snd (snd (iovec_loop turn iovs s)))"
  using assms(2)
proof (induction iovs arbitrary: s)
  case (Cons iov iovs)
  obtain v n t where t: "segment_loop turn iov s = (v, n, t)" by (cases "segment_loop turn iov s")
  have "P t"
    using segment_loop_keeps [where P = P and turn = turn, OF assms(1) Cons.prems, of iov] t by simp
  then show ?case
    using Cons.IH [of t] t by (cases v) (auto split: prod.splits)
qed simp

section \<open>Runs of octets\<close>

lemma octets_run_append:
  "octets_run f (xs @ ys) s =
    (case octets_run f xs s of
       (More, n, s') \<Rightarrow> (case octets_run f ys s' of (v, m, s'') \<Rightarrow> (v, n + m, s''))
     | (v, n, s') \<Rightarrow> (v, n, s'))"
  by (induction xs arbitrary: s) (auto split: prod.splits verdict.splits)

lemma octets_run_more_length: "octets_run f xs s = (More, n, s') \<Longrightarrow> n = length xs"
  by (induction xs arbitrary: s n) (auto split: prod.splits verdict.splits)

lemma octets_run_length: "octets_run f xs s = (v, n, s') \<Longrightarrow> n \<le> length xs"
  by (induction xs arbitrary: s n) (auto split: prod.splits verdict.splits)

lemma octets_run_keeps:
  assumes "\<And>c s s'. P s \<Longrightarrow> f c s = (More, s') \<Longrightarrow> P s'" "P s" "octets_run f xs s = (More, n, s')"
  shows "P s'"
  using assms(2,3)
proof (induction xs arbitrary: s n)
  case (Cons c cs)
  then obtain t where "f c s = (More, t)"
    by (auto split: prod.splits verdict.splits)
  then show ?case
    using Cons.IH [OF assms(1) [OF Cons.prems(1)]] Cons.prems(2) by (auto split: prod.splits)
qed simp

lemma octets_run_same:
  assumes "\<And>c s. c \<in> set xs \<Longrightarrow> P s \<Longrightarrow> f c s = g c s" "\<And>c s s'. P s \<Longrightarrow> g c s = (More, s') \<Longrightarrow> P s'" "P s"
  shows "octets_run f xs s = octets_run g xs s"
  using assms(1,3)
proof (induction xs arbitrary: s)
  case (Cons c cs)
  show ?case
  proof (cases "g c s")
    case (Pair v s')
    then show ?thesis
      using Cons assms(2) by (cases v) simp_all
  qed
qed simp

text \<open>The same answer: the verdict, and unless it is a failure the octets taken and the state.\<close>

fun same_answer :: "'e verdict \<times> nat \<times> 's \<Rightarrow> 'e verdict \<times> nat \<times> 's \<Rightarrow> bool" where
  "same_answer (Failed e, n, s) r = (\<exists>m t. r = (Failed e, m, t))"
| "same_answer (v, n, s) r = (r = (v, n, s))"

lemma same_answer_refl [simp]: "same_answer r r"
  by (cases r; cases "fst r") auto

lemma same_answer_more: "same_answer r (More, n, s) \<longleftrightarrow> r = (More, n, s)"
  by (cases r; cases "fst r") auto

lemma same_answer_finished: "same_answer r (Finished, n, s) \<longleftrightarrow> r = (Finished, n, s)"
  by (cases r; cases "fst r") auto

lemma same_answer_failed: "same_answer r (Failed e, n, s) \<longleftrightarrow> (\<exists>m t. r = (Failed e, m, t))"
  by (cases r; cases "fst r") auto

lemma same_answer_trans: "same_answer a b \<Longrightarrow> same_answer b c \<Longrightarrow> same_answer a c"
  by (cases a; cases "fst a"; cases b; cases "fst b") auto

lemma same_answer_shift:
  assumes "same_answer a b"
  shows "same_answer (case a of (v, m, s) \<Rightarrow> (v, n + m, s)) (case b of (v, m, s) \<Rightarrow> (v, n + m, s))"
  using assms by (cases a; cases "fst a") auto

section \<open>The contract of a turn\<close>

definition turn_ok :: "(u8 \<Rightarrow> 's \<Rightarrow> 'e verdict \<times> 's) \<Rightarrow> bytes \<Rightarrow> 's \<Rightarrow> 'e verdict \<times> nat \<times> 's \<Rightarrow> bool" where
  "turn_ok step data s r =
    (case r of
       (More, n, s') \<Rightarrow> 0 < n \<and> n \<le> length data \<and> octets_run step (take n data) s = (More, n, s')
     | (Finished, n, s') \<Rightarrow> octets_run step data s = (Finished, n, s')
     | (Failed e, _) \<Rightarrow> \<exists>m t. octets_run step data s = (Failed e, m, t))"

text \<open>The two kinds of turns: one octet, and a run of octets that satisfy a test with the octet that ends it.\<close>

lemma turn_ok_one:
  assumes "data \<noteq> []" "step (data ! 0) s = (v, s')"
  shows "turn_ok step data s (v, 1, s')"
proof -
  obtain c cs where "data = c # cs" using assms(1) by (cases data) auto
  then show ?thesis
    using assms(2) by (cases v) (auto simp: turn_ok_def)
qed

definition take_run :: "(u8 \<Rightarrow> bool) \<Rightarrow> (bytes \<Rightarrow> 's \<Rightarrow> 'e verdict \<times> 's) \<Rightarrow> (u8 \<Rightarrow> 's \<Rightarrow> 'e verdict \<times> 's) \<Rightarrow> bytes \<Rightarrow> 's \<Rightarrow> 'e verdict \<times> nat \<times> 's" where
  "take_run P absorb stop data s =
    (let w = takeWhile P data; n = length w in
     case absorb w s of
       (More, s) \<Rightarrow> if n = length data then (More, n, s) else (case stop (data ! n) s of (v, s) \<Rightarrow> (v, n + 1, s))
     | (v, s) \<Rightarrow> (v, n, s))"

definition absorbs :: "(u8 \<Rightarrow> 's \<Rightarrow> 'e verdict \<times> 's) \<Rightarrow> bytes \<Rightarrow> 's \<Rightarrow> 'e verdict \<times> 's \<Rightarrow> bool" where
  "absorbs step w s r =
    (case r of
       (More, s') \<Rightarrow> octets_run step w s = (More, length w, s')
     | (Finished, _) \<Rightarrow> False
     | (Failed e, _) \<Rightarrow> \<exists>m t. octets_run step w s = (Failed e, m, t))"

lemma turn_ok_run:
  assumes "data \<noteq> []" "\<And>w. list_all P w \<Longrightarrow> absorbs step w s (absorb w s)"
    and "\<And>w c s'. absorb w s = (More, s') \<Longrightarrow> \<not> P c \<Longrightarrow> stop c s' = step c s'"
  shows "turn_ok step data s (take_run P absorb stop data s)"
proof -
  obtain w where w: "takeWhile P data = w" by simp
  then have "list_all P w" by (auto simp: list_all_iff dest: set_takeWhileD)
  note a = assms(2) [OF this]
  have data: "data = w @ dropWhile P data" using w by (metis takeWhile_dropWhile_id)
  obtain v s' where r: "absorb w s = (v, s')" by (cases "absorb w s")
  show ?thesis
  proof (cases v)
    case More
    then have run: "octets_run step w s = (More, length w, s')"
      using a r by (simp add: absorbs_def)
    show ?thesis
    proof (cases "dropWhile P data")
      case Nil
      then have "w = data" using data unfolding Nil by simp
      then show ?thesis
        unfolding take_run_def Let_def w using r More run assms(1) by (simp add: turn_ok_def)
    next
      case (Cons c cs)
      have c: "\<not> P c" "data = w @ c # cs"
        using Cons w by (simp_all add: dropWhile_eq_Cons_conv)
      obtain v' t where st: "step c s' = (v', t)" by (cases "step c s'")
      have "stop c s' = (v', t)"
        using assms(3) [of w s' c] r More c(1) st by simp
      then have turn: "take_run P absorb stop data s = (v', length w + 1, t)"
        using r More w c(2) by (simp add: take_run_def)
      have whole: "octets_run step data s = (case octets_run step (c # cs) s' of (v, m, u) \<Rightarrow> (v, length w + m, u))"
        using octets_run_append [of step w "c # cs" s] run c(2) by simp
      have "octets_run step (w @ [c]) s = (v', length w + 1, t)"
        using run st by (cases v') (simp_all add: octets_run_append)
      then show ?thesis
        using turn whole st c(2) by (cases v') (auto simp: turn_ok_def)
    qed
  next
    case Finished
    then show ?thesis using a r by (simp add: absorbs_def)
  next
    case (Failed e)
    then obtain m t where "octets_run step w s = (Failed e, m, t)"
      using a r by (auto simp: absorbs_def)
    then have "octets_run step data s = (Failed e, m, t)"
      using octets_run_append [of step w "dropWhile P data" s] data by simp
    then show ?thesis
      using r Failed w by (simp add: take_run_def turn_ok_def)
  qed
qed

lemma octets_run_absorb:
  assumes "\<And>c s. Q s \<Longrightarrow> P c \<Longrightarrow> step c s = (More, app [c] s) \<and> Q (app [c] s)" "\<And>s. app [] s = s"
    and "\<And>c w s. app w (app [c] s) = app (c # w) s" "Q s" "list_all P w"
  shows "octets_run step w s = (More, length w, app w s)"
  using assms(4,5)
proof (induction w arbitrary: s)
  case (Cons c w)
  then show ?case
    using Cons.IH [of "app [c] s"] assms(1) [of s c] assms(3) by simp
qed (simp add: assms(2))

locale octet_machine =
  fixes inv :: "'s \<Rightarrow> bool"
    and step :: "u8 \<Rightarrow> 's \<Rightarrow> 'e verdict \<times> 's"
    and turn :: "bytes \<Rightarrow> 's \<Rightarrow> 'e verdict \<times> nat \<times> 's"
  assumes step_inv: "inv s \<Longrightarrow> step c s = (More, s') \<Longrightarrow> inv s'"
    and turn_octets: "inv s \<Longrightarrow> data \<noteq> [] \<Longrightarrow> turn_ok step data s (turn data s)"
begin

lemma run_inv: "inv s \<Longrightarrow> octets_run step xs s = (More, n, s') \<Longrightarrow> inv s'"
  by (rule octets_run_keeps [where P = inv and f = step]) (auto intro: step_inv)

lemma segment_octets: "inv s \<Longrightarrow> same_answer (segment_loop turn data s) (octets_run step data s)"
proof (induction "length data" arbitrary: data s rule: less_induct)
  case less
  show ?case
  proof (cases "data = []")
    case False
    obtain v n t where t: "turn data s = (v, n, t)"
      by (cases "turn data s")
    show ?thesis
    proof (cases v)
      case More
      have n: "0 < n" "n \<le> length data" "octets_run step (take n data) s = (More, n, t)"
        using turn_octets [OF less.prems False] t More by (auto simp: turn_ok_def)
      have r: "octets_run step data s = (case octets_run step (drop n data) t of (v, m, u) \<Rightarrow> (v, n + m, u))"
        using octets_run_append [of step "take n data" "drop n data" s] n(3) by simp
      have "same_answer (segment_loop turn (drop n data) t) (octets_run step (drop n data) t)"
        using less.hyps [of "drop n data" t] n False run_inv [OF less.prems n(3)] by simp
      from same_answer_shift [OF this, of n] show ?thesis
        using t More n(1) False r by (simp add: segment_loop.simps [of turn data])
    next
      case Finished
      then show ?thesis
        using turn_octets [OF less.prems False] t False by (simp add: turn_ok_def segment_loop.simps [of turn data])
    next
      case (Failed e)
      then show ?thesis
        using turn_octets [OF less.prems False] t False by (auto simp: turn_ok_def segment_loop.simps [of turn data])
    qed
  qed (simp add: segment_loop.simps)
qed

lemma iovecs_octets: "inv s \<Longrightarrow> same_answer (iovec_loop turn iovs s) (octets_run step (concat iovs) s)"
proof (induction iovs arbitrary: s)
  case (Cons iov iovs)
  note seg = segment_octets [OF Cons.prems, of iov]
  obtain v n t where r: "octets_run step iov s = (v, n, t)"
    by (cases "octets_run step iov s")
  show ?case
  proof (cases v)
    case More
    then have l: "segment_loop turn iov s = (More, n, t)"
      using seg r by (simp add: same_answer_more)
    have "same_answer (iovec_loop turn iovs t) (octets_run step (concat iovs) t)"
      using Cons.IH run_inv [OF Cons.prems] r More by blast
    from same_answer_shift [OF this, of n] show ?thesis
      using l r More by (simp add: octets_run_append)
  next
    case Finished
    then show ?thesis
      using seg r by (simp add: octets_run_append same_answer_finished)
  next
    case (Failed e)
    then show ?thesis
      using seg r by (auto simp: octets_run_append same_answer_failed)
  qed
qed simp

text \<open>What a caller relies on: only the concatenation counts, and a call that wants more can be taken up where it stopped.\<close>

lemma segmentation:
  assumes "inv s" "concat iovs = concat iovs'"
  shows "fst (iovec_loop turn iovs s) = fst (iovec_loop turn iovs' s)"
    and "fst (iovec_loop turn iovs s) = More \<or> fst (iovec_loop turn iovs s) = Finished \<Longrightarrow>
      iovec_loop turn iovs s = iovec_loop turn iovs' s"
proof -
  note a = iovecs_octets [OF assms(1), of iovs] and b = iovecs_octets [OF assms(1), of iovs']
  obtain v n t where r: "octets_run step (concat iovs) s = (v, n, t)"
    by (cases "octets_run step (concat iovs) s")
  have "fst (iovec_loop turn iovs s) = fst (iovec_loop turn iovs' s)
    \<and> (v \<noteq> More \<and> v \<noteq> Finished \<or> iovec_loop turn iovs s = iovec_loop turn iovs' s) \<and> fst (iovec_loop turn iovs s) = v"
    using a b r assms(2) by (cases v) (auto simp: same_answer_more same_answer_finished same_answer_failed)
  then show "fst (iovec_loop turn iovs s) = fst (iovec_loop turn iovs' s)"
    and "fst (iovec_loop turn iovs s) = More \<or> fst (iovec_loop turn iovs s) = Finished \<Longrightarrow>
      iovec_loop turn iovs s = iovec_loop turn iovs' s"
    by auto
qed

lemma iovecs_more:
  "inv s \<Longrightarrow> iovec_loop turn iovs s = (More, n, s') \<longleftrightarrow> octets_run step (concat iovs) s = (More, n, s')"
  using iovecs_octets [of s iovs] by (cases "octets_run step (concat iovs) s"; cases "fst (octets_run step (concat iovs) s)")
    (auto simp: same_answer_more same_answer_finished same_answer_failed)

lemma iovecs_finished:
  "inv s \<Longrightarrow> iovec_loop turn iovs s = (Finished, n, s') \<longleftrightarrow> octets_run step (concat iovs) s = (Finished, n, s')"
  using iovecs_octets [of s iovs] by (cases "octets_run step (concat iovs) s"; cases "fst (octets_run step (concat iovs) s)")
    (auto simp: same_answer_more same_answer_finished same_answer_failed)

end

end
