(* ===== verification/Http1_Header.thy ===== *)
theory Http1_Header
  imports Http1_Uri Octet_Machine
begin

text \<open>
  The request header parser of \<^verbatim>\<open>galay-http/protoc/http_header.cc\<close>: the machine \<open>parseChar\<close> that takes one character, and \<open>fromIOVec\<close>, which
  walks memory segments and takes runs of characters. The counter \<open>m_parsedBytes\<close>, which is written and never read, is left out.
\<close>

section \<open>The header under construction\<close>

datatype RequestParseState = Method | MethodSP | Uri | UriSP | Version | VersionCR | VersionLF | HeaderKey | HeaderColon | HeaderSpace
  | HeaderValue | HeaderCR | HeaderLF | HeaderEndCR | Done

record HttpRequestHeader =
  rh_uri :: bytes
  rh_argList :: string_map
  rh_headerPairs :: HeaderPair
  rh_parseMethodStr :: bytes
  rh_parseUriStr :: bytes
  rh_parseVersionStr :: bytes
  rh_parseHeaderKey :: bytes
  rh_parseHeaderValue :: bytes
  rh_maxHeaderCount :: nat
  rh_maxHeaderLineSize :: nat
  rh_maxUriSize :: nat
  rh_headerCount :: nat
  rh_contentLengthValue :: nat
  rh_method :: HttpMethod
  rh_version :: HttpVersion
  rh_parseState :: RequestParseState
  rh_currentCommonHeaderIdx :: CommonHeaderIndex
  rh_uriDecodeError :: bool
  rh_hasContentLength :: bool

definition new_request_header :: HttpRequestHeader where
  "new_request_header = \<lparr>rh_uri = [], rh_argList = [], rh_headerPairs = new_headers ServerSide, rh_parseMethodStr = [], rh_parseUriStr = [],
     rh_parseVersionStr = [], rh_parseHeaderKey = [], rh_parseHeaderValue = [], rh_maxHeaderCount = 0, rh_maxHeaderLineSize = 0,
     rh_maxUriSize = 0, rh_headerCount = 0, rh_contentLengthValue = 0, rh_method = GET, rh_version = HttpVersion_1_1,
     rh_parseState = Method, rh_currentCommonHeaderIdx = NotCommon, rh_uriDecodeError = False, rh_hasContentLength = False\<rparr>"

definition setParseLimits :: "nat \<Rightarrow> nat \<Rightarrow> nat \<Rightarrow> HttpRequestHeader \<Rightarrow> HttpRequestHeader" where
  "setParseLimits max_header_count max_header_line_size max_uri_size h =
    h\<lparr>rh_maxHeaderCount := max_header_count, rh_maxHeaderLineSize := max_header_line_size, rh_maxUriSize := max_uri_size\<rparr>"

text \<open>\<open>reset\<close>; the limits stay.\<close>

definition reset_request_header :: "HttpRequestHeader \<Rightarrow> HttpRequestHeader" where
  "reset_request_header h = h\<lparr>rh_version := HttpVersion_Unknown, rh_method := UNKNOWN, rh_uri := [], rh_argList := [],
     rh_headerPairs := clear_headers (rh_headerPairs h), rh_parseState := Method, rh_parseMethodStr := [], rh_parseUriStr := [],
     rh_parseVersionStr := [], rh_parseHeaderKey := [], rh_parseHeaderValue := [], rh_uriDecodeError := False,
     rh_currentCommonHeaderIdx := NotCommon, rh_headerCount := 0, rh_hasContentLength := False, rh_contentLengthValue := 0\<rparr>"

definition normalizeHeaderKeyChar :: "u8 \<Rightarrow> Mode \<Rightarrow> u8" where
  "normalizeHeaderKeyChar ch mode = (if mode = ServerSide then toLowerAsciiChar ch else ch)"

abbreviation rh_mode :: "HttpRequestHeader \<Rightarrow> Mode" where
  "rh_mode h \<equiv> hp_mode (rh_headerPairs h)"

text \<open>The end of \<open>commitParsedHeaderPair\<close>: the pair goes into the store.\<close>

definition store_header_pair :: "HttpRequestHeader \<Rightarrow> HttpRequestHeader" where
  "store_header_pair h =
    h\<lparr>rh_headerPairs :=
        (if rh_mode h = ServerSide then
           (if rh_currentCommonHeaderIdx h \<noteq> NotCommon
            then setCommonHeader (rh_currentCommonHeaderIdx h) (rh_parseHeaderValue h) (rh_headerPairs h)
            else mergeNormalizedUncommonHeaderPair (rh_parseHeaderKey h) (rh_parseHeaderValue h) (rh_headerPairs h))
         else snd (addHeaderPair (rh_parseHeaderKey h) (rh_parseHeaderValue h) (rh_headerPairs h))),
      rh_parseHeaderKey := [], rh_parseHeaderValue := [], rh_currentCommonHeaderIdx := NotCommon\<rparr>"

definition commitParsedHeaderPair :: "HttpRequestHeader \<Rightarrow> HttpErrorCode \<times> HttpRequestHeader" where
  "commitParsedHeaderPair h =
    (let line_size = length (rh_parseHeaderKey h) + 2 + length (rh_parseHeaderValue h) in
     if rh_maxHeaderLineSize h \<noteq> 0 \<and> line_size > rh_maxHeaderLineSize h then (kHeaderTooLarge, h)
     else
       let h = h\<lparr>rh_headerCount := rh_headerCount h + 1\<rparr> in
       if rh_maxHeaderCount h \<noteq> 0 \<and> rh_headerCount h > rh_maxHeaderCount h then (kHeaderTooLarge, h)
       else if rh_parseHeaderKey h = str ''content-length'' then
         (case parseSizeTStrict (rh_parseHeaderValue h) of
            None \<Rightarrow> (kBadRequest, h)
          | Some parsed \<Rightarrow>
              if rh_hasContentLength h \<and> rh_contentLengthValue h \<noteq> parsed then (kBadRequest, h)
              else (kNoError, store_header_pair (h\<lparr>rh_hasContentLength := True, rh_contentLengthValue := parsed\<rparr>)))
       else (kNoError, store_header_pair h))"

text \<open>The target is complete: decode it and split off the arguments.\<close>

definition finish_uri :: "HttpRequestHeader \<Rightarrow> HttpErrorCode \<times> HttpRequestHeader" where
  "finish_uri h =
    (case convertFromUri False (rh_parseUriStr h) of
       None \<Rightarrow> (kUriEncodeError, h\<lparr>rh_uriDecodeError := True\<rparr>)
     | Some full_uri \<Rightarrow>
         let (uri, args) = parseArgs full_uri (rh_uri h, rh_argList h) in
         (kNoError, h\<lparr>rh_uriDecodeError := False, rh_uri := (if uri = [] then full_uri else uri), rh_argList := args,
            rh_parseState := UriSP\<rparr>))"

definition finish_version :: "HttpRequestHeader \<Rightarrow> HttpErrorCode \<times> HttpRequestHeader" where
  "finish_version h =
    (let h = h\<lparr>rh_version := stringToHttpVersion (rh_parseVersionStr h)\<rparr> in
     if rh_version h = HttpVersion_Unknown then (kVersionNotSupport, h)
     else if rh_version h \<noteq> HttpVersion_1_0 \<and> rh_version h \<noteq> HttpVersion_1_1 then (kVersionNotSupport, h)
     else (kNoError, h\<lparr>rh_parseState := VersionCR\<rparr>))"

definition commit_line :: "HttpRequestHeader \<Rightarrow> HttpErrorCode \<times> HttpRequestHeader" where
  "commit_line h = (case commitParsedHeaderPair h of (err, h) \<Rightarrow> if err \<noteq> kNoError then (err, h) else (kNoError, h\<lparr>rh_parseState := HeaderCR\<rparr>))"

text \<open>A colon ends the key.\<close>

definition finish_key :: "HttpRequestHeader \<Rightarrow> HttpErrorCode \<times> HttpRequestHeader" where
  "finish_key h =
    (if length (rh_parseHeaderKey h) > 256 then (kBadRequest, h)
     else (kNoError, (if rh_mode h = ServerSide then h\<lparr>rh_currentCommonHeaderIdx := matchCommonHeader (rh_parseHeaderKey h)\<rparr> else h)
            \<lparr>rh_parseState := HeaderColon\<rparr>))"

definition add_key :: "u8 \<Rightarrow> HttpRequestHeader \<Rightarrow> HttpRequestHeader" where
  "add_key c h = h\<lparr>rh_parseHeaderKey := rh_parseHeaderKey h @ [normalizeHeaderKeyChar c (rh_mode h)]\<rparr>"

definition add_value :: "u8 \<Rightarrow> HttpRequestHeader \<Rightarrow> HttpRequestHeader" where
  "add_value c h = h\<lparr>rh_parseHeaderValue := rh_parseHeaderValue h @ [c]\<rparr>"

definition parseChar :: "u8 \<Rightarrow> HttpRequestHeader \<Rightarrow> HttpErrorCode \<times> HttpRequestHeader" where
  "parseChar c h =
    (case rh_parseState h of
       Method \<Rightarrow>
         if c = SP then (kNoError, h\<lparr>rh_method := stringToHttpMethod (rh_parseMethodStr h), rh_parseState := MethodSP\<rparr>)
         else if c = CR \<or> c = LF then (kBadRequest, h)
         else (kNoError, h\<lparr>rh_parseMethodStr := rh_parseMethodStr h @ [c]\<rparr>)
     | MethodSP \<Rightarrow>
         if c = SP then (kNoError, h)
         else if c = CR \<or> c = LF then (kBadRequest, h)
         else
           let h = h\<lparr>rh_parseUriStr := rh_parseUriStr h @ [c]\<rparr> in
           if rh_maxUriSize h \<noteq> 0 \<and> length (rh_parseUriStr h) > rh_maxUriSize h then (kUriTooLong, h)
           else (kNoError, h\<lparr>rh_parseState := Uri\<rparr>)
     | Uri \<Rightarrow>
         if c = SP then finish_uri h
         else if c = CR \<or> c = LF then (kBadRequest, h)
         else
           let h = h\<lparr>rh_parseUriStr := rh_parseUriStr h @ [c]\<rparr> in
           if rh_maxUriSize h \<noteq> 0 \<and> length (rh_parseUriStr h) > rh_maxUriSize h then (kUriTooLong, h) else (kNoError, h)
     | UriSP \<Rightarrow>
         if c = SP then (kNoError, h)
         else if c = CR \<or> c = LF then (kBadRequest, h)
         else (kNoError, h\<lparr>rh_parseVersionStr := rh_parseVersionStr h @ [c], rh_parseState := Version\<rparr>)
     | Version \<Rightarrow>
         if c = CR then finish_version h
         else if c = LF then (kBadRequest, h)
         else (kNoError, h\<lparr>rh_parseVersionStr := rh_parseVersionStr h @ [c]\<rparr>)
     | VersionCR \<Rightarrow> if c = LF then (kNoError, h\<lparr>rh_parseState := VersionLF\<rparr>) else (kBadRequest, h)
     | VersionLF \<Rightarrow>
         if c = CR then (kNoError, h\<lparr>rh_parseState := HeaderEndCR\<rparr>)
         else if c = LF then (kBadRequest, h)
         else (kNoError, (add_key c h)\<lparr>rh_parseState := HeaderKey\<rparr>)
     | HeaderKey \<Rightarrow>
         if c = 0x3A then finish_key h
         else if c = CR \<or> c = LF then (kBadRequest, h)
         else if length (rh_parseHeaderKey h) \<ge> 256 then (kBadRequest, h)
         else (kNoError, add_key c h)
     | HeaderColon \<Rightarrow>
         if c = SP then (kNoError, h\<lparr>rh_parseState := HeaderSpace\<rparr>)
         else if c = CR then commit_line h
         else (kNoError, (add_value c h)\<lparr>rh_parseState := HeaderValue\<rparr>)
     | HeaderSpace \<Rightarrow>
         if c = SP then (kNoError, h)
         else if c = CR then commit_line h
         else (kNoError, (add_value c h)\<lparr>rh_parseState := HeaderValue\<rparr>)
     | HeaderValue \<Rightarrow> if c = CR then commit_line h else (kNoError, add_value c h)
     | HeaderCR \<Rightarrow> if c = LF then (kNoError, h\<lparr>rh_parseState := HeaderLF\<rparr>) else (kBadRequest, h)
     | HeaderLF \<Rightarrow>
         if c = CR then (kNoError, h\<lparr>rh_parseState := HeaderEndCR\<rparr>)
         else (kNoError, (add_key c h)\<lparr>rh_parseState := HeaderKey\<rparr>)
     | HeaderEndCR \<Rightarrow> if c = LF then (kIncomplete, h\<lparr>rh_parseState := Done\<rparr>) else (kBadRequest, h)
     | Done \<Rightarrow> (kIncomplete, h))"

text \<open>\<open>parseChar\<close> answers \<open>kIncomplete\<close> when the header is complete.\<close>

fun verdict_of :: "HttpErrorCode \<Rightarrow> HttpErrorCode verdict" where
  "verdict_of kNoError = More"
| "verdict_of kIncomplete = Finished"
| "verdict_of e = Failed e"

definition char_step :: "u8 \<Rightarrow> HttpRequestHeader \<Rightarrow> HttpErrorCode verdict \<times> HttpRequestHeader" where
  "char_step c h = (case parseChar c h of (e, h') \<Rightarrow> (verdict_of e, h'))"

definition fromString :: "bytes \<Rightarrow> HttpRequestHeader \<Rightarrow> (HttpErrorCode \<times> int) \<times> HttpRequestHeader" where
  "fromString s h =
    (if rh_parseState h = Done then ((kNoError, 0), h)
     else (case octets_run char_step s h of
             (Finished, n, h') \<Rightarrow> ((kNoError, int n), h')
           | (Failed e, _, h') \<Rightarrow> ((e, - 1), h')
           | (More, _, h') \<Rightarrow> ((kNoError, 0), h')))"

section \<open>The loop over segments\<close>

text \<open>
  One pass through the switch. \<open>take_run\<close> takes the longest run of characters that satisfy a test; when that is not the rest of the segment, the
  character after it decides.
\<close>

definition code_answer :: "HttpErrorCode \<times> 's \<Rightarrow> HttpErrorCode verdict \<times> 's" where
  "code_answer r = (case r of (e, s) \<Rightarrow> (verdict_of e, s))"

definition one :: "HttpErrorCode \<times> 's \<Rightarrow> HttpErrorCode verdict \<times> nat \<times> 's" where
  "one r = (case r of (e, s) \<Rightarrow> (verdict_of e, 1, s))"

definition add_key_chunk :: "bytes \<Rightarrow> HttpRequestHeader \<Rightarrow> HttpRequestHeader" where
  "add_key_chunk w h = h\<lparr>rh_parseHeaderKey := rh_parseHeaderKey h @ (if rh_mode h = ServerSide then map toLowerAsciiChar w else w)\<rparr>"

definition turn_method :: "bytes \<Rightarrow> HttpRequestHeader \<Rightarrow> HttpErrorCode verdict \<times> nat \<times> HttpRequestHeader" where
  "turn_method data h =
    take_run (\<lambda>c. c \<noteq> SP \<and> c \<noteq> CR \<and> c \<noteq> LF) (\<lambda>w h. (More, h\<lparr>rh_parseMethodStr := rh_parseMethodStr h @ w\<rparr>))
      (\<lambda>c h. if c \<noteq> SP then (Failed kBadRequest, h)
             else (More, h\<lparr>rh_method := stringToHttpMethod (rh_parseMethodStr h), rh_parseState := MethodSP\<rparr>)) data h"

definition turn_method_sp :: "bytes \<Rightarrow> HttpRequestHeader \<Rightarrow> HttpErrorCode verdict \<times> nat \<times> HttpRequestHeader" where
  "turn_method_sp data h =
    take_run (\<lambda>c. c = SP) (\<lambda>w h. (More, h))
      (\<lambda>c h. if c = CR \<or> c = LF then (Failed kBadRequest, h)
             else
               let h = h\<lparr>rh_parseUriStr := rh_parseUriStr h @ [c]\<rparr> in
               if rh_maxUriSize h \<noteq> 0 \<and> length (rh_parseUriStr h) > rh_maxUriSize h then (Failed kUriTooLong, h)
               else (More, h\<lparr>rh_parseState := Uri\<rparr>)) data h"

definition turn_uri :: "bytes \<Rightarrow> HttpRequestHeader \<Rightarrow> HttpErrorCode verdict \<times> nat \<times> HttpRequestHeader" where
  "turn_uri data h =
    take_run (\<lambda>c. c \<noteq> SP \<and> c \<noteq> CR \<and> c \<noteq> LF)
      (\<lambda>w h. if w = [] then (More, h)
             else
               let h = h\<lparr>rh_parseUriStr := rh_parseUriStr h @ w\<rparr> in
               if rh_maxUriSize h \<noteq> 0 \<and> length (rh_parseUriStr h) > rh_maxUriSize h then (Failed kUriTooLong, h) else (More, h))
      (\<lambda>c h. if c \<noteq> SP then (Failed kBadRequest, h) else code_answer (finish_uri h)) data h"

definition turn_uri_sp :: "bytes \<Rightarrow> HttpRequestHeader \<Rightarrow> HttpErrorCode verdict \<times> nat \<times> HttpRequestHeader" where
  "turn_uri_sp data h =
    take_run (\<lambda>c. c = SP) (\<lambda>w h. (More, h))
      (\<lambda>c h. if c = CR \<or> c = LF then (Failed kBadRequest, h)
             else (More, h\<lparr>rh_parseVersionStr := rh_parseVersionStr h @ [c], rh_parseState := Version\<rparr>)) data h"

definition turn_version :: "bytes \<Rightarrow> HttpRequestHeader \<Rightarrow> HttpErrorCode verdict \<times> nat \<times> HttpRequestHeader" where
  "turn_version data h =
    take_run (\<lambda>c. c \<noteq> CR \<and> c \<noteq> LF) (\<lambda>w h. (More, h\<lparr>rh_parseVersionStr := rh_parseVersionStr h @ w\<rparr>))
      (\<lambda>c h. if c = LF then (Failed kBadRequest, h) else code_answer (finish_version h)) data h"

definition turn_version_cr :: "bytes \<Rightarrow> HttpRequestHeader \<Rightarrow> HttpErrorCode verdict \<times> nat \<times> HttpRequestHeader" where
  "turn_version_cr data h =
    one (if data ! 0 \<noteq> LF then (kBadRequest, h) else (kNoError, h\<lparr>rh_parseState := VersionLF\<rparr>))"

definition turn_version_lf :: "bytes \<Rightarrow> HttpRequestHeader \<Rightarrow> HttpErrorCode verdict \<times> nat \<times> HttpRequestHeader" where
  "turn_version_lf data h =
    one (if data ! 0 = CR then (kNoError, h\<lparr>rh_parseState := HeaderEndCR\<rparr>)
         else if data ! 0 = LF then (kBadRequest, h)
         else (kNoError, (add_key (data ! 0) h)\<lparr>rh_parseState := HeaderKey\<rparr>))"

definition turn_header_key :: "bytes \<Rightarrow> HttpRequestHeader \<Rightarrow> HttpErrorCode verdict \<times> nat \<times> HttpRequestHeader" where
  "turn_header_key data h =
    take_run (\<lambda>c. c \<noteq> 0x3A \<and> c \<noteq> CR \<and> c \<noteq> LF) (\<lambda>w h. (More, add_key_chunk w h))
      (\<lambda>c h. if c \<noteq> 0x3A then (Failed kBadRequest, h) else code_answer (finish_key h)) data h"

definition turn_header_colon :: "bytes \<Rightarrow> HttpRequestHeader \<Rightarrow> HttpErrorCode verdict \<times> nat \<times> HttpRequestHeader" where
  "turn_header_colon data h =
    one (if data ! 0 = SP then (kNoError, h\<lparr>rh_parseState := HeaderSpace\<rparr>)
         else if data ! 0 = CR then commit_line h
         else (kNoError, (add_value (data ! 0) h)\<lparr>rh_parseState := HeaderValue\<rparr>))"

definition turn_header_space :: "bytes \<Rightarrow> HttpRequestHeader \<Rightarrow> HttpErrorCode verdict \<times> nat \<times> HttpRequestHeader" where
  "turn_header_space data h =
    take_run (\<lambda>c. c = SP) (\<lambda>w h. (More, h))
      (\<lambda>c h. if c = CR then code_answer (commit_line h) else (More, (add_value c h)\<lparr>rh_parseState := HeaderValue\<rparr>)) data h"

definition turn_header_value :: "bytes \<Rightarrow> HttpRequestHeader \<Rightarrow> HttpErrorCode verdict \<times> nat \<times> HttpRequestHeader" where
  "turn_header_value data h =
    take_run (\<lambda>c. c \<noteq> CR) (\<lambda>w h. (More, h\<lparr>rh_parseHeaderValue := rh_parseHeaderValue h @ w\<rparr>)) (\<lambda>c h. code_answer (commit_line h)) data h"

definition turn_header_cr :: "bytes \<Rightarrow> HttpRequestHeader \<Rightarrow> HttpErrorCode verdict \<times> nat \<times> HttpRequestHeader" where
  "turn_header_cr data h =
    one (if data ! 0 \<noteq> LF then (kBadRequest, h) else (kNoError, h\<lparr>rh_parseState := HeaderLF\<rparr>))"

definition turn_header_lf :: "bytes \<Rightarrow> HttpRequestHeader \<Rightarrow> HttpErrorCode verdict \<times> nat \<times> HttpRequestHeader" where
  "turn_header_lf data h =
    one (if data ! 0 = CR then (kNoError, h\<lparr>rh_parseState := HeaderEndCR\<rparr>)
         else (kNoError, (add_key (data ! 0) h)\<lparr>rh_parseState := HeaderKey\<rparr>))"

definition turn_header_end_cr :: "bytes \<Rightarrow> HttpRequestHeader \<Rightarrow> HttpErrorCode verdict \<times> nat \<times> HttpRequestHeader" where
  "turn_header_end_cr data h =
    one (if data ! 0 \<noteq> LF then (kBadRequest, h) else (kIncomplete, h\<lparr>rh_parseState := Done\<rparr>))"

definition request_turn :: "bytes \<Rightarrow> HttpRequestHeader \<Rightarrow> HttpErrorCode verdict \<times> nat \<times> HttpRequestHeader" where
  "request_turn data h =
    (case rh_parseState h of
       Method \<Rightarrow> turn_method data h
     | MethodSP \<Rightarrow> turn_method_sp data h
     | Uri \<Rightarrow> turn_uri data h
     | UriSP \<Rightarrow> turn_uri_sp data h
     | Version \<Rightarrow> turn_version data h
     | VersionCR \<Rightarrow> turn_version_cr data h
     | VersionLF \<Rightarrow> turn_version_lf data h
     | HeaderKey \<Rightarrow> turn_header_key data h
     | HeaderColon \<Rightarrow> turn_header_colon data h
     | HeaderSpace \<Rightarrow> turn_header_space data h
     | HeaderValue \<Rightarrow> turn_header_value data h
     | HeaderCR \<Rightarrow> turn_header_cr data h
     | HeaderLF \<Rightarrow> turn_header_lf data h
     | HeaderEndCR \<Rightarrow> turn_header_end_cr data h
     | Done \<Rightarrow> (Finished, 0, h))"

definition header_fromIOVec :: "bytes list \<Rightarrow> HttpRequestHeader \<Rightarrow> (HttpErrorCode \<times> int) \<times> HttpRequestHeader" where
  "header_fromIOVec iovecs h =
    (if rh_parseState h = Done then ((kNoError, 0), h)
     else (case iovec_loop request_turn iovecs h of
             (Finished, n, h') \<Rightarrow> ((kNoError, int n), h')
           | (Failed e, _, h') \<Rightarrow> ((e, - 1), h')
           | (More, n, h') \<Rightarrow> ((kIncomplete, int n), h')))"

end
