(* ===== verification/Http1_Bulk.thy ===== *)
theory Http1_Bulk
  imports Http1_Header
begin

text \<open>
  The loop over segments against the machine for single characters. They differ in one place: the loop checks the length of a key when it sees
  the colon, the machine with every character. \<open>bulk_step\<close> is the machine with the loop's check; the loop is that machine on the concatenation of the
  segments, and that machine is \<open>parseChar\<close> except on a key of more than 256 characters.
\<close>

definition bulk_step :: "u8 \<Rightarrow> HttpRequestHeader \<Rightarrow> HttpErrorCode verdict \<times> HttpRequestHeader" where
  "bulk_step c h =
    (if rh_parseState h = HeaderKey \<and> c \<noteq> 0x3A \<and> c \<noteq> CR \<and> c \<noteq> LF then (More, add_key c h) else char_step c h)"

lemmas step_defs = char_step_def parseChar_def code_answer_def

lemma commit_state: "rh_parseState (snd (commitParsedHeaderPair h)) = rh_parseState h"
  by (simp add: commitParsedHeaderPair_def store_header_pair_def Let_def split: option.split)

lemma not_done:
  "parseChar c h = (kNoError, h') \<Longrightarrow> rh_parseState h' \<noteq> Done"
  "rh_parseState h \<noteq> Done \<Longrightarrow> bulk_step c h = (More, h') \<Longrightarrow> rh_parseState h' \<noteq> Done"
proof -
  show p: "rh_parseState h' \<noteq> Done" if "parseChar c h = (kNoError, h')" for h h'
    using that by (auto simp: parseChar_def finish_uri_def finish_version_def finish_key_def commit_line_def add_key_def add_value_def Let_def
        split: RequestParseState.splits if_splits option.splits prod.splits)
  have v: "verdict_of e = More \<Longrightarrow> e = kNoError" for e
    by (cases e) simp_all
  show "rh_parseState h' \<noteq> Done" if "rh_parseState h \<noteq> Done" "bulk_step c h = (More, h')"
    using that p [of h h'] v by (auto simp: bulk_step_def char_step_def add_key_def split: if_splits prod.splits)
qed

section \<open>Turns\<close>

lemma absorb_method:
  "rh_parseState h = Method \<Longrightarrow> list_all (\<lambda>c. c \<noteq> SP \<and> c \<noteq> CR \<and> c \<noteq> LF) w \<Longrightarrow>
    octets_run bulk_step w h = (More, length w, h\<lparr>rh_parseMethodStr := rh_parseMethodStr h @ w\<rparr>)"
  by (rule octets_run_absorb [where Q = "\<lambda>h. rh_parseState h = Method"]) (simp_all add: bulk_step_def step_defs)

lemma absorb_spaces:
  "rh_parseState h \<in> {MethodSP, UriSP, HeaderSpace} \<Longrightarrow> list_all (\<lambda>c. c = SP) w \<Longrightarrow> octets_run bulk_step w h = (More, length w, h)"
  by (rule octets_run_absorb [where Q = "\<lambda>h. rh_parseState h \<in> {MethodSP, UriSP, HeaderSpace}" and app = "\<lambda>w h. h"])
    (auto simp: bulk_step_def step_defs)

lemma absorb_version:
  "rh_parseState h = Version \<Longrightarrow> list_all (\<lambda>c. c \<noteq> CR \<and> c \<noteq> LF) w \<Longrightarrow>
    octets_run bulk_step w h = (More, length w, h\<lparr>rh_parseVersionStr := rh_parseVersionStr h @ w\<rparr>)"
  by (rule octets_run_absorb [where Q = "\<lambda>h. rh_parseState h = Version"]) (simp_all add: bulk_step_def step_defs)

lemma absorb_key:
  "rh_parseState h = HeaderKey \<Longrightarrow> list_all (\<lambda>c. c \<noteq> 0x3A \<and> c \<noteq> CR \<and> c \<noteq> LF) w \<Longrightarrow>
    octets_run bulk_step w h = (More, length w, add_key_chunk w h)"
  by (rule octets_run_absorb [where Q = "\<lambda>h. rh_parseState h = HeaderKey"])
    (auto simp: bulk_step_def add_key_def add_key_chunk_def normalizeHeaderKeyChar_def)

lemma absorb_value:
  "rh_parseState h = HeaderValue \<Longrightarrow> list_all (\<lambda>c. c \<noteq> CR) w \<Longrightarrow>
    octets_run bulk_step w h = (More, length w, h\<lparr>rh_parseHeaderValue := rh_parseHeaderValue h @ w\<rparr>)"
  by (rule octets_run_absorb [where Q = "\<lambda>h. rh_parseState h = HeaderValue"]) (simp_all add: bulk_step_def step_defs add_value_def)

definition fits_uri :: "HttpRequestHeader \<Rightarrow> nat \<Rightarrow> bool" where
  "fits_uri h n = (rh_maxUriSize h = 0 \<or> length (rh_parseUriStr h) + n \<le> rh_maxUriSize h)"

lemma absorb_uri:
  assumes "rh_parseState h = Uri" "list_all (\<lambda>c. c \<noteq> SP \<and> c \<noteq> CR \<and> c \<noteq> LF) w" "w \<noteq> []"
  shows "if fits_uri h (length w) then octets_run bulk_step w h = (More, length w, h\<lparr>rh_parseUriStr := rh_parseUriStr h @ w\<rparr>)
    else \<exists>m t. octets_run bulk_step w h = (Failed kUriTooLong, m, t)"
  using assms
proof (induction w arbitrary: h)
  case (Cons c w)
  let ?h = "h\<lparr>rh_parseUriStr := rh_parseUriStr h @ [c]\<rparr>"
  have step: "bulk_step c h = (if fits_uri h 1 then (More, ?h) else (Failed kUriTooLong, ?h))"
    using Cons.prems by (auto simp: bulk_step_def step_defs fits_uri_def Let_def)
  show ?case
  proof (cases "fits_uri h 1")
    case True
    have more: "fits_uri ?h (length w) = fits_uri h (length (c # w))"
      by (simp add: fits_uri_def)
    show ?thesis
    proof (cases "w = []")
      case False
      then show ?thesis
        using Cons.IH [of ?h] Cons.prems step True more by (auto split: if_splits)
    qed (use step True in simp)
  next
    case False
    then have "\<not> fits_uri h (length (c # w))"
      by (auto simp: fits_uri_def)
    then show ?thesis
      using step False by simp
  qed
qed simp

lemma turn_ok_answer: "data \<noteq> [] \<Longrightarrow> step (data ! 0) s = code_answer r \<Longrightarrow> turn_ok step data s (one r)"
  using turn_ok_one [of data step s "verdict_of (fst r)" "snd r"] by (cases r) (simp add: one_def code_answer_def del: One_nat_def)

lemma request_turn_ok:
  assumes "rh_parseState h \<noteq> Done" "data \<noteq> []"
  shows "turn_ok bulk_step data h (request_turn data h)"
proof (cases "rh_parseState h")
  case Method
  show ?thesis
    unfolding request_turn_def Method RequestParseState.case turn_method_def
    by (rule turn_ok_run [OF assms(2)]) (use Method absorb_method [OF Method] in \<open>auto simp: absorbs_def bulk_step_def step_defs\<close>)
next
  case MethodSP
  show ?thesis
    unfolding request_turn_def MethodSP RequestParseState.case turn_method_sp_def
    by (rule turn_ok_run [OF assms(2)]) (use MethodSP absorb_spaces [of h] in \<open>auto simp: absorbs_def bulk_step_def step_defs Let_def\<close>)
next
  case Uri
  show ?thesis
    unfolding request_turn_def Uri RequestParseState.case turn_uri_def
  proof (rule turn_ok_run [OF assms(2)])
    fix w assume w: "list_all (\<lambda>c :: u8. c \<noteq> SP \<and> c \<noteq> CR \<and> c \<noteq> LF) w"
    show "absorbs bulk_step w h (if w = [] then (More, h)
      else let h = h\<lparr>rh_parseUriStr := rh_parseUriStr h @ w\<rparr>
        in if rh_maxUriSize h \<noteq> 0 \<and> length (rh_parseUriStr h) > rh_maxUriSize h then (Failed kUriTooLong, h) else (More, h))"
      using absorb_uri [OF Uri w] by (auto simp: absorbs_def fits_uri_def Let_def split: if_splits)
  qed (use Uri in \<open>auto simp: bulk_step_def step_defs Let_def split: if_splits\<close>)
next
  case UriSP
  show ?thesis
    unfolding request_turn_def UriSP RequestParseState.case turn_uri_sp_def
    by (rule turn_ok_run [OF assms(2)]) (use UriSP absorb_spaces [of h] in \<open>auto simp: absorbs_def bulk_step_def step_defs\<close>)
next
  case Version
  show ?thesis
    unfolding request_turn_def Version RequestParseState.case turn_version_def
    by (rule turn_ok_run [OF assms(2)]) (use Version absorb_version [OF Version] in \<open>auto simp: absorbs_def bulk_step_def step_defs\<close>)
next
  case HeaderKey
  show ?thesis
    unfolding request_turn_def HeaderKey RequestParseState.case turn_header_key_def
    by (rule turn_ok_run [OF assms(2)])
      (use HeaderKey absorb_key [OF HeaderKey] in \<open>auto simp: absorbs_def bulk_step_def step_defs add_key_chunk_def\<close>)
next
  case HeaderSpace
  show ?thesis
    unfolding request_turn_def HeaderSpace RequestParseState.case turn_header_space_def
    by (rule turn_ok_run [OF assms(2)]) (use HeaderSpace absorb_spaces [of h] in \<open>auto simp: absorbs_def bulk_step_def step_defs\<close>)
next
  case HeaderValue
  show ?thesis
    unfolding request_turn_def HeaderValue RequestParseState.case turn_header_value_def
    by (rule turn_ok_run [OF assms(2)]) (use HeaderValue absorb_value [OF HeaderValue] in \<open>auto simp: absorbs_def bulk_step_def step_defs\<close>)
next
  case Done
  then show ?thesis using assms(1) by simp
next
  case VersionCR
  show ?thesis
    unfolding request_turn_def VersionCR RequestParseState.case turn_version_cr_def
    by (rule turn_ok_answer [OF assms(2)]) (simp add: VersionCR bulk_step_def step_defs)
next
  case VersionLF
  show ?thesis
    unfolding request_turn_def VersionLF RequestParseState.case turn_version_lf_def
    by (rule turn_ok_answer [OF assms(2)]) (simp add: VersionLF bulk_step_def step_defs)
next
  case HeaderColon
  show ?thesis
    unfolding request_turn_def HeaderColon RequestParseState.case turn_header_colon_def
    by (rule turn_ok_answer [OF assms(2)]) (simp add: HeaderColon bulk_step_def step_defs)
next
  case HeaderCR
  show ?thesis
    unfolding request_turn_def HeaderCR RequestParseState.case turn_header_cr_def
    by (rule turn_ok_answer [OF assms(2)]) (simp add: HeaderCR bulk_step_def step_defs)
next
  case HeaderLF
  show ?thesis
    unfolding request_turn_def HeaderLF RequestParseState.case turn_header_lf_def
    by (rule turn_ok_answer [OF assms(2)]) (simp add: HeaderLF bulk_step_def step_defs)
next
  case HeaderEndCR
  show ?thesis
    unfolding request_turn_def HeaderEndCR RequestParseState.case turn_header_end_cr_def
    by (rule turn_ok_answer [OF assms(2)]) (simp add: HeaderEndCR bulk_step_def step_defs)
qed

interpretation req: octet_machine "\<lambda>h. rh_parseState h \<noteq> Done" bulk_step request_turn
  by unfold_locales (use not_done(2) request_turn_ok in auto)

section \<open>The loop against the machine for characters\<close>

lemma verdict_of_cases:
  "verdict_of e = More \<longleftrightarrow> e = kNoError" "verdict_of e = Finished \<longleftrightarrow> e = kIncomplete"
  "verdict_of e = Failed e' \<longleftrightarrow> e = e' \<and> e \<noteq> kNoError \<and> e \<noteq> kIncomplete"
  by (cases e; auto)+

definition long_key :: "HttpRequestHeader \<Rightarrow> bool" where
  "long_key h = (rh_parseState h = HeaderKey \<and> length (rh_parseHeaderKey h) > 256)"

lemma bulk_step_char:
  "bulk_step c h = char_step c h \<or>
    char_step c h = (Failed kBadRequest, h) \<and> (\<exists>h'. bulk_step c h = (More, h') \<and> long_key h')"
  by (auto simp: bulk_step_def char_step_def parseChar_def add_key_def long_key_def)

lemma long_key_step: "long_key h \<Longrightarrow> (\<exists>h'. bulk_step c h = (More, h') \<and> long_key h') \<or> bulk_step c h = (Failed kBadRequest, h)"
  by (auto simp: long_key_def bulk_step_def char_step_def parseChar_def add_key_def finish_key_def)

lemma long_key_run:
  "long_key h \<Longrightarrow> (\<exists>n h'. octets_run bulk_step xs h = (More, n, h') \<and> long_key h') \<or> (\<exists>n h'. octets_run bulk_step xs h = (Failed kBadRequest, n, h'))"
proof (induction xs arbitrary: h)
  case (Cons c cs)
  show ?case
    using long_key_step [OF Cons.prems, of c]
  proof
    assume "\<exists>h'. bulk_step c h = (More, h') \<and> long_key h'"
    then obtain h' where "bulk_step c h = (More, h')" "long_key h'" by blast
    then show ?thesis
      using Cons.IH [of h'] by auto
  qed simp
qed simp

lemma bulk_run_char:
  "octets_run char_step xs h = octets_run bulk_step xs h \<or>
    (\<exists>n t. octets_run char_step xs h = (Failed kBadRequest, n, t)) \<and>
    ((\<exists>n h'. octets_run bulk_step xs h = (More, n, h') \<and> long_key h') \<or> (\<exists>n h'. octets_run bulk_step xs h = (Failed kBadRequest, n, h')))"
proof (induction xs arbitrary: h)
  case (Cons c cs)
  show ?case
    using bulk_step_char [of c h]
  proof
    assume same: "bulk_step c h = char_step c h"
    obtain v t where t: "char_step c h = (v, t)" by (cases "char_step c h")
    show ?thesis
      using same t Cons.IH [of t] by (cases v) auto
  next
    assume "char_step c h = (Failed kBadRequest, h) \<and> (\<exists>h'. bulk_step c h = (More, h') \<and> long_key h')"
    then obtain h' where "char_step c h = (Failed kBadRequest, h)" "bulk_step c h = (More, h')" "long_key h'" by blast
    then show ?thesis
      using long_key_run [of h' cs] by auto
  qed
qed simp

lemma char_run_failed: "octets_run char_step xs h = (Failed e, n, t) \<Longrightarrow> e \<noteq> kNoError \<and> e \<noteq> kIncomplete"
  by (induction xs arbitrary: h n) (auto simp: char_step_def verdict_of_cases split: prod.splits verdict.splits)

lemma bulk_step_failed: "bulk_step c h = (Failed e, t) \<Longrightarrow> e \<noteq> kNoError \<and> e \<noteq> kIncomplete"
  by (auto simp: bulk_step_def char_step_def verdict_of_cases split: if_splits prod.splits)

lemma bulk_run_failed: "octets_run bulk_step xs h = (Failed e, n, t) \<Longrightarrow> e \<noteq> kNoError \<and> e \<noteq> kIncomplete"
  by (induction xs arbitrary: h n) (auto dest: bulk_step_failed split: prod.splits verdict.splits)

lemma bulk_step_finished: "bulk_step c h = (Finished, h') \<Longrightarrow> rh_parseState h \<noteq> Done \<Longrightarrow> rh_parseState h' = Done"
  by (auto simp: bulk_step_def char_step_def parseChar_def verdict_of_cases finish_uri_def finish_version_def finish_key_def commit_line_def
      commitParsedHeaderPair_def Let_def split: RequestParseState.splits if_splits option.splits prod.splits)

lemma bulk_run_finished:
  "octets_run bulk_step xs h = (Finished, n, h') \<Longrightarrow> rh_parseState h \<noteq> Done \<Longrightarrow> rh_parseState h' = Done \<and> 0 < n"
proof (induction xs arbitrary: h n)
  case (Cons c cs)
  obtain v t where t: "bulk_step c h = (v, t)" by (cases "bulk_step c h")
  show ?case
    using Cons.prems Cons.IH [of t] t not_done(2) [of h c t] bulk_step_finished [of c h t] by (cases v) (auto split: prod.splits)
qed simp

lemma header_fromIOVec_run:
  assumes "rh_parseState h \<noteq> Done"
  shows "header_fromIOVec iovs h = ((kNoError, int n), h') \<longleftrightarrow> octets_run bulk_step (concat iovs) h = (Finished, n, h')"
    and "header_fromIOVec iovs h = ((kIncomplete, int n), h') \<longleftrightarrow> octets_run bulk_step (concat iovs) h = (More, n, h')"
    and "octets_run bulk_step (concat iovs) h = (Failed e, m, t) \<Longrightarrow> \<exists>h'. header_fromIOVec iovs h = ((e, - 1), h')"
proof -
  note same = req.iovecs_octets [OF assms, of iovs]
  obtain v k s where r: "octets_run bulk_step (concat iovs) h = (v, k, s)"
    by (cases "octets_run bulk_step (concat iovs) h")
  show "header_fromIOVec iovs h = ((kNoError, int n), h') \<longleftrightarrow> octets_run bulk_step (concat iovs) h = (Finished, n, h')"
    using same r assms bulk_run_failed [of "concat iovs" h]
    by (cases v) (auto simp: header_fromIOVec_def same_answer_more same_answer_finished same_answer_failed)
  show "header_fromIOVec iovs h = ((kIncomplete, int n), h') \<longleftrightarrow> octets_run bulk_step (concat iovs) h = (More, n, h')"
    using same r assms bulk_run_failed [of "concat iovs" h]
    by (cases v) (auto simp: header_fromIOVec_def same_answer_more same_answer_finished same_answer_failed)
  show "\<exists>h'. header_fromIOVec iovs h = ((e, - 1), h')" if "octets_run bulk_step (concat iovs) h = (Failed e, m, t)"
    using same that assms by (auto simp: header_fromIOVec_def same_answer_failed)
qed

text \<open>
  C24. The segment loop of the request header is the character parser. On any cut of the octets into segments, from any state before the end of
  the header, \<open>HttpRequestHeader::fromIOVec\<close> completes the header exactly when \<open>fromString\<close> on the concatenation does, with the same number
  of octets and the same header; it rejects with the code \<open>fromString\<close> rejects with; and when it asks for more it has taken everything and is in
  the state of \<open>fromString\<close>, except inside a header name of more than 256 characters, which \<open>fromString\<close> rejects at once.
\<close>

theorem http_header_segments_characters:
  assumes "rh_parseState h \<noteq> Done"
  shows "case header_fromIOVec iovecs h of ((e, n), h') \<Rightarrow>
    if e = kNoError then fromString (concat iovecs) h = ((kNoError, n), h') \<and> 0 < n \<and> rh_parseState h' = Done
    else if e = kIncomplete then n = int (length (concat iovecs)) \<and> rh_parseState h' \<noteq> Done
      \<and> (fromString (concat iovecs) h = ((kNoError, 0), h') \<or> long_key h' \<and> fst (fromString (concat iovecs) h) = (kBadRequest, - 1))
    else n = - 1 \<and> fst (fromString (concat iovecs) h) = (e, - 1)"
proof -
  obtain v k s where r: "octets_run bulk_step (concat iovecs) h = (v, k, s)"
    by (cases "octets_run bulk_step (concat iovecs) h")
  note char = bulk_run_char [of "concat iovecs" h, unfolded r]
  show ?thesis
  proof (cases v)
    case More
    have "header_fromIOVec iovecs h = ((kIncomplete, int k), s)"
      using header_fromIOVec_run(2) [OF assms] r More by simp
    then show ?thesis
      using char More assms octets_run_more_length [OF r [unfolded More]] req.run_inv [OF assms r [unfolded More]]
      by (auto simp: fromString_def)
  next
    case Finished
    have "header_fromIOVec iovecs h = ((kNoError, int k), s)"
      using header_fromIOVec_run(1) [OF assms] r Finished by simp
    then show ?thesis
      using char Finished assms bulk_run_finished [OF r [unfolded Finished] assms] by (auto simp: fromString_def)
  next
    case (Failed e)
    obtain h' where "header_fromIOVec iovecs h = ((e, - 1), h')"
      using header_fromIOVec_run(3) [OF assms r [unfolded Failed]] by blast
    then show ?thesis
      using char Failed assms bulk_run_failed [OF r [unfolded Failed]] by (auto simp: fromString_def)
  qed
qed

theorem http_header_segments_characters_witness:
  "case header_fromIOVec [str ''GET /a?x=1 HT'', str ''TP/1.1'' @ [CR], [LF] @ str ''Host: h'' @ [CR, LF, CR, LF]] new_request_header of ((e, n), h') \<Rightarrow>
    e = kNoError \<and> n = 32 \<and> rh_uri h' = str ''/a'' \<and> rh_argList h' = [(str ''x'', str ''1'')] \<and> getValue (str ''HOST'') (rh_headerPairs h') = str ''h''
    \<and> fromString (concat [str ''GET /a?x=1 HT'', str ''TP/1.1'' @ [CR], [LF] @ str ''Host: h'' @ [CR, LF, CR, LF]]) new_request_header = ((kNoError, n), h')"
proof -
  let ?iovs = "[str ''GET /a?x=1 HT'', str ''TP/1.1'' @ [CR], [LF] @ str ''Host: h'' @ [CR, LF, CR, LF]]"
  have "case header_fromIOVec ?iovs new_request_header of ((e, n), h') \<Rightarrow>
    e = kNoError \<and> n = 32 \<and> rh_uri h' = str ''/a'' \<and> rh_argList h' = [(str ''x'', str ''1'')] \<and> getValue (str ''HOST'') (rh_headerPairs h') = str ''h''"
    by code_simp
  moreover have "rh_parseState new_request_header \<noteq> Done"
    by (simp add: new_request_header_def)
  from http_header_segments_characters [OF this, of ?iovs] show ?thesis
    using calculation by (auto split: prod.splits)
qed

end
