(* ===== verification/Http1_Chunk.thy ===== *)
theory Http1_Chunk
  imports Http1_Base Octet_Machine
begin

text \<open>
  The chunked transfer coding of \<^verbatim>\<open>galay-http/protoc/http_chunk.cc\<close>: the encoder \<open>toChunk\<close> and the incremental parser \<open>ChunkParser\<close>, which takes
  a body in any number of calls. The text of an error is left out, and so are \<open>m_last_consumed\<close> and \<open>m_last_produced_chunk\<close>,
  which only their own accessors read. Sizes are natural numbers; the number in a size line is checked against
  the range of \<open>size_t\<close> as \<open>std::from_chars\<close> does, and the count of octets read never passes it.
\<close>

section \<open>Sizes and limits\<close>

definition kMaxChunkLineSize :: nat where "kMaxChunkLineSize = 1024"

definition parseChunkSizeLine :: "bytes \<Rightarrow> HttpErrorCode + nat" where
  "parseChunkSizeLine size_buffer =
    (let size_text = takeWhile (\<lambda>c. c \<noteq> 0x3B) size_buffer in
     if size_text = [] then Inl kChunkSizeConvertError
     else (case from_chars_size 16 size_text of
             (ec, parsed_size, n) \<Rightarrow>
               if ec = EcRange then Inl kInvalidChunkLength
               else if ec \<noteq> EcOk \<or> n \<noteq> length size_text then Inl kChunkSizeConvertError
               else Inr parsed_size))"

definition wouldExceedBodyLimit :: "nat \<Rightarrow> nat \<Rightarrow> nat \<Rightarrow> bool" where
  "wouldExceedBodyLimit body_size append_size max_body_size =
    (if max_body_size = 0 then False
     else if body_size > max_body_size then True
     else append_size > max_body_size - body_size)"

section \<open>The encoder\<close>

definition toChunk :: "bytes \<Rightarrow> bool \<Rightarrow> bytes" where
  "toChunk data is_last =
    (if is_last then str ''0'' @ [CR, LF, CR, LF]
     else to_digits 16 (length data) @ [CR, LF] @ data @ [CR, LF])"

section \<open>The parser\<close>

datatype Phase = kSizeLine | kData | kDataCrlf | kLastTrailerLine | kDone

record ChunkParser =
  cp_line_buffer :: bytes
  cp_current_chunk_size :: nat
  cp_current_chunk_read :: nat
  cp_phase :: Phase
  cp_pending_cr :: bool

definition new_chunk_parser :: ChunkParser where
  "new_chunk_parser = \<lparr>cp_line_buffer = [], cp_current_chunk_size = 0, cp_current_chunk_read = 0, cp_phase = kSizeLine,
     cp_pending_cr = False\<rparr>"

definition reset_chunk_parser :: "ChunkParser \<Rightarrow> ChunkParser" where
  "reset_chunk_parser p = p\<lparr>cp_phase := kSizeLine, cp_line_buffer := [], cp_current_chunk_size := 0, cp_current_chunk_read := 0,
     cp_pending_cr := False\<rparr>"

type_synonym chunk_state = "ChunkParser \<times> bytes"

text \<open>A line takes octets up to its end of line; \<open>at_end\<close> is what the line means.\<close>

definition line_octet :: "(chunk_state \<Rightarrow> HttpErrorCode verdict \<times> chunk_state) \<Rightarrow> u8 \<Rightarrow> chunk_state \<Rightarrow> HttpErrorCode verdict \<times> chunk_state" where
  "line_octet at_end c st =
    (case st of (p, body) \<Rightarrow>
     if cp_pending_cr p then
       let st = (p\<lparr>cp_pending_cr := False\<rparr>, body) in
       if c \<noteq> LF then (Failed kInvalidChunkFormat, st) else at_end st
     else if c = CR then (More, p\<lparr>cp_pending_cr := True\<rparr>, body)
     else if c = LF then (Failed kInvalidChunkFormat, st)
     else if length (cp_line_buffer p) \<ge> kMaxChunkLineSize then (Failed kInvalidChunkLength, st)
     else (More, p\<lparr>cp_line_buffer := cp_line_buffer p @ [c]\<rparr>, body))"

definition end_size_line :: "nat \<Rightarrow> chunk_state \<Rightarrow> HttpErrorCode verdict \<times> chunk_state" where
  "end_size_line max_body_size st =
    (case st of (p, chunk_data) \<Rightarrow>
     case parseChunkSizeLine (cp_line_buffer p) of
       Inl e \<Rightarrow> (Failed e, st)
     | Inr parsed_chunk_size \<Rightarrow>
         let p = p\<lparr>cp_line_buffer := [], cp_current_chunk_size := parsed_chunk_size, cp_current_chunk_read := 0\<rparr> in
         if parsed_chunk_size = 0 then (More, p\<lparr>cp_phase := kLastTrailerLine\<rparr>, chunk_data)
         else if wouldExceedBodyLimit (length chunk_data) parsed_chunk_size max_body_size then (Failed kRequestEntityTooLarge, p, chunk_data)
         else (More, p\<lparr>cp_phase := kData\<rparr>, chunk_data))"

definition end_trailer_line :: "chunk_state \<Rightarrow> HttpErrorCode verdict \<times> chunk_state" where
  "end_trailer_line st =
    (case st of (p, body) \<Rightarrow>
     if cp_line_buffer p \<noteq> [] then (Failed kInvalidChunkFormat, st) else (Finished, p\<lparr>cp_phase := kDone\<rparr>, body))"

definition crlf_octet :: "u8 \<Rightarrow> chunk_state \<Rightarrow> HttpErrorCode verdict \<times> chunk_state" where
  "crlf_octet c st =
    (case st of (p, body) \<Rightarrow>
     if \<not> cp_pending_cr p then
       (if c \<noteq> CR then (Failed kInvalidChunkFormat, st) else (More, p\<lparr>cp_pending_cr := True\<rparr>, body))
     else
       let p = p\<lparr>cp_pending_cr := False\<rparr> in
       if c \<noteq> LF then (Failed kInvalidChunkFormat, p, body)
       else (More, p\<lparr>cp_current_chunk_size := 0, cp_current_chunk_read := 0, cp_phase := kSizeLine\<rparr>, body))"

definition data_turn :: "bytes \<Rightarrow> chunk_state \<Rightarrow> HttpErrorCode verdict \<times> nat \<times> chunk_state" where
  "data_turn data st =
    (case st of (p, chunk_data) \<Rightarrow>
     let chunk_remaining = cp_current_chunk_size p - cp_current_chunk_read p;
         to_read = min chunk_remaining (length data);
         p = p\<lparr>cp_current_chunk_read := cp_current_chunk_read p + to_read\<rparr>;
         p = (if cp_current_chunk_read p = cp_current_chunk_size p then p\<lparr>cp_phase := kDataCrlf, cp_pending_cr := False\<rparr> else p) in
     (More, to_read, p, chunk_data @ take to_read data))"

definition chunk_octet :: "nat \<Rightarrow> u8 \<Rightarrow> chunk_state \<Rightarrow> HttpErrorCode verdict \<times> chunk_state" where
  "chunk_octet max_body_size c st =
    (case cp_phase (fst st) of
       kSizeLine \<Rightarrow> line_octet (end_size_line max_body_size) c st
     | kDataCrlf \<Rightarrow> crlf_octet c st
     | kLastTrailerLine \<Rightarrow> line_octet end_trailer_line c st
     | kData \<Rightarrow> (case data_turn [c] st of (v, _, st) \<Rightarrow> (v, st))
     | kDone \<Rightarrow> (Finished, st))"

text \<open>A pass through the loop body: a run of payload, or one octet.\<close>

definition chunk_turn :: "nat \<Rightarrow> bytes \<Rightarrow> chunk_state \<Rightarrow> HttpErrorCode verdict \<times> nat \<times> chunk_state" where
  "chunk_turn max_body_size data st =
    (case cp_phase (fst st) of
       kDone \<Rightarrow> (Finished, 0, st)
     | kData \<Rightarrow> data_turn data st
     | _ \<Rightarrow> (case chunk_octet max_body_size (data ! 0) st of (v, st) \<Rightarrow> (v, 1, st)))"

definition chunk_parse :: "bytes list \<Rightarrow> nat \<Rightarrow> chunk_state \<Rightarrow> (HttpErrorCode + bool \<times> nat) \<times> chunk_state" where
  "chunk_parse iovecs max_body_size st =
    (case iovec_loop (chunk_turn max_body_size) iovecs st of
       (Finished, n, st) \<Rightarrow> (Inr (True, n), st)
     | (Failed e, _, st) \<Rightarrow> (Inl e, st)
     | (More, n, st) \<Rightarrow> (Inr (cp_phase (fst st) = kDone, n), st))"

section \<open>The parser on octets\<close>

definition chunk_open :: "chunk_state \<Rightarrow> bool" where
  "chunk_open st = (cp_phase (fst st) \<noteq> kDone \<and> (cp_phase (fst st) = kData \<longrightarrow> cp_current_chunk_read (fst st) < cp_current_chunk_size (fst st)))"

lemmas chunk_octet_defs = chunk_octet_def line_octet_def end_size_line_def end_trailer_line_def crlf_octet_def Let_def

lemma data_octets:
  assumes "cp_phase p = kData" "0 < length data" "length data \<le> cp_current_chunk_size p - cp_current_chunk_read p"
  shows "octets_run (chunk_octet lim) data (p, body) = (More, length data,
    p\<lparr>cp_current_chunk_read := cp_current_chunk_read p + length data,
      cp_phase := (if cp_current_chunk_read p + length data = cp_current_chunk_size p then kDataCrlf else kData),
      cp_pending_cr := (if cp_current_chunk_read p + length data = cp_current_chunk_size p then False else cp_pending_cr p)\<rparr>, body @ data)"
  using assms
proof (induction data arbitrary: p body)
  case (Cons c cs)
  let ?p = "p\<lparr>cp_current_chunk_read := cp_current_chunk_read p + 1\<rparr>"
  show ?case
  proof (cases "cs = []")
    case True
    then show ?thesis
      using Cons.prems by (auto simp: chunk_octet_def data_turn_def Let_def)
  next
    case False
    then have "chunk_octet lim c (p, body) = (More, ?p, body @ [c])"
      using Cons.prems by (cases cs) (auto simp: chunk_octet_def data_turn_def Let_def)
    then show ?thesis
      using Cons.IH [of ?p "body @ [c]"] Cons.prems False by (cases cs) auto
  qed
qed simp

lemma chunk_octet_open:
  assumes "chunk_open st" "chunk_octet lim c st = (More, st')"
  shows "chunk_open st'"
  using assms
  by (cases st; cases "cp_phase (fst st)")
    (auto simp: chunk_octet_defs data_turn_def chunk_open_def split: if_splits sum.splits)

lemma chunk_turn_ok:
  assumes "chunk_open st" "data \<noteq> []"
  shows "turn_ok (chunk_octet lim) data st (chunk_turn lim data st)"
proof -
  obtain p body where st: "st = (p, body)" by (cases st)
  show ?thesis
  proof (cases "cp_phase p = kData")
    case True
    let ?n = "min (cp_current_chunk_size p - cp_current_chunk_read p) (length data)"
    have n: "0 < ?n" "length (take ?n data) = ?n"
      using assms True st by (auto simp: chunk_open_def)
    have "octets_run (chunk_octet lim) (take ?n data) st = (More, ?n, snd (snd (data_turn data st)))"
      using data_octets [OF True, of "take ?n data" lim body] n st True by (auto simp: data_turn_def Let_def)
    then show ?thesis
      using n st True by (simp add: chunk_turn_def turn_ok_def data_turn_def Let_def)
  next
    case False
    obtain v t where "chunk_octet lim (data ! 0) st = (v, t)" by (cases "chunk_octet lim (data ! 0) st")
    then show ?thesis
      using turn_ok_one [OF assms(2), of "chunk_octet lim" st v t] assms(1) st False
      by (cases "cp_phase p") (simp_all add: chunk_turn_def chunk_open_def del: One_nat_def)
  qed
qed

interpretation chk: octet_machine chunk_open "chunk_octet lim" "chunk_turn lim" for lim
  by unfold_locales (use chunk_octet_open chunk_turn_ok in auto)

section \<open>What the encoder writes\<close>

text \<open>At the start of a size line.\<close>

definition at_line :: "ChunkParser \<Rightarrow> bool" where
  "at_line p = (cp_phase p = kSizeLine \<and> cp_line_buffer p = [] \<and> \<not> cp_pending_cr p)"

lemma line_octets:
  assumes "cp_phase p = kSizeLine" "\<not> cp_pending_cr p" "CR \<notin> set w" "LF \<notin> set w" "length (cp_line_buffer p) + length w \<le> kMaxChunkLineSize"
  shows "octets_run (chunk_octet lim) w (p, body) = (More, length w, p\<lparr>cp_line_buffer := cp_line_buffer p @ w\<rparr>, body)"
  using assms by (induction w arbitrary: p) (auto simp: chunk_octet_def line_octet_def)

lemma length_to_digits: "2 \<le> b \<Longrightarrow> 0 < k \<Longrightarrow> n < b ^ k \<Longrightarrow> length (to_digits b n) \<le> k"
proof (induction k arbitrary: n)
  case (Suc k)
  show ?case
  proof (cases "n < b")
    case False
    then have "0 < k" "n div b < b ^ k"
      using Suc.prems by (auto simp: less_mult_imp_div_less mult.commute intro: Suc_leI gr0I)
    then show ?thesis
      using Suc.IH [of "n div b"] Suc.prems False by (simp add: to_digits.simps [of b n])
  qed (simp add: to_digits.simps [of b n])
qed simp

lemma hex_digit_plain: "digit_value 16 c \<noteq> None \<Longrightarrow> c \<noteq> CR \<and> c \<noteq> LF \<and> c \<noteq> 0x3B"
  by (auto simp: digit_value_def)

lemma hex_line:
  "CR \<notin> set (to_digits 16 n) \<and> LF \<notin> set (to_digits 16 n) \<and> 0x3B \<notin> set (to_digits 16 n)"
  using to_digits_ok [of 16 n] hex_digit_plain unfolding list_all_iff by fastforce

lemma parseChunkSizeLine_digits:
  assumes "n \<le> SIZE_MAX"
  shows "parseChunkSizeLine (to_digits 16 n) = Inr n"
proof -
  have tw: "takeWhile (\<lambda>c. c \<noteq> 0x3B) (to_digits 16 n) = to_digits 16 n"
    using hex_line [of n] by (auto simp: takeWhile_eq_all_conv)
  show ?thesis
    unfolding parseChunkSizeLine_def from_chars_size_def Let_def tw using from_chars_to_digits [of 16 n SIZE_MAX "[]"] assms by simp
qed

lemma size_line_run:
  assumes "at_line p" "n \<le> SIZE_MAX" "wouldExceedBodyLimit (length body) n lim \<longrightarrow> n = 0"
  shows "octets_run (chunk_octet lim) (to_digits 16 n @ [CR, LF]) (p, body) = (More, length (to_digits 16 n) + 2,
    p\<lparr>cp_current_chunk_size := n, cp_current_chunk_read := 0, cp_phase := (if n = 0 then kLastTrailerLine else kData)\<rparr>, body)"
proof -
  have "length (to_digits 16 n) \<le> 16"
    using length_to_digits [of 16 16 n] assms(2) by (simp add: SIZE_MAX_def)
  then have run: "octets_run (chunk_octet lim) (to_digits 16 n) (p, body)
    = (More, length (to_digits 16 n), p\<lparr>cp_line_buffer := to_digits 16 n\<rparr>, body)"
    using line_octets [of p "to_digits 16 n" lim body] hex_line [of n] assms(1) by (simp add: at_line_def kMaxChunkLineSize_def)
  have p: "p\<lparr>cp_line_buffer := []\<rparr> = p" "p\<lparr>cp_pending_cr := False\<rparr> = p"
    using assms(1) by (simp_all add: at_line_def)
  show ?thesis
    unfolding octets_run_append run
    using assms(1,3) parseChunkSizeLine_digits [OF assms(2)] p
    by (auto simp: chunk_octet_def line_octet_def end_size_line_def at_line_def Let_def)
qed

lemma chunk_run:
  assumes "at_line p" "data \<noteq> []" "length data \<le> SIZE_MAX" "\<not> wouldExceedBodyLimit (length body) (length data) lim"
  shows "\<exists>p'. at_line p' \<and> octets_run (chunk_octet lim) (toChunk data False) (p, body) = (More, length (toChunk data False), p', body @ data)"
proof -
  let ?p = "p\<lparr>cp_current_chunk_size := length data, cp_current_chunk_read := 0, cp_phase := kData\<rparr>"
  have "octets_run (chunk_octet lim) (to_digits 16 (length data) @ [CR, LF]) (p, body) = (More, length (to_digits 16 (length data)) + 2, ?p, body)"
    using size_line_run [OF assms(1,3)] assms(2,4) by simp
  moreover have "octets_run (chunk_octet lim) data (?p, body)
    = (More, length data, ?p\<lparr>cp_current_chunk_read := length data, cp_phase := kDataCrlf, cp_pending_cr := False\<rparr>, body @ data)"
    using data_octets [of ?p data lim body] assms(2) by simp
  ultimately have "octets_run (chunk_octet lim) ((to_digits 16 (length data) @ [CR, LF]) @ data @ [CR, LF]) (p, body)
    = (More, length (toChunk data False),
       p\<lparr>cp_current_chunk_size := 0, cp_current_chunk_read := 0, cp_phase := kSizeLine, cp_pending_cr := False\<rparr>,
       body @ data)"
    unfolding octets_run_append by (simp add: chunk_octet_def crlf_octet_def toChunk_def Let_def)
  moreover have "at_line (p\<lparr>cp_current_chunk_size := 0, cp_current_chunk_read := 0, cp_phase := kSizeLine, cp_pending_cr := False\<rparr>)"
    using assms(1) by (simp add: at_line_def)
  ultimately show ?thesis
    by (auto simp: toChunk_def)
qed

lemma last_chunk_run:
  assumes "at_line p"
  shows "octets_run (chunk_octet lim) (toChunk data True) (p, body)
    = (Finished, length (toChunk data True), p\<lparr>cp_current_chunk_size := 0, cp_current_chunk_read := 0, cp_phase := kDone\<rparr>, body)"
proof -
  have z: "str ''0'' = to_digits 16 0"
    by code_simp
  have sz: "octets_run (chunk_octet lim) (to_digits 16 0 @ [CR, LF]) (p, body) = (More, length (to_digits 16 0) + 2,
      p\<lparr>cp_current_chunk_size := 0, cp_current_chunk_read := 0, cp_phase := kLastTrailerLine\<rparr>, body)"
    using size_line_run [OF assms, of 0 body lim] by simp
  have "octets_run (chunk_octet lim) ((to_digits 16 0 @ [CR, LF]) @ [CR, LF]) (p, body)
    = (Finished, length (to_digits 16 0) + 4, p\<lparr>cp_current_chunk_size := 0, cp_current_chunk_read := 0, cp_phase := kDone\<rparr>, body)"
    unfolding octets_run_append [of _ "to_digits 16 0 @ [CR, LF]"] sz using assms
    by (simp add: chunk_octet_def line_octet_def end_trailer_line_def at_line_def)
  then show ?thesis
    by (simp add: toChunk_def z)
qed

definition chunked_body :: "bytes list \<Rightarrow> bytes" where
  "chunked_body parts = concat (map (\<lambda>d. toChunk d False) parts) @ toChunk [] True"

lemma chunked_run:
  assumes "at_line p" "list_all (\<lambda>d. d \<noteq> [] \<and> length d \<le> SIZE_MAX) parts" "lim = 0 \<or> length body + length (concat parts) \<le> lim"
  shows "\<exists>p'. cp_phase p' = kDone \<and> octets_run (chunk_octet lim) (chunked_body parts) (p, body)
    = (Finished, length (chunked_body parts), p', body @ concat parts)"
  using assms
proof (induction parts arbitrary: p body)
  case Nil
  then show ?case
    using last_chunk_run [of p lim "[]" body] by (simp add: chunked_body_def)
next
  case (Cons d parts)
  have "\<not> wouldExceedBodyLimit (length body) (length d) lim"
    using Cons.prems(3) by (auto simp: wouldExceedBodyLimit_def)
  then obtain p' where p': "at_line p'"
    "octets_run (chunk_octet lim) (toChunk d False) (p, body) = (More, length (toChunk d False), p', body @ d)"
    using chunk_run [OF Cons.prems(1), of d body lim] Cons.prems(2) by auto
  obtain q where "cp_phase q = kDone"
    "octets_run (chunk_octet lim) (chunked_body parts) (p', body @ d) = (Finished, length (chunked_body parts), q, (body @ d) @ concat parts)"
    using Cons.IH [OF p'(1), of "body @ d"] Cons.prems(2,3) by auto
  then show ?case
    using p'(2) by (auto simp: chunked_body_def octets_run_append)
qed

text \<open>An octet run that finishes is not changed by what follows.\<close>

lemma octets_run_finished_append: "octets_run f xs s = (Finished, n, s') \<Longrightarrow> octets_run f (xs @ ys) s = (Finished, n, s')"
  by (simp add: octets_run_append)

text \<open>An empty chunk that is not the last one is written as the last one.\<close>

lemma empty_chunk_ends_body: "toChunk [] False = toChunk data True"
proof -
  have "to_digits 16 0 = str ''0''" by code_simp
  then show ?thesis by (simp add: toChunk_def)
qed

text \<open>
  C25. A chunked body arrives as it was sent. The parts, none of them empty, are encoded one by one with \<open>toChunk\<close>, the last chunk is appended,
  and anything may follow; the octets may be cut into segments in any way. A fresh \<open>ChunkParser\<close> then reports the end of the body, has taken exactly
  the octets of the encoding, and the body is the concatenation of the parts, provided it fits the body limit (no limit when that is 0).
\<close>

theorem http_chunk_roundtrip:
  assumes "concat iovecs = chunked_body parts @ rest" "list_all (\<lambda>d. d \<noteq> [] \<and> length d \<le> SIZE_MAX) parts"
    and "lim = 0 \<or> length (concat parts) \<le> lim"
  shows "fst (chunk_parse iovecs lim (new_chunk_parser, [])) = Inr (True, length (chunked_body parts))
    \<and> snd (snd (chunk_parse iovecs lim (new_chunk_parser, []))) = concat parts"
proof -
  have "at_line new_chunk_parser" and op: "chunk_open (new_chunk_parser, [])"
    by (simp_all add: at_line_def new_chunk_parser_def chunk_open_def)
  then obtain q where "octets_run (chunk_octet lim) (chunked_body parts) (new_chunk_parser, [])
    = (Finished, length (chunked_body parts), q, concat parts)"
    using chunked_run [of new_chunk_parser parts lim "[]"] assms(2,3) by auto
  then have "octets_run (chunk_octet lim) (concat iovecs) (new_chunk_parser, []) = (Finished, length (chunked_body parts), q, concat parts)"
    unfolding assms(1) by (rule octets_run_finished_append)
  then have "iovec_loop (chunk_turn lim) iovecs (new_chunk_parser, []) = (Finished, length (chunked_body parts), q, concat parts)"
    using chk.iovecs_finished [OF op] by blast
  then show ?thesis
    by (simp add: chunk_parse_def)
qed

theorem http_chunk_roundtrip_witness:
  "fst (chunk_parse [str ''3'' @ [CR], [LF] @ str ''ab'', str ''c'' @ [CR, LF, 0x31, CR, LF, 0x64, CR, LF, 0x30, CR, LF, CR], [LF] @ str ''GET''] 10
      (new_chunk_parser, [])) = Inr (True, 19)
    \<and> snd (snd (chunk_parse [str ''3'' @ [CR], [LF] @ str ''ab'', str ''c'' @ [CR, LF, 0x31, CR, LF, 0x64, CR, LF, 0x30, CR, LF, CR], [LF] @ str ''GET''] 10
      (new_chunk_parser, []))) = str ''abcd''"
proof -
  let ?iovs = "[str ''3'' @ [CR], [LF] @ str ''ab'', str ''c'' @ [CR, LF, 0x31, CR, LF, 0x64, CR, LF, 0x30, CR, LF, CR], [LF] @ str ''GET'']"
    and ?parts = "[str ''abc'', str ''d'']"
  have "concat ?iovs = chunked_body ?parts @ str ''GET''" "length (chunked_body ?parts) = 19" "concat ?parts = str ''abcd''"
    "length (concat ?parts) \<le> 10"
    by code_simp+
  moreover have "list_all (\<lambda>d. d \<noteq> [] \<and> length d \<le> SIZE_MAX) ?parts"
    by (simp add: SIZE_MAX_def str_def)
  ultimately show ?thesis
    using http_chunk_roundtrip [of ?iovs ?parts "str ''GET''" 10] by simp
qed

section \<open>Bounds on any input\<close>

definition chunk_bounded :: "nat \<Rightarrow> chunk_state \<Rightarrow> bool" where
  "chunk_bounded lim st =
    (case st of (p, body) \<Rightarrow> length (cp_line_buffer p) \<le> kMaxChunkLineSize \<and> length body \<le> lim
      \<and> (cp_phase p = kData \<longrightarrow> cp_current_chunk_read p \<le> cp_current_chunk_size p \<and> length body + cp_current_chunk_size p \<le> lim + cp_current_chunk_read p))"

lemma chunk_turn_bounded:
  assumes "lim \<noteq> 0" "chunk_bounded lim st"
  shows "chunk_bounded lim (snd (snd (chunk_turn lim data st)))"
proof -
  obtain p body where st: "st = (p, body)" by (cases st)
  have "chunk_bounded lim (snd (line_octet end_trailer_line c st))" "chunk_bounded lim (snd (crlf_octet c st))" if "cp_phase p \<noteq> kData" for c
    using assms that st by (auto simp: line_octet_def end_trailer_line_def crlf_octet_def chunk_bounded_def kMaxChunkLineSize_def Let_def)
  moreover have "chunk_bounded lim (snd (line_octet (end_size_line lim) c st))" if "cp_phase p \<noteq> kData" for c
    using assms that st by (auto simp: line_octet_def end_size_line_def chunk_bounded_def kMaxChunkLineSize_def wouldExceedBodyLimit_def Let_def
        split: sum.splits)
  moreover have "chunk_bounded lim (snd (snd (data_turn data st)))" if "cp_phase p = kData"
    using assms that st by (auto simp: data_turn_def chunk_bounded_def Let_def)
  ultimately show ?thesis
    using st assms(2) by (cases "cp_phase p") (simp_all add: chunk_turn_def chunk_octet_def case_prod_beta)
qed

text \<open>
  C19. The chunk parser stays within its bounds whatever the peer sends, accepted or rejected, in any number of calls: with a body limit set, the body
  never has more octets than the limit, the announced rest of the current chunk fits the limit before a single octet of it is stored, and the buffered
  line never has more than 1024 octets.
\<close>

theorem http_chunk_bounds:
  assumes "lim \<noteq> 0" "chunk_bounded lim st"
  shows "chunk_bounded lim (snd (chunk_parse iovecs lim st))"
  using iovec_loop_keeps [where P = "chunk_bounded lim" and turn = "chunk_turn lim", OF chunk_turn_bounded [OF assms(1)] assms(2), of iovecs]
  by (auto simp: chunk_parse_def split: prod.splits verdict.splits)

theorem http_chunk_bounds_witness:
  "chunk_bounded 4 (snd (chunk_parse [str ''3'' @ [CR, LF] @ str ''abc'' @ [CR, LF], str ''2'' @ [CR, LF] @ str ''de''] 4 (new_chunk_parser, [])))
    \<and> fst (chunk_parse [str ''3'' @ [CR, LF] @ str ''abc'' @ [CR, LF], str ''2'' @ [CR, LF] @ str ''de''] 4 (new_chunk_parser, []))
      = Inl kRequestEntityTooLarge"
proof -
  have "fst (chunk_parse [str ''3'' @ [CR, LF] @ str ''abc'' @ [CR, LF], str ''2'' @ [CR, LF] @ str ''de''] 4 (new_chunk_parser, []))
      = Inl kRequestEntityTooLarge"
    by code_simp
  moreover
  have "chunk_bounded 4 (new_chunk_parser, [])"
    by (simp add: chunk_bounded_def new_chunk_parser_def)
  ultimately show ?thesis
    using http_chunk_bounds [of 4 "(new_chunk_parser, [])"] by simp
qed

end
