(* ===== verification/Http1_Request.thy ===== *)
theory Http1_Request
  imports Http1_Bulk Http1_Chunk
begin

text \<open>
  The request of \<^verbatim>\<open>galay-http/protoc/http_request.cc\<close>: the header parser, the decision how long the body is, and the two ways a body arrives,
  over memory segments and in any number of calls. Route parameters belong to the router and are left out, and so is the field
  \<open>m_headerLength\<close>, which nothing writes.
\<close>

section \<open>Header queries\<close>

text \<open>\<open>containsCommaSeparatedHeaderValue\<close> is the loop of \<^const>\<open>headerValueContainsToken\<close>.\<close>

definition isChunked :: "HttpRequestHeader \<Rightarrow> bool" where
  "isChunked h = (case getValuePtr (str ''transfer-encoding'') (rh_headerPairs h) of
     Some te \<Rightarrow> headerValueContainsToken te (str ''chunked'') | None \<Rightarrow> False)"

definition isKeepAlive :: "HttpRequestHeader \<Rightarrow> bool" where
  "isKeepAlive h =
    (case getValuePtr (str ''connection'') (rh_headerPairs h) of
       None \<Rightarrow> rh_version h = HttpVersion_1_1
     | Some conn \<Rightarrow>
         if conn = [] then rh_version h = HttpVersion_1_1
         else if headerValueContainsToken conn (str ''close'') then False
         else if headerValueContainsToken conn (str ''keep-alive'') then True
         else rh_version h = HttpVersion_1_1)"

definition isConnectionClose :: "HttpRequestHeader \<Rightarrow> bool" where
  "isConnectionClose h = (case getValuePtr (str ''connection'') (rh_headerPairs h) of
     Some conn \<Rightarrow> headerValueContainsToken conn (str ''close'') | None \<Rightarrow> False)"

definition removeHeaderPairLoose :: "bytes \<Rightarrow> HeaderPair \<Rightarrow> HeaderPair" where
  "removeHeaderPairLoose key headers =
    (let headers = snd (removeHeaderPair key headers);
         lower = map toLowerAsciiChar key;
         headers = (if lower \<noteq> key then snd (removeHeaderPair lower headers) else headers);
         upper = map toUpperAsciiChar key;
         headers = (if upper \<noteq> key \<and> upper \<noteq> lower then snd (removeHeaderPair upper headers) else headers);
         canonical = canonical_from True lower
     in if canonical \<noteq> key \<and> canonical \<noteq> lower \<and> canonical \<noteq> upper then snd (removeHeaderPair canonical headers) else headers)"

section \<open>Segments\<close>

fun sliceIovecs :: "bytes list \<Rightarrow> nat \<Rightarrow> bytes list" where
  "sliceIovecs [] skip = []"
| "sliceIovecs (iov # iovs) skip =
    (if skip \<ge> length iov then sliceIovecs iovs (skip - length iov) else drop skip iov # sliceIovecs iovs 0)"

text \<open>The loops of \<open>fromIOVec\<close> that pass over the header and copy the body; what is left of the segments stands for \<open>iov_idx\<close> and \<open>byte_idx\<close>.\<close>

fun skip_iovecs :: "bytes list \<Rightarrow> nat \<Rightarrow> bytes list" where
  "skip_iovecs [] header_bytes = []"
| "skip_iovecs (iov # iovs) header_bytes =
    (if header_bytes = 0 then iov # iovs
     else if length iov \<le> header_bytes then skip_iovecs iovs (header_bytes - length iov)
     else drop header_bytes iov # iovs)"

fun read_body :: "bytes list \<Rightarrow> nat \<Rightarrow> bytes" where
  "read_body [] needed = []"
| "read_body (iov # iovs) needed =
    (if needed = 0 then [] else let to_read = min (length iov) needed in take to_read iov @ read_body iovs (needed - to_read))"

lemma concat_slice: "concat (sliceIovecs iovs n) = drop n (concat iovs)"
  by (induction iovs n rule: sliceIovecs.induct) auto

lemma concat_skip: "concat (skip_iovecs iovs n) = drop n (concat iovs)"
  by (induction iovs n rule: skip_iovecs.induct) auto

lemma read_body_take: "read_body iovs n = take n (concat iovs)"
  by (induction iovs n rule: read_body.induct) (auto simp: min_def)

section \<open>The request\<close>

record HttpRequest =
  rq_body :: bytes
  rq_header :: HttpRequestHeader
  rq_contentLength :: nat
  rq_bodyParsed :: nat
  rq_chunkParser :: ChunkParser
  rq_headerParsed :: bool

definition new_request :: HttpRequest where
  "new_request = \<lparr>rq_body = [], rq_header = new_request_header, rq_contentLength = 0, rq_bodyParsed = 0,
     rq_chunkParser = new_chunk_parser, rq_headerParsed = False\<rparr>"

definition reset_request :: "HttpRequest \<Rightarrow> HttpRequest" where
  "reset_request rq = rq\<lparr>rq_header := reset_request_header (rq_header rq), rq_body := [], rq_contentLength := 0, rq_bodyParsed := 0,
     rq_headerParsed := False, rq_chunkParser := reset_chunk_parser (rq_chunkParser rq)\<rparr>"

definition isComplete :: "HttpRequest \<Rightarrow> bool" where
  "isComplete rq =
    (if \<not> rq_headerParsed rq then False
     else if isChunked (rq_header rq) then False
     else rq_bodyParsed rq \<ge> rq_contentLength rq)"

datatype body_kind = NoBody | LengthBody | ChunkedBody

text \<open>The header is complete: which body follows.\<close>

definition choose_body :: "nat \<Rightarrow> HttpRequest \<Rightarrow> (HttpErrorCode + body_kind) \<times> HttpRequest" where
  "choose_body max_body_size rq =
    (let transfer_encoding = getValuePtr (str ''transfer-encoding'') (rh_headerPairs (rq_header rq));
         content_length = getValuePtr (str ''content-length'') (rh_headerPairs (rq_header rq)) in
     case transfer_encoding of
       Some te \<Rightarrow>
         if content_length \<noteq> None then (Inl kBadRequest, rq)
         else if \<not> isSingleHeaderToken te (str ''chunked'') then (Inl kBadRequest, rq)
         else (Inr ChunkedBody, rq)
     | None \<Rightarrow>
         (case content_length of
            None \<Rightarrow> (Inr NoBody, rq)
          | Some value \<Rightarrow>
              if value = [] then (Inr NoBody, rq)
              else (case parseSizeTStrict value of
                      None \<Rightarrow> (Inl kBadRequest, rq)
                    | Some parsed_length \<Rightarrow>
                        let rq = rq\<lparr>rq_contentLength := parsed_length\<rparr> in
                        if max_body_size \<noteq> 0 \<and> parsed_length > max_body_size then (Inl kRequestEntityTooLarge, rq)
                        else if parsed_length = 0 then (Inr NoBody, rq)
                        else (Inr LengthBody, rq))))"

text \<open>The last chunk has arrived: the request is turned into one with a length.\<close>

definition finish_chunked :: "HttpRequest \<Rightarrow> HttpRequest" where
  "finish_chunked rq =
    (let headers = removeHeaderPairLoose (str ''transfer-encoding'') (rh_headerPairs (rq_header rq));
         headers = snd (addHeaderPair (str ''content-length'') (to_digits 10 (length (rq_body rq))) headers)
     in rq\<lparr>rq_header := (rq_header rq)\<lparr>rh_headerPairs := headers\<rparr>, rq_contentLength := length (rq_body rq), rq_bodyParsed := length (rq_body rq)\<rparr>)"

definition set_chunk :: "chunk_state \<Rightarrow> HttpRequest \<Rightarrow> HttpRequest" where
  "set_chunk st rq = rq\<lparr>rq_chunkParser := fst st, rq_body := snd st\<rparr>"

definition read_chunked :: "bytes list \<Rightarrow> nat \<Rightarrow> nat \<Rightarrow> HttpRequest \<Rightarrow> (HttpErrorCode \<times> int) \<times> HttpRequest" where
  "read_chunked iovecs max_body_size header_bytes rq =
    (let body_iovecs = sliceIovecs iovecs header_bytes in
     if body_iovecs = [] then ((kNoError, int header_bytes), rq)
     else (case chunk_parse body_iovecs max_body_size (rq_chunkParser rq, rq_body rq) of
             (Inl e, st) \<Rightarrow> (if e = kIncomplete then (kNoError, int header_bytes) else (e, - 1), set_chunk st rq)
           | (Inr (is_last, n), st) \<Rightarrow>
               ((kNoError, int header_bytes + int n), if is_last then finish_chunked (set_chunk st rq) else set_chunk st rq)))"

definition read_length :: "bytes list \<Rightarrow> nat \<Rightarrow> HttpRequest \<Rightarrow> (HttpErrorCode \<times> int) \<times> HttpRequest" where
  "read_length iovecs header_bytes rq =
    (if rq_contentLength rq = 0 then ((kNoError, 0), rq)
     else
       let body_needed = rq_contentLength rq - rq_bodyParsed rq;
           body = read_body (skip_iovecs iovecs header_bytes) body_needed in
       ((kNoError, int header_bytes + int (length body)),
        rq\<lparr>rq_body := rq_body rq @ body, rq_bodyParsed := rq_bodyParsed rq + length body\<rparr>))"

definition request_fromIOVec :: "bytes list \<Rightarrow> nat \<Rightarrow> HttpRequest \<Rightarrow> (HttpErrorCode \<times> int) \<times> HttpRequest" where
  "request_fromIOVec iovecs max_body_size rq =
    (if \<not> rq_headerParsed rq then
       (case header_fromIOVec iovecs (rq_header rq) of
          ((err, header_consumed), h) \<Rightarrow>
            let rq = rq\<lparr>rq_header := h\<rparr> in
            if err \<noteq> kNoError \<and> err \<noteq> kIncomplete then ((err, - 1), rq)
            else if err = kIncomplete then ((kNoError, header_consumed), rq)
            else
              (case choose_body max_body_size (rq\<lparr>rq_headerParsed := True\<rparr>) of
                 (Inl e, rq) \<Rightarrow> ((e, - 1), rq)
               | (Inr NoBody, rq) \<Rightarrow> ((kNoError, header_consumed), rq)
               | (Inr ChunkedBody, rq) \<Rightarrow> read_chunked iovecs max_body_size (nat header_consumed) rq
               | (Inr LengthBody, rq) \<Rightarrow> read_length iovecs (nat header_consumed) rq))
     else
       if (case getValuePtr (str ''transfer-encoding'') (rh_headerPairs (rq_header rq)) of
             Some te \<Rightarrow> headerValueContainsToken te (str ''chunked'') | None \<Rightarrow> False)
       then read_chunked iovecs max_body_size 0 rq
       else read_length iovecs 0 rq)"

section \<open>The request on octets\<close>

text \<open>The reference: one octet at a time, finished with the last octet of the request.\<close>

definition request_octet :: "nat \<Rightarrow> u8 \<Rightarrow> HttpRequest \<Rightarrow> HttpErrorCode verdict \<times> HttpRequest" where
  "request_octet max_body_size c rq =
    (if \<not> rq_headerParsed rq then
       (case bulk_step c (rq_header rq) of
          (Finished, h) \<Rightarrow>
            (case choose_body max_body_size (rq\<lparr>rq_header := h, rq_headerParsed := True\<rparr>) of
               (Inl e, rq) \<Rightarrow> (Failed e, rq)
             | (Inr NoBody, rq) \<Rightarrow> (Finished, rq)
             | (Inr _, rq) \<Rightarrow> (More, rq))
        | (v, h) \<Rightarrow> (v, rq\<lparr>rq_header := h\<rparr>))
     else if isChunked (rq_header rq) then
       (case chunk_octet max_body_size c (rq_chunkParser rq, rq_body rq) of
          (Finished, st) \<Rightarrow> (Finished, finish_chunked (set_chunk st rq))
        | (v, st) \<Rightarrow> (v, set_chunk st rq))
     else
       (if rq_bodyParsed rq + 1 = rq_contentLength rq then Finished else More,
        rq\<lparr>rq_body := rq_body rq @ [c], rq_bodyParsed := rq_bodyParsed rq + 1\<rparr>))"

definition request_run :: "nat \<Rightarrow> bytes \<Rightarrow> HttpRequest \<Rightarrow> HttpErrorCode verdict \<times> nat \<times> HttpRequest" where
  "request_run max_body_size xs rq = octets_run (request_octet max_body_size) xs rq"

end
