(* ===== verification/Http1_Request_Run.thy ===== *)
theory Http1_Request_Run
  imports Http1_Request
begin

text \<open>
  The request parser on octets. A header under construction keeps its store well formed; the calls of \<open>fromIOVec\<close> are runs of the octet
  machine, so that only the octets count; and the body of a request is what its header says.
\<close>

section \<open>Header invariant\<close>

definition header_ok :: "HttpRequestHeader \<Rightarrow> bool" where
  "header_ok h = (hp_ok (rh_headerPairs h) \<and> rh_mode h = ServerSide \<and> \<not> hasUpperAscii (rh_parseHeaderKey h)
    \<and> (rh_parseState h \<in> {HeaderColon, HeaderSpace, HeaderValue} \<longrightarrow> rh_currentCommonHeaderIdx h = matchCommonHeader (rh_parseHeaderKey h)))"

lemma store_lookup:
  assumes "header_ok h" "rh_parseState h \<in> {HeaderColon, HeaderSpace, HeaderValue}"
  shows "hp_ok (rh_headerPairs (store_header_pair h)) \<and> rh_mode (store_header_pair h) = ServerSide
    \<and> server_lookup (rh_headerPairs (store_header_pair h)) = (server_lookup (rh_headerPairs h))
        (rh_parseHeaderKey h \<mapsto> merged (server_lookup (rh_headerPairs h) (rh_parseHeaderKey h)) (rh_parseHeaderValue h))"
proof -
  have ok: "hp_ok (rh_headerPairs h)" "rh_mode h = ServerSide" "\<not> hasUpperAscii (rh_parseHeaderKey h)"
    "rh_currentCommonHeaderIdx h = matchCommonHeader (rh_parseHeaderKey h)"
    using assms unfolding header_ok_def by blast+
  show ?thesis
  proof (cases "matchCommonHeader (rh_parseHeaderKey h) = NotCommon")
    case True
    then show ?thesis
      using ok merge_ok [OF ok(1,2) True ok(3)] merge_lookup [OF True] by (simp add: store_header_pair_def)
  next
    case False
    then show ?thesis
      using ok setCommonHeader_ok [OF ok(1,2)] setCommonHeader_lookup [OF ok(1) False] by (simp add: store_header_pair_def)
  qed
qed

lemma commit_ok:
  assumes "header_ok h" "rh_parseState h \<in> {HeaderColon, HeaderSpace, HeaderValue}" "commitParsedHeaderPair h = (kNoError, h')"
  shows "hp_ok (rh_headerPairs h') \<and> rh_mode h' = ServerSide \<and> rh_parseHeaderKey h' = []
    \<and> server_lookup (rh_headerPairs h') = (server_lookup (rh_headerPairs h))
        (rh_parseHeaderKey h \<mapsto> merged (server_lookup (rh_headerPairs h) (rh_parseHeaderKey h)) (rh_parseHeaderValue h))"
proof -
  have stored: "hp_ok (rh_headerPairs (store_header_pair g)) \<and> rh_mode (store_header_pair g) = ServerSide \<and> rh_parseHeaderKey (store_header_pair g) = []
    \<and> server_lookup (rh_headerPairs (store_header_pair g)) = (server_lookup (rh_headerPairs h))
        (rh_parseHeaderKey h \<mapsto> merged (server_lookup (rh_headerPairs h) (rh_parseHeaderKey h)) (rh_parseHeaderValue h))"
    if "g = h\<lparr>rh_headerCount := a, rh_hasContentLength := b, rh_contentLengthValue := c\<rparr>" for g a b c
    using store_lookup [of g] assms(1,2) that by (simp add: header_ok_def store_header_pair_def)
  obtain b c where h': "h' = store_header_pair (h\<lparr>rh_headerCount := rh_headerCount h + 1, rh_hasContentLength := b, rh_contentLengthValue := c\<rparr>)"
  proof -
    have "h' = store_header_pair (h\<lparr>rh_headerCount := rh_headerCount h + 1\<rparr>) \<or>
      (\<exists>v. h' = store_header_pair (h\<lparr>rh_headerCount := rh_headerCount h + 1, rh_hasContentLength := True, rh_contentLengthValue := v\<rparr>))"
      using assms(3) by (auto simp: commitParsedHeaderPair_def Let_def split: if_splits option.splits)
    moreover have "h\<lparr>rh_headerCount := rh_headerCount h + 1\<rparr>
      = h\<lparr>rh_headerCount := rh_headerCount h + 1, rh_hasContentLength := rh_hasContentLength h, rh_contentLengthValue := rh_contentLengthValue h\<rparr>"
      by simp
    ultimately show ?thesis
      using that by metis
  qed
  show ?thesis
    unfolding h' by (rule stored [OF refl])
qed

lemma no_upper_snoc: "\<not> hasUpperAscii k \<Longrightarrow> \<not> hasUpperAscii (k @ [toLowerAsciiChar c])"
  using lower_no_upper [of "[c]"] by (simp add: hasUpperAscii_def toLowerAscii_def)

lemma no_upper_nil [simp]: "\<not> hasUpperAscii []"
  by (simp add: hasUpperAscii_def)

lemma add_key_ok: "header_ok h \<Longrightarrow> rh_parseState h \<notin> {HeaderColon, HeaderSpace, HeaderValue} \<Longrightarrow> s \<notin> {HeaderColon, HeaderSpace, HeaderValue} \<Longrightarrow>
    header_ok (add_key c h) \<and> header_ok ((add_key c h)\<lparr>rh_parseState := s\<rparr>)"
  by (auto simp: header_ok_def add_key_def normalizeHeaderKeyChar_def no_upper_snoc)

lemma commit_line_ok:
  assumes "header_ok h" "rh_parseState h \<in> {HeaderColon, HeaderSpace, HeaderValue}" "commit_line h = (kNoError, h')"
  shows "header_ok h' \<and> rh_parseState h' = HeaderCR \<and> server_lookup (rh_headerPairs h') = (server_lookup (rh_headerPairs h))
        (rh_parseHeaderKey h \<mapsto> merged (server_lookup (rh_headerPairs h) (rh_parseHeaderKey h)) (rh_parseHeaderValue h))"
proof -
  obtain g where "commitParsedHeaderPair h = (kNoError, g)" "h' = g\<lparr>rh_parseState := HeaderCR\<rparr>"
    using assms(3) by (auto simp: commit_line_def split: prod.splits if_splits)
  then show ?thesis
    using commit_ok [OF assms(1,2)] by (simp add: header_ok_def)
qed

lemma header_ok_same:
  "header_ok h \<Longrightarrow> rh_headerPairs h' = rh_headerPairs h \<Longrightarrow> rh_parseHeaderKey h' = rh_parseHeaderKey h \<Longrightarrow>
    rh_parseState h' \<notin> {HeaderColon, HeaderSpace, HeaderValue} \<or> rh_currentCommonHeaderIdx h' = matchCommonHeader (rh_parseHeaderKey h') \<Longrightarrow> header_ok h'"
  by (auto simp: header_ok_def)

lemma header_ok_index:
  "header_ok h \<Longrightarrow> rh_parseState h \<in> {HeaderColon, HeaderSpace, HeaderValue} \<Longrightarrow> rh_currentCommonHeaderIdx h = matchCommonHeader (rh_parseHeaderKey h)"
  by (auto simp: header_ok_def)

lemma finish_ok:
  assumes "header_ok h" "rh_parseState h \<notin> {HeaderColon, HeaderSpace, HeaderValue}"
  shows "header_ok (snd (finish_uri h))" "header_ok (snd (finish_version h))" "header_ok (snd (finish_key h))"
proof -
  have "rh_mode h = ServerSide"
    using assms(1) by (simp add: header_ok_def)
  then show "header_ok (snd (finish_key h))"
    using assms by (auto simp: finish_key_def intro: header_ok_same)
  show "header_ok (snd (finish_uri h))" "header_ok (snd (finish_version h))"
    using assms by (auto simp: finish_uri_def finish_version_def Let_def split: option.split prod.split intro: header_ok_same)
qed

lemma parseChar_ok:
  assumes "header_ok h" "parseChar c h = (e, h')" "e = kNoError \<or> e = kIncomplete"
  shows "header_ok h'"
proof (cases "rh_parseState h \<in> {HeaderColon, HeaderSpace, HeaderValue}")
  case True
  show ?thesis
  proof (cases "c = CR")
    case True
    then have line: "commit_line h = (e, h')"
      using \<open>rh_parseState h \<in> _\<close> assms(2) by (auto simp: parseChar_def)
    moreover have "fst (commit_line h) \<noteq> kIncomplete"
      by (simp add: commit_line_def commitParsedHeaderPair_def Let_def split: option.split)
    ultimately show ?thesis
      using commit_line_ok [OF assms(1) \<open>rh_parseState h \<in> _\<close>, of h'] assms(3) by auto
  next
    case False
    then have "rh_headerPairs h' = rh_headerPairs h \<and> rh_parseHeaderKey h' = rh_parseHeaderKey h \<and> rh_currentCommonHeaderIdx h' = rh_currentCommonHeaderIdx h"
      using True assms(2) by (auto simp: parseChar_def add_value_def split: if_splits)
    then show ?thesis
      using header_ok_index [OF assms(1) True] by (intro header_ok_same [OF assms(1)]) auto
  qed
next
  case False
  note finish = finish_ok [OF assms(1) False] and key = add_key_ok [OF assms(1) False, of HeaderKey c]
  have same: "header_ok t" if "rh_headerPairs t = rh_headerPairs h" "rh_parseHeaderKey t = rh_parseHeaderKey h" "rh_parseState t \<notin> {HeaderColon, HeaderSpace, HeaderValue}" for t
    using header_ok_same [OF assms(1) that(1,2)] that(3) by blast
  have "header_ok (snd (parseChar c h))"
    using False finish key by (cases "rh_parseState h") (simp_all add: parseChar_def same Let_def)
  then show ?thesis
    using assms(2) by simp
qed

lemma bulk_step_ok:
  assumes "header_ok h" "bulk_step c h = (v, h')" "v = More \<or> v = Finished"
  shows "header_ok h'"
  using assms parseChar_ok [OF assms(1)] add_key_ok [OF assms(1), of HeaderKey c]
  by (auto simp: bulk_step_def char_step_def verdict_of_cases split: if_splits prod.splits)

lemma bulk_run_ok:
  "header_ok h \<Longrightarrow> octets_run bulk_step xs h = (v, n, h') \<Longrightarrow> v = More \<or> v = Finished \<Longrightarrow> header_ok h'"
proof (induction xs arbitrary: h n)
  case (Cons c cs)
  obtain w t where t: "bulk_step c h = (w, t)" by (cases "bulk_step c h")
  then show ?case
    using Cons.prems Cons.IH [of t] bulk_step_ok [OF Cons.prems(1) t] by (cases w) (auto split: prod.splits)
qed simp

section \<open>Segments and octets\<close>

definition te_key :: bytes where "te_key = str ''transfer-encoding''"
definition cl_key :: bytes where "cl_key = str ''content-length''"

lemma lower_keys [simp]: "toLowerAscii (str ''transfer-encoding'') = te_key" "toLowerAscii (str ''content-length'') = cl_key" "te_key \<noteq> cl_key" "cl_key \<noteq> te_key"
  unfolding te_key_def cl_key_def by code_simp+

lemma header_values:
  assumes "header_ok h"
  shows "getValuePtr (str ''transfer-encoding'') (rh_headerPairs h) = server_lookup (rh_headerPairs h) te_key"
    "getValuePtr (str ''content-length'') (rh_headerPairs h) = server_lookup (rh_headerPairs h) cl_key"
  using assms getValuePtr_server [of "rh_headerPairs h"] by (simp_all add: header_ok_def)

text \<open>A single token \<open>chunked\<close> contains the token.\<close>

lemma set_trim: "set (trimAscii v) \<subseteq> set v" and set_trim_comma: "0x2C \<in> set v \<Longrightarrow> 0x2C \<in> set (trimAscii v)"
proof -
  have drop: "set (dropWhile isspace w) \<subseteq> set w" for w
    by (meson set_dropWhileD subsetI)
  then show "set (trimAscii v) \<subseteq> set v"
    unfolding trimAscii_def by (metis (no_types, lifting) drop order_trans set_rev)
  have keep: "0x2C \<in> set w \<Longrightarrow> 0x2C \<in> set (dropWhile isspace w)" for w
    by (induction w) (auto simp: isspace_def)
  show "0x2C \<in> set v \<Longrightarrow> 0x2C \<in> set (trimAscii v)"
    unfolding trimAscii_def using keep [of v] keep [of "rev (dropWhile isspace v)"] by simp
qed

lemma single_token_contained:
  assumes "isSingleHeaderToken v t" "t \<noteq> []"
  shows "headerValueContainsToken v t"
proof -
  have trim: "0x2C \<notin> set v" "equalsIgnoreCaseAscii (trimAscii v) t"
    using assms(1) set_trim_comma [of v] by (auto simp: isSingleHeaderToken_def Let_def)
  then have ne: "trimAscii v \<noteq> []"
    using assms(2) by (auto simp: equalsIgnoreCaseAscii_def)
  then have "v \<noteq> []" by (auto simp: trimAscii_def)
  have "takeWhile (\<lambda>c. c \<noteq> 0x2C) v = v"
    using trim(1) by (auto simp: takeWhile_eq_all_conv)
  moreover have "comma_split [] = []"
    by (simp add: comma_split.simps [of "[]"])
  ultimately have "comma_split v = [v]"
    using comma_split.simps [of v] \<open>v \<noteq> []\<close> by (simp only: if_False) simp
  then show ?thesis
    using trim ne \<open>v \<noteq> []\<close> assms(2) by (simp add: headerValueContainsToken_def)
qed

lemma remove_te:
  assumes "hp_ok hs" "hp_mode hs = ServerSide"
  shows "hp_ok (removeHeaderPairLoose (str ''transfer-encoding'') hs) \<and> hp_mode (removeHeaderPairLoose (str ''transfer-encoding'') hs) = ServerSide
    \<and> server_lookup (removeHeaderPairLoose (str ''transfer-encoding'') hs) = (server_lookup hs)(te_key := None)"
proof -
  have keys: "map toLowerAsciiChar (str ''transfer-encoding'') = str ''transfer-encoding''"
    "map toUpperAsciiChar (str ''transfer-encoding'') = str ''TRANSFER-ENCODING''"
    "canonical_from True (str ''transfer-encoding'') = str ''Transfer-Encoding''"
    "toLowerAscii (str ''TRANSFER-ENCODING'') = te_key" "toLowerAscii (str ''Transfer-Encoding'') = te_key"
    unfolding te_key_def by code_simp+
  have distinct: "str ''TRANSFER-ENCODING'' \<noteq> str ''transfer-encoding''" "str ''Transfer-Encoding'' \<noteq> str ''transfer-encoding''"
    "str ''Transfer-Encoding'' \<noteq> str ''TRANSFER-ENCODING''"
    by code_simp+
  have loose: "removeHeaderPairLoose (str ''transfer-encoding'') hs = snd (removeHeaderPair (str ''Transfer-Encoding'')
      (snd (removeHeaderPair (str ''TRANSFER-ENCODING'') (snd (removeHeaderPair (str ''transfer-encoding'') hs)))))"
    unfolding removeHeaderPairLoose_def Let_def keys using distinct by (simp only: if_True if_False not_False_eq_True simp_thms)
  note 1 = removeHeaderPair_server [OF assms, of "str ''transfer-encoding''"]
  note 2 = removeHeaderPair_server [OF 1 [THEN conjunct1] 1 [THEN conjunct2, THEN conjunct1], of "str ''TRANSFER-ENCODING''"]
  note 3 = removeHeaderPair_server [OF 2 [THEN conjunct1] 2 [THEN conjunct2, THEN conjunct1], of "str ''Transfer-Encoding''"]
  show ?thesis
    unfolding loose using 1 2 3 by (simp only: keys lower_keys fun_upd_upd simp_thms)
qed

lemma finish_chunked_ok:
  assumes "header_ok (rq_header rq)" "rq_headerParsed rq"
  shows "isComplete (finish_chunked rq) \<and> hp_ok (rh_headerPairs (rq_header (finish_chunked rq))) \<and> rh_mode (rq_header (finish_chunked rq)) = ServerSide
    \<and> server_lookup (rh_headerPairs (rq_header (finish_chunked rq))) te_key = None"
proof -
  let ?hs = "removeHeaderPairLoose (str ''transfer-encoding'') (rh_headerPairs (rq_header rq))"
  have rem: "hp_ok ?hs \<and> hp_mode ?hs = ServerSide \<and> server_lookup ?hs = (server_lookup (rh_headerPairs (rq_header rq)))(te_key := None)"
    using remove_te assms(1) by (simp add: header_ok_def)
  then have add: "hp_ok (rh_headerPairs (rq_header (finish_chunked rq))) \<and> rh_mode (rq_header (finish_chunked rq)) = ServerSide
    \<and> server_lookup (rh_headerPairs (rq_header (finish_chunked rq))) te_key = None"
    using addHeaderPair_server [of ?hs "str ''content-length''" "to_digits 10 (length (rq_body rq))"]
    by (simp add: finish_chunked_def Let_def)
  then have "getValuePtr (str ''transfer-encoding'') (rh_headerPairs (rq_header (finish_chunked rq))) = None"
    using getValuePtr_server by (metis lower_keys(1))
  then have "\<not> isChunked (rq_header (finish_chunked rq))"
    by (simp add: isChunked_def)
  then show ?thesis
    using add assms(2) by (simp add: isComplete_def) (simp add: finish_chunked_def Let_def)
qed

text \<open>A request that is not complete yet.\<close>

definition request_open :: "HttpRequest \<Rightarrow> bool" where
  "request_open rq = (header_ok (rq_header rq)
    \<and> (if \<not> rq_headerParsed rq then rh_parseState (rq_header rq) \<noteq> Done \<and> rq_contentLength rq = 0 \<and> rq_bodyParsed rq = 0 \<and> rq_body rq = []
        \<and> chunk_open (rq_chunkParser rq, []) \<and> at_line (rq_chunkParser rq)
       else if isChunked (rq_header rq) then chunk_open (rq_chunkParser rq, rq_body rq)
       else rq_bodyParsed rq < rq_contentLength rq))"

lemma chunk_open_body: "chunk_open (p, body) = chunk_open (p, body')"
  by (simp add: chunk_open_def)

lemma choose_body_cases:
  assumes "header_ok (rq_header rq)" "choose_body lim rq = (r, rq')"
  shows "r = Inr ChunkedBody \<Longrightarrow> isChunked (rq_header rq) \<and> rq' = rq"
    and "r = Inr LengthBody \<Longrightarrow> \<not> isChunked (rq_header rq) \<and> (\<exists>n. 0 < n \<and> rq' = rq\<lparr>rq_contentLength := n\<rparr>)"
    and "r = Inr NoBody \<Longrightarrow> \<not> isChunked (rq_header rq) \<and> (rq' = rq \<or> rq' = rq\<lparr>rq_contentLength := 0\<rparr>)"
proof -
  have tok: "str ''chunked'' \<noteq> []"
    by code_simp
  show "isChunked (rq_header rq) \<and> rq' = rq" if "r = Inr ChunkedBody"
    using assms(2) that single_token_contained [OF _ tok]
    by (auto simp: choose_body_def isChunked_def Let_def split: option.splits if_splits)
  show "\<not> isChunked (rq_header rq) \<and> (\<exists>n. 0 < n \<and> rq' = rq\<lparr>rq_contentLength := n\<rparr>)" if "r = Inr LengthBody"
    using assms(2) that by (auto simp: choose_body_def isChunked_def Let_def split: option.splits if_splits)
  show "\<not> isChunked (rq_header rq) \<and> (rq' = rq \<or> rq' = rq\<lparr>rq_contentLength := 0\<rparr>)" if "r = Inr NoBody"
    using assms(2) that by (auto simp: choose_body_def isChunked_def Let_def split: option.splits if_splits)
qed

lemma chunked_octets:
  assumes "rq_headerParsed rq" "isChunked (rq_header rq)"
  shows "octets_run (request_octet lim) xs rq =
    (case octets_run (chunk_octet lim) xs (rq_chunkParser rq, rq_body rq) of
       (Finished, n, st) \<Rightarrow> (Finished, n, finish_chunked (set_chunk st rq))
     | (v, n, st) \<Rightarrow> (v, n, set_chunk st rq))"
  using assms
proof (induction xs arbitrary: rq)
  case Nil
  then show ?case by (simp add: set_chunk_def)
next
  case (Cons c cs)
  obtain v st where v: "chunk_octet lim c (rq_chunkParser rq, rq_body rq) = (v, st)"
    by (cases "chunk_octet lim c (rq_chunkParser rq, rq_body rq)")
  have "set_chunk st' (set_chunk st rq) = set_chunk st' rq" "rq_headerParsed (set_chunk st rq)" "isChunked (rq_header (set_chunk st rq))"
    "(rq_chunkParser (set_chunk st rq), rq_body (set_chunk st rq)) = st" for st'
    using Cons.prems by (simp_all add: set_chunk_def)
  then show ?case
    using v Cons.IH [of "set_chunk st rq"] Cons.prems by (cases v) (auto simp: request_octet_def split: prod.splits verdict.splits)
qed

lemma length_octets:
  assumes "rq_headerParsed rq" "\<not> isChunked (rq_header rq)" "rq_bodyParsed rq < rq_contentLength rq"
  shows "octets_run (request_octet lim) xs rq =
    (let k = min (rq_contentLength rq - rq_bodyParsed rq) (length xs) in
     (if rq_bodyParsed rq + k = rq_contentLength rq then Finished else More, k,
      rq\<lparr>rq_body := rq_body rq @ take k xs, rq_bodyParsed := rq_bodyParsed rq + k\<rparr>))"
  using assms
proof (induction xs arbitrary: rq)
  case (Cons c cs)
  let ?rq = "rq\<lparr>rq_body := rq_body rq @ [c], rq_bodyParsed := rq_bodyParsed rq + 1\<rparr>"
  show ?case
  proof (cases "rq_bodyParsed rq + 1 = rq_contentLength rq")
    case True
    then have "min (rq_contentLength rq - rq_bodyParsed rq) (length (c # cs)) = 1"
      by simp
    then show ?thesis
      using True Cons.prems by (simp add: request_octet_def)
  next
    case False
    have k: "min (rq_contentLength rq - rq_bodyParsed rq) (length (c # cs)) = Suc (min (rq_contentLength rq - rq_bodyParsed ?rq) (length cs))"
      using False Cons.prems by auto
    show ?thesis
      unfolding k using False Cons.prems Cons.IH [of ?rq] by (simp add: request_octet_def Let_def)
  qed
qed (simp add: Let_def)

lemma header_octets:
  assumes "\<not> rq_headerParsed rq"
  shows "octets_run (request_octet lim) xs rq =
    (case octets_run bulk_step xs (rq_header rq) of
       (Finished, n, h) \<Rightarrow>
         (case choose_body lim (rq\<lparr>rq_header := h, rq_headerParsed := True\<rparr>) of
            (Inl e, rq) \<Rightarrow> (Failed e, n, rq)
          | (Inr NoBody, rq) \<Rightarrow> (Finished, n, rq)
          | (Inr _, rq) \<Rightarrow> (case octets_run (request_octet lim) (drop n xs) rq of (v, m, rq) \<Rightarrow> (v, n + m, rq)))
     | (v, n, h) \<Rightarrow> (v, n, rq\<lparr>rq_header := h\<rparr>))"
  using assms
proof (induction xs arbitrary: rq)
  case (Cons c cs)
  obtain v h where v: "bulk_step c (rq_header rq) = (v, h)" by (cases "bulk_step c (rq_header rq)")
  show ?case
  proof (cases v)
    case More
    then show ?thesis
      using v Cons.IH [of "rq\<lparr>rq_header := h\<rparr>"] Cons.prems
      by (auto simp: request_octet_def [of lim c rq] split: prod.splits verdict.splits sum.splits body_kind.splits)
  next
    case Finished
    then show ?thesis
      using v Cons.prems by (auto simp: request_octet_def [of lim c rq] split: prod.splits verdict.splits sum.splits body_kind.splits)
  next
    case (Failed e)
    then show ?thesis
      using v Cons.prems by (simp add: request_octet_def [of lim c rq])
  qed
qed simp

definition run_answer :: "nat \<Rightarrow> HttpErrorCode verdict \<times> nat \<times> HttpRequest \<Rightarrow> (HttpErrorCode \<times> int) \<times> HttpRequest \<Rightarrow> bool" where
  "run_answer k run r =
    (case run of
       (Failed e, _) \<Rightarrow> e \<noteq> kNoError \<and> fst r = (e, - 1)
     | (v, n, rq) \<Rightarrow> r = ((kNoError, int k + int n), rq) \<and> (isComplete rq \<longleftrightarrow> v = Finished) \<and> (request_open rq \<longleftrightarrow> v = More))"

lemma chunk_failed:
  "octets_run (chunk_octet lim) xs st = (Failed e, n, st') \<Longrightarrow> e \<noteq> kNoError \<and> e \<noteq> kIncomplete"
proof (induction xs arbitrary: st n)
  case (Cons c cs)
  have "chunk_octet lim c st = (Failed e, s) \<Longrightarrow> e \<noteq> kNoError \<and> e \<noteq> kIncomplete" for s
    by (cases st; cases "cp_phase (fst st)")
      (auto simp: chunk_octet_defs data_turn_def parseChunkSizeLine_def split: if_splits sum.splits prod.splits)
  then show ?case
    using Cons by (auto split: prod.splits verdict.splits)
qed simp

lemma complete_not_open: "request_open rq \<Longrightarrow> \<not> isComplete rq"
  by (auto simp: request_open_def isComplete_def split: if_splits)

lemma read_chunked_run:
  assumes "header_ok (rq_header rq)" "rq_headerParsed rq" "isChunked (rq_header rq)" "chunk_open (rq_chunkParser rq, rq_body rq)"
  shows "run_answer k (octets_run (request_octet lim) (drop k (concat iovs)) rq) (read_chunked iovs lim k rq)"
proof -
  let ?st = "(rq_chunkParser rq, rq_body rq)" and ?iovs = "sliceIovecs iovs k"
  obtain v n st where r: "octets_run (chunk_octet lim) (drop k (concat iovs)) ?st = (v, n, st)"
    by (cases "octets_run (chunk_octet lim) (drop k (concat iovs)) ?st")
  have same: "same_answer (iovec_loop (chunk_turn lim) ?iovs ?st) (v, n, st)"
    using chk.iovecs_octets [OF assms(4), of lim ?iovs] r by (simp add: concat_slice)
  have set: "rq_header (set_chunk st rq) = rq_header rq" "rq_headerParsed (set_chunk st rq)"
    "(rq_chunkParser (set_chunk st rq), rq_body (set_chunk st rq)) = st"
    using assms(2) by (simp_all add: set_chunk_def)
  note run = chunked_octets [OF assms(2,3), of lim "drop k (concat iovs)", unfolded r]
  show ?thesis
  proof (cases v)
    case More
    have "chunk_open st"
      using chk.run_inv [OF assms(4) r [unfolded More]] .
    then have "request_open (set_chunk st rq)" "cp_phase (fst st) \<noteq> kDone"
      using assms set by (simp_all add: request_open_def chunk_open_def)
    moreover have "read_chunked iovs lim k rq = ((kNoError, int k + int n), set_chunk st rq)"
    proof (cases "?iovs = []")
      case True
      then have "n = 0 \<and> st = ?st"
        using same More by (simp add: same_answer_more)
      then show ?thesis
        using True by (simp add: read_chunked_def set_chunk_def)
    next
      case False
      then show ?thesis
        using same More \<open>cp_phase (fst st) \<noteq> kDone\<close> by (simp add: read_chunked_def chunk_parse_def same_answer_more)
    qed
    ultimately show ?thesis
      using run More complete_not_open by (auto simp: run_answer_def)
  next
    case Finished
    have "?iovs \<noteq> []"
      using same Finished by (auto simp: same_answer_finished)
    then have "read_chunked iovs lim k rq = ((kNoError, int k + int n), finish_chunked (set_chunk st rq))"
      using same Finished by (simp add: read_chunked_def chunk_parse_def same_answer_finished)
    then show ?thesis
      using run Finished finish_chunked_ok [of "set_chunk st rq"] assms(1) set complete_not_open by (auto simp: run_answer_def)
  next
    case (Failed e)
    have "?iovs \<noteq> []"
      using same Failed by (auto simp: same_answer_failed)
    then show ?thesis
      using run same Failed chunk_failed [OF r [unfolded Failed]]
      by (auto simp: run_answer_def read_chunked_def chunk_parse_def same_answer_failed)
  qed
qed

lemma read_length_run:
  assumes "header_ok (rq_header rq)" "rq_headerParsed rq" "\<not> isChunked (rq_header rq)" "rq_bodyParsed rq < rq_contentLength rq"
  shows "run_answer k (octets_run (request_octet lim) (drop k (concat iovs)) rq) (read_length iovs k rq)"
proof -
  have "\<not> isChunked (rq_header (rq\<lparr>rq_body := b, rq_bodyParsed := j\<rparr>))" "header_ok (rq_header (rq\<lparr>rq_body := b, rq_bodyParsed := j\<rparr>))" for b j
    using assms by simp_all
  then show ?thesis
    using assms unfolding length_octets [OF assms(2-4)]
    by (auto simp: run_answer_def read_length_def read_body_take concat_skip isComplete_def request_open_def Let_def min_def)
qed

lemma run_answer_shift: "run_answer k run r \<Longrightarrow> run_answer 0 (case run of (v, m, rq) \<Rightarrow> (v, k + m, rq)) r"
  by (cases run; cases "fst run") (auto simp: run_answer_def)

lemma choose_body_error: "choose_body lim rq = (Inl e, rq') \<Longrightarrow> e \<noteq> kNoError"
  by (auto simp: choose_body_def Let_def split: option.splits if_splits)

lemma request_run_fromIOVec:
  assumes "request_open rq"
  shows "run_answer 0 (request_run lim (concat iovs) rq) (request_fromIOVec iovs lim rq)"
proof (cases "rq_headerParsed rq")
  case True
  then show ?thesis
    using read_chunked_run [of rq 0 lim iovs] read_length_run [of rq 0 lim iovs] assms
    by (auto simp: request_open_def request_run_def request_fromIOVec_def isChunked_def split: if_splits)
next
  case False
  have h: "header_ok (rq_header rq)" "rh_parseState (rq_header rq) \<noteq> Done" "rq_contentLength rq = 0" "rq_bodyParsed rq = 0" "rq_body rq = []"
    "chunk_open (rq_chunkParser rq, [])" "at_line (rq_chunkParser rq)"
    using assms False by (auto simp: request_open_def)
  obtain v n h' where r: "octets_run bulk_step (concat iovs) (rq_header rq) = (v, n, h')"
    by (cases "octets_run bulk_step (concat iovs) (rq_header rq)")
  note run = header_octets [OF False, of lim "concat iovs", unfolded r]
  show ?thesis
  proof (cases v)
    case More
    have "header_fromIOVec iovs (rq_header rq) = ((kIncomplete, int n), h')"
      using header_fromIOVec_run(2) [OF h(2)] r More by simp
    moreover have "header_ok h'" "rh_parseState h' \<noteq> Done"
      using bulk_run_ok [OF h(1) r] req.run_inv [OF h(2) r [unfolded More]] More by simp_all
    ultimately show ?thesis
      using run More False h by (simp add: run_answer_def request_run_def request_fromIOVec_def request_open_def isComplete_def)
  next
    case (Failed e)
    obtain g where "header_fromIOVec iovs (rq_header rq) = ((e, - 1), g)"
      using header_fromIOVec_run(3) [OF h(2) r [unfolded Failed]] by blast
    then show ?thesis
      using run Failed False bulk_run_failed [OF r [unfolded Failed]] by (simp add: run_answer_def request_run_def request_fromIOVec_def)
  next
    case Finished
    let ?rq = "rq\<lparr>rq_header := h', rq_headerParsed := True\<rparr>"
    have hdr: "header_fromIOVec iovs (rq_header rq) = ((kNoError, int n), h')"
      using header_fromIOVec_run(1) [OF h(2)] r Finished by simp
    have ok: "header_ok h'"
      using bulk_run_ok [OF h(1) r] Finished by simp
    obtain f rq' where f: "choose_body lim ?rq = (f, rq')" by (cases "choose_body lim ?rq")
    show ?thesis
    proof (cases f)
      case (Inl e)
      then show ?thesis
        using run Finished False hdr f choose_body_error [of lim ?rq e rq'] by (simp add: run_answer_def request_run_def request_fromIOVec_def)
    next
      case (Inr kind)
      have frame: "request_run lim (concat iovs) rq = (case kind of NoBody \<Rightarrow> (Finished, n, rq')
          | _ \<Rightarrow> (case octets_run (request_octet lim) (drop n (concat iovs)) rq' of (v, m, rq) \<Rightarrow> (v, n + m, rq)))"
        "request_fromIOVec iovs lim rq = (case kind of NoBody \<Rightarrow> ((kNoError, int n), rq') | ChunkedBody \<Rightarrow> read_chunked iovs lim n rq'
          | LengthBody \<Rightarrow> read_length iovs n rq')"
        using run Finished False hdr f Inr by (simp_all add: request_run_def request_fromIOVec_def split: body_kind.split)
      note kinds = choose_body_cases [OF _ f, simplified Inr]
      show ?thesis
      proof (cases kind)
        case NoBody
        then have "isComplete rq' \<and> rq_headerParsed rq' \<and> \<not> isChunked (rq_header rq') \<and> rq_contentLength rq' = 0"
          using kinds(3) ok h by (auto simp: isComplete_def)
        then show ?thesis
          using frame NoBody complete_not_open [of rq'] by (auto simp: run_answer_def)
      next
        case LengthBody
        then show ?thesis
          using frame kinds(2) ok h(4) run_answer_shift [OF read_length_run [of rq' n lim iovs]] by auto
      next
        case ChunkedBody
        then show ?thesis
          using frame kinds(1) ok h(5,6) run_answer_shift [OF read_chunked_run [of rq' n lim iovs]] by auto
      qed
    qed
  qed
qed

section \<open>Calls\<close>

text \<open>A caller that passes the octets on as they come, until the request is complete or rejected: the answer, and the octets taken from each call.\<close>

fun feed :: "nat \<Rightarrow> bytes list list \<Rightarrow> HttpRequest \<Rightarrow> HttpErrorCode verdict \<times> nat \<times> HttpRequest" where
  "feed lim [] rq = (More, 0, rq)"
| "feed lim (iovecs # calls) rq =
    (case request_fromIOVec iovecs lim rq of
       ((err, consumed), rq') \<Rightarrow>
         if err \<noteq> kNoError then (Failed err, 0, rq')
         else if isComplete rq' then (Finished, nat consumed, rq')
         else (case feed lim calls rq' of (v, n, rq'') \<Rightarrow> (v, nat consumed + n, rq'')))"

lemma feed_run:
  assumes "request_open rq"
  shows "same_answer (feed lim calls rq) (request_run lim (concat (concat calls)) rq)"
  using assms
proof (induction calls arbitrary: rq)
  case Nil
  then show ?case by (simp add: request_run_def)
next
  case (Cons iovs calls)
  note r = request_run_fromIOVec [OF Cons.prems, of lim iovs]
  obtain v n rq' where run: "request_run lim (concat iovs) rq = (v, n, rq')" by (cases "request_run lim (concat iovs) rq")
  show ?case
  proof (cases v)
    case More
    then have call: "request_fromIOVec iovs lim rq = ((kNoError, int n), rq')" "\<not> isComplete rq'" "request_open rq'"
      using r run by (auto simp: run_answer_def)
    from same_answer_shift [OF Cons.IH [OF call(3)], of n] show ?thesis
      using call run More by (simp add: request_run_def octets_run_append)
  next
    case Finished
    then show ?thesis
      using r run by (auto simp: run_answer_def request_run_def octets_run_append)
  next
    case (Failed e)
    then show ?thesis
      using r run by (cases "request_fromIOVec iovs lim rq") (auto simp: run_answer_def request_run_def octets_run_append same_answer_failed)
  qed
qed

lemma feed_cases:
  assumes "request_open rq" "request_run lim (concat (concat calls)) rq = (v, n, rq')"
  shows "fst (feed lim calls rq) = v" "v = More \<or> v = Finished \<Longrightarrow> feed lim calls rq = (v, n, rq')"
  using feed_run [OF assms(1), of lim calls] assms(2)
  by (cases v; auto simp: same_answer_more same_answer_finished same_answer_failed)+

text \<open>
  C18. However the octets of a request come in, the request parser gives one answer. From any request that is not complete, passing the octets to
  \<open>HttpRequest::fromIOVec\<close> in any number of calls, each cut into segments in any way, completes the request, rejects it, or leaves it waiting exactly
  as the octet machine does on the concatenation, with the same octets taken and, unless it is rejected, the same request; two deliveries of the same
  octets agree.
\<close>

theorem http_request_any_delivery:
  assumes "request_open rq"
  shows "same_answer (feed lim calls rq) (request_run lim (concat (concat calls)) rq)
    \<and> (concat (concat calls') = concat (concat calls) \<longrightarrow> same_answer (feed lim calls rq) (feed lim calls' rq))"
proof -
  have "same_answer (request_run lim (concat (concat calls)) rq) (feed lim calls' rq)" if "concat (concat calls') = concat (concat calls)"
    using feed_run [OF assms, of lim calls'] that
    by (cases "request_run lim (concat (concat calls)) rq"; cases "fst (request_run lim (concat (concat calls)) rq)")
      (auto simp: same_answer_more same_answer_finished same_answer_failed)
  then show ?thesis
    using feed_run [OF assms, of lim calls] same_answer_trans by blast
qed

lemma new_request_open: "request_open (new_request\<lparr>rq_header := setParseLimits a b c new_request_header\<rparr>)"
proof -
  have "hp_mode (new_headers ServerSide) = ServerSide"
    by (simp add: new_headers_def)
  then show ?thesis
    by (simp add: request_open_def new_request_def setParseLimits_def new_request_header_def header_ok_def chunk_open_def at_line_def
        new_chunk_parser_def)
qed

theorem http_request_any_delivery_witness:
  "same_answer (feed 0 [[str ''GET / HT''], [str ''TP/1.1'', [CR, LF, CR], [LF]]] new_request)
      (feed 0 [[str ''GET'', str '' / HTTP/1.1''], [[CR]], [[LF, CR, LF]]] new_request)
    \<and> fst (feed 0 [[str ''GET / HT''], [str ''TP/1.1'', [CR, LF, CR], [LF]]] new_request) = Finished"
proof -
  let ?a = "[[str ''GET / HT''], [str ''TP/1.1'', [CR, LF, CR], [LF]]]" and ?b = "[[str ''GET'', str '' / HTTP/1.1''], [[CR]], [[LF, CR, LF]]]"
  have "concat (concat ?b) = concat (concat ?a)" "fst (feed 0 ?a new_request) = Finished"
    by code_simp+
  moreover have "new_request = new_request\<lparr>rq_header := setParseLimits 0 0 0 new_request_header\<rparr>"
    by (simp add: new_request_def setParseLimits_def new_request_header_def)
  then have "request_open new_request"
    using new_request_open [of 0 0 0] by simp
  ultimately show ?thesis
    using http_request_any_delivery [of new_request 0 ?a ?b] by blast
qed

text \<open>The next request on a connection starts afresh, whatever became of the last one.\<close>

lemma reset_request_open:
  assumes "hp_ok (rh_headerPairs (rq_header rq))" "rh_mode (rq_header rq) = ServerSide"
  shows "request_open (reset_request rq) \<and> \<not> rq_headerParsed (reset_request rq)
    \<and> server_lookup (rh_headerPairs (rq_header (reset_request rq))) = Map.empty"
proof -
  have "hp_ok (clear_headers (rh_headerPairs (rq_header rq))) \<and> hp_mode (clear_headers (rh_headerPairs (rq_header rq))) = ServerSide"
    using assms by (simp add: clear_headers_def hp_ok_def)
  moreover have "server_lookup (clear_headers (rh_headerPairs (rq_header rq))) = Map.empty"
    using assms(2) common_index_less by (auto simp: clear_headers_def server_lookup_def hasCommonHeader_def fun_eq_iff Let_def)
  ultimately show ?thesis
    by (simp add: request_open_def reset_request_def reset_request_header_def reset_chunk_parser_def header_ok_def chunk_open_def at_line_def)
qed

section \<open>Framing\<close>

definition delivers :: "HttpErrorCode verdict \<times> nat \<times> HttpRequest \<Rightarrow> HttpErrorCode verdict \<Rightarrow> nat \<Rightarrow> bytes \<Rightarrow> bool" where
  "delivers r v n body = (fst r = v \<and> fst (snd r) = n \<and> rq_body (snd (snd r)) = body)"

lemma framed_run:
  assumes "request_open rq" "\<not> rq_headerParsed rq" "header_fromIOVec [head] (rq_header rq) = ((kNoError, int (length head)), h)"
  shows "request_run lim (head @ rest) rq =
    (case choose_body lim (rq\<lparr>rq_header := h, rq_headerParsed := True\<rparr>) of
       (Inl e, rq) \<Rightarrow> (Failed e, length head, rq)
     | (Inr NoBody, rq) \<Rightarrow> (Finished, length head, rq)
     | (Inr _, rq) \<Rightarrow> (case octets_run (request_octet lim) rest rq of (v, m, rq) \<Rightarrow> (v, length head + m, rq)))"
    and "header_ok h" and "rq_body rq = []" and "rq_bodyParsed rq = 0" and "chunk_open (rq_chunkParser rq, [])" and "at_line (rq_chunkParser rq)"
proof -
  have op: "header_ok (rq_header rq)" "rh_parseState (rq_header rq) \<noteq> Done"
    using assms(1,2) by (auto simp: request_open_def)
  have r: "octets_run bulk_step head (rq_header rq) = (Finished, length head, h)"
    using header_fromIOVec_run(1) [OF op(2), of "[head]" "length head" h] assms(3) by simp
  then have "octets_run bulk_step (head @ rest) (rq_header rq) = (Finished, length head, h)"
    by (rule octets_run_finished_append)
  then show "request_run lim (head @ rest) rq =
    (case choose_body lim (rq\<lparr>rq_header := h, rq_headerParsed := True\<rparr>) of
       (Inl e, rq) \<Rightarrow> (Failed e, length head, rq)
     | (Inr NoBody, rq) \<Rightarrow> (Finished, length head, rq)
     | (Inr _, rq) \<Rightarrow> (case octets_run (request_octet lim) rest rq of (v, m, rq) \<Rightarrow> (v, length head + m, rq)))"
    unfolding request_run_def using header_octets [OF assms(2), of lim "head @ rest"] by (simp split: prod.split sum.split body_kind.split)
  show "header_ok h"
    using bulk_run_ok [OF op(1) r] by simp
  show "rq_body rq = []" "rq_bodyParsed rq = 0" "chunk_open (rq_chunkParser rq, [])" "at_line (rq_chunkParser rq)"
    using assms(1,2) by (simp_all add: request_open_def)
qed

lemma te_header: "header_ok h \<Longrightarrow> getValuePtr (str ''Transfer-Encoding'') (rh_headerPairs h) = server_lookup (rh_headerPairs h) te_key"
  and cl_header: "header_ok h \<Longrightarrow> getValuePtr (str ''Content-Length'') (rh_headerPairs h) = server_lookup (rh_headerPairs h) cl_key"
proof -
  have "toLowerAscii (str ''Transfer-Encoding'') = te_key" "toLowerAscii (str ''Content-Length'') = cl_key"
    unfolding te_key_def cl_key_def by code_simp+
  then show "header_ok h \<Longrightarrow> getValuePtr (str ''Transfer-Encoding'') (rh_headerPairs h) = server_lookup (rh_headerPairs h) te_key"
    "header_ok h \<Longrightarrow> getValuePtr (str ''Content-Length'') (rh_headerPairs h) = server_lookup (rh_headerPairs h) cl_key"
    using getValuePtr_server [of "rh_headerPairs h"] by (simp_all add: header_ok_def)
qed

lemma chunked_delivery:
  assumes "rq_headerParsed rq" "isChunked (rq_header rq)" "chunk_open (rq_chunkParser rq, rq_body rq)"
  shows "case chunk_parse [rest] lim (rq_chunkParser rq, rq_body rq) of
      (Inr (is_last, n), p, body) \<Rightarrow> delivers (octets_run (request_octet lim) rest rq) (if is_last then Finished else More) n body
    | (Inl e, _) \<Rightarrow> fst (octets_run (request_octet lim) rest rq) = Failed e"
proof -
  obtain v n st where r: "octets_run (chunk_octet lim) rest (rq_chunkParser rq, rq_body rq) = (v, n, st)"
    by (cases "octets_run (chunk_octet lim) rest (rq_chunkParser rq, rq_body rq)")
  have same: "same_answer (iovec_loop (chunk_turn lim) [rest] (rq_chunkParser rq, rq_body rq)) (v, n, st)"
    using chk.iovecs_octets [OF assms(3), of lim "[rest]"] r by simp
  note run = chunked_octets [OF assms(1,2), of lim rest, unfolded r]
  show ?thesis
  proof (cases v)
    case More
    then have "cp_phase (fst st) \<noteq> kDone"
      using chk.run_inv [OF assms(3) r [unfolded More]] by (simp add: chunk_open_def)
    then show ?thesis
      using same run More by (simp add: chunk_parse_def same_answer_more delivers_def set_chunk_def split: prod.split)
  next
    case Finished
    then show ?thesis
      using same run by (simp add: chunk_parse_def same_answer_finished delivers_def set_chunk_def finish_chunked_def Let_def split: prod.split)
  next
    case (Failed e)
    then show ?thesis
      using same run by (auto simp: chunk_parse_def same_answer_failed)
  qed
qed

text \<open>
  C7. The body of a request is what its header says, on every branch. Let the octets \<open>head\<close> complete the header \<open>h\<close>, and let any octets follow, delivered in
  any way. A header with both \<open>Transfer-Encoding\<close> and \<open>Content-Length\<close> is rejected, a transfer coding other than the single token \<open>chunked\<close> is
  rejected, a length that is not one number of the range of \<open>size_t\<close> is rejected (so a repeated length, merged with a comma, is too), and a length over
  the limit is refused as too large. Otherwise a chunked body is what the chunk parser makes of the octets after the header, and a body with a length
  is complete as soon as that many octets are there and takes exactly those; a request with neither ends with its header.
\<close>

theorem http_request_framing:
  assumes "request_open rq" "\<not> rq_headerParsed rq" "header_fromIOVec [head] (rq_header rq) = ((kNoError, int (length head)), h)"
    and "concat (concat calls) = head @ rest"
  shows "case (getValuePtr (str ''Transfer-Encoding'') (rh_headerPairs h), getValuePtr (str ''Content-Length'') (rh_headerPairs h)) of
      (Some _, Some _) \<Rightarrow> fst (feed lim calls rq) = Failed kBadRequest
    | (Some te, None) \<Rightarrow>
        if isSingleHeaderToken te (str ''chunked'') then
          (case chunk_parse [rest] lim (rq_chunkParser rq, []) of
             (Inr (is_last, n), p, body) \<Rightarrow> delivers (feed lim calls rq) (if is_last then Finished else More) (length head + n) body
           | (Inl e, _) \<Rightarrow> fst (feed lim calls rq) = Failed e)
        else fst (feed lim calls rq) = Failed kBadRequest
    | (None, Some cl) \<Rightarrow>
        (case parseSizeTStrict cl of
           None \<Rightarrow> if cl = [] then delivers (feed lim calls rq) Finished (length head) [] else fst (feed lim calls rq) = Failed kBadRequest
         | Some n \<Rightarrow>
             if lim \<noteq> 0 \<and> lim < n then fst (feed lim calls rq) = Failed kRequestEntityTooLarge
             else if n \<le> length rest then delivers (feed lim calls rq) Finished (length head + n) (take n rest)
             else delivers (feed lim calls rq) More (length head + length rest) rest)
    | (None, None) \<Rightarrow> delivers (feed lim calls rq) Finished (length head) []"
proof -
  let ?rq = "rq\<lparr>rq_header := h, rq_headerParsed := True\<rparr>"
  note framed = framed_run [OF assms(1-3)]
  have feed: "request_run lim (head @ rest) rq = (v, n, rq') \<Longrightarrow> fst (feed lim calls rq) = v \<and>
      (v = More \<or> v = Finished \<longrightarrow> feed lim calls rq = (v, n, rq'))" for v n rq'
    using feed_cases [OF assms(1), of lim calls v n rq'] assms(4) by simp
  have look: "getValuePtr (str ''transfer-encoding'') (rh_headerPairs h) = server_lookup (rh_headerPairs h) te_key"
    "getValuePtr (str ''content-length'') (rh_headerPairs h) = server_lookup (rh_headerPairs h) cl_key"
    using header_values [OF framed(2)] by simp_all
  show ?thesis
  proof (cases "server_lookup (rh_headerPairs h) te_key")
    case None
    have plain: "\<not> isChunked (rq_header ?rq)"
      using None look by (simp add: isChunked_def)
    have len: "octets_run (request_octet lim) rest (?rq\<lparr>rq_contentLength := n\<rparr>) =
      (let k = min n (length rest) in (if k = n then Finished else More, k, ?rq\<lparr>rq_contentLength := n, rq_body := take k rest, rq_bodyParsed := k\<rparr>))"
      if "0 < n" for n
      using length_octets [of "?rq\<lparr>rq_contentLength := n\<rparr>" lim rest] plain that framed(3,4) by (simp add: isChunked_def)
    show ?thesis
    proof (cases "server_lookup (rh_headerPairs h) cl_key")
      case (Some cl)
      show ?thesis
      proof (cases "parseSizeTStrict cl")
        case None
        then show ?thesis
          using \<open>server_lookup (rh_headerPairs h) te_key = None\<close> Some look framed(1) [of lim rest] framed(3) feed
          by (auto simp: te_header cl_header framed(2) choose_body_def delivers_def)
      next
        case (Some n)
        have "parseSizeTStrict [] = None"
          by (simp add: parseSizeTStrict_def trimAscii_def)
        then have "cl \<noteq> []" using Some by auto
        then show ?thesis
          using \<open>server_lookup (rh_headerPairs h) te_key = None\<close> \<open>server_lookup (rh_headerPairs h) cl_key = Some cl\<close> Some look framed(1) [of lim rest]
            framed(3) feed len [of n]
          by (auto simp: te_header cl_header framed(2) choose_body_def delivers_def Let_def min_def split: if_splits)
      qed
    qed (use None look framed(1) [of lim rest] framed(3) feed in \<open>auto simp: te_header cl_header framed(2) choose_body_def delivers_def\<close>)
  next
    case (Some te)
    show ?thesis
    proof (cases "server_lookup (rh_headerPairs h) cl_key = None \<and> isSingleHeaderToken te (str ''chunked'')")
      case True
      have "choose_body lim ?rq = (Inr ChunkedBody, ?rq)"
        using True Some look by (simp add: choose_body_def)
      moreover from choose_body_cases(1) [OF _ this refl] have ch: "isChunked (rq_header ?rq)"
        using framed(2) by simp
      obtain v m rq' where body: "octets_run (request_octet lim) rest ?rq = (v, m, rq')" by (cases "octets_run (request_octet lim) rest ?rq")
      ultimately have "request_run lim (head @ rest) rq = (v, length head + m, rq')"
        using framed(1) [of lim rest] by simp
      note fed = feed [OF this]
      have del: "case chunk_parse [rest] lim (rq_chunkParser rq, []) of
          (Inr (is_last, n), p, body) \<Rightarrow> delivers (v, m, rq') (if is_last then Finished else More) n body
        | (Inl e, _) \<Rightarrow> fst (v, m, rq') = Failed e"
        using chunked_delivery [where rq = ?rq and rest = rest and lim = lim] ch framed(3,5) unfolding body by simp
      obtain r p b where "chunk_parse [rest] lim (rq_chunkParser rq, []) = (r, p, b)"
        by (metis prod_cases3)
      then have "case chunk_parse [rest] lim (rq_chunkParser rq, []) of
          (Inr (is_last, n), p, body) \<Rightarrow> delivers (feed lim calls rq) (if is_last then Finished else More) (length head + n) body
        | (Inl e, _) \<Rightarrow> fst (feed lim calls rq) = Failed e"
        using del fed by (cases r) (auto simp: delivers_def split: if_splits)
      then show ?thesis
        using True Some by (simp add: te_header cl_header framed(2))
    next
      case False
      then show ?thesis
        using Some look framed(1) [of lim rest] feed by (auto simp: te_header cl_header framed(2) choose_body_def split: option.splits)
    qed
  qed
qed

theorem http_request_framing_witness:
  "delivers (feed 10 [[str ''POST / HTTP/1.1'' @ [CR], [LF] @ str ''Content-''], [str ''Length: 3'' @ [CR, LF, CR, LF, 0x61, 0x62], [0x63, 0x64]]] new_request)
    Finished 41 (str ''abc'')"
proof -
  let ?head = "str ''POST / HTTP/1.1'' @ [CR, LF] @ str ''Content-Length: 3'' @ [CR, LF, CR, LF]"
    and ?calls = "[[str ''POST / HTTP/1.1'' @ [CR], [LF] @ str ''Content-''], [str ''Length: 3'' @ [CR, LF, CR, LF, 0x61, 0x62], [0x63, 0x64 :: u8]]]"
  define h where "h = snd (header_fromIOVec [?head] new_request_header)"
  have head: "fst (header_fromIOVec [?head] new_request_header) = (kNoError, 38)"
    by code_simp
  have pairs: "getValuePtr (str ''Transfer-Encoding'') (rh_headerPairs h) = None" "getValuePtr (str ''Content-Length'') (rh_headerPairs h) = Some (str ''3'')"
    "parseSizeTStrict (str ''3'') = Some 3"
    unfolding h_def by code_simp+
  have cut: "concat (concat ?calls) = ?head @ str ''abcd''" and len: "length ?head = 38" "take 3 (str ''abcd'') = str ''abc''" "length (str ''abcd'') = 4"
    by code_simp+
  have rq: "new_request = new_request\<lparr>rq_header := setParseLimits 0 0 0 new_request_header\<rparr>" "rq_header new_request = new_request_header" "\<not> rq_headerParsed new_request"
    by (simp_all add: new_request_def setParseLimits_def new_request_header_def)
  have op: "request_open new_request"
    using new_request_open [of 0 0 0] rq(1) by simp
  have full: "header_fromIOVec [?head] (rq_header new_request) = ((kNoError, int (length ?head)), h)"
    using head rq(2) len(1) unfolding h_def by (simp add: prod_eq_iff)
  show ?thesis
    using http_request_framing [OF op rq(3) full cut, of 10] unfolding pairs len option.case prod.case by simp
qed

end
