(* ===== verification/Http1_Text.thy ===== *)
theory Http1_Text
  imports Http1_Request_Run "HOL-Library.Multiset"
begin

text \<open>
  The text of a request: the serialisers \<open>HttpRequestHeader::toString\<close> and \<open>HttpRequest::toString\<close>, what the header parser makes of a header
  line by line, and the way from a client's request over the wire to the same request at the server.
\<close>

section \<open>The serialisers\<close>

fun join_args :: "string_map \<Rightarrow> bytes" where
  "join_args [] = []"
| "join_args [(k, v)] = k @ [0x3D] @ v"
| "join_args ((k, v) # args) = k @ [0x3D] @ v @ [0x26] @ join_args args"

definition full_uri :: "HttpRequestHeader \<Rightarrow> bytes" where
  "full_uri h = rh_uri h @ (if rh_argList h \<noteq> [] then [0x3F] @ join_args (rh_argList h) else [])"

definition request_header_toString :: "HttpRequestHeader \<Rightarrow> bytes" where
  "request_header_toString h =
    (let uri_str = convertToUri (full_uri h);
         result = httpMethodToString (rh_method h) @ [SP] @ uri_str @ [SP] @ httpVersionToString (rh_version h) @ [CR, LF]
     in appendTo result (rh_headerPairs h) @ [CR, LF])"

definition request_toString :: "HttpRequest \<Rightarrow> bytes \<times> HttpRequest" where
  "request_toString rq =
    (let rq = (if \<not> isChunked (rq_header rq)
               then rq\<lparr>rq_header := (rq_header rq)\<lparr>rh_headerPairs := snd (addHeaderPairIfNotExist (str ''Content-Length'')
                 (to_digits 10 (length (rq_body rq))) (rh_headerPairs (rq_header rq)))\<rparr>\<rparr>
               else rq);
         header_str = request_header_toString (rq_header rq)
     in if isChunked (rq_header rq) then (header_str, rq) else (header_str @ rq_body rq, rq))"

section \<open>The header parser on lines\<close>

lemma run_step: "bulk_step c h = (More, h') \<Longrightarrow> octets_run bulk_step (c # cs) h = (case octets_run bulk_step cs h' of (v, n, t) \<Rightarrow> (v, n + 1, t))"
  by simp

text \<open>Reading \<open>xs\<close> leads from one header to another and asks for more.\<close>

definition reads :: "bytes \<Rightarrow> HttpRequestHeader \<Rightarrow> HttpRequestHeader \<Rightarrow> bool" where
  "reads xs h h' = (octets_run bulk_step xs h = (More, length xs, h'))"

lemma reads_nil [simp]: "reads [] h h' \<longleftrightarrow> h' = h"
  by (auto simp: reads_def)

lemma reads_append: "reads xs h h' \<Longrightarrow> reads ys h' h'' \<Longrightarrow> reads (xs @ ys) h h''"
  by (simp add: reads_def octets_run_append)

lemma reads_one: "bulk_step c h = (More, h') \<Longrightarrow> reads [c] h h'"
  by (simp add: reads_def)

lemma reads_cons: "bulk_step c h = (More, t) \<Longrightarrow> reads cs t h' \<Longrightarrow> reads (c # cs) h h'"
  by (simp add: reads_def)

text \<open>The request line.\<close>

definition token_ok :: "bytes \<Rightarrow> bool" where
  "token_ok w = (w \<noteq> [] \<and> list_all (\<lambda>c. c \<noteq> SP \<and> c \<noteq> CR \<and> c \<noteq> LF) w)"

lemma reads_method:
  assumes "rh_parseState h = Method" "rh_parseMethodStr h = []" "token_ok m"
  shows "reads (m @ [SP]) h (h\<lparr>rh_parseMethodStr := m, rh_method := stringToHttpMethod m, rh_parseState := MethodSP\<rparr>)"
proof (rule reads_append)
  show "reads m h (h\<lparr>rh_parseMethodStr := m\<rparr>)"
    using absorb_method [OF assms(1), of m] assms(2,3) by (simp add: reads_def token_ok_def)
  show "reads [SP] (h\<lparr>rh_parseMethodStr := m\<rparr>) (h\<lparr>rh_parseMethodStr := m, rh_method := stringToHttpMethod m, rh_parseState := MethodSP\<rparr>)"
    using assms(1) by (intro reads_one) (simp add: bulk_step_def step_defs)
qed

lemma reads_uri:
  assumes "rh_parseState h = MethodSP" "rh_parseUriStr h = []" "token_ok u" "rh_maxUriSize h = 0 \<or> length u \<le> rh_maxUriSize h"
    and "finish_uri (h\<lparr>rh_parseUriStr := u, rh_parseState := Uri\<rparr>) = (kNoError, h')"
  shows "reads (u @ [SP]) h h'"
proof -
  obtain c cs where u: "u = c # cs" using assms(3) by (cases u) (auto simp: token_ok_def)
  let ?h = "h\<lparr>rh_parseUriStr := [c], rh_parseState := Uri\<rparr>" and ?t = "h\<lparr>rh_parseUriStr := u, rh_parseState := Uri\<rparr>"
  have first: "bulk_step c h = (More, ?h)"
    using assms u by (auto simp: bulk_step_def step_defs token_ok_def Let_def)
  have rest: "reads cs ?h ?t"
    using absorb_uri [of ?h cs] assms(3,4) u by (cases "cs = []") (auto simp: reads_def fits_uri_def token_ok_def)
  have "bulk_step SP ?t = (More, h')"
    using assms(5) by (simp add: bulk_step_def char_step_def parseChar_def)
  then show ?thesis
    using reads_append [OF reads_cons [OF first rest] reads_one] u by simp
qed

lemma reads_version:
  assumes "rh_parseState h = UriSP" "rh_parseVersionStr h = []" "token_ok v" "stringToHttpVersion v \<in> {HttpVersion_1_0, HttpVersion_1_1}"
  shows "reads (v @ [CR, LF]) h (h\<lparr>rh_parseVersionStr := v, rh_version := stringToHttpVersion v, rh_parseState := VersionLF\<rparr>)"
proof -
  obtain c cs where v: "v = c # cs" using assms(3) by (cases v) (auto simp: token_ok_def)
  let ?h = "h\<lparr>rh_parseVersionStr := [c], rh_parseState := Version\<rparr>" and ?t = "h\<lparr>rh_parseVersionStr := v, rh_parseState := Version\<rparr>"
  have first: "bulk_step c h = (More, ?h)"
    using assms v by (auto simp: bulk_step_def step_defs token_ok_def)
  have rest: "reads cs ?h ?t"
    using absorb_version [of ?h cs] assms(3) v by (auto simp: reads_def token_ok_def list_all_iff)
  have "reads [CR, LF] ?t (h\<lparr>rh_parseVersionStr := v, rh_version := stringToHttpVersion v, rh_parseState := VersionLF\<rparr>)"
    using assms(4) by (intro reads_cons [OF _ reads_one]) (auto simp: bulk_step_def step_defs finish_version_def Let_def)
  then show ?thesis
    using reads_append [OF reads_cons [OF first rest]] v by simp
qed

text \<open>A header line.\<close>

definition line_ok :: "bytes \<times> bytes \<Rightarrow> bool" where
  "line_ok e = (case e of (k, v) \<Rightarrow> k \<noteq> [] \<and> list_all (\<lambda>c. c \<noteq> 0x3A \<and> c \<noteq> CR \<and> c \<noteq> LF) k \<and> length k \<le> 256
    \<and> CR \<notin> set v \<and> (v = [] \<or> hd v \<noteq> SP))"

definition at_header :: "HttpRequestHeader \<Rightarrow> bool" where
  "at_header h = (rh_parseState h \<in> {VersionLF, HeaderLF} \<and> rh_parseHeaderKey h = [] \<and> rh_parseHeaderValue h = [] \<and> header_ok h)"

definition line_read :: "bytes \<Rightarrow> bytes \<Rightarrow> HttpRequestHeader \<Rightarrow> HttpRequestHeader" where
  "line_read k v h = h\<lparr>rh_parseHeaderKey := toLowerAscii k, rh_parseHeaderValue := v, rh_currentCommonHeaderIdx := matchCommonHeader (toLowerAscii k),
     rh_parseState := (if v = [] then HeaderSpace else HeaderValue)\<rparr>"

lemma reads_key:
  assumes "at_header h" "line_ok (k, v)"
  shows "reads (k @ [0x3A, SP]) h (line_read k [] h)"
proof -
  obtain c cs where k: "k = c # cs" using assms(2) by (cases k) (auto simp: line_ok_def)
  have mode: "rh_mode h = ServerSide" and key: "rh_parseHeaderKey h = []" and st: "rh_parseState h = VersionLF \<or> rh_parseState h = HeaderLF"
    using assms(1) by (auto simp: at_header_def header_ok_def)
  let ?h = "h\<lparr>rh_parseHeaderKey := [toLowerAsciiChar c], rh_parseState := HeaderKey\<rparr>"
    and ?t = "h\<lparr>rh_parseHeaderKey := toLowerAscii k, rh_parseState := HeaderKey\<rparr>"
  have first: "bulk_step c h = (More, ?h)"
    using st mode key assms(2) k by (auto simp: bulk_step_def step_defs line_ok_def add_key_def normalizeHeaderKeyChar_def)
  have rest: "reads cs ?h ?t"
    using absorb_key [of ?h cs] assms(2) k mode by (auto simp: reads_def line_ok_def add_key_chunk_def toLowerAscii_def)
  have len: "length (toLowerAscii k) \<le> 256"
    using assms(2) by (simp add: line_ok_def toLowerAscii_def)
  have "rh_parseHeaderValue h = []"
    using assms(1) by (simp add: at_header_def)
  then have "reads [0x3A, SP] ?t (line_read k [] h)"
    using mode len by (intro reads_cons [OF _ reads_one]) (auto simp: bulk_step_def step_defs finish_key_def line_read_def)
  then show ?thesis
    using reads_append [OF reads_cons [OF first rest]] k by simp
qed

lemma reads_value:
  assumes "line_ok (k, v)"
  shows "reads v (line_read k [] h) (line_read k v h)"
proof (cases v)
  case (Cons c cs)
  let ?h = "line_read k [c] h"
  have "bulk_step c (line_read k [] h) = (More, ?h)"
    using assms Cons by (auto simp: bulk_step_def step_defs line_ok_def line_read_def add_value_def)
  moreover have "list_all (\<lambda>c. c \<noteq> CR) cs"
    using assms Cons by (auto simp: line_ok_def list_all_iff)
  then have "reads cs ?h (?h\<lparr>rh_parseHeaderValue := rh_parseHeaderValue ?h @ cs\<rparr>)"
    unfolding reads_def by (rule absorb_value [rotated]) (simp add: line_read_def)
  moreover have "?h\<lparr>rh_parseHeaderValue := rh_parseHeaderValue ?h @ cs\<rparr> = line_read k v h"
    using Cons by (cases h) (simp add: line_read_def)
  ultimately show ?thesis
    using Cons reads_cons by simp
qed simp

lemma step_commit: "rh_parseState h \<in> {HeaderColon, HeaderSpace, HeaderValue} \<Longrightarrow> bulk_step CR h = code_answer (commit_line h)"
  by (auto simp: bulk_step_def step_defs)

lemma reads_line:
  assumes "at_header h" "line_ok (k, v)" "commit_line (line_read k v h) = (kNoError, t)"
  shows "reads (header_line k v) h (t\<lparr>rh_parseState := HeaderLF\<rparr>)"
proof -
  have "rh_parseState t = HeaderCR"
    using assms(3) by (auto simp: commit_line_def split: prod.splits if_splits)
  then have "bulk_step LF t = (More, t\<lparr>rh_parseState := HeaderLF\<rparr>)"
    by (simp add: bulk_step_def step_defs)
  moreover have "bulk_step CR (line_read k v h) = (More, t)"
    using step_commit [of "line_read k v h"] assms(3) by (simp add: code_answer_def line_read_def)
  ultimately have "reads [CR, LF] (line_read k v h) (t\<lparr>rh_parseState := HeaderLF\<rparr>)"
    by (intro reads_cons [OF _ reads_one])
  moreover have "header_line k v = (k @ [0x3A, SP]) @ v @ [CR, LF]"
    by (simp add: header_line_def str_def)
  ultimately show ?thesis
    using reads_append [OF reads_key [OF assms(1,2)] reads_append [OF reads_value [OF assms(2)]]] by simp
qed

text \<open>What the limits of the parser ask of a list of lines.\<close>

definition limits_ok :: "HttpRequestHeader \<Rightarrow> (bytes \<times> bytes) list \<Rightarrow> bool" where
  "limits_ok h ls = ((rh_maxHeaderCount h = 0 \<or> rh_headerCount h + length ls \<le> rh_maxHeaderCount h)
    \<and> list_all (\<lambda>(k, v). rh_maxHeaderLineSize h = 0 \<or> length k + 2 + length v \<le> rh_maxHeaderLineSize h) ls
    \<and> list_all (\<lambda>(k, v). toLowerAscii k = cl_key \<longrightarrow> \<not> rh_hasContentLength h \<and> parseSizeTStrict v \<noteq> None) ls)"

definition same_start :: "HttpRequestHeader \<Rightarrow> HttpRequestHeader \<Rightarrow> bool" where
  "same_start h h' = (rh_uri h' = rh_uri h \<and> rh_argList h' = rh_argList h \<and> rh_method h' = rh_method h \<and> rh_version h' = rh_version h
    \<and> rh_maxHeaderCount h' = rh_maxHeaderCount h \<and> rh_maxHeaderLineSize h' = rh_maxHeaderLineSize h)"

lemma reads_line_commit:
  assumes "at_header h" "line_ok (k, v)" "limits_ok h ((k, v) # ls)" "server_lookup (rh_headerPairs h) (toLowerAscii k) = None"
  shows "\<exists>t. reads (header_line k v) h t \<and> at_header t \<and> same_start h t \<and> rh_headerCount t = rh_headerCount h + 1
    \<and> (toLowerAscii k \<noteq> cl_key \<longrightarrow> rh_hasContentLength t = rh_hasContentLength h)
    \<and> server_lookup (rh_headerPairs t) = (server_lookup (rh_headerPairs h))(toLowerAscii k \<mapsto> v)"
proof -
  let ?h = "line_read k v h"
  have ok: "header_ok ?h" "rh_parseState ?h \<in> {HeaderColon, HeaderSpace, HeaderValue}"
    using assms(1) by (auto simp: at_header_def header_ok_def line_read_def)
  have len: "length (toLowerAscii k) = length k" and cl: "cl_key = str ''content-length''"
    by (simp_all add: toLowerAscii_def cl_key_def)
  let ?c = "?h\<lparr>rh_headerCount := rh_headerCount h + 1\<rparr>"
  have fields: "rh_maxHeaderLineSize ?h = rh_maxHeaderLineSize h" "rh_maxHeaderCount ?c = rh_maxHeaderCount h" "rh_headerCount ?h = rh_headerCount h"
    "rh_parseHeaderKey ?h = toLowerAscii k" "rh_parseHeaderValue ?h = v" "rh_parseHeaderKey ?c = toLowerAscii k" "rh_parseHeaderValue ?c = v"
    "rh_headerCount ?c = rh_headerCount h + 1" "rh_hasContentLength ?c = rh_hasContentLength h"
    by (simp_all add: line_read_def)
  have lim: "\<not> (rh_maxHeaderLineSize h \<noteq> 0 \<and> rh_maxHeaderLineSize h < length k + 2 + length v)"
    "\<not> (rh_maxHeaderCount h \<noteq> 0 \<and> rh_maxHeaderCount h < rh_headerCount h + 1)"
    using assms(3) by (auto simp: limits_ok_def)
  obtain b n where c: "commitParsedHeaderPair ?h = (kNoError, store_header_pair (?c\<lparr>rh_hasContentLength := b, rh_contentLengthValue := n\<rparr>))"
    "toLowerAscii k \<noteq> cl_key \<longrightarrow> b = rh_hasContentLength h"
  proof (cases "toLowerAscii k = cl_key")
    case True
    then obtain n where "parseSizeTStrict v = Some n" "\<not> rh_hasContentLength h"
      using assms(3) by (auto simp: limits_ok_def)
    then show ?thesis
      using that [where b = True and n = n] True lim unfolding commitParsedHeaderPair_def fields len Let_def cl by simp
  next
    case False
    moreover have "?c = ?c\<lparr>rh_hasContentLength := rh_hasContentLength ?c, rh_contentLengthValue := rh_contentLengthValue ?c\<rparr>"
      by simp
    ultimately show ?thesis
      using that [where b = "rh_hasContentLength ?c" and n = "rh_contentLengthValue ?c"] lim unfolding commitParsedHeaderPair_def fields len Let_def cl
      by (simp add: line_read_def)
  qed
  define t where "t = store_header_pair (?c\<lparr>rh_hasContentLength := b, rh_contentLengthValue := n\<rparr>)"
  have t: "commitParsedHeaderPair ?h = (kNoError, t)" "same_start h t" "rh_headerCount t = rh_headerCount h + 1" "rh_parseHeaderValue t = []"
    "toLowerAscii k \<noteq> cl_key \<longrightarrow> rh_hasContentLength t = rh_hasContentLength h"
    using c by (simp_all add: t_def same_start_def store_header_pair_def line_read_def)
  then have line: "commit_line ?h = (kNoError, t\<lparr>rh_parseState := HeaderCR\<rparr>)"
    by (simp add: commit_line_def)
  have "server_lookup (rh_headerPairs t) = (server_lookup (rh_headerPairs h))(toLowerAscii k \<mapsto> v)"
    using commit_ok [OF ok t(1)] assms(4) by (simp add: line_read_def merged_def)
  moreover have "at_header (t\<lparr>rh_parseState := HeaderLF\<rparr>)"
    using commit_ok [OF ok t(1)] t(4) by (simp add: at_header_def header_ok_def)
  ultimately show ?thesis
    using reads_line [OF assms(1,2) line] t(2,3,5) by (intro exI [of _ "t\<lparr>rh_parseState := HeaderLF\<rparr>"]) (simp add: same_start_def)
qed

definition lowered :: "string_map \<Rightarrow> string_map" where
  "lowered ls = map (\<lambda>(k, v). (toLowerAscii k, v)) ls"

definition lines_text :: "string_map \<Rightarrow> bytes" where
  "lines_text ls = concat (map (\<lambda>(k, v). header_line k v) ls)"

lemma limits_ok_tail:
  assumes "limits_ok h ((k, v) # ls)" "same_start h t" "rh_headerCount t = rh_headerCount h + 1"
    and "toLowerAscii k \<noteq> cl_key \<longrightarrow> rh_hasContentLength t = rh_hasContentLength h" "distinct (map fst (lowered ((k, v) # ls)))"
  shows "limits_ok t ls"
proof -
  have other: "toLowerAscii a \<noteq> toLowerAscii k" if "(a, b) \<in> set ls" for a b
    using assms(5) that by (force simp: lowered_def)
  have "list_all (\<lambda>(k', v). toLowerAscii k' = cl_key \<longrightarrow> \<not> rh_hasContentLength t \<and> parseSizeTStrict v \<noteq> None) ls"
    using assms(1,4) other by (fastforce simp: limits_ok_def list_all_iff)
  then show ?thesis
    using assms(1-3) by (auto simp: limits_ok_def same_start_def)
qed

lemma reads_lines:
  assumes "at_header h" "list_all line_ok ls" "limits_ok h ls" "distinct (map fst (lowered ls))"
    and "fst ` set (lowered ls) \<inter> dom (server_lookup (rh_headerPairs h)) = {}"
  shows "\<exists>t. reads (lines_text ls) h t \<and> at_header t \<and> same_start h t
    \<and> server_lookup (rh_headerPairs t) = server_lookup (rh_headerPairs h) ++ map_of (lowered ls)"
  using assms
proof (induction ls arbitrary: h)
  case Nil
  then show ?case by (auto simp: lines_text_def lowered_def same_start_def)
next
  case (Cons e ls)
  obtain k v where e: "e = (k, v)" by (cases e)
  have "server_lookup (rh_headerPairs h) (toLowerAscii k) = None"
    using Cons.prems(5) by (auto simp: e lowered_def)
  then obtain t where t: "reads (header_line k v) h t" "at_header t" "same_start h t" "rh_headerCount t = rh_headerCount h + 1"
    "toLowerAscii k \<noteq> cl_key \<longrightarrow> rh_hasContentLength t = rh_hasContentLength h"
    "server_lookup (rh_headerPairs t) = (server_lookup (rh_headerPairs h))(toLowerAscii k \<mapsto> v)"
    using reads_line_commit [OF Cons.prems(1), of k v ls] Cons.prems(2,3) e by auto
  have fresh: "map_of (lowered ls) (toLowerAscii k) = None"
    using Cons.prems(4) by (simp add: e lowered_def map_of_eq_None_iff image_image)
  have "limits_ok t ls"
    using limits_ok_tail [OF _ t(3,4,5)] Cons.prems(3,4) e by simp
  moreover have "fst ` set (lowered ls) \<inter> dom (server_lookup (rh_headerPairs t)) = {}"
    using Cons.prems(5) t(6) fresh unfolding map_of_eq_None_iff by (auto simp: e lowered_def)
  ultimately obtain u where u: "reads (lines_text ls) t u" "at_header u" "same_start t u"
    "server_lookup (rh_headerPairs u) = server_lookup (rh_headerPairs t) ++ map_of (lowered ls)"
    using Cons.IH [OF t(2)] Cons.prems(2,4) by (auto simp: e lowered_def)
  have "lines_text (e # ls) = header_line k v @ lines_text ls"
    by (simp add: e lines_text_def)
  moreover have "server_lookup (rh_headerPairs u) = server_lookup (rh_headerPairs h) ++ map_of (lowered (e # ls))"
    using u(4) t(6) fresh by (auto simp: e lowered_def fun_eq_iff map_add_def split: option.split)
  ultimately show ?case
    using reads_append [OF t(1) u(1)] u(2,3) t(3) by (auto simp: same_start_def)
qed

lemma header_end:
  assumes "at_header h"
  shows "octets_run bulk_step [CR, LF] h = (Finished, 2, h\<lparr>rh_parseState := Done\<rparr>)"
proof -
  have "bulk_step CR h = (More, h\<lparr>rh_parseState := HeaderEndCR\<rparr>)"
    using assms by (auto simp: at_header_def bulk_step_def step_defs)
  then show ?thesis
    by (simp add: bulk_step_def step_defs)
qed

lemma reads_end:
  "reads xs h t \<Longrightarrow> at_header t \<Longrightarrow> octets_run bulk_step (xs @ [CR, LF]) h = (Finished, length (xs @ [CR, LF]), t\<lparr>rh_parseState := Done\<rparr>)"
  unfolding octets_run_append reads_def by (simp only: header_end prod.case verdict.case) simp

section \<open>The start of the text\<close>

lemma method_token: "token_ok (httpMethodToString m)"
  by (cases m) (simp_all add: httpMethodToString_def g_HttpMethods_def token_ok_def str_def)

lemma version_token: "v \<in> {HttpVersion_1_0, HttpVersion_1_1} \<Longrightarrow> token_ok (httpVersionToString v)"
  by (auto simp: httpVersionToString_def g_HttpVersion_def token_ok_def str_def)

lemma uri_char_token: "token_ok (uri_char c)"
proof -
  have hex: "\<forall>d \<in> set [0..<16]. hex_upper d \<noteq> SP \<and> hex_upper d \<noteq> CR \<and> hex_upper d \<noteq> LF"
    by code_simp
  have "unat c div 16 < 16" "unat c mod 16 < 16"
    by (simp_all add: less_mult_imp_div_less)
  then show ?thesis
    using hex by (auto simp: uri_char_def token_ok_def str_def)
qed

lemma uri_token: "u \<noteq> [] \<Longrightarrow> token_ok (convertToUri u)"
proof -
  have all: "list_all (\<lambda>c. c \<noteq> SP \<and> c \<noteq> CR \<and> c \<noteq> LF) (convertToUri u)"
    using uri_char_token by (auto simp: convertToUri_def token_ok_def list_all_iff)
  assume "u \<noteq> []"
  then have "convertToUri u \<noteq> []"
    using uri_char_token by (cases u) (auto simp: convertToUri_def token_ok_def)
  then show ?thesis
    using all by (simp add: token_ok_def)
qed

text \<open>The arguments of a query as the parser reads them back.\<close>

definition args_ok :: "string_map \<Rightarrow> bool" where
  "args_ok args = (distinct (map fst args) \<and> list_all (\<lambda>(k, v). 0x3D \<notin> set k \<and> 0x26 \<notin> set v) args \<and> (args = [] \<or> snd (last args) \<noteq> []))"

lemma join_args_snoc: "join_args (args @ [(k, v)]) = query_of args @ k @ 0x3D # v"
proof (induction args rule: join_args.induct)
  case (3 k' v' e args)
  then show ?case by (cases e) (simp add: query_of_def)
qed (simp_all add: query_of_def)

lemma map_of_fold_assign:
  "distinct (map fst args) \<Longrightarrow> map_of (fold (\<lambda>(k, v). map_assign k v) args m) = map_of m ++ map_of args"
proof (induction args arbitrary: m)
  case (Cons e args)
  obtain k v where e: "e = (k, v)" by (cases e)
  have "map_of args k = None"
    using Cons.prems by (auto simp: e map_of_eq_None_iff)
  then show ?case
    using Cons by (auto simp: e fun_eq_iff map_add_def split: option.split)
qed simp

lemma parse_args_back:
  assumes "args_ok args" "args \<noteq> []" "0x3F \<notin> set path"
  shows "fst (parseArgs (path @ [0x3F] @ join_args args) (u, [])) = path
    \<and> map_of (snd (parseArgs (path @ [0x3F] @ join_args args) (u, []))) = map_of args"
proof -
  obtain as k v where args: "args = as @ [(k, v)]"
    using assms(2) by (metis append_butlast_last_id surj_pair)
  have tw: "takeWhile (\<lambda>c. c \<noteq> 0x3F) (path @ [0x3F] @ join_args args) = path"
    using assms(3) by (induction path) auto
  have "args_loop (join_args args) False [] [] [] = fold (\<lambda>(k, v). map_assign k v) args []"
    using args_query [of as k v] assms(1) unfolding args join_args_snoc by (simp add: args_ok_def)
  then show ?thesis
    using map_of_fold_assign [of args "[]"] assms(1) tw by (simp add: parseArgs_def args_ok_def)
qed

section \<open>From the client to the server\<close>

lemma mset_map_assign: "map_of m k = None \<Longrightarrow> mset (map_assign k v m) = add_mset (k, v) (mset m)"
  by (induction m) (auto split: if_splits)

text \<open>A client's request that the wire format can carry.\<close>

definition sendable_request :: "HttpRequest \<Rightarrow> bool" where
  "sendable_request rq =
    (let h = rq_header rq; hs = rh_headerPairs h in
     hp_ok hs \<and> hp_mode hs = ClientSide \<and> rh_version h \<in> {HttpVersion_1_0, HttpVersion_1_1}
     \<and> rh_uri h \<noteq> [] \<and> 0x3F \<notin> set (rh_uri h) \<and> 0x25 \<notin> set (full_uri h) \<and> args_ok (rh_argList h)
     \<and> list_all line_ok (hp_headerPairs hs) \<and> distinct (map fst (lowered (hp_headerPairs hs)))
     \<and> te_key \<notin> fst ` set (lowered (hp_headerPairs hs)) \<and> cl_key \<notin> fst ` set (lowered (hp_headerPairs hs))
     \<and> length (rq_body rq) \<le> SIZE_MAX)"

lemma reads_request_line:
  assumes "sendable_request rq" "h0 = setParseLimits a b c new_request_header" "c = 0 \<or> length (convertToUri (full_uri (rq_header rq))) \<le> c"
  shows "\<exists>h. reads (httpMethodToString (rh_method (rq_header rq)) @ [SP] @ convertToUri (full_uri (rq_header rq)) @ [SP]
        @ httpVersionToString (rh_version (rq_header rq)) @ [CR, LF]) h0 h
    \<and> at_header h \<and> rh_maxHeaderCount h = a \<and> rh_maxHeaderLineSize h = b \<and> rh_headerCount h = 0 \<and> \<not> rh_hasContentLength h
    \<and> server_lookup (rh_headerPairs h) = Map.empty \<and> rh_method h = rh_method (rq_header rq) \<and> rh_version h = rh_version (rq_header rq)
    \<and> rh_uri h = rh_uri (rq_header rq) \<and> map_of (rh_argList h) = map_of (rh_argList (rq_header rq))"
proof -
  let ?c = "rq_header rq" and ?u = "full_uri (rq_header rq)"
  have s: "rh_version ?c \<in> {HttpVersion_1_0, HttpVersion_1_1}" "rh_uri ?c \<noteq> []" "0x3F \<notin> set (rh_uri ?c)" "0x25 \<notin> set ?u" "args_ok (rh_argList ?c)"
    using assms(1) by (simp_all add: sendable_request_def Let_def)
  have u: "?u \<noteq> []" using s(2) by (simp add: full_uri_def)
  let ?h1 = "h0\<lparr>rh_parseMethodStr := httpMethodToString (rh_method ?c), rh_method := rh_method ?c, rh_parseState := MethodSP\<rparr>"
  have 1: "reads (httpMethodToString (rh_method ?c) @ [SP]) h0 ?h1"
    using reads_method [of h0 "httpMethodToString (rh_method ?c)"] method_token [of "rh_method ?c"]
    by (simp add: assms(2) setParseLimits_def new_request_header_def method_roundtrip)
  define r where "r = parseArgs ?u ([], [])"
  let ?h2 = "?h1\<lparr>rh_parseUriStr := convertToUri ?u, rh_parseState := UriSP, rh_uriDecodeError := False,
      rh_uri := (if fst r = [] then ?u else fst r), rh_argList := snd r\<rparr>"
  have "finish_uri (?h1\<lparr>rh_parseUriStr := convertToUri ?u, rh_parseState := Uri\<rparr>) = (kNoError, ?h2)"
    using uri_roundtrip [OF s(4)] by (simp add: finish_uri_def r_def assms(2) setParseLimits_def new_request_header_def case_prod_beta)
  then have 2: "reads (convertToUri ?u @ [SP]) ?h1 ?h2"
    using reads_uri [of ?h1 "convertToUri ?u"] uri_token [OF u] assms(3) by (simp add: assms(2) setParseLimits_def new_request_header_def)
  let ?h3 = "?h2\<lparr>rh_parseVersionStr := httpVersionToString (rh_version ?c), rh_version := rh_version ?c, rh_parseState := VersionLF\<rparr>"
  have 3: "reads (httpVersionToString (rh_version ?c) @ [CR, LF]) ?h2 ?h3"
    using reads_version [of ?h2 "httpVersionToString (rh_version ?c)"] version_token [OF s(1)] s(1)
    by (simp add: assms(2) setParseLimits_def new_request_header_def version_roundtrip)
  have uri: "(if fst r = [] then ?u else fst r) = rh_uri ?c" "map_of (snd r) = map_of (rh_argList ?c)"
    using parse_args_back [OF s(5) _ s(3), of "[]"] s(2,3) by (auto simp: r_def full_uri_def parseArgs_def)
  have hp: "hp_mode (new_headers ServerSide) = ServerSide" "server_lookup (new_headers ServerSide) = Map.empty"
    using common_index_less by (auto simp: new_headers_def server_lookup_def hasCommonHeader_def fun_eq_iff Let_def)
  show ?thesis
    using reads_append [OF 1 reads_append [OF 2 3]] uri hp
    by (intro exI [of _ ?h3]) (simp add: assms(2) setParseLimits_def new_request_header_def at_header_def header_ok_def)
qed

text \<open>What the client puts on the wire: its headers and one for the length of the body.\<close>

definition sent_headers :: "HttpRequest \<Rightarrow> string_map" where
  "sent_headers rq = map_assign (str ''Content-Length'') (to_digits 10 (length (rq_body rq))) (hp_headerPairs (rh_headerPairs (rq_header rq)))"

lemma lower_in: "(k, v) \<in> set m \<Longrightarrow> toLowerAscii k \<in> fst ` set (lowered m)"
  by (force simp: lowered_def)

lemma canonical_keys: "toCanonicalHeaderKey (str ''Content-Length'') = str ''Content-Length''" "toLowerAscii (str ''Content-Length'') = cl_key"
  "toLowerAscii (str ''Transfer-Encoding'') = te_key" "toCanonicalHeaderKey (str ''transfer-encoding'') = str ''Transfer-Encoding''"
  unfolding te_key_def cl_key_def by code_simp+

lemma client_not_chunked:
  assumes "hp_mode (rh_headerPairs h) = ClientSide" "te_key \<notin> fst ` set (lowered (hp_headerPairs (rh_headerPairs h)))"
  shows "\<not> isChunked h"
proof -
  have none: "map_of (hp_headerPairs (rh_headerPairs h)) k = None" if "toLowerAscii k = te_key" for k
    using assms(2) lower_in [of k _ "hp_headerPairs (rh_headerPairs h)"] that by (metis map_of_SomeD not_None_eq)
  show ?thesis
    using assms(1) none [of "str ''transfer-encoding''"] none [of "str ''Transfer-Encoding''"]
    by (simp add: isChunked_def getValuePtr_def findHeaderPair_def canonical_keys Let_def)
qed

lemma sent_headers_mset:
  assumes "sendable_request rq"
  shows "mset (sent_headers rq) = add_mset (str ''Content-Length'', to_digits 10 (length (rq_body rq))) (mset (hp_headerPairs (rh_headerPairs (rq_header rq))))"
    and "map_of (hp_headerPairs (rh_headerPairs (rq_header rq))) (str ''Content-Length'') = None"
proof -
  let ?m = "hp_headerPairs (rh_headerPairs (rq_header rq))"
  have "cl_key \<notin> fst ` set (lowered ?m)"
    using assms by (simp add: sendable_request_def Let_def)
  then show none: "map_of ?m (str ''Content-Length'') = None"
    using lower_in [of "str ''Content-Length''" _ ?m] canonical_keys(2) by (metis map_of_SomeD not_None_eq)
  show "mset (sent_headers rq) = add_mset (str ''Content-Length'', to_digits 10 (length (rq_body rq))) (mset ?m)"
    unfolding sent_headers_def by (rule mset_map_assign [OF none])
qed

lemma sent_headers_ok:
  assumes "sendable_request rq"
  shows "list_all line_ok (sent_headers rq)" "distinct (map fst (lowered (sent_headers rq)))"
    "map_of (lowered (sent_headers rq)) cl_key = Some (to_digits 10 (length (rq_body rq)))" "map_of (lowered (sent_headers rq)) te_key = None"
proof -
  let ?m = "hp_headerPairs (rh_headerPairs (rq_header rq))" and ?e = "(str ''Content-Length'', to_digits 10 (length (rq_body rq)))"
  note ms = sent_headers_mset(1) [OF assms]
  have s: "list_all line_ok ?m" "distinct (map fst (lowered ?m))" "te_key \<notin> fst ` set (lowered ?m)" "cl_key \<notin> fst ` set (lowered ?m)"
    using assms by (simp_all add: sendable_request_def Let_def)
  have set: "set (sent_headers rq) = insert ?e (set ?m)"
    using arg_cong [OF ms, of set_mset] by simp
  have digits: "\<forall>c \<in> set (to_digits 10 n). digit_value 10 c \<noteq> None" for n
    using to_digits_ok [of 10 n] by (simp add: list_all_iff)
  then have "\<forall>c \<in> set (to_digits 10 n). c \<noteq> CR \<and> c \<noteq> SP" for n
    using digit_not_space by (fastforce simp: isspace_def)
  then have plain: "CR \<notin> set (to_digits 10 n)" "hd (to_digits 10 n) \<noteq> SP" for n
    using hd_in_set [OF to_digits_ne, of 10 n] by blast+
  have "line_ok ?e"
    using plain by (simp add: line_ok_def str_def)
  then show "list_all line_ok (sent_headers rq)"
    using s(1) set by (auto simp: list_all_iff)
  have "mset (map fst (lowered (sent_headers rq))) = mset (map fst (lowered (?e # ?m)))"
    using ms by (simp add: lowered_def)
  from mset_eq_imp_distinct_iff [OF this] show dist: "distinct (map fst (lowered (sent_headers rq)))"
    using s(2,4) canonical_keys(2) by (simp add: lowered_def image_image)
  show "map_of (lowered (sent_headers rq)) cl_key = Some (to_digits 10 (length (rq_body rq)))"
    using set canonical_keys(2) by (intro map_of_is_SomeI dist) (auto simp: lowered_def image_iff)
  show "map_of (lowered (sent_headers rq)) te_key = None"
    using s(3) set canonical_keys(2) by (auto simp: map_of_eq_None_iff lowered_def image_iff)
qed

lemma request_text:
  assumes "sendable_request rq"
  shows "fst (request_toString rq) = (httpMethodToString (rh_method (rq_header rq)) @ [SP] @ convertToUri (full_uri (rq_header rq)) @ [SP]
    @ httpVersionToString (rh_version (rq_header rq)) @ [CR, LF]) @ lines_text (sent_headers rq) @ [CR, LF] @ rq_body rq"
proof -
  let ?hs = "rh_headerPairs (rq_header rq)"
  let ?hs' = "?hs\<lparr>hp_headerPairs := sent_headers rq\<rparr>"
  have s: "hp_ok ?hs" "hp_mode ?hs = ClientSide" "te_key \<notin> fst ` set (lowered (hp_headerPairs ?hs))"
    using assms by (simp_all add: sendable_request_def Let_def)
  have "snd (addHeaderPairIfNotExist (str ''Content-Length'') (to_digits 10 (length (rq_body rq))) ?hs) = ?hs'"
    using s(2) sent_headers_mset(2) [OF assms]
    by (simp add: addHeaderPairIfNotExist_def try_emplace_header_def map_try_emplace_def canonical_keys sent_headers_def)
  moreover have "\<not> isChunked (rq_header rq)"
    using client_not_chunked s by simp
  moreover have "\<not> isChunked ((rq_header rq)\<lparr>rh_headerPairs := ?hs'\<rparr>)"
    using client_not_chunked [of "(rq_header rq)\<lparr>rh_headerPairs := ?hs'\<rparr>"] s(2) sent_headers_ok(4) [OF assms] by (simp add: map_of_eq_None_iff)
  moreover have "all_headers ?hs' = sent_headers rq"
    using s(1,2) by (simp add: all_headers_def hp_ok_def)
  ultimately show ?thesis
    by (simp add: request_toString_def request_header_toString_def appendTo_def lines_text_def full_uri_def Let_def)
qed

lemma head_run:
  assumes "sendable_request rq" "h0 = setParseLimits a b c new_request_header" "c = 0 \<or> length (convertToUri (full_uri (rq_header rq))) \<le> c"
    and "a = 0 \<or> length (sent_headers rq) \<le> a" "b = 0 \<or> list_all (\<lambda>(k, v). length k + 2 + length v \<le> b) (sent_headers rq)"
    and "head = (httpMethodToString (rh_method (rq_header rq)) @ [SP] @ convertToUri (full_uri (rq_header rq)) @ [SP]
      @ httpVersionToString (rh_version (rq_header rq)) @ [CR, LF]) @ lines_text (sent_headers rq) @ [CR, LF]"
  shows "\<exists>h. octets_run bulk_step head h0 = (Finished, length head, h)
    \<and> server_lookup (rh_headerPairs h) = map_of (lowered (sent_headers rq)) \<and> rh_method h = rh_method (rq_header rq)
    \<and> rh_version h = rh_version (rq_header rq) \<and> rh_uri h = rh_uri (rq_header rq) \<and> map_of (rh_argList h) = map_of (rh_argList (rq_header rq))"
proof -
  obtain h where h: "reads (httpMethodToString (rh_method (rq_header rq)) @ [SP] @ convertToUri (full_uri (rq_header rq)) @ [SP]
        @ httpVersionToString (rh_version (rq_header rq)) @ [CR, LF]) h0 h" "at_header h" "rh_maxHeaderCount h = a" "rh_maxHeaderLineSize h = b"
    "rh_headerCount h = 0" "\<not> rh_hasContentLength h" "server_lookup (rh_headerPairs h) = Map.empty" "rh_method h = rh_method (rq_header rq)"
    "rh_version h = rh_version (rq_header rq)" "rh_uri h = rh_uri (rq_header rq)" "map_of (rh_argList h) = map_of (rh_argList (rq_header rq))"
    using reads_request_line [OF assms(1-3)] by blast
  note ok = sent_headers_ok [OF assms(1)]
  have size: "length (rq_body rq) \<le> SIZE_MAX"
    using assms(1) by (simp add: sendable_request_def Let_def)
  have "v = to_digits 10 (length (rq_body rq))" if "(k, v) \<in> set (sent_headers rq)" "toLowerAscii k = cl_key" for k v
  proof -
    have "(cl_key, v) \<in> set (lowered (sent_headers rq))"
      using that by (force simp: lowered_def)
    then show ?thesis
      using ok(2,3) map_of_is_SomeI by fastforce
  qed
  then have "limits_ok h (sent_headers rq)"
    using assms(4,5) h(3-6) parseSizeTStrict_digits [OF size] by (auto simp: limits_ok_def list_all_iff)
  then obtain t where t: "reads (lines_text (sent_headers rq)) h t" "at_header t" "same_start h t"
    "server_lookup (rh_headerPairs t) = map_of (lowered (sent_headers rq))"
    using reads_lines [OF h(2) ok(1) _ ok(2)] h(7) by auto
  have "octets_run bulk_step head h0 = (Finished, length head, t\<lparr>rh_parseState := Done\<rparr>)"
    using reads_end [OF reads_append [OF h(1) t(1)] t(2)] assms(6) by (simp only: append_assoc)
  then show ?thesis
    using t(3,4) h(8-11) by (intro exI [of _ "t\<lparr>rh_parseState := Done\<rparr>"]) (simp add: same_start_def)
qed

text \<open>
  C4. A request arrives as it was built. A client request whose path, arguments and headers the wire format can carry (the predicate \<open>sendable_request\<close>: no percent
  sign in the target, no separators inside argument names and values, no line breaks or leading blanks in header values, names that differ in more than
  case, the length left to the serialiser) is written with \<open>HttpRequest::toString\<close>; anything may follow it, and the octets reach the
  server's \<open>HttpRequest::fromIOVec\<close> in any number of calls and segments. If the server's limits allow it, the server's request is complete after exactly
  the octets of the text, with the client's method, target, arguments, version, body, and every header under any spelling of its name.
\<close>

theorem http_request_roundtrip:
  assumes "sendable_request rq" "c = 0 \<or> length (convertToUri (full_uri (rq_header rq))) \<le> c" "a = 0 \<or> length (sent_headers rq) \<le> a"
    and "b = 0 \<or> list_all (\<lambda>(k, v). length k + 2 + length v \<le> b) (sent_headers rq)" "lim = 0 \<or> length (rq_body rq) \<le> lim"
    and "concat (concat calls) = fst (request_toString rq) @ rest"
  shows "\<exists>rq'. feed lim calls (new_request\<lparr>rq_header := setParseLimits a b c new_request_header\<rparr>) = (Finished, length (fst (request_toString rq)), rq')
    \<and> rq_body rq' = rq_body rq \<and> rh_method (rq_header rq') = rh_method (rq_header rq) \<and> rh_uri (rq_header rq') = rh_uri (rq_header rq)
    \<and> map_of (rh_argList (rq_header rq')) = map_of (rh_argList (rq_header rq)) \<and> rh_version (rq_header rq') = rh_version (rq_header rq)
    \<and> (\<forall>k v k'. (k, v) \<in> set (sent_headers rq) \<and> toLowerAscii k' = toLowerAscii k \<longrightarrow> getValuePtr k' (rh_headerPairs (rq_header rq')) = Some v)"
proof -
  let ?h0 = "setParseLimits a b c new_request_header" and ?srv = "new_request\<lparr>rq_header := setParseLimits a b c new_request_header\<rparr>"
  define head where "head = (httpMethodToString (rh_method (rq_header rq)) @ [SP] @ convertToUri (full_uri (rq_header rq)) @ [SP]
      @ httpVersionToString (rh_version (rq_header rq)) @ [CR, LF]) @ lines_text (sent_headers rq) @ [CR, LF]"
  have wire: "fst (request_toString rq) = head @ rq_body rq"
    using request_text [OF assms(1)] by (simp add: head_def)
  obtain h where h: "octets_run bulk_step head ?h0 = (Finished, length head, h)"
    "server_lookup (rh_headerPairs h) = map_of (lowered (sent_headers rq))" "rh_method h = rh_method (rq_header rq)"
    "rh_version h = rh_version (rq_header rq)" "rh_uri h = rh_uri (rq_header rq)" "map_of (rh_argList h) = map_of (rh_argList (rq_header rq))"
    using head_run [OF assms(1) refl assms(2-4) head_def] by blast
  have srv: "request_open ?srv" "\<not> rq_headerParsed ?srv" "rq_contentLength ?srv = 0"
    using new_request_open by (simp_all add: new_request_def)
  have "rh_parseState ?h0 \<noteq> Done"
    by (simp add: setParseLimits_def new_request_header_def)
  then have "header_fromIOVec [head] (rq_header ?srv) = ((kNoError, int (length head)), h)"
    using header_fromIOVec_run(1) [of ?h0 "[head]"] h(1) by simp
  note framed = framed_run [OF srv(1,2) this]
  let ?rq = "?srv\<lparr>rq_header := h, rq_headerParsed := True\<rparr>" and ?n = "length (rq_body rq)"
  note ok = sent_headers_ok [OF assms(1)]
  have look: "getValuePtr (str ''transfer-encoding'') (rh_headerPairs h) = None"
    "getValuePtr (str ''content-length'') (rh_headerPairs h) = Some (to_digits 10 ?n)"
    using header_values [OF framed(2)] h(2) ok(3,4) by simp_all
  have size: "parseSizeTStrict (to_digits 10 ?n) = Some ?n"
    using parseSizeTStrict_digits assms(1) by (simp add: sendable_request_def Let_def)
  have frame: "choose_body lim ?rq = (Inr (if ?n = 0 then NoBody else LengthBody), ?rq\<lparr>rq_contentLength := ?n\<rparr>)"
    using look size assms(5) by (auto simp: choose_body_def)
  let ?done = "?rq\<lparr>rq_contentLength := ?n, rq_body := rq_body rq, rq_bodyParsed := ?n\<rparr>"
  have "request_run lim (head @ rq_body rq @ rest) ?srv = (Finished, length head + ?n, ?done)"
  proof (cases "?n = 0")
    case True
    then show ?thesis
      using framed(1) [of lim "rq_body rq @ rest"] frame framed(3,4) by simp
  next
    case False
    have "octets_run (request_octet lim) (rq_body rq @ rest) (?rq\<lparr>rq_contentLength := ?n\<rparr>) = (Finished, ?n, ?done)"
      using length_octets [of "?rq\<lparr>rq_contentLength := ?n\<rparr>" lim "rq_body rq @ rest"] False look framed(3,4)
      by (simp add: isChunked_def Let_def)
    then show ?thesis
      using framed(1) [of lim "rq_body rq @ rest"] frame False by simp
  qed
  then have feed: "feed lim calls ?srv = (Finished, length (fst (request_toString rq)), ?done)"
    using feed_cases(2) [OF srv(1), of lim calls Finished] assms(6) wire by simp
  have "getValuePtr k' (rh_headerPairs h) = Some v" if "(k, v) \<in> set (sent_headers rq)" "toLowerAscii k' = toLowerAscii k" for k v k'
  proof -
    have "(toLowerAscii k, v) \<in> set (lowered (sent_headers rq))"
      using that(1) by (force simp: lowered_def)
    then show ?thesis
      using getValuePtr_server [of "rh_headerPairs h" k'] framed(2) h(2) that(2) map_of_is_SomeI [OF ok(2)] by (simp add: header_ok_def)
  qed
  then show ?thesis
    using feed h(3-6) by (intro exI [of _ ?done]) auto
qed


definition example_request :: HttpRequest where
  "example_request = new_request\<lparr>rq_body := str ''hi'', rq_header := new_request_header\<lparr>rh_method := PUT, rh_uri := str ''/a b'',
     rh_argList := [(str ''x'', str ''1'')], rh_headerPairs := (new_headers ClientSide)\<lparr>hp_headerPairs := [(str ''Host'', str ''h'')]\<rparr>\<rparr>\<rparr>"

theorem http_request_roundtrip_witness:
  "\<exists>rq'. feed 5 [[str ''PUT /a%20b?x=1 HTTP/1.1'', [CR]], [[LF] @ str ''Content-Length: 2'' @ [CR, LF] @ str ''Host: '', str ''h'' @ [CR, LF, CR, LF] @ str ''h''],
      [str ''iGET'']] (new_request\<lparr>rq_header := setParseLimits 9 50 40 new_request_header\<rparr>) = (Finished, 57, rq')
    \<and> rq_body rq' = str ''hi'' \<and> rh_method (rq_header rq') = PUT \<and> rh_uri (rq_header rq') = str ''/a b''
    \<and> map_of (rh_argList (rq_header rq')) = [str ''x'' \<mapsto> str ''1''] \<and> rh_version (rq_header rq') = HttpVersion_1_1
    \<and> getValuePtr (str ''HOST'') (rh_headerPairs (rq_header rq')) = Some (str ''h'')"
proof -
  let ?calls = "[[str ''PUT /a%20b?x=1 HTTP/1.1'', [CR]], [[LF] @ str ''Content-Length: 2'' @ [CR, LF] @ str ''Host: '',
      str ''h'' @ [CR, LF, CR, LF] @ str ''h''], [str ''iGET'']]"
  have "fst (request_toString example_request) = str ''PUT /a%20b?x=1 HTTP/1.1'' @ [CR, LF] @ str ''Content-Length: 2'' @ [CR, LF] @ str ''Host: h''
      @ [CR, LF, CR, LF] @ str ''hi''"
    by code_simp
  then have wire: "concat (concat ?calls) = fst (request_toString example_request) @ str ''GET''" "length (fst (request_toString example_request)) = 57"
    by (simp_all add: str_def)
  let ?h = "rq_header example_request" and ?hs = "rh_headerPairs (rq_header example_request)"
  have parts: "hp_ok ?hs" "hp_mode ?hs = ClientSide" "rh_version ?h = HttpVersion_1_1" "rh_uri ?h \<noteq> []" "0x3F \<notin> set (rh_uri ?h)"
    "0x25 \<notin> set (full_uri ?h)" "args_ok (rh_argList ?h)" "list_all line_ok (hp_headerPairs ?hs)" "distinct (map fst (lowered (hp_headerPairs ?hs)))"
    "te_key \<notin> fst ` set (lowered (hp_headerPairs ?hs))" "cl_key \<notin> fst ` set (lowered (hp_headerPairs ?hs))"
    by code_simp+
  have "length (rq_body example_request) \<le> SIZE_MAX"
    by (simp add: example_request_def str_def SIZE_MAX_def)
  then have ok: "sendable_request example_request"
    using parts by (simp add: sendable_request_def Let_def)
  have lim: "length (convertToUri (full_uri ?h)) \<le> 40" "length (sent_headers example_request) \<le> 9" "length (rq_body example_request) \<le> 5"
    "list_all (\<lambda>(k, v). length k + 2 + length v \<le> 50) (sent_headers example_request)" "(str ''Host'', str ''h'') \<in> set (sent_headers example_request)"
    "toLowerAscii (str ''HOST'') = toLowerAscii (str ''Host'')"
    by code_simp+
  have fields: "rq_body example_request = str ''hi''" "rh_method ?h = PUT" "rh_uri ?h = str ''/a b''" "map_of (rh_argList ?h) = [str ''x'' \<mapsto> str ''1'']"
    by (simp_all add: example_request_def)
  show ?thesis
    using http_request_roundtrip [OF ok disjI2 [OF lim(1)] disjI2 [OF lim(2)] disjI2 [OF lim(4)] disjI2 [OF lim(3)] wire(1)] lim(5,6)
    unfolding fields wire(2) parts(3) by blast
qed

end
