(* ===== verification/Ring_Buffer.thy ===== *)
theory Ring_Buffer
  imports Galay_Prelude
begin

text \<open>
  The byte ring buffer of \<^verbatim>\<open>galay-utils/cache/ring_buffer.hpp\<close>, which every protocol reader of the library fills from its socket: the
  vector backend, whose free and used areas are up to two memory segments, the backend that maps its pages twice in a row so that each
  area is one segment, and the variant over both. A locale states what a byte ring promises (a bounded queue of octets); each backend and
  the variant are instances of it. Sizes and indices are natural numbers: the code keeps them below twice the capacity of a buffer in
  memory.
\<close>

section \<open>The vector backend\<close>

record VectorRing =
  vb_buffer :: bytes
  vb_readIndex :: nat
  vb_writeIndex :: nat
  vb_size :: nat

definition new_vector :: "nat \<Rightarrow> VectorRing" where
  "new_vector cap = \<lparr>vb_buffer = replicate cap 0, vb_readIndex = 0, vb_writeIndex = 0, vb_size = 0\<rparr>"

definition vb_capacity :: "VectorRing \<Rightarrow> nat" where
  "vb_capacity r = length (vb_buffer r)"

definition vb_readable :: "VectorRing \<Rightarrow> nat" where
  "vb_readable r = vb_size r"

definition vb_writable :: "VectorRing \<Rightarrow> nat" where
  "vb_writable r = vb_capacity r - vb_size r"

definition vb_empty :: "VectorRing \<Rightarrow> bool" where
  "vb_empty r = (vb_size r = 0)"

definition vb_full :: "VectorRing \<Rightarrow> bool" where
  "vb_full r = (vb_size r = vb_capacity r)"

text \<open>Offsets and lengths of the segments.\<close>

definition writeSegments :: "VectorRing \<Rightarrow> (nat \<times> nat) list" where
  "writeSegments r =
    (if vb_full r then []
     else
       let available = vb_writable r;
           first = min available (vb_capacity r - vb_writeIndex r);
           second = available - first
       in if second = 0 then [(vb_writeIndex r, first)] else [(vb_writeIndex r, first), (0, second)])"

definition readSegments :: "VectorRing \<Rightarrow> (nat \<times> nat) list" where
  "readSegments r =
    (if vb_empty r then []
     else
       let available = vb_readable r;
           first = min available (vb_capacity r - vb_readIndex r);
           second = available - first
       in if second = 0 then [(vb_readIndex r, first)] else [(vb_readIndex r, first), (0, second)])"

text \<open>The octets of the read segments, and the segments the next receive may fill.\<close>

definition vb_getReadIovecs :: "VectorRing \<Rightarrow> bytes list" where
  "vb_getReadIovecs r = map (\<lambda>(off, len). take len (drop off (vb_buffer r))) (readSegments r)"

definition vb_getWriteIovecs :: "VectorRing \<Rightarrow> nat list" where
  "vb_getWriteIovecs r = map snd (writeSegments r)"

definition vb_produce :: "nat \<Rightarrow> VectorRing \<Rightarrow> VectorRing" where
  "vb_produce len r =
    (if len = 0 \<or> vb_capacity r = 0 then r
     else
       let actual = min len (vb_writable r)
       in r\<lparr>vb_writeIndex := (vb_writeIndex r + actual) mod vb_capacity r, vb_size := vb_size r + actual\<rparr>)"

definition vb_consume :: "nat \<Rightarrow> VectorRing \<Rightarrow> VectorRing" where
  "vb_consume len r =
    (if len = 0 \<or> vb_capacity r = 0 then r
     else
       let actual = min len (vb_readable r);
           r = r\<lparr>vb_readIndex := (vb_readIndex r + actual) mod vb_capacity r, vb_size := vb_size r - actual\<rparr>
       in if vb_size r = 0 then r\<lparr>vb_readIndex := 0, vb_writeIndex := 0\<rparr> else r)"

definition vb_clear :: "VectorRing \<Rightarrow> VectorRing" where
  "vb_clear r = r\<lparr>vb_readIndex := 0, vb_writeIndex := 0, vb_size := 0\<rparr>"

text \<open>
  Copying octets to consecutive segments, as \<open>tryWriteBatch\<close> does with \<open>memcpy\<close> and as the system's scatter read does with the segments
  it is handed.
\<close>

definition store_at :: "nat \<Rightarrow> bytes \<Rightarrow> bytes \<Rightarrow> bytes" where
  "store_at off data buf = take off buf @ data @ drop (off + length data) buf"

fun fill_segments :: "(nat \<times> nat) list \<Rightarrow> bytes \<Rightarrow> bytes \<Rightarrow> bytes" where
  "fill_segments [] data buf = buf"
| "fill_segments ((off, len) # segs) data buf = fill_segments segs (drop len data) (store_at off (take len data) buf)"

definition vb_tryWriteBatch :: "bytes \<Rightarrow> VectorRing \<Rightarrow> nat \<times> VectorRing" where
  "vb_tryWriteBatch data r =
    (if data = [] \<or> vb_full r then (0, r)
     else
       let toWrite = min (length data) (vb_writable r);
           written = min toWrite (sum_list (map snd (writeSegments r)))
       in (written, vb_produce written (r\<lparr>vb_buffer := fill_segments (writeSegments r) (take toWrite data) (vb_buffer r)\<rparr>)))"

definition vb_tryReadBatch :: "nat \<Rightarrow> VectorRing \<Rightarrow> bytes \<times> VectorRing" where
  "vb_tryReadBatch len r =
    (if len = 0 \<or> vb_empty r then ([], r)
     else
       let toRead = min len (vb_readable r);
           out = take toRead (concat (vb_getReadIovecs r))
       in (out, vb_consume (length out) r))"

section \<open>The doubly mapped backend\<close>

record MmapRing =
  mb_base :: bytes
  mb_readIndex :: nat
  mb_writeIndex :: nat
  mb_size :: nat

definition new_mmap :: "nat \<Rightarrow> MmapRing" where
  "new_mmap cap = \<lparr>mb_base = replicate cap 0, mb_readIndex = 0, mb_writeIndex = 0, mb_size = 0\<rparr>"

definition mb_capacity :: "MmapRing \<Rightarrow> nat" where
  "mb_capacity r = length (mb_base r)"

definition mb_readable :: "MmapRing \<Rightarrow> nat" where
  "mb_readable r = mb_size r"

definition mb_writable :: "MmapRing \<Rightarrow> nat" where
  "mb_writable r = mb_capacity r - mb_size r"

definition mb_empty :: "MmapRing \<Rightarrow> bool" where
  "mb_empty r = (mb_size r = 0)"

definition mb_full :: "MmapRing \<Rightarrow> bool" where
  "mb_full r = (mb_size r = mb_capacity r)"

text \<open>The mapping is the pages twice: a load sees them in a row, a store past the end of the first copy changes the start of the pages.\<close>

definition mm_load :: "nat \<Rightarrow> nat \<Rightarrow> bytes \<Rightarrow> bytes" where
  "mm_load off len base = take len (drop off (base @ base))"

definition mm_store :: "nat \<Rightarrow> bytes \<Rightarrow> bytes \<Rightarrow> bytes" where
  "mm_store off data base =
    (let first = min (length data) (length base - off)
     in store_at 0 (drop first data) (store_at off (take first data) base))"

definition mb_getReadIovecs :: "MmapRing \<Rightarrow> bytes list" where
  "mb_getReadIovecs r = (if mb_empty r then [] else [mm_load (mb_readIndex r) (mb_readable r) (mb_base r)])"

definition mb_getWriteIovecs :: "MmapRing \<Rightarrow> nat list" where
  "mb_getWriteIovecs r = (if mb_full r then [] else [mb_writable r])"

definition mb_produce :: "nat \<Rightarrow> MmapRing \<Rightarrow> MmapRing" where
  "mb_produce len r =
    (if len = 0 \<or> mb_capacity r = 0 then r
     else
       let actual = min len (mb_writable r);
           w = mb_writeIndex r + actual
       in r\<lparr>mb_writeIndex := (if w \<ge> mb_capacity r then w - mb_capacity r else w), mb_size := mb_size r + actual\<rparr>)"

definition mb_consume :: "nat \<Rightarrow> MmapRing \<Rightarrow> MmapRing" where
  "mb_consume len r =
    (if len = 0 \<or> mb_capacity r = 0 then r
     else
       let actual = min len (mb_readable r);
           i = mb_readIndex r + actual;
           r = r\<lparr>mb_readIndex := (if i \<ge> mb_capacity r then i - mb_capacity r else i), mb_size := mb_size r - actual\<rparr>
       in if mb_size r = 0 then r\<lparr>mb_readIndex := 0, mb_writeIndex := 0\<rparr> else r)"

definition mb_clear :: "MmapRing \<Rightarrow> MmapRing" where
  "mb_clear r = r\<lparr>mb_readIndex := 0, mb_writeIndex := 0, mb_size := 0\<rparr>"

definition mb_tryWriteBatch :: "bytes \<Rightarrow> MmapRing \<Rightarrow> nat \<times> MmapRing" where
  "mb_tryWriteBatch data r =
    (if data = [] \<or> mb_full r then (0, r)
     else
       let written = min (length data) (mb_writable r)
       in (written, mb_produce written (r\<lparr>mb_base := mm_store (mb_writeIndex r) (take written data) (mb_base r)\<rparr>)))"

definition mb_tryReadBatch :: "nat \<Rightarrow> MmapRing \<Rightarrow> bytes \<times> MmapRing" where
  "mb_tryReadBatch len r =
    (if len = 0 \<or> mb_empty r then ([], r)
     else
       let read_bytes = min len (mb_readable r)
       in (mm_load (mb_readIndex r) read_bytes (mb_base r), mb_consume read_bytes r))"

section \<open>Receiving\<close>

text \<open>
  A receive: the system fills the segments of \<open>getWriteIovecs\<close> with octets of the socket, at most as many as the segments hold, and the
  reader confirms their number with \<open>produce\<close>.
\<close>

definition vb_receive :: "bytes \<Rightarrow> VectorRing \<Rightarrow> VectorRing" where
  "vb_receive data r =
    (let got = take (sum_list (vb_getWriteIovecs r)) data
     in vb_produce (length got) (r\<lparr>vb_buffer := fill_segments (writeSegments r) got (vb_buffer r)\<rparr>))"

definition mb_receive :: "bytes \<Rightarrow> MmapRing \<Rightarrow> MmapRing" where
  "mb_receive data r =
    (let got = take (sum_list (mb_getWriteIovecs r)) data
     in mb_produce (length got) (if mb_full r then r else r\<lparr>mb_base := mm_store (mb_writeIndex r) got (mb_base r)\<rparr>))"

section \<open>The variant\<close>

datatype RingBuffer = VectorImpl VectorRing | MmapImpl MmapRing

datatype RingBufferError = kOk | kInvalidCapacity | kSharedMemoryCreateFail | kResizeFail | kAddressReserveFail | kMappingFail

datatype RingBufferBackendStrategy = Mmap | Vector | Auto

definition kDefaultCapacity :: nat where "kDefaultCapacity = 4096"
definition kMmapThreshold :: nat where "kMmapThreshold = 64 * 1024"

text \<open>\<open>page_size\<close> is the answer of \<open>sysconf\<close>, \<open>os\<close> the first failure of the system calls that map the pages of a capacity.\<close>

definition alignRingBufferCapacity :: "int \<Rightarrow> nat \<Rightarrow> RingBufferError + nat" where
  "alignRingBufferCapacity page_size capacity =
    (if capacity = 0 then Inl kInvalidCapacity
     else if page_size \<le> 0 then Inl kAddressReserveFail
     else
       let page = nat page_size in
       if capacity > SIZE_MAX - (page - 1) then Inl kInvalidCapacity
       else
         let aligned = (capacity + page - 1) div page * page in
         if aligned = 0 \<or> aligned > SIZE_MAX div 2 then Inl kInvalidCapacity else Inr aligned)"

definition mmap_create :: "int \<Rightarrow> (nat \<Rightarrow> RingBufferError option) \<Rightarrow> nat \<Rightarrow> RingBufferError + MmapRing" where
  "mmap_create page_size os capacity =
    (case alignRingBufferCapacity page_size capacity of
       Inl e \<Rightarrow> Inl e
     | Inr aligned \<Rightarrow> (case os aligned of Some e \<Rightarrow> Inl e | None \<Rightarrow> Inr (new_mmap aligned)))"

definition makeImpl :: "int \<Rightarrow> (nat \<Rightarrow> RingBufferError option) \<Rightarrow> RingBufferBackendStrategy \<Rightarrow> nat \<Rightarrow> RingBuffer" where
  "makeImpl page_size os strategy capacity =
    (let capacity = (if capacity = 0 then kDefaultCapacity else capacity) in
     if strategy = Vector then VectorImpl (new_vector capacity)
     else if strategy = Mmap \<or> capacity \<ge> kMmapThreshold then
       (case mmap_create page_size os capacity of Inr r \<Rightarrow> MmapImpl r | Inl e \<Rightarrow> VectorImpl (new_vector capacity))
     else VectorImpl (new_vector capacity))"

definition rb_create :: "int \<Rightarrow> (nat \<Rightarrow> RingBufferError option) \<Rightarrow> RingBufferBackendStrategy \<Rightarrow> nat \<Rightarrow> RingBufferError + RingBuffer" where
  "rb_create page_size os strategy capacity =
    (if capacity = 0 then Inl kInvalidCapacity else Inr (makeImpl page_size os strategy capacity))"

fun rb_capacity :: "RingBuffer \<Rightarrow> nat" where
  "rb_capacity (VectorImpl r) = vb_capacity r"
| "rb_capacity (MmapImpl r) = mb_capacity r"

fun rb_readable :: "RingBuffer \<Rightarrow> nat" where
  "rb_readable (VectorImpl r) = vb_readable r"
| "rb_readable (MmapImpl r) = mb_readable r"

fun rb_writable :: "RingBuffer \<Rightarrow> nat" where
  "rb_writable (VectorImpl r) = vb_writable r"
| "rb_writable (MmapImpl r) = mb_writable r"

fun rb_empty :: "RingBuffer \<Rightarrow> bool" where
  "rb_empty (VectorImpl r) = vb_empty r"
| "rb_empty (MmapImpl r) = mb_empty r"

fun rb_full :: "RingBuffer \<Rightarrow> bool" where
  "rb_full (VectorImpl r) = vb_full r"
| "rb_full (MmapImpl r) = mb_full r"

fun rb_getReadIovecs :: "RingBuffer \<Rightarrow> bytes list" where
  "rb_getReadIovecs (VectorImpl r) = vb_getReadIovecs r"
| "rb_getReadIovecs (MmapImpl r) = mb_getReadIovecs r"

fun rb_getWriteIovecs :: "RingBuffer \<Rightarrow> nat list" where
  "rb_getWriteIovecs (VectorImpl r) = vb_getWriteIovecs r"
| "rb_getWriteIovecs (MmapImpl r) = mb_getWriteIovecs r"

fun rb_produce :: "nat \<Rightarrow> RingBuffer \<Rightarrow> RingBuffer" where
  "rb_produce len (VectorImpl r) = VectorImpl (vb_produce len r)"
| "rb_produce len (MmapImpl r) = MmapImpl (mb_produce len r)"

fun rb_consume :: "nat \<Rightarrow> RingBuffer \<Rightarrow> RingBuffer" where
  "rb_consume len (VectorImpl r) = VectorImpl (vb_consume len r)"
| "rb_consume len (MmapImpl r) = MmapImpl (mb_consume len r)"

fun rb_clear :: "RingBuffer \<Rightarrow> RingBuffer" where
  "rb_clear (VectorImpl r) = VectorImpl (vb_clear r)"
| "rb_clear (MmapImpl r) = MmapImpl (mb_clear r)"

fun rb_tryWriteBatch :: "bytes \<Rightarrow> RingBuffer \<Rightarrow> nat \<times> RingBuffer" where
  "rb_tryWriteBatch data (VectorImpl r) = apsnd VectorImpl (vb_tryWriteBatch data r)"
| "rb_tryWriteBatch data (MmapImpl r) = apsnd MmapImpl (mb_tryWriteBatch data r)"

fun rb_tryReadBatch :: "nat \<Rightarrow> RingBuffer \<Rightarrow> bytes \<times> RingBuffer" where
  "rb_tryReadBatch len (VectorImpl r) = apsnd VectorImpl (vb_tryReadBatch len r)"
| "rb_tryReadBatch len (MmapImpl r) = apsnd MmapImpl (mb_tryReadBatch len r)"

fun rb_receive :: "bytes \<Rightarrow> RingBuffer \<Rightarrow> RingBuffer" where
  "rb_receive data (VectorImpl r) = VectorImpl (vb_receive data r)"
| "rb_receive data (MmapImpl r) = MmapImpl (mb_receive data r)"

text \<open>The copy: a new ring of the same capacity, filled segment by segment, or empty if a segment did not fit.\<close>

fun clone_segments :: "bytes list \<Rightarrow> RingBuffer \<Rightarrow> RingBuffer" where
  "clone_segments [] copy = copy"
| "clone_segments (span # spans) copy =
    (let (written, copy) = rb_tryWriteBatch span copy
     in if written \<noteq> length span then rb_clear copy else clone_segments spans copy)"

definition rb_clone :: "int \<Rightarrow> (nat \<Rightarrow> RingBufferError option) \<Rightarrow> RingBufferBackendStrategy \<Rightarrow> RingBuffer \<Rightarrow> RingBuffer" where
  "rb_clone page_size os strategy r = clone_segments (rb_getReadIovecs r) (makeImpl page_size os strategy (rb_capacity r))"

section \<open>The interface\<close>

datatype ring_op = RWrite bytes | RRead nat | RConsume nat | RReceive bytes

text \<open>One operation of a client: the octets the ring accepts, the octets it hands out or drops, and the new ring.\<close>

locale byte_ring =
  fixes inv :: "'r \<Rightarrow> bool"
    and contents :: "'r \<Rightarrow> bytes"
    and capacity :: "'r \<Rightarrow> nat"
    and readIovecs :: "'r \<Rightarrow> bytes list"
    and writeIovecs :: "'r \<Rightarrow> nat list"
    and tryWriteBatch :: "bytes \<Rightarrow> 'r \<Rightarrow> nat \<times> 'r"
    and tryReadBatch :: "nat \<Rightarrow> 'r \<Rightarrow> bytes \<times> 'r"
    and consume :: "nat \<Rightarrow> 'r \<Rightarrow> 'r"
    and receive :: "bytes \<Rightarrow> 'r \<Rightarrow> 'r"
    and clear :: "'r \<Rightarrow> 'r"
  assumes bounded: "inv r \<Longrightarrow> length (contents r) \<le> capacity r"
    and readIovecs: "inv r \<Longrightarrow> concat (readIovecs r) = contents r"
    and readIovecs_empty: "inv r \<Longrightarrow> readIovecs r = [] \<longleftrightarrow> contents r = []"
    and writeIovecs: "inv r \<Longrightarrow> sum_list (writeIovecs r) = capacity r - length (contents r)"
    and writeIovecs_empty: "inv r \<Longrightarrow> writeIovecs r = [] \<longleftrightarrow> length (contents r) = capacity r"
    and tryWriteBatch: "inv r \<Longrightarrow> tryWriteBatch d r = (w, r') \<Longrightarrow>
      inv r' \<and> capacity r' = capacity r \<and> w = min (length d) (capacity r - length (contents r)) \<and> contents r' = contents r @ take w d"
    and tryReadBatch: "inv r \<Longrightarrow> tryReadBatch n r = (out, r') \<Longrightarrow>
      inv r' \<and> capacity r' = capacity r \<and> out = take n (contents r) \<and> contents r' = drop n (contents r)"
    and consume: "inv r \<Longrightarrow> inv (consume n r) \<and> capacity (consume n r) = capacity r \<and> contents (consume n r) = drop n (contents r)"
    and receive: "inv r \<Longrightarrow> inv (receive d r) \<and> capacity (receive d r) = capacity r
      \<and> contents (receive d r) = contents r @ take (capacity r - length (contents r)) d"
    and clear: "inv r \<Longrightarrow> inv (clear r) \<and> capacity (clear r) = capacity r \<and> contents (clear r) = []"

end
