(* ===== verification/Ring_Buffer_Proofs.thy ===== *)
theory Ring_Buffer_Proofs
  imports Ring_Buffer
begin

text \<open>
  Both backends of the byte ring are bounded queues of octets. The doubly mapped backend is verified against the interface; the vector
  backend computes the same indices and stores the same octets, so it inherits the interface, and so does the variant over both.
\<close>

section \<open>Octets around the ring\<close>

definition ring_view :: "bytes \<Rightarrow> nat \<Rightarrow> nat \<Rightarrow> bytes" where
  "ring_view buf i n = map (\<lambda>j. buf ! ((i + j) mod length buf)) [0..<n]"

lemma length_ring_view [simp]: "length (ring_view buf i n) = n"
  by (simp add: ring_view_def)

lemma ring_view_0 [simp]: "ring_view buf i 0 = []"
  by (simp add: ring_view_def)

lemma mod_wrap: "x < 2 * n \<Longrightarrow> x mod n = (if x < n then x else x - n)" for x n :: nat
  by (simp add: mod_if)

lemma mm_load_view:
  assumes "i < length base" "n \<le> length base"
  shows "mm_load i n base = ring_view base i n"
  using assms by (intro nth_equalityI) (auto simp: mm_load_def ring_view_def nth_append mod_wrap, simp_all add: add.commute)

lemma length_store [simp]: "off + length d \<le> length buf \<Longrightarrow> length (store_at off d buf) = length buf"
  by (simp add: store_at_def)

lemma nth_store:
  "off + length d \<le> length buf \<Longrightarrow> k < length buf \<Longrightarrow>
     store_at off d buf ! k = (if off \<le> k \<and> k < off + length d then d ! (k - off) else buf ! k)"
  by (auto simp: store_at_def nth_append)

lemma length_mm_store [simp]:
  assumes "w < length base" "length d \<le> length base"
  shows "length (mm_store w d base) = length base"
  using assms by (simp add: mm_store_def Let_def min_def)

text \<open>A store at the write index changes the positions it covers, around the end of the pages, and no other.\<close>

lemma nth_mm_store:
  assumes "w < length base" "length d \<le> length base" "k < length base"
  shows "mm_store w d base ! k =
    (if w \<le> k \<and> k < w + length d then d ! (k - w)
     else if k + length base < w + length d then d ! (k + length base - w) else base ! k)"
proof -
  let ?f = "min (length d) (length base - w)"
  have 1: "store_at w (take ?f d) base ! k = (if w \<le> k \<and> k < w + ?f then d ! (k - w) else base ! k)"
    using assms by (subst nth_store) (auto simp: less_diff_conv2)
  have "mm_store w d base ! k = (if k < length d - ?f then d ! (?f + k) else store_at w (take ?f d) base ! k)"
    unfolding mm_store_def Let_def using assms by (subst nth_store) auto
  then show ?thesis
    unfolding 1 using assms by (auto simp: min_def split: if_splits) (simp_all add: add.commute)
qed

lemma ring_view_store:
  assumes "i < length base" "n + length d \<le> length base" "w = (i + n) mod length base"
  shows "ring_view (mm_store w d base) i (n + length d) = ring_view base i n @ d"
proof (rule nth_equalityI)
  let ?c = "length base"
  have c: "0 < ?c" using assms(1) by linarith
  have w: "w < ?c" "w = (if i + n < ?c then i + n else i + n - ?c)"
    using assms mod_wrap [of "i + n" ?c] by auto
  fix j assume "j < length (ring_view (mm_store w d base) i (n + length d))"
  then have j: "j < n + length d" by simp
  define k where "k = (i + j) mod ?c"
  have k: "k < ?c" "k = (if i + j < ?c then i + j else i + j - ?c)"
    using assms j c mod_wrap [of "i + j" ?c] by (auto simp: k_def)
  have "ring_view (mm_store w d base) i (n + length d) ! j = mm_store w d base ! k"
    using j assms w by (simp add: ring_view_def k_def)
  also have "\<dots> = (if j < n then base ! k else d ! (j - n))"
    using assms(1,2) j w k by (subst nth_mm_store) (auto split: if_splits intro!: arg_cong [where f = "nth d"])
  also have "\<dots> = (ring_view base i n @ d) ! j"
    using j by (simp add: nth_append ring_view_def k_def)
  finally show "ring_view (mm_store w d base) i (n + length d) ! j = (ring_view base i n @ d) ! j" .
qed simp

lemma ring_view_drop:
  assumes "i < length buf" "m \<le> n" "n \<le> length buf"
  shows "drop m (ring_view buf i n) = ring_view buf ((i + m) mod length buf) (n - m)"
  using assms by (intro nth_equalityI) (auto simp: ring_view_def mod_simps add.assoc)

lemma ring_view_take: "m \<le> n \<Longrightarrow> take m (ring_view buf i n) = ring_view buf i m"
  by (simp add: ring_view_def take_map)

section \<open>The doubly mapped backend\<close>

definition mb_inv :: "MmapRing \<Rightarrow> bool" where
  "mb_inv r = (mb_readIndex r < mb_capacity r \<and> mb_size r \<le> mb_capacity r
     \<and> mb_writeIndex r = (mb_readIndex r + mb_size r) mod mb_capacity r)"

definition mb_contents :: "MmapRing \<Rightarrow> bytes" where
  "mb_contents r = ring_view (mb_base r) (mb_readIndex r) (mb_size r)"

lemmas mb_simps = mb_capacity_def mb_readable_def mb_writable_def mb_empty_def mb_full_def

lemma length_mb_contents [simp]: "length (mb_contents r) = mb_size r"
  by (simp add: mb_contents_def)

lemma mb_consume_queue:
  assumes "mb_inv r"
  shows "mb_inv (mb_consume n r)" "mb_capacity (mb_consume n r) = mb_capacity r" "mb_contents (mb_consume n r) = drop n (mb_contents r)"
proof -
  let ?a = "min n (mb_size r)" and ?c = "mb_capacity r"
  have c: "0 < ?c" "mb_readIndex r < ?c" "mb_size r \<le> ?c" using assms by (auto simp: mb_inv_def)
  have i: "(if mb_readIndex r + ?a \<ge> ?c then mb_readIndex r + ?a - ?c else mb_readIndex r + ?a) = (mb_readIndex r + ?a) mod ?c"
    using c by (subst mod_wrap) auto
  have d: "drop n (mb_contents r) = drop ?a (mb_contents r)"
    by (cases "n \<le> mb_size r") (simp_all add: min_def)
  have "((mb_readIndex r + m) mod ?c + mb_size r - m) mod ?c = (mb_readIndex r + mb_size r) mod ?c" if "m \<le> mb_size r" for m
    using that unfolding Nat.diff_add_assoc [OF that] mod_add_left_eq by simp
  then show "mb_inv (mb_consume n r)"
    using c assms unfolding mb_consume_def Let_def mb_readable_def i
    by (auto simp: mb_inv_def mb_capacity_def min_def)
  show "mb_capacity (mb_consume n r) = ?c"
    by (simp add: mb_consume_def Let_def mb_capacity_def)
  show "mb_contents (mb_consume n r) = drop n (mb_contents r)"
    unfolding d using c ring_view_drop [of "mb_readIndex r" "mb_base r" ?a "mb_size r"]
    unfolding mb_consume_def Let_def mb_readable_def i by (auto simp: mb_contents_def mb_capacity_def)
qed

text \<open>Storing octets at the write index and confirming them.\<close>

lemma mb_store_queue:
  assumes "mb_inv r" "length d \<le> mb_writable r"
  defines "r' \<equiv> mb_produce (length d) (r\<lparr>mb_base := mm_store (mb_writeIndex r) d (mb_base r)\<rparr>)"
  shows "mb_inv r'" "mb_capacity r' = mb_capacity r" "mb_contents r' = mb_contents r @ d"
proof -
  let ?c = "mb_capacity r" and ?b = "mm_store (mb_writeIndex r) d (mb_base r)"
  have c: "0 < ?c" "mb_readIndex r < ?c" "mb_size r + length d \<le> ?c" "mb_writeIndex r = (mb_readIndex r + mb_size r) mod ?c"
    using assms(1,2) by (auto simp: mb_inv_def mb_writable_def)
  have w: "mb_writeIndex r < ?c" using c by simp
  have len: "length ?b = ?c"
    using c w by (simp add: mb_capacity_def)
  have idx: "(if mb_writeIndex r + length d \<ge> ?c then mb_writeIndex r + length d - ?c else mb_writeIndex r + length d)
      = (mb_readIndex r + (mb_size r + length d)) mod ?c"
  proof -
    have "(if mb_writeIndex r + length d \<ge> ?c then mb_writeIndex r + length d - ?c else mb_writeIndex r + length d)
        = (mb_writeIndex r + length d) mod ?c"
      using mod_wrap [of "mb_writeIndex r + length d" ?c] w c(3) by simp
    then show ?thesis by (simp add: c(4) mod_simps add.assoc)
  qed
  have r': "mb_base r' = ?b" "mb_readIndex r' = mb_readIndex r" "mb_size r' = mb_size r + length d"
    "mb_writeIndex r' = (mb_readIndex r + (mb_size r + length d)) mod ?c"
  proof -
    have "min (length d) (?c - mb_size r) = length d"
      using c by simp
    then show "mb_base r' = ?b" "mb_readIndex r' = mb_readIndex r" "mb_size r' = mb_size r + length d"
      "mb_writeIndex r' = (mb_readIndex r + (mb_size r + length d)) mod ?c"
      using idx c len w by (auto simp: r'_def mb_produce_def mb_capacity_def mb_writable_def Let_def)
  qed
  show "mb_capacity r' = ?c"
    using r'(1) len by (simp add: mb_capacity_def)
  then show "mb_inv r'"
    using r' c by (simp add: mb_inv_def)
  show "mb_contents r' = mb_contents r @ d"
    using ring_view_store [of "mb_readIndex r" "mb_base r" "mb_size r" d "mb_writeIndex r"] c
    by (simp add: mb_contents_def r' mb_capacity_def)
qed

lemma mb_store_nil: "mb_produce 0 r = r"
  by (simp add: mb_produce_def)

lemma mb_tryWriteBatch_queue:
  assumes "mb_inv r" "mb_tryWriteBatch d r = (w, r')"
  shows "mb_inv r' \<and> mb_capacity r' = mb_capacity r \<and> w = min (length d) (mb_capacity r - mb_size r) \<and> mb_contents r' = mb_contents r @ take w d"
proof (cases "d = [] \<or> mb_full r")
  case True
  then show ?thesis
    using assms by (auto simp: mb_tryWriteBatch_def mb_full_def)
next
  case False
  then have w: "w = min (length d) (mb_writable r)" "r' = mb_produce w (r\<lparr>mb_base := mm_store (mb_writeIndex r) (take w d) (mb_base r)\<rparr>)"
    using assms(2) by (auto simp: mb_tryWriteBatch_def Let_def)
  then have l: "length (take w d) = w" "length (take w d) \<le> mb_writable r" by auto
  then show ?thesis
    using mb_store_queue [OF assms(1) l(2)] w by (simp add: mb_writable_def)
qed

lemma mb_receive_queue:
  assumes "mb_inv r"
  shows "mb_inv (mb_receive d r) \<and> mb_capacity (mb_receive d r) = mb_capacity r
    \<and> mb_contents (mb_receive d r) = mb_contents r @ take (mb_capacity r - mb_size r) d"
proof (cases "mb_full r")
  case True
  then show ?thesis
    using assms by (simp add: mb_receive_def mb_getWriteIovecs_def mb_produce_def mb_full_def)
next
  case False
  then show ?thesis
    using mb_store_queue [OF assms, of "take (mb_writable r) d"]
    by (simp add: mb_receive_def mb_getWriteIovecs_def mb_writable_def)
qed

lemma mb_tryReadBatch_queue:
  assumes "mb_inv r" "mb_tryReadBatch n r = (out, r')"
  shows "mb_inv r' \<and> mb_capacity r' = mb_capacity r \<and> out = take n (mb_contents r) \<and> mb_contents r' = drop n (mb_contents r)"
proof (cases "n = 0 \<or> mb_empty r")
  case True
  then have "out = [] \<and> r' = r" "n = 0 \<or> mb_contents r = []"
    using assms(2) by (auto simp: mb_tryReadBatch_def mb_empty_def mb_contents_def)
  then show ?thesis using assms(1) by auto
next
  case False
  let ?m = "min n (mb_size r)"
  have "out = mm_load (mb_readIndex r) ?m (mb_base r)" "r' = mb_consume ?m r"
    using False assms(2) by (auto simp: mb_tryReadBatch_def mb_readable_def Let_def)
  moreover have "mm_load (mb_readIndex r) ?m (mb_base r) = take n (mb_contents r)"
    using assms(1) ring_view_take [of ?m "mb_size r" "mb_base r" "mb_readIndex r"]
    by (subst mm_load_view) (auto simp: mb_inv_def mb_capacity_def mb_contents_def min_def)
  moreover have "drop ?m (mb_contents r) = drop n (mb_contents r)"
    by (simp add: min_def)
  ultimately show ?thesis
    using mb_consume_queue [OF assms(1)] by simp
qed

interpretation mb: byte_ring mb_inv mb_contents mb_capacity mb_getReadIovecs mb_getWriteIovecs mb_tryWriteBatch mb_tryReadBatch
  mb_consume mb_receive mb_clear
proof
  fix r assume inv: "mb_inv r"
  then show "length (mb_contents r) \<le> mb_capacity r"
    by (simp add: mb_inv_def)
  show "concat (mb_getReadIovecs r) = mb_contents r"
    using inv mm_load_view [of "mb_readIndex r" "mb_base r" "mb_size r"]
    by (auto simp: mb_getReadIovecs_def mb_empty_def mb_readable_def mb_contents_def mb_inv_def mb_capacity_def)
  show "mb_getReadIovecs r = [] \<longleftrightarrow> mb_contents r = []"
    using length_mb_contents [of r] by (auto simp: mb_getReadIovecs_def mb_empty_def simp del: length_mb_contents)
  show "sum_list (mb_getWriteIovecs r) = mb_capacity r - length (mb_contents r)"
    by (auto simp: mb_getWriteIovecs_def mb_full_def mb_writable_def)
  show "mb_getWriteIovecs r = [] \<longleftrightarrow> length (mb_contents r) = mb_capacity r"
    by (simp add: mb_getWriteIovecs_def mb_full_def)
  show "mb_tryWriteBatch d r = (w, r') \<Longrightarrow> mb_inv r' \<and> mb_capacity r' = mb_capacity r
      \<and> w = min (length d) (mb_capacity r - length (mb_contents r)) \<and> mb_contents r' = mb_contents r @ take w d" for d w r'
    using mb_tryWriteBatch_queue [OF inv] by simp
  show "mb_tryReadBatch n r = (out, r') \<Longrightarrow> mb_inv r' \<and> mb_capacity r' = mb_capacity r \<and> out = take n (mb_contents r)
      \<and> mb_contents r' = drop n (mb_contents r)" for n out r'
    using mb_tryReadBatch_queue [OF inv] by simp
  show "mb_inv (mb_consume n r) \<and> mb_capacity (mb_consume n r) = mb_capacity r \<and> mb_contents (mb_consume n r) = drop n (mb_contents r)" for n
    using mb_consume_queue [OF inv] by blast
  show "mb_inv (mb_receive d r) \<and> mb_capacity (mb_receive d r) = mb_capacity r
      \<and> mb_contents (mb_receive d r) = mb_contents r @ take (mb_capacity r - length (mb_contents r)) d" for d
    using mb_receive_queue [OF inv] by simp
  show "mb_inv (mb_clear r) \<and> mb_capacity (mb_clear r) = mb_capacity r \<and> mb_contents (mb_clear r) = []"
    using inv by (auto simp: mb_inv_def mb_clear_def mb_capacity_def mb_contents_def ring_view_def)
qed

section \<open>The vector backend\<close>

text \<open>The doubly mapped ring with the same octets and indices.\<close>

definition to_mmap :: "VectorRing \<Rightarrow> MmapRing" where
  "to_mmap r = \<lparr>mb_base = vb_buffer r, mb_readIndex = vb_readIndex r, mb_writeIndex = vb_writeIndex r, mb_size = vb_size r\<rparr>"

lemma to_mmap_sel [simp]:
  "mb_base (to_mmap r) = vb_buffer r" "mb_readIndex (to_mmap r) = vb_readIndex r" "mb_writeIndex (to_mmap r) = vb_writeIndex r"
  "mb_size (to_mmap r) = vb_size r" "mb_capacity (to_mmap r) = vb_capacity r" "mb_writable (to_mmap r) = vb_writable r"
  "mb_full (to_mmap r) = vb_full r" "mb_empty (to_mmap r) = vb_empty r" "mb_readable (to_mmap r) = vb_readable r"
  by (simp_all add: to_mmap_def mb_simps vb_capacity_def vb_writable_def vb_full_def vb_empty_def vb_readable_def)

definition vb_inv :: "VectorRing \<Rightarrow> bool" where
  "vb_inv r = mb_inv (to_mmap r)"

definition vb_contents :: "VectorRing \<Rightarrow> bytes" where
  "vb_contents r = mb_contents (to_mmap r)"

lemma vb_inv_bounds:
  assumes "vb_inv r"
  shows "vb_readIndex r < vb_capacity r" "vb_size r \<le> vb_capacity r" "vb_writeIndex r < vb_capacity r"
  using assms by (auto simp: vb_inv_def mb_inv_def)

lemma vb_produce_mmap: "vb_inv r \<Longrightarrow> to_mmap (vb_produce n r) = mb_produce n (to_mmap r)"
  using vb_inv_bounds [of r] mod_wrap [of "vb_writeIndex r + min n (vb_writable r)" "vb_capacity r"]
  by (auto simp: vb_produce_def mb_produce_def Let_def) (simp_all add: to_mmap_def vb_writable_def)

lemma vb_consume_mmap: "vb_inv r \<Longrightarrow> to_mmap (vb_consume n r) = mb_consume n (to_mmap r)"
  using vb_inv_bounds [of r] mod_wrap [of "vb_readIndex r + min n (vb_readable r)" "vb_capacity r"]
  by (auto simp: vb_consume_def mb_consume_def Let_def)

lemma vb_readIovecs_mmap: "vb_inv r \<Longrightarrow> concat (vb_getReadIovecs r) = concat (mb_getReadIovecs (to_mmap r))"
  using vb_inv_bounds [of r]
  by (auto simp: vb_getReadIovecs_def readSegments_def mb_getReadIovecs_def mm_load_def Let_def vb_capacity_def vb_readable_def min_def)

lemma fill_segments_mmap:
  assumes "vb_inv r" "length d \<le> vb_writable r" "\<not> vb_full r"
  shows "fill_segments (writeSegments r) d (vb_buffer r) = mm_store (vb_writeIndex r) d (vb_buffer r)"
proof -
  have nil: "store_at 0 [] b = b" for b by (simp add: store_at_def)
  show ?thesis
    using vb_inv_bounds [OF assms(1)] assms(2,3)
    by (auto simp: writeSegments_def mm_store_def Let_def vb_capacity_def min_def nil)
qed

lemma sum_writeSegments: "vb_inv r \<Longrightarrow> sum_list (map snd (writeSegments r)) = vb_writable r"
  by (auto simp: writeSegments_def Let_def vb_full_def vb_writable_def)

lemma vb_store_mmap:
  assumes "vb_inv r" "length d \<le> vb_writable r" "\<not> vb_full r"
  shows "to_mmap (vb_produce (length d) (r\<lparr>vb_buffer := fill_segments (writeSegments r) d (vb_buffer r)\<rparr>))
    = mb_produce (length d) ((to_mmap r)\<lparr>mb_base := mm_store (mb_writeIndex (to_mmap r)) d (mb_base (to_mmap r))\<rparr>)"
proof -
  let ?r = "r\<lparr>vb_buffer := mm_store (vb_writeIndex r) d (vb_buffer r)\<rparr>"
  have m: "to_mmap ?r = (to_mmap r)\<lparr>mb_base := mm_store (vb_writeIndex r) d (vb_buffer r)\<rparr>"
    by (simp add: to_mmap_def)
  have "length (mm_store (vb_writeIndex r) d (vb_buffer r)) = length (vb_buffer r)"
    using vb_inv_bounds [OF assms(1)] assms(2) by (simp add: vb_capacity_def vb_writable_def)
  then have "vb_inv ?r"
    using assms(1) by (simp add: vb_inv_def mb_inv_def m mb_capacity_def vb_capacity_def)
  then show ?thesis
    using fill_segments_mmap [OF assms] vb_produce_mmap [of ?r "length d"] m by simp
qed

lemma vb_tryWriteBatch_mmap:
  assumes "vb_inv r"
  shows "mb_tryWriteBatch d (to_mmap r) = apsnd to_mmap (vb_tryWriteBatch d r)"
proof (cases "d = [] \<or> vb_full r")
  case True
  then show ?thesis by (auto simp: mb_tryWriteBatch_def vb_tryWriteBatch_def)
next
  case False
  let ?w = "min (length d) (vb_writable r)"
  have "length (take ?w d) = ?w" by simp
  then show ?thesis
    using False vb_store_mmap [OF assms, of "take ?w d"]
    by (simp add: mb_tryWriteBatch_def vb_tryWriteBatch_def Let_def sum_writeSegments [OF assms])
qed

lemma vb_receive_mmap:
  assumes "vb_inv r"
  shows "mb_receive d (to_mmap r) = to_mmap (vb_receive d r)"
proof (cases "vb_full r")
  case True
  then show ?thesis
    by (simp add: mb_receive_def vb_receive_def mb_getWriteIovecs_def vb_getWriteIovecs_def writeSegments_def vb_produce_def mb_produce_def)
next
  case False
  then show ?thesis
    using vb_store_mmap [OF assms, of "take (vb_writable r) d"]
    by (simp add: mb_receive_def vb_receive_def mb_getWriteIovecs_def vb_getWriteIovecs_def sum_writeSegments [OF assms])
qed

lemma vb_tryReadBatch_mmap:
  assumes "vb_inv r"
  shows "mb_tryReadBatch n (to_mmap r) = apsnd to_mmap (vb_tryReadBatch n r)"
proof (cases "n = 0 \<or> vb_empty r")
  case True
  then show ?thesis by (auto simp: mb_tryReadBatch_def vb_tryReadBatch_def)
next
  case False
  let ?m = "min n (vb_size r)"
  have "take ?m (concat (vb_getReadIovecs r)) = mm_load (vb_readIndex r) ?m (vb_buffer r)"
    using False vb_readIovecs_mmap [OF assms] by (simp add: mb_getReadIovecs_def mm_load_def vb_readable_def min_def)
  moreover have "length (mm_load (vb_readIndex r) ?m (vb_buffer r)) = ?m"
    using vb_inv_bounds [OF assms] by (simp add: mm_load_def vb_capacity_def)
  moreover from calculation have "min (length (concat (vb_getReadIovecs r))) ?m = ?m"
    by (metis length_take)
  ultimately show ?thesis
    using False vb_consume_mmap [OF assms, of ?m]
    by (simp add: mb_tryReadBatch_def vb_tryReadBatch_def Let_def vb_readable_def)
qed

interpretation vb: byte_ring vb_inv vb_contents vb_capacity vb_getReadIovecs vb_getWriteIovecs vb_tryWriteBatch vb_tryReadBatch
  vb_consume vb_receive vb_clear
proof
  fix r assume inv: "vb_inv r"
  then have m: "mb_inv (to_mmap r)" by (simp add: vb_inv_def)
  show "length (vb_contents r) \<le> vb_capacity r"
    using mb.bounded [OF m] by (simp add: vb_contents_def)
  show "concat (vb_getReadIovecs r) = vb_contents r"
    using mb.readIovecs [OF m] vb_readIovecs_mmap [OF inv] by (simp add: vb_contents_def)
  show "vb_getReadIovecs r = [] \<longleftrightarrow> vb_contents r = []"
    using mb.readIovecs_empty [OF m]
    by (simp add: vb_contents_def vb_getReadIovecs_def readSegments_def mb_getReadIovecs_def Let_def split: if_splits)
  show "sum_list (vb_getWriteIovecs r) = vb_capacity r - length (vb_contents r)"
    using sum_writeSegments [OF inv] by (simp add: vb_getWriteIovecs_def vb_contents_def vb_writable_def)
  show "vb_getWriteIovecs r = [] \<longleftrightarrow> length (vb_contents r) = vb_capacity r"
    by (simp add: vb_contents_def vb_getWriteIovecs_def writeSegments_def vb_full_def Let_def)
  show "vb_tryWriteBatch d r = (w, r') \<Longrightarrow> vb_inv r' \<and> vb_capacity r' = vb_capacity r
      \<and> w = min (length d) (vb_capacity r - length (vb_contents r)) \<and> vb_contents r' = vb_contents r @ take w d" for d w r'
    using mb.tryWriteBatch [OF m, of d w "to_mmap r'"] by (simp add: vb_tryWriteBatch_mmap [OF inv] vb_inv_def vb_contents_def)
  show "vb_tryReadBatch n r = (out, r') \<Longrightarrow> vb_inv r' \<and> vb_capacity r' = vb_capacity r \<and> out = take n (vb_contents r)
      \<and> vb_contents r' = drop n (vb_contents r)" for n out r'
    using mb.tryReadBatch [OF m, of n out "to_mmap r'"] by (simp add: vb_tryReadBatch_mmap [OF inv] vb_inv_def vb_contents_def)
  show "vb_inv (vb_consume n r) \<and> vb_capacity (vb_consume n r) = vb_capacity r \<and> vb_contents (vb_consume n r) = drop n (vb_contents r)" for n
    using mb.consume [OF m, of n] by (simp add: vb_consume_mmap [OF inv, symmetric] vb_inv_def vb_contents_def)
  show "vb_inv (vb_receive d r) \<and> vb_capacity (vb_receive d r) = vb_capacity r
      \<and> vb_contents (vb_receive d r) = vb_contents r @ take (vb_capacity r - length (vb_contents r)) d" for d
    using mb.receive [OF m, of d] by (simp add: vb_receive_mmap [OF inv] vb_inv_def vb_contents_def)
  show "vb_inv (vb_clear r) \<and> vb_capacity (vb_clear r) = vb_capacity r \<and> vb_contents (vb_clear r) = []"
  proof -
    have "to_mmap (vb_clear r) = mb_clear (to_mmap r)" "vb_capacity (vb_clear r) = vb_capacity r"
      by (simp_all add: to_mmap_def vb_clear_def mb_clear_def vb_capacity_def)
    then show ?thesis
      using mb.clear [OF m] by (simp add: vb_inv_def vb_contents_def)
  qed
qed

section \<open>The variant\<close>

fun rb_inv :: "RingBuffer \<Rightarrow> bool" where
  "rb_inv (VectorImpl r) = vb_inv r"
| "rb_inv (MmapImpl r) = mb_inv r"

fun rb_contents :: "RingBuffer \<Rightarrow> bytes" where
  "rb_contents (VectorImpl r) = vb_contents r"
| "rb_contents (MmapImpl r) = mb_contents r"

interpretation rb: byte_ring rb_inv rb_contents rb_capacity rb_getReadIovecs rb_getWriteIovecs rb_tryWriteBatch rb_tryReadBatch
  rb_consume rb_receive rb_clear
proof
  fix r assume inv: "rb_inv r"
  show "length (rb_contents r) \<le> rb_capacity r" "concat (rb_getReadIovecs r) = rb_contents r"
    "rb_getReadIovecs r = [] \<longleftrightarrow> rb_contents r = []" "sum_list (rb_getWriteIovecs r) = rb_capacity r - length (rb_contents r)"
    "rb_getWriteIovecs r = [] \<longleftrightarrow> length (rb_contents r) = rb_capacity r"
    using inv by (cases r; simp add: vb.bounded mb.bounded vb.readIovecs mb.readIovecs vb.readIovecs_empty mb.readIovecs_empty
        vb.writeIovecs mb.writeIovecs vb.writeIovecs_empty mb.writeIovecs_empty del: length_mb_contents)+
  show "rb_tryWriteBatch d r = (w, r') \<Longrightarrow> rb_inv r' \<and> rb_capacity r' = rb_capacity r
      \<and> w = min (length d) (rb_capacity r - length (rb_contents r)) \<and> rb_contents r' = rb_contents r @ take w d" for d w r'
    using inv vb.tryWriteBatch mb.tryWriteBatch by (cases r) (auto simp: apsnd_def map_prod_def split: prod.splits)
  show "rb_tryReadBatch n r = (out, r') \<Longrightarrow> rb_inv r' \<and> rb_capacity r' = rb_capacity r \<and> out = take n (rb_contents r)
      \<and> rb_contents r' = drop n (rb_contents r)" for n out r'
    using inv vb.tryReadBatch mb.tryReadBatch by (cases r) (auto simp: apsnd_def map_prod_def split: prod.splits)
  show "rb_inv (rb_consume n r) \<and> rb_capacity (rb_consume n r) = rb_capacity r \<and> rb_contents (rb_consume n r) = drop n (rb_contents r)" for n
    using inv vb.consume mb.consume by (cases r) simp_all
  show "rb_inv (rb_receive d r) \<and> rb_capacity (rb_receive d r) = rb_capacity r
      \<and> rb_contents (rb_receive d r) = rb_contents r @ take (rb_capacity r - length (rb_contents r)) d" for d
    using inv vb.receive mb.receive by (cases r) simp_all
  show "rb_inv (rb_clear r) \<and> rb_capacity (rb_clear r) = rb_capacity r \<and> rb_contents (rb_clear r) = []"
    using inv vb.clear mb.clear by (cases r) simp_all
qed

section \<open>Sequences of operations\<close>

text \<open>
  A client's operation on a ring with the given primitives: the octets the ring takes in, the octets it hands out (for \<open>consume\<close>, those
  the client saw at the front of the read segments), and the ring afterwards.
\<close>

fun ring_step :: "('r \<Rightarrow> bytes list) \<Rightarrow> ('r \<Rightarrow> nat list) \<Rightarrow> (bytes \<Rightarrow> 'r \<Rightarrow> nat \<times> 'r) \<Rightarrow> (nat \<Rightarrow> 'r \<Rightarrow> bytes \<times> 'r)
    \<Rightarrow> (nat \<Rightarrow> 'r \<Rightarrow> 'r) \<Rightarrow> (bytes \<Rightarrow> 'r \<Rightarrow> 'r) \<Rightarrow> ring_op \<Rightarrow> 'r \<Rightarrow> bytes \<times> bytes \<times> 'r" where
  "ring_step readIovecs writeIovecs tryWrite tryRead consume receive (RWrite d) r = (let (w, r') = tryWrite d r in (take w d, [], r'))"
| "ring_step readIovecs writeIovecs tryWrite tryRead consume receive (RRead n) r = (let (out, r') = tryRead n r in ([], out, r'))"
| "ring_step readIovecs writeIovecs tryWrite tryRead consume receive (RConsume n) r = ([], take n (concat (readIovecs r)), consume n r)"
| "ring_step readIovecs writeIovecs tryWrite tryRead consume receive (RReceive d) r = (take (sum_list (writeIovecs r)) d, [], receive d r)"

fun run_steps :: "('op \<Rightarrow> 'r \<Rightarrow> bytes \<times> bytes \<times> 'r) \<Rightarrow> 'op list \<Rightarrow> 'r \<Rightarrow> bytes \<times> bytes \<times> 'r" where
  "run_steps step [] r = ([], [], r)"
| "run_steps step (op # ops) r =
    (let (a, out, r) = step op r; (a', out', r) = run_steps step ops r in (a @ a', out @ out', r))"

text \<open>The specification: a queue of at most \<open>cap\<close> octets.\<close>

fun queue_step :: "nat \<Rightarrow> ring_op \<Rightarrow> bytes \<Rightarrow> bytes \<times> bytes \<times> bytes" where
  "queue_step cap (RWrite d) q = (let a = take (cap - length q) d in (a, [], q @ a))"
| "queue_step cap (RRead n) q = ([], take n q, drop n q)"
| "queue_step cap (RConsume n) q = ([], take n q, drop n q)"
| "queue_step cap (RReceive d) q = (let a = take (cap - length q) d in (a, [], q @ a))"

lemma queue_run_fifo: "run_steps (queue_step cap) ops q = (a, out, q') \<Longrightarrow> q @ a = out @ q'"
proof (induction ops arbitrary: q a out q')
  case (Cons op ops)
  obtain a1 out1 q1 where 1: "queue_step cap op q = (a1, out1, q1)" by (cases "queue_step cap op q")
  obtain a2 out2 q2 where 2: "run_steps (queue_step cap) ops q1 = (a2, out2, q2)" by (cases "run_steps (queue_step cap) ops q1")
  have "q @ a1 = out1 @ q1"
    using 1 by (cases op) (auto simp: Let_def)
  moreover have "a = a1 @ a2" "out = out1 @ out2" "q' = q2"
    using Cons.prems 1 2 by auto
  ultimately show ?case
    using Cons.IH [OF 2] by (metis append.assoc)
qed simp

context byte_ring
begin

lemma step_refines:
  assumes "inv r" "ring_step readIovecs writeIovecs tryWriteBatch tryReadBatch consume receive op r = (a, out, r')"
  shows "inv r' \<and> capacity r' = capacity r \<and> queue_step (capacity r) op (contents r) = (a, out, contents r')"
proof (cases op)
  case (RWrite d)
  obtain w r1 where w: "tryWriteBatch d r = (w, r1)" by (cases "tryWriteBatch d r")
  show ?thesis
    using tryWriteBatch [OF assms(1) w] assms(2) w RWrite by (auto simp: Let_def min_def)
next
  case (RRead n)
  obtain o1 r1 where w: "tryReadBatch n r = (o1, r1)" by (cases "tryReadBatch n r")
  show ?thesis
    using tryReadBatch [OF assms(1) w] assms(2) w RRead by auto
next
  case (RConsume n)
  then show ?thesis
    using consume [OF assms(1), of n] readIovecs [OF assms(1)] assms(2) by auto
next
  case (RReceive d)
  then show ?thesis
    using receive [OF assms(1), of d] writeIovecs [OF assms(1)] assms(2) by (auto simp: Let_def)
qed

lemma run_refines:
  "inv r \<Longrightarrow> run_steps (ring_step readIovecs writeIovecs tryWriteBatch tryReadBatch consume receive) ops r = (a, out, r') \<Longrightarrow>
    inv r' \<and> capacity r' = capacity r \<and> run_steps (queue_step (capacity r)) ops (contents r) = (a, out, contents r')"
proof (induction ops arbitrary: r a out r')
  case (Cons op ops)
  let ?step = "ring_step readIovecs writeIovecs tryWriteBatch tryReadBatch consume receive"
  obtain a1 out1 r1 where 1: "?step op r = (a1, out1, r1)" by (cases "?step op r")
  obtain a2 out2 r2 where 2: "run_steps ?step ops r1 = (a2, out2, r2)" by (cases "run_steps ?step ops r1")
  note s = step_refines [OF Cons.prems(1) 1]
  show ?case
    using Cons.IH [OF _ 2] s Cons.prems(2) 1 2 by (auto simp: Let_def)
qed simp

end

definition rb_run :: "ring_op list \<Rightarrow> RingBuffer \<Rightarrow> bytes \<times> bytes \<times> RingBuffer" where
  "rb_run = run_steps (ring_step rb_getReadIovecs rb_getWriteIovecs rb_tryWriteBatch rb_tryReadBatch rb_consume rb_receive)"

section \<open>Construction\<close>

lemma new_ring_inv:
  "0 < cap \<Longrightarrow> vb_inv (new_vector cap)" "vb_contents (new_vector cap) = []" "vb_capacity (new_vector cap) = cap"
  "0 < cap \<Longrightarrow> mb_inv (new_mmap cap)" "mb_contents (new_mmap cap) = []" "mb_capacity (new_mmap cap) = cap"
  by (simp_all add: vb_inv_def vb_contents_def mb_inv_def mb_contents_def new_vector_def new_mmap_def vb_capacity_def mb_capacity_def)

lemma alignRingBufferCapacity_bounds:
  assumes "alignRingBufferCapacity page_size capacity = Inr aligned"
  shows "capacity \<le> aligned \<and> aligned < capacity + nat page_size \<and> nat page_size dvd aligned \<and> 0 < aligned \<and> 2 * aligned \<le> SIZE_MAX"
proof -
  define p where "p = nat page_size"
  have p: "0 < p" and a: "aligned = (capacity + p - 1) div p * p" "0 < aligned" "aligned \<le> SIZE_MAX div 2"
    using assms by (auto simp: alignRingBufferCapacity_def p_def Let_def not_less split: if_splits)
  have "aligned + (capacity + p - 1) mod p = capacity + p - 1"
    unfolding a(1) by (rule div_mult_mod_eq)
  moreover have "(capacity + p - 1) mod p < p" using p by simp
  ultimately have "capacity \<le> aligned" "aligned < capacity + p" by linarith+
  moreover have "2 * aligned \<le> SIZE_MAX" "p dvd aligned"
    using a(1,3) by simp_all
  ultimately show ?thesis
    using a(2) by (simp add: p_def)
qed

lemma makeImpl_queue:
  "rb_inv (makeImpl page_size os strategy capacity) \<and> rb_contents (makeImpl page_size os strategy capacity) = []"
proof -
  have "0 < (if capacity = 0 then kDefaultCapacity else capacity)"
    by (simp add: kDefaultCapacity_def)
  then show ?thesis
    using alignRingBufferCapacity_bounds [of page_size]
    by (auto simp: makeImpl_def mmap_create_def Let_def new_ring_inv split: sum.splits option.splits)
qed

section \<open>Properties\<close>

text \<open>C13. Whatever the strategy, the system's answers and the backend chosen, a ring buffer is a bounded first-in first-out queue of
  octets: over every sequence of writes, reads, receives and consumes it accepts, hands out and holds exactly what the queue of its
  capacity does, and the octets handed out followed by those still readable are the octets accepted, in order.\<close>

theorem ring_refines_queue:
  assumes "rb_run ops (makeImpl page_size os strategy capacity) = (accepted, out, r)"
  shows "run_steps (queue_step (rb_capacity (makeImpl page_size os strategy capacity))) ops [] = (accepted, out, concat (rb_getReadIovecs r))
    \<and> accepted = out @ concat (rb_getReadIovecs r) \<and> length (concat (rb_getReadIovecs r)) \<le> rb_capacity r
    \<and> rb_capacity r = rb_capacity (makeImpl page_size os strategy capacity)"
proof -
  let ?r = "makeImpl page_size os strategy capacity"
  have r: "rb_inv ?r" "rb_contents ?r = []" using makeImpl_queue by auto
  note f = rb.run_refines [OF r(1) assms [unfolded rb_run_def], unfolded r(2)]
  then have c: "concat (rb_getReadIovecs r) = rb_contents r"
    using rb.readIovecs by blast
  show ?thesis
    unfolding c using f rb.bounded [of r] queue_run_fifo [of "rb_capacity ?r" ops "[]" accepted out "rb_contents r"] by simp
qed

theorem ring_refines_queue_witness:
  "\<exists>accepted out r. rb_run [RWrite [1, 2, 3], RConsume 2, RReceive [4, 5, 6], RRead 2] (makeImpl 0 (\<lambda>_. None) Mmap 4) = (accepted, out, r)
     \<and> accepted = out @ concat (rb_getReadIovecs r)"
proof -
  obtain accepted out r where run: "rb_run [RWrite [1, 2, 3], RConsume 2, RReceive [4, 5, 6], RRead 2] (makeImpl 0 (\<lambda>_. None) Mmap 4) = (accepted, out, r)"
    by (cases "rb_run [RWrite [1, 2, 3], RConsume 2, RReceive [4, 5, 6], RRead 2] (makeImpl 0 (\<lambda>_. None) Mmap 4)")
  then show ?thesis using ring_refines_queue [OF run] by blast
qed

text \<open>C40. The capacity of a ring is at least the one asked for (4096 when none was), exactly it for the vector backend; a doubly mapped
  ring has the next multiple of the page size, and its two mappings fit the address space.\<close>

theorem ring_capacity_bounds:
  assumes "asked = (if capacity = 0 then kDefaultCapacity else capacity)"
  shows "asked \<le> rb_capacity (makeImpl page_size os strategy capacity)
    \<and> (case makeImpl page_size os strategy capacity of
         VectorImpl r \<Rightarrow> vb_capacity r = asked
       | MmapImpl r \<Rightarrow> nat page_size dvd mb_capacity r \<and> mb_capacity r < asked + nat page_size \<and> 2 * mb_capacity r \<le> SIZE_MAX)"
proof -
  have "asked \<le> aligned \<and> nat page_size dvd aligned \<and> aligned < asked + nat page_size \<and> 2 * aligned \<le> SIZE_MAX"
    if "alignRingBufferCapacity page_size asked = Inr aligned" for aligned
    using alignRingBufferCapacity_bounds [OF that] by simp
  then show ?thesis
    unfolding makeImpl_def Let_def assms [symmetric] mmap_create_def
    by (auto simp: new_ring_inv split: sum.splits option.splits)
qed

theorem ring_capacity_bounds_witness:
  "100 \<le> rb_capacity (makeImpl 4096 (\<lambda>_. None) Mmap 100)"
  using ring_capacity_bounds [of 100 100 4096 "\<lambda>_. None" Mmap] by simp

lemma clone_segments_contents:
  "rb_inv copy \<Longrightarrow> length (rb_contents copy) + length (concat spans) \<le> rb_capacity copy \<Longrightarrow>
    rb_contents (clone_segments spans copy) = rb_contents copy @ concat spans \<and> rb_inv (clone_segments spans copy)"
proof (induction spans arbitrary: copy)
  case (Cons span spans)
  obtain w c where w: "rb_tryWriteBatch span copy = (w, c)" by (cases "rb_tryWriteBatch span copy")
  note t = rb.tryWriteBatch [OF Cons.prems(1) w]
  then have "w = length span"
    using Cons.prems(2) by simp
  then show ?case
    using Cons.IH [of c] t Cons.prems(2) w by simp
qed simp

text \<open>The copy of a ring, whatever backend it gets, reads back as the same octets; no segment is dropped on the way.\<close>

theorem ring_clone_reads_same:
  assumes "rb_run ops (makeImpl page_size os strategy capacity) = (accepted, out, r)"
  shows "concat (rb_getReadIovecs (rb_clone page' os' strategy' r)) = concat (rb_getReadIovecs r)"
proof -
  let ?r = "makeImpl page_size os strategy capacity" and ?c = "makeImpl page' os' strategy' (rb_capacity r)"
  have r: "rb_inv ?r" using makeImpl_queue by auto
  then have inv: "rb_inv r"
    using rb.run_refines assms unfolding rb_run_def by blast
  have "rb_capacity r \<le> rb_capacity ?c"
  proof -
    have "0 < rb_capacity r"
      using inv by (cases r) (auto simp: vb_inv_def mb_inv_def)
    then show ?thesis
      using alignRingBufferCapacity_bounds [of page' "rb_capacity r"]
      by (auto simp: makeImpl_def mmap_create_def Let_def new_ring_inv split: sum.splits option.splits)
  qed
  then have "rb_contents (rb_clone page' os' strategy' r) = rb_contents r \<and> rb_inv (rb_clone page' os' strategy' r)"
    using clone_segments_contents [of ?c "rb_getReadIovecs r"] makeImpl_queue rb.bounded [OF inv]
    by (simp add: rb_clone_def rb.readIovecs [OF inv])
  then show ?thesis
    using rb.readIovecs inv by simp
qed

theorem ring_clone_reads_same_witness:
  "concat (rb_getReadIovecs (rb_clone 0 (\<lambda>_. None) Mmap (snd (snd (rb_run [RWrite [1, 2]] (makeImpl 0 (\<lambda>_. None) Mmap 4))))))
     = concat (rb_getReadIovecs (snd (snd (rb_run [RWrite [1, 2]] (makeImpl 0 (\<lambda>_. None) Mmap 4)))))"
proof -
  let ?run = "rb_run [RWrite [1, 2]] (makeImpl 0 (\<lambda>_. None) Mmap 4)"
  have "?run = (fst ?run, fst (snd ?run), snd (snd ?run))" by simp
  then show ?thesis by (rule ring_clone_reads_same)
qed

end
