(* ===== verification/Http1_Reader.thy ===== *)
theory Http1_Reader
  imports Http1_Request_Run Ring_Buffer_Proofs
begin

text \<open>
  The request reader of \<^verbatim>\<open>galay-http/kernel/http_reader.h\<close>: the read state that parses out of the ring buffer and checks the limits, and the TCP
  read machine that alternates parsing with receives. The message text of an error, the borrowed segment lists and the fields that only recognise a stale
  awaitable are left out.
\<close>

section \<open>Settings and state\<close>

record HttpReaderSetting =
  st_max_header_size :: nat
  st_max_body_size :: nat
  st_max_header_count :: nat
  st_max_header_line_size :: nat
  st_max_uri_size :: nat

record HttpRequestReadState =
  rs_ring_buffer :: RingBuffer
  rs_setting :: HttpReaderSetting
  rs_request :: HttpRequest
  rs_total_received :: nat
  rs_http_error :: "HttpErrorCode option"

definition new_read_state :: "RingBuffer \<Rightarrow> HttpReaderSetting \<Rightarrow> HttpRequest \<Rightarrow> HttpRequestReadState" where
  "new_read_state ring setting request =
    \<lparr>rs_ring_buffer = ring, rs_setting = setting, rs_request = request, rs_total_received = 0, rs_http_error = None\<rparr>"

definition resetForNextRead :: "HttpRequest \<Rightarrow> HttpRequestReadState \<Rightarrow> HttpRequestReadState" where
  "resetForNextRead request st = st\<lparr>rs_request := reset_request request, rs_total_received := 0, rs_http_error := None\<rparr>"

definition set_http_error :: "HttpErrorCode \<Rightarrow> HttpRequestReadState \<Rightarrow> HttpRequestReadState" where
  "set_http_error e st = st\<lparr>rs_http_error := Some e\<rparr>"

definition take_http_result :: "HttpRequestReadState \<Rightarrow> HttpErrorCode + bool" where
  "take_http_result st = (case rs_http_error st of Some e \<Rightarrow> Inl e | None \<Rightarrow> Inr True)"

definition limits_set :: "HttpReaderSetting \<Rightarrow> HttpRequest \<Rightarrow> HttpRequest" where
  "limits_set s rq = rq\<lparr>rq_header := setParseLimits (st_max_header_count s) (st_max_header_line_size s) (st_max_uri_size s) (rq_header rq)\<rparr>"

definition buildWindow :: "bytes list \<Rightarrow> bytes list" where
  "buildWindow source = filter (\<lambda>iov. iov \<noteq> []) source"

section \<open>Parsing out of the ring\<close>

definition checkBodyLimitExceeded :: "nat \<Rightarrow> HttpRequest \<Rightarrow> bool" where
  "checkBodyLimitExceeded max_body_size rq =
    (let headers = rh_headerPairs (rq_header rq);
         is_chunked = (case getValuePtr (str ''transfer-encoding'') headers of
           Some te \<Rightarrow> headerValueContainsToken te (str ''chunked'') | None \<Rightarrow> False) in
     if max_body_size = 0 then False
     else if \<not> is_chunked \<and>
       (case getValuePtr (str ''content-length'') headers of
          Some content_length \<Rightarrow>
            content_length \<noteq> [] \<and> (case parseSizeTStrict content_length of Some parsed \<Rightarrow> parsed > max_body_size | None \<Rightarrow> False)
        | None \<Rightarrow> False) then True
     else length (rq_body rq) > max_body_size)"

definition parseFromRingBuffer :: "HttpRequestReadState \<Rightarrow> bool \<times> HttpRequestReadState" where
  "parseFromRingBuffer st =
    (let read_iovecs = rb_getReadIovecs (rs_ring_buffer st); s = rs_setting st in
     if read_iovecs = [] then (False, st)
     else
       let rq = limits_set s (rs_request st); window = buildWindow read_iovecs in
       if window = [] then (False, st\<lparr>rs_request := rq\<rparr>)
       else
         (case request_fromIOVec window (st_max_body_size s) rq of
            ((error_code, consumed), rq) \<Rightarrow>
              let ring = (if consumed > 0 then rb_consume (nat consumed) (rs_ring_buffer st) else rs_ring_buffer st);
                  st = st\<lparr>rs_request := rq, rs_ring_buffer := ring\<rparr> in
              if checkBodyLimitExceeded (st_max_body_size s) rq then (True, set_http_error kRequestEntityTooLarge st)
              else if rh_parseState (rq_header rq) \<noteq> Done \<and> rs_total_received st \<ge> st_max_header_size s then (True, set_http_error kHeaderTooLarge st)
              else if error_code = kHeaderInComplete \<or> error_code = kIncomplete then (False, st)
              else if error_code \<noteq> kNoError then (True, set_http_error error_code st)
              else if \<not> isComplete rq then (False, st)
              else (True, st)))"

definition http_onBytesReceived :: "bytes \<Rightarrow> HttpRequestReadState \<Rightarrow> HttpRequestReadState" where
  "http_onBytesReceived data st =
    st\<lparr>rs_ring_buffer := rb_receive data (rs_ring_buffer st), rs_total_received := rs_total_received st + length data\<rparr>"

section \<open>The read machine\<close>

text \<open>The outcome of a receive: an I/O error that is a timeout, a lost connection or another one; octets, none of them when the peer has closed.\<close>

datatype io_failure = IoTimeout | IoDisconnect | IoOther

datatype http_read_outcome = RecvFailed io_failure | Received bytes

datatype http_action = HttpComplete "HttpErrorCode + bool" | HttpWaitReadv

record HttpReadMachine =
  hm_state :: HttpRequestReadState
  hm_result :: "(HttpErrorCode + bool) option"

definition complete_with :: "HttpRequestReadState \<Rightarrow> http_action \<times> HttpReadMachine" where
  "complete_with st = (HttpComplete (take_http_result st), \<lparr>hm_state = st, hm_result = Some (take_http_result st)\<rparr>)"

definition http_advance :: "HttpReadMachine \<Rightarrow> http_action \<times> HttpReadMachine" where
  "http_advance m =
    (case hm_result m of
       Some r \<Rightarrow> (HttpComplete r, m)
     | None \<Rightarrow>
         (case parseFromRingBuffer (hm_state m) of
            (True, st) \<Rightarrow> complete_with st
          | (False, st) \<Rightarrow>
              if rb_getWriteIovecs (rs_ring_buffer st) = [] then complete_with (set_http_error kHeaderTooLarge st)
              else (HttpWaitReadv, m\<lparr>hm_state := st\<rparr>)))"

fun http_setRecvError :: "io_failure \<Rightarrow> HttpRequestReadState \<Rightarrow> HttpRequestReadState" where
  "http_setRecvError IoTimeout st = set_http_error kRecvTimeOut st"
| "http_setRecvError IoDisconnect st = set_http_error kConnectionClose st"
| "http_setRecvError IoOther st = set_http_error kRecvError st"

definition http_onRead :: "http_read_outcome \<Rightarrow> HttpReadMachine \<Rightarrow> HttpReadMachine" where
  "http_onRead outcome m =
    (case outcome of
       RecvFailed f \<Rightarrow> snd (complete_with (http_setRecvError f (hm_state m)))
     | Received data \<Rightarrow>
         if data = [] then snd (complete_with (set_http_error kConnectionClose (hm_state m)))
         else m\<lparr>hm_state := http_onBytesReceived data (hm_state m)\<rparr>)"

text \<open>A whole read: the outcomes of the receives in order, as long as the machine asks for them.\<close>

fun http_run_machine :: "http_read_outcome list \<Rightarrow> HttpReadMachine \<Rightarrow> (HttpErrorCode + bool) option \<times> http_read_outcome list \<times> HttpReadMachine" where
  "http_run_machine outcomes m =
    (case http_advance m of
       (HttpComplete r, m) \<Rightarrow> (Some r, outcomes, m)
     | (HttpWaitReadv, m) \<Rightarrow> (case outcomes of [] \<Rightarrow> (None, [], m) | x # xs \<Rightarrow> http_run_machine xs (http_onRead x m)))"

declare http_run_machine.simps [simp del]

end
