(* ===== verification/Http1_Reader_Run.thy ===== *)
theory Http1_Reader_Run
  imports Http1_Reader
begin

text \<open>
  The request reader on a stream of octets: the limits that hold while a request is read, why the checks of the reader never refuse a request that the octet
  machine completes, and the read machine over any sequence of receives.
\<close>

section \<open>Limits stay set\<close>

definition limited :: "HttpReaderSetting \<Rightarrow> HttpRequestHeader \<Rightarrow> bool" where
  "limited s h = (rh_maxHeaderCount h = st_max_header_count s \<and> rh_maxHeaderLineSize h = st_max_header_line_size s \<and> rh_maxUriSize h = st_max_uri_size s)"

lemma limits_set_limited: "limited s (rq_header rq) \<Longrightarrow> limits_set s rq = rq"
  by (simp add: limited_def limits_set_def setParseLimits_def)

lemma limits_kept:
  "rh_maxHeaderCount (snd (parseChar c h)) = rh_maxHeaderCount h \<and> rh_maxHeaderLineSize (snd (parseChar c h)) = rh_maxHeaderLineSize h
    \<and> rh_maxUriSize (snd (parseChar c h)) = rh_maxUriSize h"
proof -
  have "rh_maxHeaderCount (snd (commit_line h)) = rh_maxHeaderCount h \<and> rh_maxHeaderLineSize (snd (commit_line h)) = rh_maxHeaderLineSize h
    \<and> rh_maxUriSize (snd (commit_line h)) = rh_maxUriSize h"
    by (simp add: commit_line_def commitParsedHeaderPair_def store_header_pair_def Let_def split: option.split)
  moreover have "rh_maxHeaderCount (snd (finish_uri h)) = rh_maxHeaderCount h \<and> rh_maxHeaderLineSize (snd (finish_uri h)) = rh_maxHeaderLineSize h
    \<and> rh_maxUriSize (snd (finish_uri h)) = rh_maxUriSize h"
    by (simp add: finish_uri_def Let_def split: option.split prod.split)
  moreover have "rh_maxHeaderCount (snd (finish_version h)) = rh_maxHeaderCount h \<and> rh_maxHeaderLineSize (snd (finish_version h)) = rh_maxHeaderLineSize h
    \<and> rh_maxUriSize (snd (finish_version h)) = rh_maxUriSize h"
    by (simp add: finish_version_def Let_def)
  moreover have "rh_maxHeaderCount (snd (finish_key h)) = rh_maxHeaderCount h \<and> rh_maxHeaderLineSize (snd (finish_key h)) = rh_maxHeaderLineSize h
    \<and> rh_maxUriSize (snd (finish_key h)) = rh_maxUriSize h"
    by (simp add: finish_key_def)
  ultimately show ?thesis
    by (cases "rh_parseState h") (simp_all add: parseChar_def add_key_def add_value_def Let_def)
qed

lemma bulk_step_limited: "limited s h \<Longrightarrow> bulk_step c h = (v, h') \<Longrightarrow> limited s h'"
  using limits_kept [of c h] by (auto simp: limited_def bulk_step_def char_step_def add_key_def split: if_splits prod.splits)

section \<open>The body limit while reading\<close>

definition within :: "nat \<Rightarrow> HttpRequest \<Rightarrow> bool" where
  "within lim rq =
    (if isChunked (rq_header rq) then chunk_bounded lim (rq_chunkParser rq, rq_body rq) \<and> server_lookup (rh_headerPairs (rq_header rq)) cl_key = None
     else rq_contentLength rq \<le> lim \<and> length (rq_body rq) = rq_bodyParsed rq \<and> rq_bodyParsed rq \<le> rq_contentLength rq
       \<and> (\<exists>v. server_lookup (rh_headerPairs (rq_header rq)) cl_key = Some v \<and> parseSizeTStrict v = Some (rq_contentLength rq)))"

definition reading_request :: "HttpReaderSetting \<Rightarrow> HttpRequest \<Rightarrow> bool" where
  "reading_request s rq = (request_open rq \<and> limited s (rq_header rq)
    \<and> (rq_headerParsed rq \<longrightarrow> rh_parseState (rq_header rq) = Done \<and> (st_max_body_size s = 0 \<or> within (st_max_body_size s) rq)))"

lemma chunk_octet_bounded:
  assumes "lim \<noteq> 0" "chunk_bounded lim st" "chunk_octet lim c st = (v, st')"
  shows "chunk_bounded lim st'"
proof -
  have "snd (snd (chunk_turn lim [c] st)) = st'"
    using assms(3) by (cases "cp_phase (fst st)") (auto simp: chunk_turn_def chunk_octet_def split: prod.splits)
  then show ?thesis
    using chunk_turn_bounded [OF assms(1,2), of "[c]"] by simp
qed

lemma step_open: "request_open rq \<Longrightarrow> request_octet lim c rq = (More, rq') \<Longrightarrow> request_open rq'"
  and step_complete: "request_open rq \<Longrightarrow> request_octet lim c rq = (Finished, rq') \<Longrightarrow> isComplete rq'"
  using request_run_fromIOVec [of rq lim "[[c]]"] by (auto simp: request_run_def run_answer_def)

lemma comma_no_size: "0x2C \<in> set v \<Longrightarrow> parseSizeTStrict v = None"
proof -
  assume "0x2C \<in> set v"
  then have c: "0x2C \<in> set (trimAscii v)" by (rule set_trim_comma)
  have "digit_value 10 0x2C = None" by code_simp
  then have "takeWhile (\<lambda>c. digit_value 10 c \<noteq> None) (trimAscii v) \<noteq> trimAscii v"
    using c by (auto simp: takeWhile_eq_all_conv)
  then have "length (takeWhile (\<lambda>c. digit_value 10 c \<noteq> None) (trimAscii v)) \<noteq> length (trimAscii v)"
    by (metis append_Nil2 append_eq_append_conv takeWhile_dropWhile_id)
  then show ?thesis
    by (auto simp: parseSizeTStrict_def from_chars_size_def from_chars_unsigned_def Let_def)
qed

lemma digits_size: "parseSizeTStrict (to_digits 10 n) = Some m \<Longrightarrow> m = n"
proof -
  assume a: "parseSizeTStrict (to_digits 10 n) = Some m"
  have ok: "list_all (\<lambda>c. digit_value 10 c \<noteq> None) (to_digits 10 n)" "digits_value 10 (to_digits 10 n) = n"
    using to_digits_ok [of 10 n] by simp_all
  then have "\<forall>c \<in> set (to_digits 10 n). \<not> isspace c"
    using digit_not_space by (simp add: list_all_iff)
  then have trim: "trimAscii (to_digits 10 n) = to_digits 10 n"
    by (intro trimAscii_id) auto
  have tw: "takeWhile (\<lambda>c. digit_value 10 c \<noteq> None) (to_digits 10 n) = to_digits 10 n"
    using ok(1) by (simp add: list_all_iff)
  show ?thesis
    using a unfolding parseSizeTStrict_def from_chars_size_def from_chars_unsigned_def Let_def trim tw ok(2) by (simp split: if_splits)
qed

lemma check_lookup:
  assumes "hp_ok (rh_headerPairs (rq_header rq))" "rh_mode (rq_header rq) = ServerSide" "lim \<noteq> 0"
  shows "checkBodyLimitExceeded lim rq =
    (\<not> isChunked (rq_header rq) \<and> (\<exists>v n. server_lookup (rh_headerPairs (rq_header rq)) cl_key = Some v \<and> parseSizeTStrict v = Some n \<and> n > lim)
     \<or> length (rq_body rq) > lim)"
proof -
  have "parseSizeTStrict [] = None"
    by (simp add: parseSizeTStrict_def trimAscii_def)
  then show ?thesis
    using assms getValuePtr_server [OF assms(1,2)]
    by (auto simp: checkBodyLimitExceeded_def isChunked_def Let_def split: option.splits)
qed

lemma check_within:
  assumes "header_ok (rq_header rq)" "lim = 0 \<or> within lim rq"
  shows "\<not> checkBodyLimitExceeded lim rq"
proof (cases "lim = 0")
  case False
  then show ?thesis
    using assms by (auto simp: check_lookup header_ok_def within_def chunk_bounded_def split: if_splits)
qed (simp add: checkBodyLimitExceeded_def)

lemma finish_chunked_lookup:
  assumes "header_ok (rq_header rq)"
  shows "server_lookup (rh_headerPairs (rq_header (finish_chunked rq))) cl_key
    = Some (merged (server_lookup (rh_headerPairs (rq_header rq)) cl_key) (to_digits 10 (length (rq_body rq))))"
proof -
  let ?hs = "removeHeaderPairLoose (str ''transfer-encoding'') (rh_headerPairs (rq_header rq))"
  have rem: "hp_ok ?hs" "hp_mode ?hs = ServerSide" "server_lookup ?hs = (server_lookup (rh_headerPairs (rq_header rq)))(te_key := None)"
    using remove_te assms by (simp_all add: header_ok_def)
  have "matchCommonHeader cl_key = ContentLength"
    unfolding cl_key_def by code_simp
  then show ?thesis
    using addHeaderPair_server [OF rem(1,2), of "str ''content-length''"] rem(3) by (simp add: finish_chunked_def Let_def)
qed

lemma framed_within:
  assumes "header_ok (rq_header rq)" "rq_body rq = []" "rq_bodyParsed rq = 0" "at_line (rq_chunkParser rq)" "lim \<noteq> 0" "choose_body lim rq = (Inr kind, rq')"
  shows "kind \<noteq> NoBody \<Longrightarrow> within lim rq'" and "kind = NoBody \<Longrightarrow> \<not> checkBodyLimitExceeded lim rq'" and "rq_header rq' = rq_header rq"
proof -
  have ok: "hp_ok (rh_headerPairs (rq_header rq))" "rh_mode (rq_header rq) = ServerSide"
    using assms(1) by (simp_all add: header_ok_def)
  note look = header_values [OF assms(1)]
  have chunk: "chunk_bounded lim (rq_chunkParser rq, [])"
    using assms(4) by (simp add: chunk_bounded_def at_line_def)
  show "within lim rq'" if "kind \<noteq> NoBody"
  proof (cases kind)
    case ChunkedBody
    then have "isChunked (rq_header rq)" "rq' = rq"
      using choose_body_cases(1) [OF assms(1,6)] by simp_all
    moreover have "server_lookup (rh_headerPairs (rq_header rq)) cl_key = None"
      using assms(6) ChunkedBody unfolding choose_body_def look Let_def by (auto split: option.splits if_splits)
    ultimately show ?thesis
      using chunk assms(2) by (simp add: within_def)
  next
    case LengthBody
    then have "\<not> isChunked (rq_header rq)"
      using choose_body_cases(2) [OF assms(1,6)] by simp
    moreover have "\<exists>v n. server_lookup (rh_headerPairs (rq_header rq)) cl_key = Some v \<and> parseSizeTStrict v = Some n \<and> n \<le> lim
      \<and> rq' = rq\<lparr>rq_contentLength := n\<rparr>"
      using assms(5,6) LengthBody unfolding choose_body_def look Let_def by (auto split: option.splits if_splits)
    ultimately show ?thesis
      using assms(2,3) by (auto simp: within_def)
  qed (use that in simp)
  show "\<not> checkBodyLimitExceeded lim rq'" if "kind = NoBody"
  proof -
    have "rq_body rq' = [] \<and> rq_header rq' = rq_header rq \<and> (server_lookup (rh_headerPairs (rq_header rq)) cl_key = None
      \<or> server_lookup (rh_headerPairs (rq_header rq)) cl_key = Some [] \<or> (\<exists>v. server_lookup (rh_headerPairs (rq_header rq)) cl_key = Some v \<and> parseSizeTStrict v = Some 0))"
      using assms(6) that assms(2) unfolding choose_body_def look Let_def by (auto split: option.splits if_splits)
    moreover have "parseSizeTStrict [] = None"
      by (simp add: parseSizeTStrict_def trimAscii_def)
    ultimately show ?thesis
      using check_lookup [of rq' lim] ok assms(5) by auto
  qed
  show "rq_header rq' = rq_header rq"
    using assms(6) unfolding choose_body_def Let_def by (auto split: option.splits if_splits)
qed

lemma reading_step:
  assumes "reading_request s rq" "request_octet (st_max_body_size s) c rq = (More, rq')"
  shows "reading_request s rq'"
proof -
  let ?lim = "st_max_body_size s"
  have r: "request_open rq" "limited s (rq_header rq)" "header_ok (rq_header rq)"
    using assms(1) by (simp_all add: reading_request_def request_open_def)
  note op = step_open [OF r(1) assms(2)]
  show ?thesis
  proof (cases "rq_headerParsed rq")
    case False
    have f: "rh_parseState (rq_header rq) \<noteq> Done" "rq_body rq = []" "rq_bodyParsed rq = 0" "at_line (rq_chunkParser rq)"
      using r(1) False by (simp_all add: request_open_def)
    obtain v h where v: "bulk_step c (rq_header rq) = (v, h)" by (cases "bulk_step c (rq_header rq)")
    show ?thesis
    proof (cases v)
      case More
      then show ?thesis
        using assms(2) v False op bulk_step_limited [OF r(2) v] by (auto simp: request_octet_def reading_request_def)
    next
      case Finished
      let ?rq = "rq\<lparr>rq_header := h, rq_headerParsed := True\<rparr>"
      have h: "header_ok (rq_header ?rq)" "limited s h" "rh_parseState h = Done"
        using bulk_step_ok [OF r(3) v] bulk_step_limited [OF r(2) v] bulk_step_finished [of c "rq_header rq" h] v Finished f(1) by simp_all
      obtain kind where k: "choose_body ?lim ?rq = (Inr kind, rq')" "kind \<noteq> NoBody"
        using assms(2) v Finished False by (auto simp: request_octet_def split: prod.splits sum.splits body_kind.splits)
      have "rq_header rq' = h"
        using k(1) unfolding choose_body_def Let_def by (auto split: option.splits if_splits)
      then show ?thesis
        using framed_within(1) [OF h(1) _ _ _ _ k(1)] k(2) f h op by (auto simp: reading_request_def)
    next
      case (Failed e)
      then show ?thesis
        using assms(2) v False by (simp add: request_octet_def)
    qed
  next
    case True
    show ?thesis
    proof (cases "isChunked (rq_header rq)")
      case ch: True
      obtain v st where v: "chunk_octet ?lim c (rq_chunkParser rq, rq_body rq) = (v, st)"
        by (cases "chunk_octet ?lim c (rq_chunkParser rq, rq_body rq)")
      then have "v = More" "rq' = set_chunk st rq"
        using assms(2) True ch by (cases v; auto simp: request_octet_def)+
      then show ?thesis
        using assms(1) True ch op v chunk_octet_bounded [OF _ _ v] by (auto simp: reading_request_def within_def set_chunk_def)
    next
      case False
      then show ?thesis
        using assms True op r(1) by (auto simp: request_octet_def reading_request_def within_def request_open_def split: if_splits)
    qed
  qed
qed

lemma finished_step:
  assumes "reading_request s rq" "request_octet (st_max_body_size s) c rq = (Finished, rq')"
  shows "\<not> checkBodyLimitExceeded (st_max_body_size s) rq'" "rh_parseState (rq_header rq') = Done"
proof -
  let ?lim = "st_max_body_size s"
  have r: "request_open rq" "header_ok (rq_header rq)"
    using assms(1) by (simp_all add: reading_request_def request_open_def)
  have "\<not> checkBodyLimitExceeded ?lim rq' \<and> rh_parseState (rq_header rq') = Done"
  proof (cases "rq_headerParsed rq")
    case False
    have f: "rh_parseState (rq_header rq) \<noteq> Done" "rq_body rq = []" "rq_bodyParsed rq = 0" "at_line (rq_chunkParser rq)"
      using r(1) False by (simp_all add: request_open_def)
    obtain h where v: "bulk_step c (rq_header rq) = (Finished, h)"
      using assms(2) False by (auto simp: request_octet_def split: prod.splits verdict.splits)
    let ?rq = "rq\<lparr>rq_header := h, rq_headerParsed := True\<rparr>"
    have h: "header_ok (rq_header ?rq)" "rh_parseState h = Done"
      using bulk_step_ok [OF r(2) v] bulk_step_finished [OF v f(1)] by simp_all
    have k: "choose_body ?lim ?rq = (Inr NoBody, rq')"
      using assms(2) v False by (auto simp: request_octet_def split: prod.splits sum.splits body_kind.splits)
    have "rq_header rq' = h"
      using k unfolding choose_body_def Let_def by (auto split: option.splits if_splits)
    then show ?thesis
      using framed_within(2) [OF h(1) _ _ _ _ k] f h by (cases "?lim = 0") (auto simp: checkBodyLimitExceeded_def)
  next
    case True
    have d: "rh_parseState (rq_header rq) = Done"
      using assms(1) True by (simp add: reading_request_def)
    show ?thesis
    proof (cases "isChunked (rq_header rq)")
      case ch: True
      obtain st where v: "chunk_octet ?lim c (rq_chunkParser rq, rq_body rq) = (Finished, st)" "rq' = finish_chunked (set_chunk st rq)"
        using assms(2) True ch by (auto simp: request_octet_def split: prod.splits verdict.splits)
      let ?rq = "set_chunk st rq"
      have ok: "header_ok (rq_header ?rq)" "rq_headerParsed ?rq" "rq_header ?rq = rq_header rq"
        using r(2) True by (simp_all add: set_chunk_def)
      note fin = finish_chunked_ok [OF ok(1,2)] finish_chunked_lookup [OF ok(1)]
      have "\<not> checkBodyLimitExceeded ?lim rq'"
      proof (cases "?lim = 0")
        case False
        then have w: "chunk_bounded ?lim st" "server_lookup (rh_headerPairs (rq_header rq)) cl_key = None"
          using assms(1) True ch chunk_octet_bounded [OF False _ v(1)] by (auto simp: reading_request_def within_def)
        have "length (rq_body rq') \<le> ?lim" "length (rq_body rq') = length (rq_body ?rq)"
          using w(1) v(2) by (auto simp: finish_chunked_def set_chunk_def chunk_bounded_def Let_def split: prod.splits)
        moreover have "n = length (rq_body ?rq)" if "parseSizeTStrict (to_digits 10 (length (rq_body ?rq))) = Some n" for n
          using digits_size [OF that] .
        ultimately show ?thesis
          using check_lookup [of rq' ?lim] fin v(2) w(2) ok(3) False by (fastforce simp: merged_def)
      qed (simp add: checkBodyLimitExceeded_def)
      then show ?thesis
        using v(2) d ok(3) by (simp add: finish_chunked_def Let_def)
    next
      case False
      then have rq': "rq' = rq\<lparr>rq_body := rq_body rq @ [c], rq_bodyParsed := rq_bodyParsed rq + 1\<rparr>" "rq_bodyParsed rq + 1 = rq_contentLength rq"
        using assms(2) True by (auto simp: request_octet_def split: if_splits)
      then have "?lim = 0 \<or> within ?lim rq'"
        using assms(1) True False by (auto simp: reading_request_def within_def)
      then show ?thesis
        using check_within [of rq' ?lim] r(2) rq' d by auto
    qed
  qed
  then show "\<not> checkBodyLimitExceeded ?lim rq'" "rh_parseState (rq_header rq') = Done" by simp_all
qed

section \<open>The content length of a header under construction\<close>

definition extends :: "bytes \<Rightarrow> bytes \<Rightarrow> bool" where
  "extends x y = (\<exists>u. y = x @ u \<and> (u = [] \<or> hd u = 0x2C))"

lemma extends_trans: "extends x y \<Longrightarrow> extends y z \<Longrightarrow> extends x z"
  unfolding extends_def by (metis append.assoc append.right_neutral append_self_conv2 hd_append2)

lemma pairs_kept:
  "\<not> (rh_parseState h \<in> {HeaderColon, HeaderSpace, HeaderValue} \<and> c = CR) \<Longrightarrow> rh_headerPairs (snd (parseChar c h)) = rh_headerPairs h"
  by (cases "rh_parseState h")
    (auto simp: parseChar_def finish_uri_def finish_version_def finish_key_def add_key_def add_value_def Let_def split: option.split prod.split)

lemma lookup_step:
  assumes "header_ok h" "bulk_step c h = (v, h')" "v = More \<or> v = Finished" "server_lookup (rh_headerPairs h) k = Some x"
  shows "\<exists>y. server_lookup (rh_headerPairs h') k = Some y \<and> extends x y"
proof (cases "rh_parseState h \<in> {HeaderColon, HeaderSpace, HeaderValue} \<and> c = CR")
  case True
  then have "code_answer (commit_line h) = (v, h')"
    using assms(2) by (auto simp: bulk_step_def step_defs)
  moreover have "fst (commit_line h) \<noteq> kIncomplete"
    by (simp add: commit_line_def commitParsedHeaderPair_def Let_def split: option.split)
  ultimately have "commit_line h = (kNoError, h')"
    using assms(3) by (cases "commit_line h") (auto simp: code_answer_def verdict_of_cases)
  then show ?thesis
    using commit_line_ok [OF assms(1), of h'] True assms(4) by (auto simp: merged_def extends_def str_def split: option.split)
next
  case False
  have "rh_headerPairs h' = rh_headerPairs h"
    using pairs_kept [OF False] assms(2) by (auto simp: bulk_step_def char_step_def add_key_def split: if_splits prod.splits)
  then show ?thesis
    using assms(4) by (simp add: extends_def)
qed

lemma lookup_run:
  "header_ok h \<Longrightarrow> octets_run bulk_step xs h = (v, n, h') \<Longrightarrow> v = More \<or> v = Finished \<Longrightarrow> server_lookup (rh_headerPairs h) k = Some x \<Longrightarrow>
    \<exists>y. server_lookup (rh_headerPairs h') k = Some y \<and> extends x y"
proof (induction xs arbitrary: h n x)
  case Nil
  then show ?case by (auto simp: extends_def)
next
  case (Cons c cs)
  obtain w t where t: "bulk_step c h = (w, t)" by (cases "bulk_step c h")
  show ?case
  proof (cases w)
    case More
    obtain y where y: "server_lookup (rh_headerPairs t) k = Some y" "extends x y"
      using lookup_step [OF Cons.prems(1) t _ Cons.prems(4)] More by blast
    obtain m where "octets_run bulk_step cs t = (v, m, h')"
      using Cons.prems(2) t More by (auto split: prod.splits)
    then show ?thesis
      using Cons.IH [of t m y] bulk_step_ok [OF Cons.prems(1) t] More Cons.prems(3) y extends_trans by blast
  next
    case Finished
    then show ?thesis
      using lookup_step [OF Cons.prems(1) t _ Cons.prems(4)] Cons.prems(2) t by auto
  next
    case (Failed e)
    then show ?thesis
      using Cons.prems(2,3) t by auto
  qed
qed

lemma check_before_header:
  assumes "request_open rq" "\<not> rq_headerParsed rq" "request_run lim ys rq = (Finished, n, rq')"
  shows "\<not> checkBodyLimitExceeded lim rq"
proof (rule ccontr)
  assume "\<not> \<not> checkBodyLimitExceeded lim rq"
  then have "checkBodyLimitExceeded lim rq" by simp
  moreover have lim: "lim \<noteq> 0"
    using calculation by (cases "lim = 0") (simp_all add: checkBodyLimitExceeded_def)
  moreover have ok: "header_ok (rq_header rq)" "rq_body rq = []"
    using assms(1,2) by (simp_all add: request_open_def)
  ultimately obtain v m where v: "\<not> isChunked (rq_header rq)" "server_lookup (rh_headerPairs (rq_header rq)) cl_key = Some v"
    "parseSizeTStrict v = Some m" "m > lim"
    using check_lookup [of rq lim] by (auto simp: header_ok_def)
  obtain k h where run: "octets_run bulk_step ys (rq_header rq) = (Finished, k, h)" "\<forall>e rq''. choose_body lim (rq\<lparr>rq_header := h, rq_headerParsed := True\<rparr>) \<noteq> (Inl e, rq'')"
    using assms(3) header_octets [OF assms(2), of lim ys] by (auto simp: request_run_def split: prod.splits verdict.splits sum.splits)
  obtain y where y: "server_lookup (rh_headerPairs h) cl_key = Some y" "extends v y"
    using lookup_run [OF ok(1) run(1) _ v(2)] by blast
  have "header_ok h"
    using bulk_run_ok [OF ok(1) run(1)] by simp
  note look = header_values [OF this]
  have "y \<noteq> []" and size: "parseSizeTStrict y = None \<or> parseSizeTStrict y = Some m"
  proof -
    have "parseSizeTStrict [] = None"
      by (simp add: parseSizeTStrict_def trimAscii_def)
    then have "v \<noteq> []" using v(3) by auto
    then show "y \<noteq> []" using y(2) by (auto simp: extends_def)
    obtain u where u: "y = v @ u" "u = [] \<or> hd u = 0x2C"
      using y(2) by (auto simp: extends_def)
    then show "parseSizeTStrict y = None \<or> parseSizeTStrict y = Some m"
      using v(3) comma_no_size [of y] by (cases u) auto
  qed
  then have "\<exists>e rq''. choose_body lim (rq\<lparr>rq_header := h, rq_headerParsed := True\<rparr>) = (Inl e, rq'')"
    using y(1) v(4) lim by (auto simp: choose_body_def look Let_def split: option.split)
  then show False
    using run(2) by blast
qed

section \<open>The read machine on a stream\<close>

lemma run_reading:
  "reading_request s rq \<Longrightarrow> request_run (st_max_body_size s) xs rq = (More, n, rq') \<Longrightarrow> reading_request s rq'"
  unfolding request_run_def by (rule octets_run_keeps [where P = "reading_request s" and f = "request_octet (st_max_body_size s)"]) (auto intro: reading_step)

lemma run_finished:
  assumes "reading_request s rq" "request_run (st_max_body_size s) xs rq = (Finished, n, rq')"
  shows "\<not> checkBodyLimitExceeded (st_max_body_size s) rq' \<and> rh_parseState (rq_header rq') = Done \<and> isComplete rq' \<and> 0 < n"
  using assms unfolding request_run_def
proof (induction xs arbitrary: rq n)
  case (Cons c cs)
  obtain v t where v: "request_octet (st_max_body_size s) c rq = (v, t)" by (cases "request_octet (st_max_body_size s) c rq")
  show ?case
  proof (cases v)
    case More
    then show ?thesis
      using Cons.IH [of t] Cons.prems v reading_step [OF Cons.prems(1)] by (auto split: prod.splits)
  next
    case Finished
    have "request_open rq" using Cons.prems(1) by (simp add: reading_request_def)
    then show ?thesis
      using Cons.prems v Finished finished_step [OF Cons.prems(1), of c] step_complete by auto
  next
    case (Failed e)
    then show ?thesis
      using Cons.prems v by simp
  qed
qed simp

text \<open>How many octets of header are still to come, and that the limit on the header leaves room for them.\<close>

definition header_room :: "HttpReaderSetting \<Rightarrow> nat \<Rightarrow> bytes \<Rightarrow> bytes \<Rightarrow> HttpRequest \<Rightarrow> bool" where
  "header_room s received q stream rq =
    (rq_headerParsed rq \<or> (\<exists>k h. octets_run bulk_step (q @ stream) (rq_header rq) = (Finished, k, h) \<and> received + k \<le> st_max_header_size s + length q))"

lemma parsed_kept: "octets_run (request_octet lim) xs r = (More, m, r') \<Longrightarrow> rq_headerParsed r \<Longrightarrow> rq_headerParsed r'"
  by (rule octets_run_keeps [where P = rq_headerParsed and f = "request_octet lim"])
    (auto simp: request_octet_def set_chunk_def split: prod.splits verdict.splits if_splits)

lemma header_room_more:
  assumes "header_room s received q stream rq" "request_run lim q rq = (More, n, rq')" "\<not> rq_headerParsed rq'"
  shows "received < st_max_header_size s" and "stream = d @ stream' \<Longrightarrow> header_room s (received + length d) d stream' rq'"
proof -
  have np: "\<not> rq_headerParsed rq"
    using assms(2,3) parsed_kept unfolding request_run_def by blast
  obtain h1 where h1: "octets_run bulk_step q (rq_header rq) = (More, n, h1)" "rq' = rq\<lparr>rq_header := h1\<rparr>"
  proof -
    have parsed: "choose_body lim (rq\<lparr>rq_header := h, rq_headerParsed := True\<rparr>) = (r, rq1) \<Longrightarrow> rq_headerParsed rq1" for h r rq1
      unfolding choose_body_def Let_def by (auto split: option.splits if_splits)
    show ?thesis
      using that assms(2,3) header_octets [OF np, of lim q] parsed parsed_kept
      by (fastforce simp: request_run_def split: prod.splits verdict.splits sum.splits body_kind.splits)
  qed
  obtain k h where k: "octets_run bulk_step (q @ stream) (rq_header rq) = (Finished, k, h)" "received + k \<le> st_max_header_size s + length q"
    using assms(1) np by (auto simp: header_room_def)
  have n: "n = length q"
    using octets_run_more_length [OF h1(1)] .
  obtain j where j: "octets_run bulk_step stream h1 = (Finished, j, h)" "k = length q + j"
    using k(1) h1(1) n by (auto simp: octets_run_append split: prod.splits)
  have "0 < j"
    using j(1) by (cases stream) (auto split: prod.splits verdict.splits)
  then show "received < st_max_header_size s"
    using k(2) j(2) by simp
  show "header_room s (received + length d) d stream' rq'" if "stream = d @ stream'"
    using j k(2) h1(2) that by (auto simp: header_room_def)
qed

lemma concat_window: "concat (buildWindow iovs) = concat iovs"
  by (induction iovs) (auto simp: buildWindow_def)

text \<open>One pass over the buffered octets.\<close>

lemma parse_pass:
  assumes "rb_inv (rs_ring_buffer st)" "rb_contents (rs_ring_buffer st) = q" "q \<noteq> []" "rs_setting st = s" "limits_set s (rs_request st) = rq"
    and "reading_request s rq" "header_room s (rs_total_received st) q stream rq" "request_run (st_max_body_size s) (q @ stream) rq = (Finished, n, rq')"
  shows "case request_run (st_max_body_size s) q rq of
      (Finished, k, rq1) \<Rightarrow> k = n \<and> rq1 = rq' \<and> parseFromRingBuffer st = (True, st\<lparr>rs_request := rq', rs_ring_buffer := rb_consume n (rs_ring_buffer st)\<rparr>)
    | (More, k, rq1) \<Rightarrow> parseFromRingBuffer st = (False, st\<lparr>rs_request := rq1, rs_ring_buffer := rb_consume (length q) (rs_ring_buffer st)\<rparr>)
        \<and> reading_request s rq1 \<and> request_run (st_max_body_size s) stream rq1 = (Finished, n - length q, rq') \<and> length q \<le> n
    | (Failed e, _) \<Rightarrow> False"
proof -
  let ?lim = "st_max_body_size s" and ?iovs = "buildWindow (rb_getReadIovecs (rs_ring_buffer st))"
  have iovs: "concat ?iovs = q" "rb_getReadIovecs (rs_ring_buffer st) \<noteq> []"
    using rb.readIovecs [OF assms(1)] rb.readIovecs_empty [OF assms(1)] assms(2,3) by (simp_all add: concat_window)
  then have ne: "?iovs \<noteq> []" using assms(3) by auto
  have op: "request_open rq" using assms(6) by (simp add: reading_request_def)
  note call = request_run_fromIOVec [OF op, of ?lim ?iovs, unfolded iovs(1)]
  obtain v k rq1 where r: "request_run ?lim q rq = (v, k, rq1)" by (cases "request_run ?lim q rq")
  show ?thesis
  proof (cases v)
    case More
    have c: "request_fromIOVec ?iovs ?lim rq = ((kNoError, int (length q)), rq1)" "\<not> isComplete rq1" "request_open rq1"
      using call r More octets_run_more_length [OF r [unfolded request_run_def More]] by (auto simp: run_answer_def)
    have read: "reading_request s rq1"
      using run_reading [OF assms(6) r [unfolded More]] .
    obtain m where m: "request_run ?lim stream rq1 = (Finished, m, rq')" "n = length q + m"
      using assms(8) r More octets_run_more_length [OF r [unfolded request_run_def More]] unfolding request_run_def octets_run_append
      by (auto split: prod.splits)
    have check: "\<not> checkBodyLimitExceeded ?lim rq1"
    proof (cases "rq_headerParsed rq1")
      case True
      then show ?thesis
        using read check_within [of rq1 ?lim] by (auto simp: reading_request_def request_open_def)
    next
      case False
      then show ?thesis
        using check_before_header [OF c(3) False m(1)] by simp
    qed
    have size: "rh_parseState (rq_header rq1) = Done \<or> rs_total_received st < st_max_header_size s"
    proof (cases "rq_headerParsed rq1")
      case True
      then show ?thesis using read by (simp add: reading_request_def)
    next
      case False
      then show ?thesis
        using header_room_more(1) [OF assms(7) r [unfolded More]] by simp
    qed
    have "parseFromRingBuffer st = (False, st\<lparr>rs_request := rq1, rs_ring_buffer := rb_consume (length q) (rs_ring_buffer st)\<rparr>)"
      using iovs(2) ne c check size assms(3-5) by (auto simp: parseFromRingBuffer_def Let_def)
    then show ?thesis
      using r More read m by simp
  next
    case Finished
    have "request_run ?lim (q @ stream) rq = (Finished, k, rq1)"
      using r Finished unfolding request_run_def by (simp add: octets_run_finished_append)
    then have e: "k = n" "rq1 = rq'"
      using assms(8) by simp_all
    have c: "request_fromIOVec ?iovs ?lim rq = ((kNoError, int n), rq')" "isComplete rq'"
      using call r Finished e by (auto simp: run_answer_def)
    have "\<not> checkBodyLimitExceeded ?lim rq'" "rh_parseState (rq_header rq') = Done" "0 < n"
      using run_finished [OF assms(6,8)] by simp_all
    then have "parseFromRingBuffer st = (True, st\<lparr>rs_request := rq', rs_ring_buffer := rb_consume n (rs_ring_buffer st)\<rparr>)"
      using iovs(2) ne c assms(4,5) by (auto simp: parseFromRingBuffer_def Let_def)
    then show ?thesis
      using r Finished e by simp
  next
    case (Failed e)
    then show ?thesis
      using assms(8) r unfolding request_run_def octets_run_append by simp
  qed
qed

lemma wait_step:
  assumes "parseFromRingBuffer st = (False, st1)" "rb_inv (rs_ring_buffer st1)" "rb_contents (rs_ring_buffer st1) = []"
    and "d \<noteq> []" "length d \<le> rb_capacity (rs_ring_buffer st1)"
  shows "http_run_machine (Received d # os) \<lparr>hm_state = st, hm_result = None\<rparr> = http_run_machine os \<lparr>hm_state = http_onBytesReceived d st1, hm_result = None\<rparr>"
    and "rb_inv (rs_ring_buffer (http_onBytesReceived d st1))" "rb_contents (rs_ring_buffer (http_onBytesReceived d st1)) = d"
    and "rb_capacity (rs_ring_buffer (http_onBytesReceived d st1)) = rb_capacity (rs_ring_buffer st1)"
proof -
  have "rb_getWriteIovecs (rs_ring_buffer st1) \<noteq> []"
    using rb.writeIovecs_empty [OF assms(2)] assms(3-5) by (cases d) auto
  then have "http_advance \<lparr>hm_state = st, hm_result = None\<rparr> = (HttpWaitReadv, \<lparr>hm_state = st1, hm_result = None\<rparr>)"
    using assms(1) by (simp add: http_advance_def)
  then show "http_run_machine (Received d # os) \<lparr>hm_state = st, hm_result = None\<rparr> = http_run_machine os \<lparr>hm_state = http_onBytesReceived d st1, hm_result = None\<rparr>"
    using assms(4) by (subst http_run_machine.simps) (simp add: http_onRead_def)
  show "rb_inv (rs_ring_buffer (http_onBytesReceived d st1))" "rb_contents (rs_ring_buffer (http_onBytesReceived d st1)) = d"
    "rb_capacity (rs_ring_buffer (http_onBytesReceived d st1)) = rb_capacity (rs_ring_buffer st1)"
    using rb.receive [OF assms(2), of d] assms(3,5) by (simp_all add: http_onBytesReceived_def)
qed

lemma machine_stream:
  assumes "rb_inv (rs_ring_buffer st)" "rb_contents (rs_ring_buffer st) = q" "rs_setting st = s" "rs_http_error st = None"
    and "[] \<notin> set ds" "list_all (\<lambda>d. length d \<le> rb_capacity (rs_ring_buffer st)) ds"
    and "limits_set s (rs_request st) = rq" "reading_request s rq" "header_room s (rs_total_received st) q (concat ds) rq"
    and "request_run (st_max_body_size s) (q @ concat ds) rq = (Finished, n, rq')"
  shows "\<exists>left m. http_run_machine (map Received ds) \<lparr>hm_state = st, hm_result = None\<rparr> = (Some (Inr True), map Received left, m)
    \<and> rs_request (hm_state m) = rq' \<and> rb_inv (rs_ring_buffer (hm_state m))
    \<and> rb_contents (rs_ring_buffer (hm_state m)) @ concat left = drop n (q @ concat ds)"
  using assms
proof (induction ds arbitrary: st q rq n)
  case Nil
  have q: "q \<noteq> []"
    using Nil.prems(10) by (auto simp: request_run_def)
  have parse: "parseFromRingBuffer st = (True, st\<lparr>rs_request := rq', rs_ring_buffer := rb_consume n (rs_ring_buffer st)\<rparr>)"
    using parse_pass [OF Nil.prems(1,2) q Nil.prems(3,7,8,9), of n rq'] Nil.prems(10) by simp
  show ?case
    using Nil.prems(2,4) rb.consume [OF Nil.prems(1), of n]
    by (intro exI [of _ "[]"]) (simp add: http_run_machine.simps http_advance_def parse complete_with_def take_http_result_def)
next
  case (Cons d ds)
  have next_read: ?case if p: "parseFromRingBuffer st = (False, st1)" "rb_inv (rs_ring_buffer st1)" "rb_contents (rs_ring_buffer st1) = []"
      "rs_setting st1 = s" "rs_http_error st1 = None" "rb_capacity (rs_ring_buffer st1) = rb_capacity (rs_ring_buffer st)"
      "rs_total_received st1 = rs_total_received st" "limits_set s (rs_request st1) = rq1" "reading_request s rq1"
      "header_room s (rs_total_received st + length d) d (concat ds) rq1"
      "request_run (st_max_body_size s) (concat (d # ds)) rq1 = (Finished, n - length q, rq')" "length q \<le> n" for st1 rq1
  proof -
    have d: "d \<noteq> []" "length d \<le> rb_capacity (rs_ring_buffer st1)"
      using Cons.prems(5,6) p(6) by auto
    note w = wait_step [OF p(1-3) d]
    let ?st = "http_onBytesReceived d st1"
    have f: "rs_setting ?st = s" "rs_http_error ?st = None" "limits_set s (rs_request ?st) = rq1" "rs_total_received ?st = rs_total_received st + length d"
      using p by (simp_all add: http_onBytesReceived_def)
    obtain left m where "http_run_machine (map Received ds) \<lparr>hm_state = ?st, hm_result = None\<rparr> = (Some (Inr True), map Received left, m)"
      "rs_request (hm_state m) = rq'" "rb_inv (rs_ring_buffer (hm_state m))"
      "rb_contents (rs_ring_buffer (hm_state m)) @ concat left = drop (n - length q) (d @ concat ds)"
      using Cons.IH [OF w(2,3) f(1,2) _ _ f(3) p(9)] p(10,11) f(4) Cons.prems(5,6) w(4) p(6) by auto
    then show ?thesis
      using w(1) [of "map Received ds"] p(12) by (intro exI [of _ left] exI [of _ m]) simp
  qed
  show ?case
  proof (cases "q = []")
    case True
    have "rb_getReadIovecs (rs_ring_buffer st) = []"
      using rb.readIovecs_empty [OF Cons.prems(1)] Cons.prems(2) True by simp
    then have "parseFromRingBuffer st = (False, st)"
      by (simp add: parseFromRingBuffer_def)
    moreover have "header_room s (rs_total_received st + length d) d (concat ds) rq"
      using Cons.prems(9) True by (auto simp: header_room_def)
    ultimately show ?thesis
      using next_read [of st rq] Cons.prems True by simp
  next
    case False
    obtain v k rq1 where r: "request_run (st_max_body_size s) q rq = (v, k, rq1)" by (cases "request_run (st_max_body_size s) q rq")
    note pass = parse_pass [OF Cons.prems(1,2) False Cons.prems(3,7,8,9,10), unfolded r]
    show ?thesis
    proof (cases v)
      case More
      let ?st = "st\<lparr>rs_request := rq1, rs_ring_buffer := rb_consume (length q) (rs_ring_buffer st)\<rparr>"
      have p: "parseFromRingBuffer st = (False, ?st)" "reading_request s rq1" "request_run (st_max_body_size s) (concat (d # ds)) rq1 = (Finished, n - length q, rq')"
        "length q \<le> n"
        using pass More by simp_all
      have "header_room s (rs_total_received st + length d) d (concat ds) rq1"
        using header_room_more(2) [OF Cons.prems(9) r [unfolded More]] by (cases "rq_headerParsed rq1") (auto simp: header_room_def)
      then show ?thesis
        using next_read [OF p(1), of rq1] p(2-4) rb.consume [OF Cons.prems(1), of "length q"] Cons.prems(2-4) limits_set_limited [of s rq1]
        by (simp add: reading_request_def)
    next
      case Finished
      then have parse: "parseFromRingBuffer st = (True, st\<lparr>rs_request := rq', rs_ring_buffer := rb_consume n (rs_ring_buffer st)\<rparr>)" "k = n"
        using pass by simp_all
      have "n \<le> length q"
        using octets_run_length [OF r [unfolded request_run_def]] parse(2) by simp
      then show ?thesis
        using Cons.prems(2,4) rb.consume [OF Cons.prems(1), of n]
        by (intro exI [of _ "d # ds"]) (simp add: http_run_machine.simps http_advance_def parse complete_with_def take_http_result_def)
    next
      case (Failed e)
      then show ?thesis using pass by simp
    qed
  qed
qed

text \<open>
  C10. A connection reads requests one after the other, whatever the receives bring. The ring buffer may hold octets left over from before; the receives bring
  non-empty pieces that each fit the ring. If the octets, left-overs first, complete a request for the octet machine under the limits of the setting and
  its header fits the header limit, the read machine completes with success with exactly that request, and the octets of the next
  request stay, in order, in the ring and in the receives that were not asked for.
\<close>

theorem http_reader_any_receives:
  assumes "rb_inv ring" "request_open rq" "\<not> rq_headerParsed rq" "[] \<notin> set ds" "list_all (\<lambda>d. length d \<le> rb_capacity ring) ds"
    and "octets_run bulk_step (rb_contents ring @ concat ds) (rq_header (limits_set s rq)) = (Finished, k, h)" "k \<le> st_max_header_size s"
    and "request_run (st_max_body_size s) (rb_contents ring @ concat ds) (limits_set s rq) = (Finished, n, rq')"
  shows "\<exists>left m. http_run_machine (map Received ds) \<lparr>hm_state = new_read_state ring s rq, hm_result = None\<rparr> = (Some (Inr True), map Received left, m)
    \<and> rs_request (hm_state m) = rq' \<and> rb_inv (rs_ring_buffer (hm_state m))
    \<and> rb_contents (rs_ring_buffer (hm_state m)) @ concat left = drop n (rb_contents ring @ concat ds)"
proof -
  let ?st = "new_read_state ring s rq" and ?rq = "limits_set s rq"
  have st: "rs_ring_buffer ?st = ring" "rs_setting ?st = s" "rs_http_error ?st = None" "rs_request ?st = rq" "rs_total_received ?st = 0"
    by (simp_all add: new_read_state_def)
  have "reading_request s ?rq"
    using assms(2,3) by (simp add: reading_request_def request_open_def limits_set_def setParseLimits_def limited_def header_ok_def)
  moreover have "header_room s 0 (rb_contents ring) (concat ds) ?rq"
    using assms(6,7) by (auto simp: header_room_def)
  ultimately show ?thesis
    using machine_stream [of ?st "rb_contents ring" s ds ?rq n rq'] assms(1,4,5,8) st by simp
qed

definition example_ring :: RingBuffer where
  "example_ring = makeImpl 4096 (\<lambda>_. None) Vector 16"

definition example_setting :: HttpReaderSetting where
  "example_setting = \<lparr>st_max_header_size = 64, st_max_body_size = 10, st_max_header_count = 5, st_max_header_line_size = 40, st_max_uri_size = 20\<rparr>"

theorem http_reader_any_receives_witness:
  "\<exists>left m. http_run_machine (map Received [str ''GET /x HT'', str ''TP/1.1'' @ [CR, LF], [CR, LF] @ str ''GE'', str ''T /''])
      \<lparr>hm_state = new_read_state example_ring example_setting new_request, hm_result = None\<rparr> = (Some (Inr True), map Received left, m)
    \<and> rh_uri (rq_header (rs_request (hm_state m))) = str ''/x''
    \<and> rb_contents (rs_ring_buffer (hm_state m)) @ concat left = str ''GET /''"
proof -
  let ?ds = "[str ''GET /x HT'', str ''TP/1.1'' @ [CR, LF], [CR, LF] @ str ''GE'', str ''T /'']"
  let ?rq = "limits_set example_setting new_request"
  have ring: "rb_inv example_ring" "rb_contents example_ring = []" "rb_capacity example_ring = 16"
    using makeImpl_queue [of 4096 "\<lambda>_. None" Vector 16] by (simp_all add: example_ring_def) (simp add: makeImpl_def new_ring_inv)
  have rq: "request_open new_request" "\<not> rq_headerParsed new_request"
    using new_request_open [of 0 0 0] by (simp_all add: setParseLimits_def) (simp_all add: new_request_def new_request_header_def)
  define r where "r = request_run 10 (concat ?ds) ?rq"
  define b where "b = octets_run bulk_step (concat ?ds) (rq_header ?rq)"
  have "fst r = Finished" "fst (snd r) = 19" "rh_uri (rq_header (snd (snd r))) = str ''/x''" "drop 19 (concat ?ds) = str ''GET /''"
    "fst b = Finished" "fst (snd b) = 19" "list_all (\<lambda>d. length d \<le> 16) ?ds" "[] \<notin> set ?ds"
    unfolding r_def b_def by code_simp+
  note ev = this
  have "r = (Finished, 19, snd (snd r))" "b = (Finished, 19, snd (snd b))"
    using ev by (simp_all add: prod_eq_iff)
  then show ?thesis
    using http_reader_any_receives [of example_ring new_request ?ds example_setting 19 "snd (snd b)" 19 "snd (snd r)"] ring rq ev
    by (fastforce simp: example_setting_def r_def b_def)
qed

end
