(* ===== verification/Chan_Base.thy ===== *)
theory Chan_Base
  imports Galay_Prelude
begin

text \<open>
  What the channels of galay-kernel share: capacities rounded up to a power of two, ring indices
  \<open>position & mask\<close> at machine width as residues of unbounded positions, and the fact that a window of
  \<open>capacity\<close> consecutive positions has no two positions in the same slot.
\<close>

named_theorems chan_simps \<open>machine arithmetic of ring positions\<close>

section \<open>Capacities\<close>

text \<open>\<open>std::bit_ceil\<close>: the least power of two that is not smaller.\<close>

function bit_ceil_from :: "nat \<Rightarrow> nat \<Rightarrow> nat" where
  "bit_ceil_from p n = (if p = 0 \<or> n \<le> p then p else bit_ceil_from (2 * p) n)"
  by pat_completeness auto
termination by (relation "measure (\<lambda>(p, n). n - p)") auto

declare bit_ceil_from.simps [simp del]

definition bit_ceil :: "nat \<Rightarrow> nat" where
  "bit_ceil n = bit_ceil_from 1 n"

lemma bit_ceil_from_power:
  "p = 2 ^ j \<Longrightarrow> j \<le> k \<Longrightarrow> n \<le> 2 ^ k \<Longrightarrow>
   \<exists>i. bit_ceil_from p n = 2 ^ i \<and> j \<le> i \<and> i \<le> k \<and> n \<le> 2 ^ i \<and> (i = j \<or> 2 ^ (i - 1) < n)"
proof (induction p n arbitrary: j rule: bit_ceil_from.induct)
  case (1 p n)
  show ?case
  proof (cases "n \<le> p")
    case True
    then show ?thesis using 1(2,3) by (intro exI [of _ j]) (simp add: bit_ceil_from.simps)
  next
    case False
    have "j < k"
    proof (rule ccontr)
      assume "\<not> j < k"
      then have "k = j" using 1(3) by simp
      then show False using False 1(2,4) by simp
    qed
    then obtain i where i: "bit_ceil_from (2 * p) n = 2 ^ i" "Suc j \<le> i" "i \<le> k" "n \<le> 2 ^ i"
      "i = Suc j \<or> 2 ^ (i - 1) < n"
      using 1(1) [of "Suc j"] False 1(2,4) by auto
    then have "2 ^ (i - 1) < n"
      using False 1(2) by auto
    then show ?thesis
      using i False 1(2) by (intro exI [of _ i]) (simp add: bit_ceil_from.simps)
  qed
qed

lemma bit_ceil_power:
  assumes "1 < n" "n \<le> 2 ^ k"
  shows "\<exists>i. bit_ceil n = 2 ^ i \<and> 0 < i \<and> i \<le> k \<and> n \<le> 2 ^ i \<and> 2 ^ (i - 1) < n"
proof -
  obtain i where i: "bit_ceil n = 2 ^ i" "i \<le> k" "n \<le> 2 ^ i" "i = 0 \<or> 2 ^ (i - 1) < n"
    using bit_ceil_from_power [of 1 0 k n] assms unfolding bit_ceil_def by auto
  then have "0 < i"
    using assms(1) by (cases i) auto
  then show ?thesis using i by auto
qed

section \<open>Ring positions\<close>

text \<open>Masking with a power of two less one is the residue.\<close>

lemma unat_and_mask_mod:
  assumes "unat (c :: 'a::len word) = 2 ^ k"
  shows "unat (w AND (c - 1)) = unat w mod 2 ^ k"
proof -
  have k: "k < LENGTH('a)"
    using assms unsigned_less [of c, where 'a = nat] by simp
  have "c = of_nat (2 ^ k)"
    using assms by (metis of_nat_unat ucast_id)
  then have "c - 1 = mask k"
    by (simp add: mask_eq_exp_minus_1)
  then have "w AND (c - 1) = take_bit k w"
    by (simp add: take_bit_eq_mask)
  then have "unat (w AND (c - 1)) = take_bit k (unat w)"
    using k by (simp add: unsigned_take_bit_eq)
  then show ?thesis
    by (simp add: take_bit_eq_mod)
qed

text \<open>Two positions of one window of length \<open>c\<close> that share a slot are the same position.\<close>

lemma window_inj:
  fixes p q c :: nat
  assumes "p mod c = q mod c" "p < q + c" "q < p + c"
  shows "p = q"
proof -
  have "p = q" if "p mod c = q mod c" "p \<le> q" "q < p + c" for p q :: nat
  proof -
    have "c dvd q - p"
      using that by (metis mod_eq_dvd_iff_nat)
    moreover have "q - p < c" using that by linarith
    ultimately have "q - p = 0"
      using nat_dvd_not_less by blast
    then show ?thesis using that by simp
  qed
  then show ?thesis using assms by (metis nat_le_linear)
qed

lemma unat_plus_one [chan_simps]: "unat w + 1 < 2 ^ LENGTH('a) \<Longrightarrow> unat (w + 1) = unat w + 1" for w :: "'a::len word"
  by (simp add: unat_word_ariths)

end
