(* ===== verification/Chan_Mpmc.thy ===== *)
theory Chan_Mpmc
  imports Chan_Base
begin

text \<open>
  The lock-free ring of \<^verbatim>\<open>galay-kernel/concurrency/mpmc/bounded_channel.h\<close>: any number of producers and
  consumers run \<open>ringEnqueueResult\<close>, \<open>ringDequeueTo\<close>, \<open>close\<close> and \<open>isClosedAndDrained\<close>, interleaved after
  every access to shared memory. A thread is the program point it has reached with its local variables. A
  slot's storage is \<^term>\<open>None\<close> where no object lives; constructing over a live object or reading a dead
  one leads to the program point \<open>Broken\<close>. Accesses are sequentially consistent; a weak compare-exchange may
  fail without a reason. The invariant relates every slot to the unbounded sequence of positions.
\<close>

section \<open>The ring\<close>

definition kTailClosedBit :: u64 where
  "kTailClosedBit = push_bit 63 1"

definition kTailPositionMask :: u64 where
  "kTailPositionMask = kTailClosedBit - 1"

definition kMaxRingCapacity :: nat where
  "kMaxRingCapacity = 2 ^ 62"

definition normalizeCapacity :: "nat \<Rightarrow> nat" where
  "normalizeCapacity capacity =
    (if capacity \<le> 2 then 2 else if capacity \<ge> kMaxRingCapacity then kMaxRingCapacity else bit_ceil capacity)"

record 'v MSlot =
  ms_storage :: "'v option"
  ms_sequence :: u64

record 'v MRing =
  mr_tail :: u64
  mr_head :: u64
  mr_capacity :: u64
  mr_slots :: "'v MSlot list"

definition new_ring :: "nat \<Rightarrow> 'v MRing" where
  "new_ring capacity =
    (let c = normalizeCapacity capacity in
     \<lparr>mr_tail = 0, mr_head = 0, mr_capacity = of_nat c,
      mr_slots = map (\<lambda>i. \<lparr>ms_storage = None, ms_sequence = of_nat i\<rparr>) [0..<c]\<rparr>)"

definition slot_index :: "'v MRing \<Rightarrow> u64 \<Rightarrow> nat" where
  "slot_index r position = unat (position AND (mr_capacity r - 1))"

definition slot_of :: "'v MRing \<Rightarrow> u64 \<Rightarrow> 'v MSlot" where
  "slot_of r position = mr_slots r ! slot_index r position"

definition set_slot :: "u64 \<Rightarrow> 'v MSlot \<Rightarrow> 'v MRing \<Rightarrow> 'v MRing" where
  "set_slot position sl r = r\<lparr>mr_slots := (mr_slots r)[slot_index r position := sl]\<rparr>"

definition tail_closed :: "u64 \<Rightarrow> bool" where
  "tail_closed tail = (tail AND kTailClosedBit \<noteq> 0)"

datatype RingEnqueueResult = kSent | kFull | kClosed | kClosedAndNotify

section \<open>Threads\<close>

text \<open>
  The program points of the four operations. Local variables: the cursor last read, the value on its way, and the
  result of a finished operation.
\<close>

datatype 'v pc =
    Idle
  | EnqLoad 'v
  | EnqLoop u64 'v
  | EnqClaim u64 'v
  | EnqConstruct u64 'v
  | EnqPublish u64
  | EnqDone RingEnqueueResult
  | DeqLoad
  | DeqLoop u64
  | DeqClaim u64
  | DeqTake u64
  | DeqRelease u64 'v
  | DeqDone "'v option"
  | CloseOr
  | CloseDone bool
  | DrainTail
  | DrainHead u64
  | DrainDone bool
  | Broken

fun ringEnqueue_step :: "bool \<Rightarrow> 'v pc \<Rightarrow> 'v MRing \<Rightarrow> 'v pc \<times> 'v MRing" where
  "ringEnqueue_step weak (EnqLoad v) r = (EnqLoop (mr_tail r) v, r)"
| "ringEnqueue_step weak (EnqLoop tail v) r =
    (if tail_closed tail then (EnqDone kClosed, r)
     else if tail = kTailPositionMask then
       (if mr_tail r = tail \<and> \<not> weak
        then (EnqDone kClosedAndNotify, r\<lparr>mr_tail := tail OR kTailClosedBit\<rparr>)
        else (EnqLoop (mr_tail r) v, r))
     else
       let difference = sint (ms_sequence (slot_of r tail) - tail) in
       if difference = 0 then (EnqClaim tail v, r)
       else if difference < 0 then (EnqDone kFull, r)
       else (EnqLoad v, r))"
| "ringEnqueue_step weak (EnqClaim tail v) r =
    (if mr_tail r = tail \<and> \<not> weak then (EnqConstruct tail v, r\<lparr>mr_tail := tail + 1\<rparr>)
     else (EnqLoop (mr_tail r) v, r))"
| "ringEnqueue_step weak (EnqConstruct position v) r =
    (case ms_storage (slot_of r position) of
       Some _ \<Rightarrow> (Broken, r)
     | None \<Rightarrow> (EnqPublish position, set_slot position ((slot_of r position)\<lparr>ms_storage := Some v\<rparr>) r))"
| "ringEnqueue_step weak (EnqPublish position) r =
    (EnqDone kSent, set_slot position ((slot_of r position)\<lparr>ms_sequence := position + 1\<rparr>) r)"
| "ringEnqueue_step weak p r = (p, r)"

fun ringDequeue_step :: "bool \<Rightarrow> 'v pc \<Rightarrow> 'v MRing \<Rightarrow> 'v pc \<times> 'v MRing" where
  "ringDequeue_step weak DeqLoad r = (DeqLoop (mr_head r), r)"
| "ringDequeue_step weak (DeqLoop position) r =
    (let difference = sint (ms_sequence (slot_of r position) - (position + 1)) in
     if difference = 0 then (DeqClaim position, r)
     else if difference < 0 then (DeqDone None, r)
     else (DeqLoad, r))"
| "ringDequeue_step weak (DeqClaim position) r =
    (if mr_head r = position \<and> \<not> weak then (DeqTake position, r\<lparr>mr_head := position + 1\<rparr>)
     else (DeqLoop (mr_head r), r))"
| "ringDequeue_step weak (DeqTake position) r =
    (case ms_storage (slot_of r position) of
       None \<Rightarrow> (Broken, r)
     | Some v \<Rightarrow> (DeqRelease position v, set_slot position ((slot_of r position)\<lparr>ms_storage := None\<rparr>) r))"
| "ringDequeue_step weak (DeqRelease position v) r =
    (DeqDone (Some v), set_slot position ((slot_of r position)\<lparr>ms_sequence := position + mr_capacity r\<rparr>) r)"
| "ringDequeue_step weak p r = (p, r)"

text \<open>\<open>close\<close> returns early when the bit was set before; the result tells.\<close>

fun close_step :: "'v pc \<Rightarrow> 'v MRing \<Rightarrow> 'v pc \<times> 'v MRing" where
  "close_step CloseOr r = (CloseDone (tail_closed (mr_tail r)), r\<lparr>mr_tail := mr_tail r OR kTailClosedBit\<rparr>)"
| "close_step p r = (p, r)"

fun isClosedAndDrained_step :: "'v pc \<Rightarrow> 'v MRing \<Rightarrow> 'v pc \<times> 'v MRing" where
  "isClosedAndDrained_step DrainTail r =
    (if tail_closed (mr_tail r) then (DrainHead (mr_tail r), r) else (DrainDone False, r))"
| "isClosedAndDrained_step (DrainHead tail) r = (DrainDone (tail AND kTailPositionMask = mr_head r), r)"
| "isClosedAndDrained_step p r = (p, r)"

fun thread_step :: "bool \<Rightarrow> 'v pc \<Rightarrow> 'v MRing \<Rightarrow> 'v pc \<times> 'v MRing" where
  "thread_step weak CloseOr r = close_step CloseOr r"
| "thread_step weak DrainTail r = isClosedAndDrained_step DrainTail r"
| "thread_step weak (DrainHead t) r = isClosedAndDrained_step (DrainHead t) r"
| "thread_step weak DeqLoad r = ringDequeue_step weak DeqLoad r"
| "thread_step weak (DeqLoop p) r = ringDequeue_step weak (DeqLoop p) r"
| "thread_step weak (DeqClaim p) r = ringDequeue_step weak (DeqClaim p) r"
| "thread_step weak (DeqTake p) r = ringDequeue_step weak (DeqTake p) r"
| "thread_step weak (DeqRelease p v) r = ringDequeue_step weak (DeqRelease p v) r"
| "thread_step weak p r = ringEnqueue_step weak p r"

section \<open>Runs\<close>

text \<open>
  A run interleaves threads. Beside the ring it keeps a record of what happened: \<open>ch_sent\<close>, the producer and the
  value of every successful reservation, in the order of the reservations; \<open>ch_got\<close>, the consumer, position
  and value of every value taken.
\<close>

record 'v MChannel =
  ch_ring :: "'v MRing"
  ch_pcs :: "nat \<Rightarrow> 'v pc"
  ch_sent :: "(nat \<times> 'v) list"
  ch_got :: "(nat \<times> nat \<times> 'v) list"

datatype 'v MCall = CallSend 'v | CallRecv | CallClose | CallDrained

fun call_start :: "'v MCall \<Rightarrow> 'v pc" where
  "call_start (CallSend v) = EnqLoad v"
| "call_start CallRecv = DeqLoad"
| "call_start CallClose = CloseOr"
| "call_start CallDrained = DrainTail"

fun finished :: "'v pc \<Rightarrow> bool" where
  "finished Idle = True"
| "finished (EnqDone _) = True"
| "finished (DeqDone _) = True"
| "finished (CloseDone _) = True"
| "finished (DrainDone _) = True"
| "finished _ = False"

datatype 'v MEvent = Call nat "'v MCall" | Step nat bool

fun event :: "'v MEvent \<Rightarrow> 'v MChannel \<Rightarrow> 'v MChannel" where
  "event (Call t c) s = (if finished (ch_pcs s t) then s\<lparr>ch_pcs := (ch_pcs s)(t := call_start c)\<rparr> else s)"
| "event (Step t weak) s =
    (let (pc', r') = thread_step weak (ch_pcs s t) (ch_ring s) in
     s\<lparr>ch_ring := r', ch_pcs := (ch_pcs s)(t := pc'),
       ch_sent := (case (ch_pcs s t, pc') of
          (EnqClaim _ v, EnqConstruct _ _) \<Rightarrow> ch_sent s @ [(t, v)] | _ \<Rightarrow> ch_sent s),
       ch_got := (case (ch_pcs s t, pc') of
          (DeqTake p, DeqRelease _ v) \<Rightarrow> ch_got s @ [(t, unat p, v)] | _ \<Rightarrow> ch_got s)\<rparr>)"

definition new_channel :: "nat \<Rightarrow> 'v MChannel" where
  "new_channel capacity = \<lparr>ch_ring = new_ring capacity, ch_pcs = (\<lambda>_. Idle), ch_sent = [], ch_got = []\<rparr>"

inductive mpmc_reachable :: "nat \<Rightarrow> 'v MChannel \<Rightarrow> bool" for capacity where
  start: "mpmc_reachable capacity (new_channel capacity)"
| event: "mpmc_reachable capacity s \<Longrightarrow> mpmc_reachable capacity (event e s)"

lemma mpmc_reachable_fold: "mpmc_reachable c s \<Longrightarrow> mpmc_reachable c (fold event es s)"
  by (induction es arbitrary: s) (auto intro: mpmc_reachable.event)

section \<open>Positions as natural numbers\<close>

definition cap :: "'v MRing \<Rightarrow> nat" where
  "cap r = unat (mr_capacity r)"

definition tail_pos :: "'v MRing \<Rightarrow> nat" where
  "tail_pos r = unat (mr_tail r AND kTailPositionMask)"

definition head_pos :: "'v MRing \<Rightarrow> nat" where
  "head_pos r = unat (mr_head r)"

definition slot_seq :: "'v MRing \<Rightarrow> nat \<Rightarrow> nat" where
  "slot_seq r q = unat (ms_sequence (mr_slots r ! (q mod cap r)))"

definition slot_val :: "'v MRing \<Rightarrow> nat \<Rightarrow> 'v option" where
  "slot_val r q = ms_storage (mr_slots r ! (q mod cap r))"

definition mring_ok :: "'v MRing \<Rightarrow> bool" where
  "mring_ok r = (\<exists>k. 0 < k \<and> k \<le> 62 \<and> cap r = 2 ^ k \<and> length (mr_slots r) = 2 ^ k)"

lemma kTailPositionMask_mask: "kTailPositionMask = mask 63"
  by (simp add: kTailPositionMask_def kTailClosedBit_def mask_eq_exp_minus_1)

lemma tail_position: "unat (w AND kTailPositionMask) = unat w mod 2 ^ 63"
  using unat_and_mask_mod [of "2 ^ 63 :: u64" 63 w]
  by (simp add: kTailPositionMask_mask mask_eq_exp_minus_1)

lemma kTailClosedBit_exp: "kTailClosedBit = 2 ^ 63"
  by (simp add: kTailClosedBit_def)

lemma bit_kTailClosedBit: "bit kTailClosedBit n \<longleftrightarrow> n = 63"
  unfolding kTailClosedBit_exp bit_exp_iff by (auto simp: possible_bit_def)

lemma tail_closed_bit: "tail_closed w \<longleftrightarrow> bit w 63"
proof (cases "bit w 63")
  case True
  then have "bit (w AND kTailClosedBit) 63"
    by (simp add: bit_and_iff bit_kTailClosedBit)
  then show ?thesis using True by (auto simp: tail_closed_def)
next
  case False
  have "w AND kTailClosedBit = 0"
    by (rule bit_word_eqI) (use False in \<open>auto simp: bit_and_iff bit_kTailClosedBit\<close>)
  then show ?thesis using False by (simp add: tail_closed_def)
qed

lemma tail_closed_unat: "tail_closed w \<longleftrightarrow> 2 ^ 63 \<le> unat w"
proof -
  have "bit w 63 \<longleftrightarrow> odd (unat w div 2 ^ 63)"
    using bit_unsigned_iff [of w 63, where 'a = nat] unfolding bit_iff_odd by auto
  moreover have "unat w div 2 ^ 63 < 2"
    using unsigned_less [of w, where 'a = nat] by (simp add: less_mult_imp_div_less)
  moreover have "unat w div 2 ^ 63 = 0 \<longleftrightarrow> \<not> 2 ^ 63 \<le> unat w"
    by (simp add: div_eq_0_iff not_le)
  ultimately show ?thesis
    unfolding tail_closed_bit by (metis even_zero less_2_cases odd_one One_nat_def)
qed

lemma open_position: "\<not> tail_closed w \<Longrightarrow> unat (w AND kTailPositionMask) = unat w"
  by (simp add: tail_position tail_closed_unat)

lemma tail_pos_less: "tail_pos r < 2 ^ 63"
  by (simp add: tail_pos_def tail_position)

lemma close_position: "(w OR kTailClosedBit) AND kTailPositionMask = w AND kTailPositionMask"
  by (rule bit_word_eqI) (auto simp: kTailPositionMask_mask bit_kTailClosedBit bit_simps)

lemma close_closed: "tail_closed (w OR kTailClosedBit)"
  by (simp add: tail_closed_bit bit_kTailClosedBit bit_simps)

lemma close_idem: "tail_closed w \<Longrightarrow> w OR kTailClosedBit = w"
  by (rule bit_word_eqI) (auto simp: bit_or_iff bit_kTailClosedBit tail_closed_bit)

lemma next_open:
  assumes "\<not> tail_closed w" "w \<noteq> kTailPositionMask"
  shows "\<not> tail_closed (w + 1)" "unat (w + 1) = unat w + 1"
proof -
  have "unat w \<noteq> unat kTailPositionMask"
    using assms(2) by (simp add: word_unat_eq_iff)
  moreover have "unat kTailPositionMask = 2 ^ 63 - 1"
    by (simp add: kTailPositionMask_def kTailClosedBit_def)
  ultimately have "unat w + 1 < 2 ^ 63"
    using assms(1) by (simp add: tail_closed_unat)
  then show "unat (w + 1) = unat w + 1"
    by (simp add: unat_plus_one)
  then show "\<not> tail_closed (w + 1)"
    using \<open>unat w + 1 < 2 ^ 63\<close> by (simp add: tail_closed_unat)
qed

lemma slot_of_nth: "mring_ok r \<Longrightarrow> slot_of r p = mr_slots r ! (unat p mod cap r)"
  by (auto simp: mring_ok_def slot_of_def slot_index_def cap_def unat_and_mask_mod)

lemma set_slot_nth: "mring_ok r \<Longrightarrow> set_slot p sl r = r\<lparr>mr_slots := (mr_slots r)[unat p mod cap r := sl]\<rparr>"
  by (auto simp: mring_ok_def set_slot_def slot_index_def cap_def unat_and_mask_mod)

lemma cap_pos: "mring_ok r \<Longrightarrow> 0 < cap r"
  by (auto simp: mring_ok_def)

lemma cap_le: "mring_ok r \<Longrightarrow> cap r \<le> 2 ^ 62"
  unfolding mring_ok_def by (metis numeral_le_iff one_le_numeral power_increasing)

lemma index_less: "mring_ok r \<Longrightarrow> q mod cap r < length (mr_slots r)"
  by (auto simp: mring_ok_def)

lemma cap_ge: "mring_ok r \<Longrightarrow> 2 \<le> cap r"
  unfolding mring_ok_def by (metis One_nat_def Suc_leI power_increasing one_le_numeral power_one_right)

lemma slot_period: "slot_seq r (q + cap r) = slot_seq r q" "slot_val r (q + cap r) = slot_val r q"
  by (simp_all add: slot_seq_def slot_val_def)

lemma ring_ok_set_slot [simp]: "mring_ok r \<Longrightarrow> mring_ok (set_slot p sl r)"
  by (auto simp: mring_ok_def set_slot_def cap_def)

lemma set_slot_fields [simp]:
  "mr_tail (set_slot p sl r) = mr_tail r" "mr_head (set_slot p sl r) = mr_head r"
  "cap (set_slot p sl r) = cap r" "tail_pos (set_slot p sl r) = tail_pos r" "head_pos (set_slot p sl r) = head_pos r"
  by (simp_all add: set_slot_def cap_def tail_pos_def head_pos_def)

lemma slot_seq_set_slot:
  assumes "mring_ok r"
  shows "slot_seq (set_slot p sl r) q =
    (if q mod cap r = unat p mod cap r then unat (ms_sequence sl) else slot_seq r q)"
proof -
  have "cap (r\<lparr>mr_slots := xs\<rparr>) = cap r" for xs by (simp add: cap_def)
  then show ?thesis
    using index_less [OF assms, of "unat p"] by (auto simp: slot_seq_def set_slot_nth [OF assms] nth_list_update)
qed

lemma slot_val_set_slot:
  assumes "mring_ok r"
  shows "slot_val (set_slot p sl r) q =
    (if q mod cap r = unat p mod cap r then ms_storage sl else slot_val r q)"
proof -
  have "cap (r\<lparr>mr_slots := xs\<rparr>) = cap r" for xs by (simp add: cap_def)
  then show ?thesis
    using index_less [OF assms, of "unat p"] by (auto simp: slot_val_def set_slot_nth [OF assms] nth_list_update)
qed

lemma slot_of_seq_val:
  "mring_ok r \<Longrightarrow> unat (ms_sequence (slot_of r p)) = slot_seq r (unat p)"
  "mring_ok r \<Longrightarrow> ms_storage (slot_of r p) = slot_val r (unat p)"
  by (simp_all add: slot_of_nth slot_seq_def slot_val_def)

lemma tail_update [simp]:
  "cap (r\<lparr>mr_tail := w\<rparr>) = cap r" "head_pos (r\<lparr>mr_tail := w\<rparr>) = head_pos r"
  "slot_seq (r\<lparr>mr_tail := w\<rparr>) = slot_seq r" "slot_val (r\<lparr>mr_tail := w\<rparr>) = slot_val r"
  "mring_ok (r\<lparr>mr_tail := w\<rparr>) = mring_ok r"
  by (simp_all add: cap_def head_pos_def slot_seq_def slot_val_def mring_ok_def fun_eq_iff)

lemma head_update [simp]:
  "cap (r\<lparr>mr_head := w\<rparr>) = cap r" "tail_pos (r\<lparr>mr_head := w\<rparr>) = tail_pos r"
  "slot_seq (r\<lparr>mr_head := w\<rparr>) = slot_seq r" "slot_val (r\<lparr>mr_head := w\<rparr>) = slot_val r"
  "mring_ok (r\<lparr>mr_head := w\<rparr>) = mring_ok r"
  by (simp_all add: cap_def tail_pos_def slot_seq_def slot_val_def mring_ok_def fun_eq_iff)

end
