(* ===== verification/Chan_Mpmc_Inv.thy ===== *)
theory Chan_Mpmc_Inv
  imports Chan_Mpmc
begin

text \<open>
  The invariant of the MPMC ring. With \<open>n\<close> reservations made, \<open>h\<close> of them claimed by consumers and capacity
  \<open>c\<close>, each of the positions \<open>n, \<dots>, n + c - 1\<close> names one slot: it is free for that position, or it still holds the
  position one round earlier, which is being written, is published, or is being read. A thread between its claim and
  the release of the slot owns its position alone.
\<close>

section \<open>The invariant\<close>

fun writing :: "'v pc \<Rightarrow> nat option" where
  "writing (EnqConstruct p _) = Some (unat p)"
| "writing (EnqPublish p) = Some (unat p)"
| "writing _ = None"

fun reading :: "'v pc \<Rightarrow> nat option" where
  "reading (DeqTake p) = Some (unat p)"
| "reading (DeqRelease p _) = Some (unat p)"
| "reading _ = None"

definition held :: "'v MRing \<Rightarrow> nat \<Rightarrow> bool" where
  "held r p = (p < tail_pos r \<and> tail_pos r \<le> p + cap r)"

definition writers :: "'v MChannel \<Rightarrow> nat set" where
  "writers s = {p. \<exists>t. writing (ch_pcs s t) = Some p}"

definition readers :: "'v MChannel \<Rightarrow> nat set" where
  "readers s = {p. \<exists>t. reading (ch_pcs s t) = Some p}"

definition takers :: "'v MChannel \<Rightarrow> nat set" where
  "takers s = {q. \<exists>t p. ch_pcs s t = DeqTake p \<and> unat p = q}"

text \<open>The four states of the slot that position \<open>q\<close> will use, given its sequence number and storage.\<close>

definition slot_state :: "nat \<Rightarrow> nat \<Rightarrow> nat set \<Rightarrow> nat set \<Rightarrow> (nat \<times> 'v) list \<Rightarrow> nat \<Rightarrow> 'v option \<Rightarrow> nat \<Rightarrow> bool" where
  "slot_state c h ws rs sent sq vl q =
    (sq = q \<and> vl = None \<and> q < h + c
   \<or> c \<le> q \<and> sq = q - c \<and> h \<le> q - c \<and> q - c \<in> ws
   \<or> c \<le> q \<and> sq = q - c + 1 \<and> h \<le> q - c \<and> vl = Some (snd (sent ! (q - c)))
   \<or> c \<le> q \<and> sq = q - c + 1 \<and> q - c < h \<and> q - c \<in> rs)"

definition cslot_ok :: "'v MChannel \<Rightarrow> nat \<Rightarrow> bool" where
  "cslot_ok s q = slot_state (cap (ch_ring s)) (head_pos (ch_ring s)) (writers s) (readers s) (ch_sent s)
     (slot_seq (ch_ring s) q) (slot_val (ch_ring s) q) q"

fun thread_ok :: "'v MChannel \<Rightarrow> nat \<Rightarrow> 'v pc \<Rightarrow> bool" where
  "thread_ok s t (EnqLoop tail v) = (tail_closed tail \<or> unat tail \<le> tail_pos (ch_ring s))"
| "thread_ok s t (EnqClaim tail v) =
    (\<not> tail_closed tail \<and> tail \<noteq> kTailPositionMask \<and> unat tail \<le> tail_pos (ch_ring s)
     \<and> (unat tail = tail_pos (ch_ring s) \<longrightarrow> slot_seq (ch_ring s) (unat tail) = unat tail))"
| "thread_ok s t (EnqConstruct p v) =
    (held (ch_ring s) (unat p) \<and> head_pos (ch_ring s) \<le> unat p \<and> slot_seq (ch_ring s) (unat p) = unat p
     \<and> slot_val (ch_ring s) (unat p) = None \<and> ch_sent s ! unat p = (t, v))"
| "thread_ok s t (EnqPublish p) =
    (held (ch_ring s) (unat p) \<and> head_pos (ch_ring s) \<le> unat p \<and> slot_seq (ch_ring s) (unat p) = unat p
     \<and> slot_val (ch_ring s) (unat p) = Some (snd (ch_sent s ! unat p)))"
| "thread_ok s t (DeqLoop p) = (unat p \<le> head_pos (ch_ring s))"
| "thread_ok s t (DeqClaim p) =
    (unat p \<le> head_pos (ch_ring s)
     \<and> (unat p = head_pos (ch_ring s) \<longrightarrow> unat p < tail_pos (ch_ring s) \<and> slot_seq (ch_ring s) (unat p) = unat p + 1))"
| "thread_ok s t (DeqTake p) =
    (held (ch_ring s) (unat p) \<and> unat p < head_pos (ch_ring s) \<and> slot_seq (ch_ring s) (unat p) = unat p + 1
     \<and> slot_val (ch_ring s) (unat p) = Some (snd (ch_sent s ! unat p))
     \<and> (\<forall>(u, q, v) \<in> set (ch_got s). q \<noteq> unat p \<and> (u = t \<longrightarrow> q < unat p)))"
| "thread_ok s t (DeqRelease p v) =
    (held (ch_ring s) (unat p) \<and> unat p < head_pos (ch_ring s) \<and> slot_seq (ch_ring s) (unat p) = unat p + 1
     \<and> slot_val (ch_ring s) (unat p) = None \<and> v = snd (ch_sent s ! unat p))"
| "thread_ok s t (DrainHead tail) = (tail_closed tail \<and> mr_tail (ch_ring s) = tail)"
| "thread_ok s t (DrainDone b) =
    (b \<longrightarrow> tail_closed (mr_tail (ch_ring s)) \<and> head_pos (ch_ring s) = tail_pos (ch_ring s))"
| "thread_ok s t Broken = False"
| "thread_ok s t _ = True"

definition got_ok :: "'v MChannel \<Rightarrow> bool" where
  "got_ok s =
    (distinct (map (fst \<circ> snd) (ch_got s))
     \<and> (\<forall>(u, q, v) \<in> set (ch_got s). q < head_pos (ch_ring s) \<and> v = snd (ch_sent s ! q))
     \<and> (\<forall>t. sorted (map (fst \<circ> snd) (filter (\<lambda>g. fst g = t) (ch_got s))))
     \<and> (\<forall>q < head_pos (ch_ring s). q \<in> (fst \<circ> snd) ` set (ch_got s) \<or> q \<in> takers s))"

definition mpmc_inv :: "'v MChannel \<Rightarrow> bool" where
  "mpmc_inv s =
    (mring_ok (ch_ring s) \<and> length (ch_sent s) = tail_pos (ch_ring s) \<and> head_pos (ch_ring s) \<le> tail_pos (ch_ring s)
     \<and> tail_pos (ch_ring s) \<le> head_pos (ch_ring s) + cap (ch_ring s)
     \<and> (\<forall>q. tail_pos (ch_ring s) \<le> q \<and> q < tail_pos (ch_ring s) + cap (ch_ring s) \<longrightarrow> cslot_ok s q)
     \<and> (\<forall>t. thread_ok s t (ch_pcs s t))
     \<and> (\<forall>t u p. writing (ch_pcs s t) = Some p \<and> writing (ch_pcs s u) = Some p \<longrightarrow> t = u)
     \<and> (\<forall>t u p. reading (ch_pcs s t) = Some p \<and> reading (ch_pcs s u) = Some p \<longrightarrow> t = u)
     \<and> got_ok s)"

section \<open>Preservation\<close>

lemma mpmc_invD:
  assumes "mpmc_inv s"
  shows "mring_ok (ch_ring s)" "length (ch_sent s) = tail_pos (ch_ring s)" "head_pos (ch_ring s) \<le> tail_pos (ch_ring s)"
    "tail_pos (ch_ring s) \<le> head_pos (ch_ring s) + cap (ch_ring s)"
    "tail_pos (ch_ring s) \<le> q \<Longrightarrow> q < tail_pos (ch_ring s) + cap (ch_ring s) \<Longrightarrow> cslot_ok s q"
    "thread_ok s t (ch_pcs s t)"
    "writing (ch_pcs s t) = Some p \<Longrightarrow> writing (ch_pcs s u) = Some p \<Longrightarrow> t = u"
    "reading (ch_pcs s t) = Some p \<Longrightarrow> reading (ch_pcs s u) = Some p \<Longrightarrow> t = u"
    "got_ok s"
  using assms by (auto simp: mpmc_inv_def)

lemma thread_ok_pcs [simp]: "thread_ok (s\<lparr>ch_pcs := f\<rparr>) t x = thread_ok s t x"
  by (cases x) auto

lemma roles_other [simp]:
  "writers (s\<lparr>ch_ring := r\<rparr>) = writers s" "readers (s\<lparr>ch_ring := r\<rparr>) = readers s" "takers (s\<lparr>ch_ring := r\<rparr>) = takers s"
  "writers (s\<lparr>ch_sent := x\<rparr>) = writers s" "readers (s\<lparr>ch_sent := x\<rparr>) = readers s" "takers (s\<lparr>ch_sent := x\<rparr>) = takers s"
  "writers (s\<lparr>ch_got := y\<rparr>) = writers s" "readers (s\<lparr>ch_got := y\<rparr>) = readers s" "takers (s\<lparr>ch_got := y\<rparr>) = takers s"
  by (simp_all add: writers_def readers_def takers_def)

lemma roles_same:
  assumes "ch_pcs s' = (ch_pcs s)(t := x)"
  shows "writing x = writing (ch_pcs s t) \<Longrightarrow> writers s' = writers s"
    "reading x = reading (ch_pcs s t) \<Longrightarrow> readers s' = readers s"
    "reading x = None \<Longrightarrow> reading (ch_pcs s t) = None \<Longrightarrow> takers s' = takers s"
  unfolding writers_def readers_def takers_def assms
  by (auto split: if_splits) (metis option.distinct(1) reading.simps(1))+

lemma roles_add:
  assumes "ch_pcs s' = (ch_pcs s)(t := x)"
  shows "writing (ch_pcs s t) = None \<Longrightarrow> writers s' = set_option (writing x) \<union> writers s"
    "reading (ch_pcs s t) = None \<Longrightarrow> readers s' = set_option (reading x) \<union> readers s"
    "x = DeqTake p \<Longrightarrow> unat p \<in> takers s'"
  unfolding writers_def readers_def takers_def assms by (auto split: if_splits) (metis option.distinct(1))+

lemma roles_keep:
  assumes "ch_pcs s' = (ch_pcs s)(t := x)"
  shows "p \<in> writers s \<Longrightarrow> writing (ch_pcs s t) \<noteq> Some p \<Longrightarrow> p \<in> writers s'"
    "p \<in> readers s \<Longrightarrow> reading (ch_pcs s t) \<noteq> Some p \<Longrightarrow> p \<in> readers s'"
    "p \<in> takers s \<Longrightarrow> reading (ch_pcs s t) \<noteq> Some p \<Longrightarrow> p \<in> takers s'"
  unfolding writers_def readers_def takers_def assms by (auto split: if_splits) (metis reading.simps(1))+

text \<open>A step that moves one thread between program points at which it owns no slot.\<close>

lemma inv_local:
  assumes s: "mpmc_inv s" and t: "writing (ch_pcs s t) = None" "reading (ch_pcs s t) = None"
    and x: "writing x = None" "reading x = None" "thread_ok s t x"
  shows "mpmc_inv (s\<lparr>ch_pcs := (ch_pcs s)(t := x)\<rparr>)"
proof -
  let ?s = "s\<lparr>ch_pcs := (ch_pcs s)(t := x)\<rparr>"
  have roles: "writers ?s = writers s" "readers ?s = readers s" "takers ?s = takers s"
    using t x roles_same [of ?s s t x] by auto
  have "cslot_ok ?s q = cslot_ok s q" for q
    unfolding cslot_ok_def roles by simp
  moreover have "got_ok ?s = got_ok s"
    unfolding got_ok_def roles by simp
  ultimately show ?thesis
    using s t x unfolding mpmc_inv_def by (auto split: if_splits)
qed

text \<open>The bit that closes the channel.\<close>

lemma inv_close:
  assumes s: "mpmc_inv s" and t: "writing (ch_pcs s t) = None" "reading (ch_pcs s t) = None"
    and x: "writing x = None" "reading x = None" "\<And>u. thread_ok u t x"
  shows "mpmc_inv (s\<lparr>ch_ring := (ch_ring s)\<lparr>mr_tail := mr_tail (ch_ring s) OR kTailClosedBit\<rparr>, ch_pcs := (ch_pcs s)(t := x)\<rparr>)"
proof -
  let ?s = "s\<lparr>ch_ring := (ch_ring s)\<lparr>mr_tail := mr_tail (ch_ring s) OR kTailClosedBit\<rparr>\<rparr>"
  have n: "tail_pos ((ch_ring s)\<lparr>mr_tail := mr_tail (ch_ring s) OR kTailClosedBit\<rparr>) = tail_pos (ch_ring s)"
    by (simp add: tail_pos_def close_position)
  have "thread_ok ?s u (ch_pcs s u)" for u
    using mpmc_invD(6) [OF s, of u]
    by (cases "ch_pcs s u") (auto simp: n held_def close_idem close_closed)
  then have "mpmc_inv ?s"
    using s by (simp add: mpmc_inv_def n cslot_ok_def got_ok_def)
  then have "mpmc_inv (?s\<lparr>ch_pcs := (ch_pcs ?s)(t := x)\<rparr>)"
    by (rule inv_local) (use t x in auto)
  then show ?thesis by simp
qed

text \<open>Positions within one round of each other have their own slots.\<close>

lemma held_slot_eq:
  assumes "held r p" "held r q" "p mod cap r = q mod cap r"
  shows "p = q"
  using assms window_inj [of p "cap r" q] by (auto simp: held_def)

lemma window_slot_eq:
  assumes "held r p" "tail_pos r \<le> q" "q < tail_pos r + cap r" "q mod cap r = p mod cap r"
  shows "q = p + cap r"
  using assms window_inj [of q "cap r" "p + cap r"] by (auto simp: held_def)

text \<open>A step of thread \<open>t\<close> keeps the invariant if it does so for the thread, the other threads, the slots and the record;
  an owned position may be given up, kept, or be new.\<close>

lemma mpmc_invI:
  assumes s: "mpmc_inv s" and pcs: "ch_pcs s' = (ch_pcs s)(t := x)"
    and ring: "mring_ok (ch_ring s')" "length (ch_sent s') = tail_pos (ch_ring s')"
      "head_pos (ch_ring s') \<le> tail_pos (ch_ring s')" "tail_pos (ch_ring s') \<le> head_pos (ch_ring s') + cap (ch_ring s')"
    and slots: "\<And>q. tail_pos (ch_ring s') \<le> q \<Longrightarrow> q < tail_pos (ch_ring s') + cap (ch_ring s') \<Longrightarrow> cslot_ok s' q"
    and own: "thread_ok s' t x" and others: "\<And>u. u \<noteq> t \<Longrightarrow> thread_ok s' u (ch_pcs s u)"
    and w: "writing x \<in> {None, writing (ch_pcs s t)} \<or> (\<forall>u. writing (ch_pcs s u) \<noteq> writing x)"
    and r: "reading x \<in> {None, reading (ch_pcs s t)} \<or> (\<forall>u. reading (ch_pcs s u) \<noteq> reading x)"
    and got: "got_ok s'"
  shows "mpmc_inv s'"
  unfolding mpmc_inv_def
proof (intro conjI allI impI)
  fix u show "thread_ok s' u (ch_pcs s' u)"
    using own others by (simp add: pcs)
next
  fix u u' p assume "writing (ch_pcs s' u) = Some p \<and> writing (ch_pcs s' u') = Some p"
  then show "u = u'"
    using w by (auto simp: pcs dest: mpmc_invD(7) [OF s] split: if_splits)
next
  fix u u' p assume "reading (ch_pcs s' u) = Some p \<and> reading (ch_pcs s' u') = Some p"
  then show "u = u'"
    using r by (auto simp: pcs dest: mpmc_invD(8) [OF s] split: if_splits)
qed (use ring slots got in auto)

text \<open>A producer's reservation.\<close>

lemma inv_claim_tail:
  assumes s: "mpmc_inv s" and t: "ch_pcs s t = EnqClaim tail v" and tail: "mr_tail (ch_ring s) = tail"
    and s': "s' = s\<lparr>ch_ring := (ch_ring s)\<lparr>mr_tail := tail + 1\<rparr>, ch_pcs := (ch_pcs s)(t := EnqConstruct tail v),
           ch_sent := ch_sent s @ [(t, v)]\<rparr>"
  shows "mpmc_inv s'"
proof -
  let ?r = "ch_ring s"
  have pcs: "ch_pcs s' = (ch_pcs s)(t := EnqConstruct tail v)" by (simp add: s')
  note inv = mpmc_invD [OF s]
  define n h c where nhc: "n = tail_pos ?r" "h = head_pos ?r" "c = cap ?r"
  have c: "2 \<le> c" using cap_ge [OF inv(1)] by (simp add: nhc)
  have open_tail: "\<not> tail_closed tail" "tail \<noteq> kTailPositionMask"
    using inv(6) [of t] t by auto
  have n: "unat tail = n"
    using open_tail tail by (simp add: nhc tail_pos_def open_position)
  have n': "tail_pos (?r\<lparr>mr_tail := tail + 1\<rparr>) = n + 1"
    using next_open [OF open_tail] n by (simp add: tail_pos_def open_position)
  have seq: "slot_seq ?r n = n"
    using inv(6) [of t] t n by (simp add: nhc)
  have free: "slot_val ?r n = None" "n < h + c"
    using inv(5) [of n] c seq unfolding cslot_ok_def slot_state_def nhc by auto
  have held: "held (?r\<lparr>mr_tail := tail + 1\<rparr>) p" if "held ?r p" "slot_seq ?r p \<in> {p, p + 1}" for p
  proof -
    have "p + c \<noteq> n"
      using slot_period(1) [of ?r p] seq that c by (auto simp: nhc)
    then show ?thesis using that(1) n' by (auto simp: held_def nhc)
  qed
  have sent: "(ch_sent s @ [(t, v)]) ! p = ch_sent s ! p" if "p < n" for p
    using that inv(2) by (simp add: nhc nth_append)
  have w: "writers s' = insert n (writers s)" "readers s' = readers s" "takers s' = takers s"
    using t n roles_add(1) [OF pcs] roles_same(2,3) [OF pcs] by simp_all
  have threads: "thread_ok s' u (ch_pcs s u)" if "u \<noteq> t" for u
    using inv(6) [of u] held sent n' tail open_tail
    by (cases "ch_pcs s u") (auto simp: s' nhc held_def)
  have slots: "cslot_ok s' q" if "n + 1 \<le> q" "q < n + 1 + c" for q
  proof (cases "q = n + c")
    case True
    then show ?thesis
      using seq slot_period(1) [of ?r n] inv(3) unfolding cslot_ok_def w by (simp add: s' slot_state_def nhc)
  next
    case False
    then have "cslot_ok s q" "c \<le> q \<Longrightarrow> q - c < n"
      using inv(5) [of q] that c by (auto simp: nhc)
    then show ?thesis
      using sent unfolding cslot_ok_def w by (auto simp: s' slot_state_def nhc)
  qed
  have wr: "p < n" if "writing (ch_pcs s u) = Some p" for u p
    using inv(6) [of u] that by (cases "ch_pcs s u") (auto simp: held_def nhc)
  have got: "got_ok s'"
    using inv(9) inv(3) sent unfolding got_ok_def w by (auto simp: s' nhc)
  have own: "thread_ok s' t (EnqConstruct tail v)"
    using n n' free seq inv(2,3) c nth_append_length [of "ch_sent s" "(t, v)" "[]"] by (auto simp: s' held_def nhc)
  have fresh: "\<forall>u. writing (ch_pcs s u) \<noteq> writing (EnqConstruct tail v :: 'a pc)"
    using wr n by auto
  from s pcs show ?thesis
    by (rule mpmc_invI) (use inv(1-4) free n' slots threads own got fresh in \<open>auto simp: s' nhc\<close>)
qed

text \<open>The producer constructs the value in its slot.\<close>

lemma inv_construct:
  assumes s: "mpmc_inv s" and t: "ch_pcs s t = EnqConstruct p v"
    and s': "s' = s\<lparr>ch_ring := set_slot p ((slot_of (ch_ring s) p)\<lparr>ms_storage := Some v\<rparr>) (ch_ring s),
           ch_pcs := (ch_pcs s)(t := EnqPublish p)\<rparr>"
  shows "mpmc_inv s'"
proof -
  let ?r = "ch_ring s" and ?sl = "(slot_of (ch_ring s) p)\<lparr>ms_storage := Some v\<rparr>"
  have pcs: "ch_pcs s' = (ch_pcs s)(t := EnqPublish p)" by (simp add: s')
  note inv = mpmc_invD [OF s]
  have own: "held ?r (unat p)" "head_pos ?r \<le> unat p" "slot_seq ?r (unat p) = unat p" "ch_sent s ! unat p = (t, v)"
    using inv(6) [of t] t by auto
  have f: "mring_ok (ch_ring s')" "cap (ch_ring s') = cap ?r" "tail_pos (ch_ring s') = tail_pos ?r" "head_pos (ch_ring s') = head_pos ?r"
    "mr_tail (ch_ring s') = mr_tail ?r" "held (ch_ring s') = held ?r" "ch_sent s' = ch_sent s" "ch_got s' = ch_got s"
    using inv(1) by (simp_all add: s' held_def fun_eq_iff)
  have seq: "slot_seq (ch_ring s') q = slot_seq ?r q" for q
    using slot_of_seq_val(1) [OF inv(1), of p]
    by (simp add: s' slot_seq_set_slot [OF inv(1)]) (simp add: slot_seq_def)
  have val: "slot_val (ch_ring s') q = (if q mod cap ?r = unat p mod cap ?r then Some v else slot_val ?r q)" for q
    by (simp add: s' slot_val_set_slot [OF inv(1)])
  have w: "writers s' = writers s" "readers s' = readers s" "takers s' = takers s"
    using t roles_same [OF pcs] by simp_all
  have val_other: "slot_val (ch_ring s') q = slot_val ?r q" if "held ?r q" "q \<noteq> unat p" for q
    using held_slot_eq [OF that(1) own(1)] that(2) by (auto simp: val)
  have threads: "thread_ok s' u (ch_pcs s u)" if "u \<noteq> t" for u
  proof -
    have "writing (ch_pcs s u) \<noteq> Some (unat p)"
      using inv(7) [of u "unat p" t] t that by auto
    then show ?thesis
      using inv(6) [of u] val_other own(2) by (cases "ch_pcs s u") (auto simp: f seq)
  qed
  have slots: "cslot_ok s' q" if "tail_pos ?r \<le> q" "q < tail_pos ?r + cap ?r" for q
  proof (cases "q mod cap ?r = unat p mod cap ?r")
    case True
    then have "q = unat p + cap ?r" "unat p \<in> writers s"
      using window_slot_eq [OF own(1)] that t by (auto simp: writers_def intro!: exI [of _ t])
    then show ?thesis
      using own(2,3) unfolding cslot_ok_def w seq f by (simp add: slot_state_def slot_period)
  next
    case False
    then show ?thesis
      using inv(5) [OF that] unfolding cslot_ok_def w seq val f by simp
  qed
  from s pcs show ?thesis
    by (rule mpmc_invI) (use inv(1-4,9) own slots threads t in \<open>simp_all add: f seq val w got_ok_def\<close>)
qed

text \<open>The producer publishes its slot.\<close>

lemma inv_publish:
  assumes s: "mpmc_inv s" and t: "ch_pcs s t = EnqPublish p"
    and s': "s' = s\<lparr>ch_ring := set_slot p ((slot_of (ch_ring s) p)\<lparr>ms_sequence := p + 1\<rparr>) (ch_ring s),
           ch_pcs := (ch_pcs s)(t := EnqDone kSent)\<rparr>"
  shows "mpmc_inv s'"
proof -
  let ?r = "ch_ring s"
  have pcs: "ch_pcs s' = (ch_pcs s)(t := EnqDone kSent)" by (simp add: s')
  note inv = mpmc_invD [OF s]
  have c: "2 \<le> cap ?r" by (rule cap_ge [OF inv(1)])
  have own: "held ?r (unat p)" "head_pos ?r \<le> unat p" "slot_seq ?r (unat p) = unat p"
    "slot_val ?r (unat p) = Some (snd (ch_sent s ! unat p))"
    using inv(6) [of t] t by auto
  have p1: "unat (p + 1) = unat p + 1"
    using own(1) tail_pos_less [of ?r] by (intro unat_plus_one) (simp add: held_def)
  have f: "mring_ok (ch_ring s')" "cap (ch_ring s') = cap ?r" "tail_pos (ch_ring s') = tail_pos ?r" "head_pos (ch_ring s') = head_pos ?r"
    "mr_tail (ch_ring s') = mr_tail ?r" "held (ch_ring s') = held ?r" "ch_sent s' = ch_sent s" "ch_got s' = ch_got s"
    using inv(1) by (simp_all add: s' held_def fun_eq_iff)
  have val: "slot_val (ch_ring s') q = slot_val ?r q" for q
    using slot_of_seq_val(2) [OF inv(1), of p]
    by (simp add: s' slot_val_set_slot [OF inv(1)]) (simp add: slot_val_def)
  have seq: "slot_seq (ch_ring s') q = (if q mod cap ?r = unat p mod cap ?r then unat p + 1 else slot_seq ?r q)" for q
    by (simp add: s' slot_seq_set_slot [OF inv(1)] p1)
  have seq_eq: "slot_seq ?r q = unat p" if "q mod cap ?r = unat p mod cap ?r" for q
    using own(3) that by (simp add: slot_seq_def)
  have w: "readers s' = readers s" "takers s' = takers s"
    using t roles_same(2,3) [OF pcs] by simp_all
  have ww: "q \<in> writers s'" if "q \<in> writers s" "q \<noteq> unat p" for q
    using roles_keep(1) [OF pcs that(1)] that(2) t by simp
  have seq_other: "slot_seq (ch_ring s') q = slot_seq ?r q" if "held ?r q" "q \<noteq> unat p" for q
    using held_slot_eq [OF that(1) own(1)] that(2) by (auto simp: seq)
  have claim: "slot_seq (ch_ring s') q = slot_seq ?r q" if "slot_seq ?r q = q + 1 \<or> slot_seq ?r q = q \<and> unat p < q" for q
  proof -
    have "q mod cap ?r \<noteq> unat p mod cap ?r"
    proof
      assume eq: "q mod cap ?r = unat p mod cap ?r"
      then have "q + 1 = unat p"
        using that seq_eq [OF eq] by auto
      then have "q = unat p"
        using eq c by (intro window_inj [of q "cap ?r" "unat p"]) auto
      with \<open>q + 1 = unat p\<close> show False by simp
    qed
    then show ?thesis by (simp add: seq)
  qed
  have threads: "thread_ok s' u (ch_pcs s u)" if "u \<noteq> t" for u
  proof -
    have "writing (ch_pcs s u) \<noteq> Some (unat p)"
      using inv(7) [of u "unat p" t] t that by auto
    then show ?thesis
      using inv(6) [of u] seq_other claim own(1,2) by (cases "ch_pcs s u") (auto simp: f val held_def)
  qed
  have slots: "cslot_ok s' q" if "tail_pos ?r \<le> q" "q < tail_pos ?r + cap ?r" for q
  proof (cases "q mod cap ?r = unat p mod cap ?r")
    case True
    then have "q = unat p + cap ?r"
      using window_slot_eq [OF own(1)] that by auto
    then show ?thesis
      using own(2,4) slot_period(2) [of ?r "unat p"] unfolding cslot_ok_def w seq val f by (simp add: slot_state_def)
  next
    case False
    then have "q - cap ?r \<noteq> unat p" if "cap ?r \<le> q"
      using that by (metis le_add_diff_inverse2 mod_add_self2)
    then show ?thesis
      using inv(5) [OF that] False ww unfolding cslot_ok_def w seq val f by (auto simp: slot_state_def)
  qed
  from s pcs show ?thesis
    by (rule mpmc_invI) (use inv(1-4,9) own slots threads t in \<open>simp_all add: f val w got_ok_def\<close>)
qed

lemma slot_state_advance:
  assumes "slot_state c h ws rs sent sq vl q" "c \<le> q \<Longrightarrow> q - c \<noteq> h" "rs \<subseteq> rs'"
  shows "slot_state c (h + 1) ws rs' sent sq vl q"
proof -
  have "h \<le> q - c \<Longrightarrow> c \<le> q \<Longrightarrow> h + 1 \<le> q - c" using assms(2) by linarith
  then show ?thesis using assms(1,3) unfolding slot_state_def by auto
qed

text \<open>A consumer's claim.\<close>

lemma inv_claim_head:
  assumes s: "mpmc_inv s" and t: "ch_pcs s t = DeqClaim p" and head: "mr_head (ch_ring s) = p"
    and s': "s' = s\<lparr>ch_ring := (ch_ring s)\<lparr>mr_head := p + 1\<rparr>, ch_pcs := (ch_pcs s)(t := DeqTake p)\<rparr>"
  shows "mpmc_inv s'"
proof -
  let ?r = "ch_ring s"
  have pcs: "ch_pcs s' = (ch_pcs s)(t := DeqTake p)" by (simp add: s')
  note inv = mpmc_invD [OF s]
  define h where h: "h = unat p"
  have c: "2 \<le> cap ?r" by (rule cap_ge [OF inv(1)])
  have hd: "head_pos ?r = h" "h < tail_pos ?r" "slot_seq ?r h = h + 1"
    using inv(6) [of t] t head by (auto simp: h head_pos_def)
  have p1: "unat (p + 1) = h + 1"
    using hd(2) tail_pos_less [of ?r] unfolding h by (intro unat_plus_one) simp
  have f: "mring_ok (ch_ring s')" "cap (ch_ring s') = cap ?r" "tail_pos (ch_ring s') = tail_pos ?r" "head_pos (ch_ring s') = h + 1"
    "mr_tail (ch_ring s') = mr_tail ?r" "held (ch_ring s') = held ?r" "ch_sent s' = ch_sent s" "ch_got s' = ch_got s"
    "slot_seq (ch_ring s') = slot_seq ?r" "slot_val (ch_ring s') = slot_val ?r"
    using inv(1) p1 by (simp_all add: s' held_def fun_eq_iff head_pos_def)
  have held: "held ?r h"
    using hd inv(4) by (simp add: held_def)
  have val: "slot_val ?r h = Some (snd (ch_sent s ! h))"
    using inv(5) [of "h + cap ?r"] hd inv(4) c by (auto simp: cslot_ok_def slot_state_def slot_period)
  have w: "writers s' = writers s" "readers s' = insert h (readers s)" "takers s \<subseteq> takers s'" "h \<in> takers s'"
    using t roles_same(1) [OF pcs] roles_add(2,3) [OF pcs] roles_keep(3) [OF pcs] by (auto simp: h)
  have threads: "thread_ok s' u (ch_pcs s u)" if "u \<noteq> t" for u
    using inv(6) [of u] hd by (cases "ch_pcs s u") (auto simp: f Suc_le_eq le_less)
  have slots: "cslot_ok s' q" if "tail_pos ?r \<le> q" "q < tail_pos ?r + cap ?r" for q
  proof (cases "q = h + cap ?r")
    case True
    then show ?thesis
      using hd(3) c unfolding cslot_ok_def w f by (simp add: slot_state_def slot_period)
  next
    case False
    then have "q - cap ?r \<noteq> h" if "cap ?r \<le> q" using that by auto
    then show ?thesis
      using inv(5) [OF that] unfolding cslot_ok_def w f hd(1) by (intro slot_state_advance) auto
  qed
  have got: "got_ok s'"
    using inv(9) w(3,4) unfolding got_ok_def f hd(1) by (auto simp: less_Suc_eq)
  have own: "thread_ok s' t (DeqTake p)"
    using held hd val inv(9) by (auto simp: f h got_ok_def)
  have fresh: "\<forall>u. reading (ch_pcs s u) \<noteq> reading (DeqTake p :: 'a pc)"
  proof
    fix u show "reading (ch_pcs s u) \<noteq> reading (DeqTake p :: 'a pc)"
      using inv(6) [of u] hd by (cases "ch_pcs s u") (auto simp: h)
  qed
  from s pcs show ?thesis
    by (rule mpmc_invI) (use inv(1-4) hd slots threads own got fresh f in auto)
qed

text \<open>The consumer moves the value out and destroys it.\<close>

lemma inv_take:
  assumes s: "mpmc_inv s" and t: "ch_pcs s t = DeqTake p" and v: "v = snd (ch_sent s ! unat p)"
    and s': "s' = s\<lparr>ch_ring := set_slot p ((slot_of (ch_ring s) p)\<lparr>ms_storage := None\<rparr>) (ch_ring s),
           ch_pcs := (ch_pcs s)(t := DeqRelease p v), ch_got := ch_got s @ [(t, unat p, v)]\<rparr>"
  shows "mpmc_inv s'"
proof -
  let ?r = "ch_ring s"
  have pcs: "ch_pcs s' = (ch_pcs s)(t := DeqRelease p v)" by (simp add: s')
  note inv = mpmc_invD [OF s]
  have own: "held ?r (unat p)" "unat p < head_pos ?r" "slot_seq ?r (unat p) = unat p + 1"
    "\<forall>(u, q, v) \<in> set (ch_got s). q \<noteq> unat p \<and> (u = t \<longrightarrow> q < unat p)"
    using inv(6) [of t] t by auto
  have f: "mring_ok (ch_ring s')" "cap (ch_ring s') = cap ?r" "tail_pos (ch_ring s') = tail_pos ?r" "head_pos (ch_ring s') = head_pos ?r"
    "mr_tail (ch_ring s') = mr_tail ?r" "held (ch_ring s') = held ?r" "ch_sent s' = ch_sent s"
    "ch_got s' = ch_got s @ [(t, unat p, v)]"
    using inv(1) by (simp_all add: s' held_def fun_eq_iff)
  have seq: "slot_seq (ch_ring s') q = slot_seq ?r q" for q
    using slot_of_seq_val(1) [OF inv(1), of p]
    by (simp add: s' slot_seq_set_slot [OF inv(1)]) (simp add: slot_seq_def)
  have val: "slot_val (ch_ring s') q = (if q mod cap ?r = unat p mod cap ?r then None else slot_val ?r q)" for q
    by (simp add: s' slot_val_set_slot [OF inv(1)])
  have w: "writers s' = writers s" "readers s' = readers s" "unat p \<in> readers s"
    using t roles_same(1,2) [OF pcs] by (auto simp: readers_def intro!: exI [of _ t])
  have takers: "q \<in> takers s'" if "q \<in> takers s" "q \<noteq> unat p" for q
    using roles_keep(3) [OF pcs that(1)] that(2) t by simp
  have val_other: "slot_val (ch_ring s') q = slot_val ?r q" if "held ?r q" "q \<noteq> unat p" for q
    using held_slot_eq [OF that(1) own(1)] that(2) by (auto simp: val)
  have threads: "thread_ok s' u (ch_pcs s u)" if "u \<noteq> t" for u
  proof -
    have "reading (ch_pcs s u) \<noteq> Some (unat p)"
      using inv(8) [of u "unat p" t] t that by auto
    then show ?thesis
      using inv(6) [of u] val_other own(2) that by (cases "ch_pcs s u") (auto simp: f seq)
  qed
  have slots: "cslot_ok s' q" if "tail_pos ?r \<le> q" "q < tail_pos ?r + cap ?r" for q
  proof (cases "q mod cap ?r = unat p mod cap ?r")
    case True
    then have "q = unat p + cap ?r"
      using window_slot_eq [OF own(1)] that by auto
    then show ?thesis
      using own(2,3) w(3) unfolding cslot_ok_def w seq f by (simp add: slot_state_def slot_period)
  next
    case False
    then show ?thesis
      using inv(5) [OF that] unfolding cslot_ok_def w seq val f by simp
  qed
  have got: "got_ok s'"
    using inv(9) own(2,4) v takers unfolding got_ok_def f
    by (auto simp: sorted_append image_iff Ball_def split: prod.splits) (force dest: less_imp_le)+
  from s pcs show ?thesis
    by (rule mpmc_invI) (use inv(1-4) own slots threads t got v in \<open>simp_all add: f seq val w\<close>)
qed

text \<open>The consumer releases the slot for the next round.\<close>

lemma inv_release:
  assumes s: "mpmc_inv s" and t: "ch_pcs s t = DeqRelease p v"
    and s': "s' = s\<lparr>ch_ring := set_slot p ((slot_of (ch_ring s) p)\<lparr>ms_sequence := p + mr_capacity (ch_ring s)\<rparr>) (ch_ring s),
           ch_pcs := (ch_pcs s)(t := DeqDone (Some v))\<rparr>"
  shows "mpmc_inv s'"
proof -
  let ?r = "ch_ring s"
  have pcs: "ch_pcs s' = (ch_pcs s)(t := DeqDone (Some v))" by (simp add: s')
  note inv = mpmc_invD [OF s]
  have c: "2 \<le> cap ?r" by (rule cap_ge [OF inv(1)])
  have own: "held ?r (unat p)" "unat p < head_pos ?r" "slot_seq ?r (unat p) = unat p + 1" "slot_val ?r (unat p) = None"
    using inv(6) [of t] t by auto
  have pc: "unat (p + mr_capacity ?r) = unat p + cap ?r"
  proof -
    have "unat p + unat (mr_capacity ?r) < 2 ^ 64"
      using own(1) tail_pos_less [of ?r] cap_le [OF inv(1)] by (simp add: held_def cap_def)
    then show ?thesis by (simp add: unat_word_ariths cap_def)
  qed
  have f: "mring_ok (ch_ring s')" "cap (ch_ring s') = cap ?r" "tail_pos (ch_ring s') = tail_pos ?r" "head_pos (ch_ring s') = head_pos ?r"
    "mr_tail (ch_ring s') = mr_tail ?r" "held (ch_ring s') = held ?r" "ch_sent s' = ch_sent s" "ch_got s' = ch_got s"
    using inv(1) by (simp_all add: s' held_def fun_eq_iff)
  have val: "slot_val (ch_ring s') q = slot_val ?r q" for q
    using slot_of_seq_val(2) [OF inv(1), of p]
    by (simp add: s' slot_val_set_slot [OF inv(1)]) (simp add: slot_val_def)
  have seq: "slot_seq (ch_ring s') q = (if q mod cap ?r = unat p mod cap ?r then unat p + cap ?r else slot_seq ?r q)" for q
    by (simp add: s' slot_seq_set_slot [OF inv(1)] pc)
  have seq_eq: "slot_seq ?r q = unat p + 1" if "q mod cap ?r = unat p mod cap ?r" for q
    using own(3) that by (simp add: slot_seq_def)
  have w: "writers s' = writers s" "takers s' = takers s"
  proof -
    show "writers s' = writers s" using t roles_same(1) [OF pcs] by simp
    have "q \<in> takers s \<longleftrightarrow> q \<in> takers s'" for q
      using t unfolding takers_def pcs by (auto split: if_splits) (metis pc.distinct(1) pc.simps)+
    then show "takers s' = takers s" by blast
  qed
  have rr: "q \<in> readers s'" if "q \<in> readers s" "q \<noteq> unat p" for q
    using roles_keep(2) [OF pcs that(1)] that(2) t by simp
  have seq_other: "slot_seq (ch_ring s') q = slot_seq ?r q" if "held ?r q" "q \<noteq> unat p" for q
    using held_slot_eq [OF that(1) own(1)] that(2) by (auto simp: seq)
  have claim: "slot_seq (ch_ring s') q = slot_seq ?r q" if "slot_seq ?r q \<in> {q, q + 1}" "head_pos ?r \<le> q" for q
  proof -
    have "q mod cap ?r \<noteq> unat p mod cap ?r"
    proof
      assume eq: "q mod cap ?r = unat p mod cap ?r"
      then have "q = unat p + 1"
        using that seq_eq [OF eq] own(2) by auto
      then have "q = unat p"
        using eq c by (intro window_inj [of q "cap ?r" "unat p"]) auto
      with \<open>q = unat p + 1\<close> show False by simp
    qed
    then show ?thesis by (simp add: seq)
  qed
  have threads: "thread_ok s' u (ch_pcs s u)" if "u \<noteq> t" for u
  proof -
    have "reading (ch_pcs s u) \<noteq> Some (unat p)"
      using inv(8) [of u "unat p" t] t that by auto
    then show ?thesis
      using inv(3) inv(6) [of u] seq_other claim own(2) by (cases "ch_pcs s u") (auto simp: f val)
  qed
  have slots: "cslot_ok s' q" if "tail_pos ?r \<le> q" "q < tail_pos ?r + cap ?r" for q
  proof (cases "q mod cap ?r = unat p mod cap ?r")
    case True
    then have "q = unat p + cap ?r"
      using window_slot_eq [OF own(1)] that by auto
    then show ?thesis
      using own(2,4) slot_period(2) [of ?r "unat p"] unfolding cslot_ok_def w seq val f by (simp add: slot_state_def)
  next
    case False
    then have "q - cap ?r \<noteq> unat p" if "cap ?r \<le> q"
      using that by (metis le_add_diff_inverse2 mod_add_self2)
    then show ?thesis
      using inv(5) [OF that] False rr unfolding cslot_ok_def w seq val f by (auto simp: slot_state_def)
  qed
  from s pcs show ?thesis
    by (rule mpmc_invI) (use inv(1-4,9) own slots threads t in \<open>simp_all add: f val w got_ok_def\<close>)
qed

end
