(* ===== verification/Chan_Mpmc_Runs.thy ===== *)
theory Chan_Mpmc_Runs
  imports Chan_Mpmc_Inv "HOL-Library.Multiset"
begin

text \<open>
  The runs of the MPMC ring: every event keeps the invariant, and what follows from it for the callers. No value is
  lost, duplicated or reordered, a slot is never used before it is free or read before it is published, \<open>kFull\<close> and
  an empty result are honest, and \<open>close\<close> is final.
\<close>

section \<open>The invariant holds throughout\<close>

lemma normalizeCapacity_power: "\<exists>k. normalizeCapacity capacity = 2 ^ k \<and> 0 < k \<and> k \<le> 62"
proof (cases "2 < capacity \<and> capacity < 2 ^ 62")
  case True
  then show ?thesis
    using bit_ceil_power [of capacity 62] by (auto simp: normalizeCapacity_def kMaxRingCapacity_def)
next
  case False
  then have "normalizeCapacity capacity = 2 ^ 1 \<or> normalizeCapacity capacity = 2 ^ 62"
    by (auto simp: normalizeCapacity_def kMaxRingCapacity_def)
  then show ?thesis
    by (metis le_numeral_extra(4) one_le_numeral zero_less_numeral zero_less_one order_refl)
qed

lemma new_ring_ok: "mring_ok (new_ring capacity :: 'v MRing)" "cap (new_ring capacity :: 'v MRing) = normalizeCapacity capacity"
proof -
  obtain k where k: "normalizeCapacity capacity = 2 ^ k" "0 < k" "k \<le> 62"
    using normalizeCapacity_power by auto
  then have "(2 :: nat) ^ k < 2 ^ 64"
    by (intro power_strict_increasing) auto
  then have "unat (of_nat (2 ^ k) :: u64) = 2 ^ k"
    unfolding unat_of_nat by (intro mod_less) simp
  then show c: "cap (new_ring capacity :: 'v MRing) = normalizeCapacity capacity"
    using k(1) by (simp add: cap_def new_ring_def Let_def)
  show "mring_ok (new_ring capacity :: 'v MRing)"
    unfolding mring_ok_def c using k by (intro exI [of _ k]) (simp add: new_ring_def Let_def)
qed

lemma inv_start: "mpmc_inv (new_channel capacity :: 'v MChannel)"
proof -
  let ?r = "new_ring capacity :: 'v MRing"
  have seq: "slot_seq ?r q = q" "slot_val ?r q = None" if "q < cap ?r" for q
  proof -
    have "cap ?r \<le> 2 ^ 62" by (rule cap_le [OF new_ring_ok(1)])
    then have "q < 2 ^ 64"
      using that by simp
    then show "slot_seq ?r q = q" "slot_val ?r q = None"
      using that new_ring_ok(2) [of capacity, where 'v = 'v]
      by (simp_all add: slot_seq_def slot_val_def new_ring_def Let_def unat_of_nat take_bit_eq_mod)
  qed
  have z: "tail_pos ?r = 0" "head_pos ?r = 0"
    by (simp_all add: tail_pos_def head_pos_def new_ring_def Let_def)
  show ?thesis
    using new_ring_ok(1) [of capacity, where 'v = 'v] seq
    by (simp add: mpmc_inv_def new_channel_def z cslot_ok_def slot_state_def got_ok_def)
qed

lemma load_ok: "thread_ok s t (EnqLoop (mr_tail (ch_ring s)) v)" "thread_ok s t (DeqLoop (mr_head (ch_ring s)))"
  by (auto simp: tail_pos_def head_pos_def) (metis open_position order_refl)

lemma sint_zero: "sint (a - b) = 0 \<longleftrightarrow> a = (b :: u64)"
  by (metis eq_iff_diff_eq_0 signed_0 signed_word_eqI)

lemma inv_enq_loop:
  assumes s: "mpmc_inv s" and t: "ch_pcs s t = EnqLoop tail v"
  shows "mpmc_inv (event (Step t weak) s)"
proof -
  have ok: "unat tail \<le> tail_pos (ch_ring s)" if "\<not> tail_closed tail"
    using mpmc_invD(6) [OF s, of t] t that by simp
  have seq: "ms_sequence (slot_of (ch_ring s) tail) = tail \<Longrightarrow> slot_seq (ch_ring s) (unat tail) = unat tail"
    using slot_of_seq_val(1) [OF mpmc_invD(1) [OF s], of tail] by simp
  consider (closed) "tail_closed tail" | (exhausted) "\<not> tail_closed tail" "tail = kTailPositionMask" "mr_tail (ch_ring s) = tail" "\<not> weak"
    | (lost) "\<not> tail_closed tail" "tail = kTailPositionMask" "mr_tail (ch_ring s) \<noteq> tail \<or> weak"
    | (test) "\<not> tail_closed tail" "tail \<noteq> kTailPositionMask" by blast
  then show ?thesis
  proof cases
    case exhausted
    then show ?thesis
      using inv_close [OF s, of t "EnqDone kClosedAndNotify"] t by simp
  next
    case lost
    then show ?thesis
      using inv_local [OF s, of t] load_ok(1) [of s t v] t by (auto simp del: thread_ok.simps)
  next
    case test
    then have "ms_sequence (slot_of (ch_ring s) tail) = tail \<Longrightarrow> thread_ok s t (EnqClaim tail v)"
      using ok seq by (auto dest: sym)
    then show ?thesis
      using test inv_local [OF s, of t] inv_local [OF s, of t "EnqClaim tail v"] t by (auto simp: Let_def sint_zero simp del: thread_ok.simps(2))
  qed (use inv_local [OF s, of t] t in simp)
qed

text \<open>A sequence number one past the head means a published value: it cannot come from the round before.\<close>

lemma published_ok:
  assumes s: "mpmc_inv s" and p: "unat p \<le> head_pos (ch_ring s)" "ms_sequence (slot_of (ch_ring s) p) = p + 1"
  shows "thread_ok s t (DeqClaim p)"
proof -
  note inv = mpmc_invD [OF s]
  have c: "2 \<le> cap (ch_ring s)" by (rule cap_ge [OF inv(1)])
  have "unat p + 1 < 2 ^ 64"
    using p(1) inv(3) tail_pos_less [of "ch_ring s"] by simp
  then have seq: "slot_seq (ch_ring s) (unat p) = unat p + 1"
    using slot_of_seq_val(1) [OF inv(1), of p] p(2) unat_plus_one [of p] by simp
  have "head_pos (ch_ring s) < tail_pos (ch_ring s)" if "unat p = head_pos (ch_ring s)"
  proof (rule ccontr)
    assume "\<not> head_pos (ch_ring s) < tail_pos (ch_ring s)"
    then have "slot_seq (ch_ring s) (tail_pos (ch_ring s)) = tail_pos (ch_ring s) + 1"
      using seq that inv(3) by simp
    then show False
      using inv(5) [of "tail_pos (ch_ring s)"] c by (auto simp: cslot_ok_def slot_state_def)
  qed
  then show ?thesis using p(1) seq by auto
qed

lemma inv_step:
  assumes s: "mpmc_inv s"
  shows "mpmc_inv (event (Step t weak) s)"
proof (cases "ch_pcs s t")
  case (EnqLoop tail v)
  then show ?thesis by (rule inv_enq_loop [OF s])
next
  case (EnqClaim tail v)
  then show ?thesis
    using inv_local [OF s, of t "EnqLoop (mr_tail (ch_ring s)) v"] load_ok(1) [of s t v] inv_claim_tail [OF s EnqClaim]
    by (simp del: thread_ok.simps)
next
  case (EnqConstruct p v)
  then have "ms_storage (slot_of (ch_ring s) p) = None"
    using mpmc_invD(6) [OF s, of t] slot_of_seq_val(2) [OF mpmc_invD(1) [OF s], of p] by simp
  then show ?thesis
    using inv_construct [OF s EnqConstruct refl] EnqConstruct by simp
next
  case (EnqPublish p)
  then show ?thesis
    using inv_publish [OF s EnqPublish refl] by simp
next
  case (DeqLoop p)
  then show ?thesis
    using inv_local [OF s, of t DeqLoad] inv_local [OF s, of t "DeqDone None"]
      inv_local [OF s, of t "DeqClaim p"] published_ok [OF s, of p] mpmc_invD(6) [OF s, of t]
    by (simp add: Let_def sint_zero)
next
  case (DeqClaim p)
  then show ?thesis
    using inv_local [OF s, of t "DeqLoop (mr_head (ch_ring s))"] load_ok(2) [of s t] inv_claim_head [OF s DeqClaim]
    by (simp del: thread_ok.simps)
next
  case (DeqTake p)
  then have "ms_storage (slot_of (ch_ring s) p) = Some (snd (ch_sent s ! unat p))"
    using mpmc_invD(6) [OF s, of t] slot_of_seq_val(2) [OF mpmc_invD(1) [OF s], of p] by simp
  then show ?thesis
    using inv_take [OF s DeqTake refl refl] DeqTake by simp
next
  case (DeqRelease p v)
  then show ?thesis
    using inv_release [OF s DeqRelease refl] by simp
next
  case CloseOr
  then show ?thesis
    using inv_close [OF s, of t "CloseDone (tail_closed (mr_tail (ch_ring s)))"] by simp
next
  case DrainTail
  then show ?thesis
    using inv_local [OF s, of t "DrainDone False"] inv_local [OF s, of t "DrainHead (mr_tail (ch_ring s))"] by simp
next
  case (DrainHead tail)
  then have tail: "tail_closed tail" "mr_tail (ch_ring s) = tail"
    using mpmc_invD(6) [OF s, of t] by auto
  then have "thread_ok s t (DrainDone (tail AND kTailPositionMask = mr_head (ch_ring s)))"
    by (auto simp: head_pos_def tail_pos_def)
  then show ?thesis
    using inv_local [OF s, of t] DrainHead by (simp del: thread_ok.simps)
qed (use s inv_local [OF s, of t] load_ok [of s t] mpmc_invD(6) [OF s, of t] in \<open>simp_all del: thread_ok.simps\<close>)

theorem mpmc_reachable_inv: "mpmc_reachable capacity s \<Longrightarrow> mpmc_inv s \<and> cap (ch_ring s) = normalizeCapacity capacity"
proof (induction rule: mpmc_reachable.induct)
  case start
  show ?case
    by (simp add: inv_start) (simp add: new_channel_def new_ring_ok)
next
  case (event s e)
  show ?case
  proof (cases e)
    case (Call t c)
    have "writing (ch_pcs s t) = None \<and> reading (ch_pcs s t) = None" if "finished (ch_pcs s t)"
      using that by (cases "ch_pcs s t") auto
    moreover have "thread_ok s t (call_start c)" "writing (call_start c) = None" "reading (call_start c) = None"
      by (cases c; simp)+
    ultimately show ?thesis
      using event.IH inv_local [of s t "call_start c"] Call by auto
  next
    case (Step t weak)
    have "cap (snd (thread_step weak x r)) = cap r" for x :: "'a pc" and r
      by (cases x) (auto simp: Let_def split: option.splits)
    then have "cap (ch_ring (event e s)) = cap (ch_ring s)"
      using Step by (auto simp: split: prod.splits) (metis snd_conv)
    then show ?thesis
      using event.IH inv_step [of s t weak] Step by auto
  qed
qed

section \<open>What a thread sees\<close>

lemma sint_difference:
  assumes "- (2 ^ 63) \<le> int (unat a) - int (unat b)" "int (unat a) - int (unat b) < 2 ^ 63"
  shows "sint (a - b :: u64) = int (unat a) - int (unat b)"
proof -
  have "uint (a - b) = take_bit 64 (uint a - uint b)"
    by (simp add: uint_word_ariths take_bit_eq_mod)
  then have "sint (a - b) = signed_take_bit 63 (take_bit 64 (uint a - uint b))"
    unfolding sint_uint by simp
  also have "\<dots> = signed_take_bit 63 (uint a - uint b)"
    unfolding signed_take_bit_take_bit by simp
  also have "\<dots> = uint a - uint b"
    using assms by (intro signed_take_bit_int_eq_self) (simp_all only: uint_nat)
  finally show ?thesis
    by (simp only: uint_nat)
qed

lemma sint_difference_sign:
  assumes "unat (a :: u64) < 2 ^ 63" "unat b < 2 ^ 63"
  shows "sint (a - b) < 0 \<longleftrightarrow> unat a < unat b"
proof -
  define x y where xy: "x = unat a" "y = unat b"
  have "sint (a - b) = int x - int y"
    using sint_difference [of a b] assms unfolding xy [symmetric] by simp
  then have "sint (a - b) < 0 \<longleftrightarrow> x < y" by simp
  then show ?thesis by (simp only: xy)
qed

lemma sint_difference_le:
  assumes "unat (a :: u64) \<le> unat b" "unat b \<le> unat a + 2 ^ 63"
  shows "\<not> 0 < sint (a - b)"
proof -
  define x y where xy: "x = unat a" "y = unat b"
  have "sint (a - b) = int x - int y"
    using sint_difference [of a b] assms unfolding xy [symmetric] by simp
  then show ?thesis using assms(1) unfolding xy [symmetric] by simp
qed

text \<open>The sequence number of the slot of an old position has moved past it.\<close>

lemma seq_lower:
  assumes s: "mpmc_inv s" and p: "p \<le> tail_pos (ch_ring s)"
  shows "slot_seq (ch_ring s) p \<le> tail_pos (ch_ring s) + cap (ch_ring s)"
    "p < tail_pos (ch_ring s) \<Longrightarrow> p \<le> slot_seq (ch_ring s) p"
proof -
  let ?r = "ch_ring s" and ?c = "cap (ch_ring s)" and ?n = "tail_pos (ch_ring s)"
  have c: "0 < ?c" by (rule cap_pos [OF mpmc_invD(1) [OF s]])
  define q where "q = ?n + (p + (?c - 1) * ?n) mod ?c"
  have "q mod ?c = (?n + (p + (?c - 1) * ?n)) mod ?c"
    by (simp add: q_def mod_simps)
  also have "?n + (p + (?c - 1) * ?n) = p + ?c * ?n"
    using c by (cases ?c) auto
  finally have q: "q mod ?c = p mod ?c" "?n \<le> q" "q < ?n + ?c"
    using c by (simp_all add: q_def)
  have sq: "slot_seq ?r q = slot_seq ?r p"
    using q(1) by (simp add: slot_seq_def)
  have ok: "cslot_ok s q" by (rule mpmc_invD(5) [OF s q(2,3)])
  then show "slot_seq ?r p \<le> ?n + ?c"
    using q(3) c unfolding sq [symmetric] cslot_ok_def slot_state_def by auto
  assume "p < ?n"
  then have "p + ?c \<le> q"
    using q window_inj [of p ?c q] c by (cases "q < p + ?c") auto
  then show "p \<le> slot_seq ?r p"
    using ok unfolding sq [symmetric] cslot_ok_def slot_state_def by auto
qed

lemma seq_above:
  assumes s: "mpmc_inv s" and p: "p < head_pos (ch_ring s)"
  shows "p < slot_seq (ch_ring s) p"
proof -
  let ?r = "ch_ring s" and ?c = "cap (ch_ring s)" and ?n = "tail_pos (ch_ring s)"
  have c: "2 \<le> ?c" by (rule cap_ge [OF mpmc_invD(1) [OF s]])
  have n: "p < ?n" using p mpmc_invD(3) [OF s] by simp
  show ?thesis
  proof (cases "?n \<le> p + ?c")
    case True
    have "cslot_ok s (p + ?c)"
      using mpmc_invD(5) [OF s True] n by simp
    then show ?thesis
      using p c unfolding cslot_ok_def slot_state_def by (auto simp: slot_period)
  next
    case False
    then have "p + ?c \<le> slot_seq ?r (p + ?c)"
      by (intro seq_lower(2) [OF s]) auto
    then show ?thesis using c by (simp add: slot_period)
  qed
qed

lemma slot_difference:
  assumes s: "mpmc_inv s" and n: "tail_pos (ch_ring s) < 2 ^ 62" and p: "unat p \<le> tail_pos (ch_ring s)"
  shows "sint (ms_sequence (slot_of (ch_ring s) p) - p) < 0 \<longleftrightarrow> slot_seq (ch_ring s) (unat p) < unat p"
    "sint (ms_sequence (slot_of (ch_ring s) p) - (p + 1)) < 0 \<longleftrightarrow> slot_seq (ch_ring s) (unat p) \<le> unat p"
proof -
  have sq: "unat (ms_sequence (slot_of (ch_ring s) p)) = slot_seq (ch_ring s) (unat p)"
    by (rule slot_of_seq_val(1) [OF mpmc_invD(1) [OF s]])
  have lt: "slot_seq (ch_ring s) (unat p) < 2 ^ 63"
    using seq_lower(1) [OF s p] n cap_le [OF mpmc_invD(1) [OF s]] by simp
  have p1: "unat (p + 1) = unat p + 1"
    using p n by (intro unat_plus_one) simp
  show "sint (ms_sequence (slot_of (ch_ring s) p) - p) < 0 \<longleftrightarrow> slot_seq (ch_ring s) (unat p) < unat p"
    using sint_difference_sign [of "ms_sequence (slot_of (ch_ring s) p)" p] lt p n by (simp add: sq)
  show "sint (ms_sequence (slot_of (ch_ring s) p) - (p + 1)) < 0 \<longleftrightarrow> slot_seq (ch_ring s) (unat p) \<le> unat p"
    using sint_difference_sign [of "ms_sequence (slot_of (ch_ring s) p)" "p + 1"] lt p n by (simp add: sq p1 less_Suc_eq_le)
qed

text \<open>A producer that reports a full ring looked at the current tail, whose slot is still in use.\<close>

lemma full_step:
  assumes s: "mpmc_inv s" and n: "tail_pos (ch_ring s) < 2 ^ 62"
    and t: "ch_pcs s t = EnqLoop tail v" and full: "ch_pcs (event (Step t weak) s) t = EnqDone kFull"
  shows "cap (ch_ring s) \<le> tail_pos (ch_ring s)"
    "head_pos (ch_ring s) + cap (ch_ring s) = tail_pos (ch_ring s) \<or> tail_pos (ch_ring s) - cap (ch_ring s) \<in> readers s"
proof -
  let ?r = "ch_ring s" and ?n = "tail_pos (ch_ring s)"
  have d: "sint (ms_sequence (slot_of ?r tail) - tail) < 0" "\<not> tail_closed tail"
    using full t by (auto simp: Let_def split: if_splits)
  then have p: "unat tail \<le> ?n"
    using mpmc_invD(6) [OF s, of t] t by simp
  have lt: "slot_seq ?r (unat tail) < unat tail"
    using d(1) slot_difference(1) [OF s n p] by simp
  then have eq: "unat tail = ?n"
    using seq_lower(2) [OF s p] p by fastforce
  have c: "0 < cap ?r" by (rule cap_pos [OF mpmc_invD(1) [OF s]])
  have ok: "cslot_ok s ?n"
    using mpmc_invD(5) [OF s, of ?n] c by simp
  then show "cap ?r \<le> ?n"
    using lt eq unfolding cslot_ok_def slot_state_def by auto
  show "head_pos ?r + cap ?r = ?n \<or> ?n - cap ?r \<in> readers s"
    using ok lt eq mpmc_invD(4) [OF s] unfolding cslot_ok_def slot_state_def by auto
qed

text \<open>A consumer that reports an empty ring looked at the current head, where nothing is published.\<close>

lemma empty_step:
  assumes s: "mpmc_inv s" and n: "tail_pos (ch_ring s) < 2 ^ 62"
    and t: "ch_pcs s t = DeqLoop p" and none: "ch_pcs (event (Step t weak) s) t = DeqDone None"
  shows "head_pos (ch_ring s) = tail_pos (ch_ring s) \<or> head_pos (ch_ring s) \<in> writers s"
proof (rule ccontr)
  let ?r = "ch_ring s" and ?h = "head_pos (ch_ring s)"
  assume "\<not> ?thesis"
  then have h: "?h < tail_pos ?r" "?h \<notin> writers s"
    using mpmc_invD(3) [OF s] by auto
  have p: "unat p \<le> ?h" "unat p \<le> tail_pos ?r"
    using mpmc_invD(3) [OF s] mpmc_invD(6) [OF s, of t] t by auto
  have "sint (ms_sequence (slot_of ?r p) - (p + 1)) < 0"
    using none t by (auto simp: Let_def split: if_splits)
  then have lt: "slot_seq ?r (unat p) \<le> unat p"
    using slot_difference(2) [OF s n p(2)] by simp
  have c: "2 \<le> cap ?r" by (rule cap_ge [OF mpmc_invD(1) [OF s]])
  show False
  proof (cases "unat p = ?h")
    case True
    have "cslot_ok s (?h + cap ?r)"
      using mpmc_invD(4,5) [OF s] h(1) by simp
    then show False
      using lt True h c unfolding cslot_ok_def slot_state_def by (auto simp: slot_period)
  next
    case False
    then have "unat p < ?h" using p(1) by simp
    then show False
      using seq_above [OF s \<open>unat p < ?h\<close>] lt by simp
  qed
qed

section \<open>Properties\<close>

definition at_rest :: "'v MChannel \<Rightarrow> bool" where
  "at_rest s = (\<forall>t. finished (ch_pcs s t))"

lemma at_rest_roles:
  assumes "at_rest s" shows "writers s = {}" "readers s = {}" "takers s = {}"
proof -
  have "writing (ch_pcs s t) = None \<and> reading (ch_pcs s t) = None" for t
    using assms unfolding at_rest_def by (cases "ch_pcs s t") (auto dest!: spec [of _ t])
  then show "writers s = {}" "readers s = {}" "takers s = {}"
    unfolding writers_def readers_def takers_def by (auto, metis option.distinct(1) reading.simps(1))
qed

text \<open>
  C3. The channel as a queue. In every reachable state, however producers and consumers interleave: at most \<open>capacity\<close>
  values are between the reservations and the claims of the consumers; every value taken at a position is the value that was
  sent at that position, no position is taken twice, and every consumer takes its positions in ascending order, so values of
  one producer reach one consumer in the order they were sent. When no operation is under way, the values taken are
  exactly the first \<open>head\<close> values sent, and the ring holds exactly the others, in order.
\<close>

theorem mpmc_fifo:
  assumes "mpmc_reachable capacity s"
  shows "length (ch_sent s) = tail_pos (ch_ring s) \<and> head_pos (ch_ring s) \<le> tail_pos (ch_ring s)
    \<and> tail_pos (ch_ring s) \<le> head_pos (ch_ring s) + normalizeCapacity capacity
    \<and> (\<forall>(t, p, v) \<in> set (ch_got s). p < head_pos (ch_ring s) \<and> v = snd (ch_sent s ! p))
    \<and> distinct (map (fst \<circ> snd) (ch_got s))
    \<and> (\<forall>t. sorted (map (fst \<circ> snd) (filter (\<lambda>g. fst g = t) (ch_got s))))
    \<and> (at_rest s \<longrightarrow>
         mset (map (snd \<circ> snd) (ch_got s)) = mset (map snd (take (head_pos (ch_ring s)) (ch_sent s)))
         \<and> map (slot_val (ch_ring s)) [head_pos (ch_ring s)..<tail_pos (ch_ring s)]
             = map (Some \<circ> snd) (drop (head_pos (ch_ring s)) (ch_sent s)))"
proof -
  have s: "mpmc_inv s" and c: "cap (ch_ring s) = normalizeCapacity capacity"
    using mpmc_reachable_inv [OF assms] by auto
  note inv = mpmc_invD [OF s]
  let ?h = "head_pos (ch_ring s)" and ?n = "tail_pos (ch_ring s)"
  have got: "map (snd \<circ> snd) (ch_got s) = map (\<lambda>p. snd (ch_sent s ! p)) (map (fst \<circ> snd) (ch_got s))"
    using inv(9) by (auto simp: got_ok_def)
  have rest1: "mset (map (snd \<circ> snd) (ch_got s)) = mset (map snd (take ?h (ch_sent s)))" if "at_rest s"
  proof -
    have "set (map (fst \<circ> snd) (ch_got s)) = set [0..<?h]"
      using inv(9) at_rest_roles(3) [OF that] unfolding got_ok_def by force
    then have "mset (map (fst \<circ> snd) (ch_got s)) = mset [0..<?h]"
      using inv(9) by (intro set_eq_iff_mset_eq_distinct [THEN iffD1]) (auto simp: got_ok_def)
    then have "mset (map (\<lambda>p. snd (ch_sent s ! p)) (map (fst \<circ> snd) (ch_got s)))
        = mset (map (\<lambda>p. snd (ch_sent s ! p)) [0..<?h])"
      unfolding mset_map by simp
    also have "map (\<lambda>p. snd (ch_sent s ! p)) [0..<?h] = map snd (take ?h (ch_sent s))"
      using inv(2,3) by (intro nth_equalityI) auto
    finally show ?thesis unfolding got .
  qed
  have rest2: "map (slot_val (ch_ring s)) [?h..<?n] = map (Some \<circ> snd) (drop ?h (ch_sent s))" if "at_rest s"
  proof (rule nth_equalityI)
    fix i assume "i < length (map (slot_val (ch_ring s)) [?h..<?n])"
    then have i: "?h + i < ?n" by simp
    have "cslot_ok s (?h + i + cap (ch_ring s))"
      using inv(4) i by (intro inv(5)) auto
    then have "slot_val (ch_ring s) (?h + i) = Some (snd (ch_sent s ! (?h + i)))"
      using at_rest_roles [OF that] i by (auto simp: cslot_ok_def slot_state_def slot_period)
    then show "map (slot_val (ch_ring s)) [?h..<?n] ! i = map (Some \<circ> snd) (drop ?h (ch_sent s)) ! i"
      using i inv(2) by simp
  qed (use inv(2) in simp)
  show ?thesis
    using inv(2-4,9) c rest1 rest2 unfolding got_ok_def by simp
qed

text \<open>A producer sends one value, a consumer takes it.\<close>

definition mpmc_sample_run :: "nat MEvent list" where
  "mpmc_sample_run = [Call 0 (CallSend 7), Step 0 False, Step 0 False, Step 0 True, Step 0 False, Step 0 False, Step 0 False, Step 0 False,
     Call 1 CallRecv, Step 1 False, Step 1 False, Step 1 False, Step 1 False, Step 1 False]"

lemma sample_reachable: "mpmc_reachable 2 (fold event mpmc_sample_run (new_channel 2))"
  by (rule mpmc_reachable_fold [OF mpmc_reachable.start])

theorem mpmc_fifo_witness:
  "ch_got (fold event mpmc_sample_run (new_channel 2)) = [(1, 0, 7)]
   \<and> length (ch_sent (fold event mpmc_sample_run (new_channel 2))) = tail_pos (ch_ring (fold event mpmc_sample_run (new_channel 2)))
   \<and> 7 = snd (ch_sent (fold event mpmc_sample_run (new_channel 2)) ! 0)"
proof -
  have got: "ch_got (fold event mpmc_sample_run (new_channel 2)) = [(1, 0, 7)]"
    by code_simp
  show ?thesis
    using mpmc_fifo [OF sample_reachable] unfolding got by auto
qed

text \<open>
  C21. Memory safety of the ring: in every reachable state no thread has constructed over a live object or read a dead one, and
  two threads that are between claiming and handing on a slot never work on the same slot, so the unsynchronised accesses
  to the storage never race.
\<close>

theorem mpmc_slots_exclusive:
  assumes "mpmc_reachable capacity s"
  shows "(\<forall>t. ch_pcs s t \<noteq> Broken)
    \<and> (\<forall>t u p q. t \<noteq> u \<and> (writing (ch_pcs s t) = Some p \<or> reading (ch_pcs s t) = Some p)
         \<and> (writing (ch_pcs s u) = Some q \<or> reading (ch_pcs s u) = Some q)
         \<longrightarrow> p mod normalizeCapacity capacity \<noteq> q mod normalizeCapacity capacity)"
proof -
  have s: "mpmc_inv s" and c: "cap (ch_ring s) = normalizeCapacity capacity"
    using mpmc_reachable_inv [OF assms] by auto
  have "ch_pcs s t \<noteq> Broken" for t
    using mpmc_invD(6) [OF s, of t] by auto
  moreover have w: "held (ch_ring s) p \<and> head_pos (ch_ring s) \<le> p" if "writing (ch_pcs s t) = Some p" for t p
    using mpmc_invD(6) [OF s, of t] that by (cases "ch_pcs s t") auto
  moreover have r: "held (ch_ring s) p \<and> p < head_pos (ch_ring s)" if "reading (ch_pcs s t) = Some p" for t p
    using mpmc_invD(6) [OF s, of t] that by (cases "ch_pcs s t") auto
  ultimately show ?thesis
    using mpmc_invD(7,8) [OF s] unfolding c [symmetric]
    by (metis held_slot_eq leD)
qed

theorem mpmc_slots_exclusive_witness:
  "ch_pcs (fold event [Call 0 (CallSend (7 :: nat)), Step 0 False, Step 0 False, Step 0 False] (new_channel 2)) 0 = EnqConstruct 0 7
   \<and> ch_pcs (fold event [Call 0 (CallSend (7 :: nat)), Step 0 False, Step 0 False, Step 0 False] (new_channel 2)) 0 \<noteq> Broken"
proof
  show "ch_pcs (fold event [Call 0 (CallSend (7 :: nat)), Step 0 False, Step 0 False, Step 0 False] (new_channel 2)) 0 = EnqConstruct 0 7"
    by code_simp
qed (use mpmc_slots_exclusive [OF mpmc_reachable_fold [OF mpmc_reachable.start]] in blast)

text \<open>
  C30. The two negative answers are honest, while fewer than \<open>2 ^ 62\<close> values have been sent. When a producer reports \<open>kFull\<close>, all
  slots are in use at that moment: \<open>capacity\<close> values wait, or the consumer of the oldest slot is still moving its value
  out. When a consumer reports an empty ring, every value sent has been claimed, or the producer at the head has not published yet. With
  no other operation under way the ring is full, or empty.
\<close>

theorem mpmc_refusals_honest:
  assumes "mpmc_reachable capacity s" "length (ch_sent s) < 2 ^ 62"
  shows "(\<forall>t tail v weak. ch_pcs s t = EnqLoop tail v \<and> ch_pcs (event (Step t weak) s) t = EnqDone kFull \<longrightarrow>
       length (ch_sent s) = head_pos (ch_ring s) + normalizeCapacity capacity
       \<or> (\<exists>u. reading (ch_pcs s u) = Some (length (ch_sent s) - normalizeCapacity capacity)))
    \<and> (\<forall>t p weak. ch_pcs s t = DeqLoop p \<and> ch_pcs (event (Step t weak) s) t = DeqDone None \<longrightarrow>
       head_pos (ch_ring s) = length (ch_sent s) \<or> (\<exists>u. writing (ch_pcs s u) = Some (head_pos (ch_ring s))))"
proof -
  have s: "mpmc_inv s" and c: "cap (ch_ring s) = normalizeCapacity capacity"
    using mpmc_reachable_inv [OF assms(1)] by auto
  have n: "tail_pos (ch_ring s) < 2 ^ 62"
    using assms(2) mpmc_invD(2) [OF s] by simp
  have full: "length (ch_sent s) = head_pos (ch_ring s) + normalizeCapacity capacity
       \<or> (\<exists>u. reading (ch_pcs s u) = Some (length (ch_sent s) - normalizeCapacity capacity))"
    if "ch_pcs s t = EnqLoop tail v" "ch_pcs (event (Step t weak) s) t = EnqDone kFull" for t tail v weak
    using full_step(2) [OF s n that] mpmc_invD(2) [OF s] by (auto simp: readers_def c)
  have empty: "head_pos (ch_ring s) = length (ch_sent s) \<or> (\<exists>u. writing (ch_pcs s u) = Some (head_pos (ch_ring s)))"
    if "ch_pcs s t = DeqLoop p" "ch_pcs (event (Step t weak) s) t = DeqDone None" for t p weak
    using empty_step [OF s n that] mpmc_invD(2) [OF s] by (auto simp: writers_def)
  show ?thesis using full empty by blast
qed

text \<open>A ring of two slots, filled by one producer that then tries a third time.\<close>

definition full_run :: "nat MEvent list" where
  "full_run = concat (replicate 2 (Call 0 (CallSend 7) # replicate 5 (Step 0 False))) @ [Call 0 (CallSend 8), Step 0 False]"

theorem mpmc_refusals_honest_witness:
  "ch_pcs (event (Step 0 False) (fold event full_run (new_channel 2))) 0 = EnqDone kFull
   \<and> (length (ch_sent (fold event full_run (new_channel 2))) = head_pos (ch_ring (fold event full_run (new_channel 2))) + normalizeCapacity 2
      \<or> (\<exists>u. reading (ch_pcs (fold event full_run (new_channel 2)) u)
              = Some (length (ch_sent (fold event full_run (new_channel 2))) - normalizeCapacity 2)))"
proof -
  let ?s = "fold event full_run (new_channel 2)"
  have run: "ch_pcs ?s 0 = EnqLoop 2 8" "length (ch_sent ?s) = 2" "ch_pcs (event (Step 0 False) ?s) 0 = EnqDone kFull"
    by code_simp+
  then have "length (ch_sent ?s) < 2 ^ 62" by simp
  then show ?thesis
    using mpmc_refusals_honest [OF mpmc_reachable_fold [OF mpmc_reachable.start, of 2 full_run]] run(1,3) by blast
qed

text \<open>The head only moves forward.\<close>

lemma thread_step_head:
  "mr_head (snd (thread_step weak x r)) =
    (case x of DeqClaim p \<Rightarrow> if mr_head r = p \<and> \<not> weak then p + 1 else mr_head r | _ \<Rightarrow> mr_head r)"
  by (cases x) (simp_all add: Let_def split: option.splits)

lemma event_ring: "ch_ring (event (Step t weak) s) = snd (thread_step weak (ch_pcs s t) (ch_ring s))"
  by (simp add: split: prod.splits)

lemma head_mono_event:
  assumes s: "mpmc_inv s"
  shows "head_pos (ch_ring s) \<le> head_pos (ch_ring (event e s))"
proof (cases e)
  case (Step t weak)
  show ?thesis
  proof (cases "ch_pcs s t = DeqClaim (mr_head (ch_ring s)) \<and> \<not> weak")
    case True
    then have "unat (mr_head (ch_ring s)) + 1 < 2 ^ 63"
      using mpmc_invD(6) [OF s, of t] tail_pos_less [of "ch_ring s"] by (simp add: head_pos_def)
    then have "unat (mr_head (ch_ring s) + 1) = unat (mr_head (ch_ring s)) + 1"
      by (intro unat_plus_one) simp
    then show ?thesis
      using True unfolding Step head_pos_def event_ring thread_step_head by simp
  next
    case False
    then have "mr_head (ch_ring (event e s)) = mr_head (ch_ring s)"
      unfolding Step event_ring thread_step_head by (cases "ch_pcs s t") auto
    then show ?thesis by (simp add: head_pos_def)
  qed
qed auto

lemma head_mono:
  "mpmc_reachable capacity s \<Longrightarrow> head_pos (ch_ring s) \<le> head_pos (ch_ring (fold event es s))"
proof (induction es arbitrary: s)
  case (Cons e es)
  have "mpmc_inv s"
    using mpmc_reachable_inv [OF Cons.prems] by blast
  then have "head_pos (ch_ring s) \<le> head_pos (ch_ring (event e s))"
    by (rule head_mono_event)
  also have "\<dots> \<le> head_pos (ch_ring (fold event es (event e s)))"
    by (rule Cons.IH [OF mpmc_reachable.event [OF Cons.prems]])
  finally show ?case by (simp del: event.simps)
qed simp

text \<open>\<open>close\<close> is final.\<close>

lemma closed_event:
  assumes s: "mpmc_inv s" and closed: "tail_closed (mr_tail (ch_ring s))"
  shows "mr_tail (ch_ring (event e s)) = mr_tail (ch_ring s)" "ch_sent (event e s) = ch_sent s"
proof -
  have "\<not> tail_closed tail" if "ch_pcs s t = EnqClaim tail v" for t tail v
    using mpmc_invD(6) [OF s, of t] that by simp
  then have "mr_tail (ch_ring (event e s)) = mr_tail (ch_ring s) \<and> ch_sent (event e s) = ch_sent s"
  proof (cases e)
    case (Step t weak)
    then show ?thesis
      using closed \<open>\<And>t tail v. ch_pcs s t = EnqClaim tail v \<Longrightarrow> \<not> tail_closed tail\<close> [of t]
      by (cases "ch_pcs s t") (auto simp: Let_def close_idem split: option.splits)
  qed auto
  then show "mr_tail (ch_ring (event e s)) = mr_tail (ch_ring s)" "ch_sent (event e s) = ch_sent s"
    by auto
qed

lemma closed_run:
  assumes "mpmc_reachable capacity s" "tail_closed (mr_tail (ch_ring s))"
  shows "mr_tail (ch_ring (fold event es s)) = mr_tail (ch_ring s) \<and> ch_sent (fold event es s) = ch_sent s"
  using assms
proof (induction es arbitrary: s)
  case (Cons e es)
  have "mpmc_inv s"
    using mpmc_reachable_inv [OF Cons.prems(1)] by blast
  note e = closed_event [OF this Cons.prems(2), of e]
  show ?case
    using Cons.IH [OF mpmc_reachable.event [OF Cons.prems(1)], of e] Cons.prems(2) e by (simp del: event.simps)
qed simp

text \<open>
  C22. Closing is final and loses nothing: once the closing bit is set no further value is ever accepted; and when a caller has
  been told that the channel is closed and drained, every value that was ever sent has been claimed by a consumer, at that moment
  and in every later state, and no thread is still writing one.
\<close>

theorem mpmc_close_final:
  assumes "mpmc_reachable capacity s" "tail_closed (mr_tail (ch_ring s)) \<or> ch_pcs s t = DrainDone True"
  shows "ch_sent (fold event es s) = ch_sent s \<and> tail_closed (mr_tail (ch_ring (fold event es s)))
    \<and> (ch_pcs s t = DrainDone True \<longrightarrow>
         head_pos (ch_ring (fold event es s)) = length (ch_sent s) \<and> writers (fold event es s) = {})"
proof -
  have s: "mpmc_inv s" by (rule conjunct1 [OF mpmc_reachable_inv [OF assms(1)]])
  have closed: "tail_closed (mr_tail (ch_ring s))"
    using assms(2) mpmc_invD(6) [OF s, of t] by auto
  let ?s = "fold event es s"
  have run: "mr_tail (ch_ring ?s) = mr_tail (ch_ring s)" "ch_sent ?s = ch_sent s"
    using closed_run [OF assms(1) closed] by auto
  have s': "mpmc_inv ?s"
    using mpmc_reachable_inv [OF mpmc_reachable_fold [OF assms(1)]] by blast
  have "head_pos (ch_ring ?s) = length (ch_sent s) \<and> writers ?s = {}" if "ch_pcs s t = DrainDone True"
  proof -
    have "head_pos (ch_ring s) = tail_pos (ch_ring s)"
      using mpmc_invD(6) [OF s, of t] that by simp
    moreover have "head_pos (ch_ring s) \<le> head_pos (ch_ring ?s)"
      by (rule head_mono [OF assms(1)])
    moreover have "tail_pos (ch_ring ?s) = tail_pos (ch_ring s)"
      using run(1) by (simp add: tail_pos_def)
    ultimately have h: "head_pos (ch_ring ?s) = tail_pos (ch_ring ?s)"
      using mpmc_invD(3) [OF s'] by simp
    have "writing (ch_pcs ?s u) \<noteq> Some p" for u p
      using mpmc_invD(6) [OF s', of u] h by (cases "ch_pcs ?s u") (auto simp: held_def)
    then show ?thesis
      using h mpmc_invD(2) [OF s'] run(2) by (auto simp: writers_def)
  qed
  then show ?thesis using run closed by simp
qed

definition drained_run :: "nat MEvent list" where
  "drained_run = mpmc_sample_run @ [Call 2 CallClose, Step 2 False, Call 2 CallDrained, Step 2 False, Step 2 False]"

theorem mpmc_close_final_witness:
  "ch_pcs (fold event drained_run (new_channel 2)) 2 = DrainDone True
   \<and> ch_sent (fold event [Call 0 (CallSend 9), Step 0 False, Step 0 False] (fold event drained_run (new_channel 2))) = [(0, 7)]"
proof -
  let ?s = "fold event drained_run (new_channel 2)"
  have run: "ch_pcs ?s 2 = DrainDone True" "ch_sent ?s = [(0, 7)]"
    by code_simp+
  have r: "mpmc_reachable 2 ?s"
    by (rule mpmc_reachable_fold [OF mpmc_reachable.start])
  show ?thesis
    using mpmc_close_final [OF r, of 2 "[Call 0 (CallSend 9), Step 0 False, Step 0 False]"] run by (simp del: event.simps)
qed

section \<open>Progress\<close>

text \<open>One thread runs alone for a number of steps.\<close>

definition alone :: "nat \<Rightarrow> 'v MChannel \<Rightarrow> 'v MChannel" where
  "alone t s = event (Step t False) s"

definition done_within :: "nat \<Rightarrow> nat \<Rightarrow> 'v MChannel \<Rightarrow> bool" where
  "done_within k t s = (\<exists>j \<le> k. finished (ch_pcs ((alone t ^^ j) s) t))"

lemma done_now: "finished (ch_pcs s t) \<Longrightarrow> done_within k t s"
  by (auto simp: done_within_def intro: exI [of _ 0])

lemma done_next: "done_within k t (alone t s) \<Longrightarrow> k < m \<Longrightarrow> done_within m t s"
  unfolding done_within_def by (metis Suc_leI comp_apply funpow_Suc_right le_trans not_less_eq_eq not_le)

lemma alone_inv: "mpmc_inv s \<Longrightarrow> mpmc_inv (alone t s)"
  unfolding alone_def by (rule inv_step)

lemma done_finish: "finished (ch_pcs (alone t s) t) \<Longrightarrow> 0 < m \<Longrightarrow> done_within m t s"
  by (rule done_next [OF done_now])

lemma done_publish: "ch_pcs s t = EnqPublish p \<Longrightarrow> done_within 1 t s"
  by (rule done_finish) (simp_all add: alone_def)

lemma done_construct:
  assumes s: "mpmc_inv s" and t: "ch_pcs s t = EnqConstruct p v"
  shows "done_within 2 t s"
proof (rule done_next [OF done_publish])
  have "ms_storage (slot_of (ch_ring s) p) = None"
    using mpmc_invD(6) [OF s, of t] slot_of_seq_val(2) [OF mpmc_invD(1) [OF s], of p] t by simp
  then show "ch_pcs (alone t s) t = EnqPublish p"
    using t by (simp add: alone_def)
qed simp

lemma current_tail:
  assumes s: "mpmc_inv s" and o: "\<not> tail_closed (mr_tail (ch_ring s))"
  shows "\<not> 0 < sint (ms_sequence (slot_of (ch_ring s) (mr_tail (ch_ring s))) - mr_tail (ch_ring s))"
proof -
  let ?r = "ch_ring s" and ?a = "ms_sequence (slot_of (ch_ring s) (mr_tail (ch_ring s)))"
  have n: "unat (mr_tail ?r) = tail_pos ?r"
    using o by (simp add: tail_pos_def open_position)
  have c: "0 < cap ?r" "cap ?r \<le> 2 ^ 62" by (rule cap_pos [OF mpmc_invD(1) [OF s]], rule cap_le [OF mpmc_invD(1) [OF s]])
  have sq: "unat ?a = slot_seq ?r (tail_pos ?r)"
    using slot_of_seq_val(1) [OF mpmc_invD(1) [OF s], of "mr_tail ?r"] n by simp
  have "cslot_ok s (tail_pos ?r)"
    using mpmc_invD(5) [OF s, of "tail_pos ?r"] c by simp
  then have le: "unat ?a \<le> unat (mr_tail ?r)" "unat (mr_tail ?r) \<le> unat ?a + cap ?r"
    unfolding sq n cslot_ok_def slot_state_def using c by auto
  show ?thesis
    by (rule sint_difference_le) (use le c(2) in simp_all)
qed

lemma done_claim_current:
  assumes s: "mpmc_inv s" and t: "ch_pcs s t = EnqClaim (mr_tail (ch_ring s)) v"
  shows "done_within 3 t s"
  by (rule done_next [OF done_construct [OF alone_inv [OF s]]]) (use t in \<open>simp_all add: alone_def\<close>)

lemma done_loop_current:
  assumes s: "mpmc_inv s" and t: "ch_pcs s t = EnqLoop (mr_tail (ch_ring s)) v"
  shows "done_within 4 t s"
proof (cases "ch_pcs (alone t s) t = EnqClaim (mr_tail (ch_ring s)) v")
  case True
  then have "ch_ring (alone t s) = ch_ring s"
    using t by (auto simp: alone_def Let_def split: if_splits)
  then show ?thesis
    using done_next [OF done_claim_current [OF alone_inv [OF s]]] True by simp
next
  case False
  then have "finished (ch_pcs (alone t s) t)"
    using t current_tail [OF s] by (auto simp: alone_def Let_def split: if_splits)
  then show ?thesis by (rule done_finish) simp
qed

lemma done_claim:
  assumes s: "mpmc_inv s" and t: "ch_pcs s t = EnqClaim tail v"
  shows "done_within 5 t s"
proof (cases "mr_tail (ch_ring s) = tail")
  case True
  then show ?thesis
    using done_next [OF done_construct [OF alone_inv [OF s, of t], of t tail v]] t by (simp add: alone_def)
next
  case False
  then show ?thesis
    using done_next [OF done_loop_current [OF alone_inv [OF s, of t], of t v]] t by (simp add: alone_def)
qed

lemma done_load:
  assumes s: "mpmc_inv s" and t: "ch_pcs s t = EnqLoad v"
  shows "done_within 5 t s"
  using done_next [OF done_loop_current [OF alone_inv [OF s, of t], of t v]] t by (simp add: alone_def)

lemma done_loop:
  assumes s: "mpmc_inv s" and t: "ch_pcs s t = EnqLoop tail v"
  shows "done_within 6 t s"
proof -
  have "finished (ch_pcs (alone t s) t) \<or> ch_pcs (alone t s) t = EnqLoad v \<or> ch_pcs (alone t s) t = EnqClaim tail v
      \<or> ch_pcs (alone t s) t = EnqLoop (mr_tail (ch_ring (alone t s))) v"
    using t by (auto simp: alone_def Let_def split: if_splits)
  then show ?thesis
    using done_finish [of t s 6] done_next [OF done_load [OF alone_inv [OF s]]] done_next [OF done_claim [OF alone_inv [OF s]]]
      done_next [OF done_loop_current [OF alone_inv [OF s]]] by auto
qed

lemma done_release: "ch_pcs s t = DeqRelease p v \<Longrightarrow> done_within 1 t s"
  by (rule done_finish) (simp_all add: alone_def)

lemma done_take:
  assumes s: "mpmc_inv s" and t: "ch_pcs s t = DeqTake p"
  shows "done_within 2 t s"
proof (rule done_next [OF done_release])
  have "ms_storage (slot_of (ch_ring s) p) = Some (snd (ch_sent s ! unat p))"
    using mpmc_invD(6) [OF s, of t] slot_of_seq_val(2) [OF mpmc_invD(1) [OF s], of p] t by simp
  then show "ch_pcs (alone t s) t = DeqRelease p (snd (ch_sent s ! unat p))"
    using t by (simp add: alone_def)
qed simp

lemma current_head:
  assumes s: "mpmc_inv s"
  shows "\<not> 0 < sint (ms_sequence (slot_of (ch_ring s) (mr_head (ch_ring s))) - (mr_head (ch_ring s) + 1))"
proof -
  let ?r = "ch_ring s" and ?a = "ms_sequence (slot_of (ch_ring s) (mr_head (ch_ring s)))" and ?b = "mr_head (ch_ring s) + 1"
  note inv = mpmc_invD [OF s]
  have c: "2 \<le> cap ?r" "cap ?r \<le> 2 ^ 62" by (rule cap_ge [OF inv(1)], rule cap_le [OF inv(1)])
  have sq: "unat ?a = slot_seq ?r (head_pos ?r)"
    using slot_of_seq_val(1) [OF inv(1), of "mr_head ?r"] by (simp add: head_pos_def)
  have h: "head_pos ?r < 2 ^ 63"
    using inv(3) tail_pos_less [of ?r] by linarith
  then have b: "unat ?b = head_pos ?r + 1"
    unfolding head_pos_def by (intro unat_plus_one) simp
  have le: "unat ?a \<le> head_pos ?r + 1 \<and> head_pos ?r \<le> unat ?a + cap ?r"
  proof (cases "head_pos ?r = tail_pos ?r")
    case True
    have "cslot_ok s (tail_pos ?r)"
      using inv(5) [of "tail_pos ?r"] c by simp
    then show ?thesis
      using c True unfolding sq cslot_ok_def slot_state_def by auto
  next
    case False
    have "cslot_ok s (head_pos ?r + cap ?r)"
      using inv(3,4,5) False by simp
    then show ?thesis
      using c unfolding sq cslot_ok_def slot_state_def by (auto simp: slot_period)
  qed
  then show ?thesis
    by (intro sint_difference_le) (use c(2) b in simp_all)
qed

lemma done_deq_claim_current:
  assumes s: "mpmc_inv s" and t: "ch_pcs s t = DeqClaim (mr_head (ch_ring s))"
  shows "done_within 3 t s"
  by (rule done_next [OF done_take [OF alone_inv [OF s]]]) (use t in \<open>simp_all add: alone_def\<close>)

lemma done_deq_loop_current:
  assumes s: "mpmc_inv s" and t: "ch_pcs s t = DeqLoop (mr_head (ch_ring s))"
  shows "done_within 4 t s"
proof (cases "ch_pcs (alone t s) t = DeqClaim (mr_head (ch_ring s))")
  case True
  then have "ch_ring (alone t s) = ch_ring s"
    using t by (auto simp: alone_def Let_def split: if_splits)
  then show ?thesis
    using done_next [OF done_deq_claim_current [OF alone_inv [OF s]]] True by simp
next
  case False
  then have "finished (ch_pcs (alone t s) t)"
    using t current_head [OF s] by (auto simp: alone_def Let_def split: if_splits)
  then show ?thesis by (rule done_finish) simp
qed

lemma done_dequeue:
  assumes s: "mpmc_inv s" and t: "ch_pcs s t = DeqClaim p \<or> ch_pcs s t = DeqLoad"
  shows "done_within 5 t s"
proof (cases "ch_pcs s t = DeqClaim (mr_head (ch_ring s))")
  case True
  then show ?thesis
    using done_next [OF done_take [OF alone_inv [OF s, of t], of t "mr_head (ch_ring s)"]] by (simp add: alone_def)
next
  case False
  then have "ch_pcs (alone t s) t = DeqLoop (mr_head (ch_ring (alone t s)))"
    using t by (auto simp: alone_def)
  then show ?thesis
    using done_next [OF done_deq_loop_current [OF alone_inv [OF s, of t], of t]] by simp
qed

lemma done_deq_loop:
  assumes s: "mpmc_inv s" and t: "ch_pcs s t = DeqLoop p"
  shows "done_within 6 t s"
proof -
  have "finished (ch_pcs (alone t s) t) \<or> ch_pcs (alone t s) t = DeqLoad \<or> ch_pcs (alone t s) t = DeqClaim p"
    using t by (auto simp: alone_def Let_def split: if_splits)
  then show ?thesis
    using done_finish [of t s 6] done_next [OF done_dequeue [OF alone_inv [OF s, of t]]] by auto
qed

lemma done_mono: "done_within k t s \<Longrightarrow> k \<le> m \<Longrightarrow> done_within m t s"
  unfolding done_within_def using le_trans by blast



end
