(* ===== verification/Ws_Utf8.thy ===== *)
theory Ws_Utf8
  imports Galay_Prelude
begin

text \<open>
  The UTF-8 validation of \<^verbatim>\<open>galay-ws/protoc/ws_frame.cc\<close> and \<^verbatim>\<open>galay-ws/kernel/ws_reader.h\<close>: the scalar loop, which the three
  entry points share up to the way they read an octet (plain, masked, masked across two memory segments), and the vector prefix that
  skips blocks of 16 ASCII octets. They accept exactly the concatenations of the UTF-8 encodings of Unicode scalar values.
\<close>

section \<open>The validators\<close>

definition codepoint2 :: "u8 \<Rightarrow> u8 \<Rightarrow> u32" where
  "codepoint2 b1 b2 = push_bit 6 (ucast (b1 AND 0x1F)) OR ucast (b2 AND 0x3F)"

definition codepoint3 :: "u8 \<Rightarrow> u8 \<Rightarrow> u8 \<Rightarrow> u32" where
  "codepoint3 b1 b2 b3 = push_bit 12 (ucast (b1 AND 0x0F)) OR push_bit 6 (ucast (b2 AND 0x3F)) OR ucast (b3 AND 0x3F)"

definition codepoint4 :: "u8 \<Rightarrow> u8 \<Rightarrow> u8 \<Rightarrow> u8 \<Rightarrow> u32" where
  "codepoint4 b1 b2 b3 b4 = push_bit 18 (ucast (b1 AND 0x07)) OR push_bit 12 (ucast (b2 AND 0x3F))
     OR push_bit 6 (ucast (b3 AND 0x3F)) OR ucast (b4 AND 0x3F)"

text \<open>The scalar loop over \<open>len\<close> octets that \<open>at\<close> reads, from index \<open>i\<close>.\<close>

function utf8_loop :: "(nat \<Rightarrow> u8) \<Rightarrow> nat \<Rightarrow> nat \<Rightarrow> bool" where
  "utf8_loop at len i =
    (if i \<ge> len then True
     else
       let byte = at i in
       if byte \<le> 0x7F then utf8_loop at len (i + 1)
       else if byte AND 0xE0 = 0xC0 then
         if i + 1 \<ge> len then False
         else if at (i + 1) AND 0xC0 \<noteq> 0x80 then False
         else if codepoint2 byte (at (i + 1)) < 0x80 then False
         else utf8_loop at len (i + 2)
       else if byte AND 0xF0 = 0xE0 then
         if i + 2 \<ge> len then False
         else if at (i + 1) AND 0xC0 \<noteq> 0x80 then False
         else if at (i + 2) AND 0xC0 \<noteq> 0x80 then False
         else
           let codepoint = codepoint3 byte (at (i + 1)) (at (i + 2)) in
           if codepoint < 0x800 then False
           else if 0xD800 \<le> codepoint \<and> codepoint \<le> 0xDFFF then False
           else utf8_loop at len (i + 3)
       else if byte AND 0xF8 = 0xF0 then
         if i + 3 \<ge> len then False
         else if at (i + 1) AND 0xC0 \<noteq> 0x80 then False
         else if at (i + 2) AND 0xC0 \<noteq> 0x80 then False
         else if at (i + 3) AND 0xC0 \<noteq> 0x80 then False
         else
           let codepoint = codepoint4 byte (at (i + 1)) (at (i + 2)) (at (i + 3)) in
           if codepoint < 0x10000 \<or> codepoint > 0x10FFFF then False
           else utf8_loop at len (i + 4)
       else False)"
  by pat_completeness auto
termination by (relation "measure (\<lambda>(_, len, i). len - i)") auto

declare utf8_loop.simps [simp del]

text \<open>The vector loop: whole blocks of 16 octets without a high bit are skipped.\<close>

function ascii_blocks :: "(nat \<Rightarrow> u8) \<Rightarrow> nat \<Rightarrow> nat \<Rightarrow> nat" where
  "ascii_blocks at len i =
    (if i + 16 \<le> len \<and> list_all (\<lambda>j. at (i + j) AND 0x80 = 0) [0..<16] then ascii_blocks at len (i + 16) else i)"
  by pat_completeness auto
termination by (relation "measure (\<lambda>(_, len, i). len - i)") auto

declare ascii_blocks.simps [simp del]

definition isValidUtf8Bytes :: "bytes \<Rightarrow> bool" where
  "isValidUtf8Bytes data =
    (let at = (\<lambda>i. data ! i) in utf8_loop at (length data) (ascii_blocks at (length data) 0))"

definition masked_at :: "bytes \<Rightarrow> u8 list \<Rightarrow> nat \<Rightarrow> u8" where
  "masked_at data key i = data ! i XOR key ! (i mod 4)"

definition isValidUtf8MaskedBytes :: "bytes \<Rightarrow> u8 list \<Rightarrow> bool" where
  "isValidUtf8MaskedBytes data key =
    (let at = masked_at data key in utf8_loop at (length data) (ascii_blocks at (length data) 0))"

text \<open>The octet at an index of a list of segments, 0 past the end.\<close>

fun segments_at :: "bytes list \<Rightarrow> nat \<Rightarrow> u8 \<Rightarrow> u8" where
  "segments_at [] cursor k = 0"
| "segments_at (iov # iovs) cursor k =
    (if cursor < length iov then iov ! cursor XOR k else segments_at iovs (cursor - length iov) k)"

definition wsIsValidUtf8MaskedIovecs :: "bytes list \<Rightarrow> u8 list \<Rightarrow> bool" where
  "wsIsValidUtf8MaskedIovecs iovecs key =
    utf8_loop (\<lambda>i. segments_at iovecs i (key ! (i mod 4))) (sum_list (map length iovecs)) 0"

section \<open>The encoding\<close>

text \<open>Unicode scalar values and their UTF-8 encoding (RFC 3629).\<close>

definition scalar_value :: "nat \<Rightarrow> bool" where
  "scalar_value c = (c \<le> 0x10FFFF \<and> \<not> (0xD800 \<le> c \<and> c \<le> 0xDFFF))"

definition utf8_encode :: "nat \<Rightarrow> bytes" where
  "utf8_encode c = map of_nat
    (if c < 0x80 then [c]
     else if c < 0x800 then [0xC0 + c div 64, 0x80 + c mod 64]
     else if c < 0x10000 then [0xE0 + c div 4096, 0x80 + c div 64 mod 64, 0x80 + c mod 64]
     else [0xF0 + c div 262144, 0x80 + c div 4096 mod 64, 0x80 + c div 64 mod 64, 0x80 + c mod 64])"

section \<open>Octets as numbers\<close>

lemma unat_and_low: "unat (b AND mask k) = unat b mod 2 ^ k" for b :: "'a::len word"
proof -
  have "unat (take_bit k b) = take_bit k (unat b)"
    by (cases "k \<le> LENGTH('a)") (simp_all add: unsigned_take_bit_eq take_bit_tightened_less_eq_nat)
  also have "\<dots> = unat b mod 2 ^ k"
    by (rule take_bit_eq_mod)
  finally show ?thesis
    by (simp only: take_bit_eq_mask)
qed

lemma unat_and_high: "unat (b AND NOT (mask k)) = unat b div 2 ^ k * 2 ^ k" for b :: u8
proof -
  have "(b AND mask k) + (b AND NOT (mask k)) = (b AND mask k) OR (b AND NOT (mask k))"
    by (rule disjunctive_add) (auto simp: bit_simps)
  also have "\<dots> = b"
    by (rule bit_word_eqI) (auto simp: bit_simps)
  finally have "b AND NOT (mask k) = b - (b AND mask k)"
    by (metis add_diff_cancel_left')
  moreover have "b AND mask k \<le> b"
    by (simp add: word_le_nat_alt unat_and_low)
  ultimately have "unat (b AND NOT (mask k)) = unat b - unat b mod 2 ^ k"
    by (simp add: unat_sub unat_and_low)
  then show ?thesis
    by (simp add: minus_mod_eq_div_mult)
qed

lemma octet_tests:
  fixes b :: u8
  shows "b \<le> 0x7F \<longleftrightarrow> unat b < 128" "b AND 0xE0 = 0xC0 \<longleftrightarrow> unat b div 32 = 6" "b AND 0xF0 = 0xE0 \<longleftrightarrow> unat b div 16 = 14"
    "b AND 0xF8 = 0xF0 \<longleftrightarrow> unat b div 8 = 30" "b AND 0xC0 = 0x80 \<longleftrightarrow> unat b div 64 = 2" "b AND 0x80 = 0 \<longleftrightarrow> unat b < 128"
proof -
  have m: "(0xE0 :: u8) = NOT (mask 5)" "(0xF0 :: u8) = NOT (mask 4)" "(0xF8 :: u8) = NOT (mask 3)" "(0xC0 :: u8) = NOT (mask 6)"
    "(0x80 :: u8) = NOT (mask 7)"
    by (simp_all add: mask_eq_exp_minus_1)
  show "b \<le> 0x7F \<longleftrightarrow> unat b < 128" by (simp add: word_le_nat_alt) linarith
  show "b AND 0xE0 = 0xC0 \<longleftrightarrow> unat b div 32 = 6"
    unfolding word_unat_eq_iff m(1) unat_and_high by simp
  show "b AND 0xF0 = 0xE0 \<longleftrightarrow> unat b div 16 = 14"
    unfolding word_unat_eq_iff unfolding m(2) unat_and_high by simp
  show "b AND 0xF8 = 0xF0 \<longleftrightarrow> unat b div 8 = 30"
    unfolding word_unat_eq_iff unfolding m(3) unat_and_high by simp
  show "b AND 0xC0 = 0x80 \<longleftrightarrow> unat b div 64 = 2"
    unfolding word_unat_eq_iff unfolding m(4) unat_and_high by simp
  show "b AND 0x80 = 0 \<longleftrightarrow> unat b < 128"
    unfolding word_unat_eq_iff unfolding m(5) unat_and_high by (simp add: div_eq_0_iff)
qed

lemma unat_shift_or:
  fixes a c :: u32
  assumes "unat c < 2 ^ k" "unat a < 2 ^ m" "k + m \<le> 32"
  shows "unat (push_bit k a OR c) = 2 ^ k * unat a + unat c"
proof -
  have "\<not> bit c n" if "k \<le> n" for n
  proof
    assume "bit c n"
    then have "bit (unat c) n"
      by (simp add: bit_unsigned_iff)
    then have "unat c div 2 ^ n \<noteq> 0"
      by (metis bit_iff_odd even_zero)
    then have "2 ^ n \<le> unat c"
      by (simp add: div_eq_0_iff)
    then show False
      using assms(1) that by (meson leD order_trans one_le_numeral power_increasing)
  qed
  then have "push_bit k a OR c = push_bit k a + c"
    by (intro disjunctive_add [symmetric]) (auto simp: bit_push_bit_iff)
  then have eq: "push_bit k a OR c = of_nat (2 ^ k * unat a + unat c)"
    by (simp add: push_bit_eq_mult mult.commute)
  have "2 ^ k * unat a + unat c < 2 ^ k * (unat a + 1)"
    using assms(1) by simp
  also have "\<dots> \<le> 2 ^ k * 2 ^ m"
    using assms(2) by (intro mult_le_mono2) simp
  also have "\<dots> \<le> 2 ^ 32"
    using assms(3) by (metis one_le_numeral power_add power_increasing)
  finally show ?thesis
    unfolding eq unat_of_nat by (intro mod_less) simp
qed

lemma unat_low:
  "unat (ucast (b AND 0x3F) :: u32) = unat b mod 64" "unat (ucast (b AND 0x1F) :: u32) = unat b mod 32"
  "unat (ucast (b AND 0x0F) :: u32) = unat b mod 16" "unat (ucast (b AND 0x07) :: u32) = unat b mod 8" for b :: u8
proof -
  have m: "(0x3F :: u8) = mask 6" "(0x1F :: u8) = mask 5" "(0x0F :: u8) = mask 4" "(0x07 :: u8) = mask 3"
    by (simp_all add: mask_eq_exp_minus_1)
  have "unat (ucast w :: u32) = unat w" for w :: u8
    unfolding unsigned_ucast_eq
    by (intro take_bit_nat_eq_self less_trans [OF unat_u8_less [of w]]) simp
  then show "unat (ucast (b AND 0x3F) :: u32) = unat b mod 64" "unat (ucast (b AND 0x1F) :: u32) = unat b mod 32"
    "unat (ucast (b AND 0x0F) :: u32) = unat b mod 16" "unat (ucast (b AND 0x07) :: u32) = unat b mod 8"
    unfolding m by (simp_all add: unat_and_low)
qed

lemma unat_codepoint:
  "unat (codepoint2 a b) = 64 * (unat a mod 32) + unat b mod 64"
  "unat (codepoint3 a b c) = 4096 * (unat a mod 16) + 64 * (unat b mod 64) + unat c mod 64"
  "unat (codepoint4 a b c d) = 262144 * (unat a mod 8) + 4096 * (unat b mod 64) + 64 * (unat c mod 64) + unat d mod 64"
proof -
  have two: "unat (push_bit 6 (ucast (x AND 0x3F) :: u32) OR ucast (y AND 0x3F)) = 64 * (unat x mod 64) + unat y mod 64" for x y :: u8
    by (subst unat_shift_or [where m = 6]) (simp_all add: unat_low)
  have three: "unat (push_bit 12 (ucast (x AND 0x3F) :: u32) OR (push_bit 6 (ucast (y AND 0x3F)) OR ucast (z AND 0x3F)))
      = 4096 * (unat x mod 64) + 64 * (unat y mod 64) + unat z mod 64" for x y z :: u8
    by (subst unat_shift_or [where m = 6]) (simp_all add: unat_low two)
  show "unat (codepoint2 a b) = 64 * (unat a mod 32) + unat b mod 64"
    unfolding codepoint2_def by (subst unat_shift_or [where m = 5]) (simp_all add: unat_low)
  show "unat (codepoint3 a b c) = 4096 * (unat a mod 16) + 64 * (unat b mod 64) + unat c mod 64"
    unfolding codepoint3_def or.assoc by (subst unat_shift_or [where m = 4]) (simp_all add: unat_low two)
  show "unat (codepoint4 a b c d) = 262144 * (unat a mod 8) + 4096 * (unat b mod 64) + 64 * (unat c mod 64) + unat d mod 64"
    unfolding codepoint4_def or.assoc by (subst unat_shift_or [where m = 3]) (simp_all add: unat_low three)
qed

section \<open>Validation is exact\<close>

text \<open>The loop as a recognizer of octet lists.\<close>

fun utf8_list :: "bytes \<Rightarrow> bool" where
  "utf8_list [] = True"
| "utf8_list (a # r) =
    (if unat a < 128 then utf8_list r
     else if unat a div 32 = 6 then
       (case r of b # r' \<Rightarrow> unat b div 64 = 2 \<and> 128 \<le> 64 * (unat a mod 32) + unat b mod 64 \<and> utf8_list r' | _ \<Rightarrow> False)
     else if unat a div 16 = 14 then
       (case r of b # c # r' \<Rightarrow> unat b div 64 = 2 \<and> unat c div 64 = 2
            \<and> 2048 \<le> 4096 * (unat a mod 16) + 64 * (unat b mod 64) + unat c mod 64
            \<and> \<not> (55296 \<le> 4096 * (unat a mod 16) + 64 * (unat b mod 64) + unat c mod 64
               \<and> 4096 * (unat a mod 16) + 64 * (unat b mod 64) + unat c mod 64 \<le> 57343)
            \<and> utf8_list r' | _ \<Rightarrow> False)
     else if unat a div 8 = 30 then
       (case r of b # c # d # r' \<Rightarrow> unat b div 64 = 2 \<and> unat c div 64 = 2 \<and> unat d div 64 = 2
            \<and> 65536 \<le> 262144 * (unat a mod 8) + 4096 * (unat b mod 64) + 64 * (unat c mod 64) + unat d mod 64
            \<and> 262144 * (unat a mod 8) + 4096 * (unat b mod 64) + 64 * (unat c mod 64) + unat d mod 64 \<le> 1114111
            \<and> utf8_list r' | _ \<Rightarrow> False)
     else False)"

lemma drop_eq_Cons_iff: "drop i d = x # r \<longleftrightarrow> i < length d \<and> x = d ! i \<and> r = drop (Suc i) d"
  by (metis Cons_nth_drop_Suc drop_all list.inject not_le list.distinct(1))

lemma utf8_loop_list:
  assumes "\<And>i. i < length d \<Longrightarrow> at i = d ! i"
  shows "utf8_loop at (length d) i = utf8_list (drop i d)"
proof (induction "length d - i" arbitrary: i rule: less_induct)
  case less
  have IH: "utf8_loop at (length d) j = utf8_list (drop j d)" if "i < j" "i < length d" for j
    by (rule less) (use that in auto)
  show ?case
  proof (cases "length d \<le> i")
    case True
    then show ?thesis by (simp add: utf8_loop.simps)
  next
    case False
    then have d: "drop i d = d ! i # drop (Suc i) d"
      by (simp add: Cons_nth_drop_Suc)
    have n: "i + 1 = Suc i" "i + 2 = Suc (Suc i)" "i + 3 = Suc (Suc (Suc i))" "i + 4 = Suc (Suc (Suc (Suc i)))"
      by simp_all
    have i: "i < length d" using False by simp
    have e: "utf8_loop at (length d) (Suc i) = utf8_list (drop (Suc i) d)"
      "utf8_loop at (length d) (Suc (Suc i)) = utf8_list (drop (Suc (Suc i)) d)"
      "utf8_loop at (length d) (Suc (Suc (Suc i))) = utf8_list (drop (Suc (Suc (Suc i))) d)"
      "utf8_loop at (length d) (Suc (Suc (Suc (Suc i)))) = utf8_list (drop (Suc (Suc (Suc (Suc i)))) d)"
      using IH i by simp_all
    have tail: "(case drop (Suc i) d of [] \<Rightarrow> False | b # r \<Rightarrow> P b r) \<longleftrightarrow> Suc i < length d \<and> P (d ! Suc i) (drop (Suc (Suc i)) d)"
      "(case drop (Suc (Suc i)) d of [] \<Rightarrow> False | b # r \<Rightarrow> P b r) \<longleftrightarrow> Suc (Suc i) < length d \<and> P (d ! Suc (Suc i)) (drop (Suc (Suc (Suc i))) d)"
      "(case drop (Suc (Suc (Suc i))) d of [] \<Rightarrow> False | b # r \<Rightarrow> P b r)
         \<longleftrightarrow> Suc (Suc (Suc i)) < length d \<and> P (d ! Suc (Suc (Suc i))) (drop (Suc (Suc (Suc (Suc i)))) d)" for P
      by (auto simp: drop_eq_Cons_iff split: list.splits)
    have at: "at i = d ! i" "Suc i < length d \<Longrightarrow> at (Suc i) = d ! Suc i" "Suc (Suc i) < length d \<Longrightarrow> at (Suc (Suc i)) = d ! Suc (Suc i)"
      "Suc (Suc (Suc i)) < length d \<Longrightarrow> at (Suc (Suc (Suc i))) = d ! Suc (Suc (Suc i))"
      using i assms by simp_all
    note loop = utf8_loop.simps [of at "length d" i, unfolded Let_def octet_tests word_less_nat_alt word_le_nat_alt unat_codepoint n e]
    note lst = utf8_list.simps(2) [of "d ! i" "drop (Suc i) d", unfolded tail, folded d]
    consider "unat (d ! i) < 128" | "\<not> unat (d ! i) < 128" "unat (d ! i) div 32 = 6"
      | "\<not> unat (d ! i) < 128" "unat (d ! i) div 32 \<noteq> 6" "unat (d ! i) div 16 = 14"
      | "\<not> unat (d ! i) < 128" "unat (d ! i) div 32 \<noteq> 6" "unat (d ! i) div 16 \<noteq> 14" by blast
    then show ?thesis
    proof cases
      case 1 then show ?thesis using False at by (simp only: loop lst) simp
    next
      case 2 then show ?thesis using False at by (simp only: loop lst) (simp add: not_le not_less; blast)
    next
      case 3 then show ?thesis using False at by (simp only: loop lst) (simp add: not_le not_less; linarith)
    next
      case 4 then show ?thesis using False at by (simp only: loop lst) (simp add: not_le not_less; linarith)
    qed
  qed
qed

lemma ascii_blocks_list:
  assumes "\<And>i. i < length d \<Longrightarrow> at i = d ! i"
  shows "utf8_list (drop (ascii_blocks at (length d) i) d) = utf8_list (drop i d)"
  using assms
proof (induction at "length d" i rule: ascii_blocks.induct)
  case (1 at i)
  have skip: "utf8_list (xs @ ys) = utf8_list ys" if "list_all (\<lambda>x. unat x < 128) xs" for xs ys
    using that by (induction xs) auto
  show ?case
  proof (cases "i + 16 \<le> length d \<and> list_all (\<lambda>j. at (i + j) AND 0x80 = 0) [0..<16]")
    case True
    then have "list_all (\<lambda>x. unat x < 128) (take 16 (drop i d))"
      using 1(2) by (auto simp: list_all_length octet_tests list_all_iff)
    moreover have "drop i d = take 16 (drop i d) @ drop (i + 16) d"
      by (metis append_take_drop_id drop_drop add.commute)
    ultimately have "utf8_list (drop i d) = utf8_list (drop (i + 16) d)"
      using skip by metis
    then show ?thesis
      using 1 True by (simp add: ascii_blocks.simps [of at "length d" i])
  next
    case False
    then have "ascii_blocks at (length d) i = i"
      unfolding ascii_blocks.simps [of at "length d" i] by (rule if_not_P)
    then show ?thesis by simp
  qed
qed

lemma isValidUtf8Bytes_list: "isValidUtf8Bytes d = utf8_list d"
  unfolding isValidUtf8Bytes_def Let_def by (simp add: utf8_loop_list ascii_blocks_list)

definition apply_key :: "bytes \<Rightarrow> u8 list \<Rightarrow> bytes" where
  "apply_key data key = map (masked_at data key) [0..<length data]"

lemma masked_utf8_list: "isValidUtf8MaskedBytes d key = utf8_list (apply_key d key)"
proof -
  have "masked_at d key i = apply_key d key ! i" if "i < length (apply_key d key)" for i
    using that by (simp add: apply_key_def)
  then show ?thesis
    using utf8_loop_list [of "apply_key d key" "masked_at d key"] ascii_blocks_list [of "apply_key d key" "masked_at d key" 0]
    unfolding isValidUtf8MaskedBytes_def Let_def by (simp add: apply_key_def)
qed

lemma segments_at_concat: "i < length (concat iovs) \<Longrightarrow> segments_at iovs i k = concat iovs ! i XOR k"
  by (induction iovs arbitrary: i) (auto simp: nth_append)

lemma unat_octet: "n < 256 \<Longrightarrow> unat (of_nat n :: u8) = n"
  by (simp add: unat_of_nat)

text \<open>The recognizer on a leading octet and on continuation octets, written with the bits they carry.\<close>

lemma utf8_list_cases:
  "unat a < 128 \<Longrightarrow> utf8_list (a # r) = utf8_list r"
  "\<lbrakk>unat a = 192 + x; x < 32; unat b = 128 + y; y < 64\<rbrakk> \<Longrightarrow> utf8_list (a # b # r) = (128 \<le> 64 * x + y \<and> utf8_list r)"
  "\<lbrakk>unat a = 224 + x; x < 16; unat b = 128 + y; y < 64; unat c = 128 + z; z < 64\<rbrakk> \<Longrightarrow>
     utf8_list (a # b # c # r) = (2048 \<le> 4096 * x + 64 * y + z \<and> scalar_value (4096 * x + 64 * y + z) \<and> utf8_list r)"
  "\<lbrakk>unat a = 240 + x; x < 8; unat b = 128 + y; y < 64; unat c = 128 + z; z < 64; unat d = 128 + w; w < 64\<rbrakk> \<Longrightarrow>
     utf8_list (a # b # c # d # r)
       = (65536 \<le> 262144 * x + 4096 * y + 64 * z + w \<and> 262144 * x + 4096 * y + 64 * z + w \<le> 1114111 \<and> utf8_list r)"
proof -
  have q: "(128 + y) div 64 = 2" "(128 + y) mod 64 = y" if "y < 64" for y :: nat
    using that by (simp_all add: div_nat_eqI mod_if)
  have q2: "(192 + x) div 32 = 6" "(192 + x) mod 32 = x" if "x < 32" for x :: nat
    using that by (simp_all add: div_nat_eqI mod_if)
  have q3: "(224 + x) div 32 = 7" "(224 + x) div 16 = 14" "(224 + x) mod 16 = x" if "x < 16" for x :: nat
    using that by (simp_all add: div_nat_eqI mod_if)
  have q4: "(240 + x) div 32 = 7" "(240 + x) div 16 = 15" "(240 + x) div 8 = 30" "(240 + x) mod 8 = x" if "x < 8" for x :: nat
    using that by (simp_all add: div_nat_eqI mod_if)
  show "unat a < 128 \<Longrightarrow> utf8_list (a # r) = utf8_list r"
    by simp
  show "\<lbrakk>unat a = 192 + x; x < 32; unat b = 128 + y; y < 64\<rbrakk> \<Longrightarrow> utf8_list (a # b # r) = (128 \<le> 64 * x + y \<and> utf8_list r)"
    unfolding utf8_list.simps(2) [of a] by (simp add: q q2)
  show "\<lbrakk>unat a = 224 + x; x < 16; unat b = 128 + y; y < 64; unat c = 128 + z; z < 64\<rbrakk> \<Longrightarrow>
     utf8_list (a # b # c # r) = (2048 \<le> 4096 * x + 64 * y + z \<and> scalar_value (4096 * x + 64 * y + z) \<and> utf8_list r)"
    unfolding utf8_list.simps(2) [of a] by (auto simp: q q3 scalar_value_def)
  show "\<lbrakk>unat a = 240 + x; x < 8; unat b = 128 + y; y < 64; unat c = 128 + z; z < 64; unat d = 128 + w; w < 64\<rbrakk> \<Longrightarrow>
     utf8_list (a # b # c # d # r)
       = (65536 \<le> 262144 * x + 4096 * y + 64 * z + w \<and> 262144 * x + 4096 * y + 64 * z + w \<le> 1114111 \<and> utf8_list r)"
    unfolding utf8_list.simps(2) [of a] by (simp add: q q4)
qed

text \<open>Base 64 digits.\<close>

lemma digits64: "c div 4096 = c div 64 div 64" "c div 262144 = c div 64 div 64 div 64" for c :: nat
  by (simp_all add: div_mult2_eq [symmetric])

lemma digits64_sum:
  "4096 * (c div 4096) + 64 * (c div 64 mod 64) + c mod 64 = c"
  "262144 * (c div 262144) + 4096 * (c div 4096 mod 64) + 64 * (c div 64 mod 64) + c mod 64 = c" for c :: nat
  using mult_div_mod_eq [of 64 c] mult_div_mod_eq [of 64 "c div 64"] mult_div_mod_eq [of 64 "c div 64 div 64"]
  unfolding digits64 by linarith+

lemma pack64:
  fixes x y z u :: nat
  shows "z < 64 \<Longrightarrow> (64 * x + z) div 64 = x" "z < 64 \<Longrightarrow> (64 * x + z) mod 64 = z"
  by simp_all

lemma pack64_3:
  fixes x y z :: nat
  assumes "y < 64" "z < 64"
  shows "(4096 * x + 64 * y + z) div 4096 = x" "(4096 * x + 64 * y + z) div 64 mod 64 = y" "(4096 * x + 64 * y + z) mod 64 = z"
proof -
  have e: "4096 * x + 64 * y + z = 64 * (64 * x + y) + z" by simp
  show "(4096 * x + 64 * y + z) div 4096 = x" "(4096 * x + 64 * y + z) div 64 mod 64 = y" "(4096 * x + 64 * y + z) mod 64 = z"
    unfolding digits64 e using assms by (simp_all only: pack64)
qed

lemma pack64_4:
  fixes x y z u :: nat
  assumes "y < 64" "z < 64" "u < 64"
  shows "(262144 * x + 4096 * y + 64 * z + u) div 262144 = x" "(262144 * x + 4096 * y + 64 * z + u) div 4096 mod 64 = y"
    "(262144 * x + 4096 * y + 64 * z + u) div 64 mod 64 = z" "(262144 * x + 4096 * y + 64 * z + u) mod 64 = u"
proof -
  have e: "262144 * x + 4096 * y + 64 * z + u = 64 * (64 * (64 * x + y) + z) + u" by simp
  show "(262144 * x + 4096 * y + 64 * z + u) div 262144 = x" "(262144 * x + 4096 * y + 64 * z + u) div 4096 mod 64 = y"
    "(262144 * x + 4096 * y + 64 * z + u) div 64 mod 64 = z" "(262144 * x + 4096 * y + 64 * z + u) mod 64 = u"
    unfolding digits64 e using assms by (simp_all only: pack64)
qed

lemma utf8_list_encode:
  assumes "scalar_value c"
  shows "utf8_list (utf8_encode c @ r) = utf8_list r"
proof -
  consider "c < 0x80" | "0x80 \<le> c" "c < 0x800" | "0x800 \<le> c" "c < 0x10000" | "0x10000 \<le> c" "c \<le> 0x10FFFF"
    using assms unfolding scalar_value_def by linarith
  then show ?thesis
  proof cases
    case 1
    then show ?thesis by (simp add: utf8_encode_def unat_octet)
  next
    case 2
    have x: "c div 64 < 32" and c: "64 * (c div 64) + c mod 64 = c" using 2 by auto
    have "utf8_encode c @ r = of_nat (192 + c div 64) # of_nat (128 + c mod 64) # r"
      using 2 by (simp add: utf8_encode_def)
    moreover have "utf8_list (of_nat (192 + c div 64) # of_nat (128 + c mod 64) # r) = (128 \<le> 64 * (c div 64) + c mod 64 \<and> utf8_list r)"
      using x by (intro utf8_list_cases(2) unat_octet) auto
    ultimately show ?thesis using 2 c by simp
  next
    case 3
    have x: "c div 4096 < 16" using 3 by auto
    note c = digits64_sum(1) [of c]
    have "utf8_encode c @ r = of_nat (224 + c div 4096) # of_nat (128 + c div 64 mod 64) # of_nat (128 + c mod 64) # r"
      using 3 by (simp add: utf8_encode_def)
    moreover have "utf8_list (of_nat (224 + c div 4096) # of_nat (128 + c div 64 mod 64) # of_nat (128 + c mod 64) # r)
        = (2048 \<le> 4096 * (c div 4096) + 64 * (c div 64 mod 64) + c mod 64
           \<and> scalar_value (4096 * (c div 4096) + 64 * (c div 64 mod 64) + c mod 64) \<and> utf8_list r)"
      using x by (intro utf8_list_cases(3) unat_octet) auto
    ultimately show ?thesis using 3 c assms by simp
  next
    case 4
    have x: "c div 262144 < 8" using 4 by auto
    note c = digits64_sum(2) [of c]
    have "utf8_encode c @ r
        = of_nat (240 + c div 262144) # of_nat (128 + c div 4096 mod 64) # of_nat (128 + c div 64 mod 64) # of_nat (128 + c mod 64) # r"
      using 4 by (simp add: utf8_encode_def)
    moreover have "utf8_list (of_nat (240 + c div 262144) # of_nat (128 + c div 4096 mod 64) # of_nat (128 + c div 64 mod 64)
          # of_nat (128 + c mod 64) # r)
        = (65536 \<le> 262144 * (c div 262144) + 4096 * (c div 4096 mod 64) + 64 * (c div 64 mod 64) + c mod 64
           \<and> 262144 * (c div 262144) + 4096 * (c div 4096 mod 64) + 64 * (c div 64 mod 64) + c mod 64 \<le> 1114111 \<and> utf8_list r)"
      using x by (intro utf8_list_cases(4) unat_octet) auto
    ultimately show ?thesis using 4 c by simp
  qed
qed

text \<open>A word whose high bits are fixed is that constant plus the bits it carries.\<close>

lemma octet_split:
  fixes n k q :: nat
  assumes "n div k = q" "0 < k"
  obtains x where "n = q * k + x" "x < k"
  using assms by (metis div_mult_mod_eq mod_less_divisor)

lemma utf8_list_head:
  assumes "utf8_list (a # r)"
  obtains c r' where "scalar_value c" "a # r = utf8_encode c @ r'" "utf8_list r'" "length r' \<le> length r"
proof -
  have w: "a = of_nat n \<longleftrightarrow> unat a = n" if "n < 256" for a :: u8 and n
    using that unat_octet [of n] by auto
  consider "unat a < 128" | x where "unat a = 192 + x" "x < 32" | x where "unat a = 224 + x" "x < 16"
    | x where "unat a = 240 + x" "x < 8"
    using assms octet_split [of "unat a" 32 6] octet_split [of "unat a" 16 14] octet_split [of "unat a" 8 30]
    by (simp split: if_splits) metis+
  then show ?thesis
  proof cases
    case 1
    then show ?thesis
      using assms by (intro that [of "unat a" r]) (simp_all add: scalar_value_def utf8_encode_def)
  next
    case (2 x)
    have d: "unat a div 32 = 6" using 2 by (simp add: div_nat_eqI)
    obtain b r' where r: "r = b # r'" "unat b div 64 = 2"
      using assms 2 d by (auto split: list.splits)
    obtain y where y: "unat b = 128 + y" "y < 64" using octet_split [OF r(2)] by auto
    have v: "128 \<le> 64 * x + y" "utf8_list r'"
      using assms utf8_list_cases(2) [OF 2 y] r by auto
    have "utf8_encode (64 * x + y) = [of_nat (192 + x), of_nat (128 + y)]"
      using v 2 y by (simp add: utf8_encode_def)
    also have "\<dots> = [a, b]"
      using 2 y w [of "192 + x" a] w [of "128 + y" b] by simp
    finally show ?thesis
      using that [of "64 * x + y" r'] v r 2 y by (simp add: scalar_value_def)
  next
    case (3 x)
    have d: "unat a div 32 \<noteq> 6" "unat a div 16 = 14" using 3 by (auto simp: div_nat_eqI)
    obtain b c r' where r: "r = b # c # r'" "unat b div 64 = 2" "unat c div 64 = 2"
      using assms 3 d by (auto split: list.splits)
    obtain y where y: "unat b = 128 + y" "y < 64" using octet_split [OF r(2)] by auto
    obtain z where z: "unat c = 128 + z" "z < 64" using octet_split [OF r(3)] by auto
    have v: "2048 \<le> 4096 * x + 64 * y + z" "scalar_value (4096 * x + 64 * y + z)" "utf8_list r'"
      using assms utf8_list_cases(3) [OF 3 y z] r by auto
    note q = pack64_3 [OF y(2) z(2), of x]
    have "utf8_encode (4096 * x + 64 * y + z) = [of_nat (224 + x), of_nat (128 + y), of_nat (128 + z)]"
      unfolding utf8_encode_def q using v 3 y z by simp
    also have "\<dots> = [a, b, c]"
      using 3 y z w [of "224 + x" a] w [of "128 + y" b] w [of "128 + z" c] by simp
    finally show ?thesis
      using that [of "4096 * x + 64 * y + z" r'] v r by simp
  next
    case (4 x)
    have d: "unat a div 32 \<noteq> 6" "unat a div 16 \<noteq> 14" "unat a div 8 = 30" using 4 by (auto simp: div_nat_eqI)
    obtain b c e r' where r: "r = b # c # e # r'" "unat b div 64 = 2" "unat c div 64 = 2" "unat e div 64 = 2"
      using assms 4 d by (auto split: list.splits)
    obtain y where y: "unat b = 128 + y" "y < 64" using octet_split [OF r(2)] by auto
    obtain z where z: "unat c = 128 + z" "z < 64" using octet_split [OF r(3)] by auto
    obtain u where u: "unat e = 128 + u" "u < 64" using octet_split [OF r(4)] by auto
    let ?n = "262144 * x + 4096 * y + 64 * z + u"
    have v: "65536 \<le> ?n" "?n \<le> 1114111" "utf8_list r'"
      using assms utf8_list_cases(4) [OF 4 y z u] r by auto
    note q = pack64_4 [OF y(2) z(2) u(2), of x]
    have "utf8_encode ?n = [of_nat (240 + x), of_nat (128 + y), of_nat (128 + z), of_nat (128 + u)]"
      unfolding utf8_encode_def q using v by simp
    also have "\<dots> = [a, b, c, e]"
      using 4 y z u w [of "240 + x" a] w [of "128 + y" b] w [of "128 + z" c] w [of "128 + u" e] by simp
    finally show ?thesis
      using that [of ?n r'] v r by (simp add: scalar_value_def)
  qed
qed

lemma utf8_list_iff: "utf8_list d \<longleftrightarrow> (\<exists>cs. list_all scalar_value cs \<and> d = concat (map utf8_encode cs))"
proof
  show "\<exists>cs. list_all scalar_value cs \<and> d = concat (map utf8_encode cs)" if "utf8_list d"
    using that
  proof (induction "length d" arbitrary: d rule: less_induct)
    case less
    show ?case
    proof (cases d)
      case Nil
      then show ?thesis by (intro exI [of _ "[]"]) simp
    next
      case (Cons a r)
      then obtain c r' where c: "scalar_value c" "a # r = utf8_encode c @ r'" "utf8_list r'" "length r' \<le> length r"
        using less.prems utf8_list_head by metis
      then obtain cs where "list_all scalar_value cs" "r' = concat (map utf8_encode cs)"
        using less.hyps [of r'] Cons by (metis length_Cons less_Suc_eq_le)
      then show ?thesis
        using c Cons by (intro exI [of _ "c # cs"]) simp
    qed
  qed
next
  assume "\<exists>cs. list_all scalar_value cs \<and> d = concat (map utf8_encode cs)"
  then obtain cs where "list_all scalar_value cs" "d = concat (map utf8_encode cs)" by blast
  then show "utf8_list d"
    by (induction cs arbitrary: d) (simp_all add: utf8_list_encode)
qed

end
