(* ===== verification/Ws_Frame.thy ===== *)
theory Ws_Frame
  imports Ws_Utf8
begin

text \<open>
  The WebSocket frame codec: \<^verbatim>\<open>galay-ws/protoc/ws_base.h\<close>, \<^verbatim>\<open>ws_error.h\<close>, \<^verbatim>\<open>ws_frame.cc\<close>, \<^verbatim>\<open>utils/ws_helper.cc\<close> and
  \<^verbatim>\<open>builder/ws_frame_builder.cc\<close>. Frames and headers are records with the fields of the code; the input of the parser is a list of
  memory segments read through a cursor; the frame the parser fills is passed in and returned, so that what a failing parse leaves in it
  is part of the model. The random masking key that the encoder draws is an argument.
\<close>

section \<open>Data\<close>

datatype WsOpcode = Continuation | Text | Binary | Close | Ping | Pong

datatype WsErrorCode = kWsNoError | kWsIncomplete | kWsInvalidFrame | kWsInvalidOpcode | kWsInvalidPayloadLength
  | kWsControlFrameTooLarge | kWsControlFrameFragmented | kWsInvalidUtf8 | kWsProtocolError | kWsConnectionClosed
  | kWsMessageTooLarge | kWsInvalidCloseCode | kWsReservedBitsSet | kWsMaskRequired | kWsMaskNotAllowed
  | kWsConnectionError | kWsSendError | kWsUpgradeFailed | kWsUnknownError

text \<open>The underlying value of an opcode and the cast back, for the values the parser lets through.\<close>

fun opcode_value :: "WsOpcode \<Rightarrow> u8" where
  "opcode_value Continuation = 0x0"
| "opcode_value Text = 0x1"
| "opcode_value Binary = 0x2"
| "opcode_value Close = 0x8"
| "opcode_value Ping = 0x9"
| "opcode_value Pong = 0xA"

definition opcode_cast :: "u8 \<Rightarrow> WsOpcode" where
  "opcode_cast v = (if v = 0x0 then Continuation else if v = 0x1 then Text else if v = 0x2 then Binary
     else if v = 0x8 then Close else if v = 0x9 then Ping else Pong)"

fun isControlFrame :: "WsOpcode \<Rightarrow> bool" where
  "isControlFrame Close = True"
| "isControlFrame Ping = True"
| "isControlFrame Pong = True"
| "isControlFrame _ = False"

fun isDataFrame :: "WsOpcode \<Rightarrow> bool" where
  "isDataFrame Text = True"
| "isDataFrame Binary = True"
| "isDataFrame Continuation = True"
| "isDataFrame _ = False"

text \<open>\<open>WsCloseCode\<close> values are their numbers.\<close>

definition CloseProtocolError :: u16 where "CloseProtocolError = 1002"
definition CloseInvalidPayload :: u16 where "CloseInvalidPayload = 1007"
definition CloseMessageTooBig :: u16 where "CloseMessageTooBig = 1009"
definition CloseInternalError :: u16 where "CloseInternalError = 1011"

fun toCloseCode :: "WsErrorCode \<Rightarrow> u16" where
  "toCloseCode kWsInvalidFrame = CloseProtocolError"
| "toCloseCode kWsInvalidOpcode = CloseProtocolError"
| "toCloseCode kWsControlFrameTooLarge = CloseProtocolError"
| "toCloseCode kWsControlFrameFragmented = CloseProtocolError"
| "toCloseCode kWsReservedBitsSet = CloseProtocolError"
| "toCloseCode kWsMaskRequired = CloseProtocolError"
| "toCloseCode kWsMaskNotAllowed = CloseProtocolError"
| "toCloseCode kWsInvalidUtf8 = CloseInvalidPayload"
| "toCloseCode kWsInvalidPayloadLength = CloseInvalidPayload"
| "toCloseCode kWsMessageTooLarge = CloseMessageTooBig"
| "toCloseCode kWsProtocolError = CloseProtocolError"
| "toCloseCode _ = CloseInternalError"

record WsFrameHeader =
  wh_payload_length :: u64
  wh_opcode :: WsOpcode
  wh_masking_key :: "u8 list"
  wh_fin :: bool
  wh_rsv1 :: bool
  wh_rsv2 :: bool
  wh_rsv3 :: bool
  wh_mask :: bool

record WsFrame =
  ws_header :: WsFrameHeader
  ws_payload :: bytes

definition new_header :: WsFrameHeader where
  "new_header = \<lparr>wh_payload_length = 0, wh_opcode = Text, wh_masking_key = [0, 0, 0, 0], wh_fin = False,
     wh_rsv1 = False, wh_rsv2 = False, wh_rsv3 = False, wh_mask = False\<rparr>"

definition new_frame :: WsFrame where
  "new_frame = \<lparr>ws_header = new_header, ws_payload = []\<rparr>"

definition make_frame :: "WsOpcode \<Rightarrow> bytes \<Rightarrow> bool \<Rightarrow> WsFrame" where
  "make_frame opcode data fin = \<lparr>ws_header = new_header\<lparr>wh_fin := fin, wh_opcode := opcode,
     wh_payload_length := of_nat (length data)\<rparr>, ws_payload = data\<rparr>"

section \<open>Masking\<close>

text \<open>
  Load a block of \<open>length m\<close> octets at \<open>i\<close>, exclusive-or it with the pattern \<open>m\<close>, store it back: the vector, 64-bit and 32-bit steps
  of the code, which all act octet by octet on the loaded block.
\<close>

definition xor_block :: "u8 list \<Rightarrow> nat \<Rightarrow> bytes \<Rightarrow> bytes" where
  "xor_block m i data = take i data @ map2 (XOR) (take (length m) (drop i data)) m @ drop (i + length m) data"

function mask_loop :: "u8 list \<Rightarrow> nat \<Rightarrow> nat \<Rightarrow> bytes \<Rightarrow> bytes \<times> nat" where
  "mask_loop m len i data =
    (if m \<noteq> [] \<and> i + length m \<le> len then mask_loop m len (i + length m) (xor_block m i data) else (data, i))"
  by pat_completeness auto
termination by (relation "measure (\<lambda>(m, len, i, data). len - i)") (auto simp: diff_less_mono2 simp flip: length_greater_0_conv)

declare mask_loop.simps [simp del]

function mask_tail :: "u8 list \<Rightarrow> nat \<Rightarrow> nat \<Rightarrow> bytes \<Rightarrow> bytes" where
  "mask_tail key len i data = (if i < len then mask_tail key len (i + 1) (data[i := data ! i XOR key ! (i mod 4)]) else data)"
  by pat_completeness auto
termination by (relation "measure (\<lambda>(key, len, i, data). len - i)") auto

declare mask_tail.simps [simp del]

definition applyMaskBytesImpl :: "u8 list \<Rightarrow> bytes \<Rightarrow> bytes" where
  "applyMaskBytesImpl masking_key data =
    (let len = length data in
     if len = 0 then data
     else
       let (data, i) = (if 16 \<le> len then mask_loop (map (\<lambda>j. masking_key ! (j mod 4)) [0..<16]) len 0 data else (data, 0));
           (data, i) = (if i + 8 \<le> len then mask_loop (take 4 masking_key @ take 4 masking_key) len i data else (data, i));
           (data, i) = (if i + 4 \<le> len then (xor_block (take 4 masking_key) i data, i + 4) else (data, i))
       in mask_tail masking_key len i data)"

text \<open>The masking of a reader that walks memory segments octet by octet.\<close>

fun wsApplyMaskIovecsInPlace :: "bytes list \<Rightarrow> u8 list \<Rightarrow> nat \<Rightarrow> bytes list" where
  "wsApplyMaskIovecsInPlace [] key logical_index = []"
| "wsApplyMaskIovecsInPlace (iov # iovs) key logical_index =
    map (\<lambda>j. iov ! j XOR key ! ((logical_index + j) mod 4)) [0..<length iov]
      # wsApplyMaskIovecsInPlace iovs key (logical_index + length iov)"

section \<open>Reading segments\<close>

record IovecCursor =
  m_iovecs :: "bytes list"
  m_total_length :: nat
  m_iov_index :: nat
  m_iov_offset :: nat
  m_consumed :: nat

definition new_cursor :: "bytes list \<Rightarrow> nat \<Rightarrow> IovecCursor" where
  "new_cursor iovecs total_length = \<lparr>m_iovecs = iovecs, m_total_length = total_length, m_iov_index = 0, m_iov_offset = 0, m_consumed = 0\<rparr>"

definition cursor_remaining :: "IovecCursor \<Rightarrow> nat" where
  "cursor_remaining c = m_total_length c - m_consumed c"

text \<open>One step past an exhausted segment, and one copy out of the current segment.\<close>

definition next_iov :: "IovecCursor \<Rightarrow> IovecCursor" where
  "next_iov c = c\<lparr>m_iov_index := m_iov_index c + 1, m_iov_offset := 0\<rparr>"

definition take_iov :: "nat \<Rightarrow> IovecCursor \<Rightarrow> bytes \<times> IovecCursor" where
  "take_iov need c =
    (let iov = m_iovecs c ! m_iov_index c;
         available = length iov - m_iov_offset c;
         n = min available need;
         c' = c\<lparr>m_iov_offset := m_iov_offset c + n, m_consumed := m_consumed c + n\<rparr>
     in (take n (drop (m_iov_offset c) iov), if m_iov_offset c' = length iov then next_iov c' else c'))"

function readBytes :: "IovecCursor \<Rightarrow> nat \<Rightarrow> bool \<times> bytes \<times> IovecCursor" where
  "readBytes c need =
    (if need = 0 then (True, [], c)
     else if m_iov_index c \<ge> length (m_iovecs c) then (False, [], c)
     else if m_iov_offset c \<ge> length (m_iovecs c ! m_iov_index c) then readBytes (next_iov c) need
     else
       let (out, c') = take_iov need c;
           (ok, rest, c'') = readBytes c' (need - length out)
       in (ok, out @ rest, c''))"
  by pat_completeness auto
termination
  by (relation "measure (\<lambda>(c, need). need + (length (m_iovecs c) - m_iov_index c))")
    (auto simp: take_iov_def next_iov_def Let_def split: if_splits)

declare readBytes.simps [simp del]

definition getTotalLength :: "bytes list \<Rightarrow> nat" where
  "getTotalLength iovecs = foldl (\<lambda>total iov. total + length iov) 0 iovecs"

text \<open>The extended lengths: two and eight octets, most significant first.\<close>

definition ext_len64 :: "bytes \<Rightarrow> u64" where
  "ext_len64 len_buf = foldl (\<lambda>l b. push_bit 8 l OR ucast b) 0 len_buf"

section \<open>The parser\<close>

text \<open>A buffer of which the first octets were overwritten.\<close>

definition overwrite :: "bytes \<Rightarrow> bytes \<Rightarrow> bytes" where
  "overwrite old got = got @ drop (length got) old"

definition valid_close_code :: "u16 \<Rightarrow> bool" where
  "valid_close_code code = ((1000 \<le> code \<and> code \<le> 4999) \<and> code \<noteq> 1004 \<and> code \<noteq> 1005 \<and> code \<noteq> 1006 \<and> code \<noteq> 1015)"

text \<open>The checks on a complete payload: close frames and unfragmented text frames.\<close>

definition check_payload :: "WsFrame \<Rightarrow> WsErrorCode option" where
  "check_payload frame =
    (let p = ws_payload frame; n = length p; h = ws_header frame in
     if wh_opcode h = Close \<and> n = 1 then Some kWsInvalidPayloadLength
     else if wh_opcode h = Close \<and> n \<ge> 2 \<and> \<not> valid_close_code (ld16 (p ! 0) (p ! 1)) then Some kWsInvalidCloseCode
     else if wh_opcode h = Close \<and> n > 2 \<and> \<not> isValidUtf8Bytes (drop 2 p) then Some kWsInvalidUtf8
     else if wh_opcode h = Text \<and> wh_fin h \<and> \<not> isValidUtf8Bytes p then Some kWsInvalidUtf8
     else None)"

text \<open>Reading the payload and removing the mask, once the header is complete.\<close>

definition parse_payload :: "IovecCursor \<Rightarrow> WsFrame \<Rightarrow> (WsErrorCode + nat) \<times> WsFrame" where
  "parse_payload c frame =
    (let h = ws_header frame; n = unat (wh_payload_length h) in
     if cursor_remaining c < n then (Inl kWsIncomplete, frame)
     else
       let (ok, got, c) = readBytes c n;
           frame = frame\<lparr>ws_payload := overwrite (replicate n 0) got\<rparr> in
       if n > 0 \<and> \<not> ok then (Inl kWsInvalidFrame, frame)
       else
         let frame = (if wh_mask h then frame\<lparr>ws_payload := applyMaskBytesImpl (wh_masking_key h) (ws_payload frame)\<rparr> else frame) in
         case check_payload frame of
           Some e \<Rightarrow> (Inl e, frame)
         | None \<Rightarrow> (Inr (m_consumed c), frame))"

text \<open>Reading the masking key, once the length is known.\<close>

definition parse_key :: "IovecCursor \<Rightarrow> WsFrame \<Rightarrow> (WsErrorCode + nat) \<times> WsFrame" where
  "parse_key c frame =
    (let h = ws_header frame in
     if isControlFrame (wh_opcode h) \<and> wh_payload_length h > 125 then (Inl kWsControlFrameTooLarge, frame)
     else if wh_mask h then
       let (ok, got, c) = readBytes c 4;
           frame = frame\<lparr>ws_header := h\<lparr>wh_masking_key := overwrite (wh_masking_key h) got\<rparr>\<rparr> in
       if \<not> ok then (Inl kWsIncomplete, frame) else parse_payload c frame
     else parse_payload c frame)"

text \<open>Reading the second octet and the extended length.\<close>

definition set_length :: "u64 \<Rightarrow> WsFrame \<Rightarrow> WsFrame" where
  "set_length l frame = frame\<lparr>ws_header := (ws_header frame)\<lparr>wh_payload_length := l\<rparr>\<rparr>"

definition parse_length :: "IovecCursor \<Rightarrow> u8 \<Rightarrow> WsFrame \<Rightarrow> bool \<Rightarrow> (WsErrorCode + nat) \<times> WsFrame" where
  "parse_length c byte2 frame is_server =
    (let frame = frame\<lparr>ws_header := (ws_header frame)\<lparr>wh_mask := (byte2 AND 0x80 \<noteq> 0)\<rparr>\<rparr>;
         masked = wh_mask (ws_header frame);
         payload_len = byte2 AND 0x7F in
     if is_server \<and> \<not> masked then (Inl kWsMaskRequired, frame)
     else if \<not> is_server \<and> masked then (Inl kWsMaskNotAllowed, frame)
     else if payload_len < 126 then parse_key c (set_length (ucast payload_len) frame)
     else if payload_len = 126 then
       let (ok, len_buf, c) = readBytes c 2 in
       if \<not> ok then (Inl kWsIncomplete, frame)
       else
         let extended_len = ld16 (len_buf ! 0) (len_buf ! 1) in
         if extended_len < 126 then (Inl kWsInvalidPayloadLength, frame)
         else parse_key c (set_length (ucast extended_len) frame)
     else
       let (ok, len_buf, c) = readBytes c 8 in
       if \<not> ok then (Inl kWsIncomplete, frame)
       else if len_buf ! 0 AND 0x80 \<noteq> 0 then (Inl kWsInvalidPayloadLength, frame)
       else
         let extended_len = ext_len64 len_buf in
         if extended_len \<le> 0xFFFF then (Inl kWsInvalidPayloadLength, frame)
         else parse_key c (set_length extended_len frame))"

definition fromIOVec :: "bytes list \<Rightarrow> WsFrame \<Rightarrow> bool \<Rightarrow> (WsErrorCode + nat) \<times> WsFrame" where
  "fromIOVec iovecs frame is_server =
    (let total_length = getTotalLength iovecs in
     if total_length < 2 then (Inl kWsIncomplete, frame)
     else
       let c = new_cursor iovecs total_length;
           (ok, got, c) = readBytes c 1 in
       if \<not> ok then (Inl kWsIncomplete, frame)
       else
         let byte1 = got ! 0;
             h = (ws_header frame)\<lparr>wh_fin := byte1 AND 0x80 \<noteq> 0, wh_rsv1 := byte1 AND 0x40 \<noteq> 0,
                                   wh_rsv2 := byte1 AND 0x20 \<noteq> 0, wh_rsv3 := byte1 AND 0x10 \<noteq> 0\<rparr>;
             frame = frame\<lparr>ws_header := h\<rparr> in
         if wh_rsv1 h \<or> wh_rsv2 h \<or> wh_rsv3 h then (Inl kWsReservedBitsSet, frame)
         else
           let v = byte1 AND 0x0F in
           if v > 0x0A \<or> (v > 0x02 \<and> v < 0x08) then (Inl kWsInvalidOpcode, frame)
           else
             let h = h\<lparr>wh_opcode := opcode_cast v\<rparr>;
                 frame = frame\<lparr>ws_header := h\<rparr> in
             if isControlFrame (wh_opcode h) \<and> \<not> wh_fin h then (Inl kWsControlFrameFragmented, frame)
             else
               let (ok, got, c) = readBytes c 1 in
               if \<not> ok then (Inl kWsIncomplete, frame)
               else parse_length c (got ! 0) frame is_server)"

section \<open>The encoders\<close>

definition wsFrameHeaderLength :: "u64 \<Rightarrow> bool \<Rightarrow> nat" where
  "wsFrameHeaderLength payload_len use_mask =
    2 + (if 126 \<le> payload_len \<and> payload_len \<le> 0xFFFF then 2 else if payload_len > 0xFFFF then 8 else 0)
      + (if use_mask then 4 else 0)"

definition header_byte1 :: "WsOpcode \<Rightarrow> bool \<Rightarrow> bool \<Rightarrow> bool \<Rightarrow> bool \<Rightarrow> u8" where
  "header_byte1 opcode fin rsv1 rsv2 rsv3 =
    (if fin then 0x80 else 0) OR (if rsv1 then 0x40 else 0) OR (if rsv2 then 0x20 else 0) OR (if rsv3 then 0x10 else 0)
      OR (opcode_value opcode AND 0x0F)"

definition header_length_bytes :: "u64 \<Rightarrow> bool \<Rightarrow> bytes" where
  "header_length_bytes payload_len use_mask =
    (let byte2 = (if use_mask then 0x80 else 0) in
     if payload_len < 126 then [byte2 OR ucast payload_len]
     else if payload_len \<le> 0xFFFF then [byte2 OR 126, ucast (drop_bit 8 payload_len AND 0xFF), ucast (payload_len AND 0xFF)]
     else (byte2 OR 127) # map (\<lambda>i. ucast (drop_bit (i * 8) payload_len AND 0xFF)) (rev [0..<8]))"

text \<open>\<open>key\<close> is the key \<open>fillMaskingKey\<close> draws.\<close>

definition appendWsFrameHeader ::
  "u8 list \<Rightarrow> bytes \<Rightarrow> WsOpcode \<Rightarrow> bool \<Rightarrow> bool \<Rightarrow> bool \<Rightarrow> bool \<Rightarrow> u64 \<Rightarrow> bool \<Rightarrow> bytes" where
  "appendWsFrameHeader key out opcode fin rsv1 rsv2 rsv3 payload_len use_mask =
    out @ [header_byte1 opcode fin rsv1 rsv2 rsv3] @ header_length_bytes payload_len use_mask @ (if use_mask then key else [])"

definition encodeInto :: "u8 list \<Rightarrow> WsFrame \<Rightarrow> bool \<Rightarrow> bytes" where
  "encodeInto key frame use_mask =
    (let h = ws_header frame; payload_len = of_nat (length (ws_payload frame));
         out = appendWsFrameHeader key [] (wh_opcode h) (wh_fin h) (wh_rsv1 h) (wh_rsv2 h) (wh_rsv3 h) payload_len use_mask in
     if payload_len = 0 then out
     else out @ (if use_mask then applyMaskBytesImpl key (ws_payload frame) else ws_payload frame))"

definition encodeMessageInto :: "u8 list \<Rightarrow> WsOpcode \<Rightarrow> bytes \<Rightarrow> bool \<Rightarrow> bool \<Rightarrow> bytes" where
  "encodeMessageInto key opcode payload fin use_mask =
    (let payload_len = of_nat (length payload);
         out = appendWsFrameHeader key [] opcode fin False False False payload_len use_mask in
     if payload_len = 0 then out
     else out @ (if use_mask then applyMaskBytesImpl key payload else payload))"

text \<open>The overload that takes the payload over: the payload is shifted inside its own buffer and the header is copied in front.\<close>

definition encodeMessageInto_move :: "u8 list \<Rightarrow> WsOpcode \<Rightarrow> bytes \<Rightarrow> bool \<Rightarrow> bool \<Rightarrow> bytes" where
  "encodeMessageInto_move key opcode payload fin use_mask =
    (let payload_len = of_nat (length payload);
         out = payload;
         header = appendWsFrameHeader key [] opcode fin False False False payload_len use_mask in
     if out = [] then header
     else
       let payload_size = length out;
           out = out @ replicate (length header) 0;
           out = take (length header) out @ take payload_size out;
           out = overwrite out header in
       if use_mask then take (length header) out @ applyMaskBytesImpl key (take (unat payload_len) (drop (length header) out))
       else out)"

definition toBytesHeader :: "u8 list \<Rightarrow> WsFrame \<Rightarrow> bool \<Rightarrow> bytes" where
  "toBytesHeader key frame use_mask =
    (let h = ws_header frame in
     appendWsFrameHeader key [] (wh_opcode h) (wh_fin h) (wh_rsv1 h) (wh_rsv2 h) (wh_rsv3 h)
       (of_nat (length (ws_payload frame))) use_mask)"

definition buildWsClosePayload :: "u16 \<Rightarrow> bytes \<Rightarrow> bytes" where
  "buildWsClosePayload code reason = [ucast (drop_bit 8 code AND 0xFF), ucast (code AND 0xFF)] @ reason"

section \<open>The builder\<close>

definition new_builder :: WsFrame where
  "new_builder = new_frame\<lparr>ws_header := new_header\<lparr>wh_fin := True, wh_opcode := Text, wh_mask := False\<rparr>\<rparr>"

definition b_opcode :: "WsOpcode \<Rightarrow> WsFrame \<Rightarrow> WsFrame" where
  "b_opcode opcode f = f\<lparr>ws_header := (ws_header f)\<lparr>wh_opcode := opcode\<rparr>\<rparr>"

definition b_fin :: "bool \<Rightarrow> WsFrame \<Rightarrow> WsFrame" where
  "b_fin fin f = f\<lparr>ws_header := (ws_header f)\<lparr>wh_fin := fin\<rparr>\<rparr>"

definition b_payload :: "bytes \<Rightarrow> WsFrame \<Rightarrow> WsFrame" where
  "b_payload p f = f\<lparr>ws_payload := p, ws_header := (ws_header f)\<lparr>wh_payload_length := of_nat (length p)\<rparr>\<rparr>"

definition b_text :: "bytes \<Rightarrow> bool \<Rightarrow> WsFrame \<Rightarrow> WsFrame" where
  "b_text t fin f = b_payload t (b_fin fin (b_opcode Text f))"

definition b_binary :: "bytes \<Rightarrow> bool \<Rightarrow> WsFrame \<Rightarrow> WsFrame" where
  "b_binary d fin f = b_payload d (b_fin fin (b_opcode Binary f))"

definition b_ping :: "bytes \<Rightarrow> WsFrame \<Rightarrow> WsFrame" where
  "b_ping d f = b_payload d (b_fin True (b_opcode Ping f))"

definition b_pong :: "bytes \<Rightarrow> WsFrame \<Rightarrow> WsFrame" where
  "b_pong d f = b_payload d (b_fin True (b_opcode Pong f))"

definition b_close :: "u16 \<Rightarrow> bytes \<Rightarrow> WsFrame \<Rightarrow> WsFrame" where
  "b_close code reason f = b_payload (buildWsClosePayload code reason) (b_fin True (b_opcode Close f))"

definition createCloseFrame :: "u16 \<Rightarrow> bytes \<Rightarrow> WsFrame" where
  "createCloseFrame code reason = b_close code reason new_builder"

end
