(* ===== verification/Ws_Codec.thy ===== *)
theory Ws_Codec
  imports Ws_Frame
begin

text \<open>
  Correctness of the WebSocket frame codec: the blockwise masking is the octetwise one and an involution, the cursor reads the
  concatenation of its segments, and the parser accepts exactly the encodings of well-formed frames.
\<close>

section \<open>Masking\<close>

lemma length_apply_key [simp]: "length (apply_key d k) = length d"
  by (simp add: apply_key_def)

lemma nth_apply_key [simp]: "i < length d \<Longrightarrow> apply_key d k ! i = d ! i XOR k ! (i mod 4)"
  by (simp add: apply_key_def masked_at_def)

lemma apply_key_apply_key [simp]: "apply_key (apply_key d k) k = d"
  by (rule nth_equalityI) (simp_all add: xor.assoc)

text \<open>The data of which the first \<open>i\<close> octets are masked.\<close>

definition half_masked :: "u8 list \<Rightarrow> nat \<Rightarrow> bytes \<Rightarrow> bytes" where
  "half_masked key i d = take i (apply_key d key) @ drop i d"

lemma length_half_masked [simp]: "length (half_masked key i d) = length d"
  by (simp add: half_masked_def)

lemma nth_half_masked:
  "j < length d \<Longrightarrow> half_masked key i d ! j = (if j < i then d ! j XOR key ! (j mod 4) else d ! j)"
  by (auto simp: half_masked_def nth_append)

lemma xor_block_half_masked:
  assumes "i + length m \<le> length d" "i mod 4 = 0" "\<And>j. j < length m \<Longrightarrow> m ! j = key ! (j mod 4)"
  shows "xor_block m i (half_masked key i d) = half_masked key (i + length m) d"
proof (rule nth_equalityI)
  show "length (xor_block m i (half_masked key i d)) = length (half_masked key (i + length m) d)"
    using assms(1) by (simp add: xor_block_def)
  fix j assume "j < length (xor_block m i (half_masked key i d))"
  then have j: "j < length d"
    using assms(1) by (simp add: xor_block_def)
  have k: "m ! (j - i) = key ! (j mod 4)" if "i \<le> j" "j < i + length m"
  proof -
    obtain q where "i = 4 * q" using assms(2) by (auto simp: mod_eq_0_iff_dvd)
    then have "(j - i) mod 4 = j mod 4"
      using that(1) by (metis le_add_diff_inverse mod_mult_self4)
    then show ?thesis
      using assms(3) [of "j - i"] that by simp
  qed
  consider "j < i" | "i \<le> j" "j < i + length m" | "i + length m \<le> j" by linarith
  then show "xor_block m i (half_masked key i d) ! j = half_masked key (i + length m) d ! j"
    by cases (use assms(1) j k in \<open>auto simp: xor_block_def nth_append nth_half_masked\<close>)
qed

lemma mask_loop_half_masked:
  assumes "m \<noteq> []" "4 dvd length m" "\<And>j. j < length m \<Longrightarrow> m ! j = key ! (j mod 4)" "i \<le> length d" "4 dvd i"
  shows "\<exists>i'. mask_loop m (length d) i (half_masked key i d) = (half_masked key i' d, i') \<and> i' \<le> length d \<and> 4 dvd i'"
  using assms(4,5)
proof (induction "length d - i" arbitrary: i rule: less_induct)
  case less
  show ?case
  proof (cases "i + length m \<le> length d")
    case True
    have "xor_block m i (half_masked key i d) = half_masked key (i + length m) d"
      using True less.prems assms by (intro xor_block_half_masked) (auto simp: dvd_eq_mod_eq_0)
    moreover have "0 < length m" using assms(1) by simp
    ultimately show ?thesis
      using less.hyps [of "i + length m"] True less.prems assms(1,2)
      by (simp add: mask_loop.simps [of m _ i] dvd_add del: length_greater_0_conv)
  next
    case False
    then show ?thesis
      using less.prems by (simp add: mask_loop.simps [of m _ i])
  qed
qed

lemma mask_tail_half_masked: "i \<le> length d \<Longrightarrow> mask_tail key (length d) i (half_masked key i d) = apply_key d key"
proof (induction "length d - i" arbitrary: i rule: less_induct)
  case less
  show ?case
  proof (cases "i < length d")
    case True
    have "(half_masked key i d)[i := half_masked key i d ! i XOR key ! (i mod 4)] = half_masked key (i + 1) d"
      using True by (intro nth_equalityI) (auto simp: nth_list_update nth_half_masked)
    then show ?thesis
      using less.hyps [of "i + 1"] True by (simp add: mask_tail.simps [of key _ i])
  next
    case False
    then have "i = length d" using less.prems by simp
    then show ?thesis
      by (simp add: mask_tail.simps [of key "length d" "length d"] half_masked_def)
  qed
qed

theorem applyMaskBytesImpl_eq:
  assumes "length key = 4"
  shows "applyMaskBytesImpl key data = apply_key data key"
proof (cases "data = []")
  case True
  then show ?thesis by (simp add: applyMaskBytesImpl_def apply_key_def)
next
  case False
  have m16: "map (\<lambda>j. key ! (j mod 4)) [0..<16] ! j = key ! (j mod 4)" if "j < 16" for j
    using that by simp
  have m8: "(take 4 key @ take 4 key) ! j = key ! (j mod 4)" if "j < 8" for j
    using that assms by (auto simp: nth_append mod_if)
  have start: "data = half_masked key 0 data"
    by (simp add: half_masked_def)
  obtain i1 where i1: "(if 16 \<le> length data then mask_loop (map (\<lambda>j. key ! (j mod 4)) [0..<16]) (length data) 0 data else (data, 0))
      = (half_masked key i1 data, i1)" "i1 \<le> length data" "4 dvd i1"
    using mask_loop_half_masked [of "map (\<lambda>j. key ! (j mod 4)) [0..<16]" key 0 data] m16 start
    by (cases "16 \<le> length data") (auto simp del: upt_rec_numeral)
  have l8: "\<exists>i'. mask_loop (take 4 key @ take 4 key) (length data) i1 (half_masked key i1 data) = (half_masked key i' data, i') \<and> i' \<le> length data \<and> 4 dvd i'"
  proof (rule mask_loop_half_masked)
    show "take 4 key @ take 4 key \<noteq> []" using assms by auto
  qed (use m8 i1(2,3) assms in auto)
  obtain i2 where i2: "(if i1 + 8 \<le> length data then mask_loop (take 4 key @ take 4 key) (length data) i1 (half_masked key i1 data)
      else (half_masked key i1 data, i1)) = (half_masked key i2 data, i2)" "i2 \<le> length data" "4 dvd i2"
    using l8 i1(2,3) by (cases "i1 + 8 \<le> length data") auto
  obtain i3 where i3: "(if i2 + 4 \<le> length data then (xor_block (take 4 key) i2 (half_masked key i2 data), i2 + 4)
      else (half_masked key i2 data, i2)) = (half_masked key i3 data, i3)" "i3 \<le> length data"
    using xor_block_half_masked [of i2 "take 4 key" data key] i2(2,3) assms
    by (cases "i2 + 4 \<le> length data") (auto simp: dvd_eq_mod_eq_0)
  show ?thesis
    using False i1(1) i2(1) i3 mask_tail_half_masked [of i3 data key]
    by (simp add: applyMaskBytesImpl_def Let_def)
qed

lemma wsApplyMaskIovecs_concat:
  "concat (wsApplyMaskIovecsInPlace iovs key n) = map (\<lambda>i. concat iovs ! i XOR key ! ((n + i) mod 4)) [0..<length (concat iovs)]"
proof (induction iovs arbitrary: n)
  case (Cons iov iovs)
  have "concat (wsApplyMaskIovecsInPlace (iov # iovs) key n) ! i = concat (iov # iovs) ! i XOR key ! ((n + i) mod 4)"
    if "i < length (concat (iov # iovs))" for i
    using that Cons [of "n + length iov"] by (auto simp: nth_append)
  moreover have "length (concat (wsApplyMaskIovecsInPlace (iov # iovs) key n)) = length (concat (iov # iovs))"
    using Cons [of "n + length iov"] by simp
  ultimately show ?case
    by (intro nth_equalityI) auto
qed simp

lemma wsApplyMaskIovecs_eq: "concat (wsApplyMaskIovecsInPlace iovs key 0) = apply_key (concat iovs) key"
  by (simp add: wsApplyMaskIovecs_concat apply_key_def masked_at_def)

lemma wsIsValidUtf8MaskedIovecs_eq: "wsIsValidUtf8MaskedIovecs iovs key = isValidUtf8Bytes (apply_key (concat iovs) key)"
proof -
  have "utf8_loop (\<lambda>i. segments_at iovs i (key ! (i mod 4))) (length (apply_key (concat iovs) key)) 0 = utf8_list (drop 0 (apply_key (concat iovs) key))"
    by (rule utf8_loop_list) (simp add: segments_at_concat)
  then show ?thesis
    by (simp add: wsIsValidUtf8MaskedIovecs_def isValidUtf8Bytes_list length_concat)
qed

section \<open>The cursor\<close>

definition cursor_rest :: "IovecCursor \<Rightarrow> bytes" where
  "cursor_rest c = drop (m_iov_offset c) (concat (drop (m_iov_index c) (m_iovecs c)))"

definition cursor_ok :: "IovecCursor \<Rightarrow> bool" where
  "cursor_ok c = ((m_iov_index c < length (m_iovecs c) \<longrightarrow> m_iov_offset c \<le> length (m_iovecs c ! m_iov_index c))
     \<and> (m_iov_index c \<ge> length (m_iovecs c) \<longrightarrow> m_iov_offset c = 0)
     \<and> m_consumed c + length (cursor_rest c) = m_total_length c)"

lemma cursor_rest_Cons:
  assumes "m_iov_index c < length (m_iovecs c)" "m_iov_offset c \<le> length (m_iovecs c ! m_iov_index c)"
  shows "cursor_rest c = drop (m_iov_offset c) (m_iovecs c ! m_iov_index c) @ cursor_rest (next_iov c)"
  using assms by (simp add: cursor_rest_def next_iov_def Cons_nth_drop_Suc [symmetric])

lemma next_iov_ok:
  assumes "cursor_ok c" "m_iov_index c < length (m_iovecs c)" "m_iov_offset c = length (m_iovecs c ! m_iov_index c)"
  shows "cursor_ok (next_iov c)" "cursor_rest (next_iov c) = cursor_rest c"
proof -
  show rest: "cursor_rest (next_iov c) = cursor_rest c"
    using cursor_rest_Cons assms by simp
  then show "cursor_ok (next_iov c)"
    using assms(1) by (auto simp: cursor_ok_def next_iov_def)
qed

lemma take_iov_spec:
  assumes "cursor_ok c" "m_iov_index c < length (m_iovecs c)" "m_iov_offset c < length (m_iovecs c ! m_iov_index c)" "0 < n"
  obtains k c' where "take_iov n c = (take k (cursor_rest c), c')" "0 < k" "k \<le> n" "k \<le> length (cursor_rest c)" "cursor_ok c'"
    "cursor_rest c' = drop k (cursor_rest c)" "m_total_length c' = m_total_length c"
proof -
  define iov where "iov = m_iovecs c ! m_iov_index c"
  define k where "k = min (length iov - m_iov_offset c) n"
  define c1 where "c1 = c\<lparr>m_iov_offset := m_iov_offset c + k, m_consumed := m_consumed c + k\<rparr>"
  have rest: "cursor_rest c = drop (m_iov_offset c) iov @ cursor_rest (next_iov c)"
    using cursor_rest_Cons assms by (simp add: iov_def)
  have k: "0 < k" "k \<le> n" "m_iov_offset c + k \<le> length iov" "k \<le> length (cursor_rest c)"
    using assms rest by (auto simp: k_def iov_def)
  have f: "m_iovecs c1 = m_iovecs c" "m_iov_index c1 = m_iov_index c" "m_iov_offset c1 = m_iov_offset c + k"
    "m_total_length c1 = m_total_length c" "m_consumed c1 = m_consumed c + k"
    by (simp_all add: c1_def)
  have "cursor_rest (next_iov c1) = cursor_rest (next_iov c)"
    by (simp add: cursor_rest_def next_iov_def f)
  then have rest1: "cursor_rest c1 = drop k (cursor_rest c)"
    using cursor_rest_Cons [of c1] assms(2) k(3) rest by (simp add: f iov_def [symmetric] add.commute)
  have ok1: "cursor_ok c1"
    using assms(1,2) k rest1 by (auto simp: cursor_ok_def f iov_def [symmetric])
  have t: "take_iov n c = (take k (cursor_rest c), if m_iov_offset c1 = length iov then next_iov c1 else c1)"
    using rest k(3) unfolding f(3) by (simp add: take_iov_def Let_def iov_def [symmetric] k_def [symmetric]) (simp add: c1_def)
  show ?thesis
  proof (cases "m_iov_offset c1 = length iov")
    case True
    then show ?thesis
      using that [of k "next_iov c1"] t k rest1 ok1 next_iov_ok [of c1] assms(2) by (simp add: f iov_def [symmetric]) (simp add: next_iov_def f)
  next
    case False
    then show ?thesis
      using that [of k c1] t k rest1 ok1 f by simp
  qed
qed

lemma readBytes_spec:
  assumes "cursor_ok c"
  shows "\<exists>c'. readBytes c n = (n \<le> length (cursor_rest c), take n (cursor_rest c), c')
    \<and> cursor_ok c' \<and> cursor_rest c' = drop n (cursor_rest c) \<and> m_total_length c' = m_total_length c"
  using assms
proof (induction "n + (length (m_iovecs c) - m_iov_index c)" arbitrary: c n rule: less_induct)
  case less
  let ?iov = "m_iovecs c ! m_iov_index c"
  show ?case
  proof (cases "n = 0 \<or> m_iov_index c \<ge> length (m_iovecs c)")
    case True
    then show ?thesis
      using less.prems by (auto simp: readBytes.simps [of c n] cursor_rest_def cursor_ok_def)
  next
    case False
    then have i: "m_iov_index c < length (m_iovecs c)" and n: "0 < n" by auto
    show ?thesis
    proof (cases "m_iov_offset c \<ge> length ?iov")
      case True
      then have off: "m_iov_offset c = length ?iov"
        using less.prems i by (auto simp: cursor_ok_def)
      have "\<exists>c'. readBytes (next_iov c) n = (n \<le> length (cursor_rest c), take n (cursor_rest c), c')
          \<and> cursor_ok c' \<and> cursor_rest c' = drop n (cursor_rest c) \<and> m_total_length c' = m_total_length c"
        using less.hyps [of n "next_iov c"] next_iov_ok [OF less.prems i off] i by (simp add: next_iov_def)
      then show ?thesis
        using n i off by (simp add: readBytes.simps [of c n])
    next
      case lt: False
      then obtain k c' where t: "take_iov n c = (take k (cursor_rest c), c')" "0 < k" "k \<le> n" "k \<le> length (cursor_rest c)"
          "cursor_ok c'" "cursor_rest c' = drop k (cursor_rest c)" "m_total_length c' = m_total_length c"
        using take_iov_spec [OF less.prems i _ n] by auto
      have "m_iovecs c' = m_iovecs c" "m_iov_index c \<le> m_iov_index c'"
        using t(1) by (auto simp: take_iov_def next_iov_def Let_def split: if_splits)
      then have measure: "n - k + (length (m_iovecs c') - m_iov_index c') < n + (length (m_iovecs c) - m_iov_index c)"
        using t(2,3) by simp
      then obtain c'' where r: "readBytes c' (n - k) = (n - k \<le> length (cursor_rest c'), take (n - k) (cursor_rest c'), c'')"
          "cursor_ok c''" "cursor_rest c'' = drop (n - k) (cursor_rest c')" "m_total_length c'' = m_total_length c'"
        using less.hyps [OF measure t(5)] by blast
      have "take k (cursor_rest c) @ take (n - k) (drop k (cursor_rest c)) = take n (cursor_rest c)"
        using t(3) by (metis le_add_diff_inverse take_add)
      moreover have "(n - k \<le> length (cursor_rest c) - k) = (n \<le> length (cursor_rest c))"
        using t(3,4) by linarith
      ultimately show ?thesis
        using n i lt t r by (simp add: readBytes.simps [of c n])
    qed
  qed
qed

lemma cursor_total: "cursor_ok c \<Longrightarrow> m_consumed c + length (cursor_rest c) = m_total_length c"
  by (simp add: cursor_ok_def)

lemma readBytes_cursor:
  assumes "cursor_ok c"
  obtains c' where "readBytes c n = (n \<le> length (cursor_rest c), take n (cursor_rest c), c')" "cursor_ok c'"
    "cursor_rest c' = drop n (cursor_rest c)" "m_consumed c' = m_consumed c + min n (length (cursor_rest c))"
proof -
  obtain c' where r: "readBytes c n = (n \<le> length (cursor_rest c), take n (cursor_rest c), c')" "cursor_ok c'"
      "cursor_rest c' = drop n (cursor_rest c)" "m_total_length c' = m_total_length c"
    using readBytes_spec [OF assms] by blast
  moreover have "m_consumed c' = m_consumed c + min n (length (cursor_rest c))"
    using cursor_total [OF assms] cursor_total [OF r(2)] r(3,4) by (simp add: min_def) linarith
  ultimately show ?thesis using that by blast
qed

section \<open>The parser on a flat input\<close>

definition flat_payload :: "nat \<Rightarrow> bytes \<Rightarrow> WsFrame \<Rightarrow> (WsErrorCode + nat) \<times> WsFrame" where
  "flat_payload used r frame =
    (let h = ws_header frame; n = unat (wh_payload_length h) in
     if length r < n then (Inl kWsIncomplete, frame)
     else
       let frame = frame\<lparr>ws_payload := (if wh_mask h then apply_key (take n r) (wh_masking_key h) else take n r)\<rparr> in
       case check_payload frame of Some e \<Rightarrow> (Inl e, frame) | None \<Rightarrow> (Inr (used + n), frame))"

definition set_key :: "u8 list \<Rightarrow> WsFrame \<Rightarrow> WsFrame" where
  "set_key k frame = frame\<lparr>ws_header := (ws_header frame)\<lparr>wh_masking_key := k\<rparr>\<rparr>"

definition flat_key :: "nat \<Rightarrow> bytes \<Rightarrow> WsFrame \<Rightarrow> (WsErrorCode + nat) \<times> WsFrame" where
  "flat_key used r frame =
    (let h = ws_header frame in
     if isControlFrame (wh_opcode h) \<and> wh_payload_length h > 125 then (Inl kWsControlFrameTooLarge, frame)
     else if wh_mask h then
       if length r < 4 then (Inl kWsIncomplete, set_key (overwrite (wh_masking_key h) r) frame)
       else flat_payload (used + 4) (drop 4 r) (set_key (take 4 r) frame)
     else flat_payload used r frame)"

definition set_mask :: "bool \<Rightarrow> WsFrame \<Rightarrow> WsFrame" where
  "set_mask m frame = frame\<lparr>ws_header := (ws_header frame)\<lparr>wh_mask := m\<rparr>\<rparr>"

definition flat_length :: "u8 \<Rightarrow> bytes \<Rightarrow> WsFrame \<Rightarrow> bool \<Rightarrow> (WsErrorCode + nat) \<times> WsFrame" where
  "flat_length byte2 r frame is_server =
    (let masked = (byte2 AND 0x80 \<noteq> 0); frame = set_mask masked frame; l = byte2 AND 0x7F in
     if is_server \<and> \<not> masked then (Inl kWsMaskRequired, frame)
     else if \<not> is_server \<and> masked then (Inl kWsMaskNotAllowed, frame)
     else if l < 126 then flat_key 2 r (set_length (ucast l) frame)
     else if l = 126 then
       if length r < 2 then (Inl kWsIncomplete, frame)
       else if ld16 (r ! 0) (r ! 1) < 126 then (Inl kWsInvalidPayloadLength, frame)
       else flat_key 4 (drop 2 r) (set_length (ucast (ld16 (r ! 0) (r ! 1))) frame)
     else
       if length r < 8 then (Inl kWsIncomplete, frame)
       else if r ! 0 AND 0x80 \<noteq> 0 then (Inl kWsInvalidPayloadLength, frame)
       else if ext_len64 (take 8 r) \<le> 0xFFFF then (Inl kWsInvalidPayloadLength, frame)
       else flat_key 10 (drop 8 r) (set_length (ext_len64 (take 8 r)) frame))"

definition set_byte1 :: "u8 \<Rightarrow> WsFrame \<Rightarrow> WsFrame" where
  "set_byte1 b frame = frame\<lparr>ws_header := (ws_header frame)\<lparr>wh_fin := b AND 0x80 \<noteq> 0, wh_rsv1 := b AND 0x40 \<noteq> 0,
     wh_rsv2 := b AND 0x20 \<noteq> 0, wh_rsv3 := b AND 0x10 \<noteq> 0\<rparr>\<rparr>"

definition set_opcode :: "WsOpcode \<Rightarrow> WsFrame \<Rightarrow> WsFrame" where
  "set_opcode opc frame = frame\<lparr>ws_header := (ws_header frame)\<lparr>wh_opcode := opc\<rparr>\<rparr>"

fun flat_parse :: "bytes \<Rightarrow> WsFrame \<Rightarrow> bool \<Rightarrow> (WsErrorCode + nat) \<times> WsFrame" where
  "flat_parse (byte1 # byte2 # r) frame is_server =
    (let frame = set_byte1 byte1 frame; h = ws_header frame; v = byte1 AND 0x0F in
     if wh_rsv1 h \<or> wh_rsv2 h \<or> wh_rsv3 h then (Inl kWsReservedBitsSet, frame)
     else if v > 0x0A \<or> (v > 0x02 \<and> v < 0x08) then (Inl kWsInvalidOpcode, frame)
     else if isControlFrame (opcode_cast v) \<and> \<not> wh_fin h then (Inl kWsControlFrameFragmented, set_opcode (opcode_cast v) frame)
     else flat_length byte2 r (set_opcode (opcode_cast v) frame) is_server)"
| "flat_parse _ frame is_server = (Inl kWsIncomplete, frame)"

lemmas frame_setters = set_key_def set_mask_def set_byte1_def set_opcode_def set_length_def

lemma frame_setters_sel [simp]:
  "wh_masking_key (ws_header (set_length l f)) = wh_masking_key (ws_header f)"
  "wh_masking_key (ws_header (set_mask b f)) = wh_masking_key (ws_header f)"
  "wh_masking_key (ws_header (set_byte1 x f)) = wh_masking_key (ws_header f)"
  "wh_masking_key (ws_header (set_opcode opc f)) = wh_masking_key (ws_header f)"
  "wh_masking_key (ws_header (set_key k f)) = k"
  by (simp_all add: frame_setters)

lemma parse_payload_flat:
  assumes "cursor_ok c" "length (wh_masking_key (ws_header f)) = 4"
  shows "parse_payload c f = flat_payload (m_consumed c) (cursor_rest c) f"
proof -
  let ?n = "unat (wh_payload_length (ws_header f))"
  have rem: "cursor_remaining c = length (cursor_rest c)"
    using cursor_total [OF assms(1)] by (simp add: cursor_remaining_def)
  show ?thesis
  proof (cases "length (cursor_rest c) < ?n")
    case True
    then show ?thesis by (simp add: parse_payload_def flat_payload_def Let_def rem)
  next
    case False
    then obtain c' where r: "readBytes c ?n = (True, take ?n (cursor_rest c), c')" "m_consumed c' = m_consumed c + ?n"
      using readBytes_cursor [OF assms(1), of ?n] by auto
    have "overwrite (replicate ?n 0) (take ?n (cursor_rest c)) = take ?n (cursor_rest c)"
      using False by (simp add: overwrite_def)
    then show ?thesis
      using False r by (simp add: parse_payload_def flat_payload_def Let_def rem applyMaskBytesImpl_eq [OF assms(2)] split: option.split)
  qed
qed

lemma parse_key_flat:
  assumes "cursor_ok c" "length (wh_masking_key (ws_header f)) = 4"
  shows "parse_key c f = flat_key (m_consumed c) (cursor_rest c) f"
proof -
  obtain c' where r: "readBytes c 4 = (4 \<le> length (cursor_rest c), take 4 (cursor_rest c), c')" "cursor_ok c'"
      "cursor_rest c' = drop 4 (cursor_rest c)" "m_consumed c' = m_consumed c + min 4 (length (cursor_rest c))"
    using readBytes_cursor [OF assms(1), of 4] by auto
  have "overwrite (wh_masking_key (ws_header f)) (take 4 (cursor_rest c)) = take 4 (cursor_rest c)" if "4 \<le> length (cursor_rest c)"
    using that assms(2) by (simp add: overwrite_def)
  then show ?thesis
    using r parse_payload_flat assms by (simp add: parse_key_def flat_key_def Let_def set_key_def not_le)
qed

lemma parse_length_flat:
  assumes "cursor_ok c" "length (wh_masking_key (ws_header f)) = 4" "m_consumed c = 2"
  shows "parse_length c b f srv = flat_length b (cursor_rest c) f srv"
proof -
  obtain c2 where r2: "readBytes c 2 = (2 \<le> length (cursor_rest c), take 2 (cursor_rest c), c2)" "cursor_ok c2"
      "cursor_rest c2 = drop 2 (cursor_rest c)" "m_consumed c2 = m_consumed c + min 2 (length (cursor_rest c))"
    using readBytes_cursor [OF assms(1), of 2] by auto
  obtain c8 where r8: "readBytes c 8 = (8 \<le> length (cursor_rest c), take 8 (cursor_rest c), c8)" "cursor_ok c8"
      "cursor_rest c8 = drop 8 (cursor_rest c)" "m_consumed c8 = m_consumed c + min 8 (length (cursor_rest c))"
    using readBytes_cursor [OF assms(1), of 8] by auto
  have used: "2 \<le> length (cursor_rest c) \<Longrightarrow> m_consumed c2 = 4" "8 \<le> length (cursor_rest c) \<Longrightarrow> m_consumed c8 = 10"
    using assms(3) r2(4) r8(4) by simp_all
  have m: "f\<lparr>ws_header := (ws_header f)\<lparr>wh_mask := b AND 0x80 \<noteq> 0\<rparr>\<rparr> = set_mask (b AND 0x80 \<noteq> 0) f"
    "wh_mask (ws_header (set_mask x f)) = x" for x
    by (simp_all add: set_mask_def)
  show ?thesis
    unfolding parse_length_def flat_length_def Let_def m r2(1) r8(1) prod.case
    using parse_key_flat assms r2 r8 used by (simp add: not_le [where 'a = nat])
qed

theorem fromIOVec_flat:
  assumes "length (wh_masking_key (ws_header f)) = 4"
  shows "fromIOVec iovs f srv = flat_parse (concat iovs) f srv"
proof -
  have total: "getTotalLength iovs = length (concat iovs)"
  proof -
    have "foldl (\<lambda>total iov. total + length iov) n iovs = n + length (concat iovs)" for n
      by (induction iovs arbitrary: n) auto
    then show ?thesis by (simp add: getTotalLength_def)
  qed
  let ?c = "new_cursor iovs (length (concat iovs))"
  have c: "cursor_ok ?c" "cursor_rest ?c = concat iovs" "m_consumed ?c = 0"
    by (auto simp: cursor_ok_def cursor_rest_def new_cursor_def)
  show ?thesis
  proof (cases "length (concat iovs) < 2")
    case True
    then have "concat iovs = [] \<or> (\<exists>x. concat iovs = [x])"
      by (cases "concat iovs"; cases "tl (concat iovs)") auto
    then show ?thesis
      using True by (elim disjE exE) (simp_all add: fromIOVec_def total del: concat_eq_Nil_conv)
  next
    case False
    then obtain b1 b2 r where d: "concat iovs = b1 # b2 # r"
      by (cases "concat iovs"; cases "tl (concat iovs)") auto
    obtain c1 where r1: "readBytes ?c 1 = (True, [b1], c1)" "cursor_ok c1" "cursor_rest c1 = b2 # r" "m_consumed c1 = 1"
      using readBytes_cursor [OF c(1), of 1] c(2,3) d by auto
    obtain c2 where r2: "readBytes c1 1 = (True, [b2], c2)" "cursor_ok c2" "cursor_rest c2 = r" "m_consumed c2 = 2"
      using readBytes_cursor [OF r1(2), of 1] r1(3,4) by (auto simp: numeral_2_eq_2)
    have l: "parse_length c2 b2 g srv = flat_length b2 r g srv" if "length (wh_masking_key (ws_header g)) = 4" for g
      using parse_length_flat [OF r2(2) that r2(4)] r2(3) by simp
    show ?thesis
      unfolding fromIOVec_def total Let_def d using r1(1) r2(1) d l assms
      by (simp add: set_byte1_def set_opcode_def Let_def)
  qed
qed

end
