(* ===== verification/Ws_Exact.thy ===== *)
theory Ws_Exact
  imports Ws_Codec
begin

text \<open>
  The exactness of the WebSocket parser: a buffer is accepted precisely when it starts with the encoding of a well-formed frame, whatever
  its segmentation; an answer other than \<open>kWsIncomplete\<close> does not change when more octets arrive.
\<close>

section \<open>Octets of a header\<close>

lemma bit_ext_len64:
  "length xs \<le> 8 \<Longrightarrow> bit (ext_len64 xs) n \<longleftrightarrow> n div 8 < length xs \<and> bit (rev xs ! (n div 8)) (n mod 8)"
proof (induction xs arbitrary: n rule: rev_induct)
  case Nil
  then show ?case by (simp add: ext_len64_def)
next
  case (snoc b xs)
  have e: "ext_len64 (xs @ [b]) = push_bit 8 (ext_len64 xs) OR ucast b"
    by (simp add: ext_len64_def)
  show ?case
  proof (cases "n < 8")
    case True
    then show ?thesis by (simp add: e bit_simps)
  next
    case False
    then obtain q where q: "n div 8 = Suc q"
      by (metis div_eq_0_iff not0_implies_Suc zero_neq_numeral)
    then have n: "(n - 8) div 8 = q" "(n - 8) mod 8 = n mod 8"
      using False by (auto simp: le_div_geq le_mod_geq)
    have "n < 64" if "q < length xs"
      using that snoc.prems q div_mult_mod_eq [of n 8] mod_less_divisor [of 8 n] by simp
    moreover have "\<not> bit b n"
      using False bit_imp_le_length [of b n] by auto
    ultimately show ?thesis
      using False n q snoc by (auto simp: e bit_simps)
  qed
qed

lemma ext_len64_bytes: "ext_len64 (map (\<lambda>i. ucast (drop_bit (i * 8) l AND 0xFF)) (rev [0..<8])) = l"
proof (rule bit_word_eqI)
  fix n assume n: "n < LENGTH(64)"
  then have "n div 8 < 8" by simp
  then show "bit (ext_len64 (map (\<lambda>i. ucast (drop_bit (i * 8) l AND 0xFF)) (rev [0..<8]))) n = bit l n"
    using n by (simp add: bit_ext_len64 rev_map [symmetric] rev_swap del: upt_rec_numeral) (simp add: bit_simps del: upt_rec_numeral)
qed

lemma bytes_ext_len64: "length xs = 8 \<Longrightarrow> map (\<lambda>i. ucast (drop_bit (i * 8) (ext_len64 xs) AND 0xFF)) (rev [0..<8]) = xs"
proof (rule nth_equalityI)
  fix j assume xs: "length xs = 8" and j: "j < length (map (\<lambda>i. ucast (drop_bit (i * 8) (ext_len64 xs) AND 0xFF) :: u8) (rev [0..<8]))"
  have r: "rev [0..<8] ! j = 7 - j" "rev xs ! (7 - j) = xs ! j"
    using j xs by (simp_all add: rev_nth del: upt_rec_numeral)
  have "ucast (drop_bit ((7 - j) * 8) (ext_len64 xs)) = xs ! j"
  proof (rule bit_word_eqI)
    fix n assume "n < LENGTH(8)"
    then have n: "n < 8" by simp
    then have "((7 - j) * 8 + n) div 8 = 7 - j" "((7 - j) * 8 + n) mod 8 = n" by auto
    then show "bit (ucast (drop_bit ((7 - j) * 8) (ext_len64 xs)) :: u8) n = bit (xs ! j) n"
      using n xs r(2) by (auto simp: bit_simps bit_ext_len64)
  qed
  then show "map (\<lambda>i. ucast (drop_bit (i * 8) (ext_len64 xs) AND 0xFF)) (rev [0..<8]) ! j = xs ! j"
    using j r(1) by (simp del: upt_rec_numeral)
qed simp

lemma less_exp63: "w < 2 ^ 63 \<longleftrightarrow> \<not> bit w 63" for w :: u64
proof
  show "w < 2 ^ 63 \<Longrightarrow> \<not> bit w 63"
    by (rule high_bits_clear [where k = 63]) simp_all
  assume "\<not> bit w 63"
  then have "bit w n = bit (w AND mask 63) n" if "n < 64" for n
    using that by (cases "n = 63") (auto simp: bit_simps)
  then have "w = w AND mask 63"
    by (intro bit_word_eqI) simp
  moreover have "w AND mask 63 < 2 ^ 63"
    by (rule and_mask_less_size) (simp add: word_size)
  ultimately show "w < 2 ^ 63" by simp
qed

lemma and_0x80: "b AND 0x80 = 0 \<longleftrightarrow> \<not> bit b 7" for b :: u8
proof
  assume "b AND 0x80 = 0"
  then have "\<not> bit (b AND 0x80) 7" by simp
  then show "\<not> bit b 7" by (simp add: bit_simps)
next
  assume "\<not> bit b 7"
  then show "b AND 0x80 = 0"
    by (intro bit_word_eqI) (auto simp: bit_simps bitlist_simps)
qed

lemma ext_len64_less: "length xs = 8 \<Longrightarrow> ext_len64 xs < 2 ^ 63 \<longleftrightarrow> xs ! 0 AND 0x80 = 0"
  unfolding less_exp63 and_0x80 by (simp add: bit_ext_len64 rev_nth)

lemma and_octet: "b AND 0xFF = b" for b :: u8
proof -
  have "(0xFF :: u8) = - 1" by simp
  then show ?thesis by (simp only: and.right_neutral)
qed

text \<open>The first octet.\<close>

lemma opcode_value_low [simp]: "opcode_value opc AND 0x0F = opcode_value opc"
  by (cases opc) simp_all

lemma opcode_cast_value [simp]: "opcode_cast (opcode_value opc) = opc"
  by (cases opc) (simp_all add: opcode_cast_def)

lemma opcode_value_cast:
  assumes "\<not> (v > 0x0A \<or> (v > 0x02 \<and> v < 0x08))"
  shows "opcode_value (opcode_cast v) = v"
proof -
  have "unat v \<le> 10" "unat v \<le> 2 \<or> 8 \<le> unat v"
    using assms by (simp_all add: word_less_nat_alt not_less)
  then have "unat v = 0 \<or> unat v = 1 \<or> unat v = 2 \<or> unat v = 8 \<or> unat v = 9 \<or> unat v = 10"
    by presburger
  moreover have "unat v = k \<Longrightarrow> v = of_nat k" for k
    by auto
  ultimately have "v = of_nat 0 \<or> v = of_nat 1 \<or> v = of_nat 2 \<or> v = of_nat 8 \<or> v = of_nat 9 \<or> v = of_nat 10"
    by blast
  then show ?thesis
    by (elim disjE) (simp_all add: opcode_cast_def)
qed

lemma opcode_value_range: "\<not> (opcode_value opc > 0x0A \<or> (opcode_value opc > 0x02 \<and> opcode_value opc < 0x08))"
  by (cases opc) simp_all

lemma header_byte1_bits:
  "header_byte1 opc fin False False False AND 0x80 \<noteq> 0 \<longleftrightarrow> fin" "header_byte1 opc fin False False False AND 0x40 = 0"
  "header_byte1 opc fin False False False AND 0x20 = 0" "header_byte1 opc fin False False False AND 0x10 = 0"
  "header_byte1 opc fin False False False AND 0x0F = opcode_value opc"
  by (cases opc; cases fin; simp add: header_byte1_def)+

lemma header_byte1_inverse:
  assumes "b AND 0x40 = 0" "b AND 0x20 = 0" "b AND 0x10 = 0" "\<not> (b AND 0x0F > 0x0A \<or> (b AND 0x0F > 0x02 \<and> b AND 0x0F < 0x08))"
  shows "header_byte1 (opcode_cast (b AND 0x0F)) (b AND 0x80 \<noteq> 0) False False False = b"
proof -
  have "b AND 0x80 = (if b AND 0x80 \<noteq> 0 then 0x80 else 0)"
    by (intro bit_word_eqI) (auto simp: and_0x80 bit_simps bitlist_simps)
  moreover have "b = (b AND 0x80) OR (b AND 0x40) OR (b AND 0x20) OR (b AND 0x10) OR (b AND 0x0F)"
    unfolding bit.conj_disj_distrib [symmetric] by (simp add: and_octet)
  ultimately show ?thesis
    using assms by (simp add: header_byte1_def opcode_value_cast)
qed

text \<open>The second octet and the extended length.\<close>

lemma byte2_split: "b = (if b AND 0x80 \<noteq> 0 then 0x80 else 0) OR (b AND 0x7F)" for b :: u8
proof -
  have "b AND 0x80 = (if b AND 0x80 \<noteq> 0 then 0x80 else 0)"
    by (intro bit_word_eqI) (auto simp: and_0x80 bit_simps bitlist_simps)
  moreover have "b = (b AND 0x80) OR (b AND 0x7F)"
    unfolding bit.conj_disj_distrib [symmetric] by (simp add: and_octet)
  ultimately show ?thesis by simp
qed

lemma byte2_fields:
  assumes "l < 128"
  shows "((if m then 0x80 else 0) OR l) AND 0x80 \<noteq> 0 \<longleftrightarrow> m" "((if m then 0x80 else 0) OR l) AND 0x7F = (l :: u8)"
proof -
  have l: "\<not> bit l 7"
    by (rule high_bits_clear [where k = 7]) (use assms in simp_all)
  show "((if m then 0x80 else 0) OR l) AND 0x80 \<noteq> 0 \<longleftrightarrow> m"
    using l by (simp add: and_0x80 bit_simps)
  show "((if m then 0x80 else 0) OR l) AND 0x7F = l"
  proof (rule bit_word_eqI)
    fix n assume "n < LENGTH(8)"
    then show "bit (((if m then 0x80 else 0) OR l) AND 0x7F) n = bit l n"
      using l by (cases "n = 7") (auto simp: bit_simps bitlist_simps)
  qed
qed

lemma ucast_low7: "l < 126 \<Longrightarrow> (ucast (ucast l :: u8) :: u64) = l" "l < 126 \<Longrightarrow> (ucast l :: u8) < 126" for l :: u64
proof -
  assume l: "l < 126"
  then have "unat l < 126" by (simp add: word_less_nat_alt)
  then have u: "unat (ucast l :: u8) = unat l"
    by (simp add: unsigned_ucast_eq take_bit_nat_eq_self)
  then show "(ucast l :: u8) < 126"
    using \<open>unat l < 126\<close> by (simp add: word_less_nat_alt)
  show "(ucast (ucast l :: u8) :: u64) = l"
  proof (rule bit_word_eqI)
    fix n assume "n < LENGTH(64)"
    have "l < 2 ^ 7" using \<open>unat l < 126\<close> by (simp add: word_less_nat_alt)
    then have "\<not> bit l n" if "8 \<le> n"
      by (rule high_bits_clear) (use that in simp_all)
    then show "bit (ucast (ucast l :: u8) :: u64) n = bit l n"
      by (cases "n < 8") (auto simp: bit_simps)
  qed
qed

lemma ld16_low16:
  assumes "l \<le> 0xFFFF"
  shows "(ucast (ld16 (ucast (drop_bit 8 l)) (ucast l)) :: u64) = l"
proof (rule bit_word_eqI)
  fix n assume "n < LENGTH(64)"
  have "l < 2 ^ 16" using assms by (simp add: word_less_nat_alt word_le_nat_alt)
  then have hi: "\<not> bit l n" if "16 \<le> n"
    using that by (intro high_bits_clear [where k = 16]) simp_all
  consider "n < 8" | "8 \<le> n" "n < 16" | "16 \<le> n" by linarith
  then show "bit (ucast (ld16 (ucast (drop_bit 8 l)) (ucast l)) :: u64) n = bit l n"
    by cases (auto simp: ld16_def bit_simps hi)
qed

lemma low16_ld16:
  "(ucast (drop_bit 8 (ucast (ld16 a b) :: u64)) :: u8) = a" "(ucast (ucast (ld16 a b) :: u64) :: u8) = b"
  by (intro bit_word_eqI; auto simp: ld16_def bit_simps dest: bit_imp_le_length)+

lemma ucast_u16_order:
  "(ucast w :: u64) \<le> 0xFFFF" "(ucast w :: u64) < 126 \<longleftrightarrow> w < 126" for w :: u16
proof -
  have "unat (ucast w :: u64) = unat w"
    using unsigned_less [of w, where 'a = nat] by (simp add: unsigned_ucast_eq take_bit_nat_eq_self)
  then show "(ucast w :: u64) \<le> 0xFFFF" "(ucast w :: u64) < 126 \<longleftrightarrow> w < 126"
    using unsigned_less [of w, where 'a = nat] by (simp_all add: word_less_nat_alt word_le_nat_alt)
qed

section \<open>Acceptance\<close>

definition ws_frame_ok :: "bool \<Rightarrow> WsFrame \<Rightarrow> bool" where
  "ws_frame_ok is_server f =
    (let h = ws_header f; n = length (ws_payload f) in
     \<not> wh_rsv1 h \<and> \<not> wh_rsv2 h \<and> \<not> wh_rsv3 h \<and> (isControlFrame (wh_opcode h) \<longrightarrow> wh_fin h \<and> n \<le> 125)
     \<and> wh_mask h = is_server \<and> n < 2 ^ 63 \<and> wh_payload_length h = of_nat n \<and> length (wh_masking_key h) = 4 \<and> check_payload f = None)"

text \<open>The payload octets on the wire.\<close>

definition wire_payload :: "bool \<Rightarrow> WsFrame \<Rightarrow> bytes" where
  "wire_payload masked f = (if masked then apply_key (ws_payload f) (wh_masking_key (ws_header f)) else ws_payload f)"

lemma unat_of_nat_63: "n < 2 ^ 63 \<Longrightarrow> unat (of_nat n :: u64) = n"
  by (simp add: unat_of_nat)

lemma encodeInto_eq:
  assumes "length (wh_masking_key (ws_header f)) = 4" "length (ws_payload f) < 2 ^ 63"
  shows "encodeInto (wh_masking_key (ws_header f)) f m =
    header_byte1 (wh_opcode (ws_header f)) (wh_fin (ws_header f)) (wh_rsv1 (ws_header f)) (wh_rsv2 (ws_header f)) (wh_rsv3 (ws_header f))
    # header_length_bytes (of_nat (length (ws_payload f))) m @ (if m then wh_masking_key (ws_header f) else []) @ wire_payload m f"
proof -
  have "(of_nat (length (ws_payload f)) :: u64) = 0 \<longleftrightarrow> ws_payload f = []"
    using unat_of_nat_63 [OF assms(2)] by auto
  then show ?thesis
    using assms(1) by (auto simp: encodeInto_def appendWsFrameHeader_def wire_payload_def applyMaskBytesImpl_eq apply_key_def Let_def)
qed

lemma length_wire_payload [simp]: "length (wire_payload m f) = length (ws_payload f)"
  by (simp add: wire_payload_def)

lemma flat_payload_accept:
  "flat_payload used r f = (Inr n, g) \<longleftrightarrow>
     (\<exists>p rest. g = f\<lparr>ws_payload := p\<rparr> \<and> length p = unat (wh_payload_length (ws_header f)) \<and> n = used + length p
        \<and> r = wire_payload (wh_mask (ws_header f)) g @ rest \<and> check_payload g = None)"
  (is "?l \<longleftrightarrow> ?r")
proof
  let ?n = "unat (wh_payload_length (ws_header f))"
  let ?p = "if wh_mask (ws_header f) then apply_key (take ?n r) (wh_masking_key (ws_header f)) else take ?n r"
  assume l: ?l
  then have "length ?p = ?n" "n = used + ?n" "g = f\<lparr>ws_payload := ?p\<rparr>" "check_payload g = None"
    by (auto simp: flat_payload_def Let_def not_less split: if_splits option.splits)
  then show ?r
    by (intro exI [of _ ?p] exI [of _ "drop ?n r"]) (simp add: wire_payload_def)
next
  let ?n = "unat (wh_payload_length (ws_header f))"
  assume ?r
  then obtain p rest where p: "g = f\<lparr>ws_payload := p\<rparr>" "length p = ?n" "n = used + ?n"
      "r = wire_payload (wh_mask (ws_header f)) g @ rest" "check_payload g = None" by auto
  have "(if wh_mask (ws_header f) then apply_key (take ?n r) (wh_masking_key (ws_header f)) else take ?n r) = p"
    using p(1,2,4) by (simp add: wire_payload_def)
  moreover have "?n \<le> length r"
    using p(1,2,4) by simp
  ultimately show ?l
    using p(1,3,5) by (simp add: flat_payload_def Let_def not_less)
qed

lemma header_length_bytes_length:
  "length (header_length_bytes l m) = (if l < 126 then 1 else if l \<le> 0xFFFF then 3 else 9)"
  by (simp add: header_length_bytes_def Let_def)

lemma flat_length_encoded:
  assumes "l < 2 ^ 63" "b # r = header_length_bytes l m @ r'"
  shows "flat_length b r f m = flat_key (1 + length (header_length_bytes l m)) r' (set_length l (set_mask m f))"
proof -
  consider "l < 126" | "126 \<le> l" "l \<le> 0xFFFF" | "0xFFFF < l" by fastforce
  then show ?thesis
  proof cases
    case 1
    then have "b = (if m then 0x80 else 0) OR ucast l" "r = r'"
      using assms(2) by (simp_all add: header_length_bytes_def)
    moreover have "(ucast l :: u8) < 128"
      using ucast_low7(2) [OF 1] by (simp add: word_less_nat_alt)
    ultimately show ?thesis
      using 1 byte2_fields [of "ucast l" m] ucast_low7 [OF 1] by (simp add: flat_length_def Let_def header_length_bytes_length numeral_2_eq_2)
  next
    case 2
    then have l: "\<not> l < 126" by (simp add: not_less)
    then have b: "b = (if m then 0x80 else 0) OR 126" "r = ucast (drop_bit 8 l) # ucast l # r'"
      using assms(2) 2(2) by (simp_all add: header_length_bytes_def Let_def)
    have "\<not> ld16 (ucast (drop_bit 8 l)) (ucast l) < 126"
      using ucast_u16_order(2) ld16_low16 [OF 2(2)] 2(1) by (metis not_less)
    then show ?thesis
      using l 2(2) b ld16_low16 [OF 2(2)]
      by (cases m) (simp_all add: flat_length_def Let_def header_length_bytes_length)
  next
    case 3
    define ext :: bytes where "ext = map (\<lambda>i. ucast (drop_bit (i * 8) l AND 0xFF)) (rev [0..<8])"
    have l: "\<not> l < 126" "\<not> l \<le> 0xFFFF" using 3 by (auto simp: word_less_nat_alt word_le_nat_alt)
    then have b: "b = (if m then 0x80 else 0) OR 127" "r = ext @ r'"
      using assms(2) by (simp_all add: header_length_bytes_def ext_def Let_def del: upt_rec_numeral)
    have e: "length ext = 8" "ext_len64 ext = l"
      unfolding ext_def ext_len64_bytes by simp_all
    then have "ext ! 0 AND 0x80 = 0"
      using ext_len64_less [of ext] assms(1) by simp
    then show ?thesis
      using l b e by (cases m) (simp_all add: flat_length_def Let_def header_length_bytes_length nth_append)
  qed
qed

lemma flat_length_decoded:
  assumes "flat_length b r f m = (Inr n, g)"
  obtains l r' where "l < 2 ^ 63" "b # r = header_length_bytes l m @ r'"
proof -
  let ?l = "b AND 0x7F"
  have m: "(b AND 0x80 \<noteq> 0) = m"
    using assms by (auto simp: flat_length_def Let_def split: if_splits)
  have l: "?l < 128"
    using and_mask_less_size [of 7 b] by (simp add: mask_eq_exp_minus_1 word_size)
  have b: "b = (if m then 0x80 else 0) OR ?l"
    using byte2_split [of b] unfolding m .
  have "?l = 127" if "\<not> ?l < 126" "?l \<noteq> 126"
  proof -
    have "unat ?l < 128" "\<not> unat ?l < 126"
      using l that(1) by (simp_all add: word_less_nat_alt)
    moreover have "unat ?l \<noteq> 126"
      using that(2) by (auto simp: word_unat_eq_iff)
    ultimately have "unat ?l = 127" by linarith
    then show ?thesis by (simp add: word_unat_eq_iff)
  qed
  then consider "?l < 126" | "?l = 126" "2 \<le> length r" "\<not> ld16 (r ! 0) (r ! 1) < 126"
    | "?l = 127" "8 \<le> length r" "r ! 0 AND 0x80 = 0" "\<not> ext_len64 (take 8 r) \<le> 0xFFFF"
    using assms by (auto simp: flat_length_def Let_def not_less [where 'a = nat] split: if_splits)
  then show ?thesis
  proof cases
    case 1
    have u: "unat (ucast ?l :: u64) = unat ?l"
      unfolding unsigned_ucast_eq by (intro take_bit_nat_eq_self less_trans [OF unat_u8_less]) simp
    have "(ucast ?l :: u64) < 126" "(ucast ?l :: u64) < 2 ^ 63"
      using 1 unat_u8_less [of ?l] by (simp_all add: word_less_nat_alt u)
    moreover have "(ucast (ucast ?l :: u64) :: u8) = ?l"
      by (rule bit_word_eqI) (auto simp: bit_simps)
    ultimately show ?thesis
      using that [of "ucast ?l" r] b by (simp add: header_length_bytes_def Let_def)
  next
    case 2
    obtain x y r' where r: "r = x # y # r'"
      using 2(2) by (cases r; cases "tl r") auto
    have x: "\<not> (ucast (ld16 x y) :: u64) < 126" "(ucast (ld16 x y) :: u64) \<le> 0xFFFF"
      using 2(3) r ucast_u16_order [of "ld16 x y"] by simp_all
    then have "(ucast (ld16 x y) :: u64) < 2 ^ 63"
      by (simp add: word_less_nat_alt word_le_nat_alt)
    then show ?thesis
      using that [of "ucast (ld16 x y)" r'] x b 2(1) r by (simp add: header_length_bytes_def low16_ld16 Let_def)
  next
    case 3
    have "ext_len64 (take 8 r) < 2 ^ 63"
      using ext_len64_less [of "take 8 r"] 3 by simp
    moreover have "\<not> ext_len64 (take 8 r) < 126"
      using 3(4) by (auto simp: word_less_nat_alt word_le_nat_alt)
    ultimately show ?thesis
      using that [of "ext_len64 (take 8 r)" "drop 8 r"] b 3 bytes_ext_len64 [of "take 8 r"]
      by (simp add: header_length_bytes_def Let_def del: upt_rec_numeral)
  qed
qed

lemma flat_key_accept:
  assumes "length (wh_masking_key (ws_header f)) = 4"
  shows "flat_key used r f = (Inr n, g) \<longleftrightarrow>
    (\<exists>k p rest. g = (set_key k f)\<lparr>ws_payload := p\<rparr> \<and> length k = 4 \<and> (\<not> wh_mask (ws_header f) \<longrightarrow> k = wh_masking_key (ws_header f))
       \<and> length p = unat (wh_payload_length (ws_header f)) \<and> (isControlFrame (wh_opcode (ws_header f)) \<longrightarrow> length p \<le> 125)
       \<and> check_payload g = None \<and> n = used + (if wh_mask (ws_header f) then 4 else 0) + length p
       \<and> r = (if wh_mask (ws_header f) then k else []) @ wire_payload (wh_mask (ws_header f)) g @ rest)"
  (is "?l \<longleftrightarrow> ?r")
proof (cases "wh_mask (ws_header f)")
  case True
  have ctl: "125 < wh_payload_length (ws_header f) \<longleftrightarrow> \<not> unat (wh_payload_length (ws_header f)) \<le> 125"
    by (simp add: word_less_nat_alt not_le)
  have keep: "wh_payload_length (ws_header (set_key k f)) = wh_payload_length (ws_header f)"
    "wh_mask (ws_header (set_key k f)) = wh_mask (ws_header f)" for k
    by (simp_all add: set_key_def)
  show ?thesis
  proof
    assume ?l
    then have l: "4 \<le> length r" "flat_payload (used + 4) (drop 4 r) (set_key (take 4 r) f) = (Inr n, g)"
      "isControlFrame (wh_opcode (ws_header f)) \<longrightarrow> unat (wh_payload_length (ws_header f)) \<le> 125"
      using True ctl by (auto simp: flat_key_def Let_def not_less [where 'a = nat] split: if_splits)
    then obtain p rest where "g = (set_key (take 4 r) f)\<lparr>ws_payload := p\<rparr>" "length p = unat (wh_payload_length (ws_header f))"
        "n = used + 4 + length p" "drop 4 r = wire_payload True g @ rest" "check_payload g = None"
      unfolding flat_payload_accept keep using True by auto
    then show ?r
      using True l append_take_drop_id [of 4 r] by (intro exI [of _ "take 4 r"] exI [of _ p] exI [of _ rest]) simp
  next
    assume ?r
    then show ?l
      using True ctl by (auto simp: flat_key_def Let_def flat_payload_accept keep)
  qed
next
  case False
  have "set_key (wh_masking_key (ws_header f)) f = f" by (simp add: set_key_def)
  then show ?thesis
    using assms False by (auto simp: flat_key_def Let_def flat_payload_accept word_less_nat_alt not_le)
qed

declare flat_parse.simps(1) [simp del]

definition good_byte1 :: "u8 \<Rightarrow> bool" where
  "good_byte1 b = (b AND 0x40 = 0 \<and> b AND 0x20 = 0 \<and> b AND 0x10 = 0
     \<and> \<not> (b AND 0x0F > 0x0A \<or> (b AND 0x0F > 0x02 \<and> b AND 0x0F < 0x08))
     \<and> (isControlFrame (opcode_cast (b AND 0x0F)) \<longrightarrow> b AND 0x80 \<noteq> 0))"

lemma set_byte1_sel:
  "wh_fin (ws_header (set_byte1 b f)) = (b AND 0x80 \<noteq> 0)" "wh_rsv1 (ws_header (set_byte1 b f)) = (b AND 0x40 \<noteq> 0)"
  "wh_rsv2 (ws_header (set_byte1 b f)) = (b AND 0x20 \<noteq> 0)" "wh_rsv3 (ws_header (set_byte1 b f)) = (b AND 0x10 \<noteq> 0)"
  by (simp_all add: set_byte1_def)

lemma flat_parse_good:
  "good_byte1 b \<Longrightarrow> flat_parse (b # b2 # r) f m = flat_length b2 r (set_opcode (opcode_cast (b AND 0x0F)) (set_byte1 b f)) m"
  unfolding good_byte1_def flat_parse.simps Let_def set_byte1_sel by auto

lemma flat_parse_bad:
  "\<not> good_byte1 b \<Longrightarrow> \<exists>e g. flat_parse (b # b2 # r) f m = (Inl e, g)"
  "\<not> good_byte1 b \<Longrightarrow> flat_parse (b # b2 # r) f m = flat_parse (b # b2 # r') f m"
  unfolding good_byte1_def flat_parse.simps Let_def set_byte1_sel by auto

lemma good_header_byte1:
  assumes "isControlFrame opc \<longrightarrow> fin"
  shows "good_byte1 (header_byte1 opc fin False False False)"
  unfolding good_byte1_def header_byte1_bits using opcode_value_range [of opc] assms by simp

lemma flat_parse_encoded:
  assumes "ws_frame_ok m g" "length (wh_masking_key (ws_header f)) = 4" "\<not> m \<longrightarrow> wh_masking_key (ws_header g) = wh_masking_key (ws_header f)"
  shows "flat_parse (encodeInto (wh_masking_key (ws_header g)) g m @ rest) f m = (Inr (length (encodeInto (wh_masking_key (ws_header g)) g m)), g)"
proof -
  let ?h = "ws_header g" and ?n = "length (ws_payload g)"
  let ?b = "header_byte1 (wh_opcode ?h) (wh_fin ?h) False False False"
  let ?ws_wire = "(if m then wh_masking_key ?h else []) @ wire_payload m g"
  define f1 where "f1 = set_length (of_nat ?n) (set_mask m (set_opcode (wh_opcode ?h) (set_byte1 ?b f)))"
  note ok = assms(1) [unfolded ws_frame_ok_def Let_def]
  have enc: "encodeInto (wh_masking_key ?h) g m = ?b # header_length_bytes (of_nat ?n) m @ ?ws_wire"
    using encodeInto_eq [of g m] ok by simp
  obtain b2 r where r: "b2 # r = header_length_bytes (of_nat ?n) m @ ?ws_wire @ rest"
    using header_length_bytes_length [of "of_nat ?n" m]
    by (cases "header_length_bytes (of_nat ?n) m") (auto split: if_splits)
  have n: "(of_nat ?n :: u64) < 2 ^ 63" "unat (of_nat ?n :: u64) = ?n"
    using ok unat_of_nat_63 [of ?n] by (simp_all add: word_less_nat_alt)
  have f1: "wh_payload_length (ws_header f1) = of_nat ?n" "wh_mask (ws_header f1) = m" "wh_opcode (ws_header f1) = wh_opcode ?h"
    "wh_masking_key (ws_header f1) = wh_masking_key (ws_header f)"
    by (simp_all add: f1_def frame_setters)
  have g: "g = set_key (wh_masking_key ?h) f1\<lparr>ws_payload := ws_payload g\<rparr>"
    using ok header_byte1_bits [of "wh_opcode ?h" "wh_fin ?h"] by (cases g; cases "ws_header g"; simp add: f1_def frame_setters)
  have "flat_parse (?b # b2 # r) f m = flat_length b2 r (set_opcode (wh_opcode ?h) (set_byte1 ?b f)) m"
    using ok flat_parse_good [OF good_header_byte1, of "wh_opcode ?h" "wh_fin ?h"] by (simp add: header_byte1_bits)
  also have "\<dots> = flat_key (1 + length (header_length_bytes (of_nat ?n) m)) (?ws_wire @ rest) f1"
    unfolding f1_def by (rule flat_length_encoded [OF n(1) r])
  also have "\<dots> = (Inr (1 + length (header_length_bytes (of_nat ?n) m) + (if m then 4 else 0) + ?n), g)"
  proof (subst flat_key_accept, simp add: f1 assms(2), rule exI [of _ "wh_masking_key ?h"], rule exI [of _ "ws_payload g"],
      rule exI [of _ rest], intro conjI)
    show "g = set_key (wh_masking_key ?h) f1\<lparr>ws_payload := ws_payload g\<rparr>" by (rule g)
  qed (use ok assms(3) in \<open>simp_all add: f1 n(2)\<close>)
  finally have "flat_parse (?b # b2 # r) f m = (Inr (1 + length (header_length_bytes (of_nat ?n) m) + (if m then 4 else 0) + ?n), g)" .
  moreover have "encodeInto (wh_masking_key ?h) g m @ rest = ?b # b2 # r"
    unfolding enc r by simp
  moreover have "length (encodeInto (wh_masking_key ?h) g m) = 1 + length (header_length_bytes (of_nat ?n) m) + (if m then 4 else 0) + ?n"
    unfolding enc using ok by simp
  ultimately show ?thesis by (simp only:)
qed

lemma flat_parse_decoded:
  assumes "flat_parse d f m = (Inr n, g)" "length (wh_masking_key (ws_header f)) = 4"
  shows "ws_frame_ok m g \<and> (\<not> m \<longrightarrow> wh_masking_key (ws_header g) = wh_masking_key (ws_header f))
    \<and> (\<exists>rest. d = encodeInto (wh_masking_key (ws_header g)) g m @ rest)"
proof -
  obtain b b2 r where d: "d = b # b2 # r"
    using assms(1) by (cases "(d, f, m)" rule: flat_parse.cases) auto
  have b: "good_byte1 b"
    using assms(1) flat_parse_bad(1) [of b b2 r f m] d by auto
  define f0 where "f0 = set_opcode (opcode_cast (b AND 0x0F)) (set_byte1 b f)"
  have l0: "flat_length b2 r f0 m = (Inr n, g)"
    using flat_parse_good [OF b] assms(1) d by (simp add: f0_def)
  obtain l r' where l: "l < 2 ^ 63" "b2 # r = header_length_bytes l m @ r'"
    using flat_length_decoded [OF l0] .
  define f1 where "f1 = set_length l (set_mask m f0)"
  have f1: "wh_payload_length (ws_header f1) = l" "wh_mask (ws_header f1) = m" "wh_opcode (ws_header f1) = opcode_cast (b AND 0x0F)"
    "wh_masking_key (ws_header f1) = wh_masking_key (ws_header f)" "wh_fin (ws_header f1) = (b AND 0x80 \<noteq> 0)"
    "\<not> wh_rsv1 (ws_header f1)" "\<not> wh_rsv2 (ws_header f1)" "\<not> wh_rsv3 (ws_header f1)"
    using b by (simp_all add: f1_def f0_def frame_setters good_byte1_def)
  have k1: "length (wh_masking_key (ws_header f1)) = 4" and "flat_key (1 + length (header_length_bytes l m)) r' f1 = (Inr n, g)"
    using flat_length_encoded [OF l] l0 assms(2) by (simp_all add: f1_def f0_def)
  then have acc: "flat_key (1 + length (header_length_bytes l m)) r' f1 = (Inr n, g)" by simp
  obtain k p rest where g: "g = set_key k f1\<lparr>ws_payload := p\<rparr>" "length k = 4" "\<not> m \<longrightarrow> k = wh_masking_key (ws_header f)"
      "length p = unat l" "isControlFrame (opcode_cast (b AND 0x0F)) \<longrightarrow> length p \<le> 125" "check_payload g = None"
      "r' = (if m then k else []) @ wire_payload m g @ rest"
    using iffD1 [OF flat_key_accept [OF k1] acc] unfolding f1(1-4) by blast
  have p: "length p < 2 ^ 63" "l = of_nat (length p)"
    using l(1) g(4) by (simp_all add: word_less_nat_alt)
  have sel: "ws_header g = (ws_header f1)\<lparr>wh_masking_key := k\<rparr>" "ws_payload g = p"
    using g(1) by (simp_all add: set_key_def)
  have "encodeInto k g m = b # header_length_bytes l m @ (if m then k else []) @ wire_payload m g"
    using encodeInto_eq [of g m] g(2) p f1 b header_byte1_inverse [of b] by (simp add: sel good_byte1_def)
  moreover have "ws_frame_ok m g"
    unfolding ws_frame_ok_def sel Let_def using g(2,5,6) p b by (simp add: f1 good_byte1_def)
  ultimately show ?thesis
    using g(3,7) l(2) d by (intro conjI exI [of _ rest]) (simp_all add: sel)
qed

section \<open>More input\<close>

lemma flat_payload_append: "fst (flat_payload used r f) \<noteq> Inl kWsIncomplete \<Longrightarrow> flat_payload used (r @ e) f = flat_payload used r f"
  by (auto simp: flat_payload_def Let_def split: option.splits)

lemma flat_key_append: "fst (flat_key used r f) \<noteq> Inl kWsIncomplete \<Longrightarrow> flat_key used (r @ e) f = flat_key used r f"
  by (auto simp: flat_key_def Let_def flat_payload_append)

lemma flat_length_append:
  assumes "fst (flat_length b r f m) \<noteq> Inl kWsIncomplete"
  shows "flat_length b (r @ e) f m = flat_length b r f m"
proof -
  let ?l = "b AND 0x7F"
  let ?g = "set_mask (b AND 0x80 \<noteq> 0) f"
  have take2: "ld16 ((r @ e) ! 0) ((r @ e) ! 1) = ld16 (r ! 0) (r ! 1)" "drop 2 (r @ e) = drop 2 r @ e" if "2 \<le> length r"
    using that by (cases "r = []"; simp add: nth_append)+
  have take8: "(r @ e) ! 0 = r ! 0" "take 8 (r @ e) = take 8 r" "drop 8 (r @ e) = drop 8 r @ e" if "8 \<le> length r"
    using that by (cases "r = []"; simp add: nth_append)+
  consider "(m \<and> b AND 0x80 = 0) \<or> (\<not> m \<and> b AND 0x80 \<noteq> 0)" | "(b AND 0x80 \<noteq> 0) = m" "?l < 126"
    | "(b AND 0x80 \<noteq> 0) = m" "\<not> ?l < 126" "?l = 126" | "(b AND 0x80 \<noteq> 0) = m" "\<not> ?l < 126" "?l \<noteq> 126" by blast
  then show ?thesis
  proof cases
    case 1
    then show ?thesis by (auto simp: flat_length_def Let_def)
  next
    case 2
    then have "flat_length b s f m = flat_key 2 s (set_length (ucast ?l) ?g)" for s
      by (auto simp: flat_length_def Let_def)
    then show ?thesis
      using assms flat_key_append by metis
  next
    case 3
    then have eq: "flat_length b s f m = (if length s < 2 then (Inl kWsIncomplete, ?g)
        else if ld16 (s ! 0) (s ! 1) < 126 then (Inl kWsInvalidPayloadLength, ?g)
        else flat_key 4 (drop 2 s) (set_length (ucast (ld16 (s ! 0) (s ! 1))) ?g))" for s
      unfolding flat_length_def Let_def by auto
    have "2 \<le> length r"
      using assms unfolding eq by (auto simp: not_less split: if_splits)
    then show ?thesis
      using assms flat_key_append unfolding eq take2 [OF \<open>2 \<le> length r\<close>] by (auto split: if_splits)
  next
    case 4
    then have eq: "flat_length b s f m = (if length s < 8 then (Inl kWsIncomplete, ?g)
        else if s ! 0 AND 0x80 \<noteq> 0 then (Inl kWsInvalidPayloadLength, ?g)
        else if ext_len64 (take 8 s) \<le> 0xFFFF then (Inl kWsInvalidPayloadLength, ?g)
        else flat_key 10 (drop 8 s) (set_length (ext_len64 (take 8 s)) ?g))" for s
      unfolding flat_length_def Let_def by auto
    have "8 \<le> length r"
      using assms unfolding eq by (auto simp: not_less split: if_splits)
    then show ?thesis
      using assms flat_key_append unfolding eq take8 [OF \<open>8 \<le> length r\<close>] by (auto split: if_splits)
  qed
qed

lemma flat_parse_append:
  assumes "fst (flat_parse d f m) \<noteq> Inl kWsIncomplete"
  shows "flat_parse (d @ e) f m = flat_parse d f m"
proof (cases "\<exists>b b2 r. d = b # b2 # r")
  case True
  then obtain b b2 r where "d = b # b2 # r" by blast
  then show ?thesis
    using assms flat_parse_bad(2) [of b b2 "r @ e" f m r] by (cases "good_byte1 b") (simp_all add: flat_parse_good flat_length_append)
next
  case False
  then show ?thesis
    using assms by (cases "(d, f, m)" rule: flat_parse.cases) auto
qed

section \<open>Properties\<close>

text \<open>C6. A run of the parser on a list of memory segments succeeds precisely when the octets start with the encoding of a well-formed
  frame (reserved bits clear, control frames unfragmented and at most 125 octets, masked exactly when the reader is the server, close
  payload and text checked); the frame it fills is that frame and the count it returns is the length of that encoding.\<close>

theorem ws_parse_exact:
  assumes "length (wh_masking_key (ws_header f0)) = 4"
  shows "fromIOVec iovs f0 is_server = (Inr n, f) \<longleftrightarrow>
    ws_frame_ok is_server f \<and> (\<not> is_server \<longrightarrow> wh_masking_key (ws_header f) = wh_masking_key (ws_header f0))
    \<and> n = length (encodeInto (wh_masking_key (ws_header f)) f is_server)
    \<and> (\<exists>rest. concat iovs = encodeInto (wh_masking_key (ws_header f)) f is_server @ rest)"
proof -
  have "n = length (encodeInto (wh_masking_key (ws_header f)) f is_server)" if "flat_parse (concat iovs) f0 is_server = (Inr n, f)"
    using flat_parse_decoded [OF that assms] flat_parse_encoded [of is_server f f0] that assms by auto
  then show ?thesis
    unfolding fromIOVec_flat [OF assms] using flat_parse_decoded [OF _ assms] flat_parse_encoded [OF _ assms] by metis
qed

theorem ws_parse_exact_witness:
  "fromIOVec [[0x82], [0x03, 7], [8, 9, 1]] new_frame False = (Inr 5, make_frame Binary [7, 8, 9] True)"
proof -
  let ?f = "make_frame Binary [7, 8, 9] True"
  have enc: "encodeInto (wh_masking_key (ws_header ?f)) ?f False = [0x82, 0x03, 7, 8, 9]"
    by (simp add: encodeInto_def make_frame_def new_header_def appendWsFrameHeader_def header_byte1_def header_length_bytes_def)
  have "ws_frame_ok False ?f" "length (wh_masking_key (ws_header new_frame)) = 4"
    "wh_masking_key (ws_header ?f) = wh_masking_key (ws_header new_frame)"
    by (simp_all add: ws_frame_ok_def make_frame_def new_frame_def new_header_def check_payload_def)
  then show ?thesis
    using ws_parse_exact [of new_frame "[[0x82], [0x03, 7], [8, 9, 1]]" False 5 ?f] unfolding enc by simp
qed

text \<open>An answer other than "incomplete" is final: octets that arrive later change neither the verdict nor the frame, so a prefix
  of an acceptable frame is never rejected and never accepted early.\<close>

theorem ws_parse_stable:
  assumes "length (wh_masking_key (ws_header f)) = 4" "fst (fromIOVec iovs f is_server) \<noteq> Inl kWsIncomplete"
    "concat iovs' = concat iovs @ later"
  shows "fromIOVec iovs' f is_server = fromIOVec iovs f is_server"
  using flat_parse_append [of "concat iovs" f is_server later] assms(2,3) by (simp add: fromIOVec_flat [OF assms(1)])

theorem ws_parse_stable_witness:
  "fromIOVec [[0x83, 0x00], [1, 2, 3]] new_frame False = fromIOVec [[0x83, 0x00]] new_frame False"
proof (rule ws_parse_stable)
  show "length (wh_masking_key (ws_header new_frame)) = 4"
    by (simp add: new_frame_def new_header_def)
  then show "fst (fromIOVec [[0x83, 0x00]] new_frame False) \<noteq> Inl kWsIncomplete"
    by (simp add: fromIOVec_flat flat_parse.simps(1) Let_def set_byte1_def)
  show "concat [[0x83, 0x00 :: u8], [1, 2, 3]] = concat [[0x83, 0x00]] @ [1, 2, 3]"
    by simp
qed

lemma length_appendWsFrameHeader:
  "length key = 4 \<Longrightarrow> length (appendWsFrameHeader key out opc fin r1 r2 r3 l m) = length out + wsFrameHeaderLength l m"
  by (auto simp: appendWsFrameHeader_def wsFrameHeaderLength_def header_length_bytes_length word_less_nat_alt word_le_nat_alt)

lemma encodeMessageInto_eq:
  assumes "length key = 4" "length payload < 2 ^ 64"
  shows "encodeMessageInto key opc payload fin m
    = appendWsFrameHeader key [] opc fin False False False (of_nat (length payload)) m @ (if m then apply_key payload key else payload)"
proof -
  have "(of_nat (length payload) :: u64) = 0 \<longleftrightarrow> payload = []"
    using assms(2) by (simp add: word_unat_eq_iff unat_of_nat)
  then show ?thesis
    using assms(1) by (auto simp: encodeMessageInto_def Let_def applyMaskBytesImpl_eq apply_key_def)
qed

lemma encodeMessageInto_move_eq:
  assumes "length key = 4" "length payload < 2 ^ 64"
  shows "encodeMessageInto_move key opc payload fin m = encodeMessageInto key opc payload fin m"
proof -
  define h where "h = appendWsFrameHeader key [] opc fin False False False (of_nat (length payload)) m"
  have "unat (of_nat (length payload) :: u64) = length payload"
    using assms(2) by (simp add: unat_of_nat)
  moreover have "overwrite (take (length h) (payload @ replicate (length h) 0) @ take (length payload) (payload @ replicate (length h) 0)) h = h @ payload"
    by (simp add: overwrite_def)
  ultimately show ?thesis
    unfolding encodeMessageInto_eq [OF assms] encodeMessageInto_move_def Let_def h_def [symmetric]
    using assms(1) by (auto simp: applyMaskBytesImpl_eq apply_key_def)
qed

text \<open>C23. The UTF-8 validators of the codec and of the reader accept precisely the concatenations of encodings of Unicode scalar values
  (no surrogates, nothing above U+10FFFF, no overlong form); the masked validators give the verdict on the unmasked payload, in one
  piece or split over memory segments.\<close>

theorem ws_utf8_exact:
  assumes "length key = 4"
  shows "(isValidUtf8Bytes d \<longleftrightarrow> (\<exists>cs. list_all scalar_value cs \<and> d = concat (map utf8_encode cs)))
    \<and> (isValidUtf8MaskedBytes d key \<longleftrightarrow> isValidUtf8Bytes (applyMaskBytesImpl key d))
    \<and> (wsIsValidUtf8MaskedIovecs iovs key \<longleftrightarrow> isValidUtf8Bytes (applyMaskBytesImpl key (concat iovs)))"
  using assms by (simp add: isValidUtf8Bytes_list masked_utf8_list wsIsValidUtf8MaskedIovecs_eq applyMaskBytesImpl_eq utf8_list_iff)

theorem ws_utf8_exact_witness:
  "isValidUtf8MaskedBytes [0xE3, 0xA0, 0xAF] [1, 2, 3, 4] \<longleftrightarrow> isValidUtf8Bytes (applyMaskBytesImpl [1, 2, 3, 4] [0xE3, 0xA0, 0xAF])"
  using ws_utf8_exact [of "[1, 2, 3, 4]" "[0xE3, 0xA0, 0xAF]"] by simp

text \<open>Masking by vectors, 64-bit and 32-bit blocks and single octets is the octetwise exclusive-or with the key, position by position
  modulo four, and applying it twice restores the payload; walking memory segments gives the same octets.\<close>

theorem ws_mask_involution:
  assumes "length key = 4"
  shows "length (applyMaskBytesImpl key d) = length d \<and> (\<forall>i<length d. applyMaskBytesImpl key d ! i = d ! i XOR key ! (i mod 4))
    \<and> applyMaskBytesImpl key (applyMaskBytesImpl key d) = d
    \<and> concat (wsApplyMaskIovecsInPlace iovs key 0) = applyMaskBytesImpl key (concat iovs)"
  using assms by (simp add: applyMaskBytesImpl_eq wsApplyMaskIovecs_eq)

theorem ws_mask_involution_witness:
  "applyMaskBytesImpl [1, 2, 3, 4] (applyMaskBytesImpl [1, 2, 3, 4] [9, 8, 7, 6, 5]) = [9, 8, 7, 6, 5]"
  using ws_mask_involution [of "[1, 2, 3, 4]" "[9, 8, 7, 6, 5]"] by simp

text \<open>The three encoders of a message (from a frame, from a view of the payload, in place in the buffer of the payload) write the same
  octets, and the header they write has the length that \<open>wsFrameHeaderLength\<close> reserves.\<close>

theorem ws_encoders_agree:
  assumes "length key = 4" "length payload < 2 ^ 64"
  shows "encodeMessageInto_move key opc payload fin m = encodeMessageInto key opc payload fin m
    \<and> encodeInto key (make_frame opc payload fin) m = encodeMessageInto key opc payload fin m
    \<and> length (encodeMessageInto key opc payload fin m) = wsFrameHeaderLength (of_nat (length payload)) m + length payload"
proof (intro conjI)
  show "encodeMessageInto_move key opc payload fin m = encodeMessageInto key opc payload fin m"
    using encodeMessageInto_move_eq [OF assms] .
  show "encodeInto key (make_frame opc payload fin) m = encodeMessageInto key opc payload fin m"
    by (simp add: encodeInto_def encodeMessageInto_def make_frame_def new_header_def Let_def)
  show "length (encodeMessageInto key opc payload fin m) = wsFrameHeaderLength (of_nat (length payload)) m + length payload"
    using assms(1) by (simp add: encodeMessageInto_eq [OF assms] length_appendWsFrameHeader)
qed

theorem ws_encoders_agree_witness:
  "encodeMessageInto_move [1, 2, 3, 4] Ping [9] True True = encodeMessageInto [1, 2, 3, 4] Ping [9] True True"
  using ws_encoders_agree [of "[1, 2, 3, 4]" "[9]" Ping True True] by simp

end
