(* ===== verification/Ws_Reader.thy ===== *)
theory Ws_Reader
  imports Ws_Exact Ring_Buffer_Proofs
begin

text \<open>
  The WebSocket reader of \<^verbatim>\<open>galay-ws/kernel/ws_reader.h\<close>: the prefix scan and the fast path for data frames, the message state machine
  that reassembles fragments, the frame state machine, and the read machine that alternates parsing with receives into the ring buffer.
  The string and the opcode the caller lends are fields of the state; a callback for control frames is a log of its calls. The extra text
  of an error is left out.
\<close>

section \<open>Settings and states\<close>

record WsReaderSetting =
  max_frame_size :: nat
  max_message_size :: nat
  auto_fragment :: bool

definition default_reader_setting :: WsReaderSetting where
  "default_reader_setting = \<lparr>max_frame_size = 10 * 1024 * 1024, max_message_size = 100 * 1024 * 1024, auto_fragment = True\<rparr>"

datatype WsMessageFastPathStatus = kFallback | kNeedMore | kContinue | kReturn

record WsFastPathFramePrefix =
  fp_fin :: bool
  fp_opcode :: WsOpcode
  fp_mask :: bool
  fp_payload_length :: u64
  fp_masking_key :: "u8 list"
  fp_payload_offset :: nat
  fp_frame_length :: nat

definition new_prefix :: WsFastPathFramePrefix where
  "new_prefix = \<lparr>fp_fin = False, fp_opcode = Text, fp_mask = False, fp_payload_length = 0, fp_masking_key = [0, 0, 0, 0],
     fp_payload_offset = 0, fp_frame_length = 0\<rparr>"

record WsMessageReadState =
  mr_ring_buffer :: RingBuffer
  mr_setting :: WsReaderSetting
  mr_message :: bytes
  mr_opcode :: WsOpcode
  mr_is_server :: bool
  mr_total_received :: nat
  mr_first_frame :: bool
  mr_fast_path_frames :: nat
  mr_control_frame_callback :: bool
  mr_control_calls :: "(WsOpcode \<times> bytes) list"
  mr_enable_fast_path :: bool
  mr_ws_error :: "WsErrorCode option"

definition new_message_state :: "RingBuffer \<Rightarrow> WsReaderSetting \<Rightarrow> bytes \<Rightarrow> WsOpcode \<Rightarrow> bool \<Rightarrow> bool \<Rightarrow> bool \<Rightarrow> WsMessageReadState" where
  "new_message_state ring setting message opc is_server callback fast =
    \<lparr>mr_ring_buffer = ring, mr_setting = setting, mr_message = message, mr_opcode = opc, mr_is_server = is_server, mr_total_received = 0,
     mr_first_frame = True, mr_fast_path_frames = 0, mr_control_frame_callback = callback, mr_control_calls = [],
     mr_enable_fast_path = fast, mr_ws_error = None\<rparr>"

definition setParseError :: "WsErrorCode \<Rightarrow> WsMessageReadState \<Rightarrow> WsMessageReadState" where
  "setParseError e st = st\<lparr>mr_ws_error := Some e\<rparr>"

definition consume_ring :: "nat \<Rightarrow> WsMessageReadState \<Rightarrow> WsMessageReadState" where
  "consume_ring n st = st\<lparr>mr_ring_buffer := rb_consume n (mr_ring_buffer st)\<rparr>"

definition takeResult :: "WsMessageReadState \<Rightarrow> WsErrorCode + bool" where
  "takeResult st = (case mr_ws_error st of Some e \<Rightarrow> Inl e | None \<Rightarrow> Inr True)"

definition resetForNextMessage :: "WsMessageReadState \<Rightarrow> WsMessageReadState" where
  "resetForNextMessage st = st\<lparr>mr_total_received := 0, mr_first_frame := True, mr_fast_path_frames := 0, mr_ws_error := None, mr_message := []\<rparr>"

section \<open>The prefix scan\<close>

definition wsIovecTotalLength :: "bytes list \<Rightarrow> nat" where
  "wsIovecTotalLength iovecs = foldl (\<lambda>total iov. total + length iov) 0 iovecs"

fun read_iovec_loop :: "bytes list \<Rightarrow> nat \<Rightarrow> nat \<Rightarrow> bytes option" where
  "read_iovec_loop [] cursor remaining = None"
| "read_iovec_loop (iov # iovs) cursor remaining =
    (if cursor \<ge> length iov then read_iovec_loop iovs (cursor - length iov) remaining
     else
       let available = length iov - cursor;
           n = min available remaining;
           out = take n (drop cursor iov)
       in if remaining - n = 0 then Some out else map_option ((@) out) (read_iovec_loop iovs 0 (remaining - n)))"

definition wsReadIovecBytes :: "bytes list \<Rightarrow> nat \<Rightarrow> nat \<Rightarrow> bytes option" where
  "wsReadIovecBytes iovecs offset len = (if len = 0 then Some [] else read_iovec_loop iovecs offset len)"

text \<open>The end of the scan, once the payload length is known: the masking key and the extent of the frame.\<close>

definition scan_extent :: "bytes list \<Rightarrow> WsFastPathFramePrefix \<Rightarrow> nat \<Rightarrow> u64 \<Rightarrow> WsMessageFastPathStatus \<times> WsFastPathFramePrefix" where
  "scan_extent iovecs prefix header_length payload_length =
    (let total_length = wsIovecTotalLength iovecs;
         finish = (\<lambda>prefix header_length.
           let frame_length = of_nat header_length + payload_length in
           if unat frame_length > total_length then (kNeedMore, prefix)
           else (kContinue, prefix\<lparr>fp_payload_length := payload_length, fp_payload_offset := header_length,
                                   fp_frame_length := unat frame_length\<rparr>)) in
     if fp_mask prefix then
       if total_length < header_length + 4 then (kNeedMore, prefix)
       else
         (case wsReadIovecBytes iovecs header_length 4 of
            None \<Rightarrow> (kNeedMore, prefix)
          | Some key \<Rightarrow> finish (prefix\<lparr>fp_masking_key := key\<rparr>) (header_length + 4))
     else finish prefix header_length)"

definition scan_length :: "bytes list \<Rightarrow> WsFastPathFramePrefix \<Rightarrow> u8 \<Rightarrow> WsMessageFastPathStatus \<times> WsFastPathFramePrefix" where
  "scan_length iovecs prefix byte2 =
    (let total_length = wsIovecTotalLength iovecs;
         payload_length = ucast (byte2 AND 0x7F) :: u64 in
     if payload_length = 126 then
       if total_length < 2 + 2 then (kNeedMore, prefix)
       else
         (case wsReadIovecBytes iovecs 2 2 of
            None \<Rightarrow> (kNeedMore, prefix)
          | Some len_buf \<Rightarrow>
              let payload_length = ucast (ld16 (len_buf ! 0) (len_buf ! 1)) :: u64 in
              if payload_length < 126 then (kFallback, prefix) else scan_extent iovecs prefix (2 + 2) payload_length)
     else if payload_length = 127 then
       if total_length < 2 + 8 then (kNeedMore, prefix)
       else
         (case wsReadIovecBytes iovecs 2 8 of
            None \<Rightarrow> (kNeedMore, prefix)
          | Some len_buf \<Rightarrow>
              if len_buf ! 0 AND 0x80 \<noteq> 0 then (kFallback, prefix)
              else if ext_len64 len_buf \<le> 0xFFFF then (kFallback, prefix)
              else scan_extent iovecs prefix (2 + 8) (ext_len64 len_buf))
     else scan_extent iovecs prefix 2 payload_length)"

definition scanWsMessageFastPathPrefix :: "bytes list \<Rightarrow> bool \<Rightarrow> WsMessageFastPathStatus \<times> WsFastPathFramePrefix" where
  "scanWsMessageFastPathPrefix iovecs is_server =
    (if wsIovecTotalLength iovecs < 2 then (kNeedMore, new_prefix)
     else
       (case (wsReadIovecBytes iovecs 0 1, wsReadIovecBytes iovecs 1 1) of
          (Some one, Some two) \<Rightarrow>
            let byte1 = one ! 0; byte2 = two ! 0; v = byte1 AND 0x0F in
            if byte1 AND 0x70 \<noteq> 0 then (kFallback, new_prefix)
            else if v > 0x0A \<or> (v > 0x02 \<and> v < 0x08) then (kFallback, new_prefix)
            else
              let prefix = new_prefix\<lparr>fp_fin := byte1 AND 0x80 \<noteq> 0, fp_opcode := opcode_cast v\<rparr> in
              if isControlFrame (fp_opcode prefix) then (kFallback, prefix)
              else
                let prefix = prefix\<lparr>fp_mask := byte2 AND 0x80 \<noteq> 0\<rparr> in
                if (is_server \<and> \<not> fp_mask prefix) \<or> (\<not> is_server \<and> fp_mask prefix) then (kFallback, prefix)
                else scan_length iovecs prefix byte2
        | _ \<Rightarrow> (kNeedMore, new_prefix)))"

section \<open>The fast path\<close>

definition tryFastPath :: "bytes list \<Rightarrow> WsMessageReadState \<Rightarrow> WsMessageFastPathStatus \<times> WsMessageReadState" where
  "tryFastPath iovecs st =
    (let (status, prefix) = scanWsMessageFastPathPrefix iovecs (mr_is_server st) in
     if status \<noteq> kContinue then (status, st)
     else if mr_first_frame st \<and> fp_opcode prefix = Continuation then
       (kReturn, setParseError kWsProtocolError (consume_ring (fp_frame_length prefix) st))
     else if \<not> mr_first_frame st \<and> fp_opcode prefix \<noteq> Continuation then
       (kReturn, setParseError kWsProtocolError (consume_ring (fp_frame_length prefix) st))
     else
       let payload_size = unat (fp_payload_length prefix); limit = max_message_size (mr_setting st) in
       if payload_size > max_frame_size (mr_setting st) \<or> payload_size > limit \<or> length (mr_message st) > limit - payload_size then
         (kReturn, setParseError kWsMessageTooLarge st)
       else
         let old_size = length (mr_message st);
             replace_message = mr_first_frame st;
             replace_fragment_prefix = (replace_message \<and> \<not> fp_fin prefix);
             write_offset = (if replace_fragment_prefix then 0 else old_size) in
         (case wsReadIovecBytes iovecs (fp_payload_offset prefix) payload_size of
            None \<Rightarrow> (kFallback, st)
          | Some raw \<Rightarrow>
              let data = (if fp_mask prefix then applyMaskBytesImpl (fp_masking_key prefix) raw else raw);
                  message = take write_offset (mr_message st) @ data;
                  payload_utf8_validated = (fp_opcode prefix = Text \<and> fp_fin prefix) in
              if payload_utf8_validated \<and> \<not> isValidUtf8Bytes (drop write_offset message) then
                (kReturn, setParseError kWsInvalidUtf8 (st\<lparr>mr_message := take old_size message\<rparr>))
              else
                let message = (if replace_message then
                      take payload_size (if \<not> replace_fragment_prefix \<and> old_size \<noteq> 0 \<and> payload_size \<noteq> 0
                                         then drop old_size message else message)
                    else message);
                    st = st\<lparr>mr_message := message\<rparr>;
                    st = (if replace_message then st\<lparr>mr_opcode := fp_opcode prefix, mr_first_frame := False\<rparr> else st);
                    st = (consume_ring (fp_frame_length prefix) st)\<lparr>mr_fast_path_frames := mr_fast_path_frames st + 1\<rparr> in
                if length message > limit then (kReturn, setParseError kWsMessageTooLarge st)
                else if fp_fin prefix \<and> mr_opcode st = Text \<and> \<not> payload_utf8_validated \<and> \<not> isValidUtf8Bytes message then
                  (kReturn, setParseError kWsInvalidUtf8 st)
                else if fp_fin prefix then (kReturn, st)
                else (kContinue, st)))"

section \<open>The message state machine\<close>

text \<open>What an incomplete frame leads to: the size check, then a wait for more octets.\<close>

definition need_more :: "WsMessageReadState \<Rightarrow> bool \<times> WsMessageReadState" where
  "need_more st =
    (let buffered = rb_readable (mr_ring_buffer st) in
     if length (mr_message st) + mr_total_received st + buffered > max_message_size (mr_setting st)
     then (True, setParseError kWsMessageTooLarge st)
     else (False, st))"

text \<open>A parsed frame. \<open>Inl\<close> is a return from \<open>parseFromBuffer\<close>, \<open>Inr\<close> the next turn of its loop.\<close>

definition on_frame :: "WsFrame \<Rightarrow> WsMessageReadState \<Rightarrow> (bool \<times> WsMessageReadState) + WsMessageReadState" where
  "on_frame frame st =
    (let h = ws_header frame in
     if unat (wh_payload_length h) > max_frame_size (mr_setting st) then Inl (True, setParseError kWsMessageTooLarge st)
     else if isControlFrame (wh_opcode h) then
       if \<not> wh_fin h then Inl (True, setParseError kWsControlFrameFragmented st)
       else
         let st = (if mr_control_frame_callback st
                   then st\<lparr>mr_control_calls := mr_control_calls st @ [(wh_opcode h, ws_payload frame)]\<rparr> else st)
         in Inl (True, st\<lparr>mr_message := ws_payload frame, mr_opcode := wh_opcode h\<rparr>)
     else if mr_first_frame st \<and> wh_opcode h = Continuation then Inl (True, setParseError kWsProtocolError st)
     else if \<not> mr_first_frame st \<and> wh_opcode h \<noteq> Continuation then Inl (True, setParseError kWsProtocolError st)
     else
       let st = (if mr_first_frame st
                 then st\<lparr>mr_opcode := wh_opcode h, mr_first_frame := False, mr_message := ws_payload frame\<rparr>
                 else st\<lparr>mr_message := mr_message st @ ws_payload frame\<rparr>) in
       if length (mr_message st) > max_message_size (mr_setting st) then Inl (True, setParseError kWsMessageTooLarge st)
       else
         let frame_payload_utf8_validated = (wh_opcode h = Text \<and> wh_fin h) in
         if wh_fin h then
           if mr_opcode st = Text \<and> \<not> frame_payload_utf8_validated \<and> \<not> isValidUtf8Bytes (mr_message st)
           then Inl (True, setParseError kWsInvalidUtf8 st)
           else Inl (True, st)
         else if rb_readable (mr_ring_buffer st) = 0 then Inl (False, st)
         else Inr st)"

definition slow_turn :: "WsMessageReadState \<Rightarrow> (bool \<times> WsMessageReadState) + WsMessageReadState" where
  "slow_turn st =
    (case fromIOVec (rb_getReadIovecs (mr_ring_buffer st)) new_frame (mr_is_server st) of
       (Inl e, frame) \<Rightarrow> if e = kWsIncomplete then Inl (need_more st) else Inl (True, setParseError e st)
     | (Inr n, frame) \<Rightarrow> on_frame frame (consume_ring n st))"

definition parse_turn :: "WsMessageReadState \<Rightarrow> (bool \<times> WsMessageReadState) + WsMessageReadState" where
  "parse_turn st =
    (let read_iovecs = rb_getReadIovecs (mr_ring_buffer st) in
     if read_iovecs = [] then Inl (False, st)
     else if mr_enable_fast_path st then
       (case tryFastPath read_iovecs st of
          (kReturn, st) \<Rightarrow> Inl (True, st)
        | (kContinue, st) \<Rightarrow> if rb_readable (mr_ring_buffer st) = 0 then Inl (False, st) else Inr st
        | (kNeedMore, st) \<Rightarrow> Inl (need_more st)
        | (kFallback, st) \<Rightarrow> slow_turn st)
     else slow_turn st)"

text \<open>The loop, with the number of turns bounded by \<open>fuel\<close>; \<open>None\<close> when the bound is reached.\<close>

fun parse_loop :: "nat \<Rightarrow> WsMessageReadState \<Rightarrow> (bool \<times> WsMessageReadState) option" where
  "parse_loop 0 st = None"
| "parse_loop (Suc fuel) st = (case parse_turn st of Inl res \<Rightarrow> Some res | Inr st \<Rightarrow> parse_loop fuel st)"

definition parseFromBuffer :: "WsMessageReadState \<Rightarrow> (bool \<times> WsMessageReadState) option" where
  "parseFromBuffer st = parse_loop (rb_readable (mr_ring_buffer st) + 1) st"

definition onBytesReceived :: "bytes \<Rightarrow> WsMessageReadState \<Rightarrow> WsMessageReadState" where
  "onBytesReceived data st = st\<lparr>mr_total_received := mr_total_received st + length data, mr_ring_buffer := rb_receive data (mr_ring_buffer st)\<rparr>"

section \<open>The frame state machine\<close>

record WsFrameReadState =
  fr_ring_buffer :: RingBuffer
  fr_setting :: WsReaderSetting
  fr_frame :: WsFrame
  fr_is_server :: bool
  fr_total_received :: nat
  fr_ws_error :: "WsErrorCode option"

definition frame_parseFromBuffer :: "WsFrameReadState \<Rightarrow> bool \<times> WsFrameReadState" where
  "frame_parseFromBuffer st =
    (let read_iovecs = rb_getReadIovecs (fr_ring_buffer st) in
     if read_iovecs = [] then (False, st)
     else
       let (result, frame) = fromIOVec read_iovecs (fr_frame st) (fr_is_server st);
           st = st\<lparr>fr_frame := frame\<rparr> in
       (case result of
          Inl e \<Rightarrow>
            if e = kWsIncomplete then
              if fr_total_received st + rb_readable (fr_ring_buffer st) > max_frame_size (fr_setting st)
              then (True, st\<lparr>fr_ws_error := Some kWsMessageTooLarge\<rparr>) else (False, st)
            else (True, st\<lparr>fr_ws_error := Some e\<rparr>)
        | Inr n \<Rightarrow>
            let st = st\<lparr>fr_ring_buffer := rb_consume n (fr_ring_buffer st)\<rparr> in
            if unat (wh_payload_length (ws_header frame)) > max_frame_size (fr_setting st)
            then (True, st\<lparr>fr_ws_error := Some kWsMessageTooLarge\<rparr>) else (True, st)))"

section \<open>The read machine\<close>

text \<open>
  \<open>WsRingBufferTcpReadMachine\<close> over the message state: \<open>advance\<close> parses and either completes or asks for a receive into the free
  segments; \<open>onRead\<close> takes the outcome of the receive, an I/O error (with the test for a disconnect), a closed peer, or octets.
\<close>

datatype ReadOutcome = ReadError bool | ReadBytes bytes

datatype MachineAction = Complete "WsErrorCode + bool" | WaitReadv

record ReadMachine =
  rm_state :: WsMessageReadState
  rm_result :: "(WsErrorCode + bool) option"

definition advance :: "ReadMachine \<Rightarrow> (MachineAction \<times> ReadMachine) option" where
  "advance m =
    (case rm_result m of
       Some r \<Rightarrow> Some (Complete r, m)
     | None \<Rightarrow>
         (case parseFromBuffer (rm_state m) of
            None \<Rightarrow> None
          | Some (True, st) \<Rightarrow> Some (Complete (takeResult st), \<lparr>rm_state = st, rm_result = Some (takeResult st)\<rparr>)
          | Some (False, st) \<Rightarrow>
              if rb_getWriteIovecs (mr_ring_buffer st) = [] then
                let st = setParseError kWsConnectionError st
                in Some (Complete (takeResult st), \<lparr>rm_state = st, rm_result = Some (takeResult st)\<rparr>)
              else Some (WaitReadv, m\<lparr>rm_state := st\<rparr>)))"

definition setRecvError :: "bool \<Rightarrow> WsMessageReadState \<Rightarrow> WsMessageReadState" where
  "setRecvError disconnect st = st\<lparr>mr_ws_error := Some (if disconnect then kWsConnectionClosed else kWsConnectionError)\<rparr>"

definition onPeerClosed :: "WsMessageReadState \<Rightarrow> WsMessageReadState" where
  "onPeerClosed st = st\<lparr>mr_ws_error := Some kWsConnectionClosed\<rparr>"

fun onRead :: "ReadOutcome \<Rightarrow> ReadMachine \<Rightarrow> ReadMachine" where
  "onRead (ReadError disconnect) m =
    (let st = setRecvError disconnect (rm_state m) in \<lparr>rm_state = st, rm_result = Some (takeResult st)\<rparr>)"
| "onRead (ReadBytes data) m =
    (if data = [] then
       let st = onPeerClosed (rm_state m) in \<lparr>rm_state = st, rm_result = Some (takeResult st)\<rparr>
     else m\<lparr>rm_state := onBytesReceived data (rm_state m)\<rparr>)"

text \<open>A whole read: the outcomes of the receives in order, as long as the machine asks for them.\<close>

fun run_machine :: "ReadOutcome list \<Rightarrow> ReadMachine \<Rightarrow> ((WsErrorCode + bool) option \<times> ReadOutcome list \<times> ReadMachine) option" where
  "run_machine outcomes m =
    (case advance m of
       None \<Rightarrow> None
     | Some (Complete r, m) \<Rightarrow> Some (Some r, outcomes, m)
     | Some (WaitReadv, m) \<Rightarrow>
         (case outcomes of [] \<Rightarrow> Some (None, [], m) | x # xs \<Rightarrow> run_machine xs (onRead x m)))"

declare run_machine.simps [simp del]

end
