(* ===== verification/Ws_Reader_Fast.thy ===== *)
theory Ws_Reader_Fast
  imports Ws_Reader
begin

text \<open>
  The fast path of the WebSocket reader agrees with the general parser: the prefix scan accepts, postpones or declines a frame in step
  with \<open>fromIOVec\<close>, and a turn of the loop that takes the fast path has the same outcome as one that does not.
\<close>

section \<open>Reading from segments\<close>

lemma wsIovecTotalLength_eq [simp]: "wsIovecTotalLength iovs = length (concat iovs)"
proof -
  have "foldl (\<lambda>total iov. total + length iov) n iovs = n + length (concat iovs)" for n
    by (induction iovs arbitrary: n) auto
  then show ?thesis by (simp add: wsIovecTotalLength_def)
qed

lemma read_iovec_loop_eq:
  "0 < n \<Longrightarrow> read_iovec_loop iovs off n = (if off + n \<le> length (concat iovs) then Some (take n (drop off (concat iovs))) else None)"
proof (induction iovs off n rule: read_iovec_loop.induct)
  case (2 iov iovs cursor remaining)
  show ?case
  proof (cases "cursor \<ge> length iov")
    case True
    then show ?thesis using 2(1,3) by auto
  next
    case False
    show ?thesis
    proof (cases "remaining \<le> length iov - cursor")
      case True
      then show ?thesis using False 2(3) by (simp add: Let_def min_def)
    next
      case far: False
      then have "read_iovec_loop iovs 0 (remaining - (length iov - cursor))
          = (if remaining - (length iov - cursor) \<le> length (concat iovs) then Some (take (remaining - (length iov - cursor)) (concat iovs)) else None)"
        using 2(2) False by (simp add: min_def)
      then show ?thesis
        using False far by (auto simp: Let_def min_def)
    qed
  qed
qed simp

lemma wsReadIovecBytes_eq:
  "wsReadIovecBytes iovs off n = (if n = 0 then Some [] else if off + n \<le> length (concat iovs) then Some (take n (drop off (concat iovs))) else None)"
  by (simp add: wsReadIovecBytes_def read_iovec_loop_eq)

section \<open>The scan and the parser\<close>

text \<open>What the outcome of the scan says of the outcome of the parser on the same octets.\<close>

definition scan_agrees :: "bytes \<Rightarrow> WsMessageFastPathStatus \<times> WsFastPathFramePrefix \<Rightarrow> (WsErrorCode + nat) \<times> WsFrame \<Rightarrow> bool" where
  "scan_agrees d scan res =
    (case scan of
       (kFallback, p) \<Rightarrow> True
     | (kReturn, p) \<Rightarrow> False
     | (kNeedMore, p) \<Rightarrow> fst res = Inl kWsIncomplete
     | (kContinue, p) \<Rightarrow>
         let f = snd res; h = ws_header f; raw = take (unat (fp_payload_length p)) (drop (fp_payload_offset p) d) in
         fp_frame_length p = fp_payload_offset p + unat (fp_payload_length p) \<and> fp_frame_length p \<le> length d \<and> 2 \<le> fp_payload_offset p
         \<and> wh_opcode h = fp_opcode p \<and> wh_fin h = fp_fin p \<and> wh_payload_length h = fp_payload_length p \<and> \<not> isControlFrame (fp_opcode p)
         \<and> length (fp_masking_key p) = 4 \<and> ws_payload f = (if fp_mask p then apply_key raw (fp_masking_key p) else raw)
         \<and> fst res = (case check_payload f of None \<Rightarrow> Inr (fp_frame_length p) | Some e \<Rightarrow> Inl e))"

lemma scan_agrees_simps [simp]:
  "scan_agrees d (kFallback, p) res" "\<not> scan_agrees d (kReturn, p) res" "scan_agrees d (kNeedMore, p) res \<longleftrightarrow> fst res = Inl kWsIncomplete"
  by (simp_all add: scan_agrees_def)

lemma scan_extent_agrees:
  assumes "wh_payload_length (ws_header f) = l" "wh_mask (ws_header f) = fp_mask p" "wh_opcode (ws_header f) = fp_opcode p"
    "wh_fin (ws_header f) = fp_fin p" "\<not> isControlFrame (fp_opcode p)" "length (fp_masking_key p) = 4"
    "l < 2 ^ 63" "2 \<le> hl" "hl \<le> 10" "hl \<le> length (concat iovs)"
  shows "scan_agrees (concat iovs) (scan_extent iovs p hl l) (flat_key hl (drop hl (concat iovs)) f)"
proof -
  let ?d = "concat iovs"
  have l: "unat l < 2 ^ 63"
    using assms(7) by (simp add: word_less_nat_alt)
  have sum: "unat (of_nat k + l) = k + unat l" if "k \<le> 14" for k
  proof -
    have "of_nat k + l = of_nat (k + unat l)" by simp
    moreover have "k + unat l < 2 ^ 64" using that l by simp
    ultimately show ?thesis by (simp add: unat_of_nat del: of_nat_add)
  qed
  define fin where "fin q k = (if length ?d < k + unat l then (kNeedMore, q)
      else (kContinue, q\<lparr>fp_payload_length := l, fp_payload_offset := k, fp_frame_length := k + unat l\<rparr>))" for q :: WsFastPathFramePrefix and k
  have key: "wsReadIovecBytes iovs hl 4 = Some (take 4 (drop hl ?d))" if "\<not> length ?d < hl + 4"
    using that by (simp add: wsReadIovecBytes_eq)
  have k: "hl \<le> 14" "hl + 4 \<le> 14" using assms(9) by simp_all
  have se: "scan_extent iovs p hl l = (if fp_mask p then if length ?d < hl + 4 then (kNeedMore, p)
      else fin (p\<lparr>fp_masking_key := take 4 (drop hl ?d)\<rparr>) (hl + 4) else fin p hl)"
    using key by (simp only: scan_extent_def Let_def wsIovecTotalLength_eq sum [OF k(1)] sum [OF k(2)] fin_def option.case not_less split: if_split) simp
  have ext: "scan_agrees ?d (fin q m) (flat_payload m (drop m ?d) g)"
    if "wh_payload_length (ws_header g) = l" "wh_mask (ws_header g) = fp_mask q" "wh_opcode (ws_header g) = fp_opcode q"
      "wh_fin (ws_header g) = fp_fin q" "\<not> isControlFrame (fp_opcode q)" "length (fp_masking_key q) = 4" "2 \<le> m" "m \<le> length ?d"
      "fp_mask q \<longrightarrow> wh_masking_key (ws_header g) = fp_masking_key q" for q g m
  proof (cases "length ?d < m + unat l")
    case True
    then have "length (drop m ?d) < unat l" using that(8) by simp
    then show ?thesis
      using True that(1) by (simp add: fin_def flat_payload_def scan_agrees_def Let_def)
  next
    case False
    then have "\<not> length (drop m ?d) < unat l" using that(8) by simp
    then show ?thesis
      using False that by (cases "fp_mask q") (simp_all add: fin_def flat_payload_def scan_agrees_def Let_def split: option.split)
  qed
  show ?thesis
  proof (cases "fp_mask p")
    case False
    have "flat_key hl (drop hl ?d) f = flat_payload hl (drop hl ?d) f"
      using assms(2,3,5) False by (simp add: flat_key_def Let_def)
    then show ?thesis
      using False ext [of f p hl] assms unfolding se by simp
  next
    case True
    show ?thesis
    proof (cases "length ?d < hl + 4")
      case short: True
      then have "length (drop hl ?d) < 4" using assms(10) by simp
      then show ?thesis
        unfolding se using short True assms(2,3,5) by (simp add: flat_key_def scan_agrees_def Let_def)
    next
      case False
      then have long: "\<not> length (drop hl ?d) < 4" using assms(10) by simp
      let ?k = "take 4 (drop hl ?d)"
      have "flat_key hl (drop hl ?d) f = flat_payload (hl + 4) (drop (hl + 4) ?d) (set_key ?k f)"
        using assms(2,3,5) True long by (simp add: flat_key_def Let_def add.commute)
      moreover have "scan_agrees ?d (fin (p\<lparr>fp_masking_key := ?k\<rparr>) (hl + 4)) (flat_payload (hl + 4) (drop (hl + 4) ?d) (set_key ?k f))"
        using assms False long by (intro ext) (simp_all add: set_key_def)
      ultimately show ?thesis
        using True False unfolding se by simp
    qed
  qed
qed

lemma ucast_len7:
  "(ucast (b AND 0x7F) :: u64) = 126 \<longleftrightarrow> b AND 0x7F = 126" "(ucast (b AND 0x7F) :: u64) = 127 \<longleftrightarrow> \<not> b AND 0x7F < 126 \<and> b AND 0x7F \<noteq> 126"
  "(ucast (b AND 0x7F) :: u64) < 2 ^ 63" for b :: u8
proof -
  have m: "b AND 0x7F < 128"
    using and_mask_less_size [of 7 b] by (simp add: mask_eq_exp_minus_1 word_size)
  have u: "unat (ucast (b AND 0x7F) :: u64) = unat (b AND 0x7F)"
    unfolding unsigned_ucast_eq by (intro take_bit_nat_eq_self less_trans [OF unat_u8_less]) simp
  have lt: "unat (b AND 0x7F) < 128"
    using m by (simp add: word_less_nat_alt)
  show "(ucast (b AND 0x7F) :: u64) = 126 \<longleftrightarrow> b AND 0x7F = 126"
    unfolding word_unat_eq_iff [where 'a = 64] word_unat_eq_iff [where 'a = 8] u by simp
  show "(ucast (b AND 0x7F) :: u64) < 2 ^ 63"
    using lt by (simp add: word_less_nat_alt u)
  have "\<not> unat (b AND 0x7F) < 126 \<and> unat (b AND 0x7F) \<noteq> 126 \<longleftrightarrow> unat (b AND 0x7F) = 127"
    using lt by linarith
  then show "(ucast (b AND 0x7F) :: u64) = 127 \<longleftrightarrow> \<not> b AND 0x7F < 126 \<and> b AND 0x7F \<noteq> 126"
    unfolding word_unat_eq_iff [where 'a = 64] word_unat_eq_iff [where 'a = 8] word_less_nat_alt u by simp
qed

lemma scan_length_agrees:
  assumes d: "concat iovs = b1 # b2 # r" and m: "fp_mask p = m" "(b2 AND 0x80 \<noteq> 0) = m"
    and p: "wh_opcode (ws_header f) = fp_opcode p" "wh_fin (ws_header f) = fp_fin p" "\<not> isControlFrame (fp_opcode p)" "length (fp_masking_key p) = 4"
  shows "scan_agrees (concat iovs) (scan_length iovs p b2) (flat_length b2 r f m)"
proof -
  let ?l = "b2 AND 0x7F" and ?g = "set_mask m f"
  have ext: "scan_agrees (concat iovs) (scan_extent iovs p (2 + k) l) (flat_key (2 + k) (drop k r) (set_length l ?g))"
    if "l < 2 ^ 63" "k \<le> 8" "k \<le> length r" for l k
  proof -
    have "drop (2 + k) (concat iovs) = drop k r" "2 + k \<le> length (concat iovs)" using d that by simp_all
    then show ?thesis
      using scan_extent_agrees [of "set_length l ?g" l p "2 + k" iovs] that m p by (simp add: set_length_def set_mask_def)
  qed
  have rd: "wsReadIovecBytes iovs 2 n = Some (take n r)" if "0 < n" "n \<le> length r" for n
    using that d by (simp add: wsReadIovecBytes_eq)
  consider "?l < 126" | "\<not> ?l < 126" "?l = 126" | "\<not> ?l < 126" "?l \<noteq> 126" by blast
  then show ?thesis
  proof cases
    case 1
    then have "scan_length iovs p b2 = scan_extent iovs p 2 (ucast ?l)"
      using ucast_len7 [of b2] by (auto simp: scan_length_def Let_def)
    moreover have "flat_length b2 r f m = flat_key 2 r (set_length (ucast ?l) ?g)"
      using 1 m by (auto simp: flat_length_def Let_def)
    ultimately show ?thesis
      using ext [of "ucast ?l" 0] ucast_len7(3) [of b2] by simp
  next
    case 2
    have f: "flat_length b2 r f m = (if length r < 2 then (Inl kWsIncomplete, ?g)
        else if ld16 (r ! 0) (r ! 1) < 126 then (Inl kWsInvalidPayloadLength, ?g)
        else flat_key 4 (drop 2 r) (set_length (ucast (ld16 (r ! 0) (r ! 1))) ?g))"
      using 2 m by (auto simp: flat_length_def Let_def)
    have s: "scan_length iovs p b2 = (if length r < 2 then (kNeedMore, p)
        else if ld16 (r ! 0) (r ! 1) < 126 then (kFallback, p) else scan_extent iovs p 4 (ucast (ld16 (r ! 0) (r ! 1))))"
      using 2 ucast_len7(1) [of b2] rd [of 2] d by (auto simp: scan_length_def Let_def ucast_u16_order)
    have "(ucast (ld16 (r ! 0) (r ! 1)) :: u64) < 2 ^ 63"
      using ucast_u16_order(1) [of "ld16 (r ! 0) (r ! 1)"] by (simp add: word_less_nat_alt word_le_nat_alt)
    then show ?thesis
      unfolding f s using ext [of "ucast (ld16 (r ! 0) (r ! 1))" 2] by auto
  next
    case 3
    have f: "flat_length b2 r f m = (if length r < 8 then (Inl kWsIncomplete, ?g)
        else if r ! 0 AND 0x80 \<noteq> 0 then (Inl kWsInvalidPayloadLength, ?g)
        else if ext_len64 (take 8 r) \<le> 0xFFFF then (Inl kWsInvalidPayloadLength, ?g)
        else flat_key 10 (drop 8 r) (set_length (ext_len64 (take 8 r)) ?g))"
      using 3 m by (auto simp: flat_length_def Let_def)
    have s: "scan_length iovs p b2 = (if length r < 8 then (kNeedMore, p)
        else if r ! 0 AND 0x80 \<noteq> 0 then (kFallback, p)
        else if ext_len64 (take 8 r) \<le> 0xFFFF then (kFallback, p) else scan_extent iovs p 10 (ext_len64 (take 8 r)))"
      using 3 ucast_len7(1,2) [of b2] rd [of 8] d by (auto simp: scan_length_def Let_def)
    have "ext_len64 (take 8 r) < 2 ^ 63" if "8 \<le> length r" "r ! 0 AND 0x80 = 0"
      using ext_len64_less [of "take 8 r"] that by simp
    then show ?thesis
      unfolding f s using ext [of "ext_len64 (take 8 r)" 8] by auto
  qed
qed

lemma and_0x70:
  fixes b :: u8
  assumes "b AND 0x70 = 0"
  shows "b AND 0x40 = 0" "b AND 0x20 = 0" "b AND 0x10 = 0"
proof -
  have "b AND 0x40 = (b AND 0x70) AND 0x40" "b AND 0x20 = (b AND 0x70) AND 0x20" "b AND 0x10 = (b AND 0x70) AND 0x10"
    by (simp_all only: and.assoc) simp_all
  then show "b AND 0x40 = 0" "b AND 0x20 = 0" "b AND 0x10 = 0"
    unfolding assms by simp_all
qed

lemma scan_agrees_parse:
  "scan_agrees (concat iovs) (scanWsMessageFastPathPrefix iovs m) (flat_parse (concat iovs) new_frame m)"
proof (cases "length (concat iovs) < 2")
  case True
  then have "concat iovs = [] \<or> (\<exists>x. concat iovs = [x])"
    by (cases "concat iovs"; cases "tl (concat iovs)") auto
  then have "fst (flat_parse (concat iovs) new_frame m) = Inl kWsIncomplete"
    by (elim disjE exE) (simp_all del: concat_eq_Nil_conv)
  then show ?thesis
    using True by (simp add: scanWsMessageFastPathPrefix_def scan_agrees_def)
next
  case False
  then obtain b1 b2 r where d: "concat iovs = b1 # b2 # r"
    by (cases "concat iovs"; cases "tl (concat iovs)") auto
  have rd: "wsReadIovecBytes iovs 0 1 = Some [b1]" "wsReadIovecBytes iovs 1 1 = Some [b2]"
    using d by (simp_all add: wsReadIovecBytes_eq)
  let ?opc = "opcode_cast (b1 AND 0x0F)"
  let ?p = "new_prefix\<lparr>fp_fin := b1 AND 0x80 \<noteq> 0, fp_opcode := ?opc, fp_mask := b2 AND 0x80 \<noteq> 0\<rparr>"
  show ?thesis
  proof (cases "b1 AND 0x70 \<noteq> 0 \<or> (b1 AND 0x0F > 0x0A \<or> (b1 AND 0x0F > 0x02 \<and> b1 AND 0x0F < 0x08)) \<or> isControlFrame ?opc
      \<or> (b2 AND 0x80 \<noteq> 0) \<noteq> m")
    case True
    then have "fst (scanWsMessageFastPathPrefix iovs m) = kFallback"
      using False rd by (auto simp: scanWsMessageFastPathPrefix_def Let_def)
    then show ?thesis
      by (cases "scanWsMessageFastPathPrefix iovs m") (simp add: scan_agrees_def)
  next
    case ok: False
    then have "good_byte1 b1"
      using and_0x70 [of b1] by (auto simp: good_byte1_def)
    then have "flat_parse (concat iovs) new_frame m = flat_length b2 r (set_opcode ?opc (set_byte1 b1 new_frame)) m"
      unfolding d by (rule flat_parse_good)
    moreover have "scanWsMessageFastPathPrefix iovs m = scan_length iovs ?p b2"
      using False rd ok by (auto simp: scanWsMessageFastPathPrefix_def Let_def)
    ultimately show ?thesis
      using scan_length_agrees [OF d, of ?p m "set_opcode ?opc (set_byte1 b1 new_frame)"] ok
      by (simp add: set_opcode_def set_byte1_def new_prefix_def)
  qed
qed

section \<open>A turn with and without the fast path\<close>

definition strip :: "WsMessageReadState \<Rightarrow> WsMessageReadState" where
  "strip st = st\<lparr>mr_fast_path_frames := 0, mr_enable_fast_path := False\<rparr>"

lemma strip_sel [simp]:
  "mr_ring_buffer (strip st) = mr_ring_buffer st" "mr_setting (strip st) = mr_setting st" "mr_message (strip st) = mr_message st"
  "mr_opcode (strip st) = mr_opcode st" "mr_is_server (strip st) = mr_is_server st" "mr_total_received (strip st) = mr_total_received st"
  "mr_first_frame (strip st) = mr_first_frame st" "mr_control_frame_callback (strip st) = mr_control_frame_callback st"
  "mr_control_calls (strip st) = mr_control_calls st" "\<not> mr_enable_fast_path (strip st)" "mr_ws_error (strip st) = mr_ws_error st"
  by (simp_all add: strip_def)

lemma strip_upd:
  "strip (setParseError e st) = setParseError e (strip st)" "strip (consume_ring n st) = consume_ring n (strip st)"
  "strip (st\<lparr>mr_message := msg\<rparr>) = (strip st)\<lparr>mr_message := msg\<rparr>" "strip (st\<lparr>mr_opcode := opc\<rparr>) = (strip st)\<lparr>mr_opcode := opc\<rparr>"
  "strip (st\<lparr>mr_first_frame := b\<rparr>) = (strip st)\<lparr>mr_first_frame := b\<rparr>" "strip (st\<lparr>mr_control_calls := cs\<rparr>) = (strip st)\<lparr>mr_control_calls := cs\<rparr>"
  "strip (st\<lparr>mr_fast_path_frames := k\<rparr>) = strip st" "strip (strip st) = strip st"
  by (simp_all add: strip_def setParseError_def consume_ring_def)

lemma need_more_strip: "need_more (strip st) = apsnd strip (need_more st)"
  by (simp add: need_more_def Let_def strip_upd)

lemma on_frame_strip: "on_frame frame (strip st) = map_sum (apsnd strip) strip (on_frame frame st)"
  unfolding on_frame_def Let_def by (auto simp: strip_upd)

lemma slow_turn_strip: "slow_turn (strip st) = map_sum (apsnd strip) strip (slow_turn st)"
  using on_frame_strip [of _ "consume_ring n st" for n]
  by (simp add: slow_turn_def need_more_strip strip_upd split: prod.split sum.split)

text \<open>Outcomes that a client cannot tell apart: the same state up to the statistics of the fast path, or an error in both.\<close>

fun outcomes_agree :: "(bool \<times> WsMessageReadState) + WsMessageReadState \<Rightarrow> (bool \<times> WsMessageReadState) + WsMessageReadState \<Rightarrow> bool" where
  "outcomes_agree (Inr a) (Inr b) = (strip a = strip b)"
| "outcomes_agree (Inl (x, a)) (Inl (y, b)) = (x = y \<and> (if mr_ws_error a = None then strip a = strip b else mr_ws_error b \<noteq> None))"
| "outcomes_agree _ _ = False"

lemma outcomes_agree_strip: "outcomes_agree x (map_sum (apsnd strip) strip x)"
  by (cases x) (auto simp: strip_upd)

lemma check_payload_data:
  "\<not> isControlFrame (wh_opcode (ws_header f)) \<Longrightarrow> check_payload f
     = (if wh_opcode (ws_header f) = Text \<and> wh_fin (ws_header f) \<and> \<not> isValidUtf8Bytes (ws_payload f) then Some kWsInvalidUtf8 else None)"
  by (cases "wh_opcode (ws_header f)") (simp_all add: check_payload_def Let_def)

text \<open>The state after a data frame was taken in.\<close>

definition take_in :: "nat \<Rightarrow> WsFrame \<Rightarrow> WsMessageReadState \<Rightarrow> WsMessageReadState" where
  "take_in n f st =
    (let st = consume_ring n st in
     if mr_first_frame st then st\<lparr>mr_opcode := wh_opcode (ws_header f), mr_first_frame := False, mr_message := ws_payload f\<rparr>
     else st\<lparr>mr_message := mr_message st @ ws_payload f\<rparr>)"

definition out_of_order :: "WsFrame \<Rightarrow> WsMessageReadState \<Rightarrow> bool" where
  "out_of_order f st = (mr_first_frame st = (wh_opcode (ws_header f) = Continuation))"

definition too_large :: "WsFrame \<Rightarrow> WsMessageReadState \<Rightarrow> bool" where
  "too_large f st = (length (ws_payload f) > max_frame_size (mr_setting st)
     \<or> length (mr_message st) + length (ws_payload f) > max_message_size (mr_setting st))"

definition bad_text :: "WsFrame \<Rightarrow> WsMessageReadState \<Rightarrow> bool" where
  "bad_text f st = (wh_fin (ws_header f) \<and> mr_opcode st = Text \<and> wh_opcode (ws_header f) \<noteq> Text \<and> \<not> isValidUtf8Bytes (mr_message st))"

lemma slow_turn_data:
  assumes "fromIOVec (rb_getReadIovecs (mr_ring_buffer st)) new_frame (mr_is_server st) = (Inr n, f)" "\<not> isControlFrame (wh_opcode (ws_header f))"
    "unat (wh_payload_length (ws_header f)) = length (ws_payload f)" "mr_first_frame st \<Longrightarrow> mr_message st = []"
  shows "slow_turn st =
    (if length (ws_payload f) > max_frame_size (mr_setting st) then Inl (True, setParseError kWsMessageTooLarge (consume_ring n st))
     else if out_of_order f st then Inl (True, setParseError kWsProtocolError (consume_ring n st))
     else if too_large f st then Inl (True, setParseError kWsMessageTooLarge (take_in n f st))
     else if bad_text f (take_in n f st) then Inl (True, setParseError kWsInvalidUtf8 (take_in n f st))
     else if wh_fin (ws_header f) then Inl (True, take_in n f st)
     else if rb_readable (mr_ring_buffer (take_in n f st)) = 0 then Inl (False, take_in n f st)
     else Inr (take_in n f st))"
proof -
  have first: "mr_first_frame (consume_ring n st) = mr_first_frame st" "mr_setting (consume_ring n st) = mr_setting st"
    "mr_message (consume_ring n st) = mr_message st"
    by (simp_all add: consume_ring_def)
  show ?thesis
    unfolding slow_turn_def assms(1) prod.case sum.case on_frame_def Let_def assms(3) first
    using assms(2,4) by (auto simp: take_in_def Let_def first out_of_order_def too_large_def bad_text_def)
qed

lemma tryFastPath_data:
  assumes scan: "scanWsMessageFastPathPrefix iovs (mr_is_server st) = (kContinue, p)"
    and agrees: "scan_agrees (concat iovs) (kContinue, p) (res, f)" and first: "mr_first_frame st \<Longrightarrow> mr_message st = []"
  shows "\<exists>k. tryFastPath iovs st =
    (if out_of_order f st then (kReturn, setParseError kWsProtocolError (consume_ring (fp_frame_length p) st))
     else if too_large f st then (kReturn, setParseError kWsMessageTooLarge st)
     else if check_payload f \<noteq> None then (kReturn, setParseError kWsInvalidUtf8 st)
     else
       let st' = (take_in (fp_frame_length p) f st)\<lparr>mr_fast_path_frames := k\<rparr> in
       if bad_text f st' then (kReturn, setParseError kWsInvalidUtf8 st')
       else if wh_fin (ws_header f) then (kReturn, st') else (kContinue, st'))"
proof -
  let ?n = "unat (fp_payload_length p)"
  let ?raw = "take ?n (drop (fp_payload_offset p) (concat iovs))"
  have a: "fp_frame_length p = fp_payload_offset p + ?n" "fp_frame_length p \<le> length (concat iovs)"
    "wh_opcode (ws_header f) = fp_opcode p" "wh_fin (ws_header f) = fp_fin p" "\<not> isControlFrame (fp_opcode p)"
    "length (fp_masking_key p) = 4" "ws_payload f = (if fp_mask p then apply_key ?raw (fp_masking_key p) else ?raw)"
    using agrees by (simp_all add: scan_agrees_def Let_def)
  have n: "length (ws_payload f) = ?n"
    using a(1,2,7) by simp
  have raw: "wsReadIovecBytes iovs (fp_payload_offset p) ?n = Some ?raw"
    using a(1,2) by (simp add: wsReadIovecBytes_eq)
  have data: "(if fp_mask p then applyMaskBytesImpl (fp_masking_key p) ?raw else ?raw) = ws_payload f"
    using a(6,7) by (simp add: applyMaskBytesImpl_eq)
  have check: "check_payload f \<noteq> None \<longleftrightarrow> fp_opcode p = Text \<and> fp_fin p \<and> \<not> isValidUtf8Bytes (ws_payload f)"
    using a(3,4,5) by (subst check_payload_data) auto
  have big: "?n > max_frame_size (mr_setting st) \<or> ?n > max_message_size (mr_setting st) \<or> length (mr_message st) > max_message_size (mr_setting st) - ?n
      \<longleftrightarrow> too_large f st"
    unfolding too_large_def n by linarith
  have order: "out_of_order f st \<longleftrightarrow> (mr_first_frame st \<and> fp_opcode p = Continuation) \<or> (\<not> mr_first_frame st \<and> fp_opcode p \<noteq> Continuation)"
    using a(3) by (auto simp: out_of_order_def)
  show ?thesis
  proof (cases "out_of_order f st \<or> too_large f st")
    case True
    then show ?thesis
      using scan order big by (auto simp: tryFastPath_def Let_def)
  next
    case False
    have sel: "mr_first_frame (consume_ring m st) = mr_first_frame st" "mr_message (consume_ring m st) = mr_message st" for m
      by (simp_all add: consume_ring_def)
    have room: "\<not> length (mr_message (take_in (fp_frame_length p) f st)) > max_message_size (mr_setting st)"
      using False first by (auto simp: take_in_def Let_def sel too_large_def)
    have st': "tryFastPath iovs st = (if check_payload f \<noteq> None then (kReturn, setParseError kWsInvalidUtf8 st)
       else
         let st' = (take_in (fp_frame_length p) f st)\<lparr>mr_fast_path_frames := mr_fast_path_frames st + 1\<rparr> in
         if bad_text f st' then (kReturn, setParseError kWsInvalidUtf8 st')
         else if wh_fin (ws_header f) then (kReturn, st') else (kContinue, st'))"
    proof (cases "mr_first_frame st")
      case True
      then have "mr_message st = []" "fp_opcode p \<noteq> Continuation"
        using first False order by auto
      moreover from this have "setParseError kWsInvalidUtf8 (st\<lparr>mr_message := []\<rparr>) = setParseError kWsInvalidUtf8 st"
        by (simp add: setParseError_def)
      ultimately show ?thesis
        unfolding tryFastPath_def scan prod.case Let_def raw option.case data check
        using True False order big n a(3,4) room
        by (simp add: take_in_def Let_def sel consume_ring_def bad_text_def setParseError_def)
    next
      case not_first: False
      then have "fp_opcode p = Continuation"
        using False order by auto
      then show ?thesis
        unfolding tryFastPath_def scan prod.case Let_def raw option.case data check
        using not_first False order big n a(3,4) room
        by (simp add: take_in_def Let_def sel consume_ring_def bad_text_def setParseError_def)
    qed
    then show ?thesis
      using False by (intro exI [of _ "mr_fast_path_frames st + 1"]) simp
  qed
qed

theorem fast_turn_agrees:
  assumes inv: "rb_inv (mr_ring_buffer st)" and first: "mr_first_frame st \<Longrightarrow> mr_message st = []" and err: "mr_ws_error st = None"
  shows "outcomes_agree (parse_turn st) (parse_turn (strip st))"
proof -
  let ?iovs = "rb_getReadIovecs (mr_ring_buffer st)"
  obtain res f where parse: "fromIOVec ?iovs new_frame (mr_is_server st) = (res, f)" by (cases "fromIOVec ?iovs new_frame (mr_is_server st)")
  then have flat: "flat_parse (concat ?iovs) new_frame (mr_is_server st) = (res, f)"
    by (simp add: fromIOVec_flat new_frame_def new_header_def)
  have slow: "parse_turn (strip st) = map_sum (apsnd strip) strip (slow_turn st)" if "?iovs \<noteq> []"
    using that by (simp add: parse_turn_def slow_turn_strip)
  obtain status p where scan: "scanWsMessageFastPathPrefix ?iovs (mr_is_server st) = (status, p)"
    by (cases "scanWsMessageFastPathPrefix ?iovs (mr_is_server st)")
  have agrees: "scan_agrees (concat ?iovs) (status, p) (res, f)"
    using scan_agrees_parse [of ?iovs "mr_is_server st"] scan flat by simp
  consider "?iovs = []" | "?iovs \<noteq> []" "\<not> mr_enable_fast_path st" | "?iovs \<noteq> []" "mr_enable_fast_path st" by blast
  then show ?thesis
  proof cases
    case 1
    then show ?thesis using err by (simp add: parse_turn_def strip_upd)
  next
    case 2
    then have "parse_turn st = slow_turn st" by (simp add: parse_turn_def)
    then show ?thesis
      using slow [OF 2(1)] outcomes_agree_strip by simp
  next
    case 3
    show ?thesis
    proof (cases status)
      case kFallback
      then have "parse_turn st = slow_turn st"
        using 3 scan by (simp add: parse_turn_def tryFastPath_def)
      then show ?thesis
        using slow [OF 3(1)] outcomes_agree_strip by simp
    next
      case kNeedMore
      then have "parse_turn st = slow_turn st"
        using 3 scan agrees parse by (simp add: parse_turn_def tryFastPath_def slow_turn_def)
      then show ?thesis
        using slow [OF 3(1)] outcomes_agree_strip by simp
    next
      case kReturn
      then show ?thesis using agrees by simp
    next
      case kContinue
      have a: "\<not> isControlFrame (wh_opcode (ws_header f))" "unat (wh_payload_length (ws_header f)) = length (ws_payload f)"
        "res = (case check_payload f of None \<Rightarrow> Inr (fp_frame_length p) | Some e \<Rightarrow> Inl e)"
        using agrees kContinue by (auto simp: scan_agrees_def Let_def)
      let ?n = "fp_frame_length p"
      obtain k where fast: "tryFastPath ?iovs st =
          (if out_of_order f st then (kReturn, setParseError kWsProtocolError (consume_ring ?n st))
           else if too_large f st then (kReturn, setParseError kWsMessageTooLarge st)
           else if check_payload f \<noteq> None then (kReturn, setParseError kWsInvalidUtf8 st)
           else
             let st' = (take_in ?n f st)\<lparr>mr_fast_path_frames := k\<rparr> in
             if bad_text f st' then (kReturn, setParseError kWsInvalidUtf8 st')
             else if wh_fin (ws_header f) then (kReturn, st') else (kContinue, st'))"
        using tryFastPath_data [OF scan [unfolded kContinue] agrees [unfolded kContinue] first] by blast
      have turn: "parse_turn st = (case tryFastPath ?iovs st of (kReturn, st) \<Rightarrow> Inl (True, st)
          | (kContinue, st) \<Rightarrow> if rb_readable (mr_ring_buffer st) = 0 then Inl (False, st) else Inr st
          | (kNeedMore, st) \<Rightarrow> Inl (need_more st) | (kFallback, st) \<Rightarrow> slow_turn st)"
        using 3 by (simp add: parse_turn_def)
      show ?thesis
      proof (cases "check_payload f")
        case (Some e)
        then have "e \<noteq> kWsIncomplete" using check_payload_data [OF a(1)] by (auto split: if_splits)
        then have "slow_turn st = Inl (True, setParseError e st)"
          using parse a(3) Some by (simp add: slow_turn_def)
        then show ?thesis
          using Some slow [OF 3(1)] unfolding turn fast by (auto simp: setParseError_def)
      next
        case None
        then have r: "fromIOVec ?iovs new_frame (mr_is_server st) = (Inr ?n, f)"
          using parse a(3) by simp
        note slow_turn_data [OF r a(1,2) first]
        moreover have "mr_ws_error (take_in ?n f st) = None"
          using err by (simp add: take_in_def consume_ring_def Let_def)
        moreover have "bad_text f (take_in ?n f st\<lparr>mr_fast_path_frames := k\<rparr>) = bad_text f (take_in ?n f st)"
          by (simp add: bad_text_def)
        ultimately show ?thesis
          using None slow [OF 3(1)] unfolding turn fast
          by (auto simp: setParseError_def strip_upd too_large_def Let_def)
      qed
    qed
  qed
qed

end
