(* ===== verification/Ws_Message.thy ===== *)
theory Ws_Message
  imports Ws_Reader_Fast
begin

text \<open>
  Messages through the WebSocket reader: the loop of \<open>parseFromBuffer\<close> ends, the fast path is transparent, a fragmented message is put
  together however its octets are cut into receives, and what happens to a message interrupted by a control frame.
\<close>

section \<open>Turns of the loop\<close>

lemma rb_readable_contents: "rb_readable r = length (rb_contents r)"
  by (cases r) (simp_all add: vb_readable_def mb_readable_def vb_contents_def)

lemma take_in_sel [simp]:
  "mr_ring_buffer (take_in n f st) = rb_consume n (mr_ring_buffer st)" "mr_setting (take_in n f st) = mr_setting st"
  "mr_is_server (take_in n f st) = mr_is_server st" "mr_total_received (take_in n f st) = mr_total_received st"
  "\<not> mr_first_frame (take_in n f st)" "mr_enable_fast_path (take_in n f st) = mr_enable_fast_path st"
  "mr_ws_error (take_in n f st) = mr_ws_error st" "mr_control_calls (take_in n f st) = mr_control_calls st"
  "mr_message (take_in n f st) = (if mr_first_frame st then [] else mr_message st) @ ws_payload f"
  "mr_opcode (take_in n f st) = (if mr_first_frame st then wh_opcode (ws_header f) else mr_opcode st)"
  by (auto simp: take_in_def Let_def consume_ring_def)

text \<open>A turn that goes on has taken in a data frame of at least two octets.\<close>

lemma new_frame_key [simp]: "wh_masking_key (ws_header new_frame) = [0, 0, 0, 0]"
  by (simp add: new_frame_def new_header_def)

lemma parse_fields:
  assumes "fromIOVec iovs new_frame m = (Inr n, f)"
  shows "ws_frame_ok m f" "unat (wh_payload_length (ws_header f)) = length (ws_payload f)" "2 \<le> n" "n \<le> length (concat iovs)"
    "length (ws_payload f) \<le> n"
proof -
  have e: "ws_frame_ok m f" "n = length (encodeInto (wh_masking_key (ws_header f)) f m)"
    "\<exists>rest. concat iovs = encodeInto (wh_masking_key (ws_header f)) f m @ rest"
    using flat_parse_decoded [of "concat iovs" new_frame m n f] flat_parse_encoded [of m f new_frame] assms
    by (auto simp: fromIOVec_flat)
  show "ws_frame_ok m f" "n \<le> length (concat iovs)" using e by auto
  have ok: "length (ws_payload f) < 2 ^ 63" "wh_payload_length (ws_header f) = of_nat (length (ws_payload f))"
    "length (wh_masking_key (ws_header f)) = 4"
    using e(1) by (simp_all add: ws_frame_ok_def Let_def)
  show "unat (wh_payload_length (ws_header f)) = length (ws_payload f)"
    using ok unat_of_nat_63 by simp
  have "n = 1 + length (header_length_bytes (of_nat (length (ws_payload f))) m) + (if m then 4 else 0) + length (ws_payload f)"
    unfolding e(2) encodeInto_eq [OF ok(3,1)] using ok(3) by simp
  then show "2 \<le> n" "length (ws_payload f) \<le> n"
    using header_length_bytes_length [of "of_nat (length (ws_payload f))" m] by (auto split: if_splits)
qed

lemma slow_turn_Inr:
  assumes "slow_turn st = Inr st'"
  obtains n f where "fromIOVec (rb_getReadIovecs (mr_ring_buffer st)) new_frame (mr_is_server st) = (Inr n, f)" "st' = take_in n f st"
proof -
  obtain res f where r: "fromIOVec (rb_getReadIovecs (mr_ring_buffer st)) new_frame (mr_is_server st) = (res, f)"
    by (cases "fromIOVec (rb_getReadIovecs (mr_ring_buffer st)) new_frame (mr_is_server st)")
  obtain n where n: "res = Inr n" "on_frame f (consume_ring n st) = Inr st'"
    using assms r by (auto simp: slow_turn_def split: sum.splits if_splits)
  then have "st' = take_in n f st"
    by (auto simp: on_frame_def take_in_def Let_def split: if_splits)
  then show ?thesis using that r n by simp
qed

lemma parse_turn_Inr:
  assumes "parse_turn st = Inr st'" "rb_inv (mr_ring_buffer st)" "mr_first_frame st \<Longrightarrow> mr_message st = []" "mr_ws_error st = None"
  shows "rb_inv (mr_ring_buffer st')" "\<not> mr_first_frame st'" "mr_ws_error st' = None"
    "rb_readable (mr_ring_buffer st') < rb_readable (mr_ring_buffer st)"
proof -
  obtain b where b: "parse_turn (strip st) = Inr b" "strip st' = strip b"
    using fast_turn_agrees [OF assms(2,3,4)] assms(1) by (cases "parse_turn (strip st)") auto
  then have "slow_turn (strip st) = Inr b"
    by (auto simp: parse_turn_def Let_def split: if_splits)
  then obtain n f where n: "fromIOVec (rb_getReadIovecs (mr_ring_buffer st)) new_frame (mr_is_server st) = (Inr n, f)" "b = take_in n f (strip st)"
    by (elim slow_turn_Inr) auto
  have "mr_ring_buffer st' = mr_ring_buffer b" "mr_first_frame st' = mr_first_frame b" "mr_ws_error st' = mr_ws_error b"
    using b(2) strip_sel by metis+
  then have s: "mr_ring_buffer st' = rb_consume n (mr_ring_buffer st)" "\<not> mr_first_frame st'" "mr_ws_error st' = None"
    using n(2) assms(4) by simp_all
  show "rb_inv (mr_ring_buffer st')" "\<not> mr_first_frame st'" "mr_ws_error st' = None"
    using s rb.consume [OF assms(2)] by simp_all
  show "rb_readable (mr_ring_buffer st') < rb_readable (mr_ring_buffer st)"
    using parse_fields(3,4) [OF n(1)] rb.consume [OF assms(2), of n] rb.readIovecs [OF assms(2)] s(1) by (simp add: rb_readable_contents)
qed

lemma strip_cong: "strip a = strip b \<Longrightarrow> parse_turn (strip a) = parse_turn (strip b)"
  by simp

lemma parse_loop_agrees:
  assumes "rb_readable (mr_ring_buffer st) < fuel" "rb_inv (mr_ring_buffer st)" "mr_first_frame st \<Longrightarrow> mr_message st = []" "mr_ws_error st = None"
  shows "\<exists>x a b. parse_loop fuel st = Some (x, a) \<and> parse_loop fuel (strip st) = Some (x, b) \<and> outcomes_agree (Inl (x, a)) (Inl (x, b))"
  using assms
proof (induction fuel arbitrary: st)
  case (Suc fuel)
  note agrees = fast_turn_agrees [OF Suc.prems(2-4)]
  show ?case
  proof (cases "parse_turn st")
    case (Inl xa)
    then show ?thesis
      using agrees by (cases xa; cases "parse_turn (strip st)") auto
  next
    case (Inr a)
    then obtain b where b: "parse_turn (strip st) = Inr b" "strip a = strip b"
      using agrees by (cases "parse_turn (strip st)") auto
    then have "b = strip a"
    proof -
      have "slow_turn (strip st) = Inr b" using b(1) by (auto simp: parse_turn_def Let_def split: if_splits)
      then have "strip b = b" using slow_turn_strip [of "strip st"] by (auto simp: strip_upd)
      then show ?thesis using b(2) by simp
    qed
    then show ?thesis
      using Suc.IH [of a] parse_turn_Inr [OF Inr Suc.prems(2-4)] Suc.prems(1) b(1) Inr by simp
  qed
qed simp

text \<open>C11. The loop of \<open>parseFromBuffer\<close> ends on every buffer, and the fast path changes nothing a caller can see: with it and without it
  the call returns the same answer, both fail or both succeed, and on success the message, the opcode, the unread octets and the progress of
  a fragmented message are the same. The string the caller lends is empty when a message begins.\<close>

theorem ws_fast_path_transparent:
  assumes "rb_inv (mr_ring_buffer st)" "mr_first_frame st \<longrightarrow> mr_message st = []" "mr_ws_error st = None"
  shows "\<exists>finished a b. parseFromBuffer st = Some (finished, a) \<and> parseFromBuffer (st\<lparr>mr_enable_fast_path := False\<rparr>) = Some (finished, b)
    \<and> (takeResult a = Inr True \<longleftrightarrow> takeResult b = Inr True)
    \<and> (takeResult a = Inr True \<longrightarrow> mr_message a = mr_message b \<and> mr_opcode a = mr_opcode b \<and> mr_ring_buffer a = mr_ring_buffer b
         \<and> mr_first_frame a = mr_first_frame b \<and> mr_total_received a = mr_total_received b \<and> mr_control_calls a = mr_control_calls b)"
proof -
  let ?off = "st\<lparr>mr_enable_fast_path := False\<rparr>"
  have s: "strip ?off = strip st" by (simp add: strip_def)
  obtain x a c where 1: "parseFromBuffer st = Some (x, a)" "parse_loop (rb_readable (mr_ring_buffer st) + 1) (strip st) = Some (x, c)"
      "outcomes_agree (Inl (x, a)) (Inl (x, c))"
    using parse_loop_agrees [of st "rb_readable (mr_ring_buffer st) + 1"] assms unfolding parseFromBuffer_def by auto
  obtain y b d where 2: "parseFromBuffer ?off = Some (y, b)" "parse_loop (rb_readable (mr_ring_buffer st) + 1) (strip st) = Some (y, d)"
      "outcomes_agree (Inl (y, b)) (Inl (y, d))"
    using parse_loop_agrees [of ?off "rb_readable (mr_ring_buffer st) + 1"] assms unfolding parseFromBuffer_def s by auto
  have eq: "y = x" "d = c" using 1(2) 2(2) by auto
  have sim: "(mr_ws_error u = None \<longleftrightarrow> mr_ws_error v = None) \<and> (mr_ws_error u = None \<longrightarrow> strip u = strip v)"
    if "outcomes_agree (Inl (x, u)) (Inl (x, v))" for u v
    using that strip_sel(11) [of u] strip_sel(11) [of v] by (cases "mr_ws_error u = None") (simp, auto)
  have err: "mr_ws_error a = None \<longleftrightarrow> mr_ws_error b = None" and same: "mr_ws_error a = None \<Longrightarrow> strip a = strip b"
    using sim [OF 1(3)] sim [OF 2(3) [unfolded eq]] by simp_all
  have res: "takeResult u = Inr True \<longleftrightarrow> mr_ws_error u = None" for u
    by (simp add: takeResult_def split: option.split)
  have "mr_message a = mr_message b \<and> mr_opcode a = mr_opcode b \<and> mr_ring_buffer a = mr_ring_buffer b
      \<and> mr_first_frame a = mr_first_frame b \<and> mr_total_received a = mr_total_received b \<and> mr_control_calls a = mr_control_calls b"
    if "mr_ws_error a = None"
    using same [OF that] by (intro conjI; metis strip_sel)
  then show ?thesis
    using 1(1) 2(1) eq(1) err unfolding res by (intro exI [of _ x]) (rule exI [of _ a], rule exI [of _ b], simp)
qed

theorem ws_fast_path_transparent_witness:
  "\<exists>finished a b. parseFromBuffer (new_message_state (makeImpl 0 (\<lambda>_. None) Mmap 16) default_reader_setting [] Text False False True) = Some (finished, a)
    \<and> parseFromBuffer (new_message_state (makeImpl 0 (\<lambda>_. None) Mmap 16) default_reader_setting [] Text False False True\<lparr>mr_enable_fast_path := False\<rparr>)
      = Some (finished, b) \<and> (takeResult a = Inr True \<longleftrightarrow> takeResult b = Inr True)"
  using ws_fast_path_transparent [of "new_message_state (makeImpl 0 (\<lambda>_. None) Mmap 16) default_reader_setting [] Text False False True"]
    makeImpl_queue [of 0 "\<lambda>_. None" Mmap 16]
  unfolding new_message_state_def by fastforce

section \<open>Fragments on the wire\<close>

text \<open>A frame as a peer may send it, and the frames of one message from its first or a later one on.\<close>

definition ws_wire :: "bool \<Rightarrow> WsFrame \<Rightarrow> bytes" where
  "ws_wire is_server f = encodeInto (wh_masking_key (ws_header f)) f is_server"

definition wire_ok :: "bool \<Rightarrow> WsFrame \<Rightarrow> bool" where
  "wire_ok is_server f = (ws_frame_ok is_server f \<and> (\<not> is_server \<longrightarrow> wh_masking_key (ws_header f) = [0, 0, 0, 0]))"

fun fragments :: "bool \<Rightarrow> bool \<Rightarrow> WsFrame list \<Rightarrow> bool" where
  "fragments is_server first [] = False"
| "fragments is_server first (f # fs) =
    (wire_ok is_server f \<and> (if first then wh_opcode (ws_header f) \<in> {Text, Binary} else wh_opcode (ws_header f) = Continuation)
     \<and> (if fs = [] then wh_fin (ws_header f) else \<not> wh_fin (ws_header f) \<and> fragments is_server False fs))"

definition payloads :: "WsFrame list \<Rightarrow> bytes" where
  "payloads fs = concat (map ws_payload fs)"

definition octets :: "bool \<Rightarrow> WsFrame list \<Rightarrow> bytes" where
  "octets is_server fs = concat (map (ws_wire is_server) fs)"

lemma parse_wire:
  assumes "wire_ok m f" "concat iovs = ws_wire m f @ rest"
  shows "fromIOVec iovs new_frame m = (Inr (length (ws_wire m f)), f)"
  using flat_parse_encoded [of m f new_frame rest] assms by (simp add: fromIOVec_flat wire_ok_def ws_wire_def)

lemma length_wire: "wire_ok m f \<Longrightarrow> 2 \<le> length (ws_wire m f) \<and> length (ws_payload f) \<le> length (ws_wire m f)"
  using parse_fields(3,5) [OF parse_wire [of m f "[ws_wire m f]" "[]"]] by simp

text \<open>A proper prefix of a frame is incomplete.\<close>

lemma parse_prefix:
  assumes "wire_ok m f" "concat iovs @ e = ws_wire m f @ rest" "length (concat iovs) < length (ws_wire m f)"
  shows "fst (fromIOVec iovs new_frame m) = Inl kWsIncomplete"
proof (rule ccontr)
  assume n: "fst (fromIOVec iovs new_frame m) \<noteq> Inl kWsIncomplete"
  then have "flat_parse (concat iovs @ e) new_frame m = flat_parse (concat iovs) new_frame m"
    by (intro flat_parse_append) (simp add: fromIOVec_flat)
  moreover have "flat_parse (concat iovs @ e) new_frame m = (Inr (length (ws_wire m f)), f)"
    using parse_wire [of m f "[concat iovs @ e]" rest] assms(1,2) by (simp add: fromIOVec_flat)
  ultimately have "fromIOVec iovs new_frame m = (Inr (length (ws_wire m f)), f)"
    by (simp add: fromIOVec_flat)
  then show False
    using parse_fields(4) assms(3) by fastforce
qed

text \<open>The frames the reader can take: within the limits, valid text.\<close>

definition acceptable :: "WsFrame list \<Rightarrow> WsMessageReadState \<Rightarrow> bool" where
  "acceptable fs st =
    (rb_inv (mr_ring_buffer st) \<and> \<not> mr_enable_fast_path st \<and> mr_ws_error st = None \<and> (mr_first_frame st \<longrightarrow> mr_message st = [])
     \<and> fragments (mr_is_server st) (mr_first_frame st) fs
     \<and> (\<forall>f\<in>set fs. length (ws_payload f) \<le> max_frame_size (mr_setting st))
     \<and> length (mr_message st @ payloads fs) \<le> max_message_size (mr_setting st)
     \<and> ((if mr_first_frame st then wh_opcode (ws_header (hd fs)) else mr_opcode st) = Text \<longrightarrow> isValidUtf8Bytes (mr_message st @ payloads fs)))"

lemma acceptable_next:
  assumes "acceptable (f # g # fs) st" "n \<le> length (rb_contents (mr_ring_buffer st))"
  shows "acceptable (g # fs) (take_in n f st)"
  using assms rb.consume [of "mr_ring_buffer st" n] by (auto simp: acceptable_def payloads_def)

lemma slow_turn_fragment:
  assumes "acceptable (f # fs) st" "rb_contents (mr_ring_buffer st) = ws_wire (mr_is_server st) f @ rest"
  shows "parse_turn st = (if fs = [] then Inl (True, take_in (length (ws_wire (mr_is_server st) f)) f st)
    else if rest = [] then Inl (False, take_in (length (ws_wire (mr_is_server st) f)) f st)
    else Inr (take_in (length (ws_wire (mr_is_server st) f)) f st))"
proof -
  let ?n = "length (ws_wire (mr_is_server st) f)"
  let ?iovs = "rb_getReadIovecs (mr_ring_buffer st)"
  have inv: "rb_inv (mr_ring_buffer st)" and ok: "wire_ok (mr_is_server st) f" "mr_first_frame st \<Longrightarrow> mr_message st = []"
    using assms(1) by (simp_all add: acceptable_def)
  have iovs: "concat ?iovs = ws_wire (mr_is_server st) f @ rest" "?iovs \<noteq> []"
    using rb.readIovecs [OF inv] rb.readIovecs_empty [OF inv] assms(2) length_wire [OF ok(1)] by auto
  note r = parse_wire [OF ok(1) iovs(1)]
  have data: "\<not> isControlFrame (wh_opcode (ws_header f))" "\<not> out_of_order f st" "\<not> too_large f st"
    "\<not> length (ws_payload f) > max_frame_size (mr_setting st)"
    using assms(1) by (auto simp: acceptable_def out_of_order_def too_large_def payloads_def split: if_splits)
  have utf8: "\<not> bad_text f (take_in ?n f st)"
    using assms(1) by (auto simp: acceptable_def bad_text_def payloads_def split: if_splits)
  have fin: "wh_fin (ws_header f) \<longleftrightarrow> fs = []"
    using assms(1) by (auto simp: acceptable_def split: if_splits)
  have "rb_readable (mr_ring_buffer (take_in ?n f st)) = length rest"
    using rb.consume [OF inv, of ?n] assms(2) by (simp add: rb_readable_contents)
  then show ?thesis
    using slow_turn_data [OF r data(1) parse_fields(2) [OF r] ok(2)] data utf8 fin iovs(2) assms(1)
    by (simp add: parse_turn_def acceptable_def)
qed

text \<open>The state after whole frames were taken in.\<close>

fun take_frames :: "WsFrame list \<Rightarrow> WsMessageReadState \<Rightarrow> WsMessageReadState" where
  "take_frames [] st = st"
| "take_frames (f # fs) st = take_frames fs (take_in (length (ws_wire (mr_is_server st) f)) f st)"

lemma octets_simps [simp]: "octets m [] = []" "octets m (f # fs) = ws_wire m f @ octets m fs" "octets m (fs @ gs) = octets m fs @ octets m gs"
  by (simp_all add: octets_def)

lemma payloads_simps [simp]: "payloads [] = []" "payloads (f # fs) = ws_payload f @ payloads fs" "payloads (fs @ gs) = payloads fs @ payloads gs"
  by (simp_all add: payloads_def)

lemma take_frames_sel [simp]:
  "mr_setting (take_frames fs st) = mr_setting st" "mr_is_server (take_frames fs st) = mr_is_server st"
  "mr_total_received (take_frames fs st) = mr_total_received st" "mr_enable_fast_path (take_frames fs st) = mr_enable_fast_path st"
  "mr_ws_error (take_frames fs st) = mr_ws_error st" "mr_first_frame (take_frames fs st) = (mr_first_frame st \<and> fs = [])"
  "mr_opcode (take_frames fs st) = (if mr_first_frame st \<and> fs \<noteq> [] then wh_opcode (ws_header (hd fs)) else mr_opcode st)"
  "mr_message (take_frames fs st) = (if mr_first_frame st \<and> fs \<noteq> [] then [] else mr_message st) @ payloads fs"
  by (induction fs arbitrary: st) auto

lemma take_frames_ring:
  "rb_inv (mr_ring_buffer st) \<Longrightarrow> rb_inv (mr_ring_buffer (take_frames fs st))
    \<and> rb_capacity (mr_ring_buffer (take_frames fs st)) = rb_capacity (mr_ring_buffer st)
    \<and> rb_contents (mr_ring_buffer (take_frames fs st)) = drop (length (octets (mr_is_server st) fs)) (rb_contents (mr_ring_buffer st))"
  using rb.consume by (induction fs arbitrary: st) (auto simp: add.commute)

lemma acceptable_take:
  "acceptable fs st \<Longrightarrow> j < length fs \<Longrightarrow> length (octets (mr_is_server st) (take j fs)) \<le> length (rb_contents (mr_ring_buffer st)) \<Longrightarrow>
    acceptable (drop j fs) (take_frames (take j fs) st)"
proof (induction j arbitrary: fs st)
  case (Suc j)
  obtain f g gs where fs: "fs = f # g # gs"
    using Suc.prems(2) by (cases fs; cases "tl fs") auto
  let ?st = "take_in (length (ws_wire (mr_is_server st) f)) f st"
  have "acceptable (g # gs) ?st"
    using acceptable_next [of f g gs st] Suc.prems fs by simp
  moreover have "rb_contents (mr_ring_buffer ?st) = drop (length (ws_wire (mr_is_server st) f)) (rb_contents (mr_ring_buffer st))"
    using rb.consume Suc.prems(1) by (simp add: acceptable_def)
  ultimately show ?case
    using Suc.IH [of "g # gs" ?st] Suc.prems fs by simp
qed simp

lemma parse_loop_complete:
  assumes "acceptable fs st" "rb_contents (mr_ring_buffer st) = octets (mr_is_server st) fs @ rest" "length (rb_contents (mr_ring_buffer st)) < fuel"
  shows "parse_loop fuel st = Some (True, take_frames fs st)"
  using assms
proof (induction fs arbitrary: st fuel)
  case Nil
  then show ?case by (simp add: acceptable_def)
next
  case (Cons f fs)
  obtain fuel' where fuel: "fuel = Suc fuel'" using Cons.prems(3) by (cases fuel) auto
  have ok: "wire_ok (mr_is_server st) f" using Cons.prems(1) by (simp add: acceptable_def)
  note turn = slow_turn_fragment [OF Cons.prems(1), of "octets (mr_is_server st) fs @ rest"]
  show ?case
  proof (cases fs)
    case Nil
    then show ?thesis using turn Cons.prems(2) fuel by simp
  next
    case (Cons g gs)
    let ?st = "take_in (length (ws_wire (mr_is_server st) f)) f st"
    have inv: "rb_inv (mr_ring_buffer st)" using Cons.prems(1) by (simp add: acceptable_def)
    have "wire_ok (mr_is_server st) g"
      using Cons.prems(1) Cons by (simp add: acceptable_def)
    then have ne: "octets (mr_is_server st) fs @ rest \<noteq> []"
      using length_wire Cons by fastforce
    have acc: "acceptable fs ?st"
      using acceptable_next [of f g gs st] Cons.prems(1,2) Cons by simp
    have c: "rb_contents (mr_ring_buffer ?st) = octets (mr_is_server st) fs @ rest"
      using rb.consume [OF inv] Cons.prems(2) by simp
    have "parse_loop fuel' ?st = Some (True, take_frames fs ?st)"
      using Cons.IH [OF acc] c Cons.prems(2,3) length_wire [OF ok] fuel by simp
    then show ?thesis
      using turn Cons.prems(2) fuel ne Cons by simp
  qed
qed

lemma parse_loop_partial:
  assumes "acceptable fs st" "rb_contents (mr_ring_buffer st) @ future = octets (mr_is_server st) fs @ rest"
    "length (rb_contents (mr_ring_buffer st)) < length (octets (mr_is_server st) fs)" "length (rb_contents (mr_ring_buffer st)) < fuel"
    "length (mr_message st) + mr_total_received st + length (rb_contents (mr_ring_buffer st)) \<le> max_message_size (mr_setting st)"
  shows "\<exists>j<length fs. parse_loop fuel st = Some (False, take_frames (take j fs) st)
    \<and> length (octets (mr_is_server st) (take j fs)) \<le> length (rb_contents (mr_ring_buffer st))"
  using assms
proof (induction fs arbitrary: st fuel)
  case Nil
  then show ?case by simp
next
  case (Cons f fs)
  let ?m = "mr_is_server st" and ?c = "rb_contents (mr_ring_buffer st)"
  let ?st = "take_in (length (ws_wire ?m f)) f st"
  obtain fuel' where fuel: "fuel = Suc fuel'" using Cons.prems(4) by (cases fuel) auto
  have ok: "wire_ok ?m f" and inv: "rb_inv (mr_ring_buffer st)" and off: "\<not> mr_enable_fast_path st" and first: "mr_first_frame st \<Longrightarrow> mr_message st = []"
    using Cons.prems(1) by (simp_all add: acceptable_def)
  show ?case
  proof (cases "length ?c < length (ws_wire ?m f)")
    case True
    let ?iovs = "rb_getReadIovecs (mr_ring_buffer st)"
    have "fst (fromIOVec ?iovs new_frame ?m) = Inl kWsIncomplete"
      using parse_prefix [OF ok, of ?iovs future "octets ?m fs @ rest"] Cons.prems(2) True rb.readIovecs [OF inv] by simp
    then have "slow_turn st = Inl (need_more st)"
      by (auto simp: slow_turn_def split: prod.splits)
    then have "parse_turn st = Inl (False, st)"
      using off Cons.prems(5) by (simp add: parse_turn_def need_more_def Let_def rb_readable_contents)
    then show ?thesis
      using fuel by (intro exI [of _ 0]) simp
  next
    case False
    define rest' where "rest' = drop (length (ws_wire ?m f)) ?c"
    have c: "?c = ws_wire ?m f @ rest'" "rest' @ future = octets ?m fs @ rest"
    proof -
      have "take (length (ws_wire ?m f)) (?c @ future) = ws_wire ?m f" using Cons.prems(2) by simp
      then have "take (length (ws_wire ?m f)) ?c = ws_wire ?m f" using False by simp
      then show 1: "?c = ws_wire ?m f @ rest'" unfolding rest'_def by (metis append_take_drop_id)
      show "rest' @ future = octets ?m fs @ rest" using Cons.prems(2) unfolding 1 by simp
    qed
    then have "fs \<noteq> []" using Cons.prems(3) by auto
    then obtain g gs where fs: "fs = g # gs" by (cases fs) auto
    note turn = slow_turn_fragment [OF Cons.prems(1) c(1)]
    have c': "rb_contents (mr_ring_buffer ?st) = rest'"
      using rb.consume [OF inv] c(1) by simp
    have acc: "acceptable fs ?st"
      using acceptable_next [of f g gs st] Cons.prems(1) c(1) fs by simp
    show ?thesis
    proof (cases "rest' = []")
      case True
      then show ?thesis
        using turn fuel fs c(1) by (intro exI [of _ 1]) simp
    next
      case ne: False
      have "\<exists>j<length fs. parse_loop fuel' ?st = Some (False, take_frames (take j fs) ?st)
          \<and> length (octets (mr_is_server ?st) (take j fs)) \<le> length (rb_contents (mr_ring_buffer ?st))"
        using Cons.IH [OF acc, of fuel'] c c' Cons.prems(3,4,5) fuel first length_wire [OF ok] by simp
      then obtain j where "j < length fs" "parse_loop fuel' ?st = Some (False, take_frames (take j fs) ?st)"
          "length (octets ?m (take j fs)) \<le> length rest'"
        using c' by auto
      then show ?thesis
        using turn fuel ne fs c(1) by (intro exI [of _ "Suc j"]) simp
    qed
  qed
qed

section \<open>Whole messages\<close>

text \<open>Concrete frames and a ring for the examples below.\<close>

definition ex_ring :: RingBuffer where
  "ex_ring = makeImpl 4096 (\<lambda>_. None) Vector 16"

lemma ex_ring: "rb_inv ex_ring" "rb_contents ex_ring = []" "rb_capacity ex_ring = 16"
  using makeImpl_queue [of 4096 "\<lambda>_. None" Vector 16] by (simp_all add: ex_ring_def) (simp add: makeImpl_def new_ring_inv)

lemma ex_wire:
  "ws_wire False (make_frame Binary [1] False) = [0x02, 0x01, 1]" "ws_wire False (make_frame Continuation [2] True) = [0x80, 0x01, 2]"
  "ws_wire False (make_frame Ping [3] True) = [0x89, 0x01, 3]"
  by (simp_all add: ws_wire_def encodeInto_def make_frame_def new_header_def appendWsFrameHeader_def header_byte1_def header_length_bytes_def Let_def)

lemma ex_wire_ok:
  "wire_ok False (make_frame Binary [1] False)" "wire_ok False (make_frame Continuation [2] True)" "wire_ok False (make_frame Ping [3] True)"
  by (simp_all add: wire_ok_def ws_frame_ok_def make_frame_def new_header_def check_payload_def Let_def)

lemma ex_fragments: "fragments False True [make_frame Binary [1] False, make_frame Continuation [2] True]"
  using ex_wire_ok by (simp add: make_frame_def new_header_def)

lemma strip_take_frames: "strip (take_frames fs (strip st)) = take_frames fs (strip st)"
proof -
  have "strip (take_in n f (strip st)) = take_in n f (strip st)" for n f st
    by (simp add: take_in_def Let_def strip_def consume_ring_def)
  then show ?thesis
    by (induction fs arbitrary: st) (simp_all add: strip_upd, metis)
qed

text \<open>A call of \<open>parseFromBuffer\<close> does what the loop without the fast path does.\<close>

lemma parseFromBuffer_strip:
  assumes "acceptable fs (strip st)" "parse_loop (rb_readable (mr_ring_buffer st) + 1) (strip st) = Some (x, take_frames gs (strip st))"
  shows "\<exists>a. parseFromBuffer st = Some (x, a) \<and> strip a = take_frames gs (strip st) \<and> mr_ws_error a = None"
proof -
  have acc: "rb_inv (mr_ring_buffer st)" "mr_first_frame st \<Longrightarrow> mr_message st = []" "mr_ws_error st = None"
    using assms(1) by (simp_all add: acceptable_def)
  obtain y a b where l: "parse_loop (rb_readable (mr_ring_buffer st) + 1) st = Some (y, a)"
      "parse_loop (rb_readable (mr_ring_buffer st) + 1) (strip st) = Some (y, b)" "outcomes_agree (Inl (y, a)) (Inl (y, b))"
    using parse_loop_agrees [of st "rb_readable (mr_ring_buffer st) + 1"] acc by auto
  then have b: "y = x" "b = take_frames gs (strip st)" "mr_ws_error b = None"
    using assms(2) acc(3) by auto
  then have "mr_ws_error a = None" "strip a = strip b"
    using l(3) by (auto split: if_splits)
  then show ?thesis
    using l(1) b strip_take_frames [of gs st] by (simp add: parseFromBuffer_def)
qed

lemma receive_fits:
  assumes "rb_inv r" "length (rb_contents r) + length d \<le> rb_capacity r"
  shows "rb_inv (rb_receive d r) \<and> rb_capacity (rb_receive d r) = rb_capacity r \<and> rb_contents (rb_receive d r) = rb_contents r @ d"
  using rb.receive [OF assms(1), of d] assms(2) by simp



lemma octets_take_drop: "octets m fs = octets m (take j fs) @ octets m (drop j fs)"
  by (metis append_take_drop_id octets_simps(3))

lemma payloads_shorter: "fragments m first fs \<Longrightarrow> length (payloads (take j fs)) \<le> length (octets m (take j fs))"
proof (induction fs arbitrary: j first)
  case (Cons f fs)
  have w: "length (ws_payload f) \<le> length (ws_wire m f)"
    using Cons.prems length_wire [of m f] by simp
  show ?case
  proof (cases j)
    case (Suc i)
    have "length (payloads (take i fs)) \<le> length (octets m (take i fs))"
      using Cons.IH [of False i] Cons.prems by (cases fs) (auto split: if_splits)
    then show ?thesis using w Suc by simp
  qed simp
qed simp

lemma run_machine_chunks:
  assumes "acceptable fs (strip st)" "rb_contents (mr_ring_buffer st) @ concat chunks = octets (mr_is_server st) fs" "[] \<notin> set chunks"
    "length (mr_message st) + length (rb_contents (mr_ring_buffer st)) \<le> mr_total_received st"
    "2 * (mr_total_received st + length (concat chunks)) \<le> max_message_size (mr_setting st)"
    "mr_total_received st + length (concat chunks) \<le> rb_capacity (mr_ring_buffer st)"
  shows "\<exists>m'. run_machine (map ReadBytes chunks) \<lparr>rm_state = st, rm_result = None\<rparr> = Some (Some (Inr True), [], m')
    \<and> mr_message (rm_state m') = mr_message st @ payloads fs
    \<and> mr_opcode (rm_state m') = (if mr_first_frame st then wh_opcode (ws_header (hd fs)) else mr_opcode st)"
  using assms
proof (induction chunks arbitrary: st fs)
  case Nil
  have fs: "fs \<noteq> []" "rb_inv (mr_ring_buffer st)" "mr_first_frame st \<Longrightarrow> mr_message st = []"
    using Nil.prems(1) by (auto simp: acceptable_def)
  have loop: "parse_loop (rb_readable (mr_ring_buffer st) + 1) (strip st) = Some (True, take_frames fs (strip st))"
    using Nil.prems(2) by (intro parse_loop_complete [OF Nil.prems(1), of "[]"]) (simp_all add: rb_readable_contents)
  obtain a where a: "parseFromBuffer st = Some (True, a)" "strip a = take_frames fs (strip st)" "mr_ws_error a = None"
    using parseFromBuffer_strip [OF Nil.prems(1) loop] by blast
  have "mr_message a = mr_message (take_frames fs (strip st))" "mr_opcode a = mr_opcode (take_frames fs (strip st))"
    using strip_sel(3,4) [of a] unfolding a(2) by simp_all
  then show ?case
    using a(1,3) fs by (auto simp: run_machine.simps [of "[]"] advance_def takeResult_def)
next
  case (Cons c chunks)
  let ?m = "mr_is_server st"
  have fs: "fs \<noteq> []" "rb_inv (mr_ring_buffer st)" "mr_first_frame st \<Longrightarrow> mr_message st = []"
    using Cons.prems(1) by (auto simp: acceptable_def)
  have c: "c \<noteq> []" using Cons.prems(3) by auto
  then have short: "length (rb_contents (mr_ring_buffer st)) < length (octets ?m fs)"
    using Cons.prems(2) [symmetric] by simp
  obtain j where j: "j < length fs" "parse_loop (rb_readable (mr_ring_buffer st) + 1) (strip st) = Some (False, take_frames (take j fs) (strip st))"
      "length (octets ?m (take j fs)) \<le> length (rb_contents (mr_ring_buffer st))"
    using parse_loop_partial [OF Cons.prems(1), of "concat (c # chunks)" "[]" "rb_readable (mr_ring_buffer st) + 1"] Cons.prems short
    by (auto simp: rb_readable_contents simp del: parse_loop.simps)
  obtain a where a: "parseFromBuffer st = Some (False, a)" "strip a = take_frames (take j fs) (strip st)" "mr_ws_error a = None"
    using parseFromBuffer_strip [OF Cons.prems(1) j(2)] by blast
  have sel: "mr_ring_buffer a = mr_ring_buffer (take_frames (take j fs) (strip st))" "mr_setting a = mr_setting st"
    "mr_message a = mr_message st @ payloads (take j fs)" "mr_is_server a = ?m" "mr_total_received a = mr_total_received st"
    "mr_first_frame a = (mr_first_frame st \<and> j = 0)"
    "mr_opcode a = (if mr_first_frame st \<and> j \<noteq> 0 then wh_opcode (ws_header (hd fs)) else mr_opcode st)"
    using strip_sel(1-7) [of a] fs unfolding a(2) by (auto split: if_splits)
  have ring: "rb_inv (mr_ring_buffer a)" "rb_capacity (mr_ring_buffer a) = rb_capacity (mr_ring_buffer st)"
    "rb_contents (mr_ring_buffer a) = drop (length (octets ?m (take j fs))) (rb_contents (mr_ring_buffer st))"
    unfolding sel(1) using take_frames_ring [of "strip st" "take j fs"] fs(2) by simp_all
  have room: "length (rb_contents (mr_ring_buffer a)) + length c \<le> rb_capacity (mr_ring_buffer a)"
    using Cons.prems(4,6) ring(2,3) by simp
  then have "rb_getWriteIovecs (mr_ring_buffer a) \<noteq> []"
    using rb.writeIovecs_empty [OF ring(1)] c by (cases c) auto
  then have adv: "advance \<lparr>rm_state = st, rm_result = None\<rparr> = Some (WaitReadv, \<lparr>rm_state = a, rm_result = None\<rparr>)"
    using a(1) by (simp add: advance_def)
  let ?st = "onBytesReceived c a"
  have run: "run_machine (map ReadBytes (c # chunks)) \<lparr>rm_state = st, rm_result = None\<rparr>
      = run_machine (map ReadBytes chunks) \<lparr>rm_state = ?st, rm_result = None\<rparr>"
    using c by (subst run_machine.simps) (simp add: adv)
  note got = receive_fits [OF ring(1) room]
  have "acceptable (drop j fs) (strip a)"
    unfolding a(2) using acceptable_take [OF Cons.prems(1) j(1)] j(3) by simp
  then have acc: "acceptable (drop j fs) (strip ?st)"
    using got by (cases "mr_first_frame a") (auto simp: acceptable_def onBytesReceived_def)
  have wire_split: "rb_contents (mr_ring_buffer ?st) @ concat chunks = octets ?m (drop j fs)"
  proof -
    have "rb_contents (mr_ring_buffer ?st) @ concat chunks = drop (length (octets ?m (take j fs))) (rb_contents (mr_ring_buffer st) @ concat (c # chunks))"
      using got ring(3) j(3) by (simp add: onBytesReceived_def)
    also have "\<dots> = octets ?m (drop j fs)"
      unfolding Cons.prems(2) by (subst octets_take_drop [of _ fs j]) simp
    finally show ?thesis .
  qed
  have less: "length (payloads (take j fs)) \<le> length (octets ?m (take j fs))"
    using Cons.prems(1) payloads_shorter [of ?m "mr_first_frame st" fs j] by (simp add: acceptable_def)
  have "length (mr_message ?st) + length (rb_contents (mr_ring_buffer ?st)) \<le> mr_total_received ?st"
    using Cons.prems(4) less j(3) got ring(3) by (simp add: onBytesReceived_def sel)
  then obtain m' where m': "run_machine (map ReadBytes chunks) \<lparr>rm_state = ?st, rm_result = None\<rparr> = Some (Some (Inr True), [], m')"
      "mr_message (rm_state m') = mr_message ?st @ payloads (drop j fs)"
      "mr_opcode (rm_state m') = (if mr_first_frame ?st then wh_opcode (ws_header (hd (drop j fs))) else mr_opcode ?st)"
    using Cons.IH [OF acc] wire_split Cons.prems(3,5,6) got ring(2) by (auto simp: onBytesReceived_def sel)
  have "mr_message (rm_state m') = mr_message st @ payloads fs"
    using m'(2) payloads_simps(3) [of "take j fs" "drop j fs"] by (simp add: onBytesReceived_def sel)
  moreover have "mr_opcode (rm_state m') = (if mr_first_frame st then wh_opcode (ws_header (hd fs)) else mr_opcode st)"
    using m'(3) by (simp add: onBytesReceived_def sel)
  ultimately show ?case
    using run m'(1) by simp
qed



section \<open>Limits and control frames\<close>

lemma incomplete_turn:
  assumes "fst (fromIOVec (rb_getReadIovecs (mr_ring_buffer st)) new_frame (mr_is_server st)) = Inl kWsIncomplete"
    "rb_getReadIovecs (mr_ring_buffer st) \<noteq> []"
  shows "parse_turn st = Inl (need_more st)"
proof -
  let ?iovs = "rb_getReadIovecs (mr_ring_buffer st)"
  obtain f where f: "fromIOVec ?iovs new_frame (mr_is_server st) = (Inl kWsIncomplete, f)"
    using assms(1) by (cases "fromIOVec ?iovs new_frame (mr_is_server st)") auto
  have slow: "slow_turn st = Inl (need_more st)" by (simp add: slow_turn_def f)
  obtain status p where scan: "scanWsMessageFastPathPrefix ?iovs (mr_is_server st) = (status, p)"
    by (cases "scanWsMessageFastPathPrefix ?iovs (mr_is_server st)")
  have agrees: "scan_agrees (concat ?iovs) (status, p) (Inl kWsIncomplete, f)"
    using scan_agrees_parse [of ?iovs "mr_is_server st"] scan f by (simp add: fromIOVec_flat)
  have "status \<noteq> kContinue"
  proof
    assume "status = kContinue"
    then have "\<not> isControlFrame (wh_opcode (ws_header f))" "Inl kWsIncomplete = (case check_payload f of None \<Rightarrow> Inr (fp_frame_length p) | Some e \<Rightarrow> Inl e)"
      using agrees by (simp_all add: scan_agrees_def Let_def)
    then show False
      using check_payload_data [of f] by (simp split: if_splits)
  qed
  then show ?thesis
    using agrees scan slow assms(2) by (cases status) (simp_all add: parse_turn_def tryFastPath_def)
qed

text \<open>While a frame is incomplete, the octets received are counted against the message limit twice, once as received and once as
  buffered: a message is refused as too large as soon as the part of it that arrived exceeds half of the limit, although the whole message
  is within the limit.\<close>

theorem ws_limit_counts_twice:
  assumes "rb_inv ring" "rb_contents ring = []" "wire_ok is_server f" "ws_wire is_server f = c @ c'" "c \<noteq> []" "c' \<noteq> []"
    "length c \<le> rb_capacity ring" "max_message_size setting < 2 * length c"
  shows "\<exists>m. run_machine [ReadBytes c, ReadBytes c'] \<lparr>rm_state = new_message_state ring setting [] opc is_server callback fast, rm_result = None\<rparr>
    = Some (Some (Inl kWsMessageTooLarge), [ReadBytes c'], m)"
proof -
  let ?st = "new_message_state ring setting [] opc is_server callback fast"
  have sel: "mr_ring_buffer ?st = ring" "mr_setting ?st = setting" "mr_message ?st = []" "mr_is_server ?st = is_server"
    "mr_total_received ?st = 0" "mr_first_frame ?st" "mr_ws_error ?st = None"
    by (simp_all add: new_message_state_def)
  have empty: "rb_getReadIovecs ring = []" "rb_getWriteIovecs ring \<noteq> []"
    using rb.readIovecs_empty [OF assms(1)] rb.writeIovecs_empty [OF assms(1)] assms(2,5,7) by (cases c; auto)+
  have "parseFromBuffer ?st = Some (False, ?st)"
    by (simp add: parseFromBuffer_def parse_turn_def sel empty)
  then have adv: "advance \<lparr>rm_state = ?st, rm_result = None\<rparr> = Some (WaitReadv, \<lparr>rm_state = ?st, rm_result = None\<rparr>)"
    using empty by (simp add: advance_def sel)
  let ?st1 = "onBytesReceived c ?st"
  have ring: "rb_inv (mr_ring_buffer ?st1)" "rb_contents (mr_ring_buffer ?st1) = c"
    using receive_fits [of ring c] assms(1,2,7) by (simp_all add: onBytesReceived_def sel)
  let ?iovs = "rb_getReadIovecs (mr_ring_buffer ?st1)"
  have iovs: "concat ?iovs = c" "?iovs \<noteq> []"
    using rb.readIovecs [OF ring(1)] rb.readIovecs_empty [OF ring(1)] ring(2) assms(5) by auto
  have "fst (fromIOVec ?iovs new_frame is_server) = Inl kWsIncomplete"
    using parse_prefix [OF assms(3), of ?iovs c' "[]"] iovs assms(4,6) by simp
  then have "parse_turn ?st1 = Inl (need_more ?st1)"
    using incomplete_turn [of ?st1] iovs(2) by (simp add: onBytesReceived_def sel)
  moreover have "need_more ?st1 = (True, setParseError kWsMessageTooLarge ?st1)"
    using assms(8) ring(2) by (simp add: need_more_def Let_def rb_readable_contents onBytesReceived_def sel)
  ultimately have "parseFromBuffer ?st1 = Some (True, setParseError kWsMessageTooLarge ?st1)"
    by (simp add: parseFromBuffer_def)
  then have "\<exists>m. run_machine [ReadBytes c'] \<lparr>rm_state = ?st1, rm_result = None\<rparr> = Some (Some (Inl kWsMessageTooLarge), [ReadBytes c'], m)"
    by (simp add: run_machine.simps [of "[ReadBytes c']"] advance_def takeResult_def setParseError_def)
  then show ?thesis
    using assms(5) by (simp add: run_machine.simps [of "[ReadBytes c, ReadBytes c']"] adv)
qed

theorem ws_limit_counts_twice_witness:
  "\<exists>m. run_machine [ReadBytes [0x80, 0x01], ReadBytes [2]]
       \<lparr>rm_state = new_message_state ex_ring (default_reader_setting\<lparr>max_message_size := 3\<rparr>) [] Text False False False, rm_result = None\<rparr>
     = Some (Some (Inl kWsMessageTooLarge), [ReadBytes [2]], m)"
  using ws_limit_counts_twice [of ex_ring False "make_frame Continuation [2] True" "[0x80, 0x01]" "[2]" "default_reader_setting\<lparr>max_message_size := 3\<rparr>"]
    ex_ring ex_wire(2) ex_wire_ok(2) by simp

lemma slow_turn_control:
  assumes "fromIOVec (rb_getReadIovecs (mr_ring_buffer st)) new_frame (mr_is_server st) = (Inr n, g)" "isControlFrame (wh_opcode (ws_header g))"
    "length (ws_payload g) \<le> max_frame_size (mr_setting st)"
  shows "\<exists>calls. slow_turn st = Inl (True, (consume_ring n st)\<lparr>mr_control_calls := calls, mr_message := ws_payload g, mr_opcode := wh_opcode (ws_header g)\<rparr>)"
proof -
  have g: "unat (wh_payload_length (ws_header g)) = length (ws_payload g)" "wh_fin (ws_header g)"
    using parse_fields(1,2) [OF assms(1)] assms(2) by (auto simp: ws_frame_ok_def Let_def)
  let ?st = "consume_ring n st"
  let ?calls = "if mr_control_frame_callback ?st then mr_control_calls ?st @ [(wh_opcode (ws_header g), ws_payload g)] else mr_control_calls ?st"
  have "slow_turn st = Inl (True, ?st\<lparr>mr_control_calls := ?calls, mr_message := ws_payload g, mr_opcode := wh_opcode (ws_header g)\<rparr>)"
    using assms g by (simp add: slow_turn_def on_frame_def Let_def) (simp add: consume_ring_def)
  then show ?thesis by blast
qed

lemma parse_ring_wire:
  assumes "rb_inv r" "rb_contents r = ws_wire m f @ rest" "wire_ok m f"
  shows "fromIOVec (rb_getReadIovecs r) new_frame m = (Inr (length (ws_wire m f)), f)" "rb_getReadIovecs r \<noteq> []"
proof -
  have c: "concat (rb_getReadIovecs r) = ws_wire m f @ rest" using rb.readIovecs [OF assms(1)] assms(2) by simp
  show "fromIOVec (rb_getReadIovecs r) new_frame m = (Inr (length (ws_wire m f)), f)"
    using parse_wire [OF assms(3) c] .
  show "rb_getReadIovecs r \<noteq> []"
    using c length_wire [OF assms(3)] by auto
qed

text \<open>A continuation frame at the start of a message is refused.\<close>

lemma orphan_continuation:
  assumes "rb_inv (mr_ring_buffer st)" "mr_first_frame st" "mr_message st = []" "mr_ws_error st = None"
    "rb_contents (mr_ring_buffer st) = ws_wire (mr_is_server st) h @ rest" "wire_ok (mr_is_server st) h" "wh_opcode (ws_header h) = Continuation"
  shows "\<exists>st' e. parseFromBuffer st = Some (True, st') \<and> takeResult st' = Inl e"
proof -
  note r = parse_ring_wire [OF assms(1,5,6)]
  have "\<exists>b. slow_turn (strip st) = Inl (True, b) \<and> mr_ws_error b \<noteq> None"
    using slow_turn_data [of "strip st", simplified, OF r(1) _ parse_fields(2) [OF r(1)]] assms(2,3,7)
    by (auto simp: out_of_order_def setParseError_def)
  then obtain b where b: "parse_turn (strip st) = Inl (True, b)" "mr_ws_error b \<noteq> None"
    using r(2) by (auto simp: parse_turn_def)
  then obtain a where "parse_turn st = Inl (True, a)" "mr_ws_error a \<noteq> None"
    using fast_turn_agrees [OF assms(1) _ assms(4)] assms(3) strip_sel(11)
    by (cases "parse_turn st" rule: sum.exhaust) (auto split: if_splits, metis strip_sel(11) option.distinct(1))
  then show ?thesis
    by (auto simp: parseFromBuffer_def takeResult_def)
qed

lemma interrupted_loop:
  assumes "rb_inv (mr_ring_buffer st)" "mr_first_frame st" "mr_message st = []" "mr_ws_error st = None" "\<not> mr_enable_fast_path st"
    "rb_contents (mr_ring_buffer st) = ws_wire (mr_is_server st) f @ ws_wire (mr_is_server st) g @ rest"
    "wire_ok (mr_is_server st) f" "wire_ok (mr_is_server st) g"
    "wh_opcode (ws_header f) \<in> {Text, Binary}" "\<not> wh_fin (ws_header f)" "isControlFrame (wh_opcode (ws_header g))"
    "length (ws_payload f) \<le> max_frame_size (mr_setting st)" "length (ws_payload f) \<le> max_message_size (mr_setting st)"
    "length (ws_payload g) \<le> max_frame_size (mr_setting st)"
  shows "\<exists>b. parse_loop (Suc (Suc fuel)) st = Some (True, b) \<and> mr_ws_error b = None \<and> mr_message b = ws_payload g
    \<and> mr_opcode b = wh_opcode (ws_header g) \<and> rb_inv (mr_ring_buffer b) \<and> rb_contents (mr_ring_buffer b) = rest"
proof -
  let ?m = "mr_is_server st" and ?n = "length (ws_wire (mr_is_server st) f)"
  let ?st = "take_in ?n f st"
  note r = parse_ring_wire [OF assms(1,6,7)]
  have ring: "rb_inv (mr_ring_buffer ?st)" "rb_contents (mr_ring_buffer ?st) = ws_wire ?m g @ rest"
    using rb.consume [OF assms(1), of ?n] assms(6) by simp_all
  have "\<not> isControlFrame (wh_opcode (ws_header f))" using assms(9) by auto
  then have "slow_turn st = Inr ?st"
    using slow_turn_data [OF r(1) _ parse_fields(2) [OF r(1)]] assms ring(2) length_wire [OF assms(8)]
    by (auto simp: out_of_order_def too_large_def bad_text_def rb_readable_contents)
  then have 1: "parse_turn st = Inr ?st"
    using assms(5) r(2) by (simp add: parse_turn_def)
  have p: "fromIOVec (rb_getReadIovecs (mr_ring_buffer ?st)) new_frame (mr_is_server ?st) = (Inr (length (ws_wire ?m g)), g)"
      "rb_getReadIovecs (mr_ring_buffer ?st) \<noteq> []"
    using parse_ring_wire [OF ring assms(8)] by simp_all
  obtain calls where "slow_turn ?st = Inl (True, (consume_ring (length (ws_wire ?m g)) ?st)\<lparr>mr_control_calls := calls,
      mr_message := ws_payload g, mr_opcode := wh_opcode (ws_header g)\<rparr>)"
    using slow_turn_control [OF p(1) assms(11)] assms(14) by auto
  then have 2: "parse_turn ?st = Inl (True, (consume_ring (length (ws_wire ?m g)) ?st)\<lparr>mr_control_calls := calls,
      mr_message := ws_payload g, mr_opcode := wh_opcode (ws_header g)\<rparr>)"
    using assms(5) p(2) by (simp add: parse_turn_def)
  show ?thesis
    using 1 2 rb.consume [OF ring(1), of "length (ws_wire ?m g)"] ring(2) assms(4) by (simp add: consume_ring_def)
qed

text \<open>C39. A control frame between two fragments: the call returns it as the message, the fragment read before it is dropped, and the
  continuation frame that follows is refused by the next call, although the protocol allows control frames between fragments.\<close>

theorem ws_control_frame_drops_fragments:
  assumes "rb_inv (mr_ring_buffer st)" "mr_first_frame st" "mr_message st = []" "mr_ws_error st = None"
    "rb_contents (mr_ring_buffer st) = ws_wire (mr_is_server st) f @ ws_wire (mr_is_server st) g @ ws_wire (mr_is_server st) h @ rest"
    "wire_ok (mr_is_server st) f" "wire_ok (mr_is_server st) g" "wire_ok (mr_is_server st) h"
    "wh_opcode (ws_header f) \<in> {Text, Binary}" "\<not> wh_fin (ws_header f)" "isControlFrame (wh_opcode (ws_header g))"
    "wh_opcode (ws_header h) = Continuation"
    "length (ws_payload f) \<le> max_frame_size (mr_setting st)" "length (ws_payload f) \<le> max_message_size (mr_setting st)"
    "length (ws_payload g) \<le> max_frame_size (mr_setting st)"
  shows "\<exists>st'. parseFromBuffer st = Some (True, st') \<and> takeResult st' = Inr True \<and> mr_message st' = ws_payload g
    \<and> mr_opcode st' = wh_opcode (ws_header g)
    \<and> (\<exists>st'' e. parseFromBuffer (new_message_state (mr_ring_buffer st') (mr_setting st) [] opc (mr_is_server st) callback fast) = Some (True, st'')
         \<and> takeResult st'' = Inl e)"
proof -
  let ?m = "mr_is_server st" and ?fuel = "rb_readable (mr_ring_buffer st) + 1"
  have "2 \<le> rb_readable (mr_ring_buffer st)"
    using assms(5) length_wire [OF assms(6)] by (simp add: rb_readable_contents)
  then obtain k where k: "?fuel = Suc (Suc k)" by (cases "rb_readable (mr_ring_buffer st)") auto
  obtain b where b: "parse_loop ?fuel (strip st) = Some (True, b)" "mr_ws_error b = None" "mr_message b = ws_payload g"
      "mr_opcode b = wh_opcode (ws_header g)" "rb_inv (mr_ring_buffer b)" "rb_contents (mr_ring_buffer b) = ws_wire ?m h @ rest"
    unfolding k using interrupted_loop [of "strip st" f g "ws_wire ?m h @ rest" k] assms by auto
  obtain a where a: "parseFromBuffer st = Some (True, a)" "outcomes_agree (Inl (True, a)) (Inl (True, b))"
    using parse_loop_agrees [of st ?fuel] assms(1-4) b(1) unfolding parseFromBuffer_def by auto
  then have s: "strip a = strip b" "mr_ws_error a = None"
    using b(2) by (auto split: if_splits)
  then have sel: "mr_ring_buffer a = mr_ring_buffer b" "mr_message a = mr_message b" "mr_opcode a = mr_opcode b"
    by (metis strip_sel(1), metis strip_sel(3), metis strip_sel(4))
  let ?st = "new_message_state (mr_ring_buffer a) (mr_setting st) [] opc ?m callback fast"
  have "\<exists>st'' e. parseFromBuffer ?st = Some (True, st'') \<and> takeResult st'' = Inl e"
    using orphan_continuation [of ?st h rest] b(5,6) assms(8,12) sel(1) by (simp add: new_message_state_def)
  then show ?thesis
    using a(1) s(2) b(3,4) sel(2,3) by (simp add: takeResult_def)
qed

theorem ws_control_frame_drops_fragments_witness:
  "\<exists>st'. parseFromBuffer (new_message_state (rb_receive [0x02, 0x01, 1, 0x89, 0x01, 3, 0x80, 0x01, 2] ex_ring) default_reader_setting [] Text False False True)
     = Some (True, st') \<and> takeResult st' = Inr True \<and> mr_message st' = [3] \<and> mr_opcode st' = Ping"
proof -
  let ?r = "rb_receive [0x02, 0x01, 1, 0x89, 0x01, 3, 0x80, 0x01, 2] ex_ring"
  let ?st = "new_message_state ?r default_reader_setting [] Text False False True"
  let ?f = "make_frame Binary [1] False" and ?g = "make_frame Ping [3] True" and ?h = "make_frame Continuation [2] True"
  have r: "rb_inv ?r" "rb_contents ?r = ws_wire False ?f @ ws_wire False ?g @ ws_wire False ?h @ []"
    using receive_fits [of ex_ring "[0x02, 0x01, 1, 0x89, 0x01, 3, 0x80, 0x01, 2]"] ex_ring ex_wire by simp_all
  have lim: "1 \<le> max_frame_size default_reader_setting" "1 \<le> max_message_size default_reader_setting"
    by (simp_all add: default_reader_setting_def)
  have s: "mr_ring_buffer ?st = ?r" "mr_first_frame ?st" "mr_message ?st = []" "mr_ws_error ?st = None" "mr_is_server ?st = False"
    "mr_setting ?st = default_reader_setting"
    by (simp_all add: new_message_state_def)
  have f: "ws_payload (make_frame opc p b) = p" "wh_opcode (ws_header (make_frame opc p b)) = opc" "wh_fin (ws_header (make_frame opc p b)) = b" for opc p b
    by (simp_all add: make_frame_def)
  show ?thesis
    using ws_control_frame_drops_fragments [of ?st ?f ?g ?h "[]" Text False True] r ex_wire_ok lim by (simp add: f s) blast
qed

end
