(* ===== verification/H2_Base.thy ===== *)
theory H2_Base
  imports Galay_Prelude
begin

unbundle bit_operations_syntax

text \<open>
  The constants and enumerations of \<^verbatim>\<open>galay-http2/protoc/http2_base.h\<close> and their
  printers in \<^verbatim>\<open>http2_base.cc\<close>.

  \<open>Http2FrameType\<close>, \<open>Http2SettingsId\<close> and \<open>Http2ErrorCode\<close> are C++ enums with a fixed
  underlying type, and the parsers \<open>static_cast\<close> arbitrary wire values to them: every value of
  the underlying type is a value of the enum. They are modelled as words of that type with one
  constant per enumerator. \<open>Http2StreamState\<close> is never cast from an integer and is a datatype.
\<close>

named_theorems h2_enum \<open>enumerator values\<close>

section \<open>Sizes and limits\<close>

definition kHttp2FrameHeaderLength :: nat where "kHttp2FrameHeaderLength = 9"
definition kDefaultHeaderTableSize :: u32 where "kDefaultHeaderTableSize = 4096"
definition kDefaultInitialWindowSize :: u32 where "kDefaultInitialWindowSize = 65535"
definition kDefaultMaxFrameSize :: u32 where "kDefaultMaxFrameSize = 16384"
definition kMaxStreamId :: u32 where "kMaxStreamId = 0x7FFFFFFF"

section \<open>Frame types\<close>

type_synonym Http2FrameType = u8

definition FT_Data :: Http2FrameType where [h2_enum]: "FT_Data = 0x0"
definition FT_Headers :: Http2FrameType where [h2_enum]: "FT_Headers = 0x1"
definition FT_Priority :: Http2FrameType where [h2_enum]: "FT_Priority = 0x2"
definition FT_RstStream :: Http2FrameType where [h2_enum]: "FT_RstStream = 0x3"
definition FT_Settings :: Http2FrameType where [h2_enum]: "FT_Settings = 0x4"
definition FT_PushPromise :: Http2FrameType where [h2_enum]: "FT_PushPromise = 0x5"
definition FT_Ping :: Http2FrameType where [h2_enum]: "FT_Ping = 0x6"
definition FT_GoAway :: Http2FrameType where [h2_enum]: "FT_GoAway = 0x7"
definition FT_WindowUpdate :: Http2FrameType where [h2_enum]: "FT_WindowUpdate = 0x8"
definition FT_Continuation :: Http2FrameType where [h2_enum]: "FT_Continuation = 0x9"
definition FT_Unknown :: Http2FrameType where [h2_enum]: "FT_Unknown = 0xFF"

section \<open>Frame flags\<close>

definition kEndStream :: u8 where [h2_enum]: "kEndStream = 0x1"
definition kPadded :: u8 where [h2_enum]: "kPadded = 0x8"
definition kEndHeaders :: u8 where [h2_enum]: "kEndHeaders = 0x4"
definition kPriority :: u8 where [h2_enum]: "kPriority = 0x20"
definition kAck :: u8 where [h2_enum]: "kAck = 0x1"

section \<open>Settings identifiers\<close>

type_synonym Http2SettingsId = u16

definition SID_HeaderTableSize :: Http2SettingsId where [h2_enum]: "SID_HeaderTableSize = 0x1"
definition SID_EnablePush :: Http2SettingsId where [h2_enum]: "SID_EnablePush = 0x2"
definition SID_MaxConcurrentStreams :: Http2SettingsId where [h2_enum]: "SID_MaxConcurrentStreams = 0x3"
definition SID_InitialWindowSize :: Http2SettingsId where [h2_enum]: "SID_InitialWindowSize = 0x4"
definition SID_MaxFrameSize :: Http2SettingsId where [h2_enum]: "SID_MaxFrameSize = 0x5"
definition SID_MaxHeaderListSize :: Http2SettingsId where [h2_enum]: "SID_MaxHeaderListSize = 0x6"

section \<open>Error codes\<close>

type_synonym Http2ErrorCode = u32

definition NoError :: Http2ErrorCode where [h2_enum]: "NoError = 0x0"
definition ProtocolError :: Http2ErrorCode where [h2_enum]: "ProtocolError = 0x1"
definition InternalError :: Http2ErrorCode where [h2_enum]: "InternalError = 0x2"
definition FlowControlError :: Http2ErrorCode where [h2_enum]: "FlowControlError = 0x3"
definition SettingsTimeout :: Http2ErrorCode where [h2_enum]: "SettingsTimeout = 0x4"
definition StreamClosed :: Http2ErrorCode where [h2_enum]: "StreamClosed = 0x5"
definition FrameSizeError :: Http2ErrorCode where [h2_enum]: "FrameSizeError = 0x6"
definition RefusedStream :: Http2ErrorCode where [h2_enum]: "RefusedStream = 0x7"
definition Cancel :: Http2ErrorCode where [h2_enum]: "Cancel = 0x8"
definition CompressionError :: Http2ErrorCode where [h2_enum]: "CompressionError = 0x9"
definition ConnectError :: Http2ErrorCode where [h2_enum]: "ConnectError = 0xa"
definition EnhanceYourCalm :: Http2ErrorCode where [h2_enum]: "EnhanceYourCalm = 0xb"
definition InadequateSecurity :: Http2ErrorCode where [h2_enum]: "InadequateSecurity = 0xc"
definition Http11Required :: Http2ErrorCode where [h2_enum]: "Http11Required = 0xd"

section \<open>Stream states\<close>

datatype Http2StreamState =
  Idle | ReservedLocal | ReservedRemote | Open | HalfClosedLocal | HalfClosedRemote | Closed

section \<open>Printers\<close>

definition http2FrameTypeToString :: "Http2FrameType \<Rightarrow> string" where
  "http2FrameTypeToString t =
    (if t = FT_Data then ''DATA''
     else if t = FT_Headers then ''HEADERS''
     else if t = FT_Priority then ''PRIORITY''
     else if t = FT_RstStream then ''RST_STREAM''
     else if t = FT_Settings then ''SETTINGS''
     else if t = FT_PushPromise then ''PUSH_PROMISE''
     else if t = FT_Ping then ''PING''
     else if t = FT_GoAway then ''GOAWAY''
     else if t = FT_WindowUpdate then ''WINDOW_UPDATE''
     else if t = FT_Continuation then ''CONTINUATION''
     else ''UNKNOWN'')"

definition http2ErrorCodeToString :: "Http2ErrorCode \<Rightarrow> string" where
  "http2ErrorCodeToString c =
    (if c = NoError then ''NO_ERROR''
     else if c = ProtocolError then ''PROTOCOL_ERROR''
     else if c = InternalError then ''INTERNAL_ERROR''
     else if c = FlowControlError then ''FLOW_CONTROL_ERROR''
     else if c = SettingsTimeout then ''SETTINGS_TIMEOUT''
     else if c = StreamClosed then ''STREAM_CLOSED''
     else if c = FrameSizeError then ''FRAME_SIZE_ERROR''
     else if c = RefusedStream then ''REFUSED_STREAM''
     else if c = Cancel then ''CANCEL''
     else if c = CompressionError then ''COMPRESSION_ERROR''
     else if c = ConnectError then ''CONNECT_ERROR''
     else if c = EnhanceYourCalm then ''ENHANCE_YOUR_CALM''
     else if c = InadequateSecurity then ''INADEQUATE_SECURITY''
     else if c = Http11Required then ''HTTP_1_1_REQUIRED''
     else ''UNKNOWN_ERROR'')"

fun http2StreamStateToString :: "Http2StreamState \<Rightarrow> string" where
  "http2StreamStateToString Idle = ''idle''"
| "http2StreamStateToString ReservedLocal = ''reserved (local)''"
| "http2StreamStateToString ReservedRemote = ''reserved (remote)''"
| "http2StreamStateToString Open = ''open''"
| "http2StreamStateToString HalfClosedLocal = ''half-closed (local)''"
| "http2StreamStateToString HalfClosedRemote = ''half-closed (remote)''"
| "http2StreamStateToString Closed = ''closed''"

end
