(* ===== verification/H2_Frame.thy ===== *)
theory H2_Frame
  imports H2_Base
begin

unbundle bit_operations_syntax

text \<open>
  The HTTP/2 frame codec, \<^verbatim>\<open>galay-http2/protoc/http2_frame.h\<close> and
  \<^verbatim>\<open>http2_frame.cc\<close>: the frame header, the ten frame classes with their
  \<open>serialize\<close> and \<open>parsePayload\<close>, \<open>Http2FrameParser\<close> and \<open>Http2FrameCodec\<close>.
  The class hierarchy is one datatype whose constructors carry the members of the subclasses;
  members shared by several subclasses are one selector. \<open>parsePayload\<close> mutates the frame and
  returns an error code, so its model returns both; the outer option is a read past the buffer.
\<close>

section \<open>The frame header\<close>

record Http2FrameHeader =
  h_length :: u32
  h_stream_id :: u32
  h_type :: Http2FrameType
  h_flags :: u8

definition default_header :: Http2FrameHeader where
  "default_header = \<lparr>h_length = 0, h_stream_id = 0, h_type = FT_Unknown, h_flags = 0\<rparr>"

definition hasFlag :: "Http2FrameHeader \<Rightarrow> u8 \<Rightarrow> bool" where
  "hasFlag h flag \<longleftrightarrow> h_flags h AND flag \<noteq> 0"

definition setFlag :: "Http2FrameHeader \<Rightarrow> u8 \<Rightarrow> Http2FrameHeader" where
  "setFlag h flag = h\<lparr>h_flags := h_flags h OR flag\<rparr>"

definition clearFlag :: "Http2FrameHeader \<Rightarrow> u8 \<Rightarrow> Http2FrameHeader" where
  "clearFlag h flag = h\<lparr>h_flags := h_flags h AND NOT flag\<rparr>"

definition Http2FrameHeader_serialize :: "Http2FrameHeader \<Rightarrow> bytes" where
  "Http2FrameHeader_serialize h =
    be24 (h_length h) @ [h_type h, h_flags h] @ be32 (h_stream_id h AND 0x7FFFFFFF)"

definition Http2FrameHeader_deserialize :: "bytes \<Rightarrow> Http2FrameHeader option" where
  "Http2FrameHeader_deserialize b = do {
     b0 \<leftarrow> rd b 0; b1 \<leftarrow> rd b 1; b2 \<leftarrow> rd b 2;
     ty \<leftarrow> rd b 3;
     fl \<leftarrow> rd b 4;
     sid \<leftarrow> rd32 b 5;
     Some \<lparr>h_length = ld24 b0 b1 b2, h_stream_id = sid AND 0x7FFFFFFF, h_type = ty, h_flags = fl\<rparr> }"

section \<open>Frames\<close>

record Setting =
  s_value :: u32
  s_id :: Http2SettingsId

datatype Http2Frame =
    DataFrame (m_header: Http2FrameHeader) (m_data: bytes) (m_pad_length: u8)
  | HeadersFrame (m_header: Http2FrameHeader) (m_stream_dependency: u32) (m_header_block: bytes)
      (m_exclusive: bool) (m_weight: u8) (m_pad_length: u8)
  | PriorityFrame (m_header: Http2FrameHeader) (m_stream_dependency: u32) (m_exclusive: bool)
      (m_weight: u8)
  | RstStreamFrame (m_header: Http2FrameHeader) (m_error_code: Http2ErrorCode)
  | SettingsFrame (m_header: Http2FrameHeader) (m_settings: "Setting list")
  | PushPromiseFrame (m_header: Http2FrameHeader) (m_promised_stream_id: u32)
      (m_header_block: bytes) (m_pad_length: u8)
  | PingFrame (m_header: Http2FrameHeader) (m_opaque_data: bytes)
  | GoAwayFrame (m_header: Http2FrameHeader) (m_last_stream_id: u32) (m_debug_data: bytes)
      (m_error_code: Http2ErrorCode)
  | WindowUpdateFrame (m_header: Http2FrameHeader) (m_window_size_increment: u32)
  | ContinuationFrame (m_header: Http2FrameHeader) (m_header_block: bytes)

fun set_header :: "Http2FrameHeader \<Rightarrow> Http2Frame \<Rightarrow> Http2Frame" where
  "set_header h (DataFrame _ d p) = DataFrame h d p"
| "set_header h (HeadersFrame _ dep blk ex w p) = HeadersFrame h dep blk ex w p"
| "set_header h (PriorityFrame _ dep ex w) = PriorityFrame h dep ex w"
| "set_header h (RstStreamFrame _ c) = RstStreamFrame h c"
| "set_header h (SettingsFrame _ ss) = SettingsFrame h ss"
| "set_header h (PushPromiseFrame _ sid blk p) = PushPromiseFrame h sid blk p"
| "set_header h (PingFrame _ d) = PingFrame h d"
| "set_header h (GoAwayFrame _ sid d c) = GoAwayFrame h sid d c"
| "set_header h (WindowUpdateFrame _ i) = WindowUpdateFrame h i"
| "set_header h (ContinuationFrame _ blk) = ContinuationFrame h blk"

definition frame_type :: "Http2Frame \<Rightarrow> Http2FrameType" where
  "frame_type f = h_type (m_header f)"

definition streamId :: "Http2Frame \<Rightarrow> u32" where
  "streamId f = h_stream_id (m_header f)"

definition isPadded :: "Http2Frame \<Rightarrow> bool" where
  "isPadded f = hasFlag (m_header f) kPadded"

definition hasPriority :: "Http2Frame \<Rightarrow> bool" where
  "hasPriority f = hasFlag (m_header f) kPriority"

definition isAck :: "Http2Frame \<Rightarrow> bool" where
  "isAck f = hasFlag (m_header f) kAck"

definition isEndHeaders :: "Http2Frame \<Rightarrow> bool" where
  "isEndHeaders f = hasFlag (m_header f) kEndHeaders"

text \<open>\<open>Http2Frame::isEndStream\<close>: DATA and HEADERS only.\<close>

definition isEndStream :: "Http2Frame \<Rightarrow> bool" where
  "isEndStream f \<longleftrightarrow> (frame_type f = FT_Data \<or> frame_type f = FT_Headers)
                    \<and> hasFlag (m_header f) kEndStream"

definition set_flag_to :: "u8 \<Rightarrow> bool \<Rightarrow> Http2Frame \<Rightarrow> Http2Frame" where
  "set_flag_to flag v f =
    set_header (if v then setFlag (m_header f) flag else clearFlag (m_header f) flag) f"

definition setEndStream :: "bool \<Rightarrow> Http2Frame \<Rightarrow> Http2Frame" where
  "setEndStream v f = set_flag_to kEndStream v f"

definition setEndHeaders :: "bool \<Rightarrow> Http2Frame \<Rightarrow> Http2Frame" where
  "setEndHeaders v f = set_flag_to kEndHeaders v f"

definition setAck :: "bool \<Rightarrow> Http2Frame \<Rightarrow> Http2Frame" where
  "setAck v f = set_flag_to kAck v f"

fun getSetting_in :: "Setting list \<Rightarrow> Http2SettingsId \<Rightarrow> u32 option" where
  "getSetting_in [] i = None"
| "getSetting_in (s # ss) i = (if s_id s = i then Some (s_value s) else getSetting_in ss i)"

definition getSetting :: "Http2Frame \<Rightarrow> Http2SettingsId \<Rightarrow> u32 option" where
  "getSetting f i = getSetting_in (m_settings f) i"

section \<open>Serialisation\<close>

text \<open>The \<open>payload_length\<close> each \<open>serialize\<close> computes before it sizes its buffer.\<close>

fun payload_length :: "Http2Frame \<Rightarrow> nat" where
  "payload_length (DataFrame h d p) = length d + (if hasFlag h kPadded then 1 + unat p else 0)"
| "payload_length (HeadersFrame h dep blk ex w p) =
     length blk + (if hasFlag h kPriority then 5 else 0) + (if hasFlag h kPadded then 1 + unat p else 0)"
| "payload_length (PriorityFrame h dep ex w) = 5"
| "payload_length (RstStreamFrame h c) = 4"
| "payload_length (SettingsFrame h ss) = (if hasFlag h kAck then 0 else length ss * 6)"
| "payload_length (PushPromiseFrame h sid blk p) =
     4 + length blk + (if hasFlag h kPadded then 1 + unat p else 0)"
| "payload_length (PingFrame h d) = 8"
| "payload_length (GoAwayFrame h sid d c) = 8 + length d"
| "payload_length (WindowUpdateFrame h i) = 4"
| "payload_length (ContinuationFrame h blk) = length blk"

definition dep_word :: "u32 \<Rightarrow> bool \<Rightarrow> u32" where
  "dep_word dep ex = (if ex then dep OR 0x80000000 else dep)"

definition pad_bytes :: "Http2FrameHeader \<Rightarrow> u8 \<Rightarrow> bytes" where
  "pad_bytes h p = (if hasFlag h kPadded \<and> p > 0 then replicate (unat p) 0 else [])"

definition pad_len_bytes :: "Http2FrameHeader \<Rightarrow> u8 \<Rightarrow> bytes" where
  "pad_len_bytes h p = (if hasFlag h kPadded then [p] else [])"

definition setting_bytes :: "Setting \<Rightarrow> bytes" where
  "setting_bytes s = be16 (s_id s) @ be32 (s_value s)"

fun serialize :: "Http2Frame \<Rightarrow> bytes" where
  "serialize (DataFrame h d p) =
     Http2FrameHeader_serialize (h\<lparr>h_length := of_nat (payload_length (DataFrame h d p))\<rparr>)
     @ pad_len_bytes h p @ d @ pad_bytes h p"
| "serialize (HeadersFrame h dep blk ex w p) =
     Http2FrameHeader_serialize (h\<lparr>h_length := of_nat (payload_length (HeadersFrame h dep blk ex w p))\<rparr>)
     @ pad_len_bytes h p
     @ (if hasFlag h kPriority then be32 (dep_word dep ex) @ [w] else [])
     @ blk @ pad_bytes h p"
| "serialize (PriorityFrame h dep ex w) =
     Http2FrameHeader_serialize (h\<lparr>h_length := 5\<rparr>) @ be32 (dep_word dep ex) @ [w]"
| "serialize (RstStreamFrame h c) =
     Http2FrameHeader_serialize (h\<lparr>h_length := 4\<rparr>) @ be32 c"
| "serialize (SettingsFrame h ss) =
     (if hasFlag h kAck
      then Http2FrameHeader_serialize (h\<lparr>h_length := 0, h_stream_id := 0\<rparr>)
      else Http2FrameHeader_serialize (h\<lparr>h_length := of_nat (length ss * 6), h_stream_id := 0\<rparr>)
           @ concat (map setting_bytes ss))"
| "serialize (PushPromiseFrame h sid blk p) =
     Http2FrameHeader_serialize (h\<lparr>h_length := of_nat (payload_length (PushPromiseFrame h sid blk p))\<rparr>)
     @ pad_len_bytes h p @ be32 (sid AND 0x7FFFFFFF) @ blk @ pad_bytes h p"
| "serialize (PingFrame h d) =
     Http2FrameHeader_serialize (h\<lparr>h_length := 8, h_stream_id := 0\<rparr>) @ d"
| "serialize (GoAwayFrame h sid d c) =
     Http2FrameHeader_serialize
       (h\<lparr>h_length := of_nat (payload_length (GoAwayFrame h sid d c)), h_stream_id := 0\<rparr>)
     @ be32 (sid AND 0x7FFFFFFF) @ be32 c @ d"
| "serialize (WindowUpdateFrame h i) =
     Http2FrameHeader_serialize (h\<lparr>h_length := 4\<rparr>) @ be32 (i AND 0x7FFFFFFF)"
| "serialize (ContinuationFrame h blk) =
     Http2FrameHeader_serialize (h\<lparr>h_length := of_nat (length blk)\<rparr>) @ blk"

section \<open>Payload parsing\<close>

text \<open>The loop of \<open>Http2SettingsFrame::parsePayload\<close>, from offset \<open>i\<close> with the settings read so far.\<close>

function parse_settings_from :: "bytes \<Rightarrow> nat \<Rightarrow> Setting list \<Rightarrow> Setting list option" where
  "parse_settings_from d i acc =
    (if i < length d then do {
       ident \<leftarrow> rd16 d i;
       val \<leftarrow> rd32 d (i + 2);
       parse_settings_from d (i + 6) (acc @ [\<lparr>s_value = val, s_id = ident\<rparr>]) }
     else Some acc)"
  by pat_completeness auto
termination
  by (relation "measure (\<lambda>(d, i, acc). length d - i)") auto

declare parse_settings_from.simps [simp del]

fun parsePayload :: "Http2Frame \<Rightarrow> bytes \<Rightarrow> (Http2ErrorCode \<times> Http2Frame) option" where
  "parsePayload (DataFrame h d p) data =
    (if hasFlag h kPadded then
       if length data < 1 then Some (FrameSizeError, DataFrame h d p)
       else do {
         pl \<leftarrow> rd data 0;
         if unat pl \<ge> length data then Some (ProtocolError, DataFrame h d pl)
         else do {
           b \<leftarrow> rd_block data 1 (length data - 1 - unat pl);
           Some (NoError, DataFrame h b pl) } }
     else do {
       b \<leftarrow> rd_block data 0 (length data);
       Some (NoError, DataFrame h b p) })"
| "parsePayload (HeadersFrame h dep blk ex w p) data =
    (if hasFlag h kPadded \<and> length data < 1 then Some (FrameSizeError, HeadersFrame h dep blk ex w p)
     else do {
       p' \<leftarrow> (if hasFlag h kPadded then rd data 0 else Some p);
       let off = (if hasFlag h kPadded then 1 else 0);
       if hasFlag h kPriority \<and> length data - off < 5
       then Some (FrameSizeError, HeadersFrame h dep blk ex w p')
       else do {
         dw \<leftarrow> (if hasFlag h kPriority then rd32 data off else Some 0);
         w' \<leftarrow> (if hasFlag h kPriority then rd data (off + 4) else Some w);
         let ex' = (if hasFlag h kPriority then dw AND 0x80000000 \<noteq> 0 else ex);
         let dep' = (if hasFlag h kPriority then dw AND 0x7FFFFFFF else dep);
         let off' = (if hasFlag h kPriority then off + 5 else off);
         let padding = (if hasFlag h kPadded then unat p' else 0);
         if off' + padding > length data
         then Some (ProtocolError, HeadersFrame h dep' blk ex' w' p')
         else do {
           b \<leftarrow> rd_block data off' (length data - off' - padding);
           Some (NoError, HeadersFrame h dep' b ex' w' p') } } })"
| "parsePayload (PriorityFrame h dep ex w) data =
    (if length data \<noteq> 5 then Some (FrameSizeError, PriorityFrame h dep ex w)
     else do {
       dw \<leftarrow> rd32 data 0;
       w' \<leftarrow> rd data 4;
       Some (NoError, PriorityFrame h (dw AND 0x7FFFFFFF) (dw AND 0x80000000 \<noteq> 0) w') })"
| "parsePayload (RstStreamFrame h c) data =
    (if length data \<noteq> 4 then Some (FrameSizeError, RstStreamFrame h c)
     else do { code \<leftarrow> rd32 data 0; Some (NoError, RstStreamFrame h code) })"
| "parsePayload (SettingsFrame h ss) data =
    (if hasFlag h kAck then
       if length data \<noteq> 0 then Some (FrameSizeError, SettingsFrame h ss)
       else Some (NoError, SettingsFrame h ss)
     else if length data mod 6 \<noteq> 0 then Some (FrameSizeError, SettingsFrame h ss)
     else do { ss' \<leftarrow> parse_settings_from data 0 []; Some (NoError, SettingsFrame h ss') })"
| "parsePayload (PushPromiseFrame h sid blk p) data =
    (if hasFlag h kPadded \<and> length data < 1 then Some (FrameSizeError, PushPromiseFrame h sid blk p)
     else do {
       p' \<leftarrow> (if hasFlag h kPadded then rd data 0 else Some p);
       let off = (if hasFlag h kPadded then 1 else 0);
       if length data - off < 4 then Some (FrameSizeError, PushPromiseFrame h sid blk p')
       else do {
         sw \<leftarrow> rd32 data off;
         let sid' = sw AND 0x7FFFFFFF;
         let off' = off + 4;
         let padding = (if hasFlag h kPadded then unat p' else 0);
         if off' + padding > length data then Some (ProtocolError, PushPromiseFrame h sid' blk p')
         else do {
           b \<leftarrow> rd_block data off' (length data - off' - padding);
           Some (NoError, PushPromiseFrame h sid' b p') } } })"
| "parsePayload (PingFrame h d) data =
    (if length data \<noteq> 8 then Some (FrameSizeError, PingFrame h d)
     else do { b \<leftarrow> rd_block data 0 8; Some (NoError, PingFrame h b) })"
| "parsePayload (GoAwayFrame h sid d c) data =
    (if length data < 8 then Some (FrameSizeError, GoAwayFrame h sid d c)
     else do {
       sw \<leftarrow> rd32 data 0;
       code \<leftarrow> rd32 data 4;
       d' \<leftarrow> (if length data > 8 then rd_block data 8 (length data - 8) else Some d);
       Some (NoError, GoAwayFrame h (sw AND 0x7FFFFFFF) d' code) })"
| "parsePayload (WindowUpdateFrame h i) data =
    (if length data \<noteq> 4 then Some (FrameSizeError, WindowUpdateFrame h i)
     else do {
       iw \<leftarrow> rd32 data 0;
       let i' = iw AND 0x7FFFFFFF;
       if i' = 0 then Some (ProtocolError, WindowUpdateFrame h i')
       else Some (NoError, WindowUpdateFrame h i') })"
| "parsePayload (ContinuationFrame h blk) data = do {
     b \<leftarrow> rd_block data 0 (length data);
     Some (NoError, ContinuationFrame h b) }"

section \<open>The frame parser and codec\<close>

text \<open>The frames as their default constructors leave them.\<close>

definition createFrame :: "Http2FrameType \<Rightarrow> Http2Frame option" where
  "createFrame t =
    (let h = default_header\<lparr>h_type := t\<rparr> in
     if t = FT_Data then Some (DataFrame h [] 0)
     else if t = FT_Headers then Some (HeadersFrame h 0 [] False 16 0)
     else if t = FT_Priority then Some (PriorityFrame h 0 False 16)
     else if t = FT_RstStream then Some (RstStreamFrame h NoError)
     else if t = FT_Settings then Some (SettingsFrame h [])
     else if t = FT_PushPromise then Some (PushPromiseFrame h 0 [] 0)
     else if t = FT_Ping then Some (PingFrame h (replicate 8 0))
     else if t = FT_GoAway then Some (GoAwayFrame h 0 [] NoError)
     else if t = FT_WindowUpdate then Some (WindowUpdateFrame h 0)
     else if t = FT_Continuation then Some (ContinuationFrame h [])
     else None)"

definition parseFrame :: "bytes \<Rightarrow> (Http2ErrorCode + Http2Frame) option" where
  "parseFrame data =
    (if length data < kHttp2FrameHeaderLength then Some (Inl FrameSizeError)
     else do {
       h \<leftarrow> Http2FrameHeader_deserialize data;
       if length data < kHttp2FrameHeaderLength + unat (h_length h) then Some (Inl FrameSizeError)
       else case createFrame (h_type h) of
         None \<Rightarrow> Some (Inl ProtocolError)
       | Some f \<Rightarrow> do {
           (e, f') \<leftarrow> parsePayload (set_header h f)
                       (take (unat (h_length h)) (drop kHttp2FrameHeaderLength data));
           if e \<noteq> NoError then Some (Inl e) else Some (Inr f') } })"

definition Http2FrameCodec_encode :: "Http2Frame \<Rightarrow> bytes" where
  "Http2FrameCodec_encode f = serialize f"

definition Http2FrameCodec_decode :: "bytes \<Rightarrow> (Http2ErrorCode + Http2Frame) option" where
  "Http2FrameCodec_decode data = parseFrame data"

section \<open>Memory safety\<close>

lemma deserialize_in_bounds:
  "9 \<le> length b \<Longrightarrow> \<exists>h. Http2FrameHeader_deserialize b = Some h"
  by (auto simp: Http2FrameHeader_deserialize_def rd32_in rd_def)

lemma parse_settings_from_in_bounds:
  "i \<le> length d \<Longrightarrow> (length d - i) mod 6 = 0 \<Longrightarrow> \<exists>ss. parse_settings_from d i acc = Some ss"
proof (induction d i acc rule: parse_settings_from.induct)
  case (1 d i acc)
  show ?case
  proof (cases "i < length d")
    case True
    with "1.prems"(2) have ge: "i + 6 \<le> length d"
      by (metis mod_less diff_diff_cancel le_add_diff_inverse less_diff_conv not_less zero_less_diff
          add.commute nat_less_le)
    then have "(length d - (i + 6)) mod 6 = 0"
      using "1.prems"(2) by (metis diff_diff_left le_mod_geq le_diff_conv2 add_leD1 add.commute)
    with "1.IH" [OF True] ge True show ?thesis
      by (subst parse_settings_from.simps) (simp add: rd16_in rd32_in)
  next
    case False
    then show ?thesis by (subst parse_settings_from.simps) simp
  qed
qed

lemma parsePayload_in_bounds: "parsePayload f d \<noteq> None"
proof (cases f)
  case (SettingsFrame h ss)
  then show ?thesis
    using parse_settings_from_in_bounds [of 0 d "[]"] by auto
qed (auto simp: rd32_in rd_block_in Let_def)

section \<open>Round trip\<close>

text \<open>
  The frames whose serialisation is lossless: the type octet is that of the class, the
  31-bit fields fit, the payload length fits its 24 bits, and a member whose presence flag is
  clear has the value a fresh object has.
\<close>

fun frame_wf :: "Http2Frame \<Rightarrow> bool" where
  "frame_wf (DataFrame h d p) \<longleftrightarrow> h_type h = FT_Data \<and> (hasFlag h kPadded \<or> p = 0)"
| "frame_wf (HeadersFrame h dep blk ex w p) \<longleftrightarrow> h_type h = FT_Headers \<and> dep < 2 ^ 31
     \<and> (hasFlag h kPriority \<or> dep = 0 \<and> \<not> ex \<and> w = 16) \<and> (hasFlag h kPadded \<or> p = 0)"
| "frame_wf (PriorityFrame h dep ex w) \<longleftrightarrow> h_type h = FT_Priority \<and> dep < 2 ^ 31"
| "frame_wf (RstStreamFrame h c) \<longleftrightarrow> h_type h = FT_RstStream"
| "frame_wf (SettingsFrame h ss) \<longleftrightarrow> h_type h = FT_Settings \<and> h_stream_id h = 0
     \<and> (hasFlag h kAck \<longrightarrow> ss = [])"
| "frame_wf (PushPromiseFrame h sid blk p) \<longleftrightarrow> h_type h = FT_PushPromise \<and> sid < 2 ^ 31
     \<and> (hasFlag h kPadded \<or> p = 0)"
| "frame_wf (PingFrame h d) \<longleftrightarrow> h_type h = FT_Ping \<and> h_stream_id h = 0 \<and> length d = 8"
| "frame_wf (GoAwayFrame h sid d c) \<longleftrightarrow> h_type h = FT_GoAway \<and> h_stream_id h = 0 \<and> sid < 2 ^ 31"
| "frame_wf (WindowUpdateFrame h i) \<longleftrightarrow> h_type h = FT_WindowUpdate \<and> i < 2 ^ 31 \<and> i \<noteq> 0"
| "frame_wf (ContinuationFrame h blk) \<longleftrightarrow> h_type h = FT_Continuation"

definition frame_ok :: "Http2Frame \<Rightarrow> bool" where
  "frame_ok f \<longleftrightarrow> frame_wf f \<and> h_stream_id (m_header f) < 2 ^ 31 \<and> payload_length f < 2 ^ 24"

text \<open>The frame with its header's length field as \<open>serialize\<close> writes it.\<close>

definition with_length :: "Http2Frame \<Rightarrow> Http2Frame" where
  "with_length f = set_header ((m_header f)\<lparr>h_length := of_nat (payload_length f)\<rparr>) f"

lemma hasFlag_length [simp]: "hasFlag (h\<lparr>h_length := n\<rparr>) = hasFlag h"
  by (simp add: fun_eq_iff hasFlag_def)

lemma set_header_id [simp]: "set_header (m_header f) f = f" "m_header (set_header h f) = h"
  "set_header h (set_header g f) = set_header h f"
  by (cases f; simp)+

lemma length_header_serialize [simp]: "length (Http2FrameHeader_serialize h) = 9"
  by (simp add: Http2FrameHeader_serialize_def)

lemma header_roundtrip:
  assumes "h_length h < 2 ^ 24" and "h_stream_id h < 2 ^ 31"
  shows "Http2FrameHeader_deserialize (Http2FrameHeader_serialize h @ rest) = Some h"
  using assms by (simp add: Http2FrameHeader_deserialize_def Http2FrameHeader_serialize_def
      rd_def rd32_def be24_def be32_def byte_simps)

lemma pad_bytes_alt: "pad_bytes h p = (if hasFlag h kPadded then replicate (unat p) 0 else [])"
  by (simp add: pad_bytes_def word_gt_0)

lemma of_nat_less_2p24: "n < 2 ^ 24 \<Longrightarrow> (of_nat n :: u32) < 2 ^ 24"
  by (simp add: word_less_nat_alt unat_of_nat)

lemma unat_of_nat_2p24: "n < 2 ^ 24 \<Longrightarrow> unat (of_nat n :: u32) = n"
  by (simp add: unat_of_nat)

lemma parseFrame_serialised:
  assumes h: "h_length h = of_nat (length body)" "length body < 2 ^ 24" "h_stream_id h < 2 ^ 31"
    and c: "createFrame (h_type h) = Some f0"
    and p: "parsePayload (set_header h f0) body = Some (NoError, f)"
  shows "parseFrame (Http2FrameHeader_serialize h @ body @ rest) = Some (Inr f)"
proof -
  have "Http2FrameHeader_deserialize (Http2FrameHeader_serialize h @ body @ rest) = Some h"
    using h of_nat_less_2p24 [OF h(2)] by (intro header_roundtrip) simp_all
  moreover have "unat (h_length h) = length body"
    using h unat_of_nat_2p24 [OF h(2)] by simp
  ultimately show ?thesis
    using c p by (simp add: parseFrame_def kHttp2FrameHeaderLength_def)
qed

lemma dep_word_bits:
  assumes "dep < 2 ^ 31"
  shows "dep_word dep ex AND 0x7FFFFFFF = dep" and "(dep_word dep ex AND 0x80000000 \<noteq> 0) = ex"
proof -
  define t :: u32 where "t = push_bit 31 1"
  define m :: u32 where "m = mask 31"
  have eqs: "0x80000000 = t" "0x7FFFFFFF = m"
    by (simp_all add: t_def m_def mask_eq_exp_minus_1)
  have bt: "bit t n \<longleftrightarrow> n = 31" for n
    unfolding t_def bit_push_bit_iff by (auto simp: bit_1_iff)
  have bm: "bit m n \<longleftrightarrow> n < 31" for n
    unfolding m_def by (auto simp: bit_mask_iff)
  have clear: "bit dep n \<Longrightarrow> n < 31" for n
    using high_bits_clear [OF assms, of n] by fastforce
  show "dep_word dep ex AND 0x7FFFFFFF = dep"
    unfolding dep_word_def eqs by (rule bit_word_eqI) (auto simp: bit_and_iff bit_or_iff bt bm clear)
  have "dep AND t = 0"
    by (rule bit_word_eqI) (auto simp: bit_and_iff bt dest: clear)
  moreover have "(dep OR t) AND t = t"
    by (rule bit_word_eqI) (auto simp: bit_and_iff bit_or_iff bt)
  moreover have "t \<noteq> 0" by (simp add: t_def)
  ultimately show "(dep_word dep ex AND 0x80000000 \<noteq> 0) = ex"
    unfolding dep_word_def eqs by simp
qed

lemma parse_settings_roundtrip:
  "length pre = i \<Longrightarrow>
   parse_settings_from (pre @ concat (map setting_bytes ss)) i acc = Some (acc @ ss)"
proof (induction ss arbitrary: pre i acc)
  case Nil
  then show ?case by (subst parse_settings_from.simps) simp
next
  case (Cons s ss)
  let ?d = "pre @ concat (map setting_bytes (s # ss))"
  let ?q = "concat (map setting_bytes ss)"
  have id: "rd16 ?d i = Some (s_id s)"
    using Cons.prems by (simp add: setting_bytes_def byte_simps)
  have val: "rd32 ?d (i + 2) = Some (s_value s)"
    using rd32_be32 [of "pre @ be16 (s_id s)" "i + 2" "s_value s" ?q] Cons.prems
    by (simp add: setting_bytes_def)
  have eta: "\<lparr>s_value = s_value s, s_id = s_id s\<rparr> = s" by simp
  have "parse_settings_from ((pre @ setting_bytes s) @ ?q) (i + 6)
      (acc @ [\<lparr>s_value = s_value s, s_id = s_id s\<rparr>]) = Some ((acc @ [s]) @ ss)"
    unfolding eta using Cons.prems by (intro Cons.IH) (simp add: setting_bytes_def)
  then show ?case
    using id val Cons.prems by (subst parse_settings_from.simps) (simp add: setting_bytes_def)
qed

lemma rd32_be32_at [byte_simps]:
  "rd32 (be32 w @ q) 0 = Some w" "rd32 (x # be32 w @ q) (Suc 0) = Some w" "rd32 (be32 w) 0 = Some w"
  using rd32_be32 [of "[]" 0 w q] rd32_be32 [of "[x]" 1 w q] rd32_be32 [of "[]" 0 w "[]"] by simp_all

lemma rd32_second_be32 [byte_simps]: "rd32 (be32 v @ be32 w @ q) 4 = Some w"
  using rd32_be32 [of "be32 v" 4 w q] by simp

lemma rd_past_be32 [byte_simps]:
  "rd (be32 w @ x # q) 4 = Some x" "rd (y # be32 w @ x # q) 5 = Some x"
  by (simp_all add: rd_def nth_append nth_Cons_numeral)

text \<open>What \<open>serialize\<close> writes after the header.\<close>

fun frame_body :: "Http2Frame \<Rightarrow> bytes" where
  "frame_body (DataFrame h d p) = pad_len_bytes h p @ d @ pad_bytes h p"
| "frame_body (HeadersFrame h dep blk ex w p) = pad_len_bytes h p
     @ (if hasFlag h kPriority then be32 (dep_word dep ex) @ [w] else []) @ blk @ pad_bytes h p"
| "frame_body (PriorityFrame h dep ex w) = be32 (dep_word dep ex) @ [w]"
| "frame_body (RstStreamFrame h c) = be32 c"
| "frame_body (SettingsFrame h ss) = (if hasFlag h kAck then [] else concat (map setting_bytes ss))"
| "frame_body (PushPromiseFrame h sid blk p) =
     pad_len_bytes h p @ be32 (sid AND 0x7FFFFFFF) @ blk @ pad_bytes h p"
| "frame_body (PingFrame h d) = d"
| "frame_body (GoAwayFrame h sid d c) = be32 (sid AND 0x7FFFFFFF) @ be32 c @ d"
| "frame_body (WindowUpdateFrame h i) = be32 (i AND 0x7FFFFFFF)"
| "frame_body (ContinuationFrame h blk) = blk"

lemma length_settings_bytes [simp]: "length (concat (map setting_bytes ss)) = length ss * 6"
  by (induction ss) (simp_all add: setting_bytes_def)

lemma length_frame_body: "frame_wf f \<Longrightarrow> length (frame_body f) = payload_length f"
  by (cases f) (auto simp: pad_len_bytes_def pad_bytes_alt)

lemma serialize_split:
  "frame_wf f \<Longrightarrow> serialize f = Http2FrameHeader_serialize (m_header (with_length f)) @ frame_body f"
  by (cases f) (simp_all add: with_length_def Http2FrameHeader_serialize_def)

lemma parse_own_body:
  assumes "frame_wf f"
  obtains f0 where "createFrame (h_type (m_header f)) = Some f0"
    and "parsePayload (set_header (m_header f) f0) (frame_body f) = Some (NoError, f)"
proof (cases f)
  case (HeadersFrame h dep blk ex w p)
  show ?thesis
  proof (rule that)
    show "createFrame (h_type (m_header f)) = Some (HeadersFrame (default_header\<lparr>h_type := FT_Headers\<rparr>) 0 [] False 16 0)"
      using assms HeadersFrame by (simp add: createFrame_def h2_enum)
    show "parsePayload (set_header (m_header f) (HeadersFrame (default_header\<lparr>h_type := FT_Headers\<rparr>) 0 [] False 16 0))
        (frame_body f) = Some (NoError, f)"
      using assms HeadersFrame
      by (cases "hasFlag h kPadded"; cases "hasFlag h kPriority")
         (auto simp: pad_len_bytes_def pad_bytes_alt byte_simps dep_word_bits rd_block_in)
  qed
next
  case (SettingsFrame h ss)
  then show ?thesis
    using assms that parse_settings_roundtrip [of "[]" 0 ss "[]"]
    by (simp add: createFrame_def h2_enum)
qed (use assms that in \<open>auto simp: createFrame_def h2_enum pad_len_bytes_def pad_bytes_alt
      byte_simps dep_word_bits rd_block_in Let_def\<close>)

lemma with_length_wf: "frame_wf f \<Longrightarrow> frame_wf (with_length f)"
  "frame_body (with_length f) = frame_body f" "h_type (m_header (with_length f)) = h_type (m_header f)"
  "h_stream_id (m_header (with_length f)) = h_stream_id (m_header f)"
  by (cases f; simp add: with_length_def pad_len_bytes_def pad_bytes_alt)+

lemma frame_roundtrip_raw:
  assumes "frame_ok f"
  shows "parseFrame (serialize f @ rest) = Some (Inr (with_length f))"
proof -
  let ?g = "with_length f"
  from assms have wf: "frame_wf f" and sid: "h_stream_id (m_header f) < 2 ^ 31"
    and len: "payload_length f < 2 ^ 24"
    by (simp_all add: frame_ok_def)
  obtain f0 where f0: "createFrame (h_type (m_header ?g)) = Some f0"
    "parsePayload (set_header (m_header ?g) f0) (frame_body f) = Some (NoError, ?g)"
    using parse_own_body [OF with_length_wf(1) [OF wf]] by (auto simp: with_length_wf)
  have "parseFrame (Http2FrameHeader_serialize (m_header ?g) @ frame_body f @ rest) = Some (Inr ?g)"
    using len sid wf
    by (intro parseFrame_serialised [OF _ _ _ f0])
       (simp_all add: length_frame_body with_length_wf, simp add: with_length_def)
  then show ?thesis by (simp add: serialize_split [OF wf])
qed



section \<open>Parsed frames\<close>

text \<open>
  SETTINGS, PING and GOAWAY are serialised on stream 0 whatever the header says; the parser
  leaves the check of their stream id to the dispatcher.
\<close>

definition on_stream_zero :: "Http2Frame \<Rightarrow> bool" where
  "on_stream_zero f \<longleftrightarrow>
    (frame_type f \<in> {FT_Settings, FT_Ping, FT_GoAway} \<longrightarrow> h_stream_id (m_header f) = 0)"

lemma parse_settings_from_length:
  "parse_settings_from d i acc = Some ss \<Longrightarrow> i \<le> length d \<Longrightarrow> (length d - i) mod 6 = 0 \<Longrightarrow>
   6 * length ss = 6 * length acc + (length d - i)"
proof (induction d i acc rule: parse_settings_from.induct)
  case (1 d i acc)
  show ?case
  proof (cases "i < length d")
    case True
    then obtain ident val where
      r: "rd16 d i = Some ident" "rd32 d (i + 2) = Some val"
        "parse_settings_from d (i + 6) (acc @ [\<lparr>s_value = val, s_id = ident\<rparr>]) = Some ss"
      using "1.prems"(1) by (simp add: parse_settings_from.simps [of d i acc] bind_eq_Some_conv) blast
    have ge: "i + 6 \<le> length d"
      using True "1.prems"(3) by presburger
    have "6 * length ss = 6 * length (acc @ [\<lparr>s_value = val, s_id = ident\<rparr>]) + (length d - (i + 6))"
      using ge "1.prems"(3) by (intro "1.IH" [OF True r]) presburger+
    with ge show ?thesis by simp
  next
    case False
    with "1.prems" show ?thesis by (simp add: parse_settings_from.simps [of d i acc])
  qed
qed

lemma createFrame_cases:
  assumes "createFrame t = Some f0"
  obtains h where "t = FT_Data" "f0 = DataFrame h [] 0"
  | h where "t = FT_Headers" "f0 = HeadersFrame h 0 [] False 16 0"
  | h where "t = FT_Priority" "f0 = PriorityFrame h 0 False 16"
  | h where "t = FT_RstStream" "f0 = RstStreamFrame h NoError"
  | h where "t = FT_Settings" "f0 = SettingsFrame h []"
  | h where "t = FT_PushPromise" "f0 = PushPromiseFrame h 0 [] 0"
  | h where "t = FT_Ping" "f0 = PingFrame h (replicate 8 0)"
  | h where "t = FT_GoAway" "f0 = GoAwayFrame h 0 [] NoError"
  | h where "t = FT_WindowUpdate" "f0 = WindowUpdateFrame h 0"
  | h where "t = FT_Continuation" "f0 = ContinuationFrame h []"
  using assms by (auto simp: createFrame_def Let_def split: if_splits)

lemma error_not_NoError [simp]: "FrameSizeError \<noteq> NoError" "ProtocolError \<noteq> NoError"
  by (simp_all add: h2_enum)

lemma parsed_payload_shape:
  assumes c: "createFrame (h_type h) = Some f0"
    and p: "parsePayload (set_header h f0) d = Some (NoError, f)"
    and z: "on_stream_zero f"
  shows "m_header f = h \<and> frame_wf f \<and> payload_length f = length d"
  using c
proof (cases rule: createFrame_cases)
  case (1 h0) then show ?thesis using p
    by (auto simp: rd_block_def bind_eq_Some_conv split: if_splits)
next
  case (2 h0) then show ?thesis using p
    by (auto simp: rd_block_def bind_eq_Some_conv Let_def split: if_splits simp del: parsePayload.simps(1))
next
  case (3 h0) then show ?thesis using p
    by (auto simp: bind_eq_Some_conv split: if_splits)
next
  case (4 h0) then show ?thesis using p
    by (auto simp: bind_eq_Some_conv split: if_splits)
next
  case (5 h0) then show ?thesis using p z
    by (auto simp: bind_eq_Some_conv on_stream_zero_def frame_type_def split: if_splits
        dest!: parse_settings_from_length)
next
  case (6 h0) then show ?thesis using p
    by (auto simp: rd_block_def bind_eq_Some_conv Let_def split: if_splits)
next
  case (7 h0) then show ?thesis using p z
    by (auto simp: rd_block_def bind_eq_Some_conv on_stream_zero_def frame_type_def split: if_splits)
next
  case (8 h0) then show ?thesis using p z
    by (auto simp: rd_block_def bind_eq_Some_conv on_stream_zero_def frame_type_def split: if_splits)
next
  case (9 h0) then show ?thesis using p
    by (auto simp: bind_eq_Some_conv Let_def split: if_splits)
next
  case (10 h0) then show ?thesis using p
    by (auto simp: rd_block_def bind_eq_Some_conv)
qed

lemma parseFrame_success:
  assumes "parseFrame data = Some (Inr f)"
  obtains h f0 where "9 + unat (h_length h) \<le> length data"
    and "h_length h < 2 ^ 24" and "h_stream_id h < 2 ^ 31"
    and "createFrame (h_type h) = Some f0"
    and "parsePayload (set_header h f0) (take (unat (h_length h)) (drop 9 data)) = Some (NoError, f)"
proof -
  from assms obtain h f0 where
    h: "Http2FrameHeader_deserialize data = Some h" and len: "9 + unat (h_length h) \<le> length data"
    and f0: "createFrame (h_type h) = Some f0"
    and pp: "parsePayload (set_header h f0) (take (unat (h_length h)) (drop 9 data)) = Some (NoError, f)"
    by (auto simp: parseFrame_def kHttp2FrameHeaderLength_def bind_eq_Some_conv
        split: if_splits option.splits)
  from h have "h_length h < 2 ^ 24" "h_stream_id h < 2 ^ 31"
    by (auto simp: Http2FrameHeader_deserialize_def bind_eq_Some_conv)
  with that len f0 pp show thesis by blast
qed

lemma parsed_frame_ok:
  assumes "parseFrame data = Some (Inr f)" and "on_stream_zero f"
  shows "frame_ok f \<and> with_length f = f \<and> 9 + payload_length f \<le> length data"
proof -
  from assms(1) obtain h f0 where len: "9 + unat (h_length h) \<le> length data"
    and b: "h_length h < 2 ^ 24" "h_stream_id h < 2 ^ 31" and f0: "createFrame (h_type h) = Some f0"
    and pp: "parsePayload (set_header h f0) (take (unat (h_length h)) (drop 9 data)) = Some (NoError, f)"
    by (rule parseFrame_success)
  from parsed_payload_shape [OF f0 pp assms(2)] len
  have s: "m_header f = h" "frame_wf f" "payload_length f = unat (h_length h)" by simp_all
  moreover have "unat (h_length h) < 2 ^ 24"
    using b(1) by (simp add: word_less_nat_alt)
  moreover have "h\<lparr>h_length := h_length h\<rparr> = h" by simp
  ultimately show ?thesis
    using b len by (simp add: frame_ok_def with_length_def)
       (metis set_header_id(1))
qed

lemma parsePayload_codes:
  assumes "parsePayload f d = Some (e, g)"
  shows "e = NoError \<or> e = FrameSizeError \<or> e = ProtocolError"
  using assms
proof (cases f)
  case (HeadersFrame h dep blk ex w p)
  then show ?thesis using assms
    by (auto simp: bind_eq_Some_conv Let_def split: if_split_asm)
qed (auto simp: bind_eq_Some_conv Let_def split: if_split_asm)

text \<open>
  C15. Memory safety and totality of the parser: whatever the bytes, \<open>parseFrame\<close> reads only
  inside its buffer and returns a frame or one of the two error codes FRAME_SIZE_ERROR and
  PROTOCOL_ERROR; buffers shorter than the header, or than the header's length announces, are
  FRAME_SIZE_ERROR.
\<close>

theorem parseFrame_safe:
  "if length data < kHttp2FrameHeaderLength then parseFrame data = Some (Inl FrameSizeError)
   else \<exists>h. Http2FrameHeader_deserialize data = Some h
     \<and> (if length data < kHttp2FrameHeaderLength + unat (h_length h) then parseFrame data = Some (Inl FrameSizeError)
        else (\<exists>f. parseFrame data = Some (Inr f)) \<or> parseFrame data = Some (Inl FrameSizeError)
          \<or> parseFrame data = Some (Inl ProtocolError))"
proof (cases "length data < 9")
  case True
  then show ?thesis by (simp add: parseFrame_def kHttp2FrameHeaderLength_def)
next
  case False
  then obtain h where h: "Http2FrameHeader_deserialize data = Some h"
    using deserialize_in_bounds by (meson not_less)
  show ?thesis
  proof (cases "createFrame (h_type h)")
    case None
    with False h show ?thesis by (simp add: parseFrame_def kHttp2FrameHeaderLength_def)
  next
    case (Some f0)
    obtain e g where r: "parsePayload (set_header h f0) (take (unat (h_length h)) (drop 9 data)) = Some (e, g)"
      using parsePayload_in_bounds by (metis option.collapse surj_pair)
    from parsePayload_codes [OF r] False h Some r show ?thesis
      by (auto simp: parseFrame_def kHttp2FrameHeaderLength_def)
  qed
qed

text \<open>
  Re-encoding a parsed frame: if \<open>parseFrame\<close> accepts a buffer and returns \<open>f\<close> (on
  stream 0 where the class requires it), the header's length field is the payload size, the frame
  lies inside the buffer, and parsing the re-serialised frame returns \<open>f\<close> again.
\<close>

theorem parse_serialize_parse:
  assumes "parseFrame data = Some (Inr f)" and "on_stream_zero f"
  shows "parseFrame (serialize f @ rest) = Some (Inr f)
    \<and> unat (h_length (m_header f)) = payload_length f \<and> 9 + payload_length f \<le> length data"
proof -
  from parsed_frame_ok [OF assms] have ok: "frame_ok f" "with_length f = f" and
    len: "9 + payload_length f \<le> length data" by simp_all
  have "h_length (m_header (with_length f)) = of_nat (payload_length f)"
    by (simp add: with_length_def)
  then have "unat (h_length (m_header f)) = payload_length f"
    using ok by (simp add: frame_ok_def unat_of_nat_2p24)
  with frame_roundtrip_raw [OF ok(1), of rest] ok(2) len show ?thesis by simp
qed

theorem parse_serialize_parse_witness:
  "parseFrame [0, 0, 4, 8, 0, 0x80, 0, 0, 3, 0x80, 0, 1, 0, 99]
     = Some (Inr (WindowUpdateFrame \<lparr>h_length = 4, h_stream_id = 3, h_type = 8, h_flags = 0\<rparr> 256))
   \<and> parseFrame (serialize (WindowUpdateFrame \<lparr>h_length = 4, h_stream_id = 3, h_type = 8, h_flags = 0\<rparr> 256) @ [7])
     = Some (Inr (WindowUpdateFrame \<lparr>h_length = 4, h_stream_id = 3, h_type = 8, h_flags = 0\<rparr> 256))"
proof -
  let ?d = "[0, 0, 4, 8, 0, 0x80, 0, 0, 3, 0x80, 0, 1, 0, 99] :: bytes"
  let ?f = "WindowUpdateFrame \<lparr>h_length = 4, h_stream_id = 3, h_type = 8, h_flags = 0\<rparr> 256"
  have p: "parseFrame ?d = Some (Inr ?f)"
    by (simp add: parseFrame_def kHttp2FrameHeaderLength_def Http2FrameHeader_deserialize_def rd_def
        rd32_def ld24_def ld32_def createFrame_def h2_enum)
  have z: "on_stream_zero ?f"
    by (simp add: on_stream_zero_def frame_type_def h2_enum)
  show ?thesis
    using p parse_serialize_parse [OF p z, of "[7]"] by simp
qed

section \<open>Frames as a byte codec\<close>

text \<open>Taking one frame off the front of a receive buffer.\<close>

definition decode_next :: "bytes \<Rightarrow> Http2ErrorCode + (Http2Frame \<times> bytes)" where
  "decode_next d = (case parseFrame d of
     Some (Inr f) \<Rightarrow> Inr (f, drop (kHttp2FrameHeaderLength + payload_length f) d)
   | Some (Inl e) \<Rightarrow> Inl e
   | None \<Rightarrow> Inl InternalError)"

definition frame_final :: "Http2Frame \<Rightarrow> bool" where
  "frame_final f \<longleftrightarrow> frame_ok f \<and> with_length f = f"

lemma length_serialize: "frame_wf f \<Longrightarrow> length (serialize f) = 9 + payload_length f"
  by (simp add: serialize_split length_frame_body)

interpretation frame_codec: byte_codec serialize decode_next frame_final
  by unfold_locales
     (simp add: decode_next_def frame_final_def frame_roundtrip_raw length_serialize frame_ok_def
        kHttp2FrameHeaderLength_def)

text \<open>
  Framing is unambiguous: two sequences of frames that serialise to the same byte stream
  are the same sequence.
\<close>

theorem frame_stream_unambiguous:
  assumes "list_all frame_final fs" and "list_all frame_final gs"
    and "concat (map serialize fs) = concat (map serialize gs)"
  shows "fs = gs"
proof (rule frame_codec.enc_concat_inj [OF assms(1,2) _ assms(3)])
  fix f assume "frame_final f"
  then have "length (serialize f) \<noteq> 0"
    by (simp add: frame_final_def frame_ok_def length_serialize)
  then show "serialize f \<noteq> []" by simp
qed

theorem frame_stream_unambiguous_witness:
  "list_all frame_final [RstStreamFrame \<lparr>h_length = 4, h_stream_id = 1, h_type = 3, h_flags = 0\<rparr> 8]
   \<and> [RstStreamFrame \<lparr>h_length = 4, h_stream_id = 1, h_type = 3, h_flags = 0\<rparr> 8]
     = [RstStreamFrame \<lparr>h_length = 4, h_stream_id = 1, h_type = 3, h_flags = 0\<rparr> 8]"
proof -
  let ?fs = "[RstStreamFrame \<lparr>h_length = 4, h_stream_id = 1, h_type = 3, h_flags = 0\<rparr> 8]"
  have "list_all frame_final ?fs"
    by (simp add: frame_final_def frame_ok_def with_length_def h2_enum)
  then show ?thesis
    using frame_stream_unambiguous [of ?fs ?fs] by simp
qed

end
