(* ===== verification/H2_Dispatch.thy ===== *)
theory H2_Dispatch
  imports H2_Frame
begin

text \<open>
  \<open>Http2FrameDispatcher\<close> of \<^verbatim>\<open>galay-http2/kernel/frame_dispacher.cc\<close>: the state machine that
  decides, for every received frame, whether it is delivered to its stream, updates a window, or is
  answered with RST_STREAM or GOAWAY. \<open>dispatch\<close> returns the result and the updated connection state,
  which the code mutates in place. A dereferenced frame pointer (\<open>asHeaders\<close>, \<open>asGoAway\<close>, \<dots>) is
  null when the frame is of another type.
\<close>

datatype H2DispatchActionType =
  DeliverToStream | SendGoaway | SendRstStream | AckSettings | AckPing | UpdateWindow | Ignore

datatype H2DispatchErrorScope = ScopeNone | ScopeConnection | ScopeStream

record H2DispatchAction =
  a_type :: H2DispatchActionType
  a_stream_id :: u32
  a_error_code :: Http2ErrorCode

record H2DispatchResult =
  r_actions :: "H2DispatchAction list"
  r_error_code :: Http2ErrorCode
  r_error_scope :: H2DispatchErrorScope
  r_ok :: bool

datatype H2StreamLifecycleState =
  LcIdle | LcReservedLocal | LcReservedRemote | LcOpen | LcHalfClosedLocal | LcHalfClosedRemote | LcClosed

record H2DispatcherConnectionState =
  ds_streams :: "u32 \<rightharpoonup> H2StreamLifecycleState"
  ds_last_peer_stream_id :: u32
  ds_goaway_last_stream_id :: u32
  ds_continuation_stream_id :: u32
  ds_expecting_continuation :: bool
  ds_goaway_received :: bool

definition new_dispatcher :: H2DispatcherConnectionState where
  "new_dispatcher = \<lparr>ds_streams = Map.empty, ds_last_peer_stream_id = 0, ds_goaway_last_stream_id = 0,
     ds_continuation_stream_id = 0, ds_expecting_continuation = False, ds_goaway_received = False\<rparr>"

definition empty_result :: H2DispatchResult where
  "empty_result = \<lparr>r_actions = [], r_error_code = NoError, r_error_scope = ScopeNone, r_ok = True\<rparr>"

definition one_action :: "H2DispatchActionType \<Rightarrow> u32 \<Rightarrow> H2DispatchResult" where
  "one_action ty sid =
    empty_result\<lparr>r_actions := [\<lparr>a_type = ty, a_stream_id = sid, a_error_code = NoError\<rparr>]\<rparr>"

definition connectionError :: "Http2ErrorCode \<Rightarrow> H2DispatchResult" where
  "connectionError code = \<lparr>r_actions = [\<lparr>a_type = SendGoaway, a_stream_id = 0, a_error_code = code\<rparr>],
     r_error_code = code, r_error_scope = ScopeConnection, r_ok = False\<rparr>"

definition streamError :: "u32 \<Rightarrow> Http2ErrorCode \<Rightarrow> H2DispatchResult" where
  "streamError sid code = \<lparr>r_actions = [\<lparr>a_type = SendRstStream, a_stream_id = sid, a_error_code = code\<rparr>],
     r_error_code = code, r_error_scope = ScopeStream, r_ok = False\<rparr>"

definition isHeaders :: "Http2Frame \<Rightarrow> bool" where "isHeaders f \<longleftrightarrow> frame_type f = FT_Headers"
definition isData :: "Http2Frame \<Rightarrow> bool" where "isData f \<longleftrightarrow> frame_type f = FT_Data"
definition isContinuation :: "Http2Frame \<Rightarrow> bool" where "isContinuation f \<longleftrightarrow> frame_type f = FT_Continuation"

definition requiresNonZeroStream :: "Http2Frame \<Rightarrow> bool" where
  "requiresNonZeroStream f \<longleftrightarrow> isData f \<or> isHeaders f \<or> frame_type f = FT_Priority
     \<or> frame_type f = FT_RstStream \<or> isContinuation f"

definition requiresZeroStream :: "Http2Frame \<Rightarrow> bool" where
  "requiresZeroStream f \<longleftrightarrow> frame_type f = FT_Settings \<or> frame_type f = FT_Ping \<or> frame_type f = FT_GoAway"

definition isStreamFrame :: "Http2Frame \<Rightarrow> bool" where
  "isStreamFrame f \<longleftrightarrow> requiresNonZeroStream f \<or> frame_type f = FT_PushPromise"

text \<open>\<open>try_emplace\<close>: the state of a stream, Idle when it is new.\<close>

definition streamState :: "H2DispatcherConnectionState \<Rightarrow> u32 \<Rightarrow> H2StreamLifecycleState" where
  "streamState s sid = (case ds_streams s sid of None \<Rightarrow> LcIdle | Some lc \<Rightarrow> lc)"

definition set_stream :: "u32 \<Rightarrow> H2StreamLifecycleState \<Rightarrow> H2DispatcherConnectionState \<Rightarrow> H2DispatcherConnectionState" where
  "set_stream sid lc s = s\<lparr>ds_streams := (ds_streams s)(sid \<mapsto> lc)\<rparr>"

definition isRemoteClosed :: "H2StreamLifecycleState \<Rightarrow> bool" where
  "isRemoteClosed lc \<longleftrightarrow> lc = LcHalfClosedRemote \<or> lc = LcClosed"

fun markRemoteEndStream :: "H2StreamLifecycleState \<Rightarrow> H2StreamLifecycleState" where
  "markRemoteEndStream LcIdle = LcHalfClosedRemote"
| "markRemoteEndStream LcOpen = LcHalfClosedRemote"
| "markRemoteEndStream LcHalfClosedLocal = LcClosed"
| "markRemoteEndStream LcReservedLocal = LcReservedLocal"
| "markRemoteEndStream LcReservedRemote = LcReservedRemote"
| "markRemoteEndStream LcHalfClosedRemote = LcHalfClosedRemote"
| "markRemoteEndStream LcClosed = LcClosed"

definition canReceiveData :: "H2StreamLifecycleState \<Rightarrow> bool" where
  "canReceiveData lc \<longleftrightarrow> lc = LcOpen \<or> lc = LcHalfClosedLocal"

definition isNewStreamRejectedByGoaway :: "Http2Frame \<Rightarrow> H2DispatcherConnectionState \<Rightarrow> u32 \<Rightarrow> bool" where
  "isNewStreamRejectedByGoaway f s sid \<longleftrightarrow>
     ds_goaway_received s \<and> isHeaders f \<and> \<not> sid \<le> ds_goaway_last_stream_id s \<and> ds_streams s sid = None"

definition set_continuation :: "bool \<Rightarrow> u32 \<Rightarrow> H2DispatcherConnectionState \<Rightarrow> H2DispatcherConnectionState" where
  "set_continuation expecting sid s =
    s\<lparr>ds_expecting_continuation := expecting, ds_continuation_stream_id := sid\<rparr>"

definition dispatch_headers ::
  "Http2Frame \<Rightarrow> H2DispatcherConnectionState \<Rightarrow> H2DispatchResult \<times> H2DispatcherConnectionState" where
  "dispatch_headers f s =
    (let sid = streamId f; lc = streamState s sid in
     if isRemoteClosed lc then (streamError sid ProtocolError, set_stream sid lc s)
     else
       let (lc1, s1) =
         (if lc = LcIdle then
            (LcOpen, if sid > ds_last_peer_stream_id s then s\<lparr>ds_last_peer_stream_id := sid\<rparr> else s)
          else (lc, s));
         lc2 = (if isEndStream f then markRemoteEndStream lc1 else lc1);
         s2 = set_stream sid lc2 s1;
         s3 = (if \<not> isEndHeaders f then set_continuation True sid s2 else set_continuation False 0 s2)
       in (one_action DeliverToStream sid, s3))"

definition dispatch_data ::
  "Http2Frame \<Rightarrow> H2DispatcherConnectionState \<Rightarrow> H2DispatchResult \<times> H2DispatcherConnectionState" where
  "dispatch_data f s =
    (let sid = streamId f in
     case ds_streams s sid of
       None \<Rightarrow> (streamError sid ProtocolError, s)
     | Some lc \<Rightarrow>
         if \<not> canReceiveData lc then (streamError sid ProtocolError, s)
         else (one_action DeliverToStream sid,
               if isEndStream f then set_stream sid (markRemoteEndStream lc) s else s))"

definition dispatch_continuation ::
  "Http2Frame \<Rightarrow> H2DispatcherConnectionState \<Rightarrow> H2DispatchResult \<times> H2DispatcherConnectionState" where
  "dispatch_continuation f s =
    (if \<not> ds_expecting_continuation s \<or> streamId f \<noteq> ds_continuation_stream_id s
     then (connectionError ProtocolError, s)
     else (one_action DeliverToStream (streamId f),
           if isEndHeaders f then set_continuation False 0 s else s))"

definition dispatch_goaway ::
  "Http2Frame \<Rightarrow> H2DispatcherConnectionState \<Rightarrow> H2DispatchResult \<times> H2DispatcherConnectionState" where
  "dispatch_goaway f s =
    (empty_result, (case f of
       GoAwayFrame _ last_id _ _ \<Rightarrow> s\<lparr>ds_goaway_received := True, ds_goaway_last_stream_id := last_id\<rparr>
     | _ \<Rightarrow> s\<lparr>ds_goaway_received := True\<rparr>))"

definition dispatch_window_update ::
  "Http2Frame \<Rightarrow> H2DispatcherConnectionState \<Rightarrow> H2DispatchResult \<times> H2DispatcherConnectionState" where
  "dispatch_window_update f s =
    (let sid = streamId f;
         zero = (case f of WindowUpdateFrame _ increment \<Rightarrow> increment = 0 | _ \<Rightarrow> False) in
     if zero then
       if sid = 0 then (connectionError ProtocolError, s) else (streamError sid ProtocolError, s)
     else (one_action UpdateWindow sid, s))"

text \<open>The branches on the frame type, behind the guards of \<open>dispatch\<close>.\<close>

definition dispatch_by_type ::
  "Http2Frame \<Rightarrow> H2DispatcherConnectionState \<Rightarrow> H2DispatchResult \<times> H2DispatcherConnectionState" where
  "dispatch_by_type f s =
    (let sid = streamId f in
     if isHeaders f then dispatch_headers f s
     else if isData f then dispatch_data f s
     else if isContinuation f then dispatch_continuation f s
     else if frame_type f = FT_RstStream then (one_action DeliverToStream sid, set_stream sid LcClosed s)
     else if frame_type f = FT_GoAway then dispatch_goaway f s
     else if frame_type f = FT_WindowUpdate then dispatch_window_update f s
     else if isStreamFrame f then (one_action DeliverToStream sid, s)
     else (empty_result, s))"

definition dispatch ::
  "Http2Frame \<Rightarrow> H2DispatcherConnectionState \<Rightarrow> H2DispatchResult \<times> H2DispatcherConnectionState" where
  "dispatch f s =
    (let sid = streamId f in
     if requiresNonZeroStream f \<and> sid = 0 then (connectionError ProtocolError, s)
     else if requiresZeroStream f \<and> sid \<noteq> 0 then (connectionError ProtocolError, s)
     else if ds_expecting_continuation s \<and> (\<not> isContinuation f \<or> sid \<noteq> ds_continuation_stream_id s)
       then (connectionError ProtocolError, s)
     else if isNewStreamRejectedByGoaway f s sid then (streamError sid ProtocolError, s)
     else dispatch_by_type f s)"

section \<open>The outcomes of a step\<close>

lemmas result_defs = connectionError_def streamError_def one_action_def empty_result_def

lemma set_stream_same: "isRemoteClosed (streamState s sid) \<Longrightarrow> set_stream sid (streamState s sid) s = s"
  by (cases "ds_streams s sid") (auto simp: set_stream_def streamState_def isRemoteClosed_def fun_upd_idem_iff)

text \<open>The state after an accepted HEADERS frame.\<close>

definition headers_lifecycle :: "Http2Frame \<Rightarrow> H2StreamLifecycleState \<Rightarrow> H2StreamLifecycleState" where
  "headers_lifecycle f lc =
    (let lc1 = (if lc = LcIdle then LcOpen else lc) in if isEndStream f then markRemoteEndStream lc1 else lc1)"

definition headers_state :: "Http2Frame \<Rightarrow> H2DispatcherConnectionState \<Rightarrow> H2DispatcherConnectionState" where
  "headers_state f s = s\<lparr>
     ds_streams := (ds_streams s)(streamId f \<mapsto> headers_lifecycle f (streamState s (streamId f))),
     ds_last_peer_stream_id := (if streamState s (streamId f) = LcIdle
        then max (ds_last_peer_stream_id s) (streamId f) else ds_last_peer_stream_id s),
     ds_continuation_stream_id := (if isEndHeaders f then 0 else streamId f),
     ds_expecting_continuation := \<not> isEndHeaders f\<rparr>"

lemma dispatch_headers_cases:
  "dispatch_headers f s = (if isRemoteClosed (streamState s (streamId f)) then (streamError (streamId f) ProtocolError, s)
     else (one_action DeliverToStream (streamId f), headers_state f s))"
proof (cases "isRemoteClosed (streamState s (streamId f))")
  case True
  then show ?thesis
    by (simp add: dispatch_headers_def Let_def set_stream_same)
next
  case False
  then show ?thesis
    by (auto simp: dispatch_headers_def Let_def headers_state_def headers_lifecycle_def set_stream_def
        set_continuation_def max_def)
qed

text \<open>Every call of \<open>dispatch\<close> is one of these: an error that changes nothing, a frame that moves the
  state of its stream or of the connection, or a frame that changes nothing.\<close>

inductive dispatch_step :: "H2DispatcherConnectionState \<Rightarrow> Http2Frame \<Rightarrow> H2DispatchResult \<Rightarrow> H2DispatcherConnectionState \<Rightarrow> bool" where
  conn_error: "dispatch_step s f (connectionError ProtocolError) s"
| stream_error: "streamId f \<noteq> 0 \<Longrightarrow> dispatch_step s f (streamError (streamId f) ProtocolError) s"
| headers: "isHeaders f \<Longrightarrow> streamId f \<noteq> 0 \<Longrightarrow> \<not> ds_expecting_continuation s \<Longrightarrow>
    \<not> isRemoteClosed (streamState s (streamId f)) \<Longrightarrow>
    dispatch_step s f (one_action DeliverToStream (streamId f)) (headers_state f s)"
| data: "isData f \<Longrightarrow> streamId f \<noteq> 0 \<Longrightarrow> \<not> ds_expecting_continuation s \<Longrightarrow>
    ds_streams s (streamId f) = Some lc \<Longrightarrow> canReceiveData lc \<Longrightarrow>
    dispatch_step s f (one_action DeliverToStream (streamId f))
      (if isEndStream f then set_stream (streamId f) (markRemoteEndStream lc) s else s)"
| continuation: "isContinuation f \<Longrightarrow> streamId f \<noteq> 0 \<Longrightarrow> ds_expecting_continuation s \<Longrightarrow>
    streamId f = ds_continuation_stream_id s \<Longrightarrow>
    dispatch_step s f (one_action DeliverToStream (streamId f))
      (if isEndHeaders f then set_continuation False 0 s else s)"
| rst: "frame_type f = FT_RstStream \<Longrightarrow> streamId f \<noteq> 0 \<Longrightarrow> \<not> ds_expecting_continuation s \<Longrightarrow>
    dispatch_step s f (one_action DeliverToStream (streamId f)) (set_stream (streamId f) LcClosed s)"
| goaway: "frame_type f = FT_GoAway \<Longrightarrow> \<not> ds_expecting_continuation s \<Longrightarrow>
    dispatch_step s f empty_result (snd (dispatch_goaway f s))"
| other: "frame_type f \<notin> {FT_Headers, FT_Data, FT_Continuation, FT_RstStream, FT_GoAway} \<Longrightarrow>
    \<not> ds_expecting_continuation s \<Longrightarrow> r \<in> {empty_result, one_action DeliverToStream (streamId f), one_action UpdateWindow (streamId f)} \<Longrightarrow>
    dispatch_step s f r s"

lemma ft_distinct:
  "FT_Headers \<noteq> FT_Continuation" "FT_Data \<noteq> FT_Continuation" "FT_Headers \<noteq> FT_Data"
  "FT_RstStream \<noteq> FT_Continuation" "FT_RstStream \<noteq> FT_Headers" "FT_RstStream \<noteq> FT_Data"
  "FT_GoAway \<noteq> FT_Continuation" "FT_GoAway \<noteq> FT_Headers" "FT_GoAway \<noteq> FT_Data" "FT_GoAway \<noteq> FT_RstStream"
  "FT_WindowUpdate \<noteq> FT_Continuation" "FT_WindowUpdate \<noteq> FT_Headers" "FT_WindowUpdate \<noteq> FT_Data"
  "FT_WindowUpdate \<noteq> FT_RstStream" "FT_WindowUpdate \<noteq> FT_GoAway"
  by (simp_all add: h2_enum)

lemma step_headers:
  "isHeaders f \<Longrightarrow> streamId f \<noteq> 0 \<Longrightarrow> \<not> ds_expecting_continuation s \<Longrightarrow> dispatch_headers f s = (r, s') \<Longrightarrow>
   dispatch_step s f r s'"
  using dispatch_step.headers [of f s] dispatch_step.stream_error [of f s]
  by (simp add: dispatch_headers_cases split: if_splits)

lemma step_data:
  "isData f \<Longrightarrow> streamId f \<noteq> 0 \<Longrightarrow> \<not> ds_expecting_continuation s \<Longrightarrow> dispatch_data f s = (r, s') \<Longrightarrow>
   dispatch_step s f r s'"
  using dispatch_step.data [of f s] dispatch_step.stream_error [of f s]
  by (cases "ds_streams s (streamId f)") (auto simp: dispatch_data_def Let_def split: if_splits)

lemma step_continuation:
  "isContinuation f \<Longrightarrow> streamId f \<noteq> 0 \<Longrightarrow> dispatch_continuation f s = (r, s') \<Longrightarrow> dispatch_step s f r s'"
  using dispatch_step.continuation [of f s] dispatch_step.conn_error [of s f]
  by (auto simp: dispatch_continuation_def split: if_splits)

lemma step_window_update:
  "frame_type f = FT_WindowUpdate \<Longrightarrow> \<not> ds_expecting_continuation s \<Longrightarrow> dispatch_window_update f s = (r, s') \<Longrightarrow>
   dispatch_step s f r s'"
  using dispatch_step.other [of f s] dispatch_step.conn_error [of s f] dispatch_step.stream_error [of f s]
  by (auto simp: dispatch_window_update_def Let_def ft_distinct split: if_splits)

lemma step_goaway:
  "frame_type f = FT_GoAway \<Longrightarrow> \<not> ds_expecting_continuation s \<Longrightarrow> dispatch_goaway f s = (r, s') \<Longrightarrow>
   dispatch_step s f r s'"
  using dispatch_step.goaway [of f s] by (auto simp: dispatch_goaway_def)

lemma dispatch_is_step:
  assumes d: "dispatch f s = (r, s')"
  shows "dispatch_step s f r s'"
proof -
  let ?sid = "streamId f"
  note kinds = isHeaders_def isData_def isContinuation_def requiresNonZeroStream_def
  show ?thesis
  proof (cases "requiresNonZeroStream f \<and> ?sid = 0 \<or> requiresZeroStream f \<and> ?sid \<noteq> 0
      \<or> ds_expecting_continuation s \<and> (\<not> isContinuation f \<or> ?sid \<noteq> ds_continuation_stream_id s)")
    case True
    then have "r = connectionError ProtocolError" "s' = s"
      using d unfolding dispatch_def Let_def by (auto split: if_splits)
    then show ?thesis
      by (simp add: dispatch_step.conn_error)
  next
    case False
    then have nz: "requiresNonZeroStream f \<Longrightarrow> ?sid \<noteq> 0"
      and exp: "\<not> isContinuation f \<Longrightarrow> \<not> ds_expecting_continuation s"
      by blast+
    show ?thesis
    proof (cases "isNewStreamRejectedByGoaway f s ?sid")
      case True
      then have "r = streamError ?sid ProtocolError" "s' = s" "?sid \<noteq> 0"
        using d False nz unfolding dispatch_def Let_def
        by (auto simp: isNewStreamRejectedByGoaway_def requiresNonZeroStream_def)
      then show ?thesis
        by (simp add: dispatch_step.stream_error)
    next
      case accepted: False
      have eq: "(r, s') = dispatch_by_type f s"
        using d False accepted unfolding dispatch_def Let_def by auto
      consider "isHeaders f" | "isData f" | "isContinuation f" | "frame_type f = FT_RstStream"
        | "frame_type f = FT_GoAway" | "frame_type f = FT_WindowUpdate"
        | "frame_type f \<notin> {FT_Headers, FT_Data, FT_Continuation, FT_RstStream, FT_GoAway, FT_WindowUpdate}"
        unfolding isHeaders_def isData_def isContinuation_def by blast
      then show ?thesis
      proof cases
        case 1
        then have "\<not> isContinuation f" "requiresNonZeroStream f"
          by (simp_all add: kinds ft_distinct)
        then show ?thesis
          using step_headers [OF 1 nz exp] eq 1 by (simp add: dispatch_by_type_def)
      next
        case 2
        then have "\<not> isContinuation f" "requiresNonZeroStream f" "\<not> isHeaders f"
          by (simp_all add: kinds ft_distinct ft_distinct [symmetric])
        then show ?thesis
          using step_data [OF 2 nz exp] eq 2 by (simp add: dispatch_by_type_def)
      next
        case 3
        then have "requiresNonZeroStream f" "\<not> isHeaders f" "\<not> isData f"
          by (simp_all add: kinds ft_distinct [symmetric])
        then show ?thesis
          using step_continuation [OF 3 nz] eq 3 by (simp add: dispatch_by_type_def)
      next
        case 4
        then have "\<not> isContinuation f" "requiresNonZeroStream f" "\<not> isHeaders f" "\<not> isData f"
          by (simp_all add: kinds ft_distinct)
        then show ?thesis
          using dispatch_step.rst [OF 4 nz exp] eq 4 by (simp add: dispatch_by_type_def Let_def)
      next
        case 5
        then have "\<not> isContinuation f" "\<not> isHeaders f" "\<not> isData f"
          by (simp_all add: kinds ft_distinct)
        then show ?thesis
          using step_goaway [OF 5 exp] eq 5 by (simp add: dispatch_by_type_def ft_distinct)
      next
        case 6
        then have "\<not> isContinuation f" "\<not> isHeaders f" "\<not> isData f"
          by (simp_all add: kinds ft_distinct)
        then show ?thesis
          using step_window_update [OF 6 exp] eq 6 by (simp add: dispatch_by_type_def ft_distinct)
      next
        case 7
        then have "\<not> isContinuation f" "\<not> isHeaders f" "\<not> isData f"
          by (simp_all add: kinds)
        then show ?thesis
          using dispatch_step.other [of f s r] eq 7 exp by (simp add: dispatch_by_type_def Let_def split: if_splits)
      qed
    qed
  qed
qed

section \<open>Invariant\<close>

definition dispatch_ok :: "H2DispatcherConnectionState \<Rightarrow> bool" where
  "dispatch_ok s \<longleftrightarrow>
     ds_streams s 0 = None
     \<and> (\<forall>sid lc. ds_streams s sid = Some lc \<longrightarrow> lc \<in> {LcOpen, LcHalfClosedRemote, LcClosed}
          \<and> (lc \<noteq> LcClosed \<longrightarrow> sid \<le> ds_last_peer_stream_id s))
     \<and> (if ds_expecting_continuation s
        then ds_continuation_stream_id s \<noteq> 0 \<and> ds_streams s (ds_continuation_stream_id s) \<in> {Some LcOpen, Some LcHalfClosedRemote}
        else ds_continuation_stream_id s = 0)"

text \<open>How far a stream has come. A step never moves a stream backwards.\<close>

fun progress :: "H2StreamLifecycleState option \<Rightarrow> nat" where
  "progress None = 0"
| "progress (Some LcClosed) = 3"
| "progress (Some LcHalfClosedRemote) = 2"
| "progress _ = 1"

lemma dispatch_goaway_fields:
  "ds_streams (snd (dispatch_goaway f s)) = ds_streams s"
  "ds_last_peer_stream_id (snd (dispatch_goaway f s)) = ds_last_peer_stream_id s"
  "ds_continuation_stream_id (snd (dispatch_goaway f s)) = ds_continuation_stream_id s"
  "ds_expecting_continuation (snd (dispatch_goaway f s)) = ds_expecting_continuation s"
  by (simp_all add: dispatch_goaway_def split: Http2Frame.split)

lemma headers_lifecycle_cases:
  assumes "dispatch_ok s" "\<not> isRemoteClosed (streamState s sid)"
  shows "headers_lifecycle f (streamState s sid) = (if isEndStream f then LcHalfClosedRemote else LcOpen)"
    "ds_streams s sid = None \<or> ds_streams s sid = Some LcOpen"
proof -
  show *: "ds_streams s sid = None \<or> ds_streams s sid = Some LcOpen"
    using assms by (cases "ds_streams s sid") (auto simp: dispatch_ok_def streamState_def isRemoteClosed_def)
  then show "headers_lifecycle f (streamState s sid) = (if isEndStream f then LcHalfClosedRemote else LcOpen)"
    by (auto simp: headers_lifecycle_def streamState_def)
qed

lemma dispatch_step_ok:
  assumes "dispatch_step s f r s'" and ok: "dispatch_ok s"
  shows "dispatch_ok s'"
  using assms(1)
proof (cases rule: dispatch_step.cases)
  case headers
  note h = headers_lifecycle_cases [OF ok headers(6)]
  have "streamState s (streamId f) \<noteq> LcIdle \<Longrightarrow> streamId f \<le> ds_last_peer_stream_id s"
    using h(2) ok by (auto simp: streamState_def dispatch_ok_def)
  then show ?thesis
    using ok headers h by (auto simp: dispatch_ok_def headers_state_def max.coboundedI1 split: if_splits)
qed (use ok in \<open>auto simp: dispatch_ok_def dispatch_goaway_fields set_stream_def set_continuation_def canReceiveData_def split: if_splits\<close>)

lemma dispatch_step_progress:
  assumes "dispatch_step s f r s'" and ok: "dispatch_ok s"
  shows "progress (ds_streams s sid) \<le> progress (ds_streams s' sid)"
  using assms(1)
proof (cases rule: dispatch_step.cases)
  case headers
  note h = headers_lifecycle_cases [OF ok headers(6)]
  then show ?thesis
    using headers by (auto simp: headers_state_def)
next
  case (data lc)
  then show ?thesis
    by (auto simp: set_stream_def canReceiveData_def)
next
  case rst
  then show ?thesis
    by (cases "ds_streams s sid" rule: progress.cases) (auto simp: set_stream_def)
qed (auto simp: dispatch_goaway_fields set_continuation_def)

section \<open>Runs\<close>

text \<open>A run of the dispatcher: the frames received, each with its result, and the final state.\<close>

fun dispatch_run :: "H2DispatcherConnectionState \<Rightarrow> Http2Frame list \<Rightarrow> (Http2Frame \<times> H2DispatchResult) list \<times> H2DispatcherConnectionState" where
  "dispatch_run s [] = ([], s)"
| "dispatch_run s (f # fs) =
    (let (r, s1) = dispatch f s; (rs, s2) = dispatch_run s1 fs in ((f, r) # rs, s2))"

lemma dispatch_run_ok: "dispatch_ok s \<Longrightarrow> dispatch_ok (snd (dispatch_run s fs))"
proof (induction fs arbitrary: s)
  case (Cons f fs)
  then show ?case
    using dispatch_step_ok [OF dispatch_is_step] by (auto split: prod.splits) (metis snd_conv)
qed simp

lemma new_dispatcher_ok: "dispatch_ok new_dispatcher"
  by (simp add: dispatch_ok_def new_dispatcher_def)

lemma dispatch_run_progress:
  "dispatch_ok s \<Longrightarrow> progress (ds_streams s sid) \<le> progress (ds_streams (snd (dispatch_run s fs)) sid)"
proof (induction fs arbitrary: s)
  case (Cons f fs)
  obtain r s1 where d: "dispatch f s = (r, s1)"
    by fastforce
  have "progress (ds_streams s sid) \<le> progress (ds_streams s1 sid)"
    using dispatch_step_progress [OF dispatch_is_step [OF d] Cons.prems] .
  also have "\<dots> \<le> progress (ds_streams (snd (dispatch_run s1 fs)) sid)"
    by (rule Cons.IH) (rule dispatch_step_ok [OF dispatch_is_step [OF d] Cons.prems])
  finally show ?case
    by (simp add: d case_prod_unfold Let_def)
qed simp

text \<open>A frame delivered to its stream.\<close>

definition delivered :: "H2DispatchResult \<Rightarrow> bool" where
  "delivered r \<longleftrightarrow> r_ok r \<and> list_ex (\<lambda>a. a_type a = DeliverToStream) (r_actions r)"

lemma delivered_simps [simp]:
  "delivered (one_action DeliverToStream sid)" "\<not> delivered (connectionError e)" "\<not> delivered (streamError sid e)"
  "\<not> delivered empty_result" "\<not> delivered (one_action UpdateWindow sid)"
  by (simp_all add: delivered_def result_defs)

text \<open>The frames that carry a message: nothing of a message may follow its end.\<close>

definition message_frame :: "Http2Frame \<Rightarrow> bool" where
  "message_frame f \<longleftrightarrow> isHeaders f \<or> isData f"

lemma delivered_message_progress:
  assumes "dispatch_step s f r s'" "dispatch_ok s" "delivered r" "message_frame f"
  shows "progress (ds_streams s (streamId f)) \<le> 1"
  using assms(1)
proof (cases rule: dispatch_step.cases)
  case headers
  then show ?thesis
    using headers_lifecycle_cases(2) [OF assms(2) headers(6)] by auto
next
  case (data lc)
  then show ?thesis
    by (auto simp: canReceiveData_def)
qed (use assms in \<open>auto simp: message_frame_def isHeaders_def isData_def isContinuation_def ft_distinct ft_distinct [symmetric]\<close>)

lemma ended_progress:
  assumes "dispatch_step s f r s'" "dispatch_ok s" "delivered r"
    "message_frame f \<and> isEndStream f \<or> frame_type f = FT_RstStream"
  shows "2 \<le> progress (ds_streams s' (streamId f))"
  using assms(1)
proof (cases rule: dispatch_step.cases)
  case headers
  then show ?thesis
    using assms headers_lifecycle_cases(1) [OF assms(2) headers(6)]
    by (auto simp: headers_state_def isHeaders_def ft_distinct ft_distinct [symmetric])
next
  case (data lc)
  then show ?thesis
    using assms by (auto simp: set_stream_def canReceiveData_def isData_def ft_distinct ft_distinct [symmetric])
qed (use assms in \<open>auto simp: set_stream_def message_frame_def isHeaders_def isData_def isContinuation_def ft_distinct ft_distinct [symmetric]\<close>)

text \<open>The header block discipline, as a specification: \<open>open_block\<close> is the stream whose header block is
  incomplete; only its CONTINUATION frames are allowed until one ends the block.\<close>

fun contiguous_blocks :: "u32 option \<Rightarrow> Http2Frame list \<Rightarrow> bool" where
  "contiguous_blocks ob [] \<longleftrightarrow> True"
| "contiguous_blocks (Some sid) (f # fs) \<longleftrightarrow> isContinuation f \<and> streamId f = sid
     \<and> contiguous_blocks (if isEndHeaders f then None else Some sid) fs"
| "contiguous_blocks None (f # fs) \<longleftrightarrow> \<not> isContinuation f
     \<and> contiguous_blocks (if isHeaders f \<and> \<not> isEndHeaders f then Some (streamId f) else None) fs"

definition open_block :: "H2DispatcherConnectionState \<Rightarrow> u32 option" where
  "open_block s = (if ds_expecting_continuation s then Some (ds_continuation_stream_id s) else None)"

lemma accepted_block_step:
  assumes "dispatch_step s f r s'" "r_ok r"
  shows "contiguous_blocks (open_block s) (f # fs) \<longleftrightarrow> contiguous_blocks (open_block s') fs"
  using assms(1)
proof (cases rule: dispatch_step.cases)
  case headers
  then show ?thesis
    by (auto simp: open_block_def headers_state_def isHeaders_def isContinuation_def ft_distinct)
qed (use assms(2) in \<open>auto simp: open_block_def set_stream_def set_continuation_def dispatch_goaway_fields result_defs
       isHeaders_def isData_def isContinuation_def ft_distinct ft_distinct [symmetric]\<close>)

lemma accepted_blocks:
  "list_all (\<lambda>(f, r). r_ok r) (fst (dispatch_run s fs)) \<Longrightarrow> contiguous_blocks (open_block s) fs"
proof (induction fs arbitrary: s)
  case (Cons f fs)
  obtain r s1 where d: "dispatch f s = (r, s1)"
    by fastforce
  have "r_ok r" "list_all (\<lambda>(f, r). r_ok r) (fst (dispatch_run s1 fs))"
    using Cons.prems by (auto simp: d split: prod.splits)
  then show ?case
    using Cons.IH accepted_block_step [OF dispatch_is_step [OF d]] by blast
qed simp

lemma none_after_end:
  "dispatch_ok s \<Longrightarrow> 2 \<le> progress (ds_streams s sid) \<Longrightarrow> (g, q) \<in> set (fst (dispatch_run s fs)) \<Longrightarrow>
   message_frame g \<Longrightarrow> streamId g = sid \<Longrightarrow> \<not> delivered q"
proof (induction fs arbitrary: s)
  case (Cons f fs)
  obtain r s1 where d: "dispatch f s = (r, s1)"
    by fastforce
  note st = dispatch_is_step [OF d]
  consider "(g, q) = (f, r)" | "(g, q) \<in> set (fst (dispatch_run s1 fs))"
    using Cons.prems(3) by (auto simp: d case_prod_unfold Let_def)
  then show ?case
  proof cases
    case 1
    then show ?thesis
      using delivered_message_progress [OF st Cons.prems(1)] Cons.prems by fastforce
  next
    case 2
    then show ?thesis
      using Cons.IH [OF dispatch_step_ok [OF st Cons.prems(1)] _ 2] dispatch_step_progress [OF st Cons.prems(1), of sid]
        Cons.prems(2,4,5) by simp
  qed
qed simp

section \<open>Properties\<close>

text \<open>C26. The invariant of the connection state, after any sequence of frames, valid or not: stream 0 is
  never a stream, every known stream is open, half-closed by the peer or closed, the
  streams still open were counted in the highest peer stream id, and a header block is open just
  when its stream is known and not reset.\<close>

theorem dispatch_invariant: "dispatch_ok (snd (dispatch_run new_dispatcher fs))"
  by (rule dispatch_run_ok [OF new_dispatcher_ok])

text \<open>A rejected frame changes nothing and is answered exactly once: with GOAWAY on a connection
  error, or with RST_STREAM for the frame's own (non-zero) stream, in both cases with PROTOCOL_ERROR.\<close>

theorem dispatch_rejection:
  assumes "dispatch f s = (r, s')" "\<not> r_ok r"
  shows "s' = s \<and> (r = connectionError ProtocolError \<or> streamId f \<noteq> 0 \<and> r = streamError (streamId f) ProtocolError)"
  using dispatch_is_step [OF assms(1)]
  by (cases rule: dispatch_step.cases) (use assms(2) in \<open>auto simp: one_action_def empty_result_def\<close>)

text \<open>Nothing of a message is delivered after its end: once a frame with END_STREAM, or a RST_STREAM,
  has been delivered on a stream, every later HEADERS or DATA frame on it is refused.\<close>

theorem no_message_after_end:
  assumes "dispatch_run new_dispatcher (fs @ f # gs) = (rs, s)" "rs ! length fs = (f, r)" "delivered r"
    "message_frame f \<and> isEndStream f \<or> frame_type f = FT_RstStream"
    "length fs < j" "j < length rs" "rs ! j = (g, q)" "message_frame g" "streamId g = streamId f"
  shows "\<not> delivered q"
proof -
  have app: "fst (dispatch_run t (xs @ ys)) = fst (dispatch_run t xs) @ fst (dispatch_run (snd (dispatch_run t xs)) ys)" for t xs ys
    by (induction xs arbitrary: t) (simp_all add: case_prod_unfold Let_def)
  have len: "length (fst (dispatch_run t xs)) = length xs" for t xs
    by (induction xs arbitrary: t) (simp_all add: case_prod_unfold Let_def)
  define s0 where "s0 = snd (dispatch_run new_dispatcher fs)"
  obtain r' s1 where d: "dispatch f s0 = (r', s1)"
    by fastforce
  have rs: "rs = fst (dispatch_run new_dispatcher fs) @ (f, r') # fst (dispatch_run s1 gs)"
    using arg_cong [OF assms(1), of fst] by (simp add: app d case_prod_unfold Let_def flip: s0_def)
  have r': "r' = r"
    using assms(2) by (simp add: rs nth_append len)
  have ok: "dispatch_ok s0"
    unfolding s0_def by (rule dispatch_run_ok [OF new_dispatcher_ok])
  note st = dispatch_is_step [OF d]
  have "rs ! j \<in> set (fst (dispatch_run s1 gs))"
    using assms(5,6) by (simp add: rs nth_append len)
  then show ?thesis
    using none_after_end [OF dispatch_step_ok [OF st ok] ended_progress [OF st ok] _ assms(8,9)] assms(3,4,7) r' by simp
qed

text \<open>C34. Header blocks are contiguous: in a run that the dispatcher accepts, every HEADERS frame without
  END_HEADERS is followed at once by CONTINUATION frames of the same stream up to one with
  END_HEADERS, and no other CONTINUATION occurs.\<close>

theorem header_blocks_contiguous:
  assumes "list_all (\<lambda>(f, r). r_ok r) (fst (dispatch_run new_dispatcher fs))"
  shows "contiguous_blocks None fs"
  using accepted_blocks [OF assms] by (simp add: open_block_def new_dispatcher_def)

text \<open>Sample frames: a request on stream 1 whose header block takes two frames.\<close>

definition sample_header :: "Http2FrameType \<Rightarrow> u8 \<Rightarrow> u32 \<Rightarrow> Http2FrameHeader" where
  "sample_header ty fl sid = default_header\<lparr>h_type := ty, h_flags := fl, h_stream_id := sid\<rparr>"

definition sample_open :: Http2Frame where
  "sample_open = HeadersFrame (sample_header FT_Headers kEndStream 1) 0 [] False 16 0"

definition sample_continuation :: Http2Frame where
  "sample_continuation = ContinuationFrame (sample_header FT_Continuation kEndHeaders 1) []"

definition sample_data :: Http2Frame where
  "sample_data = DataFrame (sample_header FT_Data 0 1) [] 0"

lemmas sample_defs = sample_open_def sample_continuation_def sample_data_def sample_header_def default_header_def

lemma sample_run:
  "dispatch_run new_dispatcher [sample_open, sample_continuation, sample_data] =
   ([(sample_open, one_action DeliverToStream 1), (sample_continuation, one_action DeliverToStream 1),
     (sample_data, streamError 1 ProtocolError)],
    \<lparr>ds_streams = [1 \<mapsto> LcHalfClosedRemote], ds_last_peer_stream_id = 1, ds_goaway_last_stream_id = 0,
     ds_continuation_stream_id = 0, ds_expecting_continuation = False, ds_goaway_received = False\<rparr>)"
  by (simp add: sample_defs dispatch_def dispatch_by_type_def dispatch_headers_def dispatch_continuation_def dispatch_data_def
      new_dispatcher_def Let_def streamId_def frame_type_def isHeaders_def isData_def isContinuation_def requiresNonZeroStream_def
      requiresZeroStream_def isNewStreamRejectedByGoaway_def streamState_def isRemoteClosed_def isEndStream_def
      isEndHeaders_def hasFlag_def set_stream_def set_continuation_def canReceiveData_def h2_enum)

theorem dispatch_rejection_witness:
  "dispatch sample_data new_dispatcher = (streamError 1 ProtocolError, new_dispatcher) \<and> \<not> r_ok (streamError 1 ProtocolError)"
proof -
  obtain r s' where d: "dispatch sample_data new_dispatcher = (r, s')" "r = streamError 1 ProtocolError"
    by (simp add: sample_defs dispatch_def dispatch_by_type_def dispatch_data_def new_dispatcher_def Let_def streamId_def
        frame_type_def isHeaders_def isData_def isContinuation_def requiresNonZeroStream_def requiresZeroStream_def
        isNewStreamRejectedByGoaway_def h2_enum)
  then show ?thesis
    using dispatch_rejection [OF d(1)] by (simp add: streamError_def)
qed

theorem no_message_after_end_witness:
  "fst (dispatch_run new_dispatcher [sample_open, sample_continuation, sample_data]) ! 2 =
     (sample_data, streamError 1 ProtocolError)
   \<and> message_frame sample_data \<and> \<not> delivered (streamError 1 ProtocolError)"
proof -
  have frames: "message_frame sample_open" "isEndStream sample_open" "message_frame sample_data"
    "streamId sample_data = streamId sample_open"
    by (simp_all add: sample_defs message_frame_def isHeaders_def isData_def streamId_def frame_type_def isEndStream_def
        hasFlag_def h2_enum)
  have "\<not> delivered (streamError 1 ProtocolError)"
    by (rule no_message_after_end [of "[]" sample_open "[sample_continuation, sample_data]",
          unfolded append_Nil, OF sample_run, where r = "one_action DeliverToStream 1" and j = 2 and g = sample_data])
       (simp_all add: frames)
  then show ?thesis
    using frames unfolding sample_run by simp
qed

theorem header_blocks_contiguous_witness:
  "list_all (\<lambda>(f, r). r_ok r) (fst (dispatch_run new_dispatcher [sample_open, sample_continuation]))
   \<and> contiguous_blocks None [sample_open, sample_continuation]"
proof -
  have "fst (dispatch_run new_dispatcher [sample_open, sample_continuation]) =
      take 2 (fst (dispatch_run new_dispatcher [sample_open, sample_continuation, sample_data]))"
    by (simp add: case_prod_unfold Let_def)
  then have "list_all (\<lambda>(f, r). r_ok r) (fst (dispatch_run new_dispatcher [sample_open, sample_continuation]))"
    unfolding sample_run by (simp add: one_action_def empty_result_def)
  then show ?thesis
    using header_blocks_contiguous by blast
qed

end
