(* ===== verification/H2_Builder.thy ===== *)
theory H2_Builder
  imports H2_Frame
begin

unbundle bit_operations_syntax

text \<open>
  The frame builders of \<^verbatim>\<open>galay-http2/builder/http2_frame_builder.cc\<close> and the byte
  helpers of \<^verbatim>\<open>galay-http2/utils/h2_helper.cc\<close>. The library has two ways to produce
  a frame: build the frame object and serialise it, or write the bytes directly on the hot path.
  The theorems show that both write the same bytes, and that an oversized DATA payload is cut into
  frames that carry exactly that payload and end the stream once.
\<close>

section \<open>Frame objects\<close>

definition build_data :: "u32 \<Rightarrow> bytes \<Rightarrow> bool \<Rightarrow> Http2Frame" where
  "build_data stream_id payload end_stream =
    setEndStream end_stream
      (DataFrame (default_header\<lparr>h_type := FT_Data, h_stream_id := stream_id\<rparr>) payload 0)"

definition build_headers :: "u32 \<Rightarrow> bytes \<Rightarrow> bool \<Rightarrow> bool \<Rightarrow> Http2Frame" where
  "build_headers stream_id header_block end_stream end_headers =
    setEndHeaders end_headers (setEndStream end_stream
      (HeadersFrame (default_header\<lparr>h_type := FT_Headers, h_stream_id := stream_id\<rparr>)
         0 header_block False 16 0))"

definition build_rstStream :: "u32 \<Rightarrow> Http2ErrorCode \<Rightarrow> Http2Frame" where
  "build_rstStream stream_id err =
    RstStreamFrame (default_header\<lparr>h_type := FT_RstStream, h_stream_id := stream_id\<rparr>) err"

section \<open>Direct bytes\<close>

definition buildH2FrameHeaderBytes :: "Http2FrameType \<Rightarrow> u8 \<Rightarrow> u32 \<Rightarrow> u32 \<Rightarrow> bytes" where
  "buildH2FrameHeaderBytes type flags stream_id payload_len =
    be24 payload_len @ [type, flags] @ be32 (stream_id AND kMaxStreamId)"

definition buildH2FrameBytes :: "Http2FrameType \<Rightarrow> u8 \<Rightarrow> u32 \<Rightarrow> bytes \<Rightarrow> bytes" where
  "buildH2FrameBytes type flags stream_id payload =
    buildH2FrameHeaderBytes type flags stream_id (of_nat (length payload)) @ payload"

definition end_stream_flag :: "bool \<Rightarrow> u8" where
  "end_stream_flag es = (if es then 0 OR kEndStream else 0)"

definition dataHeaderBytes :: "u32 \<Rightarrow> nat \<Rightarrow> bool \<Rightarrow> bytes" where
  "dataHeaderBytes stream_id payload_len end_stream =
    buildH2FrameHeaderBytes FT_Data (end_stream_flag end_stream) stream_id (of_nat payload_len)"

definition headers_flags :: "bool \<Rightarrow> bool \<Rightarrow> u8" where
  "headers_flags es eh = (let fl = end_stream_flag es in if eh then fl OR kEndHeaders else fl)"

definition headersHeaderBytes :: "u32 \<Rightarrow> nat \<Rightarrow> bool \<Rightarrow> bool \<Rightarrow> bytes" where
  "headersHeaderBytes stream_id len end_stream end_headers =
    buildH2FrameHeaderBytes FT_Headers (headers_flags end_stream end_headers) stream_id (of_nat len)"

definition continuationHeaderBytes :: "u32 \<Rightarrow> nat \<Rightarrow> bool \<Rightarrow> bytes" where
  "continuationHeaderBytes stream_id len end_headers =
    buildH2FrameHeaderBytes FT_Continuation (if end_headers then 0 OR kEndHeaders else 0)
      stream_id (of_nat len)"

text \<open>The tail of \<open>dataBytes\<close>, taken when the payload fits one frame.\<close>

definition dataBytes_one :: "u32 \<Rightarrow> bytes \<Rightarrow> bool \<Rightarrow> bytes" where
  "dataBytes_one stream_id payload end_stream =
    buildH2FrameBytes FT_Data (end_stream_flag end_stream) stream_id payload"

text \<open>
  The splitting loop of \<open>dataBytes\<close>. Its recursive call gets at most
  \<open>kDefaultMaxFrameSize\<close> bytes and so takes the tail above.
\<close>

function dataBytes_from :: "u32 \<Rightarrow> bytes \<Rightarrow> bool \<Rightarrow> nat \<Rightarrow> bytes" where
  "dataBytes_from stream_id payload end_stream offset =
    (if offset < length payload then
       let chunk_size = min (length payload - offset) (unat kDefaultMaxFrameSize);
           chunk_end_stream = (end_stream \<and> offset + chunk_size = length payload)
       in dataBytes_one stream_id (take chunk_size (drop offset payload)) chunk_end_stream
          @ dataBytes_from stream_id payload end_stream (offset + chunk_size)
     else [])"
  by pat_completeness auto
termination
  by (relation "measure (\<lambda>(s, p, e, off). length p - off)") (auto simp: kDefaultMaxFrameSize_def)

declare dataBytes_from.simps [simp del]

definition dataBytes :: "u32 \<Rightarrow> bytes \<Rightarrow> bool \<Rightarrow> bytes" where
  "dataBytes stream_id payload end_stream =
    (if length payload > unat kDefaultMaxFrameSize
     then dataBytes_from stream_id payload end_stream 0
     else dataBytes_one stream_id payload end_stream)"

definition headersBytes :: "u32 \<Rightarrow> bytes \<Rightarrow> bool \<Rightarrow> bool \<Rightarrow> bytes" where
  "headersBytes stream_id header_block end_stream end_headers =
    buildH2FrameBytes FT_Headers (headers_flags end_stream end_headers) stream_id header_block"

definition continuationBytes :: "u32 \<Rightarrow> bytes \<Rightarrow> bool \<Rightarrow> bytes" where
  "continuationBytes stream_id header_block end_headers =
    buildH2FrameBytes FT_Continuation (if end_headers then 0 OR kEndHeaders else 0)
      stream_id header_block"

definition rstStreamBytes :: "u32 \<Rightarrow> Http2ErrorCode \<Rightarrow> bytes" where
  "rstStreamBytes stream_id err = buildH2FrameBytes FT_RstStream 0 stream_id (be32 err)"

section \<open>Both paths write the same bytes\<close>

lemmas build_defs = build_data_def build_headers_def build_rstStream_def setEndStream_def
  setEndHeaders_def set_flag_to_def setFlag_def clearFlag_def default_header_def

lemmas bytes_defs = buildH2FrameBytes_def buildH2FrameHeaderBytes_def Http2FrameHeader_serialize_def
  kMaxStreamId_def

lemma serialize_build_data: "serialize (build_data sid d es) = dataBytes_one sid d es"
  by (simp add: build_defs dataBytes_one_def bytes_defs end_stream_flag_def
      pad_len_bytes_def pad_bytes_alt hasFlag_def h2_enum)

lemma build_data_simps [simp]:
  "m_data (build_data sid d es) = d" "streamId (build_data sid d es) = sid"
  "frame_type (build_data sid d es) = FT_Data" "isEndStream (build_data sid d es) = es"
  by (simp_all add: build_defs streamId_def frame_type_def isEndStream_def hasFlag_def h2_enum)

text \<open>
  The direct byte builders and the frame objects agree: for every stream id, payload and
  flag, \<open>headersBytes\<close>, \<open>rstStreamBytes\<close> and, for payloads of at most one default frame,
  \<open>dataBytes\<close> write exactly the bytes that serialising the corresponding frame object writes,
  and the header-only builders write the first nine of them.
\<close>

theorem builder_bytes_agree:
  "headersBytes sid blk es eh = serialize (build_headers sid blk es eh)
   \<and> rstStreamBytes sid err = serialize (build_rstStream sid err)
   \<and> headersHeaderBytes sid (length blk) es eh @ blk = headersBytes sid blk es eh
   \<and> dataHeaderBytes sid (length d) es @ d = serialize (build_data sid d es)
   \<and> (length d \<le> 16384 \<longrightarrow> dataBytes sid d es = serialize (build_data sid d es))"
proof (intro conjI impI)
  show "headersBytes sid blk es eh = serialize (build_headers sid blk es eh)"
    by (simp add: build_defs headersBytes_def headers_flags_def bytes_defs end_stream_flag_def
        pad_len_bytes_def pad_bytes_alt hasFlag_def h2_enum)
  show "rstStreamBytes sid err = serialize (build_rstStream sid err)"
    by (simp add: build_defs rstStreamBytes_def bytes_defs h2_enum)
  show "headersHeaderBytes sid (length blk) es eh @ blk = headersBytes sid blk es eh"
    by (simp add: headersHeaderBytes_def headersBytes_def buildH2FrameBytes_def)
  show "dataHeaderBytes sid (length d) es @ d = serialize (build_data sid d es)"
    by (simp add: serialize_build_data dataHeaderBytes_def dataBytes_one_def buildH2FrameBytes_def)
  assume "length d \<le> 16384"
  then show "dataBytes sid d es = serialize (build_data sid d es)"
    by (simp add: serialize_build_data dataBytes_def kDefaultMaxFrameSize_def)
qed

theorem builder_bytes_agree_witness:
  "dataBytes 7 [1, 2, 3] True = serialize (build_data 7 [1, 2, 3] True)"
  using builder_bytes_agree [where sid = 7 and d = "[1, 2, 3]" and es = True] by simp

section \<open>Splitting of large DATA payloads\<close>

text \<open>The frames the splitting loop writes, from an offset.\<close>

function split_frames :: "u32 \<Rightarrow> bytes \<Rightarrow> bool \<Rightarrow> Http2Frame list" where
  "split_frames sid payload es =
    (if payload = [] then []
     else build_data sid (take 16384 payload) (es \<and> length payload \<le> 16384)
          # split_frames sid (drop 16384 payload) es)"
  by pat_completeness auto
termination
  by (relation "measure (\<lambda>(s, p, e). length p)") (auto simp: length_greater_0_conv [symmetric] simp del: length_greater_0_conv)

declare split_frames.simps [simp del]

lemma dataBytes_from_split:
  "offset \<le> length payload \<Longrightarrow>
   dataBytes_from sid payload es offset = concat (map serialize (split_frames sid (drop offset payload) es))"
proof (induction sid payload es offset rule: dataBytes_from.induct)
  case (1 sid payload es offset)
  show ?case
  proof (cases "offset < length payload")
    case True
    let ?c = "min (length payload - offset) 16384"
    have IH: "dataBytes_from sid payload es (offset + ?c)
        = concat (map serialize (split_frames sid (drop (offset + ?c) payload) es))"
      using True by (intro "1.IH" [OF True refl refl, unfolded kDefaultMaxFrameSize_def, simplified]) auto
    have drop: "drop (offset + ?c) payload = drop 16384 (drop offset payload)"
      by (cases "length payload - offset \<le> 16384") (auto simp: add.commute min_def)
    have take: "take ?c (drop offset payload) = take 16384 (drop offset payload)"
      by (cases "length payload - offset \<le> 16384") (auto simp: min_def)
    have fin: "(offset + ?c = length payload) = (length (drop offset payload) \<le> 16384)"
      using True by (auto simp: min_def)
    show ?thesis
      using True
      by (subst dataBytes_from.simps, subst split_frames.simps)
         (simp add: kDefaultMaxFrameSize_def Let_def IH drop take fin serialize_build_data)
  next
    case False
    then show ?thesis by (simp add: dataBytes_from.simps split_frames.simps)
  qed
qed

lemma split_frames_payload: "concat (map m_data (split_frames sid payload es)) = payload"
proof (induction sid payload es rule: split_frames.induct)
  case (1 sid payload es)
  then show ?case by (subst split_frames.simps) simp
qed

lemma split_frames_sizes:
  "f \<in> set (split_frames sid payload es) \<Longrightarrow>
   length (m_data f) \<le> 16384 \<and> streamId f = sid \<and> frame_type f = FT_Data"
proof (induction sid payload es rule: split_frames.induct)
  case (1 sid payload es)
  then show ?case
    by (subst (asm) split_frames.simps) (auto split: if_splits)
qed

lemma split_frames_end:
  "payload \<noteq> [] \<Longrightarrow>
   map isEndStream (split_frames sid payload es)
     = replicate (length (split_frames sid payload es) - 1) False @ [es]"
proof (induction sid payload es rule: split_frames.induct)
  case (1 sid payload es)
  show ?case
  proof (cases "length payload \<le> 16384")
    case True
    with "1.prems" show ?thesis
      by (simp add: split_frames.simps [of sid payload es] split_frames.simps [of sid "[]" es])
  next
    case False
    then have ne: "drop 16384 payload \<noteq> []" by simp
    have pos: "split_frames sid (drop 16384 payload) es \<noteq> []"
      using ne by (subst split_frames.simps) simp
    from "1.IH" [OF "1.prems" ne] "1.prems" False pos show ?thesis
      by (simp add: split_frames.simps [of sid payload es])
         (metis Cons_eq_appendI Suc_pred length_greater_0_conv replicate_Suc)
  qed
qed

text \<open>
  Splitting of DATA: for any payload, \<open>dataBytes\<close> writes a sequence of DATA frames of the
  stream, each within the default maximum frame size, whose payloads concatenate to the payload,
  and END_STREAM is set on the last frame exactly when requested and on no earlier one.
\<close>

theorem dataBytes_splits:
  "\<exists>fs. dataBytes sid payload es = concat (map serialize fs)
     \<and> concat (map m_data fs) = payload
     \<and> map isEndStream fs = replicate (length fs - 1) False @ [es]
     \<and> list_all (\<lambda>f. length (m_data f) \<le> 16384 \<and> streamId f = sid \<and> frame_type f = FT_Data) fs"
proof (cases "length payload > 16384")
  case True
  then have "payload \<noteq> []" by auto
  with True show ?thesis
    using dataBytes_from_split [of 0 payload sid es] split_frames_payload [of sid payload es]
      split_frames_end [of payload sid es] split_frames_sizes [of _ sid payload es]
    by (intro exI [of _ "split_frames sid payload es"])
       (simp add: dataBytes_def kDefaultMaxFrameSize_def list_all_iff)
next
  case False
  then show ?thesis
    by (intro exI [of _ "[build_data sid payload es]"])
       (simp add: dataBytes_def kDefaultMaxFrameSize_def serialize_build_data)
qed

end
