(* ===== verification/H2_Sched.thy ===== *)
theory H2_Sched
  imports H2_Builder
begin

text \<open>
  \<open>Http2OutboundScheduler\<close> of \<^verbatim>\<open>galay-http2/kernel/out_scheduler.cc\<close>: the deficit round robin
  that turns pending DATA into frames under the connection window, the stream windows and the
  frame size. The code has the loop twice, once producing frame objects and once producing bytes;
  here the loop has two parameters, how a piece is emitted (\<open>emit\<close>) and how the end of the
  stream is detected (\<open>ends\<close>), and each entry point instantiates them as its copy of the loop does.
  The \<open>int32_t\<close> windows are \<open>int\<close>; a window only shrinks, by at most its own value. \<open>reserve\<close>
  calls are left out.
\<close>

section \<open>State\<close>

record H2OutboundBudget =
  ob_conn_window :: int
  ob_max_frame_size :: u32

record H2PendingData =
  pd_chunks :: "bytes list"
  pd_front_offset :: nat
  pd_end_stream :: bool

record H2StreamSendState =
  ss_pending :: H2PendingData
  ss_deficit :: nat
  ss_stream_id :: u32
  ss_stream_window :: int
  ss_weight :: u8
  ss_queued :: bool

record H2SchedulerConfig =
  base_quantum :: nat

record H2OutboundQueues =
  oq_control_frames :: "Http2Frame list"
  oq_header_frames :: "Http2Frame list"
  oq_data_streams :: "H2StreamSendState list"

text \<open>A selection: what is sent, and the number of DATA bytes in it.\<close>

record 'o selection =
  sel_frames :: "'o list"
  sel_total :: nat

type_synonym H2OutboundSelection = "Http2Frame selection"
type_synonym H2OutboundBytesSelection = "bytes selection"

section \<open>Pending data\<close>

fun normalize_chunks :: "bytes list \<Rightarrow> nat \<Rightarrow> bytes list \<times> nat" where
  "normalize_chunks [] off = ([], off)"
| "normalize_chunks (c # cs) off = (if off \<ge> length c then normalize_chunks cs 0 else (c # cs, off))"

definition normalizePending :: "H2PendingData \<Rightarrow> H2PendingData" where
  "normalizePending p =
    (case normalize_chunks (pd_chunks p) (pd_front_offset p) of (cs, off) \<Rightarrow>
       p\<lparr>pd_chunks := cs, pd_front_offset := off\<rparr>)"

definition frontPendingSize :: "H2PendingData \<Rightarrow> nat" where
  "frontPendingSize p = (case pd_chunks p of
     [] \<Rightarrow> 0
   | c # _ \<Rightarrow> if pd_front_offset p \<ge> length c then 0 else length c - pd_front_offset p)"

definition takeFrontData :: "H2PendingData \<Rightarrow> nat \<Rightarrow> bytes \<times> H2PendingData" where
  "takeFrontData p n =
    (take n (drop (pd_front_offset p) (hd (pd_chunks p))),
     normalizePending (p\<lparr>pd_front_offset := pd_front_offset p + n\<rparr>))"

definition shouldSendEndStreamOnly :: "H2PendingData \<Rightarrow> bool" where
  "shouldSendEndStreamOnly p \<longleftrightarrow> pd_end_stream p \<and> pd_chunks p = []"

definition quantumFor :: "H2StreamSendState \<Rightarrow> H2SchedulerConfig \<Rightarrow> nat" where
  "quantumFor st cfg =
    (let base = (if base_quantum cfg = 0 then 1 else base_quantum cfg);
         weight = (if ss_weight st = 0 then 1 else unat (ss_weight st))
     in if base > SIZE_MAX div weight then SIZE_MAX else base * weight)"

section \<open>The round robin\<close>

text \<open>The first loop: streams with nothing left but END_STREAM.\<close>

fun end_stream_pass :: "(u32 \<Rightarrow> bytes \<Rightarrow> bool \<Rightarrow> 'o) \<Rightarrow> H2StreamSendState list \<Rightarrow> 'o list \<times> H2StreamSendState list" where
  "end_stream_pass emit [] = ([], [])"
| "end_stream_pass emit (st # sts) =
    (let p = normalizePending (ss_pending st);
         (out, sts') = end_stream_pass emit sts in
     if shouldSendEndStreamOnly p then
       (emit (ss_stream_id st) [] True # out, st\<lparr>ss_pending := p\<lparr>pd_end_stream := False\<rparr>\<rparr> # sts')
     else (out, st\<lparr>ss_pending := p\<rparr> # sts'))"

text \<open>The size of the next piece: bounded by both windows, the frame size, the front chunk and the
  deficit.\<close>

definition chunk_size :: "u32 \<Rightarrow> H2StreamSendState \<Rightarrow> int \<Rightarrow> nat" where
  "chunk_size max_frame_size st conn_window =
    min (min (nat conn_window) (nat (ss_stream_window st)))
      (min (min (unat max_frame_size) (frontPendingSize (ss_pending st))) (ss_deficit st))"

text \<open>Taking a piece and accounting for it.\<close>

definition send_piece ::
  "(u32 \<Rightarrow> bytes \<Rightarrow> bool \<Rightarrow> 'o) \<Rightarrow> (H2PendingData \<Rightarrow> nat \<Rightarrow> H2PendingData \<Rightarrow> bool) \<Rightarrow>
   H2StreamSendState \<Rightarrow> nat \<Rightarrow> 'o \<times> H2StreamSendState" where
  "send_piece emit ends st chunk =
    (let (payload, p) = takeFrontData (ss_pending st) chunk;
         send_end = ends (ss_pending st) chunk p
     in (emit (ss_stream_id st) payload send_end,
         st\<lparr>ss_pending := (if send_end then p\<lparr>pd_end_stream := False\<rparr> else p),
            ss_stream_window := ss_stream_window st - int chunk,
            ss_deficit := ss_deficit st - chunk,
            ss_queued := (if send_end then False else ss_queued st)\<rparr>))"

text \<open>The innermost loop: one stream sends while data, windows and deficit allow. The result is what it
  emits, the number of bytes, the stream and the connection window.\<close>

function send_loop ::
  "(u32 \<Rightarrow> bytes \<Rightarrow> bool \<Rightarrow> 'o) \<Rightarrow> (H2PendingData \<Rightarrow> nat \<Rightarrow> H2PendingData \<Rightarrow> bool) \<Rightarrow> u32 \<Rightarrow>
   H2StreamSendState \<Rightarrow> int \<Rightarrow> 'o list \<times> nat \<times> H2StreamSendState \<times> int" where
  "send_loop emit ends max_frame_size st conn_window =
    (if pd_chunks (ss_pending st) \<noteq> [] \<and> ss_stream_window st > 0 \<and> conn_window > 0 \<and> ss_deficit st > 0 then
       let chunk = chunk_size max_frame_size st conn_window in
       if chunk = 0 then ([], 0, st, conn_window)
       else
         let (o1, st') = send_piece emit ends st chunk;
             conn_window' = conn_window - int chunk
         in if conn_window' \<le> 0 then ([o1], chunk, st', conn_window')
            else let (os, n, st'', w) = send_loop emit ends max_frame_size st' conn_window'
                 in (o1 # os, chunk + n, st'', w)
     else ([], 0, st, conn_window))"
  by pat_completeness auto
termination
  by (relation "measure (\<lambda>(_, _, _, _, w). nat w)") simp_all

declare send_loop.simps [simp del]

text \<open>One round over the streams; it stops when the connection window is used up.\<close>

fun send_round ::
  "(u32 \<Rightarrow> bytes \<Rightarrow> bool \<Rightarrow> 'o) \<Rightarrow> (H2PendingData \<Rightarrow> nat \<Rightarrow> H2PendingData \<Rightarrow> bool) \<Rightarrow> u32 \<Rightarrow> H2SchedulerConfig \<Rightarrow>
   H2StreamSendState list \<Rightarrow> int \<Rightarrow> 'o list \<times> nat \<times> H2StreamSendState list \<times> int" where
  "send_round emit ends max_frame_size cfg [] conn_window = ([], 0, [], conn_window)"
| "send_round emit ends max_frame_size cfg (st # sts) conn_window =
    (let st1 = st\<lparr>ss_pending := normalizePending (ss_pending st)\<rparr> in
     if pd_chunks (ss_pending st1) = [] \<or> ss_stream_window st1 \<le> 0 then
       let (os, n, sts', w) = send_round emit ends max_frame_size cfg sts conn_window
       in (os, n, st1\<lparr>ss_queued := False\<rparr> # sts', w)
     else
       let quantum = quantumFor st1 cfg;
           st2 = st1\<lparr>ss_queued := True, ss_deficit := min (SIZE_MAX - quantum) (ss_deficit st1) + quantum\<rparr>;
           (os, n, st3, w) = send_loop emit ends max_frame_size st2 conn_window in
       if w \<le> 0 then (os, n, st3 # sts, w)
       else let (os', n', sts', w') = send_round emit ends max_frame_size cfg sts w
            in (os @ os', n + n', st3 # sts', w'))"

text \<open>The inner loop as an induction principle: it stops, or sends a piece and goes on.\<close>

lemma send_loop_induct [consumes 1, case_names stop last_piece piece]:
  assumes "send_loop emit ends mx st w = (os, n, st', w')"
    and stop: "\<And>st w. pd_chunks (ss_pending st) = [] \<or> ss_stream_window st \<le> 0 \<or> w \<le> 0 \<or> ss_deficit st = 0
        \<or> chunk_size mx st w = 0 \<Longrightarrow> P st w [] 0 st w"
    and last_piece: "\<And>st w c o1 st1. pd_chunks (ss_pending st) \<noteq> [] \<Longrightarrow> 0 < ss_stream_window st \<Longrightarrow> 0 < w \<Longrightarrow>
        0 < ss_deficit st \<Longrightarrow> c = chunk_size mx st w \<Longrightarrow> 0 < c \<Longrightarrow> send_piece emit ends st c = (o1, st1) \<Longrightarrow>
        w - int c \<le> 0 \<Longrightarrow> P st w [o1] c st1 (w - int c)"
    and piece: "\<And>st w c o1 st1 os n st' w'. pd_chunks (ss_pending st) \<noteq> [] \<Longrightarrow> 0 < ss_stream_window st \<Longrightarrow> 0 < w \<Longrightarrow>
        0 < ss_deficit st \<Longrightarrow> c = chunk_size mx st w \<Longrightarrow> 0 < c \<Longrightarrow> send_piece emit ends st c = (o1, st1) \<Longrightarrow>
        0 < w - int c \<Longrightarrow> send_loop emit ends mx st1 (w - int c) = (os, n, st', w') \<Longrightarrow>
        P st1 (w - int c) os n st' w' \<Longrightarrow> P st w (o1 # os) (c + n) st' w'"
  shows "P st w os n st' w'"
  using assms(1)
proof (induction "nat w" arbitrary: st w os n st' w' rule: less_induct)
  case less
  let ?c = "chunk_size mx st w"
  show ?case
  proof (cases "pd_chunks (ss_pending st) \<noteq> [] \<and> ss_stream_window st > 0 \<and> w > 0 \<and> ss_deficit st > 0 \<and> ?c \<noteq> 0")
    case False
    then have "os = [] \<and> n = 0 \<and> st' = st \<and> w' = w"
      using less.prems by (subst (asm) send_loop.simps) (auto simp: Let_def split: if_splits)
    with False show ?thesis
      using stop [of st w] by auto
  next
    case True
    obtain o1 st1 where p: "send_piece emit ends st ?c = (o1, st1)"
      by fastforce
    show ?thesis
    proof (cases "w - int ?c \<le> 0")
      case le: True
      then have "os = [o1] \<and> n = ?c \<and> st' = st1 \<and> w' = w - int ?c"
        using less.prems True p by (subst (asm) send_loop.simps) (simp add: Let_def)
      then show ?thesis
        using last_piece [of st w ?c o1 st1] True p le by simp
    next
      case gt: False
      obtain os1 n1 st2 w2 where r: "send_loop emit ends mx st1 (w - int ?c) = (os1, n1, st2, w2)"
        by (metis prod_cases4)
      then have eq: "os = o1 # os1 \<and> n = ?c + n1 \<and> st' = st2 \<and> w' = w2"
        using less.prems True p gt by (subst (asm) send_loop.simps) (simp add: Let_def)
      have "P st1 (w - int ?c) os1 n1 st2 w2"
        by (rule less.hyps [OF _ r]) (use True in auto)
      then show ?thesis
        using piece [of st w ?c o1 st1 os1 n1 st2 w2] True p gt r eq by simp
    qed
  qed
qed

lemma send_loop_window: "send_loop emit ends mx st w = (os, n, st', w') \<Longrightarrow> w' = w - int n \<and> (0 < n \<longleftrightarrow> os \<noteq> [])"
  by (induction rule: send_loop_induct) auto

text \<open>What a stream looks like when its turn comes, and with its deficit topped up.\<close>

abbreviation normalized :: "H2StreamSendState \<Rightarrow> H2StreamSendState" where
  "normalized st \<equiv> st\<lparr>ss_pending := normalizePending (ss_pending st)\<rparr>"

definition refill :: "H2SchedulerConfig \<Rightarrow> H2StreamSendState \<Rightarrow> H2StreamSendState" where
  "refill cfg st = (normalized st)\<lparr>ss_queued := True,
     ss_deficit := min (SIZE_MAX - quantumFor (normalized st) cfg) (ss_deficit st) + quantumFor (normalized st) cfg\<rparr>"

lemma send_round_cases [consumes 1, case_names skip stop go]:
  assumes "send_round emit ends mx cfg (st # sts) w = (os, n, sts', w')"
  obtains (skip) sts1 where "pd_chunks (ss_pending (normalized st)) = [] \<or> ss_stream_window st \<le> 0"
      "send_round emit ends mx cfg sts w = (os, n, sts1, w')" "sts' = (normalized st)\<lparr>ss_queued := False\<rparr> # sts1"
  | (stop) st3 where "pd_chunks (ss_pending (normalized st)) \<noteq> []" "0 < ss_stream_window st"
      "send_loop emit ends mx (refill cfg st) w = (os, n, st3, w')" "w' \<le> 0" "sts' = st3 # sts"
  | (go) os1 n1 st3 w1 os2 n2 sts2 where "pd_chunks (ss_pending (normalized st)) \<noteq> []" "0 < ss_stream_window st"
      "send_loop emit ends mx (refill cfg st) w = (os1, n1, st3, w1)" "0 < w1"
      "send_round emit ends mx cfg sts w1 = (os2, n2, sts2, w')" "os = os1 @ os2" "n = n1 + n2" "sts' = st3 # sts2"
proof (cases "pd_chunks (ss_pending (normalized st)) = [] \<or> ss_stream_window st \<le> 0")
  case True
  then show ?thesis
    using assms skip by (auto simp: Let_def split: prod.splits)
next
  case False
  obtain os1 n1 st3 w1 where l: "send_loop emit ends mx (refill cfg st) w = (os1, n1, st3, w1)"
    by (metis prod_cases4)
  obtain os2 n2 sts2 w2 where r: "send_round emit ends mx cfg sts w1 = (os2, n2, sts2, w2)"
    by (metis prod_cases4)
  have "(os, n, sts', w') = (if w1 \<le> 0 then (os1, n1, st3 # sts, w1) else (os1 @ os2, n1 + n2, st3 # sts2, w2))"
    using assms False l r by (auto simp: Let_def refill_def split: if_splits)
  then show ?thesis
    using False l r stop go by (cases "w1 \<le> 0") auto
qed

lemma send_round_window: "send_round emit ends mx cfg sts w = (os, n, sts', w') \<Longrightarrow> w' = w - int n \<and> (0 < n \<longleftrightarrow> os \<noteq> [])"
proof (induction sts arbitrary: os n sts' w w')
  case (Cons st sts)
  from Cons.prems show ?case
    by (cases rule: send_round_cases) (auto dest!: send_loop_window Cons.IH)
qed simp

text \<open>The outer loop: rounds until the window is used up or a round makes no progress, which is
  the case when it emits nothing.\<close>

function send_rounds ::
  "(u32 \<Rightarrow> bytes \<Rightarrow> bool \<Rightarrow> 'o) \<Rightarrow> (H2PendingData \<Rightarrow> nat \<Rightarrow> H2PendingData \<Rightarrow> bool) \<Rightarrow> u32 \<Rightarrow> H2SchedulerConfig \<Rightarrow>
   H2StreamSendState list \<Rightarrow> int \<Rightarrow> 'o list \<times> nat \<times> H2StreamSendState list \<times> int" where
  "send_rounds emit ends max_frame_size cfg sts conn_window =
    (if conn_window > 0 then
       let (os, n, sts', w) = send_round emit ends max_frame_size cfg sts conn_window in
       if os = [] then (os, n, sts', w)
       else let (os', n', sts'', w') = send_rounds emit ends max_frame_size cfg sts' w
            in (os @ os', n + n', sts'', w')
     else ([], 0, sts, conn_window))"
  by pat_completeness auto
termination
proof (relation "measure (\<lambda>(_, _, _, _, _, w). nat w)", goal_cases)
  case (2 emit ends mx cfg sts w x os y n z sts' w')
  then show ?case
    using send_round_window [of emit ends mx cfg sts w os n sts' w'] by auto
qed simp

declare send_rounds.simps [simp del]

definition pick_streams ::
  "(u32 \<Rightarrow> bytes \<Rightarrow> bool \<Rightarrow> 'o) \<Rightarrow> (H2PendingData \<Rightarrow> nat \<Rightarrow> H2PendingData \<Rightarrow> bool) \<Rightarrow> H2OutboundBudget \<Rightarrow>
   H2SchedulerConfig \<Rightarrow> H2StreamSendState list \<Rightarrow> 'o selection \<times> H2StreamSendState list" where
  "pick_streams emit ends budget cfg sts =
    (if ob_max_frame_size budget = 0 then (\<lparr>sel_frames = [], sel_total = 0\<rparr>, sts)
     else
       let (os1, sts1) = end_stream_pass emit sts;
           (os2, n, sts2, w) = send_rounds emit ends (ob_max_frame_size budget) cfg sts1 (ob_conn_window budget)
       in (\<lparr>sel_frames = os1 @ os2, sel_total = n\<rparr>, sts2))"

text \<open>The copy that builds frame objects: the frame is built without END_STREAM, the flag is set once the
  data is taken and nothing is left.\<close>

definition emit_frame :: "u32 \<Rightarrow> bytes \<Rightarrow> bool \<Rightarrow> Http2Frame" where
  "emit_frame sid payload send_end = setEndStream send_end (build_data sid payload False)"

definition frame_ends :: "H2PendingData \<Rightarrow> nat \<Rightarrow> H2PendingData \<Rightarrow> bool" where
  "frame_ends before chunk after \<longleftrightarrow> pd_end_stream after \<and> pd_chunks after = []"

text \<open>The copy that builds bytes decides before it takes the data.\<close>

definition bytes_ends :: "H2PendingData \<Rightarrow> nat \<Rightarrow> H2PendingData \<Rightarrow> bool" where
  "bytes_ends before chunk after \<longleftrightarrow> pd_end_stream before \<and> length (pd_chunks before) = 1
     \<and> pd_front_offset before + chunk = length (hd (pd_chunks before))"

definition pickSendableFrames_streams ::
  "H2OutboundBudget \<Rightarrow> H2SchedulerConfig \<Rightarrow> H2StreamSendState list \<Rightarrow> H2OutboundSelection \<times> H2StreamSendState list" where
  "pickSendableFrames_streams = pick_streams emit_frame frame_ends"

definition pickSendableBytes_streams ::
  "H2OutboundBudget \<Rightarrow> H2SchedulerConfig \<Rightarrow> H2StreamSendState list \<Rightarrow> H2OutboundBytesSelection \<times> H2StreamSendState list" where
  "pickSendableBytes_streams = pick_streams dataBytes bytes_ends"

definition pickSendableFrames ::
  "H2OutboundBudget \<Rightarrow> H2SchedulerConfig \<Rightarrow> H2OutboundQueues \<Rightarrow> H2OutboundSelection \<times> H2OutboundQueues" where
  "pickSendableFrames budget cfg q =
    (let (sel, sts) = pickSendableFrames_streams budget cfg (oq_data_streams q)
     in (sel\<lparr>sel_frames := oq_control_frames q @ oq_header_frames q @ sel_frames sel\<rparr>,
         q\<lparr>oq_control_frames := [], oq_header_frames := [], oq_data_streams := sts\<rparr>))"

definition pickSendableBytes ::
  "H2OutboundBudget \<Rightarrow> H2SchedulerConfig \<Rightarrow> H2OutboundQueues \<Rightarrow> H2OutboundBytesSelection \<times> H2OutboundQueues" where
  "pickSendableBytes budget cfg q =
    (let (sel, sts) = pickSendableBytes_streams budget cfg (oq_data_streams q)
     in (sel\<lparr>sel_frames := map serialize (oq_control_frames q) @ map serialize (oq_header_frames q) @ sel_frames sel\<rparr>,
         q\<lparr>oq_control_frames := [], oq_header_frames := [], oq_data_streams := sts\<rparr>))"

section \<open>Delivery\<close>

text \<open>The bytes a stream still has to send.\<close>

definition pending_bytes :: "H2PendingData \<Rightarrow> bytes" where
  "pending_bytes p = drop (pd_front_offset p) (concat (pd_chunks p))"

text \<open>The front offset stays inside the front chunk; no chunk is empty.\<close>

definition pending_ok :: "H2PendingData \<Rightarrow> bool" where
  "pending_ok p \<longleftrightarrow> [] \<notin> set (pd_chunks p)
     \<and> (case pd_chunks p of [] \<Rightarrow> True | c # _ \<Rightarrow> pd_front_offset p \<le> length c)"

lemma normalize_bytes:
  "normalize_chunks cs off = (cs', off') \<Longrightarrow> (case cs of [] \<Rightarrow> True | c # _ \<Rightarrow> off \<le> length c) \<Longrightarrow>
   drop off' (concat cs') = drop off (concat cs) \<and> (case cs' of [] \<Rightarrow> True | c # _ \<Rightarrow> off' < length c)
   \<and> set cs' \<subseteq> set cs"
proof (induction cs off rule: normalize_chunks.induct)
  case (2 c cs off)
  then show ?case
    by (cases cs) (auto split: if_splits)
qed simp

lemma normalizePending_simps [simp]:
  "pd_end_stream (normalizePending p) = pd_end_stream p"
  by (simp add: normalizePending_def split: prod.split)

lemma normalizePending_ok:
  assumes "pending_ok p"
  shows "pending_ok (normalizePending p)" "pending_bytes (normalizePending p) = pending_bytes p"
    "pd_chunks (normalizePending p) = [] \<longleftrightarrow> pending_bytes p = []"
    "frontPendingSize (normalizePending p) = 0 \<longleftrightarrow> pending_bytes p = []"
proof -
  obtain cs off where n: "normalize_chunks (pd_chunks p) (pd_front_offset p) = (cs, off)"
    by fastforce
  have s: "drop off (concat cs) = pending_bytes p" "case cs of [] \<Rightarrow> True | c # _ \<Rightarrow> off < length c"
      "set cs \<subseteq> set (pd_chunks p)"
    using normalize_bytes [OF n] assms by (auto simp: pending_ok_def pending_bytes_def)
  have e: "normalizePending p = p\<lparr>pd_chunks := cs, pd_front_offset := off\<rparr>"
    by (simp add: normalizePending_def n)
  show "pending_ok (normalizePending p)"
    using s assms by (auto simp: e pending_ok_def split: list.splits)
  show "pending_bytes (normalizePending p) = pending_bytes p"
    using s(1) by (simp add: e pending_bytes_def)
  show "pd_chunks (normalizePending p) = [] \<longleftrightarrow> pending_bytes p = []"
    using s(1,2) by (cases cs) (auto simp: e)
  show "frontPendingSize (normalizePending p) = 0 \<longleftrightarrow> pending_bytes p = []"
    using s(1,2) by (cases cs) (auto simp: e frontPendingSize_def)
qed

lemma takeFrontData_ok:
  assumes "pending_ok p" "0 < n" "n \<le> frontPendingSize p" "takeFrontData p n = (payload, p')"
  shows "payload @ pending_bytes p' = pending_bytes p" "length payload = n" "pending_ok p'"
    "pd_end_stream p' = pd_end_stream p" "pd_chunks p' = [] \<longleftrightarrow> pending_bytes p' = []"
proof -
  obtain c cs where c: "pd_chunks p = c # cs" "n \<le> length c - pd_front_offset p" "pd_front_offset p < length c"
    using assms(2,3) by (auto simp: frontPendingSize_def split: list.splits if_splits)
  let ?q = "p\<lparr>pd_front_offset := pd_front_offset p + n\<rparr>"
  have q: "pending_ok ?q"
    using assms(1) c by (simp add: pending_ok_def)
  have e: "payload = take n (drop (pd_front_offset p) c)" "p' = normalizePending ?q"
    using assms(4) c by (simp_all add: takeFrontData_def)
  have "pending_bytes p = drop (pd_front_offset p) c @ concat cs"
    using c by (simp add: pending_bytes_def)
  moreover have "pending_bytes ?q = drop n (drop (pd_front_offset p) c) @ concat cs"
    using c by (simp add: pending_bytes_def add.commute)
  ultimately have "payload @ pending_bytes ?q = pending_bytes p"
    unfolding e using append_take_drop_id [of n "drop (pd_front_offset p) c"] by simp
  then show "payload @ pending_bytes p' = pending_bytes p"
    by (simp add: e normalizePending_ok(2) [OF q])
  show "length payload = n" "pd_end_stream p' = pd_end_stream p"
    using c by (simp_all add: e)
  show "pending_ok p'" "pd_chunks p' = [] \<longleftrightarrow> pending_bytes p' = []"
    using normalizePending_ok [OF q] by (simp_all add: e)
qed

lemma emit_frame_build: "emit_frame sid d fin = build_data sid d fin"
  by (simp add: emit_frame_def build_data_def setEndStream_def set_flag_to_def setFlag_def clearFlag_def default_header_def h2_enum)

text \<open>
  What it means that a stream state \<open>st\<close> has sent the frames \<open>fs\<close> and become \<open>st'\<close>: the frames are
  DATA frames of this stream within the frame size, their payloads are the front of
  what was pending, the stream window has paid for every byte and covered it, and END_STREAM is
  set on the last frame just when the stream was to be ended, nothing is left and the end is
  no longer pending.
\<close>

definition end_cleared :: "H2StreamSendState \<Rightarrow> H2StreamSendState \<Rightarrow> bool" where
  "end_cleared st st' \<longleftrightarrow> pd_end_stream (ss_pending st) \<and> \<not> pd_end_stream (ss_pending st')"

definition stream_sent :: "nat \<Rightarrow> H2StreamSendState \<Rightarrow> Http2Frame list \<Rightarrow> H2StreamSendState \<Rightarrow> bool" where
  "stream_sent mx st fs st' \<longleftrightarrow>
     ss_stream_id st' = ss_stream_id st \<and> pending_ok (ss_pending st')
     \<and> list_all (\<lambda>f. streamId f = ss_stream_id st \<and> frame_type f = FT_Data \<and> length (m_data f) \<le> mx
          \<and> (m_data f \<noteq> [] \<or> isEndStream f)) fs
     \<and> concat (map m_data fs) @ pending_bytes (ss_pending st') = pending_bytes (ss_pending st)
     \<and> ss_stream_window st' = ss_stream_window st - int (length (concat (map m_data fs)))
     \<and> (0 \<le> ss_stream_window st \<longrightarrow> 0 \<le> ss_stream_window st')
     \<and> (pd_end_stream (ss_pending st') \<longrightarrow> pd_end_stream (ss_pending st))
     \<and> (if end_cleared st st'
        then (\<exists>gs f. fs = gs @ [f] \<and> list_all (\<lambda>f. \<not> isEndStream f) gs \<and> isEndStream f) \<and> pending_bytes (ss_pending st') = []
        else list_all (\<lambda>f. \<not> isEndStream f) fs)"

lemma stream_sent_nothing:
  assumes "ss_stream_id st' = ss_stream_id st" "pending_ok (ss_pending st')"
    "pending_bytes (ss_pending st') = pending_bytes (ss_pending st)" "ss_stream_window st' = ss_stream_window st"
    "pd_end_stream (ss_pending st') = pd_end_stream (ss_pending st)"
  shows "stream_sent mx st [] st'"
  using assms by (simp add: stream_sent_def end_cleared_def)

lemma stream_sent_nothing_left:
  assumes "stream_sent mx st fs st'" "pending_bytes (ss_pending st) = []" "\<not> pd_end_stream (ss_pending st)"
  shows "fs = []"
proof -
  have "list_all (\<lambda>f. m_data f \<noteq> [] \<or> isEndStream f) fs" "list_all (\<lambda>f. \<not> isEndStream f) fs" "concat (map m_data fs) = []"
    using assms by (auto simp: stream_sent_def end_cleared_def list_all_iff)
  then show ?thesis
    by (cases fs) auto
qed

lemma stream_sent_trans:
  assumes "stream_sent mx st fs st1" "stream_sent mx st1 gs st2"
  shows "stream_sent mx st (fs @ gs) st2"
proof (cases "end_cleared st st1")
  case True
  then have e: "pending_bytes (ss_pending st1) = []" "\<not> pd_end_stream (ss_pending st1)"
    using assms(1) by (auto simp: stream_sent_def end_cleared_def)
  have "gs = []"
    using stream_sent_nothing_left [OF assms(2) e] .
  then have "end_cleared st st2 \<and> pending_bytes (ss_pending st2) = []"
    using True e assms(2) by (auto simp: stream_sent_def end_cleared_def)
  then show ?thesis
    using assms True \<open>gs = []\<close> by (auto simp: stream_sent_def)
next
  case False
  then have f: "list_all (\<lambda>f. \<not> isEndStream f) fs" "pd_end_stream (ss_pending st1) = pd_end_stream (ss_pending st)"
    using assms(1) by (auto simp: stream_sent_def end_cleared_def)
  then have c: "end_cleared st st2 \<longleftrightarrow> end_cleared st1 st2"
    by (simp add: end_cleared_def)
  have last: "end_cleared st1 st2 \<Longrightarrow> \<exists>hs f. fs @ gs = hs @ [f] \<and> list_all (\<lambda>f. \<not> isEndStream f) hs \<and> isEndStream f"
  proof -
    assume "end_cleared st1 st2"
    then obtain hs f where "gs = hs @ [f]" "list_all (\<lambda>f. \<not> isEndStream f) hs" "isEndStream f"
      using assms(2) by (auto simp: stream_sent_def)
    with f(1) show ?thesis
      by (intro exI [of _ "fs @ hs"] exI [of _ f]) simp
  qed
  have "0 \<le> ss_stream_window st \<Longrightarrow> 0 \<le> ss_stream_window st2"
    using assms unfolding stream_sent_def by blast
  then show ?thesis
    using assms f(1) c last by (simp add: stream_sent_def)
qed

lemma chunk_size_le:
  "chunk_size mx st w \<le> nat w" "chunk_size mx st w \<le> nat (ss_stream_window st)" "chunk_size mx st w \<le> unat mx"
  "chunk_size mx st w \<le> frontPendingSize (ss_pending st)" "chunk_size mx st w \<le> ss_deficit st"
  by (simp_all add: chunk_size_def min_le_iff_disj)

lemma send_piece_sent:
  assumes "pending_ok (ss_pending st)" "0 < c" "c = chunk_size mx st w" "send_piece emit_frame frame_ends st c = (o1, st1)"
    "0 < ss_stream_window st"
  shows "stream_sent (unat mx) st [o1] st1" "m_data o1 \<noteq> []" "length (m_data o1) = c"
proof -
  obtain payload p where t: "takeFrontData (ss_pending st) c = (payload, p)"
    by fastforce
  have c: "c \<le> frontPendingSize (ss_pending st)" "c \<le> unat mx" "int c \<le> ss_stream_window st"
    using assms(3,5) chunk_size_le [of mx st w] by auto
  note tk = takeFrontData_ok [OF assms(1,2) c(1) t]
  have o1: "o1 = build_data (ss_stream_id st) payload (frame_ends (ss_pending st) c p)"
    "st1 = st\<lparr>ss_pending := (if frame_ends (ss_pending st) c p then p\<lparr>pd_end_stream := False\<rparr> else p),
            ss_stream_window := ss_stream_window st - int c,
            ss_deficit := ss_deficit st - c,
            ss_queued := (if frame_ends (ss_pending st) c p then False else ss_queued st)\<rparr>"
    using assms(4) t by (auto simp: send_piece_def emit_frame_build Let_def)
  show "m_data o1 \<noteq> []" "length (m_data o1) = c"
    using tk(2) assms(2) by (auto simp: o1)
  have p': "pending_ok (p\<lparr>pd_end_stream := False\<rparr>)" "pending_bytes (p\<lparr>pd_end_stream := False\<rparr>) = pending_bytes p"
    using tk(3) by (cases "pd_chunks p"; simp add: pending_ok_def pending_bytes_def)+
  show "stream_sent (unat mx) st [o1] st1"
    using tk c p' \<open>m_data o1 \<noteq> []\<close> by (auto simp: stream_sent_def o1 end_cleared_def frame_ends_def)
qed

lemma send_loop_sent:
  "send_loop emit_frame frame_ends mx st w = (fs, n, st', w') \<Longrightarrow> pending_ok (ss_pending st) \<Longrightarrow>
   stream_sent (unat mx) st fs st' \<and> n = length (concat (map m_data fs)) \<and> list_all (\<lambda>f. m_data f \<noteq> []) fs"
proof (induction rule: send_loop_induct)
  case (stop st w)
  then show ?case
    by (simp add: stream_sent_nothing)
next
  case (last_piece st w c o1 st1)
  then show ?case
    using send_piece_sent [of st c mx w o1 st1] by simp
next
  case (piece st w c o1 st1 os n st' w')
  note p = send_piece_sent [OF piece.prems piece(6,5,7,2)]
  then have "pending_ok (ss_pending st1)"
    by (simp add: stream_sent_def)
  then show ?case
    using piece.IH p stream_sent_trans [OF p(1), of os st'] by auto
qed

section \<open>All streams\<close>

text \<open>The frames of one stream among those sent, and what all streams together have sent.\<close>

definition own :: "H2StreamSendState \<Rightarrow> Http2Frame list \<Rightarrow> Http2Frame list" where
  "own st fs = filter (\<lambda>f. streamId f = ss_stream_id st) fs"

definition streams_sent :: "nat \<Rightarrow> H2StreamSendState list \<Rightarrow> Http2Frame list \<Rightarrow> H2StreamSendState list \<Rightarrow> bool" where
  "streams_sent mx sts fs sts' \<longleftrightarrow> list_all2 (\<lambda>st st'. stream_sent mx st (own st fs) st') sts sts'
     \<and> (\<forall>f \<in> set fs. streamId f \<in> set (map ss_stream_id sts))"

definition streams_ok :: "H2StreamSendState list \<Rightarrow> bool" where
  "streams_ok sts \<longleftrightarrow> distinct (map ss_stream_id sts) \<and> (\<forall>st \<in> set sts. pending_ok (ss_pending st))"

lemma own_append [simp]: "own st (fs @ gs) = own st fs @ own st gs"
  by (simp add: own_def)

lemma stream_sent_id: "stream_sent mx st fs st' \<Longrightarrow> ss_stream_id st' = ss_stream_id st"
  by (simp add: stream_sent_def)

lemma streams_sent_ids: "streams_sent mx sts fs sts' \<Longrightarrow> map ss_stream_id sts' = map ss_stream_id sts"
  unfolding streams_sent_def list_all2_conv_all_nth by (auto intro!: nth_equalityI simp: stream_sent_id)

lemma streams_sent_ok: "streams_ok sts \<Longrightarrow> streams_sent mx sts fs sts' \<Longrightarrow> streams_ok sts'"
proof -
  assume ok: "streams_ok sts" and s: "streams_sent mx sts fs sts'"
  have "\<forall>st' \<in> set sts'. pending_ok (ss_pending st')"
    using s by (auto simp: streams_sent_def list_all2_conv_all_nth in_set_conv_nth stream_sent_def)
  then show ?thesis
    using ok streams_sent_ids [OF s] by (simp add: streams_ok_def)
qed

lemma streams_sent_trans:
  assumes "streams_sent mx sts fs sts1" "streams_sent mx sts1 gs sts2"
  shows "streams_sent mx sts (fs @ gs) sts2"
proof -
  have "stream_sent mx (sts ! i) (own (sts ! i) (fs @ gs)) (sts2 ! i)" if "i < length sts" for i
  proof -
    have 1: "stream_sent mx (sts ! i) (own (sts ! i) fs) (sts1 ! i)" "length sts1 = length sts"
      using assms(1) that by (auto simp: streams_sent_def list_all2_conv_all_nth)
    have "stream_sent mx (sts1 ! i) (own (sts1 ! i) gs) (sts2 ! i)"
      using assms(2) that 1(2) by (simp add: streams_sent_def list_all2_conv_all_nth)
    then show ?thesis
      using stream_sent_trans [OF 1(1)] stream_sent_id [OF 1(1)] by (simp add: own_def)
  qed
  moreover have "length sts2 = length sts"
    using assms unfolding streams_sent_def by (metis list_all2_lengthD)
  moreover have "set (map ss_stream_id sts1) = set (map ss_stream_id sts)"
    using streams_sent_ids [OF assms(1)] by simp
  ultimately show ?thesis
    using assms unfolding streams_sent_def by (auto simp: list_all2_conv_all_nth)
qed

lemma streams_sent_Cons:
  assumes "stream_sent mx st fs st'" "streams_sent mx sts gs sts'" "ss_stream_id st \<notin> set (map ss_stream_id sts)"
  shows "streams_sent mx (st # sts) (fs @ gs) (st' # sts')"
proof -
  have f: "\<forall>f \<in> set fs. streamId f = ss_stream_id st"
    using assms(1) by (simp add: stream_sent_def list_all_iff)
  have g: "\<forall>f \<in> set gs. streamId f \<in> ss_stream_id ` set sts"
    using assms(2) by (simp add: streams_sent_def)
  have g': "\<forall>f \<in> set gs. streamId f \<noteq> ss_stream_id st"
    using g assms(3) by (metis list.set_map)
  have o1: "own st (fs @ gs) = fs"
    using f g' by (auto simp: own_def filter_empty_conv intro: filter_True)
  have "own s (fs @ gs) = own s gs" if "s \<in> set sts" for s
    using f assms(3) that by (auto simp: own_def filter_empty_conv)
  then have "list_all2 (\<lambda>st st'. stream_sent mx st (own st (fs @ gs)) st') sts sts'"
    using assms(2) unfolding streams_sent_def by (auto simp: list_all2_conv_all_nth)
  then show ?thesis
    using assms(1) f g o1 by (auto simp: streams_sent_def)
qed

lemma streams_sent_nothing:
  "list_all2 (\<lambda>st st'. stream_sent mx st [] st') sts sts' \<Longrightarrow> streams_sent mx sts [] sts'"
  by (simp add: streams_sent_def own_def)

lemma streams_sent_refl: "streams_ok sts \<Longrightarrow> streams_sent mx sts [] sts"
  by (rule streams_sent_nothing) (auto simp: list_all2_conv_all_nth streams_ok_def intro!: stream_sent_nothing)

lemma normalized_sent:
  assumes "pending_ok (ss_pending st)"
  shows "stream_sent mx st [] (normalized st)" "pending_ok (ss_pending (normalized st))"
  using normalizePending_ok [OF assms] by (auto intro!: stream_sent_nothing)

lemma refill_sent:
  assumes "pending_ok (ss_pending st)"
  shows "stream_sent mx st [] (refill cfg st)" "pending_ok (ss_pending (refill cfg st))"
  using normalizePending_ok [OF assms] by (auto simp: refill_def intro!: stream_sent_nothing)

lemma send_round_sent:
  "send_round emit_frame frame_ends mx cfg sts w = (fs, n, sts', w') \<Longrightarrow> streams_ok sts \<Longrightarrow>
   streams_sent (unat mx) sts fs sts' \<and> n = length (concat (map m_data fs))"
proof (induction sts arbitrary: fs n sts' w w')
  case Nil
  then show ?case
    by (simp add: streams_sent_def)
next
  case (Cons st sts)
  have st: "pending_ok (ss_pending st)" and sts: "streams_ok sts" and new: "ss_stream_id st \<notin> set (map ss_stream_id sts)"
    using Cons.prems(2) by (auto simp: streams_ok_def)
  from Cons.prems(1) show ?case
  proof (cases rule: send_round_cases)
    case (skip sts1)
    have "stream_sent (unat mx) st [] ((normalized st)\<lparr>ss_queued := False\<rparr>)"
      using normalizePending_ok [OF st] by (auto intro!: stream_sent_nothing)
    then show ?thesis
      using Cons.IH [OF skip(2) sts] streams_sent_Cons [OF _ _ new] skip(3) by fastforce
  next
    case (stop st3)
    note l = send_loop_sent [OF stop(3) refill_sent(2) [OF st]]
    have "stream_sent (unat mx) st fs st3"
      using stream_sent_trans [OF refill_sent(1) [OF st]] l by fastforce
    then show ?thesis
      using streams_sent_Cons [OF _ streams_sent_refl [OF sts] new] l stop(5) by fastforce
  next
    case (go os1 n1 st3 w1 os2 n2 sts2)
    note l = send_loop_sent [OF go(3) refill_sent(2) [OF st]]
    have "stream_sent (unat mx) st os1 st3"
      using stream_sent_trans [OF refill_sent(1) [OF st]] l by fastforce
    then show ?thesis
      using streams_sent_Cons [OF _ _ new] Cons.IH [OF go(5) sts] l go(6-8) by simp
  qed
qed

lemma send_rounds_cases [consumes 1, case_names closed idle more]:
  assumes "send_rounds emit ends mx cfg sts w = (os, n, sts', w')"
  obtains (closed) "w \<le> 0" "os = []" "n = 0" "sts' = sts" "w' = w"
  | (idle) "0 < w" "send_round emit ends mx cfg sts w = ([], n, sts', w')" "os = []"
  | (more) os1 n1 sts1 w1 os2 n2 where "0 < w" "send_round emit ends mx cfg sts w = (os1, n1, sts1, w1)" "os1 \<noteq> []"
      "send_rounds emit ends mx cfg sts1 w1 = (os2, n2, sts', w')" "os = os1 @ os2" "n = n1 + n2"
proof (cases "0 < w")
  case True
  obtain os1 n1 sts1 w1 where r: "send_round emit ends mx cfg sts w = (os1, n1, sts1, w1)"
    by (metis prod_cases4)
  obtain os2 n2 sts2 w2 where rr: "send_rounds emit ends mx cfg sts1 w1 = (os2, n2, sts2, w2)"
    by (metis prod_cases4)
  have "send_rounds emit ends mx cfg sts w =
      (if os1 = [] then (os1, n1, sts1, w1) else (os1 @ os2, n1 + n2, sts2, w2))"
    by (subst send_rounds.simps) (simp add: True r rr)
  with assms have eq: "(os, n, sts', w') = (if os1 = [] then (os1, n1, sts1, w1) else (os1 @ os2, n1 + n2, sts2, w2))"
    by simp
  show ?thesis
  proof (cases "os1 = []")
    case True
    then show ?thesis
      using eq r idle \<open>0 < w\<close> by simp
  next
    case False
    then show ?thesis
      using eq r rr more \<open>0 < w\<close> by simp
  qed
next
  case False
  then have "send_rounds emit ends mx cfg sts w = ([], 0, sts, w)"
    by (subst send_rounds.simps) simp
  then show ?thesis
    using assms closed False by simp
qed

lemma send_loop_nonneg: "send_loop emit ends mx st w = (os, n, st', w') \<Longrightarrow> 0 \<le> w \<Longrightarrow> 0 \<le> w'"
proof (induction rule: send_loop_induct)
  case (last_piece st w c o1 st1)
  then show ?case
    using chunk_size_le(1) [of mx st w] by simp
qed simp_all

lemma send_round_nonneg: "send_round emit ends mx cfg sts w = (os, n, sts', w') \<Longrightarrow> 0 \<le> w \<Longrightarrow> 0 \<le> w'"
proof (induction sts arbitrary: os n sts' w w')
  case (Cons st sts)
  from Cons.prems(1) show ?case
    by (cases rule: send_round_cases) (use Cons in \<open>auto dest: send_loop_nonneg\<close>)
qed simp

text \<open>Induction over the rounds.\<close>

lemma send_rounds_induct [consumes 1, case_names closed idle more]:
  assumes "send_rounds emit ends mx cfg sts w = (os, n, sts', w')"
    and closed: "\<And>sts w. w \<le> 0 \<Longrightarrow> P sts w [] 0 sts w"
    and idle: "\<And>sts w n sts' w'. 0 < w \<Longrightarrow> send_round emit ends mx cfg sts w = ([], n, sts', w') \<Longrightarrow> P sts w [] n sts' w'"
    and more: "\<And>sts w os1 n1 sts1 w1 os2 n2 sts' w'. 0 < w \<Longrightarrow> send_round emit ends mx cfg sts w = (os1, n1, sts1, w1) \<Longrightarrow>
      os1 \<noteq> [] \<Longrightarrow> send_rounds emit ends mx cfg sts1 w1 = (os2, n2, sts', w') \<Longrightarrow> P sts1 w1 os2 n2 sts' w' \<Longrightarrow>
      P sts w (os1 @ os2) (n1 + n2) sts' w'"
  shows "P sts w os n sts' w'"
  using assms(1)
proof (induction "nat w" arbitrary: sts w os n sts' w' rule: less_induct)
  case less
  from less.prems show ?case
  proof (cases rule: send_rounds_cases)
    case (more os1 n1 sts1 w1 os2 n2)
    have "nat w1 < nat w"
      using send_round_window [OF more(2)] more(1,3) by auto
    then show ?thesis
      using less.hyps [OF _ more(4)] assms(4) [OF more(1-4)] more(5,6) by simp
  qed (use closed idle in auto)
qed

lemma send_rounds_sent:
  "send_rounds emit_frame frame_ends mx cfg sts w = (fs, n, sts', w') \<Longrightarrow> streams_ok sts \<Longrightarrow>
   streams_sent (unat mx) sts fs sts' \<and> n = length (concat (map m_data fs)) \<and> w' = w - int n \<and> (0 \<le> w \<longrightarrow> 0 \<le> w')"
proof (induction rule: send_rounds_induct)
  case (closed sts w)
  then show ?case
    by (simp add: streams_sent_refl)
next
  case (idle sts w n sts' w')
  then show ?case
    using send_round_sent [OF idle(2,3)] send_round_window [OF idle(2)] by simp
next
  case (more sts w os1 n1 sts1 w1 os2 n2 sts' w')
  note r = send_round_sent [OF more(2) more.prems]
  have "streams_ok sts1"
    using streams_sent_ok [OF more.prems] r by blast
  then have IH: "streams_sent (unat mx) sts1 os2 sts'" "n2 = length (concat (map m_data os2))" "w' = w1 - int n2"
      "0 \<le> w1 \<longrightarrow> 0 \<le> w'"
    using more.IH by blast+
  have "streams_sent (unat mx) sts (os1 @ os2) sts'"
    using streams_sent_trans r IH(1) by blast
  then show ?case
    using IH(2-) r send_round_window [OF more(2)] send_round_nonneg [OF more(2)] by simp
qed

lemma end_stream_pass_sent:
  "end_stream_pass emit_frame sts = (fs, sts') \<Longrightarrow> streams_ok sts \<Longrightarrow>
   streams_sent mx sts fs sts' \<and> concat (map m_data fs) = []"
proof (induction sts arbitrary: fs sts')
  case Nil
  then show ?case
    by (simp add: streams_sent_def)
next
  case (Cons st sts)
  have st: "pending_ok (ss_pending st)" and sts: "streams_ok sts" and new: "ss_stream_id st \<notin> set (map ss_stream_id sts)"
    using Cons.prems(2) by (auto simp: streams_ok_def)
  obtain gs sts1 where e: "end_stream_pass emit_frame sts = (gs, sts1)"
    by fastforce
  note IH = Cons.IH [OF e sts]
  let ?p = "normalizePending (ss_pending st)"
  note np = normalizePending_ok [OF st]
  show ?case
  proof (cases "shouldSendEndStreamOnly ?p")
    case True
    then have "fs = emit_frame (ss_stream_id st) [] True # gs" "sts' = st\<lparr>ss_pending := ?p\<lparr>pd_end_stream := False\<rparr>\<rparr> # sts1"
      using Cons.prems(1) e by simp_all
    moreover have "stream_sent mx st [emit_frame (ss_stream_id st) [] True] (st\<lparr>ss_pending := ?p\<lparr>pd_end_stream := False\<rparr>\<rparr>)"
      using True np by (simp add: stream_sent_def emit_frame_build shouldSendEndStreamOnly_def end_cleared_def pending_ok_def
          pending_bytes_def)
    ultimately show ?thesis
      using streams_sent_Cons [OF _ _ new] IH by (fastforce simp: emit_frame_build)
  next
    case False
    then have "fs = gs" "sts' = normalized st # sts1"
      using Cons.prems(1) e by simp_all
    then show ?thesis
      using streams_sent_Cons [OF normalized_sent(1) [OF st] _ new] IH by fastforce
  qed
qed

section \<open>No stream is left waiting\<close>

definition drained :: "H2StreamSendState \<Rightarrow> bool" where
  "drained st \<longleftrightarrow> pending_bytes (ss_pending st) = [] \<or> ss_stream_window st \<le> 0"

lemma quantumFor_pos: "0 < quantumFor st cfg"
  by (simp add: quantumFor_def SIZE_MAX_def Let_def unat_gt_0)

lemma send_loop_progress:
  assumes "pd_chunks (ss_pending st) \<noteq> []" "0 < ss_stream_window st" "0 < w" "0 < ss_deficit st"
    "chunk_size mx st w \<noteq> 0" "send_loop emit ends mx st w = (os, n, st', w')"
  shows "os \<noteq> []"
  using assms by (subst (asm) send_loop.simps) (auto simp: Let_def split: if_splits prod.splits)

lemma refill_progress:
  assumes "pending_ok (ss_pending st)" "pd_chunks (ss_pending (normalized st)) \<noteq> []" "0 < ss_stream_window st" "0 < w"
    "mx \<noteq> 0" "send_loop emit ends mx (refill cfg st) w = (os, n, st', w')"
  shows "os \<noteq> []"
proof -
  have "0 < ss_deficit (refill cfg st)"
    using quantumFor_pos by (simp add: refill_def)
  moreover have "0 < frontPendingSize (ss_pending (refill cfg st))"
    using normalizePending_ok(3,4) [OF assms(1)] assms(2) by (simp add: refill_def)
  ultimately show ?thesis
    using send_loop_progress [OF _ _ assms(4) _ _ assms(6)] assms(2,3,4,5)
    by (simp add: refill_def chunk_size_def unat_gt_0)
qed

lemma send_round_idle:
  "send_round emit ends mx cfg sts w = ([], n, sts', w') \<Longrightarrow> 0 < w \<Longrightarrow> mx \<noteq> 0 \<Longrightarrow>
   \<forall>st \<in> set sts. pending_ok (ss_pending st) \<Longrightarrow> \<forall>st' \<in> set sts'. drained st'"
proof (induction sts arbitrary: n sts' w')
  case (Cons st sts)
  have st: "pending_ok (ss_pending st)"
    using Cons.prems(4) by simp
  from Cons.prems(1) show ?case
  proof (cases rule: send_round_cases)
    case (skip sts1)
    then have "drained ((normalized st)\<lparr>ss_queued := False\<rparr>)"
      using normalizePending_ok [OF st] by (auto simp: drained_def)
    then show ?thesis
      using Cons.IH [OF skip(2)] Cons.prems skip(3) by simp
  next
    case (stop st3)
    then show ?thesis
      using refill_progress [OF st stop(1,2) Cons.prems(2,3) stop(3)] by simp
  next
    case (go os1 n1 st3 w1 os2 n2 sts2)
    then show ?thesis
      using refill_progress [OF st go(1,2) Cons.prems(2,3) go(3)] by simp
  qed
qed simp

lemma send_rounds_drained:
  "send_rounds emit_frame frame_ends mx cfg sts w = (fs, n, sts', w') \<Longrightarrow> streams_ok sts \<Longrightarrow> mx \<noteq> 0 \<Longrightarrow> 0 < w' \<Longrightarrow>
   \<forall>st' \<in> set sts'. drained st'"
proof (induction rule: send_rounds_induct)
  case (idle sts w n sts' w')
  then show ?case
    using send_round_idle [OF idle(2,1)] by (simp add: streams_ok_def)
next
  case (more sts w os1 n1 sts1 w1 os2 n2 sts' w')
  then show ?case
    using streams_sent_ok [OF more.prems(1)] send_round_sent [OF more(2) more.prems(1)] by blast
qed simp

section \<open>The byte variant\<close>

lemma dataBytes_emit: "length d \<le> 16384 \<Longrightarrow> dataBytes sid d fin = serialize (emit_frame sid d fin)"
  by (simp add: emit_frame_build serialize_build_data dataBytes_def kDefaultMaxFrameSize_def)

lemma ends_agree:
  assumes "pending_ok p" "0 < c" "c \<le> frontPendingSize p" "takeFrontData p c = (payload, p')"
  shows "bytes_ends p c p' \<longleftrightarrow> frame_ends p c p'"
proof -
  note t = takeFrontData_ok [OF assms]
  obtain a cs where a: "pd_chunks p = a # cs" "c \<le> length a - pd_front_offset p" "pd_front_offset p < length a" "[] \<notin> set cs"
    using assms(1-3) by (auto simp: frontPendingSize_def pending_ok_def split: list.splits if_splits)
  have "length (pending_bytes p) = length a - pd_front_offset p + length (concat cs)"
    using a by (simp add: pending_bytes_def)
  moreover have "length (pending_bytes p) = c + length (pending_bytes p')"
    using arg_cong [OF t(1), of length] t(2) by simp
  ultimately have "length (pending_bytes p') = 0 \<longleftrightarrow> length (concat cs) = 0 \<and> pd_front_offset p + c = length a"
    using a(2,3) by linarith
  then have "pending_bytes p' = [] \<longleftrightarrow> concat cs = [] \<and> pd_front_offset p + c = length a"
    by (simp only: length_0_conv)
  moreover have "concat cs = [] \<longleftrightarrow> cs = []"
    using a(4) by (cases cs) auto
  ultimately show ?thesis
    using t(4,5) a(1) by (auto simp: bytes_ends_def frame_ends_def)
qed

lemma send_piece_bytes:
  assumes "pending_ok (ss_pending st)" "0 < c" "c = chunk_size mx st w" "unat mx \<le> 16384"
    "send_piece emit_frame frame_ends st c = (o1, st1)"
  shows "send_piece dataBytes bytes_ends st c = (serialize o1, st1)"
proof -
  obtain payload p where t: "takeFrontData (ss_pending st) c = (payload, p)"
    by fastforce
  have c: "c \<le> frontPendingSize (ss_pending st)" "c \<le> 16384"
    using assms(3,4) chunk_size_le [of mx st w] by auto
  have "length payload \<le> 16384"
    using takeFrontData_ok(2) [OF assms(1,2) c(1) t] c(2) by simp
  then show ?thesis
    using assms(5) t ends_agree [OF assms(1,2) c(1) t] by (auto simp: send_piece_def dataBytes_emit Let_def)
qed

lemma send_loop_bytes:
  assumes "unat mx \<le> 16384"
  shows "send_loop emit_frame frame_ends mx st w = (fs, n, st', w') \<Longrightarrow> pending_ok (ss_pending st) \<Longrightarrow>
   send_loop dataBytes bytes_ends mx st w = (map serialize fs, n, st', w')"
proof (induction rule: send_loop_induct)
  case (stop st w)
  then show ?case
    by (subst send_loop.simps) (auto simp: Let_def)
next
  case (last_piece st w c o1 st1)
  then show ?case
    using send_piece_bytes [OF last_piece.prems last_piece(6,5) assms last_piece(7)]
    by (subst send_loop.simps) (simp add: Let_def)
next
  case (piece st w c o1 st1 os n st' w')
  have "pending_ok (ss_pending st1)"
    using send_piece_sent(1) [OF piece.prems piece(6,5,7,2)] by (simp add: stream_sent_def)
  then show ?case
    using send_piece_bytes [OF piece.prems piece(6,5) assms piece(7)] piece
    by (subst send_loop.simps) (simp add: Let_def)
qed

lemma send_round_bytes:
  assumes "unat mx \<le> 16384"
  shows "send_round emit_frame frame_ends mx cfg sts w = (fs, n, sts', w') \<Longrightarrow> \<forall>st \<in> set sts. pending_ok (ss_pending st) \<Longrightarrow>
   send_round dataBytes bytes_ends mx cfg sts w = (map serialize fs, n, sts', w')"
proof (induction sts arbitrary: fs n sts' w w')
  case (Cons st sts)
  have st: "pending_ok (ss_pending st)" "\<forall>st \<in> set sts. pending_ok (ss_pending st)"
    using Cons.prems(2) by simp_all
  note loop = send_loop_bytes [OF assms _ refill_sent(2) [OF st(1)]]
  from Cons.prems(1) show ?case
  proof (cases rule: send_round_cases)
    case (skip sts1)
    then show ?thesis
      using Cons.IH [OF skip(2) st(2)] by (simp add: Let_def)
  next
    case (stop st3)
    then show ?thesis
      using loop [OF stop(3)] by (simp add: Let_def refill_def)
  next
    case (go os1 n1 st3 w1 os2 n2 sts2)
    then show ?thesis
      using loop [OF go(3)] Cons.IH [OF go(5) st(2)] by (simp add: Let_def refill_def)
  qed
qed simp

lemma send_rounds_bytes:
  assumes "unat mx \<le> 16384"
  shows "send_rounds emit_frame frame_ends mx cfg sts w = (fs, n, sts', w') \<Longrightarrow> streams_ok sts \<Longrightarrow>
   send_rounds dataBytes bytes_ends mx cfg sts w = (map serialize fs, n, sts', w')"
proof (induction rule: send_rounds_induct)
  case (closed sts w)
  then show ?case
    by (subst send_rounds.simps) simp
next
  case (idle sts w n sts' w')
  then show ?case
    using send_round_bytes [OF assms idle(2)] by (subst send_rounds.simps) (simp add: streams_ok_def)
next
  case (more sts w os1 n1 sts1 w1 os2 n2 sts' w')
  have "streams_ok sts1"
    using streams_sent_ok [OF more.prems] send_round_sent [OF more(2) more.prems] by blast
  then show ?case
    using more send_round_bytes [OF assms more(2)] by (subst send_rounds.simps) (simp add: streams_ok_def)
qed

lemma end_stream_pass_bytes:
  "end_stream_pass emit_frame sts = (fs, sts') \<Longrightarrow> end_stream_pass dataBytes sts = (map serialize fs, sts')"
proof (induction sts arbitrary: fs sts')
  case (Cons st sts)
  obtain gs sts1 where "end_stream_pass emit_frame sts = (gs, sts1)"
    by fastforce
  then show ?case
    using Cons by (auto simp: Let_def dataBytes_emit split: if_splits)
qed simp

lemma pick_streams_bytes:
  assumes "unat (ob_max_frame_size budget) \<le> 16384" "streams_ok sts" "pickSendableFrames_streams budget cfg sts = (sel, sts')"
  shows "pickSendableBytes_streams budget cfg sts = (\<lparr>sel_frames = map serialize (sel_frames sel), sel_total = sel_total sel\<rparr>, sts')"
proof -
  let ?mx = "ob_max_frame_size budget"
  obtain fs1 sts1 where e: "end_stream_pass emit_frame sts = (fs1, sts1)"
    by fastforce
  obtain fs2 n sts2 w where r: "send_rounds emit_frame frame_ends ?mx cfg sts1 (ob_conn_window budget) = (fs2, n, sts2, w)"
    by (metis prod_cases4)
  have "streams_ok sts1"
    using streams_sent_ok [OF assms(2)] end_stream_pass_sent [OF e assms(2)] by blast
  then show ?thesis
    using assms(3) end_stream_pass_bytes [OF e] send_rounds_bytes [OF assms(1) r] e r
    by (auto simp: pickSendableFrames_streams_def pickSendableBytes_streams_def pick_streams_def)
qed

section \<open>Properties\<close>

lemma pick_streams_sent:
  assumes "streams_ok sts" "pickSendableFrames_streams budget cfg sts = (sel, sts')"
  shows "streams_sent (unat (ob_max_frame_size budget)) sts (sel_frames sel) sts'"
    "sel_total sel = length (concat (map m_data (sel_frames sel)))"
    "int (sel_total sel) \<le> max 0 (ob_conn_window budget)"
    "ob_max_frame_size budget \<noteq> 0 \<Longrightarrow> int (sel_total sel) < ob_conn_window budget \<Longrightarrow> \<forall>st' \<in> set sts'. drained st'"
proof -
  let ?mx = "ob_max_frame_size budget"
  have "streams_sent (unat ?mx) sts (sel_frames sel) sts' \<and> sel_total sel = length (concat (map m_data (sel_frames sel)))
    \<and> int (sel_total sel) \<le> max 0 (ob_conn_window budget)
    \<and> (?mx \<noteq> 0 \<longrightarrow> int (sel_total sel) < ob_conn_window budget \<longrightarrow> (\<forall>st' \<in> set sts'. drained st'))"
  proof (cases "?mx = 0")
    case True
    then show ?thesis
      using assms by (auto simp: pickSendableFrames_streams_def pick_streams_def streams_sent_refl)
  next
    case False
    obtain fs1 sts1 where e: "end_stream_pass emit_frame sts = (fs1, sts1)"
      by fastforce
    obtain fs2 n sts2 w where r: "send_rounds emit_frame frame_ends ?mx cfg sts1 (ob_conn_window budget) = (fs2, n, sts2, w)"
      by (metis prod_cases4)
    have sel: "sel = \<lparr>sel_frames = fs1 @ fs2, sel_total = n\<rparr>" "sts' = sts2"
      using assms(2) False e r by (simp_all add: pickSendableFrames_streams_def pick_streams_def)
    note s1 = end_stream_pass_sent [OF e assms(1), of "unat ?mx"]
    have ok: "streams_ok sts1"
      using streams_sent_ok [OF assms(1)] s1 by blast
    note s2 = send_rounds_sent [OF r ok]
    have "streams_sent (unat ?mx) sts (fs1 @ fs2) sts2"
      using streams_sent_trans s1 s2 by blast
    moreover have "w = ob_conn_window budget - int n" "n = length (concat (map m_data fs2))"
      using s2 by simp_all
    moreover have "ob_conn_window budget \<le> 0 \<Longrightarrow> n = 0"
      using r by (subst (asm) send_rounds.simps) simp
    ultimately show ?thesis
      using s1 s2 sel send_rounds_drained [OF r ok False] by auto
  qed
  then show "streams_sent (unat (ob_max_frame_size budget)) sts (sel_frames sel) sts'"
    "sel_total sel = length (concat (map m_data (sel_frames sel)))"
    "int (sel_total sel) \<le> max 0 (ob_conn_window budget)"
    "ob_max_frame_size budget \<noteq> 0 \<Longrightarrow> int (sel_total sel) < ob_conn_window budget \<Longrightarrow> \<forall>st' \<in> set sts'. drained st'"
    by blast+
qed



text \<open>The two variants of the scheduler agree: up to the default frame size, picking bytes gives the
  serialized frames that picking frames gives, with the same byte count, and leaves the queues in the same state.\<close>

theorem scheduler_bytes_agree:
  assumes "unat (ob_max_frame_size budget) \<le> 16384" "streams_ok (oq_data_streams q)"
  shows "pickSendableBytes budget cfg q =
    (case pickSendableFrames budget cfg q of (sel, q') \<Rightarrow>
       (\<lparr>sel_frames = map serialize (sel_frames sel), sel_total = sel_total sel\<rparr>, q'))"
proof -
  obtain sel sts' where "pickSendableFrames_streams budget cfg (oq_data_streams q) = (sel, sts')"
    by fastforce
  with pick_streams_bytes [OF assms this] show ?thesis
    by (simp add: pickSendableBytes_def pickSendableFrames_def)
qed

text \<open>Two streams with a window of 10 bytes between them and a frame size of 4.\<close>

definition sample_stream :: "u32 \<Rightarrow> bytes list \<Rightarrow> H2StreamSendState" where
  "sample_stream sid cs = \<lparr>ss_pending = \<lparr>pd_chunks = cs, pd_front_offset = 0, pd_end_stream = True\<rparr>, ss_deficit = 0,
     ss_stream_id = sid, ss_stream_window = 65535, ss_weight = 16, ss_queued = False\<rparr>"

definition sample_streams :: "H2StreamSendState list" where
  "sample_streams = [sample_stream 1 [[1, 2, 3], [4, 5]], sample_stream 3 [[6]]]"

definition sample_budget :: H2OutboundBudget where
  "sample_budget = \<lparr>ob_conn_window = 10, ob_max_frame_size = 4\<rparr>"

lemma sample_streams_ok: "streams_ok sample_streams"
  by (simp add: streams_ok_def sample_streams_def sample_stream_def pending_ok_def)


lemma sample_pick:
  "pickSendableFrames_streams sample_budget \<lparr>base_quantum = 1\<rparr> sample_streams =
   (\<lparr>sel_frames = [build_data 1 [1, 2, 3] False, build_data 1 [4, 5] True, build_data 3 [6] True], sel_total = 6\<rparr>,
    [(sample_stream 1 [])\<lparr>ss_pending := \<lparr>pd_chunks = [], pd_front_offset = 0, pd_end_stream = False\<rparr>,
        ss_deficit := 11, ss_stream_window := 65530\<rparr>,
     (sample_stream 3 [])\<lparr>ss_pending := \<lparr>pd_chunks = [], pd_front_offset = 0, pd_end_stream = False\<rparr>,
        ss_deficit := 15, ss_stream_window := 65534\<rparr>])"
  by (simp add: pickSendableFrames_streams_def pick_streams_def sample_budget_def sample_streams_def sample_stream_def
      normalizePending_def shouldSendEndStreamOnly_def send_rounds.simps send_loop.simps chunk_size_def send_piece_def
      takeFrontData_def frontPendingSize_def quantumFor_def SIZE_MAX_def frame_ends_def emit_frame_build Let_def)


definition sample_queues :: H2OutboundQueues where
  "sample_queues = \<lparr>oq_control_frames = [build_rstStream 5 ProtocolError], oq_header_frames = [], oq_data_streams = sample_streams\<rparr>"

theorem scheduler_bytes_agree_witness:
  "sel_frames (fst (pickSendableBytes sample_budget \<lparr>base_quantum = 1\<rparr> sample_queues)) =
   map serialize [build_rstStream 5 ProtocolError, build_data 1 [1, 2, 3] False, build_data 1 [4, 5] True, build_data 3 [6] True]"
proof -
  have a: "unat (ob_max_frame_size sample_budget) \<le> 16384" "streams_ok (oq_data_streams sample_queues)"
    by (simp_all add: sample_budget_def sample_queues_def sample_streams_ok)
  show ?thesis
    unfolding scheduler_bytes_agree [OF a]
    by (simp add: pickSendableFrames_def sample_queues_def sample_pick [unfolded One_nat_def] del: list.map)
qed

end
