(* ===== verification/H2_Core.thy ===== *)
theory H2_Core
  imports H2_Dispatch H2_Sched
begin

text \<open>
  \<open>Http2ConnectionCore\<close> of \<^verbatim>\<open>galay-http2/kernel/h2_core.cc\<close>: the connection object that joins the
  dispatcher and the scheduler. Every public method is a function on the record of its members;
  the calls of other components and the turns of \<open>run\<close> are the steps of \<open>core_step\<close>, in any order.
  A \<open>steady_clock\<close> time point is a number of nanoseconds, a timeout a number of milliseconds.
\<close>

section \<open>State\<close>

record TimerConfig =
  settings_ack_timeout :: int
  ping_interval :: int
  ping_timeout :: int
  graceful_shutdown_timeout :: int

datatype TimerEvent = TimerNone | SendPing | SettingsAckTimeout | PingAckTimeout | GracefulShutdownTimeout

datatype CoreState = CoreIdle | CoreRunning | CoreDraining | CoreClosing | CoreStopped

record Http2ConnectionCore =
  m_timer_config :: TimerConfig
  m_settings_sent_at :: int
  m_last_frame_recv_at :: int
  m_last_ping_sent_at :: int
  m_graceful_shutdown_started_at :: int
  m_dispatch_state :: H2DispatcherConnectionState
  m_outbound_queues :: H2OutboundQueues
  m_state :: CoreState
  m_stop_requested :: bool
  m_settings_ack_pending :: bool
  m_waiting_ping_ack :: bool
  m_graceful_shutdown_started :: bool
  m_outbound_ready :: bool

definition default_timers :: TimerConfig where
  "default_timers = \<lparr>settings_ack_timeout = 10000, ping_interval = 30000, ping_timeout = 10000,
     graceful_shutdown_timeout = 5000\<rparr>"

definition new_core :: "int \<Rightarrow> Http2ConnectionCore" where
  "new_core now = \<lparr>m_timer_config = default_timers, m_settings_sent_at = 0, m_last_frame_recv_at = now,
     m_last_ping_sent_at = 0, m_graceful_shutdown_started_at = 0, m_dispatch_state = new_dispatcher,
     m_outbound_queues = \<lparr>oq_control_frames = [], oq_header_frames = [], oq_data_streams = []\<rparr>,
     m_state = CoreIdle, m_stop_requested = False, m_settings_ack_pending = False, m_waiting_ping_ack = False,
     m_graceful_shutdown_started = False, m_outbound_ready = False\<rparr>"

abbreviation ms :: "int \<Rightarrow> int" where "ms n \<equiv> n * 1000000"

section \<open>Operations\<close>

definition hasPendingData :: "H2PendingData \<Rightarrow> bool" where
  "hasPendingData p \<longleftrightarrow> pd_end_stream p \<or> pd_chunks p \<noteq> []"

definition hasQueuedData :: "H2StreamSendState list \<Rightarrow> bool" where
  "hasQueuedData sts \<longleftrightarrow> list_ex (\<lambda>st. hasPendingData (ss_pending st)) sts"

definition hasOutboundWork :: "Http2ConnectionCore \<Rightarrow> bool" where
  "hasOutboundWork c \<longleftrightarrow> oq_control_frames (m_outbound_queues c) \<noteq> []
     \<or> oq_header_frames (m_outbound_queues c) \<noteq> [] \<or> hasQueuedData (oq_data_streams (m_outbound_queues c))"

definition acceptsNewStreams :: "Http2ConnectionCore \<Rightarrow> bool" where
  "acceptsNewStreams c \<longleftrightarrow> m_state c = CoreIdle \<or> m_state c = CoreRunning"

definition requestStop :: "Http2ConnectionCore \<Rightarrow> Http2ConnectionCore" where
  "requestStop c = c\<lparr>m_stop_requested := True\<rparr>"

definition forceClose :: "Http2ConnectionCore \<Rightarrow> Http2ConnectionCore" where
  "forceClose c = requestStop (c\<lparr>m_state := CoreClosing\<rparr>)"

definition setTimerConfig :: "TimerConfig \<Rightarrow> Http2ConnectionCore \<Rightarrow> Http2ConnectionCore" where
  "setTimerConfig cfg c = c\<lparr>m_timer_config := cfg\<rparr>"

definition markSettingsSent :: "int \<Rightarrow> Http2ConnectionCore \<Rightarrow> Http2ConnectionCore" where
  "markSettingsSent at c = c\<lparr>m_settings_ack_pending := True, m_settings_sent_at := at\<rparr>"

definition markSettingsAcked :: "Http2ConnectionCore \<Rightarrow> Http2ConnectionCore" where
  "markSettingsAcked c = c\<lparr>m_settings_ack_pending := False\<rparr>"

definition markFrameReceivedAt :: "int \<Rightarrow> Http2ConnectionCore \<Rightarrow> Http2ConnectionCore" where
  "markFrameReceivedAt at c = c\<lparr>m_last_frame_recv_at := at\<rparr>"

definition markPingSent :: "int \<Rightarrow> Http2ConnectionCore \<Rightarrow> Http2ConnectionCore" where
  "markPingSent at c = c\<lparr>m_waiting_ping_ack := True, m_last_ping_sent_at := at\<rparr>"

definition markPingAcked :: "Http2ConnectionCore \<Rightarrow> Http2ConnectionCore" where
  "markPingAcked c = c\<lparr>m_waiting_ping_ack := False\<rparr>"

definition beginGracefulShutdown :: "int \<Rightarrow> Http2ConnectionCore \<Rightarrow> Http2ConnectionCore" where
  "beginGracefulShutdown at c =
    c\<lparr>m_graceful_shutdown_started := True, m_graceful_shutdown_started_at := at, m_state := CoreDraining\<rparr>"

definition checkTimers :: "int \<Rightarrow> Http2ConnectionCore \<Rightarrow> TimerEvent \<times> Http2ConnectionCore" where
  "checkTimers now c =
    (let cfg = m_timer_config c in
     if m_settings_ack_pending c \<and> settings_ack_timeout cfg > 0
        \<and> now - m_settings_sent_at c > ms (settings_ack_timeout cfg) then (SettingsAckTimeout, c)
     else if m_graceful_shutdown_started c \<and> graceful_shutdown_timeout cfg > 0
        \<and> now - m_graceful_shutdown_started_at c > ms (graceful_shutdown_timeout cfg) then (GracefulShutdownTimeout, c)
     else if \<not> m_waiting_ping_ack c then
       if ping_interval cfg > 0 \<and> now - m_last_frame_recv_at c \<ge> ms (ping_interval cfg)
       then (SendPing, c\<lparr>m_waiting_ping_ack := True, m_last_ping_sent_at := now\<rparr>)
       else (TimerNone, c)
     else if ping_timeout cfg > 0 \<and> now - m_last_ping_sent_at c > ms (ping_timeout cfg) then (PingAckTimeout, c)
     else (TimerNone, c))"

definition applyTimerEvent :: "TimerEvent \<Rightarrow> Http2ConnectionCore \<Rightarrow> Http2ConnectionCore" where
  "applyTimerEvent ev c =
    (if ev = SettingsAckTimeout \<or> ev = PingAckTimeout \<or> ev = GracefulShutdownTimeout then forceClose c else c)"

definition push_control :: "Http2Frame \<Rightarrow> Http2ConnectionCore \<Rightarrow> Http2ConnectionCore" where
  "push_control f c = c\<lparr>m_outbound_queues :=
     (m_outbound_queues c)\<lparr>oq_control_frames := oq_control_frames (m_outbound_queues c) @ [f]\<rparr>,
     m_outbound_ready := True\<rparr>"

definition goaway_frame :: "Http2ErrorCode \<Rightarrow> Http2Frame" where
  "goaway_frame code = GoAwayFrame (default_header\<lparr>h_type := FT_GoAway, h_stream_id := 0\<rparr>) 0 [] code"

definition settings_ack_frame :: Http2Frame where
  "settings_ack_frame = setAck True (SettingsFrame (default_header\<lparr>h_type := FT_Settings\<rparr>) [])"

definition ping_ack_frame :: Http2Frame where
  "ping_ack_frame = setAck True (PingFrame (default_header\<lparr>h_type := FT_Ping, h_stream_id := 0\<rparr>) (replicate 8 0))"

definition enqueueDispatchAction :: "Http2ConnectionCore \<Rightarrow> H2DispatchAction \<Rightarrow> Http2ConnectionCore" where
  "enqueueDispatchAction c a = (case a_type a of
     SendGoaway \<Rightarrow> push_control (goaway_frame (a_error_code a)) c
   | SendRstStream \<Rightarrow> push_control (build_rstStream (a_stream_id a) (a_error_code a)) c
   | AckSettings \<Rightarrow> push_control settings_ack_frame c
   | AckPing \<Rightarrow> push_control ping_ack_frame c
   | UpdateWindow \<Rightarrow> c\<lparr>m_outbound_ready := True\<rparr>
   | DeliverToStream \<Rightarrow> c
   | Ignore \<Rightarrow> c)"

definition receiveFrame :: "Http2Frame \<Rightarrow> Http2ConnectionCore \<Rightarrow> H2DispatchResult \<times> Http2ConnectionCore" where
  "receiveFrame f c =
    (let (r, s) = dispatch f (m_dispatch_state c)
     in (r, foldl enqueueDispatchAction (c\<lparr>m_dispatch_state := s\<rparr>) (r_actions r)))"

definition enqueueData :: "u32 \<Rightarrow> bytes \<Rightarrow> bool \<Rightarrow> u8 \<Rightarrow> Http2ConnectionCore \<Rightarrow> Http2ConnectionCore" where
  "enqueueData sid data end_stream weight c =
    (let st = \<lparr>ss_pending = \<lparr>pd_chunks = (if data = [] then [] else [data]), pd_front_offset = 0,
                             pd_end_stream = end_stream\<rparr>,
               ss_deficit = 0, ss_stream_id = sid, ss_stream_window = uint kDefaultInitialWindowSize,
               ss_weight = weight, ss_queued = False\<rparr>
     in c\<lparr>m_outbound_queues :=
            (m_outbound_queues c)\<lparr>oq_data_streams := oq_data_streams (m_outbound_queues c) @ [st]\<rparr>,
          m_outbound_ready := True\<rparr>)"

definition flushOutbound ::
  "H2OutboundBudget \<Rightarrow> H2SchedulerConfig \<Rightarrow> Http2ConnectionCore \<Rightarrow> H2OutboundSelection \<times> Http2ConnectionCore" where
  "flushOutbound budget cfg c =
    (let (sel, q) = pickSendableFrames budget cfg (m_outbound_queues c);
         c1 = c\<lparr>m_outbound_queues := q\<rparr>
     in (sel, c1\<lparr>m_outbound_ready := hasOutboundWork c1\<rparr>))"

definition flushOutboundBytes ::
  "H2OutboundBudget \<Rightarrow> H2SchedulerConfig \<Rightarrow> Http2ConnectionCore \<Rightarrow> H2OutboundBytesSelection \<times> Http2ConnectionCore" where
  "flushOutboundBytes budget cfg c =
    (let (sel, q) = pickSendableBytes budget cfg (m_outbound_queues c);
         c1 = c\<lparr>m_outbound_queues := q\<rparr>
     in (sel, c1\<lparr>m_outbound_ready := hasOutboundWork c1\<rparr>))"

text \<open>The coroutine \<open>run\<close>, in the pieces between its suspension points: its start, one turn of the
  loop at time \<open>now\<close> (taken only while no stop is requested), and what follows the loop.\<close>

definition run_start :: "Http2ConnectionCore \<Rightarrow> Http2ConnectionCore" where
  "run_start c = (if m_state c = CoreIdle then c\<lparr>m_state := CoreRunning\<rparr> else c)"

definition run_turn :: "int \<Rightarrow> Http2ConnectionCore \<Rightarrow> Http2ConnectionCore" where
  "run_turn now c = (let (ev, c1) = checkTimers now c in applyTimerEvent ev c1)"

definition run_end :: "Http2ConnectionCore \<Rightarrow> Http2ConnectionCore" where
  "run_end c = c\<lparr>m_state := CoreStopped\<rparr>"

section \<open>Steps\<close>

inductive core_step :: "Http2ConnectionCore \<Rightarrow> Http2ConnectionCore \<Rightarrow> bool" where
  stop: "core_step c (requestStop c)"
| close: "core_step c (forceClose c)"
| timers: "core_step c (setTimerConfig cfg c)"
| settings_sent: "core_step c (markSettingsSent at c)"
| settings_acked: "core_step c (markSettingsAcked c)"
| received_at: "core_step c (markFrameReceivedAt at c)"
| ping_sent: "core_step c (markPingSent at c)"
| ping_acked: "core_step c (markPingAcked c)"
| shutdown: "core_step c (beginGracefulShutdown at c)"
| receive: "core_step c (snd (receiveFrame f c))"
| data: "core_step c (enqueueData sid d es wt c)"
| flush: "core_step c (snd (flushOutbound budget cfg c))"
| flush_bytes: "core_step c (snd (flushOutboundBytes budget cfg c))"
| start: "core_step c (run_start c)"
| turn: "\<not> m_stop_requested c \<Longrightarrow> core_step c (run_turn now c)"
| finish: "m_stop_requested c \<Longrightarrow> core_step c (run_end c)"

inductive core_reachable :: "Http2ConnectionCore \<Rightarrow> bool" where
  init: "core_reachable (new_core now)"
| step: "core_reachable c \<Longrightarrow> core_step c c' \<Longrightarrow> core_reachable c'"

section \<open>Invariant\<close>

text \<open>The scheduler keeps the pending data well-formed, whatever it emits.\<close>

lemma send_piece_pending_ok:
  assumes "pending_ok (ss_pending st)" "0 < c" "c = chunk_size mx st w" "send_piece emit ends st c = (o1, st1)"
  shows "pending_ok (ss_pending st1)"
proof -
  obtain payload p where t: "takeFrontData (ss_pending st) c = (payload, p)"
    by fastforce
  have "pending_ok p"
    using takeFrontData_ok(3) [OF assms(1,2) _ t] assms(3) chunk_size_le(4) by simp
  then have "pending_ok (p\<lparr>pd_end_stream := e\<rparr>)" for e
    by (cases "pd_chunks p") (simp_all add: pending_ok_def)
  then show ?thesis
    using assms(4) t \<open>pending_ok p\<close> by (auto simp: send_piece_def Let_def)
qed

lemma send_loop_pending_ok:
  "send_loop emit ends mx st w = (os, n, st', w') \<Longrightarrow> pending_ok (ss_pending st) \<Longrightarrow> pending_ok (ss_pending st')"
proof (induction rule: send_loop_induct)
  case (last_piece st w c o1 st1)
  show ?case
    by (rule send_piece_pending_ok [OF last_piece.prems last_piece(6,5,7)])
next
  case (piece st w c o1 st1 os n st' w')
  then show ?case
    using send_piece_pending_ok [OF piece.prems piece(6,5,7)] by simp
qed simp

definition all_pending_ok :: "H2StreamSendState list \<Rightarrow> bool" where
  "all_pending_ok sts \<longleftrightarrow> (\<forall>st \<in> set sts. pending_ok (ss_pending st))"

lemma send_round_pending_ok:
  "send_round emit ends mx cfg sts w = (os, n, sts', w') \<Longrightarrow> all_pending_ok sts \<Longrightarrow> all_pending_ok sts'"
proof (induction sts arbitrary: os n sts' w w')
  case (Cons st sts)
  have st: "pending_ok (ss_pending st)" "all_pending_ok sts"
    using Cons.prems(2) by (simp_all add: all_pending_ok_def)
  from Cons.prems(1) show ?case
  proof (cases rule: send_round_cases)
    case (skip sts1)
    then show ?thesis
      using Cons.IH [OF skip(2) st(2)] normalized_sent(2) [OF st(1)] by (simp add: all_pending_ok_def)
  next
    case (stop st3)
    then show ?thesis
      using send_loop_pending_ok [OF stop(3) refill_sent(2) [OF st(1)]] st(2) by (simp add: all_pending_ok_def)
  next
    case (go os1 n1 st3 w1 os2 n2 sts2)
    then show ?thesis
      using send_loop_pending_ok [OF go(3) refill_sent(2) [OF st(1)]] Cons.IH [OF go(5) st(2)]
      by (simp add: all_pending_ok_def)
  qed
qed simp

lemma send_rounds_pending_ok:
  "send_rounds emit ends mx cfg sts w = (os, n, sts', w') \<Longrightarrow> all_pending_ok sts \<Longrightarrow> all_pending_ok sts'"
  by (induction rule: send_rounds_induct) (auto dest: send_round_pending_ok)

lemma end_stream_pass_pending_ok:
  "end_stream_pass emit sts = (os, sts') \<Longrightarrow> all_pending_ok sts \<Longrightarrow> all_pending_ok sts'"
proof (induction sts arbitrary: os sts')
  case (Cons st sts)
  obtain os1 sts1 where e: "end_stream_pass emit sts = (os1, sts1)"
    by fastforce
  have st: "pending_ok (ss_pending st)" "all_pending_ok sts1"
    using Cons.prems(2) Cons.IH [OF e] by (simp_all add: all_pending_ok_def)
  have "pending_ok (normalizePending (ss_pending st))"
    using normalizePending_ok(1) [OF st(1)] .
  moreover have "pending_ok (p\<lparr>pd_end_stream := False\<rparr>) = pending_ok p" for p
    by (cases "pd_chunks p") (simp_all add: pending_ok_def)
  ultimately show ?case
    using Cons.prems(1) e st(2) by (auto simp: Let_def all_pending_ok_def split: if_splits)
qed simp

lemma pick_streams_pending_ok:
  "pick_streams emit ends budget cfg sts = (sel, sts') \<Longrightarrow> all_pending_ok sts \<Longrightarrow> all_pending_ok sts'"
  by (auto simp: pick_streams_def split: if_splits prod.splits dest!: end_stream_pass_pending_ok send_rounds_pending_ok)

definition answer :: "Http2Frame \<Rightarrow> bool" where
  "answer f \<longleftrightarrow> (\<exists>code. f = goaway_frame code) \<or> (\<exists>sid code. f = build_rstStream sid code)"

definition queues_ok :: "H2OutboundQueues \<Rightarrow> bool" where
  "queues_ok q \<longleftrightarrow> (\<forall>f \<in> set (oq_control_frames q). answer f) \<and> oq_header_frames q = []
     \<and> all_pending_ok (oq_data_streams q)"

definition core_ok :: "Http2ConnectionCore \<Rightarrow> bool" where
  "core_ok c \<longleftrightarrow> dispatch_ok (m_dispatch_state c) \<and> queues_ok (m_outbound_queues c)
     \<and> (hasOutboundWork c \<longrightarrow> m_outbound_ready c)
     \<and> (m_state c = CoreClosing \<or> m_state c = CoreStopped \<longrightarrow> m_stop_requested c)"

lemmas core_op_defs = requestStop_def forceClose_def setTimerConfig_def markSettingsSent_def markSettingsAcked_def
  markFrameReceivedAt_def markPingSent_def markPingAcked_def beginGracefulShutdown_def run_start_def run_end_def
  applyTimerEvent_def

lemma new_core_ok: "core_ok (new_core now)"
  by (simp add: core_ok_def new_core_def new_dispatcher_ok queues_ok_def all_pending_ok_def hasOutboundWork_def hasQueuedData_def)

lemma checkTimers_frame:
  "checkTimers now c = (ev, c') \<Longrightarrow>
   m_dispatch_state c' = m_dispatch_state c \<and> m_outbound_queues c' = m_outbound_queues c
   \<and> m_outbound_ready c' = m_outbound_ready c \<and> m_state c' = m_state c \<and> m_stop_requested c' = m_stop_requested c"
  by (auto simp: checkTimers_def Let_def split: if_splits)

lemma core_okI:
  assumes "core_ok c" "m_dispatch_state c' = m_dispatch_state c" "m_outbound_queues c' = m_outbound_queues c"
    "m_outbound_ready c' = m_outbound_ready c"
    "m_state c' = CoreClosing \<or> m_state c' = CoreStopped \<longrightarrow> m_stop_requested c'"
  shows "core_ok c'"
  using assms by (simp add: core_ok_def hasOutboundWork_def)

lemma core_ok_stop: "core_ok c \<Longrightarrow> m_state c = CoreClosing \<or> m_state c = CoreStopped \<longrightarrow> m_stop_requested c"
  by (simp add: core_ok_def)

lemma core_ok_turn: "core_ok c \<Longrightarrow> core_ok (run_turn now c)"
proof -
  assume c: "core_ok c"
  obtain ev c1 where t: "checkTimers now c = (ev, c1)"
    by fastforce
  note f = checkTimers_frame [OF t]
  show ?thesis
    by (rule core_okI [OF c]) (use f core_ok_stop [OF c] in \<open>simp_all add: run_turn_def t applyTimerEvent_def forceClose_def requestStop_def\<close>)
qed

lemma core_ok_push: "core_ok c \<Longrightarrow> answer f \<Longrightarrow> core_ok (push_control f c)"
  by (simp add: core_ok_def push_control_def queues_ok_def)

lemma core_ok_ready: "core_ok c \<Longrightarrow> core_ok (c\<lparr>m_outbound_ready := True\<rparr>)"
  by (simp add: core_ok_def hasOutboundWork_def)

lemma answers: "answer (goaway_frame code)" "answer (build_rstStream sid code)"
  by (auto simp: answer_def)

lemma enqueue_step:
  assumes "dispatch_step s f r s'" "core_ok c"
  shows "core_ok (foldl enqueueDispatchAction c (r_actions r))"
  using assms(1)
  by (cases rule: dispatch_step.cases)
     (use assms(2) in \<open>auto simp: result_defs enqueueDispatchAction_def intro: core_ok_push core_ok_ready answers\<close>)

lemma core_ok_receive: "core_ok c \<Longrightarrow> core_ok (snd (receiveFrame f c))"
proof -
  assume c: "core_ok c"
  obtain r s where d: "dispatch f (m_dispatch_state c) = (r, s)"
    by fastforce
  have "core_ok (c\<lparr>m_dispatch_state := s\<rparr>)"
    using c dispatch_step_ok [OF dispatch_is_step [OF d]] by (simp add: core_ok_def hasOutboundWork_def)
  then show ?thesis
    using enqueue_step [OF dispatch_is_step [OF d]] by (simp add: receiveFrame_def d)
qed

lemma core_ok_enqueue: "core_ok c \<Longrightarrow> core_ok (enqueueData sid d es wt c)"
  by (simp add: enqueueData_def core_ok_def queues_ok_def all_pending_ok_def pending_ok_def Let_def)

lemma core_ok_queues:
  assumes "core_ok c" "queues_ok q"
  shows "core_ok (c\<lparr>m_outbound_queues := q, m_outbound_ready := hasOutboundWork (c\<lparr>m_outbound_queues := q\<rparr>)\<rparr>)"
  using assms by (simp add: core_ok_def hasOutboundWork_def)

lemma pick_queues_ok:
  assumes "queues_ok q"
  shows "queues_ok (snd (pickSendableFrames budget cfg q))" "queues_ok (snd (pickSendableBytes budget cfg q))"
proof -
  obtain sel1 sts1 where 1: "pickSendableFrames_streams budget cfg (oq_data_streams q) = (sel1, sts1)"
    by fastforce
  obtain sel2 sts2 where 2: "pickSendableBytes_streams budget cfg (oq_data_streams q) = (sel2, sts2)"
    by fastforce
  show "queues_ok (snd (pickSendableFrames budget cfg q))" "queues_ok (snd (pickSendableBytes budget cfg q))"
    using assms pick_streams_pending_ok [OF 1 [unfolded pickSendableFrames_streams_def]]
      pick_streams_pending_ok [OF 2 [unfolded pickSendableBytes_streams_def]]
    by (simp_all add: pickSendableFrames_def pickSendableBytes_def 1 2 queues_ok_def)
qed

lemma core_ok_flush:
  assumes "core_ok c"
  shows "core_ok (snd (flushOutbound budget cfg c))" "core_ok (snd (flushOutboundBytes budget cfg c))"
proof -
  have "queues_ok (m_outbound_queues c)"
    using assms by (simp add: core_ok_def)
  then show "core_ok (snd (flushOutbound budget cfg c))" "core_ok (snd (flushOutboundBytes budget cfg c))"
    using core_ok_queues [OF assms] pick_queues_ok [of "m_outbound_queues c" budget cfg]
    by (simp_all add: flushOutbound_def flushOutboundBytes_def case_prod_unfold Let_def)
qed

lemma core_step_ok: "core_step c c' \<Longrightarrow> core_ok c \<Longrightarrow> core_ok c'"
proof (induction rule: core_step.induct)
  case (receive c f)
  then show ?case by (rule core_ok_receive)
next
  case (data c sid d es wt)
  then show ?case by (rule core_ok_enqueue)
next
  case (flush c budget cfg)
  then show ?case by (rule core_ok_flush)
next
  case (flush_bytes c budget cfg)
  then show ?case by (rule core_ok_flush)
next
  case (turn c now)
  then show ?case by (intro core_ok_turn)
next
  case (start c)
  then show ?case
    by (rule core_okI) (use core_ok_stop [OF start] in \<open>simp_all add: run_start_def\<close>)
next
  case (finish c)
  show ?case
    by (rule core_okI [OF finish(2)]) (use finish(1) in \<open>simp_all add: run_end_def\<close>)
qed (frule core_ok_stop, erule core_okI, simp_all add: core_op_defs)+

section \<open>Properties\<close>

text \<open>C36. The invariant of the connection, in every state reachable by any interleaving of the public methods and the
  turns of \<open>run\<close>: the dispatcher and the pending data are well-formed, the ready flag is
  set whenever there is outbound work, a closing or stopped connection has its stop requested, so
  \<open>run\<close> ends, and the control queue holds only GOAWAY and RST_STREAM frames.\<close>

theorem core_invariant:
  assumes "core_reachable c"
  shows "dispatch_ok (m_dispatch_state c) \<and> (\<forall>f \<in> set (oq_control_frames (m_outbound_queues c)). answer f)
    \<and> (\<forall>st \<in> set (oq_data_streams (m_outbound_queues c)). pending_ok (ss_pending st))
    \<and> (hasOutboundWork c \<longrightarrow> m_outbound_ready c)
    \<and> (m_state c = CoreClosing \<or> m_state c = CoreStopped \<longrightarrow> m_stop_requested c)"
proof -
  have "core_ok c"
    using assms by (induction rule: core_reachable.induct) (auto intro: new_core_ok core_step_ok)
  then show ?thesis
    by (simp add: core_ok_def queues_ok_def all_pending_ok_def)
qed

theorem core_invariant_witness:
  "core_reachable (forceClose (new_core 0)) \<and> m_state (forceClose (new_core 0)) = CoreClosing
   \<and> m_stop_requested (forceClose (new_core 0))"
proof -
  have r: "core_reachable (forceClose (new_core 0))"
    by (rule core_reachable.step [OF core_reachable.init core_step.close])
  have "m_state (forceClose (new_core 0)) = CoreClosing"
    by (simp add: forceClose_def requestStop_def)
  then show ?thesis
    using core_invariant [OF r] r by blast
qed

text \<open>C37. A protocol error is answered whatever the windows: when a received frame is rejected, the next flush emits the
  GOAWAY or RST_STREAM for it among the frames it sends, before any DATA, for every budget, a closed window and a zero
  frame size included, and empties the control queue.\<close>

theorem rejection_reaches_wire:
  assumes "receiveFrame f c = (r, c')" "\<not> r_ok r"
  shows "\<exists>a pre post. (a = goaway_frame ProtocolError \<or> a = build_rstStream (streamId f) ProtocolError)
    \<and> sel_frames (fst (flushOutbound budget cfg c')) = pre @ a # post
    \<and> pre = oq_control_frames (m_outbound_queues c)
    \<and> oq_control_frames (m_outbound_queues (snd (flushOutbound budget cfg c'))) = []
    \<and> m_dispatch_state c' = m_dispatch_state c"
proof -
  obtain r' s where d: "dispatch f (m_dispatch_state c) = (r', s)"
    by fastforce
  have rr: "r' = r" "c' = foldl enqueueDispatchAction (c\<lparr>m_dispatch_state := s\<rparr>) (r_actions r)"
    using assms(1) d by (auto simp: receiveFrame_def)
  have "\<exists>a. (a = goaway_frame ProtocolError \<or> a = build_rstStream (streamId f) ProtocolError)
      \<and> c' = push_control a (c\<lparr>m_dispatch_state := s\<rparr>) \<and> s = m_dispatch_state c"
    using dispatch_is_step [OF d] unfolding rr(1)
    by (cases rule: dispatch_step.cases) (use assms(2) rr(2) in \<open>auto simp: result_defs enqueueDispatchAction_def\<close>)
  then obtain a where a: "a = goaway_frame ProtocolError \<or> a = build_rstStream (streamId f) ProtocolError"
      "c' = push_control a (c\<lparr>m_dispatch_state := s\<rparr>)" "s = m_dispatch_state c"
    by blast
  then have "oq_control_frames (m_outbound_queues c') = oq_control_frames (m_outbound_queues c) @ [a]"
    "m_dispatch_state c' = m_dispatch_state c"
    by (simp_all add: push_control_def)
  then show ?thesis
    using a(1) by (auto simp: flushOutbound_def pickSendableFrames_def case_prod_unfold Let_def)
qed

theorem rejection_reaches_wire_witness:
  "\<not> r_ok (fst (receiveFrame sample_data (new_core 0)))
   \<and> (\<exists>a pre post. (a = goaway_frame ProtocolError \<or> a = build_rstStream (streamId sample_data) ProtocolError)
      \<and> sel_frames (fst (flushOutbound \<lparr>ob_conn_window = 0, ob_max_frame_size = 0\<rparr> \<lparr>base_quantum = 0\<rparr>
           (snd (receiveFrame sample_data (new_core 0))))) = pre @ a # post)"
proof -
  have e: "\<not> r_ok (fst (receiveFrame sample_data (new_core 0)))"
    by (simp add: receiveFrame_def new_core_def new_dispatcher_def sample_defs dispatch_def dispatch_by_type_def dispatch_data_def
        Let_def streamId_def frame_type_def isHeaders_def isData_def isContinuation_def requiresNonZeroStream_def
        requiresZeroStream_def isNewStreamRejectedByGoaway_def streamError_def h2_enum)
  then show ?thesis
    using rejection_reaches_wire [of sample_data "new_core 0" "fst (receiveFrame sample_data (new_core 0))"
        "snd (receiveFrame sample_data (new_core 0))" "\<lparr>ob_conn_window = 0, ob_max_frame_size = 0\<rparr>" "\<lparr>base_quantum = 0\<rparr>"]
    by (simp only: prod.collapse simp_thms) blast
qed

text \<open>The deadlines: an unacknowledged SETTINGS, a graceful shutdown, an unanswered PING.\<close>

definition overdue :: "int \<Rightarrow> Http2ConnectionCore \<Rightarrow> bool" where
  "overdue now c \<longleftrightarrow>
     m_settings_ack_pending c \<and> settings_ack_timeout (m_timer_config c) > 0
       \<and> now - m_settings_sent_at c > ms (settings_ack_timeout (m_timer_config c))
     \<or> m_graceful_shutdown_started c \<and> graceful_shutdown_timeout (m_timer_config c) > 0
       \<and> now - m_graceful_shutdown_started_at c > ms (graceful_shutdown_timeout (m_timer_config c))
     \<or> m_waiting_ping_ack c \<and> ping_timeout (m_timer_config c) > 0
       \<and> now - m_last_ping_sent_at c > ms (ping_timeout (m_timer_config c))"

text \<open>A turn of \<open>run\<close> closes the connection exactly when a deadline has passed: then the state is closing and the
  stop is requested, so that the loop ends; otherwise neither changes. No turn touches the queues.\<close>

theorem timer_turn:
  "m_outbound_queues (run_turn now c) = m_outbound_queues c
   \<and> (if overdue now c then m_state (run_turn now c) = CoreClosing \<and> m_stop_requested (run_turn now c)
      else m_state (run_turn now c) = m_state c \<and> m_stop_requested (run_turn now c) = m_stop_requested c)"
  by (simp add: run_turn_def checkTimers_def overdue_def applyTimerEvent_def forceClose_def requestStop_def Let_def)

text \<open>An idle connection is closed for want of a PING answer although \<open>run\<close> has sent no PING: with the default
  timers, a core that is started and then only takes turns, one at 30 s after the last frame and one more than 10 s
  later, has its stop requested while its outbound queues are still empty. (\<open>TimerEvent::SendPing\<close> is documented
  as "send PING"; \<open>applyTimerEvent\<close> ignores it.)\<close>

theorem idle_closed_without_ping:
  assumes "ms 30000 \<le> t1" "t1 + ms 10000 < t2"
  shows "let c = run_turn t2 (run_turn t1 (run_start (new_core 0))) in
    m_stop_requested c \<and> m_state c = CoreClosing \<and> \<not> hasOutboundWork c \<and> \<not> m_outbound_ready c"
  using assms by (simp add: run_turn_def checkTimers_def new_core_def default_timers_def run_start_def applyTimerEvent_def
      forceClose_def requestStop_def hasOutboundWork_def hasQueuedData_def Let_def)

theorem idle_closed_without_ping_witness:
  "let c = run_turn 40000000001 (run_turn 30000000000 (run_start (new_core 0))) in
    m_stop_requested c \<and> m_state c = CoreClosing \<and> \<not> hasOutboundWork c \<and> \<not> m_outbound_ready c"
  by (rule idle_closed_without_ping) simp_all

text \<open>Enqueueing the end of a stream behind its data loses the order: \<open>enqueueData\<close> opens a new send state for every
  call, so an END_STREAM enqueued after data on the same stream is sent before that data.\<close>

theorem end_overtakes_data:
  assumes "0 < length d" "length d \<le> 16384"
  shows "sel_frames (fst (flushOutbound \<lparr>ob_conn_window = 65535, ob_max_frame_size = 16384\<rparr> \<lparr>base_quantum = 16384\<rparr>
       (enqueueData sid [] True 16 (enqueueData sid d False 16 (new_core 0))))) =
    [build_data sid [] True, build_data sid d False]"
proof -
  have n: "d \<noteq> []"
    using assms(1) by auto
  show ?thesis
    using assms(2) n
    by (simp add: flushOutbound_def pickSendableFrames_def pickSendableFrames_streams_def pick_streams_def enqueueData_def
        new_core_def normalizePending_def shouldSendEndStreamOnly_def send_rounds.simps send_loop.simps chunk_size_def
        send_piece_def takeFrontData_def frontPendingSize_def quantumFor_def SIZE_MAX_def frame_ends_def emit_frame_build
        kDefaultInitialWindowSize_def Let_def)
qed

theorem end_overtakes_data_witness:
  "sel_frames (fst (flushOutbound \<lparr>ob_conn_window = 65535, ob_max_frame_size = 16384\<rparr> \<lparr>base_quantum = 16384\<rparr>
     (enqueueData 1 [] True 16 (enqueueData 1 [7, 8] False 16 (new_core 0))))) =
   [build_data 1 [] True, build_data 1 [7, 8] False]"
  by (rule end_overtakes_data) simp_all

end
