(* ===== verification/H2_Flow.thy ===== *)
theory H2_Flow
  imports H2_Base "HOL-Library.AList"
begin

text \<open>
  \<open>H2FlowController\<close> of \<^verbatim>\<open>galay-http2/kernel/flow_control.cc\<close>, the send windows of a connection.
  The windows are \<open>int64_t\<close> in the code and \<open>int\<close> here; the invariant keeps every reachable value
  within 32 bits, so no operation wraps. The map of stream windows is an association list with
  distinct keys, which is also the order in which the code's loops visit it.
  An operation returns the error, in which case the code has changed nothing, or the new state.
\<close>

definition kH2MaxFlowControlWindow :: int where
  "kH2MaxFlowControlWindow = 0x7fffffff"

datatype H2FlowControlError = WindowOverflow | UnknownStream | InsufficientWindow

record H2SendWindow =
  conn_window :: int
  initial_stream_window :: int
  stream_windows :: "(u32 \<times> int) list"

definition new_window :: H2SendWindow where
  "new_window = \<lparr>conn_window = uint kDefaultInitialWindowSize,
     initial_stream_window = uint kDefaultInitialWindowSize, stream_windows = []\<rparr>"

definition wouldExceedMaxWindow :: "int \<Rightarrow> u32 \<Rightarrow> bool" where
  "wouldExceedMaxWindow current increment \<longleftrightarrow> current > kH2MaxFlowControlWindow - int (unat increment)"

definition ensureStream :: "H2SendWindow \<Rightarrow> u32 \<Rightarrow> H2FlowControlError + H2SendWindow" where
  "ensureStream w sid = (case map_of (stream_windows w) sid of
     Some _ \<Rightarrow> Inr w
   | None \<Rightarrow> Inr (w\<lparr>stream_windows := stream_windows w @ [(sid, initial_stream_window w)]\<rparr>))"

definition applyConnectionWindowUpdate :: "H2SendWindow \<Rightarrow> u32 \<Rightarrow> H2FlowControlError + H2SendWindow" where
  "applyConnectionWindowUpdate w increment =
    (if wouldExceedMaxWindow (conn_window w) increment then Inl WindowOverflow
     else Inr (w\<lparr>conn_window := conn_window w + int (unat increment)\<rparr>))"

definition applyStreamWindowUpdate :: "H2SendWindow \<Rightarrow> u32 \<Rightarrow> u32 \<Rightarrow> H2FlowControlError + H2SendWindow" where
  "applyStreamWindowUpdate w sid increment = (case map_of (stream_windows w) sid of
     None \<Rightarrow> Inl UnknownStream
   | Some win \<Rightarrow>
       if wouldExceedMaxWindow win increment then Inl WindowOverflow
       else Inr (w\<lparr>stream_windows := AList.update sid (win + int (unat increment)) (stream_windows w)\<rparr>))"

definition applyInitialStreamWindowSize :: "H2SendWindow \<Rightarrow> u32 \<Rightarrow> H2FlowControlError + H2SendWindow" where
  "applyInitialStreamWindowSize w new_size =
    (if int (unat new_size) > kH2MaxFlowControlWindow then Inl WindowOverflow
     else
       let delta = int (unat new_size) - initial_stream_window w in
       if list_ex (\<lambda>(_, win). win + delta > kH2MaxFlowControlWindow) (stream_windows w)
       then Inl WindowOverflow
       else Inr (w\<lparr>initial_stream_window := int (unat new_size),
                   stream_windows := map (\<lambda>(sid, win). (sid, win + delta)) (stream_windows w)\<rparr>))"

definition availableToSend :: "H2SendWindow \<Rightarrow> u32 \<Rightarrow> nat \<Rightarrow> u32 \<Rightarrow> nat" where
  "availableToSend w sid requested max_frame_size = (case map_of (stream_windows w) sid of
     None \<Rightarrow> 0
   | Some win \<Rightarrow>
       if conn_window w \<le> 0 \<or> win \<le> 0 \<or> requested = 0 \<or> max_frame_size = 0 then 0
       else min (min requested (unat max_frame_size)) (min (nat (conn_window w)) (nat win)))"

definition consumeSendWindow :: "H2SendWindow \<Rightarrow> u32 \<Rightarrow> nat \<Rightarrow> H2FlowControlError + H2SendWindow" where
  "consumeSendWindow w sid n = (case map_of (stream_windows w) sid of
     None \<Rightarrow> Inl UnknownStream
   | Some win \<Rightarrow>
       if n > nat (max 0 (conn_window w)) \<or> n > nat (max 0 win) then Inl InsufficientWindow
       else Inr (w\<lparr>conn_window := conn_window w - int n,
                   stream_windows := AList.update sid (win - int n) (stream_windows w)\<rparr>))"

section \<open>Accounting\<close>

text \<open>
  The operations of a connection, and a run that also counts the credit granted and used:
  \<open>cg\<close> and \<open>cu\<close> for the connection, \<open>sg\<close> and \<open>su\<close> for each stream.
\<close>

datatype flow_op = Ensure u32 | ConnUpdate u32 | StreamUpdate u32 u32 | InitialSize u32 | Consume u32 nat

fun flow_apply :: "H2SendWindow \<Rightarrow> flow_op \<Rightarrow> H2FlowControlError + H2SendWindow" where
  "flow_apply w (Ensure sid) = ensureStream w sid"
| "flow_apply w (ConnUpdate n) = applyConnectionWindowUpdate w n"
| "flow_apply w (StreamUpdate sid n) = applyStreamWindowUpdate w sid n"
| "flow_apply w (InitialSize n) = applyInitialStreamWindowSize w n"
| "flow_apply w (Consume sid n) = consumeSendWindow w sid n"

inductive flow_run :: "H2SendWindow \<Rightarrow> nat \<Rightarrow> nat \<Rightarrow> (u32 \<Rightarrow> nat) \<Rightarrow> (u32 \<Rightarrow> nat) \<Rightarrow> bool" where
  start: "flow_run new_window 0 0 (\<lambda>_. 0) (\<lambda>_. 0)"
| ensure: "flow_run w cg cu sg su \<Longrightarrow> ensureStream w sid = Inr w' \<Longrightarrow> flow_run w' cg cu sg su"
| conn_update: "flow_run w cg cu sg su \<Longrightarrow> applyConnectionWindowUpdate w n = Inr w' \<Longrightarrow>
    flow_run w' (cg + unat n) cu sg su"
| stream_update: "flow_run w cg cu sg su \<Longrightarrow> applyStreamWindowUpdate w sid n = Inr w' \<Longrightarrow>
    flow_run w' cg cu (sg(sid := sg sid + unat n)) su"
| initial_size: "flow_run w cg cu sg su \<Longrightarrow> applyInitialStreamWindowSize w n = Inr w' \<Longrightarrow>
    flow_run w' cg cu sg su"
| consume: "flow_run w cg cu sg su \<Longrightarrow> consumeSendWindow w sid n = Inr w' \<Longrightarrow>
    flow_run w' cg (cu + n) sg (su(sid := su sid + n))"
| failed: "flow_run w cg cu sg su \<Longrightarrow> flow_apply w a = Inl err \<Longrightarrow> flow_run w cg cu sg su"

definition window_range :: "H2SendWindow \<Rightarrow> int \<Rightarrow> bool" where
  "window_range w win \<longleftrightarrow> win \<le> kH2MaxFlowControlWindow \<and> initial_stream_window w - win \<le> kH2MaxFlowControlWindow"

definition flow_ok :: "H2SendWindow \<Rightarrow> bool" where
  "flow_ok w \<longleftrightarrow> 0 \<le> conn_window w \<and> conn_window w \<le> kH2MaxFlowControlWindow
     \<and> 0 \<le> initial_stream_window w \<and> initial_stream_window w \<le> kH2MaxFlowControlWindow
     \<and> distinct (map fst (stream_windows w))
     \<and> (\<forall>sid win. map_of (stream_windows w) sid = Some win \<longrightarrow> window_range w win)"

lemmas flow_defs = ensureStream_def applyConnectionWindowUpdate_def applyStreamWindowUpdate_def
  applyInitialStreamWindowSize_def consumeSendWindow_def wouldExceedMaxWindow_def

lemma map_of_shift: "map_of (map (\<lambda>(k, v). (k, v + d)) xs) k = map_option (\<lambda>v. v + d) (map_of xs k)"
  for d :: int
  by (induction xs) auto

lemma flow_ok_range: "flow_ok w \<Longrightarrow> map_of (stream_windows w) sid = Some win \<Longrightarrow> window_range w win"
  by (simp add: flow_ok_def)

lemma flow_ok_update:
  assumes "flow_ok w" "window_range w win" "0 \<le> c" "c \<le> kH2MaxFlowControlWindow"
  shows "flow_ok (w\<lparr>conn_window := c, stream_windows := AList.update sid win (stream_windows w)\<rparr>)"
  using assms by (auto simp: flow_ok_def update_conv' distinct_update window_range_def split: if_splits)

lemma flow_ok_step: "flow_ok w \<Longrightarrow> flow_apply w a = Inr w' \<Longrightarrow> flow_ok w'"
proof (cases a)
  case (Ensure sid)
  assume "flow_ok w" "flow_apply w a = Inr w'"
  with Ensure show ?thesis
    by (auto simp: flow_ok_def flow_defs window_range_def map_add_def map_of_eq_None_iff map_of_append
        split: option.splits if_splits)
next
  case (ConnUpdate n)
  assume "flow_ok w" "flow_apply w a = Inr w'"
  with ConnUpdate show ?thesis
    by (auto simp: flow_ok_def flow_defs window_range_def split: if_splits)
next
  case (StreamUpdate sid n)
  assume ok: "flow_ok w" and a: "flow_apply w a = Inr w'"
  then obtain win where win: "map_of (stream_windows w) sid = Some win" "\<not> wouldExceedMaxWindow win n"
      "w' = w\<lparr>stream_windows := AList.update sid (win + int (unat n)) (stream_windows w)\<rparr>"
    using StreamUpdate by (auto simp: applyStreamWindowUpdate_def split: option.splits if_splits)
  have r: "window_range w (win + int (unat n))"
    using flow_ok_range [OF ok win(1)] win(2) unfolding window_range_def wouldExceedMaxWindow_def by linarith
  show ?thesis
    using flow_ok_update [OF ok r, of "conn_window w"] ok win(3) by (simp add: flow_ok_def window_range_def)
next
  case (InitialSize n)
  assume ok: "flow_ok w" and a: "flow_apply w a = Inr w'"
  let ?d = "int (unat n) - initial_stream_window w"
  have w': "w' = w\<lparr>initial_stream_window := int (unat n),
      stream_windows := map (\<lambda>(sid, win). (sid, win + ?d)) (stream_windows w)\<rparr>"
    "int (unat n) \<le> kH2MaxFlowControlWindow"
    "\<forall>(sid, win) \<in> set (stream_windows w). win + ?d \<le> kH2MaxFlowControlWindow"
    using a InitialSize by (auto simp: flow_defs Let_def list_ex_iff split: if_splits)
  have "distinct (map fst (stream_windows w'))"
    using ok w'(1) by (simp add: flow_ok_def case_prod_unfold o_def)
  moreover have "window_range w' win" if win: "map_of (stream_windows w') sid = Some win" for sid win
  proof -
    obtain v where v: "map_of (stream_windows w) sid = Some v" "win = v + ?d"
      using win w'(1) by (auto simp: map_of_shift)
    then show ?thesis
      using flow_ok_range [OF ok v(1)] w' map_of_SomeD [OF v(1)] by (auto simp: window_range_def)
  qed
  ultimately show ?thesis
    using ok w' by (simp add: flow_ok_def)
next
  case (Consume sid n)
  assume ok: "flow_ok w" and a: "flow_apply w a = Inr w'"
  then obtain win where win: "map_of (stream_windows w) sid = Some win"
      "\<not> (n > nat (max 0 (conn_window w)) \<or> n > nat (max 0 win))"
      "w' = w\<lparr>conn_window := conn_window w - int n, stream_windows := AList.update sid (win - int n) (stream_windows w)\<rparr>"
    using Consume by (auto simp: consumeSendWindow_def split: option.splits if_splits)
  have r: "window_range w (win - int n)" "0 \<le> conn_window w - int n" "conn_window w - int n \<le> kH2MaxFlowControlWindow"
    using flow_ok_range [OF ok win(1)] win(2) ok by (auto simp: window_range_def flow_ok_def)
  show ?thesis
    using flow_ok_update [OF ok r] win(3) by simp
qed

lemma new_window_ok: "flow_ok new_window"
  by (simp add: flow_ok_def new_window_def kDefaultInitialWindowSize_def kH2MaxFlowControlWindow_def)

lemma flow_run_ok: "flow_run w cg cu sg su \<Longrightarrow> flow_ok w"
proof (induction rule: flow_run.induct)
  case start
  show ?case by (rule new_window_ok)
qed (metis flow_apply.simps flow_ok_step)+

text \<open>The balance: each window is what was granted, less what was used. A stream window follows
  the initial size, which may change under it.\<close>

definition balanced :: "H2SendWindow \<Rightarrow> nat \<Rightarrow> nat \<Rightarrow> (u32 \<Rightarrow> nat) \<Rightarrow> (u32 \<Rightarrow> nat) \<Rightarrow> bool" where
  "balanced w cg cu sg su \<longleftrightarrow>
     conn_window w = uint kDefaultInitialWindowSize + int cg - int cu
     \<and> (\<forall>sid. case map_of (stream_windows w) sid of
          Some win \<Rightarrow> win = initial_stream_window w + int (sg sid) - int (su sid)
        | None \<Rightarrow> sg sid = 0 \<and> su sid = 0)"

lemma balancedI:
  assumes "conn_window w = uint kDefaultInitialWindowSize + int cg - int cu"
    "\<And>sid. case map_of (stream_windows w) sid of
          Some win \<Rightarrow> win = initial_stream_window w + int (sg sid) - int (su sid)
        | None \<Rightarrow> sg sid = 0 \<and> su sid = 0"
  shows "balanced w cg cu sg su"
  using assms by (simp add: balanced_def)

lemma balancedD:
  assumes "balanced w cg cu sg su"
  shows "conn_window w = uint kDefaultInitialWindowSize + int cg - int cu"
    "case map_of (stream_windows w) sid of
          Some win \<Rightarrow> win = initial_stream_window w + int (sg sid) - int (su sid)
        | None \<Rightarrow> sg sid = 0 \<and> su sid = 0"
  using assms by (simp_all add: balanced_def)

lemma balanced_stream:
  assumes "balanced w cg cu sg su" "map_of (stream_windows w) sid = Some win"
    "win' - win = int g - int u" "c = conn_window w - int u'"
  shows "balanced (w\<lparr>conn_window := c, stream_windows := AList.update sid win' (stream_windows w)\<rparr>)
    cg (cu + u') (sg(sid := sg sid + g)) (su(sid := su sid + u))"
proof (rule balancedI)
  fix s
  show "case map_of (stream_windows (w\<lparr>conn_window := c, stream_windows := AList.update sid win' (stream_windows w)\<rparr>)) s of
      Some win \<Rightarrow> win = initial_stream_window (w\<lparr>conn_window := c, stream_windows := AList.update sid win' (stream_windows w)\<rparr>)
          + int ((sg(sid := sg sid + g)) s) - int ((su(sid := su sid + u)) s)
    | None \<Rightarrow> (sg(sid := sg sid + g)) s = 0 \<and> (su(sid := su sid + u)) s = 0"
    using balancedD(2) [OF assms(1), of s] assms(2,3) by (auto simp: update_conv' split: option.splits)
qed (use balancedD(1) [OF assms(1)] assms(4) in simp)

lemma flow_run_balanced: "flow_run w cg cu sg su \<Longrightarrow> balanced w cg cu sg su"
proof (induction rule: flow_run.induct)
  case start
  show ?case by (simp add: balanced_def new_window_def)
next
  case (ensure w cg cu sg su sid w')
  show ?case
  proof (rule balancedI)
    fix s
    show "case map_of (stream_windows w') s of
          Some win \<Rightarrow> win = initial_stream_window w' + int (sg s) - int (su s)
        | None \<Rightarrow> sg s = 0 \<and> su s = 0"
      using balancedD(2) [OF ensure.IH, of s] ensure(2)
      by (auto simp: flow_defs map_of_append map_add_def split: if_splits option.splits)
  qed (use balancedD(1) [OF ensure.IH] ensure(2) in \<open>auto simp: flow_defs split: option.splits\<close>)
next
  case (initial_size w cg cu sg su n w')
  show ?case
  proof (rule balancedI)
    fix s
    show "case map_of (stream_windows w') s of
          Some win \<Rightarrow> win = initial_stream_window w' + int (sg s) - int (su s)
        | None \<Rightarrow> sg s = 0 \<and> su s = 0"
      using balancedD(2) [OF initial_size.IH, of s] initial_size(2)
      by (auto simp: flow_defs map_of_shift Let_def split: if_splits option.splits)
  qed (use balancedD(1) [OF initial_size.IH] initial_size(2) in \<open>auto simp: flow_defs Let_def split: if_splits\<close>)
next
  case (conn_update w cg cu sg su n w')
  show ?case
  proof (rule balancedI)
    fix s
    show "case map_of (stream_windows w') s of
          Some win \<Rightarrow> win = initial_stream_window w' + int (sg s) - int (su s)
        | None \<Rightarrow> sg s = 0 \<and> su s = 0"
      using balancedD(2) [OF conn_update.IH, of s] conn_update(2)
      by (auto simp: flow_defs split: if_splits option.splits)
  qed (use balancedD(1) [OF conn_update.IH] conn_update(2) in \<open>auto simp: flow_defs split: if_splits\<close>)
next
  case (stream_update w cg cu sg su sid n w')
  then obtain win where "map_of (stream_windows w) sid = Some win"
      "w' = w\<lparr>stream_windows := AList.update sid (win + int (unat n)) (stream_windows w)\<rparr>"
    by (auto simp: applyStreamWindowUpdate_def split: option.splits if_splits)
  then show ?case
    using balanced_stream [OF stream_update.IH, of sid win "win + int (unat n)" "unat n" 0 "conn_window w" 0] by (simp add: fun_upd_def)
next
  case (consume w cg cu sg su sid n w')
  then obtain win where "map_of (stream_windows w) sid = Some win"
      "w' = w\<lparr>conn_window := conn_window w - int n, stream_windows := AList.update sid (win - int n) (stream_windows w)\<rparr>"
    by (auto simp: consumeSendWindow_def split: option.splits if_splits)
  then show ?case
    using balanced_stream [OF consume.IH, of sid win "win - int n" 0 n "conn_window w - int n" n] by (simp add: fun_upd_def)
qed

section \<open>Properties\<close>

text \<open>Credit is neither lost nor invented: after any sequence of operations, failed ones included,
  the connection window is the initial 65535 plus the increments accepted less the bytes
  consumed, each stream window is the current initial size plus its increments less its bytes,
  so a sender never consumes more than it was granted; and every window stays in the range
  from -(2^31 - 1) to 2^31 - 1, so 64-bit arithmetic never wraps.\<close>

theorem flow_credit_balance:
  assumes "flow_run w cg cu sg su"
  shows "conn_window w = 65535 + int cg - int cu \<and> cu \<le> 65535 + cg
    \<and> (\<forall>sid win. map_of (stream_windows w) sid = Some win \<longrightarrow>
         win = initial_stream_window w + int (sg sid) - int (su sid)
         \<and> \<bar>win\<bar> \<le> 2147483647)
    \<and> 0 \<le> conn_window w \<and> conn_window w \<le> 2147483647"
proof -
  have ok: "flow_ok w" and b: "balanced w cg cu sg su"
    using assms by (rule flow_run_ok, rule flow_run_balanced)
  have c: "conn_window w = 65535 + int cg - int cu"
    using balancedD(1) [OF b] by (simp add: kDefaultInitialWindowSize_def)
  have r: "0 \<le> conn_window w" "conn_window w \<le> 2147483647" "0 \<le> initial_stream_window w"
    using ok by (auto simp: flow_ok_def kH2MaxFlowControlWindow_def)
  have "win = initial_stream_window w + int (sg sid) - int (su sid)" "\<bar>win\<bar> \<le> 2147483647"
    if "map_of (stream_windows w) sid = Some win" for sid win
    using balancedD(2) [OF b, of sid] flow_ok_range [OF ok that] that r(3)
    by (auto simp: window_range_def kH2MaxFlowControlWindow_def)
  then show ?thesis
    using c r by simp
qed

lemma sample_flow_run:
  "\<exists>w. flow_run w 100 300 (\<lambda>_. 0) ((\<lambda>_. 0)(1 := 300)) \<and> conn_window w = 65335"
proof -
  let ?w1 = "new_window\<lparr>stream_windows := [(1, 65535)]\<rparr>"
  let ?w2 = "?w1\<lparr>conn_window := 65235, stream_windows := [(1, 65235)]\<rparr>"
  have "flow_run ?w1 0 0 (\<lambda>_. 0) (\<lambda>_. 0)"
    by (rule flow_run.ensure [OF flow_run.start, of 1])
       (simp add: ensureStream_def new_window_def kDefaultInitialWindowSize_def)
  then have "flow_run ?w2 0 (0 + 300) (\<lambda>_. 0) ((\<lambda>_. 0)(1 := 0 + 300))"
    by (rule flow_run.consume) (simp add: consumeSendWindow_def new_window_def kDefaultInitialWindowSize_def)
  then have "flow_run (?w2\<lparr>conn_window := 65335\<rparr>) (0 + unat (100 :: u32)) (0 + 300) (\<lambda>_. 0) ((\<lambda>_. 0)(1 := 0 + 300))"
    by (rule flow_run.conn_update)
       (simp add: applyConnectionWindowUpdate_def wouldExceedMaxWindow_def kH2MaxFlowControlWindow_def)
  then show ?thesis
    by (intro exI [of _ "?w2\<lparr>conn_window := 65335\<rparr>"]) simp
qed

theorem flow_credit_balance_witness:
  "\<exists>w. flow_run w 100 300 (\<lambda>_. 0) ((\<lambda>_. 0)(1 := 300)) \<and> conn_window w = 65335
     \<and> conn_window w = 65535 + int 100 - int 300 \<and> conn_window w \<le> 2147483647"
proof -
  obtain w where w: "flow_run w 100 300 (\<lambda>_. 0) ((\<lambda>_. 0)(1 := 300))" "conn_window w = 65335"
    using sample_flow_run by blast
  then show ?thesis
    using flow_credit_balance [OF w(1)] by blast
qed

text \<open>What \<open>availableToSend\<close> promises, \<open>consumeSendWindow\<close> honours: for a known stream, the amount
  offered can be consumed at once; it never exceeds the request, the frame size or either
  window, and it is positive whenever all four are, so a sender with credit is never refused.\<close>

theorem available_is_consumable:
  assumes "map_of (stream_windows w) sid = Some win"
  shows "let n = availableToSend w sid requested max_frame_size in
    (\<exists>w'. consumeSendWindow w sid n = Inr w' \<and> conn_window w' = conn_window w - int n
       \<and> map_of (stream_windows w') sid = Some (win - int n))
    \<and> n \<le> requested \<and> n \<le> unat max_frame_size \<and> int n \<le> max 0 (conn_window w) \<and> int n \<le> max 0 win
    \<and> (0 < n \<longleftrightarrow> 0 < requested \<and> max_frame_size \<noteq> 0 \<and> 0 < conn_window w \<and> 0 < win)"
  using assms by (auto simp: availableToSend_def consumeSendWindow_def update_conv' unat_gt_0 Let_def)

theorem available_is_consumable_witness:
  "availableToSend (new_window\<lparr>stream_windows := [(1, 100)]\<rparr>) 1 500 16384 = 100
   \<and> (\<exists>w'. consumeSendWindow (new_window\<lparr>stream_windows := [(1, 100)]\<rparr>) 1 100 = Inr w' \<and> conn_window w' = 65435)"
  using available_is_consumable [of "new_window\<lparr>stream_windows := [(1, 100)]\<rparr>" 1 100 500 16384]
  by (auto simp: availableToSend_def new_window_def kDefaultInitialWindowSize_def Let_def)

end
