(* ===== verification/H2_Stream.thy ===== *)
theory H2_Stream
  imports H2_Builder H2_Dispatch
begin

text \<open>
  \<open>Http2Stream\<close> of \<^verbatim>\<open>galay-http2/kernel/http2_stream.h\<close>: the life cycle of a stream, and its send path,
  which queues DATA behind the send windows and cuts header blocks into HEADERS and CONTINUATION
  frames. The output is the vector variant of the send queue, \<open>hs_send_queue\<close> (\<open>None\<close> while no I/O is attached). The
  connection window, which the code reaches through a pointer, is a field; \<open>None\<close> is the null
  pointer. A waiter is a number; \<open>hs_notified\<close> lists the waiters that were notified at once.
\<close>

section \<open>State\<close>

record Http2OutgoingFrame =
  og_header :: bytes
  og_payload :: bytes
  og_waiter :: "nat option"

record PendingDataSend =
  ds_payload :: bytes
  ds_offset :: nat
  ds_end_stream :: bool
  ds_waiter :: "nat option"

record Http2Stream =
  hs_stream_id :: u32
  hs_state :: Http2StreamState
  hs_send_window :: int
  hs_end_stream_received :: bool
  hs_end_stream_sent :: bool
  hs_pending_data :: "PendingDataSend list"
  hs_send_queue :: "Http2OutgoingFrame list option"
  hs_conn_send_window :: "int option"
  hs_max_frame_size :: u32
  hs_max_header_list_size :: u32
  hs_notified :: "nat list"

definition kMaxFrameSize :: u32 where
  "kMaxFrameSize = 16777215"

definition normalizeMaxFrameSize :: "u32 \<Rightarrow> u32" where
  "normalizeMaxFrameSize n =
    (if n < kDefaultMaxFrameSize then kDefaultMaxFrameSize else min n kMaxFrameSize)"

section \<open>Life cycle\<close>

definition canReceiveHeaders :: "Http2Stream \<Rightarrow> bool" where
  "canReceiveHeaders s \<longleftrightarrow> hs_state s \<in> {Idle, ReservedRemote, Open, HalfClosedLocal}"

definition canReceiveData_stream :: "Http2Stream \<Rightarrow> bool" where
  "canReceiveData_stream s \<longleftrightarrow> hs_state s \<in> {Open, HalfClosedLocal}"

definition canSendHeaders :: "Http2Stream \<Rightarrow> bool" where
  "canSendHeaders s \<longleftrightarrow> hs_state s \<in> {Idle, ReservedLocal, Open, HalfClosedRemote}"

definition canSendData :: "Http2Stream \<Rightarrow> bool" where
  "canSendData s \<longleftrightarrow> hs_state s \<in> {Open, HalfClosedRemote}"

text \<open>The transitions on END_STREAM, received and sent.\<close>

definition remote_end :: "Http2StreamState \<Rightarrow> Http2StreamState" where
  "remote_end st = (if st = Open then HalfClosedRemote else if st = HalfClosedLocal then Closed else st)"

definition local_end :: "Http2StreamState \<Rightarrow> Http2StreamState" where
  "local_end st = (if st = Open then HalfClosedLocal else if st = HalfClosedRemote then Closed else st)"

definition onDataReceived :: "bool \<Rightarrow> Http2Stream \<Rightarrow> Http2Stream" where
  "onDataReceived end_stream s =
    (if end_stream then s\<lparr>hs_end_stream_received := True, hs_state := remote_end (hs_state s)\<rparr> else s)"

definition onHeadersReceived :: "bool \<Rightarrow> Http2Stream \<Rightarrow> Http2Stream" where
  "onHeadersReceived end_stream s =
    (let s1 = (if hs_state s = Idle then s\<lparr>hs_state := Open\<rparr> else s) in
     if end_stream then s1\<lparr>hs_end_stream_received := True, hs_state := remote_end (hs_state s1)\<rparr> else s1)"

definition onDataSent :: "bool \<Rightarrow> Http2Stream \<Rightarrow> Http2Stream" where
  "onDataSent end_stream s =
    (if end_stream then s\<lparr>hs_end_stream_sent := True, hs_state := local_end (hs_state s)\<rparr> else s)"

definition onHeadersSent :: "bool \<Rightarrow> Http2Stream \<Rightarrow> Http2Stream" where
  "onHeadersSent end_stream s =
    (let s1 = (if hs_state s = Idle then s\<lparr>hs_state := Open\<rparr>
               else if hs_state s = ReservedLocal then s\<lparr>hs_state := HalfClosedRemote\<rparr> else s) in
     if end_stream then s1\<lparr>hs_end_stream_sent := True, hs_state := local_end (hs_state s1)\<rparr> else s1)"

definition onRstStream :: "Http2Stream \<Rightarrow> Http2Stream" where
  "onRstStream s = s\<lparr>hs_state := Closed\<rparr>"

section \<open>Sending DATA\<close>

definition availableConnSendWindow :: "Http2Stream \<Rightarrow> int" where
  "availableConnSendWindow s = (case hs_conn_send_window s of Some w \<Rightarrow> w | None \<Rightarrow> 2147483647)"

definition consumeDataSendWindow :: "nat \<Rightarrow> Http2Stream \<Rightarrow> Http2Stream" where
  "consumeDataSendWindow n s =
    s\<lparr>hs_send_window := hs_send_window s - int n,
      hs_conn_send_window := map_option (\<lambda>w. w - int n) (hs_conn_send_window s)\<rparr>"

definition availableDataChunkSize :: "Http2Stream \<Rightarrow> PendingDataSend \<Rightarrow> nat" where
  "availableDataChunkSize s p =
    (if ds_offset p \<ge> length (ds_payload p) then 0
     else
       let stream_window = nat (max (hs_send_window s) 0);
           conn_window = nat (max (availableConnSendWindow s) 0) in
       if stream_window = 0 \<or> conn_window = 0 then 0
       else min (min (length (ds_payload p) - ds_offset p) (unat (hs_max_frame_size s)))
                (min stream_window conn_window))"

definition enqueueOutgoingDataFrame :: "Http2OutgoingFrame \<Rightarrow> Http2Stream \<Rightarrow> Http2Stream" where
  "enqueueOutgoingDataFrame f s = s\<lparr>hs_send_queue := map_option (\<lambda>q. q @ [f]) (hs_send_queue s)\<rparr>"

datatype PendingDataFlushResult = Blocked | Progress | Complete

definition flushPendingDataFront ::
  "PendingDataSend \<Rightarrow> Http2Stream \<Rightarrow> PendingDataFlushResult \<times> PendingDataSend \<times> Http2Stream" where
  "flushPendingDataFront p s =
    (let payload_size = length (ds_payload p) in
     if payload_size = 0 then
       let s1 = (if ds_end_stream p then onDataSent True s else s)
       in (Complete, p, enqueueOutgoingDataFrame
            \<lparr>og_header = dataHeaderBytes (hs_stream_id s) 0 (ds_end_stream p), og_payload = ds_payload p,
             og_waiter = ds_waiter p\<rparr> s1)
     else
       let chunk_size = availableDataChunkSize s p in
       if chunk_size = 0 then (Blocked, p, s)
       else
         let final_chunk = (ds_offset p + chunk_size = payload_size);
             frame_end_stream = (ds_end_stream p \<and> final_chunk);
             s1 = enqueueOutgoingDataFrame
                    \<lparr>og_header = dataHeaderBytes (hs_stream_id s) chunk_size frame_end_stream,
                     og_payload = take chunk_size (drop (ds_offset p) (ds_payload p)),
                     og_waiter = (if final_chunk then ds_waiter p else None)\<rparr> s;
             s2 = consumeDataSendWindow chunk_size s1;
             s3 = (if frame_end_stream then onDataSent True s2 else s2)
         in (if final_chunk then Complete else Progress, p\<lparr>ds_offset := ds_offset p + chunk_size\<rparr>, s3))"

definition left :: "PendingDataSend \<Rightarrow> nat" where
  "left p = length (ds_payload p) - ds_offset p"

text \<open>The guards of \<open>availableDataChunkSize\<close> only spell out the cases where the minimum is zero.\<close>

lemma chunk_is_min:
  "availableDataChunkSize s p =
    min (min (left p) (unat (hs_max_frame_size s))) (min (nat (hs_send_window s)) (nat (availableConnSendWindow s)))"
proof -
  have "nat (max w 0) = nat w" for w
    by (simp add: max_def)
  then show ?thesis
    by (simp add: availableDataChunkSize_def left_def Let_def)
qed

lemma chunk_bounds:
  "availableDataChunkSize s p \<le> left p"
  "availableDataChunkSize s p \<le> unat (hs_max_frame_size s)"
  "availableDataChunkSize s p \<le> nat (hs_send_window s)"
  "availableDataChunkSize s p \<le> nat (availableConnSendWindow s)"
  by (simp_all add: chunk_is_min)

lemma chunk_zero:
  "availableDataChunkSize s p = 0 \<Longrightarrow> 0 < left p \<Longrightarrow> hs_max_frame_size s \<noteq> 0 \<Longrightarrow>
   hs_send_window s \<le> 0 \<or> availableConnSendWindow s \<le> 0"
  by (auto simp: chunk_is_min min_def unat_eq_0 split: if_splits)

text \<open>The three outcomes for the front item.\<close>

definition outgoing_data :: "u32 \<Rightarrow> bytes \<times> bool \<times> nat option \<Rightarrow> Http2OutgoingFrame" where
  "outgoing_data sid = (\<lambda>(d, e, w). \<lparr>og_header = dataHeaderBytes sid (length d) e, og_payload = d, og_waiter = w\<rparr>)"

lemma flushFront_cases:
  assumes "flushPendingDataFront p s = (r, p', s')"
  obtains (empty) "ds_payload p = []" "r = Complete"
      "s' = enqueueOutgoingDataFrame (outgoing_data (hs_stream_id s) ([], ds_end_stream p, ds_waiter p))
              (onDataSent (ds_end_stream p) s)"
  | (blocked) "ds_payload p \<noteq> []" "r = Blocked" "availableDataChunkSize s p = 0" "s' = s" "p' = p"
  | (piece) c fin where "ds_payload p \<noteq> []" "c = availableDataChunkSize s p" "0 < c" "c \<le> left p"
      "fin = (left p = c)" "r = (if fin then Complete else Progress)" "p' = p\<lparr>ds_offset := ds_offset p + c\<rparr>"
      "s' = onDataSent (ds_end_stream p \<and> fin) (consumeDataSendWindow c (enqueueOutgoingDataFrame
             (outgoing_data (hs_stream_id s) (take c (drop (ds_offset p) (ds_payload p)), ds_end_stream p \<and> fin,
               if fin then ds_waiter p else None)) s))"
proof (cases "ds_payload p = []")
  case True
  show ?thesis
    by (rule empty)
       (use assms True in \<open>auto simp: flushPendingDataFront_def Let_def outgoing_data_def onDataSent_def\<close>)
next
  case False
  show ?thesis
  proof (cases "availableDataChunkSize s p = 0")
    case True
    show ?thesis
      by (rule blocked) (use assms False True in \<open>simp_all add: flushPendingDataFront_def Let_def\<close>)
  next
    case c: False
    have le: "availableDataChunkSize s p \<le> left p"
      by (rule chunk_bounds)
    have fin: "ds_offset p + availableDataChunkSize s p = length (ds_payload p) \<longleftrightarrow> left p = availableDataChunkSize s p"
      using le c by (auto simp: left_def)
    have len: "min (length (ds_payload p) - ds_offset p) (availableDataChunkSize s p) = availableDataChunkSize s p"
      using le by (simp add: left_def)
    show ?thesis
      by (rule piece [of "availableDataChunkSize s p" "left p = availableDataChunkSize s p"])
         (use assms False c le in \<open>auto simp: flushPendingDataFront_def Let_def fin outgoing_data_def len onDataSent_def\<close>)
  qed
qed

lemma flushFront_progress:
  assumes "flushPendingDataFront p s = (Progress, p', s')"
  shows "left p' < left p"
  using assms
proof (cases rule: flushFront_cases)
  case (piece c fin)
  then show ?thesis
    by (auto simp: left_def)
qed auto

function flushPendingData :: "Http2Stream \<Rightarrow> bool \<times> Http2Stream" where
  "flushPendingData s = (case hs_pending_data s of
     [] \<Rightarrow> (False, s)
   | p # ps \<Rightarrow>
       if hs_send_queue s = None then (False, s)
       else (case flushPendingDataFront p s of
           (Blocked, _, _) \<Rightarrow> (False, s)
         | (Progress, p', s') \<Rightarrow> (True, snd (flushPendingData (s'\<lparr>hs_pending_data := p' # ps\<rparr>)))
         | (Complete, _, s') \<Rightarrow> (True, snd (flushPendingData (s'\<lparr>hs_pending_data := ps\<rparr>)))))"
  by pat_completeness auto
termination
proof (relation "measure (\<lambda>s. sum_list (map (\<lambda>p. Suc (left p)) (hs_pending_data s)))", goal_cases)
  case (2 s p ps x y p' s')
  then show ?case
    using flushFront_progress [of p s p' s'] by (simp add: left_def)
qed simp_all

declare flushPendingData.simps [simp del]

definition queueDataForSend :: "bytes \<Rightarrow> bool \<Rightarrow> nat option \<Rightarrow> Http2Stream \<Rightarrow> Http2Stream" where
  "queueDataForSend payload end_stream waiter s =
    (if hs_send_queue s = None then s\<lparr>hs_notified := hs_notified s @ (case waiter of None \<Rightarrow> [] | Some w \<Rightarrow> [w])\<rparr>
     else snd (flushPendingData (s\<lparr>hs_pending_data := hs_pending_data s
            @ [\<lparr>ds_payload = payload, ds_offset = 0, ds_end_stream = end_stream, ds_waiter = waiter\<rparr>]\<rparr>)))"

definition adjustSendWindow :: "int \<Rightarrow> Http2Stream \<Rightarrow> Http2Stream" where
  "adjustSendWindow delta s = s\<lparr>hs_send_window := hs_send_window s + delta\<rparr>"

section \<open>Sending header blocks\<close>

text \<open>The loop over the pieces of a header block from \<open>offset\<close>.\<close>

function header_pieces ::
  "u32 \<Rightarrow> u32 \<Rightarrow> bytes \<Rightarrow> bool \<Rightarrow> bool \<Rightarrow> nat option \<Rightarrow> nat \<Rightarrow> bool \<Rightarrow> Http2OutgoingFrame list" where
  "header_pieces sid max_frame_size payload end_stream end_headers waiter offset first =
    (if offset < length payload \<and> max_frame_size \<noteq> 0 then
       let chunk_size = min (unat max_frame_size) (length payload - offset);
           final_chunk = (offset + chunk_size = length payload);
           hdr = (if first then headersHeaderBytes sid chunk_size end_stream (final_chunk \<and> end_headers)
                  else continuationHeaderBytes sid chunk_size (final_chunk \<and> end_headers))
       in \<lparr>og_header = hdr, og_payload = take chunk_size (drop offset payload),
           og_waiter = (if final_chunk then waiter else None)\<rparr>
          # header_pieces sid max_frame_size payload end_stream end_headers waiter (offset + chunk_size) False
     else [])"
  by pat_completeness auto
termination
  by (relation "measure (\<lambda>(_, _, payload, _, _, _, offset, _). length payload - offset)")
     (auto simp: min_def dest: unat_gt_0 [THEN iffD2])

declare header_pieces.simps [simp del]

definition sendEncodedHeadersInternal :: "bytes \<Rightarrow> bool \<Rightarrow> bool \<Rightarrow> nat option \<Rightarrow> Http2Stream \<Rightarrow> Http2Stream" where
  "sendEncodedHeadersInternal block end_stream end_headers waiter s =
    (if hs_send_queue s = None \<or> length block > unat (hs_max_header_list_size s) then
       s\<lparr>hs_notified := hs_notified s @ (case waiter of None \<Rightarrow> [] | Some w \<Rightarrow> [w])\<rparr>
     else
       let frames = (if block = [] then
              [\<lparr>og_header = headersHeaderBytes (hs_stream_id s) 0 end_stream end_headers, og_payload = [],
                og_waiter = waiter\<rparr>]
            else header_pieces (hs_stream_id s) (hs_max_frame_size s) block end_stream end_headers waiter 0 True)
       in onHeadersSent end_stream (s\<lparr>hs_send_queue := map_option (\<lambda>q. q @ frames) (hs_send_queue s)\<rparr>))"


section \<open>What a flush does\<close>

lemma flush_fields [simp]:
  "hs_stream_id (onDataSent e s) = hs_stream_id s" "hs_stream_id (consumeDataSendWindow n s) = hs_stream_id s"
  "hs_stream_id (enqueueOutgoingDataFrame f s) = hs_stream_id s"
  "hs_max_frame_size (onDataSent e s) = hs_max_frame_size s" "hs_max_frame_size (consumeDataSendWindow n s) = hs_max_frame_size s"
  "hs_max_frame_size (enqueueOutgoingDataFrame f s) = hs_max_frame_size s"
  "hs_send_queue (onDataSent e s) = hs_send_queue s" "hs_send_queue (consumeDataSendWindow n s) = hs_send_queue s"
  "hs_send_queue (enqueueOutgoingDataFrame f s) = map_option (\<lambda>q. q @ [f]) (hs_send_queue s)"
  "hs_send_window (onDataSent e s) = hs_send_window s" "hs_send_window (consumeDataSendWindow n s) = hs_send_window s - int n"
  "hs_send_window (enqueueOutgoingDataFrame f s) = hs_send_window s"
  "hs_conn_send_window (onDataSent e s) = hs_conn_send_window s"
  "hs_conn_send_window (consumeDataSendWindow n s) = map_option (\<lambda>w. w - int n) (hs_conn_send_window s)"
  "hs_conn_send_window (enqueueOutgoingDataFrame f s) = hs_conn_send_window s"
  "hs_end_stream_sent (onDataSent e s) \<longleftrightarrow> hs_end_stream_sent s \<or> e"
  "hs_end_stream_sent (consumeDataSendWindow n s) = hs_end_stream_sent s"
  "hs_end_stream_sent (enqueueOutgoingDataFrame f s) = hs_end_stream_sent s"
  by (simp_all add: onDataSent_def consumeDataSendWindow_def enqueueOutgoingDataFrame_def)

text \<open>The bytes and END_STREAM marks that a stream owes its peer, in order, and those that DATA frames
  carry; \<open>pending_ok\<close> says that an item with a payload has something left.\<close>

datatype mark = Octet u8 | EndMark

abbreviation marks :: "bytes \<Rightarrow> bool \<Rightarrow> mark list" where
  "marks d e \<equiv> map Octet d @ (if e then [EndMark] else [])"

definition owed :: "PendingDataSend list \<Rightarrow> mark list" where
  "owed ps = concat (map (\<lambda>p. marks (drop (ds_offset p) (ds_payload p)) (ds_end_stream p)) ps)"

definition carried :: "(bytes \<times> bool \<times> nat option) list \<Rightarrow> mark list" where
  "carried ds = concat (map (\<lambda>(d, e, w). marks d e) ds)"

definition waiting :: "nat option list \<Rightarrow> nat list" where
  "waiting ws = concat (map (case_option [] (\<lambda>w. [w])) ws)"

definition item_ok :: "PendingDataSend \<Rightarrow> bool" where
  "item_ok p \<longleftrightarrow> ds_payload p = [] \<or> 0 < left p"

definition carried_size :: "(bytes \<times> bool \<times> nat option) list \<Rightarrow> nat" where
  "carried_size ds = sum_list (map (\<lambda>(d, e, w). length d) ds)"

text \<open>\<open>flushed s ds s'\<close>: the DATA frames \<open>ds\<close> were queued, and account for the difference of the states.\<close>

definition flushed :: "Http2Stream \<Rightarrow> (bytes \<times> bool \<times> nat option) list \<Rightarrow> Http2Stream \<Rightarrow> bool" where
  "flushed s ds s' \<longleftrightarrow>
     hs_send_queue s' = map_option (\<lambda>q. q @ map (outgoing_data (hs_stream_id s)) ds) (hs_send_queue s)
   \<and> carried ds @ owed (hs_pending_data s') = owed (hs_pending_data s)
   \<and> waiting (map (\<lambda>(d, e, w). w) ds @ map ds_waiter (hs_pending_data s')) = waiting (map ds_waiter (hs_pending_data s))
   \<and> list_all (\<lambda>(d, e, w). length d \<le> unat (hs_max_frame_size s)) ds
   \<and> hs_send_window s' = hs_send_window s - int (carried_size ds)
   \<and> hs_conn_send_window s' = map_option (\<lambda>w. w - int (carried_size ds)) (hs_conn_send_window s)
   \<and> carried_size ds \<le> nat (hs_send_window s) \<and> (\<forall>w. hs_conn_send_window s = Some w \<longrightarrow> carried_size ds \<le> nat w)
   \<and> (hs_end_stream_sent s' \<longleftrightarrow> hs_end_stream_sent s \<or> EndMark \<in> set (carried ds))
   \<and> hs_stream_id s' = hs_stream_id s \<and> hs_max_frame_size s' = hs_max_frame_size s"

lemma flushed_refl: "flushed s [] s"
  by (simp add: flushed_def carried_def carried_size_def option.map_ident)

lemma flushed_trans:
  assumes "flushed s ds s1" "flushed s1 es s2"
  shows "flushed s (ds @ es) s2"
proof -
  have w: "waiting (xs @ ys) = waiting xs @ waiting ys" for xs ys
    by (simp add: waiting_def)
  have c: "carried (ds @ es) = carried ds @ carried es" "carried_size (ds @ es) = carried_size ds + carried_size es"
    by (simp_all add: carried_def carried_size_def)
  show ?thesis
    unfolding flushed_def w c
  proof (intro conjI)
    show "hs_send_queue s2 = map_option (\<lambda>q. q @ map (outgoing_data (hs_stream_id s)) (ds @ es)) (hs_send_queue s)"
      using assms by (cases "hs_send_queue s") (auto simp: flushed_def)
    show "hs_conn_send_window s2 = map_option (\<lambda>w. w - int (carried_size ds + carried_size es)) (hs_conn_send_window s)"
      using assms by (cases "hs_conn_send_window s") (auto simp: flushed_def)
    show "\<forall>w. hs_conn_send_window s = Some w \<longrightarrow> carried_size ds + carried_size es \<le> nat w"
      using assms by (auto simp: flushed_def)
  qed (use assms in \<open>auto simp: flushed_def w\<close>)
qed

lemma front_flushed:
  assumes "flushPendingDataFront p s = (r, p', s')" "r \<noteq> Blocked" "hs_pending_data s = p # ps" "item_ok p"
  shows "(\<exists>d. flushed s [d] (s'\<lparr>hs_pending_data := (if r = Complete then [] else [p']) @ ps\<rparr>))
    \<and> (r = Progress \<longrightarrow> item_ok p')"
  using assms(1)
proof (cases rule: flushFront_cases)
  case empty
  have "flushed s [([], ds_end_stream p, ds_waiter p)] (s'\<lparr>hs_pending_data := ps\<rparr>)"
    using empty assms(3) by (simp add: flushed_def carried_def carried_size_def owed_def waiting_def option.map_ident)
  then show ?thesis
    using empty by auto
next
  case (piece c fin)
  let ?d = "(take c (drop (ds_offset p) (ds_payload p)), ds_end_stream p \<and> fin, if fin then ds_waiter p else None)"
  have size: "carried_size [?d] = c"
    using piece by (simp add: carried_size_def left_def)
  have win: "c \<le> nat (hs_send_window s)" "hs_conn_send_window s = Some w \<Longrightarrow> c \<le> nat w" "c \<le> unat (hs_max_frame_size s)" for w
    using chunk_bounds [of s p] piece(2) by (auto simp: availableConnSendWindow_def)
  have td: "map Octet (take c (drop (ds_offset p) (ds_payload p))) @ map Octet (drop (ds_offset p + c) (ds_payload p)) @ xs
      = map Octet (drop (ds_offset p) (ds_payload p)) @ xs" for xs
  proof -
    have "take c (drop (ds_offset p) (ds_payload p)) @ drop (ds_offset p + c) (ds_payload p) = drop (ds_offset p) (ds_payload p)"
      using append_take_drop_id [of c "drop (ds_offset p) (ds_payload p)"] by (simp add: add.commute)
    then show ?thesis
      by (simp flip: append_assoc map_append)
  qed
  have owed: "carried [?d] @ owed ((if fin then [] else [p']) @ ps) = owed (p # ps)"
  proof (cases fin)
    case True
    then show ?thesis
      using piece(5) by (simp add: carried_def owed_def left_def)
  next
    case False
    then show ?thesis
      using piece(7) by (simp add: carried_def owed_def td)
  qed
  have "flushed s [?d] (s'\<lparr>hs_pending_data := (if fin then [] else [p']) @ ps\<rparr>)"
    unfolding flushed_def size using piece assms(3) win owed by (auto simp: waiting_def carried_def)
  then have "flushed s [?d] (s'\<lparr>hs_pending_data := (if r = Complete then [] else [p']) @ ps\<rparr>)"
    using piece by (simp split: if_splits)
  then show ?thesis
    using piece by (auto simp: item_ok_def left_def split: if_splits)
qed (use assms(2) in simp_all)

lemma flush_flushed:
  assumes "hs_send_queue s \<noteq> None" "list_all item_ok (hs_pending_data s)" "hs_max_frame_size s \<noteq> 0"
  shows "\<exists>ds. flushed s ds (snd (flushPendingData s)) \<and> (fst (flushPendingData s) \<longleftrightarrow> ds \<noteq> [])
    \<and> (hs_pending_data (snd (flushPendingData s)) \<noteq> [] \<longrightarrow>
        hs_send_window (snd (flushPendingData s)) \<le> 0 \<or> availableConnSendWindow (snd (flushPendingData s)) \<le> 0)
    \<and> list_all item_ok (hs_pending_data (snd (flushPendingData s)))"
  using assms
proof (induction s rule: flushPendingData.induct)
  case (1 s)
  show ?case
  proof (cases "hs_pending_data s")
    case Nil
    then show ?thesis
      using flushed_refl [of s] by (auto simp: flushPendingData.simps [of s])
  next
    case (Cons p ps)
    obtain r p' s' where f: "flushPendingDataFront p s = (r, p', s')"
      by (cases "flushPendingDataFront p s")
    have ok: "item_ok p" "list_all item_ok ps"
      using 1(4) Cons by simp_all
    show ?thesis
    proof (cases "r = Blocked")
      case True
      from f have "hs_send_window s \<le> 0 \<or> availableConnSendWindow s \<le> 0"
        by (cases rule: flushFront_cases) (use True ok 1(5) chunk_zero [of s p] in \<open>auto simp: item_ok_def split: if_splits\<close>)
      then show ?thesis
        using True f Cons 1(3,4) flushed_refl [of s] by (auto simp: flushPendingData.simps [of s])
    next
      case False
      let ?s1 = "s'\<lparr>hs_pending_data := (if r = Complete then [] else [p']) @ ps\<rparr>"
      obtain d where d: "flushed s [d] ?s1"
        using front_flushed [OF f False Cons ok(1)] by blast
      have step: "flushPendingData s = (True, snd (flushPendingData ?s1))"
        using False f Cons 1(3) by (cases r) (simp_all add: flushPendingData.simps [of s])
      have "list_all item_ok (hs_pending_data ?s1)"
        using front_flushed [OF f False Cons ok(1)] ok(2) False by (cases r) auto
      moreover have "hs_send_queue ?s1 \<noteq> None" "hs_max_frame_size ?s1 \<noteq> 0"
        using d 1(3,5) by (auto simp: flushed_def)
      moreover have "\<lbrakk>hs_send_queue ?s1 \<noteq> None; list_all item_ok (hs_pending_data ?s1); hs_max_frame_size ?s1 \<noteq> 0\<rbrakk> \<Longrightarrow>
        \<exists>ds. flushed ?s1 ds (snd (flushPendingData ?s1)) \<and> (fst (flushPendingData ?s1) \<longleftrightarrow> ds \<noteq> [])
        \<and> (hs_pending_data (snd (flushPendingData ?s1)) \<noteq> [] \<longrightarrow>
            hs_send_window (snd (flushPendingData ?s1)) \<le> 0 \<or> availableConnSendWindow (snd (flushPendingData ?s1)) \<le> 0)
        \<and> list_all item_ok (hs_pending_data (snd (flushPendingData ?s1)))"
        using 1(1) [OF Cons 1(3) f [symmetric]] 1(2) [OF Cons 1(3) f [symmetric]] False by (cases r) simp_all
      ultimately obtain ds where "flushed ?s1 ds (snd (flushPendingData ?s1))"
        "hs_pending_data (snd (flushPendingData ?s1)) \<noteq> [] \<longrightarrow>
            hs_send_window (snd (flushPendingData ?s1)) \<le> 0 \<or> availableConnSendWindow (snd (flushPendingData ?s1)) \<le> 0"
        "list_all item_ok (hs_pending_data (snd (flushPendingData ?s1)))"
        by blast
      then show ?thesis
        unfolding step using flushed_trans [OF d, of ds] by (intro exI [of _ "[d] @ ds"]) simp
    qed
  qed
qed

section \<open>Header blocks on the wire\<close>

definition wire :: "Http2OutgoingFrame \<Rightarrow> bytes" where
  "wire f = og_header f @ og_payload f"

definition build_continuation :: "u32 \<Rightarrow> bytes \<Rightarrow> bool \<Rightarrow> Http2Frame" where
  "build_continuation sid blk eh =
    setEndHeaders eh (ContinuationFrame (default_header\<lparr>h_type := FT_Continuation, h_stream_id := sid\<rparr>) blk)"

lemma build_header_simps [simp]:
  "m_header_block (build_headers sid blk es eh) = blk" "streamId (build_headers sid blk es eh) = sid"
  "isHeaders (build_headers sid blk es eh)" "isEndStream (build_headers sid blk es eh) = es"
  "isEndHeaders (build_headers sid blk es eh) = eh"
  "m_header_block (build_continuation sid blk eh) = blk" "streamId (build_continuation sid blk eh) = sid"
  "isContinuation (build_continuation sid blk eh)" "isEndHeaders (build_continuation sid blk eh) = eh"
  by (simp_all add: build_defs build_continuation_def streamId_def frame_type_def isHeaders_def isContinuation_def
      isEndStream_def isEndHeaders_def hasFlag_def h2_enum)

lemma wire_frames:
  "dataHeaderBytes sid (length d) es @ d = serialize (build_data sid d es)"
  "headersHeaderBytes sid (length blk) es eh @ blk = serialize (build_headers sid blk es eh)"
  "continuationHeaderBytes sid (length blk) eh @ blk = serialize (build_continuation sid blk eh)"
  by (simp_all add: build_defs build_continuation_def headersHeaderBytes_def headers_flags_def continuationHeaderBytes_def
      dataHeaderBytes_def bytes_defs end_stream_flag_def pad_len_bytes_def pad_bytes_alt hasFlag_def h2_enum)

text \<open>The frame sequence of a header block: one HEADERS frame, then CONTINUATION frames.\<close>

function block_frames :: "u32 \<Rightarrow> nat \<Rightarrow> bytes \<Rightarrow> bool \<Rightarrow> bool \<Rightarrow> bool \<Rightarrow> Http2Frame list" where
  "block_frames sid n blk es eh first =
    (let fin = (length blk \<le> n); d = take n blk;
         f = (if first then build_headers sid d es (fin \<and> eh) else build_continuation sid d (fin \<and> eh))
     in if fin \<or> n = 0 then [f] else f # block_frames sid n (drop n blk) es eh False)"
  by pat_completeness auto
termination
  by (relation "measure (\<lambda>(_, n, blk, _). length blk)") auto

declare block_frames.simps [simp del]

lemma header_pieces_wire:
  assumes "offset < length blk" "m \<noteq> 0"
  shows "map wire (header_pieces sid m blk es eh w offset first)
      = map serialize (block_frames sid (unat m) (drop offset blk) es eh first)
    \<and> map og_waiter (header_pieces sid m blk es eh w offset first)
      = replicate (length (block_frames sid (unat m) (drop offset blk) es eh first) - 1) None @ [w]"
  using assms
proof (induction sid m blk es eh w offset first rule: header_pieces.induct)
  case (1 sid m blk es eh w offset first)
  let ?n = "unat m"
  let ?c = "min ?n (length blk - offset)"
  have n: "0 < ?n"
    using 1(3) by (simp add: unat_gt_0)
  have d: "take ?c (drop offset blk) = take ?n (drop offset blk)"
    by (cases "?n \<le> length blk - offset") simp_all
  have len: "length (take ?n (drop offset blk)) = ?c"
    by (simp add: min.commute)
  have fin: "offset + ?c = length blk \<longleftrightarrow> length (drop offset blk) \<le> ?n"
    using 1(2) by auto
  have w: "wire \<lparr>og_header = (if first then headersHeaderBytes sid ?c es e else continuationHeaderBytes sid ?c e),
              og_payload = take ?n (drop offset blk), og_waiter = x\<rparr>
      = serialize (if first then build_headers sid (take ?n (drop offset blk)) es e
                   else build_continuation sid (take ?n (drop offset blk)) e)" for e x
    unfolding wire_def using wire_frames(2) [of sid "take ?n (drop offset blk)" es e]
      wire_frames(3) [of sid "take ?n (drop offset blk)" e] by (simp add: len del: length_take)
  show ?case
  proof (cases "length (drop offset blk) \<le> ?n")
    case True
    have "header_pieces sid m blk es eh w (offset + ?c) False = []"
      using True by (subst header_pieces.simps) auto
    then show ?thesis
      using 1(2,3) True fin w [of eh w]
      by (subst (1 2) header_pieces.simps, subst (1 2) block_frames.simps) (cases first; simp add: Let_def d)
  next
    case False
    have drop: "drop (offset + ?c) blk = drop ?n (drop offset blk)"
      using False by (simp add: min_def add.commute)
    have IH: "map wire (header_pieces sid m blk es eh w (offset + ?c) False)
        = map serialize (block_frames sid ?n (drop (offset + ?c) blk) es eh False)
      \<and> map og_waiter (header_pieces sid m blk es eh w (offset + ?c) False)
        = replicate (length (block_frames sid ?n (drop (offset + ?c) blk) es eh False) - 1) None @ [w]"
      using False 1(2,3) by (intro 1(1)) auto
    have ne: "block_frames sid ?n b es eh False \<noteq> []" for b
      by (subst block_frames.simps) (simp add: Let_def)
    have rep: "None # replicate (length (block_frames sid ?n b es eh False) - 1) None
        = replicate (length (block_frames sid ?n b es eh False)) None" for b
      using ne [of b] by (cases "block_frames sid ?n b es eh False") simp_all
    show ?thesis
      using 1(2,3) False fin n IH w [of False None]
      by (subst (1 2) header_pieces.simps, subst (1 2) block_frames.simps)
         (cases first; simp add: Let_def d drop rep [unfolded One_nat_def] add.commute [of "unat m" offset] flip: append_Cons)
  qed
qed

text \<open>What a receiver needs of the frames \<open>fs\<close> that carry the header block \<open>blk\<close>.\<close>

definition carries_block :: "u32 \<Rightarrow> nat \<Rightarrow> bytes \<Rightarrow> bool \<Rightarrow> Http2Frame list \<Rightarrow> bool" where
  "carries_block sid n blk eh fs \<longleftrightarrow> fs \<noteq> []
     \<and> concat (map m_header_block fs) = blk
     \<and> list_all (\<lambda>f. streamId f = sid \<and> length (m_header_block f) \<le> n) fs
     \<and> map isEndHeaders fs = replicate (length fs - 1) False @ [eh]"

lemma carries_block_single:
  "m_header_block f = blk \<Longrightarrow> streamId f = sid \<Longrightarrow> length blk \<le> n \<Longrightarrow> isEndHeaders f = eh \<Longrightarrow> carries_block sid n blk eh [f]"
  by (simp add: carries_block_def)

lemma carries_block_Cons:
  assumes "carries_block sid n (drop n blk) eh fs" "m_header_block f = take n blk" "streamId f = sid" "\<not> isEndHeaders f"
  shows "carries_block sid n blk eh (f # fs)"
  using assms by (cases fs) (auto simp: carries_block_def)

lemma continuation_frames:
  assumes "0 < n"
  shows "carries_block sid n blk eh (block_frames sid n blk es eh False) \<and> list_all isContinuation (block_frames sid n blk es eh False)"
  using assms
proof (induction "length blk" arbitrary: blk rule: less_induct)
  case less
  show ?case
  proof (cases "length blk \<le> n")
    case True
    then show ?thesis
      by (subst (1 2) block_frames.simps) (simp add: Let_def carries_block_single)
  next
    case False
    then have "carries_block sid n (drop n blk) eh (block_frames sid n (drop n blk) es eh False)
        \<and> list_all isContinuation (block_frames sid n (drop n blk) es eh False)"
      using less by (intro less(1)) auto
    then show ?thesis
      using False less(2) by (subst (1 2) block_frames.simps) (simp add: Let_def carries_block_Cons)
  qed
qed

lemma header_frames:
  assumes "0 < n"
  shows "\<exists>f fs. block_frames sid n blk es eh True = f # fs \<and> carries_block sid n blk eh (f # fs)
    \<and> isHeaders f \<and> isEndStream f = es \<and> list_all isContinuation fs"
proof (cases "length blk \<le> n")
  case True
  then show ?thesis
    by (subst block_frames.simps) (simp add: Let_def carries_block_single)
next
  case False
  then show ?thesis
    using assms continuation_frames [OF assms, of sid "drop n blk" eh es]
    by (subst block_frames.simps) (simp add: Let_def carries_block_Cons)
qed

text \<open>A peer's dispatcher delivers such a sequence as one block.\<close>

lemma dispatch_continuations:
  assumes "list_all (\<lambda>f. streamId f = sid) fs" "list_all isContinuation fs" "fs \<noteq> []"
    "map isEndHeaders fs = replicate (length fs - 1) False @ [True]" "sid \<noteq> 0"
    "ds_expecting_continuation d" "ds_continuation_stream_id d = sid"
  shows "list_all (\<lambda>(f, r). delivered r) (fst (dispatch_run d fs))
    \<and> snd (dispatch_run d fs) = d\<lparr>ds_expecting_continuation := False, ds_continuation_stream_id := 0\<rparr>"
  using assms
proof (induction fs arbitrary: d)
  case (Cons f fs)
  have f: "dispatch f d = (one_action DeliverToStream sid, if isEndHeaders f then set_continuation False 0 d else d)"
    using Cons(2,3,6,7,8)
    by (simp add: dispatch_def Let_def requiresNonZeroStream_def requiresZeroStream_def isNewStreamRejectedByGoaway_def
        dispatch_by_type_def dispatch_continuation_def isHeaders_def isData_def isContinuation_def h2_enum)
  show ?case
  proof (cases fs)
    case Nil
    then show ?thesis
      using f Cons(5) by (simp add: set_continuation_def)
  next
    case (Cons g gs)
    then have "\<not> isEndHeaders f" "map isEndHeaders fs = replicate (length fs - 1) False @ [True]"
      using Cons.prems(4) by simp_all
    then show ?thesis
      using f Cons.IH [of d] Cons.prems Cons by (simp add: case_prod_unfold Let_def)
  qed
qed simp

lemma peer_delivers_block:
  assumes "carries_block sid n blk True (f # fs)" "isHeaders f" "list_all isContinuation fs" "sid \<noteq> 0"
    "\<not> ds_expecting_continuation d" "\<not> ds_goaway_received d" "\<not> isRemoteClosed (streamState d sid)"
  shows "list_all (\<lambda>(g, r). delivered r) (fst (dispatch_run d (f # fs)))
    \<and> \<not> ds_expecting_continuation (snd (dispatch_run d (f # fs)))"
proof -
  have sid: "streamId f = sid" "list_all (\<lambda>f. streamId f = sid) fs"
    using assms(1) by (auto simp: carries_block_def list_all_iff)
  have f: "dispatch f d = (one_action DeliverToStream sid, headers_state f d)"
    using assms(2,4-7) sid
    by (simp add: dispatch_def Let_def requiresNonZeroStream_def requiresZeroStream_def isNewStreamRejectedByGoaway_def
        dispatch_by_type_def dispatch_headers_cases isHeaders_def h2_enum)
  show ?thesis
  proof (cases fs)
    case Nil
    then show ?thesis
      using assms(1) f by (simp add: carries_block_def headers_state_def)
  next
    case (Cons g gs)
    then have e: "\<not> isEndHeaders f" "map isEndHeaders fs = replicate (length fs - 1) False @ [True]"
      using assms(1) by (auto simp: carries_block_def)
    then show ?thesis
      using dispatch_continuations [OF sid(2) assms(3) _ e(2) assms(4), of "headers_state f d"] f sid Cons
      by (simp add: headers_state_def case_prod_unfold Let_def)
  qed
qed

lemma sent_block_wire:
  assumes "hs_send_queue s = Some q" "length block \<le> unat (hs_max_header_list_size s)" "hs_max_frame_size s \<noteq> 0"
  obtains os where "hs_send_queue (sendEncodedHeadersInternal block es eh w s) = Some (q @ os)"
    "map wire os = map serialize (block_frames (hs_stream_id s) (unat (hs_max_frame_size s)) block es eh True)"
    "map og_waiter os = replicate (length (block_frames (hs_stream_id s) (unat (hs_max_frame_size s)) block es eh True) - 1) None @ [w]"
proof -
  have queue: "hs_send_queue (onHeadersSent es x) = hs_send_queue x" for x
    by (simp add: onHeadersSent_def Let_def)
  show ?thesis
  proof (cases "block = []")
    case True
    show ?thesis
      by (rule that [of "[\<lparr>og_header = headersHeaderBytes (hs_stream_id s) 0 es eh, og_payload = [], og_waiter = w\<rparr>]"])
         (use assms True wire_frames(2) [of "hs_stream_id s" "[]" es eh] in
           \<open>simp_all add: sendEncodedHeadersInternal_def queue wire_def block_frames.simps Let_def\<close>)
  next
    case False
    show ?thesis
      by (rule that [of "header_pieces (hs_stream_id s) (hs_max_frame_size s) block es eh w 0 True"])
         (use assms False header_pieces_wire [of 0 block "hs_max_frame_size s" "hs_stream_id s" es eh w True] in
           \<open>simp_all add: sendEncodedHeadersInternal_def queue\<close>)
  qed
qed

section \<open>Runs of the life cycle\<close>

datatype stream_event = RecvHeaders bool | RecvData bool | SentHeaders bool | SentData bool | Reset

fun event_allowed :: "Http2Stream \<Rightarrow> stream_event \<Rightarrow> bool" where
  "event_allowed s (RecvHeaders _) = canReceiveHeaders s"
| "event_allowed s (RecvData _) = canReceiveData_stream s"
| "event_allowed s (SentHeaders _) = canSendHeaders s"
| "event_allowed s (SentData _) = canSendData s"
| "event_allowed s Reset = True"

fun on_event :: "stream_event \<Rightarrow> Http2Stream \<Rightarrow> Http2Stream" where
  "on_event (RecvHeaders e) s = onHeadersReceived e s"
| "on_event (RecvData e) s = onDataReceived e s"
| "on_event (SentHeaders e) s = onHeadersSent e s"
| "on_event (SentData e) s = onDataSent e s"
| "on_event Reset s = onRstStream s"

text \<open>The states a stream reaches by events that its own guards allow, with the events so far.\<close>

inductive stream_run :: "Http2Stream \<Rightarrow> stream_event list \<Rightarrow> Http2Stream \<Rightarrow> bool" for s0 where
  start: "stream_run s0 [] s0"
| step: "stream_run s0 evs s \<Longrightarrow> event_allowed s ev \<Longrightarrow> stream_run s0 (evs @ [ev]) (on_event ev s)"

definition peer_ended :: "stream_event list \<Rightarrow> bool" where
  "peer_ended evs \<longleftrightarrow> RecvHeaders True \<in> set evs \<or> RecvData True \<in> set evs"

definition self_ended :: "stream_event list \<Rightarrow> bool" where
  "self_ended evs \<longleftrightarrow> SentHeaders True \<in> set evs \<or> SentData True \<in> set evs"

definition lifecycle_of :: "stream_event list \<Rightarrow> Http2StreamState" where
  "lifecycle_of evs =
    (if Reset \<in> set evs then Closed else if evs = [] then Idle
     else if peer_ended evs \<and> self_ended evs then Closed
     else if peer_ended evs then HalfClosedRemote else if self_ended evs then HalfClosedLocal else Open)"

lemma stream_run_state:
  assumes "stream_run s0 evs s" "hs_state s0 = Idle" "\<not> hs_end_stream_received s0" "\<not> hs_end_stream_sent s0"
  shows "hs_state s = lifecycle_of evs \<and> hs_end_stream_received s = peer_ended evs \<and> hs_end_stream_sent s = self_ended evs"
  using assms
proof (induction rule: stream_run.induct)
  case start
  then show ?case
    by (simp add: lifecycle_of_def peer_ended_def self_ended_def)
next
  case (step evs s ev)
  show ?case
  proof (cases ev)
    case (RecvHeaders e)
    then show ?thesis
      using step by (auto simp: canReceiveHeaders_def onHeadersReceived_def Let_def remote_end_def lifecycle_of_def
          peer_ended_def self_ended_def split: if_splits)
  next
    case (RecvData e)
    then show ?thesis
      using step by (auto simp: canReceiveData_stream_def onDataReceived_def remote_end_def lifecycle_of_def
          peer_ended_def self_ended_def split: if_splits)
  next
    case (SentHeaders e)
    then show ?thesis
      using step by (auto simp: canSendHeaders_def onHeadersSent_def Let_def local_end_def lifecycle_of_def
          peer_ended_def self_ended_def split: if_splits)
  next
    case (SentData e)
    then show ?thesis
      using step by (auto simp: canSendData_def onDataSent_def local_end_def lifecycle_of_def
          peer_ended_def self_ended_def split: if_splits)
  next
    case Reset
    then show ?thesis
      using step by (auto simp: onRstStream_def lifecycle_of_def peer_ended_def self_ended_def)
  qed
qed

section \<open>Properties\<close>

definition sample_stream0 :: Http2Stream where
  "sample_stream0 = \<lparr>hs_stream_id = 3, hs_state = Idle, hs_send_window = 5, hs_end_stream_received = False,
     hs_end_stream_sent = False, hs_pending_data = [], hs_send_queue = Some [], hs_conn_send_window = Some 100,
     hs_max_frame_size = 16384, hs_max_header_list_size = 8192, hs_notified = []\<rparr>"

text \<open>
  C29. The life cycle of a stream: after any sequence of events that the stream's own guards allow, its state is
  the one RFC 7540 gives for that sequence (idle before the first event, closed after a reset or when both sides
  have ended, half-closed when one has), the two END_STREAM flags record exactly the ends that occurred, and
  after its end no side can send DATA or HEADERS: the guards refuse them.
\<close>

theorem stream_lifecycle:
  assumes "stream_run s0 evs s" "hs_state s0 = Idle" "\<not> hs_end_stream_received s0" "\<not> hs_end_stream_sent s0"
  shows "hs_state s = lifecycle_of evs
    \<and> hs_end_stream_received s = peer_ended evs \<and> hs_end_stream_sent s = self_ended evs
    \<and> (peer_ended evs \<longrightarrow> \<not> canReceiveHeaders s \<and> \<not> canReceiveData_stream s)
    \<and> (self_ended evs \<longrightarrow> \<not> canSendHeaders s \<and> \<not> canSendData s)"
  using stream_run_state [OF assms]
  by (auto simp: lifecycle_of_def peer_ended_def self_ended_def canReceiveHeaders_def canReceiveData_stream_def
      canSendHeaders_def canSendData_def)

theorem stream_lifecycle_witness:
  "hs_state (on_event (SentData True) (on_event (RecvHeaders True) sample_stream0)) = Closed"
proof -
  have 1: "stream_run sample_stream0 ([] @ [RecvHeaders True]) (on_event (RecvHeaders True) sample_stream0)"
    by (rule stream_run.step [OF stream_run.start]) (simp add: sample_stream0_def canReceiveHeaders_def)
  have 2: "stream_run sample_stream0 (([] @ [RecvHeaders True]) @ [SentData True])
      (on_event (SentData True) (on_event (RecvHeaders True) sample_stream0))"
    by (rule stream_run.step [OF 1]) (simp add: sample_stream0_def canSendData_def onHeadersReceived_def remote_end_def)
  show ?thesis
    using stream_lifecycle [OF 2] by (simp add: sample_stream0_def lifecycle_of_def peer_ended_def self_ended_def)
qed


definition sample_pending :: Http2Stream where
  "sample_pending = sample_stream0\<lparr>hs_pending_data :=
     [\<lparr>ds_payload = [1, 2, 3, 4], ds_offset = 1, ds_end_stream = False, ds_waiter = Some 1\<rparr>,
      \<lparr>ds_payload = [5, 6, 7], ds_offset = 0, ds_end_stream = True, ds_waiter = Some 2\<rparr>]\<rparr>"


text \<open>
  A header block on the wire: \<open>sendEncodedHeadersInternal\<close> queues one HEADERS frame and then CONTINUATION
  frames of the stream, each within the peer's frame size, byte for byte the serialisation of those frames,
  whose fragments concatenate to the block, with END_STREAM on the first, END_HEADERS at most on the last and the
  waiter on the last. A peer's dispatcher with no block open that takes headers on the stream delivers every one
  of them and is then ready for the next block.
\<close>

theorem header_block_on_wire:
  assumes "hs_send_queue s = Some q" "length block \<le> unat (hs_max_header_list_size s)" "hs_max_frame_size s \<noteq> 0"
  shows "\<exists>f fs os. hs_send_queue (sendEncodedHeadersInternal block es eh w s) = Some (q @ os)
    \<and> map wire os = map serialize (f # fs) \<and> map og_waiter os = replicate (length fs) None @ [w]
    \<and> carries_block (hs_stream_id s) (unat (hs_max_frame_size s)) block eh (f # fs)
    \<and> isHeaders f \<and> isEndStream f = es \<and> list_all isContinuation fs
    \<and> (\<forall>d. eh \<and> hs_stream_id s \<noteq> 0 \<and> \<not> ds_expecting_continuation d \<and> \<not> ds_goaway_received d
          \<and> \<not> isRemoteClosed (streamState d (hs_stream_id s)) \<longrightarrow>
          list_all (\<lambda>(g, r). delivered r) (fst (dispatch_run d (f # fs)))
          \<and> \<not> ds_expecting_continuation (snd (dispatch_run d (f # fs))))"
proof -
  let ?sid = "hs_stream_id s" and ?n = "unat (hs_max_frame_size s)"
  have "0 < ?n"
    using assms(3) by (simp add: unat_gt_0)
  then obtain f fs where fs: "block_frames ?sid ?n block es eh True = f # fs" "carries_block ?sid ?n block eh (f # fs)"
    "isHeaders f" "isEndStream f = es" "list_all isContinuation fs"
    using header_frames by blast
  obtain os where os: "hs_send_queue (sendEncodedHeadersInternal block es eh w s) = Some (q @ os)"
    "map wire os = map serialize (f # fs)" "map og_waiter os = replicate (length fs) None @ [w]"
    using sent_block_wire [OF assms, of es eh w] fs(1) by (metis diff_Suc_1 length_Cons)
  show ?thesis
    using os fs peer_delivers_block [of ?sid ?n block f fs] by (intro exI [of _ f] exI [of _ fs] exI [of _ os]) auto
qed

theorem header_block_on_wire_witness:
  "\<exists>f fs os. hs_send_queue (sendEncodedHeadersInternal [0x82, 0x86] True True (Some 9) sample_stream0) = Some os
    \<and> map wire os = map serialize (f # fs) \<and> isHeaders f
    \<and> list_all (\<lambda>(g, r). delivered r) (fst (dispatch_run new_dispatcher (f # fs)))"
proof -
  have s: "hs_send_queue sample_stream0 = Some []" "length [0x82, 0x86 :: u8] \<le> unat (hs_max_header_list_size sample_stream0)"
    "hs_max_frame_size sample_stream0 \<noteq> 0" "hs_stream_id sample_stream0 \<noteq> 0"
    by (simp_all add: sample_stream0_def)
  show ?thesis
    using header_block_on_wire [OF s(1-3), of True True "Some 9"] s(4)
    by (force simp: new_dispatcher_def streamState_def isRemoteClosed_def)
qed

text \<open>HEADERS are not held back by pending DATA: when a window is used up, trailers are queued at once, and the
  data that precedes them follows when the window opens again.\<close>

lemma trailers_overtake_data:
  "let s = sample_stream0\<lparr>hs_state := Open, hs_send_window := 0, hs_pending_data :=
        [\<lparr>ds_payload = [1, 2], ds_offset = 0, ds_end_stream = False, ds_waiter = None\<rparr>]\<rparr>;
       s1 = sendEncodedHeadersInternal [0x88] True True None s;
       s2 = snd (flushPendingData (adjustSendWindow 10 s1))
   in map wire (the (hs_send_queue s2))
      = [serialize (build_headers 3 [0x88] True True), serialize (build_data 3 [1, 2] False)]"
  by (simp add: Let_def sample_stream0_def sendEncodedHeadersInternal_def header_pieces.simps onHeadersSent_def
      local_end_def adjustSendWindow_def flushPendingData.simps flushPendingDataFront_def availableDataChunkSize_def
      availableConnSendWindow_def enqueueOutgoingDataFrame_def consumeDataSendWindow_def wire_def
      flip: wire_frames)

end
