(* ===== verification/Hpack_Table.thy ===== *)
theory Hpack_Table
  imports H2_Base "HOL-Library.While_Combinator"
begin

text \<open>
  The indexing tables of HPACK, \<^verbatim>\<open>galay-http2/protoc/http2_hpack.cc\<close>: \<open>Http2HeaderField\<close>, the
  static table with its name index, and the dynamic table, a ring buffer that grows by doubling.
  The abstraction \<open>entries\<close> lists the dynamic table in the order \<open>get\<close> numbers it; every ring
  operation is described by what it does to that list. \<open>header_index\<close> states what the encoder
  and the decoder rely on, and is interpreted on both tables.
\<close>

section \<open>Header fields\<close>

record Http2HeaderField =
  hname :: bytes
  hvalue :: bytes

abbreviation hf :: "string \<Rightarrow> string \<Rightarrow> Http2HeaderField" where
  "hf n v \<equiv> \<lparr>hname = str n, hvalue = str v\<rparr>"

definition header_size :: "Http2HeaderField \<Rightarrow> nat" where
  "header_size f = length (hname f) + length (hvalue f) + 32"

section \<open>The static table\<close>

definition kStaticTableEntries :: "Http2HeaderField list" where
  "kStaticTableEntries = [
    hf '':authority'' '''',
    hf '':method'' ''GET'',
    hf '':method'' ''POST'',
    hf '':path'' ''/'',
    hf '':path'' ''/index.html'',
    hf '':scheme'' ''http'',
    hf '':scheme'' ''https'',
    hf '':status'' ''200'',
    hf '':status'' ''204'',
    hf '':status'' ''206'',
    hf '':status'' ''304'',
    hf '':status'' ''400'',
    hf '':status'' ''404'',
    hf '':status'' ''500'',
    hf ''accept-charset'' '''',
    hf ''accept-encoding'' ''gzip, deflate'',
    hf ''accept-language'' '''',
    hf ''accept-ranges'' '''',
    hf ''accept'' '''',
    hf ''access-control-allow-origin'' '''',
    hf ''age'' '''',
    hf ''allow'' '''',
    hf ''authorization'' '''',
    hf ''cache-control'' '''',
    hf ''content-disposition'' '''',
    hf ''content-encoding'' '''',
    hf ''content-language'' '''',
    hf ''content-length'' '''',
    hf ''content-location'' '''',
    hf ''content-range'' '''',
    hf ''content-type'' '''',
    hf ''cookie'' '''',
    hf ''date'' '''',
    hf ''etag'' '''',
    hf ''expect'' '''',
    hf ''expires'' '''',
    hf ''from'' '''',
    hf ''host'' '''',
    hf ''if-match'' '''',
    hf ''if-modified-since'' '''',
    hf ''if-none-match'' '''',
    hf ''if-range'' '''',
    hf ''if-unmodified-since'' '''',
    hf ''last-modified'' '''',
    hf ''link'' '''',
    hf ''location'' '''',
    hf ''max-forwards'' '''',
    hf ''proxy-authenticate'' '''',
    hf ''proxy-authorization'' '''',
    hf ''range'' '''',
    hf ''referer'' '''',
    hf ''refresh'' '''',
    hf ''retry-after'' '''',
    hf ''server'' '''',
    hf ''set-cookie'' '''',
    hf ''strict-transport-security'' '''',
    hf ''transfer-encoding'' '''',
    hf ''user-agent'' '''',
    hf ''vary'' '''',
    hf ''via'' '''',
    hf ''www-authenticate'' '''']"

definition kStaticTableSize :: nat where
  "kStaticTableSize = length kStaticTableEntries"

text \<open>One round of the constructor's loop: the one-based index is appended to its name's list.\<close>

definition index_name :: "(bytes \<rightharpoonup> nat list) \<Rightarrow> nat \<times> Http2HeaderField \<Rightarrow> (bytes \<rightharpoonup> nat list)" where
  "index_name m e = (case e of (i, f) \<Rightarrow>
     m(hname f \<mapsto> (case m (hname f) of None \<Rightarrow> [] | Some is \<Rightarrow> is) @ [i + 1]))"

definition m_name_to_indices :: "bytes \<rightharpoonup> nat list" where
  "m_name_to_indices = foldl index_name Map.empty (enumerate 0 kStaticTableEntries)"

definition static_get :: "nat \<Rightarrow> Http2HeaderField option" where
  "static_get index =
    (if index = 0 \<or> index > length kStaticTableEntries then None
     else Some (kStaticTableEntries ! (index - 1)))"

definition static_find :: "bytes \<Rightarrow> bytes \<Rightarrow> nat \<times> bool" where
  "static_find n v = (case m_name_to_indices n of
     None \<Rightarrow> (0, False)
   | Some indices \<Rightarrow>
       (case List.find (\<lambda>index. hvalue (kStaticTableEntries ! (index - 1)) = v) indices of
          Some index \<Rightarrow> (index, False)
        | None \<Rightarrow> (hd indices, True)))"

section \<open>The dynamic table\<close>

record HpackDynamicTable =
  m_ring :: "Http2HeaderField list"
  m_head :: nat
  m_count :: nat
  m_max_size :: nat
  m_current_size :: nat

definition new_table :: "nat \<Rightarrow> HpackDynamicTable" where
  "new_table max_size =
    \<lparr>m_ring = [], m_head = 0, m_count = 0, m_max_size = max_size, m_current_size = 0\<rparr>"

definition clear :: "HpackDynamicTable \<Rightarrow> HpackDynamicTable" where
  "clear t = t\<lparr>m_ring := [], m_head := 0, m_count := 0, m_current_size := 0\<rparr>"

definition evict :: "HpackDynamicTable \<Rightarrow> HpackDynamicTable" where
  "evict t =
    (if m_count t = 0 then t
     else let cap = length (m_ring t);
              oldest = (m_head t + cap - m_count t) mod cap
          in t\<lparr>m_current_size := m_current_size t - header_size (m_ring t ! oldest),
               m_ring := (m_ring t)[oldest := \<lparr>hname = [], hvalue = []\<rparr>],
               m_count := m_count t - 1\<rparr>)"

definition setMaxSize :: "HpackDynamicTable \<Rightarrow> nat \<Rightarrow> HpackDynamicTable" where
  "setMaxSize t max_size =
    while (\<lambda>t. m_current_size t > m_max_size t) evict (t\<lparr>m_max_size := max_size\<rparr>)"

text \<open>The branch of \<open>add\<close> that grows a full ring: the new entry in slot 0, the old ones behind it,
  newest first.\<close>

definition grow_ring :: "HpackDynamicTable \<Rightarrow> Http2HeaderField \<Rightarrow> HpackDynamicTable" where
  "grow_ring t field =
    (let count = m_count t;
         cap = length (m_ring t);
         new_cap = (if count = 0 then 8 else count * 2);
         moved = map (\<lambda>i. m_ring t ! ((m_head t + cap - 1 - i) mod cap)) [0..<count];
         new_ring = field # moved @ replicate (new_cap - 1 - count) \<lparr>hname = [], hvalue = []\<rparr>
     in t\<lparr>m_ring := new_ring, m_head := (count + 1) mod new_cap, m_count := count + 1,
          m_current_size := m_current_size t + header_size field\<rparr>)"

definition add :: "HpackDynamicTable \<Rightarrow> Http2HeaderField \<Rightarrow> HpackDynamicTable" where
  "add t field =
    (let entry_size = header_size field in
     if entry_size > m_max_size t then clear t
     else
       let t = while (\<lambda>t. m_current_size t + entry_size > m_max_size t) evict t in
       if m_count t < length (m_ring t) then
         t\<lparr>m_ring := (m_ring t)[m_head t := field],
           m_head := (m_head t + 1) mod length (m_ring t),
           m_count := m_count t + 1,
           m_current_size := m_current_size t + entry_size\<rparr>
       else grow_ring t field)"

definition dyn_get :: "HpackDynamicTable \<Rightarrow> nat \<Rightarrow> Http2HeaderField option" where
  "dyn_get t index =
    (if index \<ge> m_count t then None
     else let cap = length (m_ring t) in Some (m_ring t ! ((m_head t + cap - 1 - index) mod cap)))"

text \<open>The loop of \<open>find\<close> at round \<open>i\<close>, slot \<open>pos\<close>; \<open>name_match\<close> is one more than the first index whose
  name matched.\<close>

function find_loop ::
  "Http2HeaderField list \<Rightarrow> nat \<Rightarrow> bytes \<Rightarrow> bytes \<Rightarrow> nat \<Rightarrow> nat \<Rightarrow> nat \<Rightarrow> nat \<times> bool" where
  "find_loop ring count n v i pos name_match =
    (if i < count then
       let entry = ring ! pos;
           pos' = (if pos = 0 then length ring - 1 else pos - 1) in
       if hname entry = n then
         if hvalue entry = v then (i, False)
         else find_loop ring count n v (i + 1) pos' (if name_match = 0 then i + 1 else name_match)
       else find_loop ring count n v (i + 1) pos' name_match
     else if name_match > 0 then (name_match - 1, True)
     else (SIZE_MAX, False))"
  by pat_completeness auto
termination by (relation "measure (\<lambda>(_, count, _, _, i, _, _). count - i)") auto

declare find_loop.simps [simp del]

definition dyn_find :: "HpackDynamicTable \<Rightarrow> bytes \<Rightarrow> bytes \<Rightarrow> nat \<times> bool" where
  "dyn_find t n v =
    (if m_count t = 0 then (SIZE_MAX, False)
     else let cap = length (m_ring t) in
       find_loop (m_ring t) (m_count t) n v 0 ((m_head t + cap - 1) mod cap) 0)"

section \<open>The contents of the ring\<close>

definition slot :: "HpackDynamicTable \<Rightarrow> nat \<Rightarrow> nat" where
  "slot t i = (m_head t + length (m_ring t) - 1 - i) mod length (m_ring t)"

definition entries :: "HpackDynamicTable \<Rightarrow> Http2HeaderField list" where
  "entries t = map (\<lambda>i. m_ring t ! slot t i) [0..<m_count t]"

definition fields_size :: "Http2HeaderField list \<Rightarrow> nat" where
  "fields_size fs = sum_list (map header_size fs)"

definition ring_ok :: "HpackDynamicTable \<Rightarrow> bool" where
  "ring_ok t \<longleftrightarrow> m_count t \<le> length (m_ring t) \<and> (m_ring t = [] \<or> m_head t < length (m_ring t))
     \<and> m_current_size t = fields_size (entries t)"

definition table_ok :: "HpackDynamicTable \<Rightarrow> bool" where
  "table_ok t \<longleftrightarrow> ring_ok t \<and> m_current_size t \<le> m_max_size t"

lemma length_entries [simp]: "length (entries t) = m_count t"
  by (simp add: entries_def)

lemma entries_nth: "i < m_count t \<Longrightarrow> entries t ! i = m_ring t ! slot t i"
  by (simp add: entries_def)

lemma fields_size_simps [simp]:
  "fields_size [] = 0" "fields_size (f # fs) = header_size f + fields_size fs" "fields_size (fs @ gs) = fields_size fs + fields_size gs"
  by (simp_all add: fields_size_def)

lemma fields_size_rev [simp]: "fields_size (rev fs) = fields_size fs"
  by (induction fs) simp_all

lemma slot_less: "m_ring t \<noteq> [] \<Longrightarrow> slot t i < length (m_ring t)"
  by (simp add: slot_def)

lemma slot_if:
  assumes "m_head t < length (m_ring t)" "i < length (m_ring t)"
  shows "slot t i = (if i < m_head t then m_head t - 1 - i else m_head t + length (m_ring t) - 1 - i)"
proof (cases "i < m_head t")
  case True
  then have "m_head t + length (m_ring t) - 1 - i = (m_head t - 1 - i) + length (m_ring t)"
    by simp
  then have "slot t i = (m_head t - 1 - i) mod length (m_ring t)"
    unfolding slot_def by (simp only: mod_add_self2)
  then show ?thesis
    using True assms(1) by simp
next
  case False
  then show ?thesis
    unfolding slot_def using assms by simp
qed

lemma slot_inj:
  assumes "m_head t < length (m_ring t)" "i < length (m_ring t)" "j < length (m_ring t)" "slot t i = slot t j"
  shows "i = j"
  using assms by (simp add: slot_if split: if_splits)

section \<open>Eviction\<close>

lemma evict_slot: "0 < m_count t \<Longrightarrow> m_count t \<le> length (m_ring t) \<Longrightarrow>
  (m_head t + length (m_ring t) - m_count t) mod length (m_ring t) = slot t (m_count t - 1)"
  by (simp add: slot_def)

lemma entries_evict:
  assumes "ring_ok t" "0 < m_count t"
  shows "entries (evict t) = butlast (entries t)"
proof (rule nth_equalityI)
  have c: "m_count t \<le> length (m_ring t)" "m_ring t \<noteq> []" "m_head t < length (m_ring t)"
    using assms by (auto simp: ring_ok_def)
  show len: "length (entries (evict t)) = length (butlast (entries t))"
    using assms(2) by (simp add: evict_def Let_def)
  fix i assume "i < length (entries (evict t))"
  then have i: "i < m_count t - 1"
    using len by simp
  then have "slot t (m_count t - 1) \<noteq> slot t i"
    using slot_inj [of t "m_count t - 1" i] c by fastforce
  moreover have "slot (evict t) i = slot t i"
    using assms(2) by (simp add: evict_def slot_def Let_def)
  ultimately show "entries (evict t) ! i = butlast (entries t) ! i"
    using i assms(2) c by (simp add: entries_def evict_slot nth_butlast evict_def Let_def)
qed

lemma evict_fields [simp]:
  "m_max_size (evict t) = m_max_size t" "m_count (evict t) = m_count t - 1"
  "length (m_ring (evict t)) = length (m_ring t)" "m_head (evict t) = m_head t"
  by (simp_all add: evict_def Let_def)

lemma current_size_evict:
  assumes "ring_ok t" "0 < m_count t"
  shows "m_current_size (evict t) = fields_size (butlast (entries t))"
proof -
  have "entries t = butlast (entries t) @ [m_ring t ! slot t (m_count t - 1)]"
    using assms(2) append_butlast_last_id [of "entries t"]
    by (auto simp: last_conv_nth entries_def)
  from arg_cong [OF this, of fields_size] have "fields_size (entries t) = fields_size (butlast (entries t)) + header_size (m_ring t ! slot t (m_count t - 1))"
    by simp
  then show ?thesis
    using assms by (simp add: evict_def Let_def evict_slot ring_ok_def)
qed

lemma ring_ok_evict: "ring_ok t \<Longrightarrow> ring_ok (evict t)"
proof (cases "m_count t = 0")
  case False
  assume "ring_ok t"
  with False show ?thesis
    using entries_evict [of t] current_size_evict [of t]
    by (auto simp: ring_ok_def simp flip: length_0_conv)
qed (simp add: evict_def)

text \<open>The reference for the eviction loops: drop the oldest entries until the rest fits.\<close>

function fit :: "nat \<Rightarrow> Http2HeaderField list \<Rightarrow> Http2HeaderField list" where
  "fit n fs = (if fields_size fs > n then fit n (butlast fs) else fs)"
  by pat_completeness auto
termination
proof (relation "measure (\<lambda>(_, fs). length fs)")
  show "((n, butlast fs), (n, fs)) \<in> measure (\<lambda>(_, fs). length fs)" if "n < fields_size fs" for n fs
    using that by (cases fs rule: rev_cases) auto
qed simp

declare fit.simps [simp del]

lemma fields_size_fit: "fields_size (fit n fs) \<le> n"
  by (induction n fs rule: fit.induct) (subst fit.simps, simp)

lemma fit_id [simp]: "fields_size fs \<le> n \<Longrightarrow> fit n fs = fs"
  by (subst fit.simps) simp

lemma fit_prefix: "\<exists>k. fit n fs = take k fs"
proof (induction n fs rule: fit.induct)
  case (1 n fs)
  show ?case
  proof (cases "fields_size fs > n")
    case True
    then obtain k where "fit n (butlast fs) = take k (butlast fs)"
      using 1 by blast
    with True have "fit n fs = take k (butlast fs)"
      by (simp add: fit.simps [of n fs])
    then show ?thesis
      by (metis butlast_conv_take take_take)
  next
    case False
    then show ?thesis
      by (intro exI [of _ "length fs"]) (simp add: fit.simps [of n fs])
  qed
qed

text \<open>Both loops end, with the exit condition, and leave what the reference keeps.\<close>

lemma evict_while:
  assumes "ring_ok t" "n \<le> m_max_size t"
  defines "t' \<equiv> while (\<lambda>t. m_current_size t + n > m_max_size t) evict t"
  shows "ring_ok t' \<and> entries t' = fit (m_max_size t - n) (entries t) \<and> m_max_size t' = m_max_size t
    \<and> length (m_ring t') = length (m_ring t) \<and> m_current_size t' + n \<le> m_max_size t"
  using assms(1,2) unfolding t'_def
proof (induction "m_count t" arbitrary: t rule: less_induct)
  case less
  show ?case
  proof (cases "m_current_size t + n > m_max_size t")
    case True
    have c: "0 < m_count t"
    proof (rule ccontr)
      assume "\<not> 0 < m_count t"
      then have "m_current_size t = 0"
        using less.prems(1) by (auto simp: ring_ok_def entries_def)
      then show False
        using True less.prems(2) by simp
    qed
    have t: "fields_size (entries t) > m_max_size t - n"
      using True less.prems by (auto simp: ring_ok_def)
    show ?thesis
      using less.hyps [of "evict t"] less.prems c True t
      by (subst (1 2 3 4 5) while_unfold, subst fit.simps)
         (simp add: ring_ok_evict entries_evict)
  next
    case False
    then show ?thesis
      using less.prems by (subst (1 2 3 4 5) while_unfold) (auto simp: ring_ok_def)
  qed
qed

lemma table_ok_setMaxSize:
  assumes "table_ok t"
  shows "table_ok (setMaxSize t n)" "entries (setMaxSize t n) = fit n (entries t)"
    "m_max_size (setMaxSize t n) = n"
proof -
  let ?t = "t\<lparr>m_max_size := n\<rparr>"
  have e: "entries ?t = entries t"
    by (simp add: entries_def slot_def)
  then have "ring_ok ?t"
    using assms by (simp add: table_ok_def ring_ok_def)
  from evict_while [OF this, of 0]
  show "table_ok (setMaxSize t n)" "entries (setMaxSize t n) = fit n (entries t)"
    "m_max_size (setMaxSize t n) = n"
    by (simp_all add: setMaxSize_def table_ok_def e)
qed

lemma table_ok_new: "table_ok (new_table n)" and entries_new [simp]: "entries (new_table n) = []"
  by (simp_all add: new_table_def table_ok_def ring_ok_def entries_def)

lemma table_ok_clear: "table_ok (clear t)" and entries_clear [simp]: "entries (clear t) = []"
  by (simp_all add: clear_def table_ok_def ring_ok_def entries_def)

section \<open>Insertion\<close>

definition store :: "HpackDynamicTable \<Rightarrow> Http2HeaderField \<Rightarrow> HpackDynamicTable" where
  "store t f = (if m_count t < length (m_ring t) then
     t\<lparr>m_ring := (m_ring t)[m_head t := f], m_head := (m_head t + 1) mod length (m_ring t),
       m_count := m_count t + 1, m_current_size := m_current_size t + header_size f\<rparr>
   else grow_ring t f)"

lemma add_store:
  "add t f = (if header_size f > m_max_size t then clear t
     else store (while (\<lambda>t. m_current_size t + header_size f > m_max_size t) evict t) f)"
  by (simp add: add_def store_def Let_def)

lemma store_fields [simp]:
  "m_max_size (store t f) = m_max_size t" "m_count (store t f) = m_count t + 1"
  "m_current_size (store t f) = m_current_size t + header_size f"
  by (simp_all add: store_def grow_ring_def Let_def)

lemma entries_store_free:
  assumes "ring_ok t" "m_count t < length (m_ring t)"
  shows "entries (store t f) = f # entries t"
proof (rule nth_equalityI)
  have h: "m_head t < length (m_ring t)" "m_ring t \<noteq> []"
    using assms by (auto simp: ring_ok_def)
  define t' where "t' = store t f"
  have t': "m_ring t' = (m_ring t)[m_head t := f]" "m_head t' = (m_head t + 1) mod length (m_ring t)"
    using assms(2) by (simp_all add: t'_def store_def)
  then have h': "m_head t' = (if m_head t + 1 = length (m_ring t) then 0 else m_head t + 1)"
    using h by (auto simp: mod_less)
  fix i assume "i < length (entries (store t f))"
  then have i: "i \<le> m_count t"
    by simp
  show "entries (store t f) ! i = (f # entries t) ! i"
  proof (cases i)
    case 0
    have "slot t' 0 = m_head t"
      using h h' t'(1) by (subst slot_if) (auto split: if_splits)
    then show ?thesis
      using 0 h t'(1) by (simp add: entries_nth t'_def)
  next
    case (Suc j)
    then have j: "j < m_count t"
      using i by simp
    then have "slot t' i = slot t j" "slot t j \<noteq> m_head t"
      using slot_if [of t' i] slot_if [of t j] h h' t'(1) assms(2) Suc
      by (auto split: if_splits)
    then show ?thesis
      using Suc j t'(1) by (simp add: entries_nth t'_def)
  qed
qed simp

lemma entries_store_full:
  assumes "ring_ok t" "m_count t = length (m_ring t)"
  shows "entries (store t f) = rev (entries t) @ [f]"
proof (rule nth_equalityI)
  define t' where "t' = store t f"
  define N where "N = (if m_count t = 0 then 8 else m_count t * 2)"
  have t': "m_ring t' = f # entries t @ replicate (N - 1 - m_count t) \<lparr>hname = [], hvalue = []\<rparr>"
    "m_head t' = (m_count t + 1) mod N"
    using assms(2) by (simp_all add: t'_def store_def grow_ring_def N_def Let_def entries_def slot_def)
  have len: "length (m_ring t') = N"
    by (simp add: t' N_def)
  have h': "m_head t' = (if m_count t = 1 then 0 else m_count t + 1)"
    unfolding t'(2) by (auto simp: N_def)
  fix i assume "i < length (entries (store t f))"
  then have i: "i \<le> m_count t"
    by simp
  have "slot t' i = m_count t - i"
    using i len h' by (subst slot_if) (auto simp: N_def split: if_splits)
  then show "entries (store t f) ! i = (rev (entries t) @ [f]) ! i"
    using i t'(1) by (auto simp: entries_nth [of _ "store t f"] t'_def nth_Cons' nth_append rev_nth less_Suc_eq)
qed simp

lemma ring_ok_store: "ring_ok t \<Longrightarrow> ring_ok (store t f)"
proof -
  assume t: "ring_ok t"
  have "fields_size (entries (store t f)) = fields_size (entries t) + header_size f"
    using t entries_store_free [OF t, of f] entries_store_full [OF t, of f]
    by (cases "m_count t < length (m_ring t)") (auto simp: ring_ok_def)
  moreover have "m_count (store t f) \<le> length (m_ring (store t f)) \<and> m_head (store t f) < length (m_ring (store t f))"
    using t mod_less_divisor [of "length (m_ring t) + length (m_ring t)" "Suc (length (m_ring t))"]
    by (cases "m_count t < length (m_ring t)")
      (auto simp: ring_ok_def store_def grow_ring_def Let_def mult_2_right intro!: mod_less_divisor)
  ultimately show ?thesis
    using t by (simp add: ring_ok_def)
qed

text \<open>What \<open>add\<close> does to the contents, on every branch.\<close>

definition add_entries :: "nat \<Rightarrow> nat \<Rightarrow> Http2HeaderField list \<Rightarrow> Http2HeaderField \<Rightarrow> Http2HeaderField list" where
  "add_entries max_size cap fs f =
    (if header_size f > max_size then []
     else let kept = fit (max_size - header_size f) fs in
       if length kept < cap \<or> cap = 0 then f # kept else rev kept @ [f])"

lemma add_refines:
  assumes "table_ok t"
  shows "table_ok (add t f)" "m_max_size (add t f) = m_max_size t"
    "entries (add t f) = add_entries (m_max_size t) (length (m_ring t)) (entries t) f"
proof -
  define u where "u = while (\<lambda>t. m_current_size t + header_size f > m_max_size t) evict t"
  have "table_ok (add t f) \<and> m_max_size (add t f) = m_max_size t \<and>
    entries (add t f) = add_entries (m_max_size t) (length (m_ring t)) (entries t) f"
  proof (cases "header_size f > m_max_size t")
    case True
    then show ?thesis
      by (simp add: add_store add_entries_def table_ok_clear) (simp add: clear_def)
  next
    case False
    have u: "ring_ok u" "entries u = fit (m_max_size t - header_size f) (entries t)"
      "m_max_size u = m_max_size t" "length (m_ring u) = length (m_ring t)"
      "m_current_size u + header_size f \<le> m_max_size t"
      using evict_while [of t "header_size f"] assms False by (simp_all add: table_ok_def u_def)
    have "add t f = store u f"
      using False by (simp add: add_store u_def)
    moreover have "length (entries u) = m_count u" "m_count u \<le> length (m_ring u)"
      using u(1) by (auto simp: ring_ok_def)
    ultimately show ?thesis
      using False u entries_store_free [OF u(1), of f] entries_store_full [OF u(1), of f] ring_ok_store [OF u(1), of f]
      by (auto simp: table_ok_def add_entries_def Let_def)
  qed
  then show "table_ok (add t f)" "m_max_size (add t f) = m_max_size t"
    "entries (add t f) = add_entries (m_max_size t) (length (m_ring t)) (entries t) f"
    by simp_all
qed

section \<open>Look-up\<close>

lemma dyn_get_entries:
  "dyn_get t i = (if i < m_count t then Some (entries t ! i) else None)"
  by (simp add: dyn_get_def entries_nth slot_def Let_def)

text \<open>\<open>find\<close> as a walk over the contents.\<close>

fun find_list :: "bytes \<Rightarrow> bytes \<Rightarrow> Http2HeaderField list \<Rightarrow> nat \<Rightarrow> nat \<Rightarrow> nat \<times> bool" where
  "find_list n v [] i name_match = (if name_match > 0 then (name_match - 1, True) else (SIZE_MAX, False))"
| "find_list n v (e # es) i name_match =
    (if hname e = n then
       if hvalue e = v then (i, False)
       else find_list n v es (i + 1) (if name_match = 0 then i + 1 else name_match)
     else find_list n v es (i + 1) name_match)"

lemma slot_step:
  assumes "m_head t < length (m_ring t)" "Suc i < length (m_ring t)"
  shows "slot t (Suc i) = (if slot t i = 0 then length (m_ring t) - 1 else slot t i - 1)"
  using assms by (auto simp: slot_if)

lemma find_loop_list:
  assumes "ring_ok t" "i \<le> m_count t" "i < m_count t \<longrightarrow> pos = slot t i"
  shows "find_loop (m_ring t) (m_count t) n v i pos nm = find_list n v (drop i (entries t)) i nm"
  using assms
proof (induction "m_count t - i" arbitrary: i pos nm)
  case 0
  then show ?case
    by (subst find_loop.simps) simp
next
  case (Suc k)
  then have i: "i < m_count t" "k = m_count t - Suc i"
    by auto
  then have h: "m_head t < length (m_ring t)" "m_count t \<le> length (m_ring t)"
    using Suc.prems(1) by (auto simp: ring_ok_def)
  define pos' where "pos' = (if pos = 0 then length (m_ring t) - 1 else pos - 1)"
  have IH: "find_loop (m_ring t) (m_count t) n v (Suc i) pos' nm' = find_list n v (drop (Suc i) (entries t)) (Suc i) nm'" for nm'
    using Suc.hyps(1) [OF i(2), of pos' nm'] Suc.prems i(1) h slot_step [of t i] by (auto simp: pos'_def)
  have "drop i (entries t) = entries t ! i # drop (Suc i) (entries t)"
    using i(1) by (simp add: Cons_nth_drop_Suc)
  then show ?case
    using i(1) IH [unfolded pos'_def] Suc.prems(3) by (subst find_loop.simps) (simp add: Let_def entries_nth)
qed

lemma dyn_find_list: "ring_ok t \<Longrightarrow> dyn_find t n v = find_list n v (entries t) 0 0"
  using find_loop_list [of t 0 _ n v 0]
  by (auto simp: dyn_find_def slot_def Let_def entries_def)

lemma find_list_found:
  "find_list n v es i nm = (j, no) \<Longrightarrow>
   (\<exists>k < length es. j = i + k \<and> hname (es ! k) = n \<and> (\<not> no \<longrightarrow> hvalue (es ! k) = v))
   \<or> no \<and> 0 < nm \<and> j = nm - 1 \<or> \<not> no \<and> nm = 0 \<and> j = SIZE_MAX \<and> n \<notin> hname ` set es"
proof (induction es arbitrary: i nm)
  case (Cons e es)
  show ?case
  proof (cases "hname e = n")
    case True
    show ?thesis
    proof (cases "hvalue e = v")
      case True
      then show ?thesis
        using Cons.prems \<open>hname e = n\<close> by auto
    next
      case False
      then show ?thesis
        using Cons.prems True Cons.IH [of "i + 1" "if nm = 0 then i + 1 else nm"]
        by (auto split: if_splits)
    qed
  next
    case False
    then show ?thesis
      using Cons.prems Cons.IH [of "i + 1" nm] by auto
  qed
qed (auto split: if_splits)

lemma find_list_complete:
  "k < length es \<Longrightarrow> hname (es ! k) = n \<Longrightarrow> hvalue (es ! k) = v \<Longrightarrow>
   \<exists>j \<le> k. find_list n v es i nm = (i + j, False)"
proof (induction es arbitrary: i nm k)
  case (Cons e es)
  show ?case
  proof (cases "hname e = n \<and> hvalue e = v")
    case False
    then obtain k' where k: "k = Suc k'"
      using Cons.prems by (cases k) auto
    obtain j where "j \<le> k'" "find_list n v es (i + 1) (if hname e = n \<and> nm = 0 then i + 1 else nm) = (i + 1 + j, False)"
      using Cons.IH [of k' "i + 1"] Cons.prems k by auto
    then show ?thesis
      using False k by (auto intro!: exI [of _ "Suc j"])
  qed auto
qed simp

section \<open>The index both sides look into\<close>

text \<open>
  What the encoder relies on when it emits an index, and the decoder when it resolves one:
  \<open>find\<close> only answers indices that \<open>get\<close> resolves to a field of that name (and value, on an
  exact match), and it misses no exact match. \<open>miss\<close> is the value for "not found".
\<close>

locale header_index =
  fixes look_up :: "'t \<Rightarrow> bytes \<Rightarrow> bytes \<Rightarrow> nat \<times> bool"
    and get :: "'t \<Rightarrow> nat \<Rightarrow> Http2HeaderField option"
    and ok :: "'t \<Rightarrow> bool"
    and miss :: nat
  assumes look_up_sound: "ok t \<Longrightarrow> look_up t n v = (i, name_only) \<Longrightarrow> i \<noteq> miss \<Longrightarrow>
      \<exists>f. get t i = Some f \<and> hname f = n \<and> (\<not> name_only \<longrightarrow> hvalue f = v)"
    and look_up_complete: "ok t \<Longrightarrow> get t i = Some \<lparr>hname = n, hvalue = v\<rparr> \<Longrightarrow>
      \<exists>j. look_up t n v = (j, False) \<and> j \<noteq> miss"
    and look_up_name_hit: "ok t \<Longrightarrow> look_up t n v = (i, True) \<Longrightarrow> i \<noteq> miss"
begin

lemma exact_get: "ok t \<Longrightarrow> look_up t n v = (i, False) \<Longrightarrow> i \<noteq> miss \<Longrightarrow> get t i = Some \<lparr>hname = n, hvalue = v\<rparr>"
  using look_up_sound [of t n v i False] by auto

lemma name_get: "ok t \<Longrightarrow> look_up t n v = (i, no) \<Longrightarrow> i \<noteq> miss \<Longrightarrow> \<exists>f. get t i = Some f \<and> hname f = n"
  using look_up_sound by blast

lemma exact_iff:
  "ok t \<Longrightarrow> (\<exists>i. look_up t n v = (i, False) \<and> i \<noteq> miss) \<longleftrightarrow> (\<exists>i. get t i = Some \<lparr>hname = n, hvalue = v\<rparr>)"
  by (blast dest: exact_get look_up_complete)

end

definition bounded_table :: "HpackDynamicTable \<Rightarrow> bool" where
  "bounded_table t \<longleftrightarrow> table_ok t \<and> m_max_size t \<le> SIZE_MAX"

lemma count_bound: "table_ok t \<Longrightarrow> 32 * m_count t \<le> m_max_size t"
proof -
  assume t: "table_ok t"
  have "32 * length fs \<le> fields_size fs" for fs
    by (induction fs) (auto simp: header_size_def)
  from this [of "entries t"] t show ?thesis
    by (simp add: table_ok_def ring_ok_def)
qed

interpretation dynamic: header_index dyn_find dyn_get bounded_table SIZE_MAX
proof
  fix t n v i no
  assume t: "bounded_table t"
  then have r: "ring_ok t" "m_count t < SIZE_MAX"
    using count_bound [of t] by (auto simp: bounded_table_def table_ok_def SIZE_MAX_def)
  { assume "dyn_find t n v = (i, no)" "i \<noteq> SIZE_MAX"
    then show "\<exists>f. dyn_get t i = Some f \<and> hname f = n \<and> (\<not> no \<longrightarrow> hvalue f = v)"
      using find_list_found [of n v "entries t" 0 0 i no] r by (auto simp: dyn_find_list dyn_get_entries) }
  { assume "dyn_get t i = Some \<lparr>hname = n, hvalue = v\<rparr>"
    then show "\<exists>j. dyn_find t n v = (j, False) \<and> j \<noteq> SIZE_MAX"
      using find_list_complete [of i "entries t" n v 0 0] r
      by (auto simp: dyn_find_list dyn_get_entries split: if_splits) }
  { assume "dyn_find t n v = (i, True)"
    then show "i \<noteq> SIZE_MAX"
      using find_list_found [of n v "entries t" 0 0 i True] r by (auto simp: dyn_find_list) }
qed

lemma index_fold:
  defines "m \<equiv> \<lambda>fs. foldl index_name Map.empty (enumerate 0 fs)"
  shows "m fs n = (let is = map Suc (filter (\<lambda>i. hname (fs ! i) = n) [0..<length fs])
                   in if is = [] then None else Some is)"
proof (induction fs rule: rev_induct)
  case (snoc f fs)
  have *: "filter (\<lambda>i. hname ((fs @ [f]) ! i) = n') [0..<length fs] = filter (\<lambda>i. hname (fs ! i) = n') [0..<length fs]" for n'
    by (rule filter_cong) (auto simp: nth_append)
  have "m (fs @ [f]) = index_name (m fs) (length fs, f)"
    by (simp add: m_def enumerate_append_eq)
  then show ?case
    using snoc by (cases "n = hname f") (auto simp: index_name_def * Let_def split: if_splits)
qed (simp add: m_def)

lemma name_indices:
  "m_name_to_indices n = (let is = map Suc (filter (\<lambda>i. hname (kStaticTableEntries ! i) = n) [0..<kStaticTableSize])
     in if is = [] then None else Some is)"
  unfolding m_name_to_indices_def kStaticTableSize_def by (rule index_fold)

lemma static_get_Suc: "i < kStaticTableSize \<Longrightarrow> static_get (Suc i) = Some (kStaticTableEntries ! i)"
  by (simp add: static_get_def kStaticTableSize_def)

lemma name_indices_sound:
  "m_name_to_indices n = Some is \<Longrightarrow> is \<noteq> [] \<and>
   (\<forall>i \<in> set is. \<exists>k < kStaticTableSize. i = Suc k \<and> hname (kStaticTableEntries ! k) = n)"
  by (auto simp: name_indices Let_def split: if_splits)

lemma name_indices_complete:
  "k < kStaticTableSize \<Longrightarrow> \<exists>is. m_name_to_indices (hname (kStaticTableEntries ! k)) = Some is \<and> Suc k \<in> set is"
  by (auto simp: name_indices Let_def filter_empty_conv)

lemma find_SomeD: "List.find P xs = Some x \<Longrightarrow> x \<in> set xs \<and> P x"
  by (auto simp: find_Some_iff)

interpretation static: header_index "\<lambda>_ :: unit. static_find" "\<lambda>_. static_get" "\<lambda>_. True" 0
proof
  fix n v i no
  { assume f: "static_find n v = (i, no)" "i \<noteq> 0"
    then obtain "is" where i: "m_name_to_indices n = Some is" "i \<in> set is"
        "\<not> no \<longrightarrow> hvalue (kStaticTableEntries ! (i - 1)) = v"
      using name_indices_sound [of n]
      by (auto simp: static_find_def dest!: find_SomeD split: option.splits if_splits)
    then obtain k where "k < kStaticTableSize" "i = Suc k" "hname (kStaticTableEntries ! k) = n"
      using name_indices_sound [of n] by blast
    with i show "\<exists>f. static_get i = Some f \<and> hname f = n \<and> (\<not> no \<longrightarrow> hvalue f = v)"
      by (auto simp: static_get_Suc) }
  { assume g: "static_get i = Some \<lparr>hname = n, hvalue = v\<rparr>"
    then obtain k where k: "i = Suc k" "k < kStaticTableSize" "kStaticTableEntries ! k = \<lparr>hname = n, hvalue = v\<rparr>"
      by (cases i) (auto simp: static_get_def kStaticTableSize_def split: if_splits)
    then obtain "is" where i: "m_name_to_indices n = Some is" "i \<in> set is"
      using name_indices_complete [of k] by auto
    have "List.find (\<lambda>index. hvalue (kStaticTableEntries ! (index - 1)) = v) is \<noteq> None"
      using k i by (auto simp: find_None_iff intro!: bexI [of _ i])
    then obtain j where j: "List.find (\<lambda>index. hvalue (kStaticTableEntries ! (index - 1)) = v) is = Some j"
      by blast
    then have "j \<noteq> 0"
      using name_indices_sound [OF i(1)] find_SomeD [OF j] by auto
    then show "\<exists>j. static_find n v = (j, False) \<and> j \<noteq> 0"
      using i(1) j by (simp add: static_find_def) }
  { assume "static_find n v = (i, True)"
    then show "i \<noteq> 0"
      using name_indices_sound [of n] hd_in_set
      by (fastforce simp: static_find_def split: option.splits) }
qed

section \<open>Properties\<close>

text \<open>The mutating operations of the table, as one step.\<close>

datatype table_op = Add Http2HeaderField | SetMax nat | Clear

fun table_step :: "HpackDynamicTable \<Rightarrow> table_op \<Rightarrow> HpackDynamicTable" where
  "table_step t (Add f) = add t f"
| "table_step t (SetMax n) = setMaxSize t n"
| "table_step t Clear = clear t"

lemma table_ok_step: "table_ok t \<Longrightarrow> table_ok (table_step t a)"
  by (cases a) (simp_all add: add_refines table_ok_setMaxSize table_ok_clear)

lemma table_ok_run: "table_ok t \<Longrightarrow> table_ok (foldl table_step t ops)"
  by (induction ops arbitrary: t) (simp_all add: table_ok_step)

text \<open>The invariant of the dynamic table: after any sequence of insertions, size
  changes and clearings, every index below the count is resolved inside the ring, the size
  counter is the RFC size of the contents and stays within the limit, so at most a
  32nd of the limit entries are held.\<close>

theorem dynamic_table_invariant:
  "let t = foldl table_step (new_table n) ops in
     table_ok t \<and> m_current_size t = fields_size (entries t) \<and> m_current_size t \<le> m_max_size t
     \<and> 32 * m_count t \<le> m_max_size t"
  using table_ok_run [OF table_ok_new [of n], of ops] count_bound
  by (auto simp: Let_def table_ok_def ring_ok_def)

text \<open>C16. What every operation does to the contents, seen as the list that \<open>get\<close> numbers:
  resizing and inserting drop from the end until the rest fits, an oversized entry empties
  the table, and an insertion puts the entry in front, unless the ring is full: growing a
  full ring leaves the old entries in reverse order and the new entry last.\<close>

theorem dynamic_table_refines:
  assumes "table_ok t"
  shows "entries (add t f) = add_entries (m_max_size t) (length (m_ring t)) (entries t) f
    \<and> entries (setMaxSize t n) = fit n (entries t)
    \<and> entries (clear t) = []
    \<and> dyn_get t i = (if i < length (entries t) then Some (entries t ! i) else None)
    \<and> dyn_find t nm v = find_list nm v (entries t) 0 0"
  using assms add_refines [OF assms, of f] table_ok_setMaxSize [OF assms, of n] dyn_find_list [of t nm v]
  by (simp add: dyn_get_entries table_ok_def)

theorem dynamic_table_refines_witness:
  "table_ok (new_table 4096)
   \<and> entries (add (new_table 4096) (hf ''a'' ''b'')) = [hf ''a'' ''b'']
   \<and> entries (setMaxSize (new_table 4096) 0) = []"
  using table_ok_new [of 4096] dynamic_table_refines [OF table_ok_new [of 4096], of "hf ''a'' ''b''" 0]
  by (simp add: add_entries_def header_size_def str_def new_table_def entries_def)

text \<open>The ring growth loses the order: when the ring is full and nothing has to be evicted, the
  entry inserted last gets the largest index, and index 0 is the entry that was the oldest
  (RFC 7541 section 2.3.2: the newest entry has the lowest index).\<close>

theorem full_ring_reverses:
  assumes "table_ok t" "m_count t = length (m_ring t)" "0 < m_count t"
    "m_current_size t + header_size f \<le> m_max_size t"
  shows "entries (add t f) = rev (entries t) @ [f] \<and> dyn_get (add t f) 0 = Some (last (entries t))"
proof -
  have "fields_size (entries t) = m_current_size t"
    using assms(1) by (simp add: table_ok_def ring_ok_def)
  then have e: "entries (add t f) = rev (entries t) @ [f]"
    using assms add_refines(3) [OF assms(1), of f] by (auto simp: add_entries_def Let_def)
  then have "m_count (add t f) = m_count t + 1"
    by (metis length_append_singleton length_entries length_rev Suc_eq_plus1)
  moreover have "entries t \<noteq> []"
    using assms(3) by (simp add: entries_def)
  ultimately show ?thesis
    using e assms(3) by (simp add: dyn_get_entries nth_append hd_conv_nth [symmetric] hd_rev)
qed

text \<open>Nine insertions into an empty table of the default size.\<close>

definition numbered :: "u8 \<Rightarrow> Http2HeaderField" where
  "numbered c = \<lparr>hname = [c], hvalue = []\<rparr>"

lemma while_done: "\<not> b s \<Longrightarrow> while b c s = s"
  by (simp add: while_unfold)

lemma replicate_7: "replicate 7 x = [x, x, x, x, x, x, x]"
  by (simp add: numeral_eq_Suc)

lemma numbered_run:
  "foldl add (new_table 4096) (map numbered [1, 2, 3, 4, 5, 6, 7, 8]) =
   \<lparr>m_ring = map numbered [1, 2, 3, 4, 5, 6, 7, 8], m_head = 0, m_count = 8, m_max_size = 4096, m_current_size = 264\<rparr>"
  by (simp add: add_def new_table_def header_size_def numbered_def while_done grow_ring_def Let_def replicate_7)

lemma numbered_entries:
  "entries (foldl add (new_table 4096) (map numbered [1, 2, 3, 4, 5, 6, 7, 8])) = map numbered [8, 7, 6, 5, 4, 3, 2, 1]"
  unfolding numbered_run by (simp add: entries_def slot_def upt_conv_Cons)

theorem full_ring_reverses_witness:
  "let t = foldl add (new_table 4096) (map numbered [1, 2, 3, 4, 5, 6, 7, 8]) in
     table_ok t \<and> m_count t = length (m_ring t) \<and> 0 < m_count t
     \<and> entries t = map numbered [8, 7, 6, 5, 4, 3, 2, 1]
     \<and> entries (add t (numbered 9)) = map numbered [1, 2, 3, 4, 5, 6, 7, 8, 9]
     \<and> dyn_get (add t (numbered 9)) 0 = Some (numbered 1)"
proof -
  define t where "t = foldl add (new_table 4096) (map numbered [1, 2, 3, 4, 5, 6, 7, 8])"
  have "t = foldl table_step (new_table 4096) (map Add (map numbered [1, 2, 3, 4, 5, 6, 7, 8]))"
    by (simp add: t_def)
  then have ok: "table_ok t"
    using table_ok_run [OF table_ok_new] by metis
  have f: "m_count t = 8" "length (m_ring t) = 8" "m_max_size t = 4096" "m_current_size t = 264"
    unfolding t_def numbered_run by simp_all
  have e: "entries t = map numbered [8, 7, 6, 5, 4, 3, 2, 1]"
    unfolding t_def by (rule numbered_entries)
  have "entries (add t (numbered 9)) = rev (entries t) @ [numbered 9]
      \<and> dyn_get (add t (numbered 9)) 0 = Some (last (entries t))"
    by (rule full_ring_reverses [OF ok]) (simp_all add: f header_size_def numbered_def)
  then show ?thesis
    unfolding Let_def t_def [symmetric] using ok f e by simp
qed

end
