(* ===== verification/Hpack_Int.thy ===== *)
theory Hpack_Int
  imports H2_Base
begin

unbundle bit_operations_syntax

text \<open>
  HPACK integers, \<open>HpackEncoder::encodeInteger\<close> and \<open>HpackDecoder::decodeInteger\<close> of
  \<^verbatim>\<open>galay-http2/protoc/http2_hpack.cc\<close>. The pair of pointers \<open>data\<close>, \<open>end\<close> is the list
  of unread bytes; the decoder returns the rest.
\<close>

section \<open>Definitions\<close>

definition max_prefix :: "nat \<Rightarrow> u8" where
  "max_prefix prefix_bits = push_bit prefix_bits 1 - 1"

text \<open>The \<open>while (value >= 128)\<close> loop and the final byte.\<close>

function encodeInteger_tail :: "u32 \<Rightarrow> bytes" where
  "encodeInteger_tail v =
    (if v \<ge> 128 then ucast ((v AND 0x7F) OR 0x80) # encodeInteger_tail (drop_bit 7 v)
     else [ucast v])"
  by pat_completeness auto
termination
proof (relation "measure unat")
  fix v :: u32
  assume "128 \<le> v"
  then have "128 \<le> unat v" by (simp add: word_le_nat_alt)
  then show "(drop_bit 7 v, v) \<in> measure unat"
    by (simp only: in_measure unat_drop_bit_eq) (simp add: drop_bit_eq_div)
qed simp

declare encodeInteger_tail.simps [simp del]

definition encodeInteger :: "u32 \<Rightarrow> nat \<Rightarrow> u8 \<Rightarrow> bytes" where
  "encodeInteger v prefix_bits prefix =
    (if v < ucast (max_prefix prefix_bits) then [prefix OR ucast v]
     else (prefix OR max_prefix prefix_bits)
          # encodeInteger_tail (v - ucast (max_prefix prefix_bits)))"

text \<open>The continuation loop, with the value and shift so far.\<close>

fun decodeInteger_tail :: "bytes \<Rightarrow> u32 \<Rightarrow> nat \<Rightarrow> Http2ErrorCode + (u32 \<times> bytes)" where
  "decodeInteger_tail [] v shift = Inl CompressionError"
| "decodeInteger_tail (b # data) v shift =
    (let payload = ucast (b AND 0x7F) :: u32 in
     if shift \<ge> 32 \<or> payload > drop_bit shift (0xFFFFFFFF - v) then Inl CompressionError
     else let v' = v + push_bit shift payload in
       if b AND 0x80 = 0 then Inr (v', data)
       else if shift + 7 \<ge> 32 then Inl CompressionError
       else decodeInteger_tail data v' (shift + 7))"

definition decodeInteger :: "nat \<Rightarrow> bytes \<Rightarrow> Http2ErrorCode + (u32 \<times> bytes)" where
  "decodeInteger prefix_bits data = (case data of
     [] \<Rightarrow> Inl CompressionError
   | b # rest \<Rightarrow>
       let v = ucast (b AND max_prefix prefix_bits) :: u32 in
       if v < ucast (max_prefix prefix_bits) then Inr (v, rest)
       else decodeInteger_tail rest v 0)"

section \<open>Word arithmetic\<close>

lemma mask7_128: "(0x7F :: 'a::len word) = mask 7"
  by (simp add: mask_eq_exp_minus_1)

lemma unat_and_127: "unat (w AND 0x7F) = unat w mod 128" for w :: "'a::len word"
proof -
  have "unat (w AND 0x7F) = take_bit 7 (unat w)"
    by (simp only: mask7_128 take_bit_eq_mask [symmetric] unsigned_take_bit_eq)
  then show ?thesis by (simp add: take_bit_eq_mod)
qed

lemma unat_shr7: "unat (drop_bit 7 v) = unat v div 128" for v :: u32
  by (simp only: unat_drop_bit_eq) (simp add: drop_bit_eq_div)

lemma unat_shl_bounded:
  assumes "unat p * 2 ^ s < 2 ^ 32"
  shows "unat (push_bit s p :: u32) = unat p * 2 ^ s"
  using assms unfolding unsigned_push_bit_eq by (simp add: take_bit_eq_mod push_bit_eq_mult)

text \<open>The overflow guard is exact: it holds just when the accumulated value fits 32 bits.\<close>

lemma overflow_guard:
  "payload \<le> drop_bit s (0xFFFFFFFF - v) \<longleftrightarrow> unat v + unat payload * 2 ^ s < 2 ^ 32"
  for payload v :: u32
proof -
  have v: "unat v \<le> 4294967295" using unat_u32_less [of v] by linarith
  have c: "unat (0xFFFFFFFF - v) = 4294967295 - unat v"
    using v by (subst unat_sub) (auto simp: word_le_nat_alt)
  have "payload \<le> drop_bit s (0xFFFFFFFF - v) \<longleftrightarrow> unat payload \<le> (4294967295 - unat v) div 2 ^ s"
    by (simp only: word_le_nat_alt unat_drop_bit_eq c) (simp add: drop_bit_eq_div)
  also have "\<dots> \<longleftrightarrow> unat payload * 2 ^ s \<le> 4294967295 - unat v"
    by (simp add: less_eq_div_iff_mult_less_eq)
  also have "\<dots> \<longleftrightarrow> unat v + unat payload * 2 ^ s < 2 ^ 32"
    using v by auto
  finally show ?thesis .
qed

lemma tail_step:
  assumes "unat v + unat payload * 2 ^ s < 2 ^ 32"
  shows "unat (v + push_bit s payload :: u32) = unat v + unat payload * 2 ^ s"
  using assms unat_shl_bounded [of payload s] by (simp add: unat_word_ariths)

lemma max_prefix_mask: "max_prefix k = mask k"
  by (simp add: max_prefix_def mask_eq_exp_minus_1 push_bit_eq_mult)

lemma unat_max_prefix:
  assumes "k \<le> 8"
  shows "unat (max_prefix k) = 2 ^ k - 1"
proof -
  from assms have "k = 0 \<or> k = 1 \<or> k = 2 \<or> k = 3 \<or> k = 4 \<or> k = 5 \<or> k = 6 \<or> k = 7 \<or> k = 8"
    by arith
  then show ?thesis by (elim disjE) (simp_all add: max_prefix_def)
qed

lemma unat_ucast_u8 [simp]: "unat (ucast b :: u32) = unat b" for b :: u8
  by (simp add: unsigned_ucast_eq take_bit_nat_eq_self_iff order_less_trans [OF unat_u8_less])

lemma unat_ucast_small: "unat v < 256 \<Longrightarrow> unat (ucast v :: u8) = unat v" for v :: u32
  by (simp only: unsigned_ucast_eq) (simp add: take_bit_nat_eq_self_iff)

section \<open>Round trip\<close>

lemma continuation_byte:
  "(ucast ((v AND 0x7F) OR 0x80) :: u8) AND 0x80 = 0x80"
  "(ucast ((v AND 0x7F) OR 0x80) :: u8) AND 0x7F = ucast (v AND 0x7F)" for v :: u32
  by (rule bit_word_eqI; auto simp: bit_and_iff bit_or_iff bit_ucast_iff bitlist_simps)+

lemma unat_ucast_low7: "unat (ucast (v AND 0x7F) :: u8) = unat v mod 128" for v :: u32
proof -
  have "unat (ucast (v AND 0x7F) :: u8) = take_bit 8 (unat (v AND 0x7F))"
    by (simp only: unsigned_ucast_eq) simp
  also have "\<dots> = unat v mod 128"
    by (simp only: unat_and_127) (simp add: take_bit_eq_mod)
  finally show ?thesis .
qed

lemma last_byte:
  fixes v :: u32
  assumes "v < 128"
  shows "(ucast v :: u8) AND 0x80 = 0" and "(ucast v :: u8) AND 0x7F = ucast v"
proof -
  have "bit v n \<Longrightarrow> n < 7" for n
    using high_bits_clear [of v 7 n] assms by fastforce
  note low = this
  show "(ucast v :: u8) AND 0x80 = 0"
    by (rule bit_word_eqI) (auto simp: bit_and_iff bit_ucast_iff bitlist_simps dest: low)
  show "(ucast v :: u8) AND 0x7F = ucast v"
    by (rule bit_word_eqI) (auto simp: bit_and_iff bit_ucast_iff bitlist_simps dest: low)
qed

lemma encode_tail_roundtrip:
  assumes "unat acc + unat v * 2 ^ s < 2 ^ 32" and "s \<le> 28" and "7 dvd s"
  shows "\<exists>r. decodeInteger_tail (encodeInteger_tail v @ rest) acc s = Inr (r, rest)
           \<and> unat r = unat acc + unat v * 2 ^ s"
  using assms
proof (induction v arbitrary: acc s rule: encodeInteger_tail.induct)
  case (1 v)
  show ?case
  proof (cases "128 \<le> v")
    case True
    then have v128: "128 \<le> unat v" by (simp add: word_le_nat_alt)
    let ?b = "ucast ((v AND 0x7F) OR 0x80) :: u8"
    let ?p = "ucast (?b AND 0x7F) :: u32"
    have p: "unat ?p = unat v mod 128"
      by (simp only: unat_ucast_u8 continuation_byte unat_ucast_low7)
    have split: "unat v * 2 ^ s = unat v mod 128 * 2 ^ s + unat v div 128 * 2 ^ (s + 7)"
    proof -
      have "unat v * 2 ^ s = (unat v mod 128 + unat v div 128 * 128) * 2 ^ s" by simp
      then show ?thesis by (simp only: add_mult_distrib power_add) simp
    qed
    have fits: "unat acc + unat ?p * 2 ^ s < 2 ^ 32"
      using "1.prems"(1) split unfolding p by linarith
    have step: "unat (acc + push_bit s ?p) = unat acc + unat v mod 128 * 2 ^ s"
      using tail_step [OF fits] p by simp
    have s7: "s + 7 \<le> 28"
    proof (rule ccontr)
      assume "\<not> s + 7 \<le> 28"
      with "1.prems"(2,3) have "s = 28" by presburger
      then show False using "1.prems"(1) v128 by simp
    qed
    have "\<exists>r. decodeInteger_tail (encodeInteger_tail (drop_bit 7 v) @ rest) (acc + push_bit s ?p) (s + 7)
        = Inr (r, rest) \<and> unat r = unat (acc + push_bit s ?p) + unat (drop_bit 7 v) * 2 ^ (s + 7)"
      using "1.prems" s7 step split
      by (intro "1.IH" [OF True]) (simp_all add: unat_shr7)
    with True fits s7 step split show ?thesis
      by (simp add: encodeInteger_tail.simps [of v] Let_def overflow_guard
          not_less continuation_byte unat_shr7 add.assoc)
  next
    case False
    then have v: "v < 128" by simp
    have eq: "ucast (ucast v :: u8) = v"
      using v by (intro word_unat_eq_iff [THEN iffD2])
        (simp add: unat_ucast_small word_less_nat_alt)
    have fits: "unat acc + unat v * 2 ^ s < 2 ^ 32" using "1.prems"(1) .
    have tail: "encodeInteger_tail v = [ucast v]"
      using False by (simp add: encodeInteger_tail.simps [of v])
    with v fits "1.prems"(2) tail_step [OF fits] show ?thesis
      by (simp add: tail Let_def last_byte eq overflow_guard not_less)
  qed
qed

lemma prefix_byte:
  assumes "k \<le> 8" and "prefix AND mask k = 0" and "w AND mask k = (w :: u8)"
  shows "(prefix OR w) AND mask k = w"
proof -
  have "(prefix OR w) AND mask k = (prefix AND mask k) OR (w AND mask k)"
    by (rule bit_word_eqI) (auto simp: bit_and_iff bit_or_iff)
  with assms show ?thesis by simp
qed

lemma decode_encode_integer:
  assumes k: "0 < k" "k \<le> 8" and pre: "prefix AND mask k = 0"
  shows "decodeInteger k (encodeInteger v k prefix @ rest) = Inr (v, rest)"
proof -
  let ?m = "max_prefix k"
  have um: "unat ?m = 2 ^ k - 1" using k(2) by (rule unat_max_prefix)
  show ?thesis
  proof (cases "v < ucast ?m")
    case True
    then have lt: "unat v < 2 ^ k - 1" by (simp add: word_less_nat_alt um)
    have "(2 :: nat) ^ k \<le> 2 ^ 8" using k(2) by (intro power_increasing) auto
    with lt have v256: "unat v < 256" by simp
    have uv: "unat (ucast v :: u8) = unat v"
      using v256 by (rule unat_ucast_small)
    have "(ucast v :: u8) AND mask k = ucast v"
      using lt uv by (intro word_unat_eq_iff [THEN iffD2])
        (simp add: take_bit_eq_mask [symmetric] unsigned_take_bit_eq take_bit_nat_eq_self_iff)
    then have b: "(prefix OR ucast v) AND ?m = ucast v"
      unfolding max_prefix_mask by (intro prefix_byte k pre)
    have "ucast (ucast v :: u8) = v"
      using uv by (intro word_unat_eq_iff [THEN iffD2]) simp
    with True b show ?thesis
      by (simp add: encodeInteger_def decodeInteger_def)
  next
    case False
    then have ge: "unat ?m \<le> unat v" by (simp add: word_less_nat_alt)
    have diff: "unat (v - ucast ?m) = unat v - unat ?m"
      using ge by (subst unat_sub) (simp_all add: word_le_nat_alt)
    have b: "(prefix OR ?m) AND ?m = ?m"
      unfolding max_prefix_mask by (intro prefix_byte k pre) simp
    obtain r where "decodeInteger_tail (encodeInteger_tail (v - ucast ?m) @ rest) (ucast ?m) 0 = Inr (r, rest)"
      and "unat r = unat (ucast ?m :: u32) + unat (v - ucast ?m) * 2 ^ 0"
      using encode_tail_roundtrip [of "ucast ?m" "v - ucast ?m" 0 rest] diff ge by auto
    moreover from this have "r = v" using diff ge by (simp add: word_unat_eq_iff)
    ultimately show ?thesis
      using False b by (simp add: encodeInteger_def decodeInteger_def)
  qed
qed

interpretation int7: byte_codec "\<lambda>v. encodeInteger v 7 0" "decodeInteger 7" "\<lambda>_. True"
  by unfold_locales (simp add: decode_encode_integer)

text \<open>
  HPACK integer round trip: every 32-bit value encoded under any prefix of 1 to 8 bits whose
  pattern leaves those bits clear is decoded back from the front of any longer buffer, with exactly
  its own bytes consumed.
\<close>

theorem integer_roundtrip:
  assumes "0 < k" and "k \<le> 8" and "prefix AND mask k = 0"
  shows "decodeInteger k (encodeInteger v k prefix @ rest) = Inr (v, rest)"
  using assms by (rule decode_encode_integer)

theorem integer_roundtrip_witness:
  "(0x20 :: u8) AND mask 5 = 0 \<and> encodeInteger 1337 5 0x20 = [0x3F, 0x9A, 0x0A]
   \<and> decodeInteger 5 (encodeInteger 1337 5 0x20 @ [7]) = Inr (1337, [7])"
proof -
  have m: "(0x20 :: u8) AND mask 5 = 0" by (simp add: mask_eq_exp_minus_1)
  have "encodeInteger 1337 5 0x20 = [0x3F, 0x9A, 0x0A]"
    by (simp add: encodeInteger_def encodeInteger_tail.simps max_prefix_def)
  then show ?thesis
    using m integer_roundtrip [of 5 "0x20" 1337 "[7]"] by simp
qed

section \<open>Exactness of the decoder\<close>

text \<open>The number that a prefix octet and its continuation octets denote, unbounded.\<close>

fun tail_value :: "bytes \<Rightarrow> nat" where
  "tail_value [] = 0"
| "tail_value (b # bs) = unat b mod 128 + 128 * tail_value bs"

fun hpack_int_value :: "nat \<Rightarrow> bytes \<Rightarrow> nat" where
  "hpack_int_value k [] = 0"
| "hpack_int_value k (b # bs) = unat b mod 2 ^ k + tail_value bs"

lemma decode_tail_exact:
  "decodeInteger_tail data v s = Inr (r, rest) \<Longrightarrow>
   \<exists>used. data = used @ rest \<and> used \<noteq> [] \<and> unat r = unat v + tail_value used * 2 ^ s
        \<and> s + 7 * (length used - 1) < 32"
proof (induction data v s rule: decodeInteger_tail.induct)
  case (1 v shift)
  then show ?case by simp
next
  case (2 b data v s)
  let ?p = "ucast (b AND 0x7F) :: u32"
  have p: "unat ?p = unat b mod 128" by (simp add: unat_and_127)
  from "2.prems" have s: "s < 32" and g: "\<not> drop_bit s (0xFFFFFFFF - v) < ?p"
    by (auto simp: Let_def split: if_splits)
  from g have fits: "unat v + unat ?p * 2 ^ s < 2 ^ 32"
    by (simp add: overflow_guard not_less)
  have step: "unat (v + push_bit s ?p) = unat v + unat b mod 128 * 2 ^ s"
    using tail_step [OF fits] p by simp
  show ?case
  proof (cases "b AND 0x80 = 0")
    case True
    with "2.prems" s g have "r = v + push_bit s ?p" "rest = data"
      by (simp_all add: Let_def)
    with step s show ?thesis by (intro exI [of _ "[b]"]) simp
  next
    case False
    with "2.prems" s g have rec: "decodeInteger_tail data (v + push_bit s ?p) (s + 7) = Inr (r, rest)"
      and s7: "s + 7 < 32"
      by (auto simp: Let_def split: if_splits)
    from "2.IH" [OF refl _ refl False _ rec] s g s7 obtain used where
      u: "data = used @ rest" "used \<noteq> []" "s + 7 + 7 * (length used - 1) < 32"
        "unat r = unat (v + push_bit s ?p) + tail_value used * 2 ^ (s + 7)"
      by auto
    have "unat r = unat v + tail_value (b # used) * 2 ^ s"
      using u(4) step by (simp add: power_add algebra_simps)
    moreover have "s + 7 * (length (b # used) - 1) < 32"
      using u(2,3) by (cases used) auto
    ultimately show ?thesis
      using u(1) by (intro exI [of _ "b # used"]) simp
  qed
qed

text \<open>
  HPACK integer decoding is exact: when \<open>decodeInteger\<close> accepts, the value it returns is
  the number the consumed octets denote, computed without overflow, and it consumed between one and
  six octets. In particular no accepted encoding wraps around 32 bits.
\<close>

theorem decodeInteger_exact:
  assumes "k \<le> 8" and "decodeInteger k data = Inr (v, rest)"
  shows "\<exists>used. data = used @ rest \<and> 1 \<le> length used \<and> length used \<le> 6
            \<and> unat v = hpack_int_value k used"
proof -
  from assms(2) obtain b tl where d: "data = b # tl" by (cases data) (auto simp: decodeInteger_def)
  let ?v = "ucast (b AND max_prefix k) :: u32"
  have "unat (b AND max_prefix k) = take_bit k (unat b)"
    by (simp only: max_prefix_mask take_bit_eq_mask [symmetric] unsigned_take_bit_eq)
  then have bv: "unat ?v = unat b mod 2 ^ k" by (simp add: take_bit_eq_mod)
  show ?thesis
  proof (cases "?v < ucast (max_prefix k)")
    case True
    with assms(2) d have "v = ?v" "rest = tl" by (simp_all add: decodeInteger_def)
    with d bv show ?thesis by (intro exI [of _ "[b]"]) simp
  next
    case False
    with assms(2) d have "decodeInteger_tail tl ?v 0 = Inr (v, rest)"
      by (simp add: decodeInteger_def)
    from decode_tail_exact [OF this] obtain used where
      "tl = used @ rest" "used \<noteq> []" "unat v = unat ?v + tail_value used" "7 * (length used - 1) < 32"
      by auto
    with d bv show ?thesis by (intro exI [of _ "b # used"]) auto
  qed
qed

theorem decodeInteger_exact_witness:
  "decodeInteger 7 [0xFF, 0x80, 0x01, 9] = Inr (255, [9])
   \<and> (\<exists>used. [0xFF, 0x80, 0x01, 9] = used @ [9] \<and> 1 \<le> length used \<and> length used \<le> 6
        \<and> unat (255 :: u32) = hpack_int_value 7 used)"
proof -
  have d: "decodeInteger 7 [0xFF, 0x80, 0x01, 9] = Inr (255, [9])"
    by (simp add: decodeInteger_def max_prefix_def)
  show ?thesis
    using d decodeInteger_exact [OF _ d] by simp
qed

lemma decodeInteger_consumes:
  "decodeInteger k data = Inr (v, rest) \<Longrightarrow> \<exists>used. data = used @ rest \<and> used \<noteq> []"
  by (auto simp: decodeInteger_def Let_def split: list.splits if_splits
      dest!: decode_tail_exact)

lemma decodeInteger_shorter:
  "decodeInteger k data = Inr (v, rest) \<Longrightarrow> length rest < length data"
  by (auto dest!: decodeInteger_consumes)

lemma decodeInteger_error: "decodeInteger k data = Inl e \<Longrightarrow> e = CompressionError"
proof -
  have "decodeInteger_tail d v s = Inl e \<Longrightarrow> e = CompressionError" for d v s
    by (induction d v s rule: decodeInteger_tail.induct) (auto simp: Let_def split: if_splits)
  then show "decodeInteger k data = Inl e \<Longrightarrow> e = CompressionError"
    by (auto simp: decodeInteger_def Let_def split: list.splits if_splits)
qed

end
