(* ===== verification/Hpack_Huffman_Tree.thy ===== *)
theory Hpack_Huffman_Tree
  imports Hpack_Huffman_Table
begin

text \<open>
  The prefix code of \<^verbatim>\<open>http2_hpack.cc\<close> as a bit-level automaton, the reference
  for the nibble-level tables of the code. A state is an inner node of the code tree, numbered as in
  \<open>kHuffmanDecodeTable\<close>; an edge leads to another state, to a symbol or to EOS. Besides the
  edges the theory lists the path of every state (as a number and a length) and the parent edge
  of every state and symbol. The evaluations below check all of it against \<open>kHuffmanCodes\<close>,
  \<open>kHuffmanDecodeTable\<close> and \<open>kHuffmanDecodeAccepting\<close>, entry by entry.
\<close>

datatype htarget = ToState nat | ToSym nat | ToEos

definition huffman_bits :: "(htarget \<times> htarget) list" where
  "huffman_bits = [
    (ToState 29, ToState 30), (ToSym 48, ToSym 49), (ToSym 50, ToSym 97), (ToSym 99, ToSym 101),
    (ToSym 105, ToSym 111), (ToSym 115, ToSym 116), (ToState 55, ToState 56), (ToState 57, ToState 58),
    (ToState 59, ToState 60), (ToState 61, ToState 62), (ToState 63, ToState 64), (ToState 65, ToState 66),
    (ToState 67, ToState 68), (ToState 69, ToState 70), (ToState 71, ToState 72), (ToState 73, ToState 74),
    (ToState 75, ToState 76), (ToState 1, ToState 2), (ToState 3, ToState 4), (ToState 5, ToState 6),
    (ToState 7, ToState 8), (ToState 9, ToState 10), (ToState 11, ToState 12), (ToState 13, ToState 14),
    (ToState 15, ToState 16), (ToState 17, ToState 18), (ToState 19, ToState 20), (ToState 21, ToState 22),
    (ToState 23, ToState 24), (ToState 25, ToState 26), (ToState 27, ToState 28), (ToState 87, ToState 88),
    (ToState 89, ToState 90), (ToSym 38, ToSym 42), (ToSym 44, ToSym 59), (ToSym 88, ToSym 90),
    (ToState 31, ToState 32), (ToSym 58, ToSym 66), (ToSym 67, ToSym 68), (ToSym 69, ToSym 70),
    (ToSym 71, ToSym 72), (ToSym 73, ToSym 74), (ToSym 75, ToSym 76), (ToSym 77, ToSym 78),
    (ToSym 79, ToSym 80), (ToSym 81, ToSym 82), (ToSym 83, ToSym 84), (ToSym 85, ToSym 86),
    (ToSym 87, ToSym 89), (ToSym 106, ToSym 107), (ToSym 113, ToSym 118), (ToSym 119, ToSym 120),
    (ToSym 121, ToSym 122), (ToState 33, ToState 34), (ToState 35, ToState 36), (ToSym 32, ToSym 37),
    (ToSym 45, ToSym 46), (ToSym 47, ToSym 51), (ToSym 52, ToSym 53), (ToSym 54, ToSym 55),
    (ToSym 56, ToSym 57), (ToSym 61, ToSym 65), (ToSym 95, ToSym 98), (ToSym 100, ToSym 102),
    (ToSym 103, ToSym 104), (ToSym 108, ToSym 109), (ToSym 110, ToSym 112), (ToSym 114, ToSym 117),
    (ToState 37, ToState 38), (ToState 39, ToState 40), (ToState 41, ToState 42), (ToState 43, ToState 44),
    (ToState 45, ToState 46), (ToState 47, ToState 48), (ToState 49, ToState 50), (ToState 51, ToState 52),
    (ToState 53, ToState 54), (ToSym 0, ToSym 36), (ToSym 64, ToSym 91), (ToSym 93, ToSym 126),
    (ToState 96, ToState 97), (ToSym 35, ToSym 62), (ToState 77, ToState 78), (ToState 79, ToState 80),
    (ToSym 39, ToSym 43), (ToSym 124, ToState 81), (ToState 82, ToState 83), (ToSym 33, ToSym 34),
    (ToSym 40, ToSym 41), (ToSym 63, ToState 84), (ToState 85, ToState 86), (ToState 137, ToState 138),
    (ToState 139, ToState 140), (ToState 91, ToState 92), (ToSym 60, ToSym 96), (ToSym 123, ToState 93),
    (ToSym 94, ToSym 125), (ToState 94, ToState 95), (ToSym 153, ToSym 161), (ToSym 167, ToSym 172),
    (ToSym 176, ToSym 177), (ToSym 179, ToSym 209), (ToSym 216, ToSym 217), (ToSym 227, ToSym 229),
    (ToSym 230, ToState 182), (ToState 183, ToState 184), (ToState 185, ToState 186), (ToState 187, ToState 188),
    (ToState 189, ToState 190), (ToState 191, ToState 192), (ToState 193, ToState 194), (ToState 195, ToState 196),
    (ToState 197, ToState 198), (ToState 199, ToState 200), (ToState 201, ToState 202), (ToState 203, ToState 204),
    (ToSym 128, ToSym 130), (ToSym 131, ToSym 162), (ToSym 184, ToSym 194), (ToSym 224, ToSym 226),
    (ToState 98, ToState 99), (ToState 100, ToState 101), (ToState 102, ToState 103), (ToState 104, ToState 105),
    (ToState 106, ToState 107), (ToState 108, ToState 109), (ToState 110, ToState 111), (ToState 112, ToState 113),
    (ToState 114, ToState 115), (ToSym 92, ToSym 195), (ToSym 208, ToState 116), (ToState 117, ToState 118),
    (ToState 119, ToState 120), (ToState 121, ToState 122), (ToState 123, ToState 124), (ToState 125, ToState 126),
    (ToState 127, ToState 128), (ToState 129, ToState 130), (ToState 131, ToState 132), (ToState 133, ToState 134),
    (ToState 135, ToState 136), (ToSym 199, ToSym 207), (ToSym 234, ToSym 235), (ToState 238, ToState 239),
    (ToState 240, ToState 241), (ToState 242, ToState 243), (ToState 244, ToState 245), (ToState 246, ToState 247),
    (ToState 248, ToState 249), (ToState 250, ToState 251), (ToState 252, ToState 253), (ToSym 9, ToSym 142),
    (ToSym 144, ToSym 145), (ToSym 148, ToSym 159), (ToSym 171, ToSym 206), (ToSym 215, ToSym 225),
    (ToSym 236, ToSym 237), (ToState 141, ToState 142), (ToState 143, ToState 144), (ToState 145, ToState 146),
    (ToState 147, ToState 148), (ToState 149, ToState 150), (ToSym 1, ToSym 135), (ToSym 137, ToSym 138),
    (ToSym 139, ToSym 140), (ToSym 141, ToSym 143), (ToSym 147, ToSym 149), (ToSym 150, ToSym 151),
    (ToSym 152, ToSym 155), (ToSym 157, ToSym 158), (ToSym 165, ToSym 166), (ToSym 168, ToSym 174),
    (ToSym 175, ToSym 180), (ToSym 182, ToSym 183), (ToSym 188, ToSym 191), (ToSym 197, ToSym 231),
    (ToSym 239, ToState 151), (ToState 152, ToState 153), (ToState 154, ToState 155), (ToState 156, ToState 157),
    (ToState 158, ToState 159), (ToState 160, ToState 161), (ToSym 129, ToSym 132), (ToSym 133, ToSym 134),
    (ToSym 136, ToSym 146), (ToSym 154, ToSym 156), (ToSym 160, ToSym 163), (ToSym 164, ToSym 169),
    (ToSym 170, ToSym 173), (ToSym 178, ToSym 181), (ToSym 185, ToSym 186), (ToSym 187, ToSym 189),
    (ToSym 190, ToSym 196), (ToSym 198, ToSym 228), (ToSym 232, ToSym 233), (ToState 162, ToState 163),
    (ToState 164, ToState 165), (ToState 166, ToState 167), (ToState 168, ToState 169), (ToState 170, ToState 171),
    (ToState 172, ToState 173), (ToState 174, ToState 175), (ToState 176, ToState 177), (ToState 178, ToState 179),
    (ToState 180, ToState 181), (ToState 254, ToState 255), (ToSym 2, ToSym 3), (ToSym 4, ToSym 5),
    (ToSym 6, ToSym 7), (ToSym 8, ToSym 11), (ToSym 12, ToSym 14), (ToSym 15, ToSym 16),
    (ToSym 17, ToSym 18), (ToSym 19, ToSym 20), (ToSym 21, ToSym 23), (ToSym 24, ToSym 25),
    (ToSym 26, ToSym 27), (ToSym 28, ToSym 29), (ToSym 30, ToSym 31), (ToSym 127, ToSym 220),
    (ToSym 249, ToState 205), (ToSym 203, ToSym 204), (ToSym 211, ToSym 212), (ToSym 214, ToSym 221),
    (ToSym 222, ToSym 223), (ToSym 241, ToSym 244), (ToSym 245, ToSym 246), (ToSym 247, ToSym 248),
    (ToSym 250, ToSym 251), (ToSym 252, ToSym 253), (ToSym 254, ToState 206), (ToState 207, ToState 208),
    (ToState 209, ToState 210), (ToState 211, ToState 212), (ToState 213, ToState 214), (ToState 215, ToState 216),
    (ToState 217, ToState 218), (ToState 219, ToState 220), (ToSym 192, ToSym 193), (ToSym 200, ToSym 201),
    (ToSym 202, ToSym 205), (ToSym 210, ToSym 213), (ToSym 218, ToSym 219), (ToSym 238, ToSym 240),
    (ToSym 242, ToSym 243), (ToSym 255, ToState 221), (ToState 222, ToState 223), (ToState 224, ToState 225),
    (ToState 226, ToState 227), (ToState 228, ToState 229), (ToState 230, ToState 231), (ToState 232, ToState 233),
    (ToState 234, ToState 235), (ToState 236, ToState 237), (ToSym 10, ToSym 13), (ToSym 22, ToEos)]"

text \<open>The path from the root to each state: its bits read as a number, and their count.\<close>

definition state_codes :: "(nat \<times> nat) list" where
  "state_codes = [
    (0, 0), (0, 4), (1, 4), (2, 4), (3, 4), (4, 4), (5, 4), (6, 4),
    (7, 4), (8, 4), (9, 4), (10, 4), (11, 4), (12, 4), (13, 4), (14, 4),
    (15, 4), (0, 3), (1, 3), (2, 3), (3, 3), (4, 3), (5, 3), (6, 3),
    (7, 3), (0, 2), (1, 2), (2, 2), (3, 2), (0, 1), (1, 1), (254, 8),
    (255, 8), (124, 7), (125, 7), (126, 7), (127, 7), (46, 6), (47, 6), (48, 6),
    (49, 6), (50, 6), (51, 6), (52, 6), (53, 6), (54, 6), (55, 6), (56, 6),
    (57, 6), (58, 6), (59, 6), (60, 6), (61, 6), (62, 6), (63, 6), (10, 5),
    (11, 5), (12, 5), (13, 5), (14, 5), (15, 5), (16, 5), (17, 5), (18, 5),
    (19, 5), (20, 5), (21, 5), (22, 5), (23, 5), (24, 5), (25, 5), (26, 5),
    (27, 5), (28, 5), (29, 5), (30, 5), (31, 5), (4092, 12), (4093, 12), (4094, 12),
    (4095, 12), (2045, 11), (2046, 11), (2047, 11), (1021, 10), (1022, 10), (1023, 10), (508, 9),
    (509, 9), (510, 9), (511, 9), (65534, 16), (65535, 16), (32767, 15), (16382, 14), (16383, 14),
    (8190, 13), (8191, 13), (1048558, 20), (1048559, 20), (1048560, 20), (1048561, 20), (1048562, 20), (1048563, 20),
    (1048564, 20), (1048565, 20), (1048566, 20), (1048567, 20), (1048568, 20), (1048569, 20), (1048570, 20), (1048571, 20),
    (1048572, 20), (1048573, 20), (1048574, 20), (1048575, 20), (524275, 19), (524276, 19), (524277, 19), (524278, 19),
    (524279, 19), (524280, 19), (524281, 19), (524282, 19), (524283, 19), (524284, 19), (524285, 19), (524286, 19),
    (524287, 19), (262136, 18), (262137, 18), (262138, 18), (262139, 18), (262140, 18), (262141, 18), (262142, 18),
    (262143, 18), (131068, 17), (131069, 17), (131070, 17), (131071, 17), (16777206, 24), (16777207, 24), (16777208, 24),
    (16777209, 24), (16777210, 24), (16777211, 24), (16777212, 24), (16777213, 24), (16777214, 24), (16777215, 24), (8388597, 23),
    (8388598, 23), (8388599, 23), (8388600, 23), (8388601, 23), (8388602, 23), (8388603, 23), (8388604, 23), (8388605, 23),
    (8388606, 23), (8388607, 23), (4194284, 22), (4194285, 22), (4194286, 22), (4194287, 22), (4194288, 22), (4194289, 22),
    (4194290, 22), (4194291, 22), (4194292, 22), (4194293, 22), (4194294, 22), (4194295, 22), (4194296, 22), (4194297, 22),
    (4194298, 22), (4194299, 22), (4194300, 22), (4194301, 22), (4194302, 22), (4194303, 22), (2097129, 21), (2097130, 21),
    (2097131, 21), (2097132, 21), (2097133, 21), (2097134, 21), (2097135, 21), (2097136, 21), (2097137, 21), (2097138, 21),
    (2097139, 21), (2097140, 21), (2097141, 21), (2097142, 21), (2097143, 21), (2097144, 21), (2097145, 21), (2097146, 21),
    (2097147, 21), (2097148, 21), (2097149, 21), (2097150, 21), (2097151, 21), (268435455, 28), (134217713, 27), (134217714, 27),
    (134217715, 27), (134217716, 27), (134217717, 27), (134217718, 27), (134217719, 27), (134217720, 27), (134217721, 27), (134217722, 27),
    (134217723, 27), (134217724, 27), (134217725, 27), (134217726, 27), (134217727, 27), (67108847, 26), (67108848, 26), (67108849, 26),
    (67108850, 26), (67108851, 26), (67108852, 26), (67108853, 26), (67108854, 26), (67108855, 26), (67108856, 26), (67108857, 26),
    (67108858, 26), (67108859, 26), (67108860, 26), (67108861, 26), (67108862, 26), (67108863, 26), (33554416, 25), (33554417, 25),
    (33554418, 25), (33554419, 25), (33554420, 25), (33554421, 25), (33554422, 25), (33554423, 25), (33554424, 25), (33554425, 25),
    (33554426, 25), (33554427, 25), (33554428, 25), (33554429, 25), (33554430, 25), (33554431, 25), (536870910, 29), (536870911, 29)]"

text \<open>The edge into each state (unused for the root) and into each symbol.\<close>

definition state_parents :: "(nat \<times> bool) list" where
  "state_parents = [
    (0, False), (17, False), (17, True), (18, False), (18, True), (19, False), (19, True), (20, False),
    (20, True), (21, False), (21, True), (22, False), (22, True), (23, False), (23, True), (24, False),
    (24, True), (25, False), (25, True), (26, False), (26, True), (27, False), (27, True), (28, False),
    (28, True), (29, False), (29, True), (30, False), (30, True), (0, False), (0, True), (36, False),
    (36, True), (53, False), (53, True), (54, False), (54, True), (68, False), (68, True), (69, False),
    (69, True), (70, False), (70, True), (71, False), (71, True), (72, False), (72, True), (73, False),
    (73, True), (74, False), (74, True), (75, False), (75, True), (76, False), (76, True), (6, False),
    (6, True), (7, False), (7, True), (8, False), (8, True), (9, False), (9, True), (10, False),
    (10, True), (11, False), (11, True), (12, False), (12, True), (13, False), (13, True), (14, False),
    (14, True), (15, False), (15, True), (16, False), (16, True), (82, False), (82, True), (83, False),
    (83, True), (85, True), (86, False), (86, True), (89, True), (90, False), (90, True), (31, False),
    (31, True), (32, False), (32, True), (93, False), (93, True), (95, True), (97, False), (97, True),
    (80, False), (80, True), (120, False), (120, True), (121, False), (121, True), (122, False), (122, True),
    (123, False), (123, True), (124, False), (124, True), (125, False), (125, True), (126, False), (126, True),
    (127, False), (127, True), (128, False), (128, True), (130, True), (131, False), (131, True), (132, False),
    (132, True), (133, False), (133, True), (134, False), (134, True), (135, False), (135, True), (136, False),
    (136, True), (137, False), (137, True), (138, False), (138, True), (139, False), (139, True), (140, False),
    (140, True), (91, False), (91, True), (92, False), (92, True), (157, False), (157, True), (158, False),
    (158, True), (159, False), (159, True), (160, False), (160, True), (161, False), (161, True), (176, True),
    (177, False), (177, True), (178, False), (178, True), (179, False), (179, True), (180, False), (180, True),
    (181, False), (181, True), (195, False), (195, True), (196, False), (196, True), (197, False), (197, True),
    (198, False), (198, True), (199, False), (199, True), (200, False), (200, True), (201, False), (201, True),
    (202, False), (202, True), (203, False), (203, True), (204, False), (204, True), (104, True), (105, False),
    (105, True), (106, False), (106, True), (107, False), (107, True), (108, False), (108, True), (109, False),
    (109, True), (110, False), (110, True), (111, False), (111, True), (112, False), (112, True), (113, False),
    (113, True), (114, False), (114, True), (115, False), (115, True), (220, True), (230, True), (231, False),
    (231, True), (232, False), (232, True), (233, False), (233, True), (234, False), (234, True), (235, False),
    (235, True), (236, False), (236, True), (237, False), (237, True), (245, True), (246, False), (246, True),
    (247, False), (247, True), (248, False), (248, True), (249, False), (249, True), (250, False), (250, True),
    (251, False), (251, True), (252, False), (252, True), (253, False), (253, True), (143, False), (143, True),
    (144, False), (144, True), (145, False), (145, True), (146, False), (146, True), (147, False), (147, True),
    (148, False), (148, True), (149, False), (149, True), (150, False), (150, True), (205, False), (205, True)]"

definition sym_parents :: "(nat \<times> bool) list" where
  "sym_parents = [
    (77, False), (162, False), (206, False), (206, True), (207, False), (207, True), (208, False), (208, True),
    (209, False), (151, False), (254, False), (209, True), (210, False), (254, True), (210, True), (211, False),
    (211, True), (212, False), (212, True), (213, False), (213, True), (214, False), (255, False), (214, True),
    (215, False), (215, True), (216, False), (216, True), (217, False), (217, True), (218, False), (218, True),
    (55, False), (87, False), (87, True), (81, False), (77, True), (55, True), (33, False), (84, False),
    (88, False), (88, True), (33, True), (84, True), (34, False), (56, False), (56, True), (57, False),
    (1, False), (1, True), (2, False), (57, True), (58, False), (58, True), (59, False), (59, True),
    (60, False), (60, True), (37, False), (34, True), (94, False), (61, False), (81, True), (89, False),
    (78, False), (61, True), (37, True), (38, False), (38, True), (39, False), (39, True), (40, False),
    (40, True), (41, False), (41, True), (42, False), (42, True), (43, False), (43, True), (44, False),
    (44, True), (45, False), (45, True), (46, False), (46, True), (47, False), (47, True), (48, False),
    (35, False), (48, True), (35, True), (78, True), (129, False), (79, False), (96, False), (62, False),
    (94, True), (2, True), (62, True), (3, False), (63, False), (3, True), (63, True), (64, False),
    (64, True), (4, False), (49, False), (49, True), (65, False), (65, True), (66, False), (4, True),
    (66, True), (50, False), (67, False), (5, False), (5, True), (67, True), (50, True), (51, False),
    (51, True), (52, False), (52, True), (95, False), (85, False), (96, True), (79, True), (219, False),
    (116, False), (182, False), (116, True), (117, False), (182, True), (183, False), (183, True), (162, True),
    (184, False), (163, False), (163, True), (164, False), (164, True), (165, False), (151, True), (165, True),
    (152, False), (152, True), (184, True), (166, False), (153, False), (166, True), (167, False), (167, True),
    (168, False), (98, False), (185, False), (168, True), (185, True), (169, False), (169, True), (153, True),
    (186, False), (98, True), (117, True), (186, True), (187, False), (170, False), (170, True), (99, False),
    (171, False), (187, True), (188, False), (154, False), (99, True), (188, True), (171, True), (172, False),
    (100, False), (100, True), (189, False), (101, False), (172, True), (189, True), (173, False), (173, True),
    (118, False), (190, False), (190, True), (191, False), (174, False), (191, True), (192, False), (174, True),
    (238, False), (238, True), (118, True), (129, True), (192, True), (175, False), (193, False), (141, False),
    (239, False), (239, True), (240, False), (221, False), (221, True), (240, True), (154, True), (141, True),
    (130, False), (101, True), (241, False), (222, False), (222, True), (241, True), (223, False), (155, False),
    (102, False), (102, True), (242, False), (242, True), (219, True), (223, True), (224, False), (224, True),
    (119, False), (155, True), (119, True), (103, False), (193, True), (103, True), (104, False), (175, True),
    (194, False), (194, True), (142, False), (142, True), (156, False), (156, True), (243, False), (176, False),
    (243, True), (225, False), (244, False), (244, True), (225, True), (226, False), (226, True), (227, False),
    (227, True), (220, False), (228, False), (228, True), (229, False), (229, True), (230, False), (245, False)]"

section \<open>Table look-ups as rewrite rules\<close>

lemma huffman_bits_at_0:
  "huffman_bits ! 0 = (ToState 29, ToState 30)"
  "huffman_bits ! Suc 0 = (ToSym 48, ToSym 49)"
  "huffman_bits ! 2 = (ToSym 50, ToSym 97)"
  "huffman_bits ! 3 = (ToSym 99, ToSym 101)"
  "huffman_bits ! 4 = (ToSym 105, ToSym 111)"
  "huffman_bits ! 5 = (ToSym 115, ToSym 116)"
  "huffman_bits ! 6 = (ToState 55, ToState 56)"
  "huffman_bits ! 7 = (ToState 57, ToState 58)"
  "huffman_bits ! 8 = (ToState 59, ToState 60)"
  "huffman_bits ! 9 = (ToState 61, ToState 62)"
  "huffman_bits ! 10 = (ToState 63, ToState 64)"
  "huffman_bits ! 11 = (ToState 65, ToState 66)"
  "huffman_bits ! 12 = (ToState 67, ToState 68)"
  "huffman_bits ! 13 = (ToState 69, ToState 70)"
  "huffman_bits ! 14 = (ToState 71, ToState 72)"
  "huffman_bits ! 15 = (ToState 73, ToState 74)"
  "huffman_bits ! 16 = (ToState 75, ToState 76)"
  "huffman_bits ! 17 = (ToState 1, ToState 2)"
  "huffman_bits ! 18 = (ToState 3, ToState 4)"
  "huffman_bits ! 19 = (ToState 5, ToState 6)"
  "huffman_bits ! 20 = (ToState 7, ToState 8)"
  "huffman_bits ! 21 = (ToState 9, ToState 10)"
  "huffman_bits ! 22 = (ToState 11, ToState 12)"
  "huffman_bits ! 23 = (ToState 13, ToState 14)"
  "huffman_bits ! 24 = (ToState 15, ToState 16)"
  "huffman_bits ! 25 = (ToState 17, ToState 18)"
  "huffman_bits ! 26 = (ToState 19, ToState 20)"
  "huffman_bits ! 27 = (ToState 21, ToState 22)"
  "huffman_bits ! 28 = (ToState 23, ToState 24)"
  "huffman_bits ! 29 = (ToState 25, ToState 26)"
  "huffman_bits ! 30 = (ToState 27, ToState 28)"
  "huffman_bits ! 31 = (ToState 87, ToState 88)"
  "huffman_bits ! 32 = (ToState 89, ToState 90)"
  "huffman_bits ! 33 = (ToSym 38, ToSym 42)"
  "huffman_bits ! 34 = (ToSym 44, ToSym 59)"
  "huffman_bits ! 35 = (ToSym 88, ToSym 90)"
  "huffman_bits ! 36 = (ToState 31, ToState 32)"
  "huffman_bits ! 37 = (ToSym 58, ToSym 66)"
  "huffman_bits ! 38 = (ToSym 67, ToSym 68)"
  "huffman_bits ! 39 = (ToSym 69, ToSym 70)"
  "huffman_bits ! 40 = (ToSym 71, ToSym 72)"
  "huffman_bits ! 41 = (ToSym 73, ToSym 74)"
  "huffman_bits ! 42 = (ToSym 75, ToSym 76)"
  "huffman_bits ! 43 = (ToSym 77, ToSym 78)"
  "huffman_bits ! 44 = (ToSym 79, ToSym 80)"
  "huffman_bits ! 45 = (ToSym 81, ToSym 82)"
  "huffman_bits ! 46 = (ToSym 83, ToSym 84)"
  "huffman_bits ! 47 = (ToSym 85, ToSym 86)"
  "huffman_bits ! 48 = (ToSym 87, ToSym 89)"
  "huffman_bits ! 49 = (ToSym 106, ToSym 107)"
  "huffman_bits ! 50 = (ToSym 113, ToSym 118)"
  "huffman_bits ! 51 = (ToSym 119, ToSym 120)"
  "huffman_bits ! 52 = (ToSym 121, ToSym 122)"
  "huffman_bits ! 53 = (ToState 33, ToState 34)"
  "huffman_bits ! 54 = (ToState 35, ToState 36)"
  "huffman_bits ! 55 = (ToSym 32, ToSym 37)"
  "huffman_bits ! 56 = (ToSym 45, ToSym 46)"
  "huffman_bits ! 57 = (ToSym 47, ToSym 51)"
  "huffman_bits ! 58 = (ToSym 52, ToSym 53)"
  "huffman_bits ! 59 = (ToSym 54, ToSym 55)"
  "huffman_bits ! 60 = (ToSym 56, ToSym 57)"
  "huffman_bits ! 61 = (ToSym 61, ToSym 65)"
  "huffman_bits ! 62 = (ToSym 95, ToSym 98)"
  "huffman_bits ! 63 = (ToSym 100, ToSym 102)"
  by (simp_all add: huffman_bits_def)

lemma huffman_bits_at_1:
  "huffman_bits ! 64 = (ToSym 103, ToSym 104)"
  "huffman_bits ! 65 = (ToSym 108, ToSym 109)"
  "huffman_bits ! 66 = (ToSym 110, ToSym 112)"
  "huffman_bits ! 67 = (ToSym 114, ToSym 117)"
  "huffman_bits ! 68 = (ToState 37, ToState 38)"
  "huffman_bits ! 69 = (ToState 39, ToState 40)"
  "huffman_bits ! 70 = (ToState 41, ToState 42)"
  "huffman_bits ! 71 = (ToState 43, ToState 44)"
  "huffman_bits ! 72 = (ToState 45, ToState 46)"
  "huffman_bits ! 73 = (ToState 47, ToState 48)"
  "huffman_bits ! 74 = (ToState 49, ToState 50)"
  "huffman_bits ! 75 = (ToState 51, ToState 52)"
  "huffman_bits ! 76 = (ToState 53, ToState 54)"
  "huffman_bits ! 77 = (ToSym 0, ToSym 36)"
  "huffman_bits ! 78 = (ToSym 64, ToSym 91)"
  "huffman_bits ! 79 = (ToSym 93, ToSym 126)"
  "huffman_bits ! 80 = (ToState 96, ToState 97)"
  "huffman_bits ! 81 = (ToSym 35, ToSym 62)"
  "huffman_bits ! 82 = (ToState 77, ToState 78)"
  "huffman_bits ! 83 = (ToState 79, ToState 80)"
  "huffman_bits ! 84 = (ToSym 39, ToSym 43)"
  "huffman_bits ! 85 = (ToSym 124, ToState 81)"
  "huffman_bits ! 86 = (ToState 82, ToState 83)"
  "huffman_bits ! 87 = (ToSym 33, ToSym 34)"
  "huffman_bits ! 88 = (ToSym 40, ToSym 41)"
  "huffman_bits ! 89 = (ToSym 63, ToState 84)"
  "huffman_bits ! 90 = (ToState 85, ToState 86)"
  "huffman_bits ! 91 = (ToState 137, ToState 138)"
  "huffman_bits ! 92 = (ToState 139, ToState 140)"
  "huffman_bits ! 93 = (ToState 91, ToState 92)"
  "huffman_bits ! 94 = (ToSym 60, ToSym 96)"
  "huffman_bits ! 95 = (ToSym 123, ToState 93)"
  "huffman_bits ! 96 = (ToSym 94, ToSym 125)"
  "huffman_bits ! 97 = (ToState 94, ToState 95)"
  "huffman_bits ! 98 = (ToSym 153, ToSym 161)"
  "huffman_bits ! 99 = (ToSym 167, ToSym 172)"
  "huffman_bits ! 100 = (ToSym 176, ToSym 177)"
  "huffman_bits ! 101 = (ToSym 179, ToSym 209)"
  "huffman_bits ! 102 = (ToSym 216, ToSym 217)"
  "huffman_bits ! 103 = (ToSym 227, ToSym 229)"
  "huffman_bits ! 104 = (ToSym 230, ToState 182)"
  "huffman_bits ! 105 = (ToState 183, ToState 184)"
  "huffman_bits ! 106 = (ToState 185, ToState 186)"
  "huffman_bits ! 107 = (ToState 187, ToState 188)"
  "huffman_bits ! 108 = (ToState 189, ToState 190)"
  "huffman_bits ! 109 = (ToState 191, ToState 192)"
  "huffman_bits ! 110 = (ToState 193, ToState 194)"
  "huffman_bits ! 111 = (ToState 195, ToState 196)"
  "huffman_bits ! 112 = (ToState 197, ToState 198)"
  "huffman_bits ! 113 = (ToState 199, ToState 200)"
  "huffman_bits ! 114 = (ToState 201, ToState 202)"
  "huffman_bits ! 115 = (ToState 203, ToState 204)"
  "huffman_bits ! 116 = (ToSym 128, ToSym 130)"
  "huffman_bits ! 117 = (ToSym 131, ToSym 162)"
  "huffman_bits ! 118 = (ToSym 184, ToSym 194)"
  "huffman_bits ! 119 = (ToSym 224, ToSym 226)"
  "huffman_bits ! 120 = (ToState 98, ToState 99)"
  "huffman_bits ! 121 = (ToState 100, ToState 101)"
  "huffman_bits ! 122 = (ToState 102, ToState 103)"
  "huffman_bits ! 123 = (ToState 104, ToState 105)"
  "huffman_bits ! 124 = (ToState 106, ToState 107)"
  "huffman_bits ! 125 = (ToState 108, ToState 109)"
  "huffman_bits ! 126 = (ToState 110, ToState 111)"
  "huffman_bits ! 127 = (ToState 112, ToState 113)"
  by (simp_all add: huffman_bits_def)

lemma huffman_bits_at_2:
  "huffman_bits ! 128 = (ToState 114, ToState 115)"
  "huffman_bits ! 129 = (ToSym 92, ToSym 195)"
  "huffman_bits ! 130 = (ToSym 208, ToState 116)"
  "huffman_bits ! 131 = (ToState 117, ToState 118)"
  "huffman_bits ! 132 = (ToState 119, ToState 120)"
  "huffman_bits ! 133 = (ToState 121, ToState 122)"
  "huffman_bits ! 134 = (ToState 123, ToState 124)"
  "huffman_bits ! 135 = (ToState 125, ToState 126)"
  "huffman_bits ! 136 = (ToState 127, ToState 128)"
  "huffman_bits ! 137 = (ToState 129, ToState 130)"
  "huffman_bits ! 138 = (ToState 131, ToState 132)"
  "huffman_bits ! 139 = (ToState 133, ToState 134)"
  "huffman_bits ! 140 = (ToState 135, ToState 136)"
  "huffman_bits ! 141 = (ToSym 199, ToSym 207)"
  "huffman_bits ! 142 = (ToSym 234, ToSym 235)"
  "huffman_bits ! 143 = (ToState 238, ToState 239)"
  "huffman_bits ! 144 = (ToState 240, ToState 241)"
  "huffman_bits ! 145 = (ToState 242, ToState 243)"
  "huffman_bits ! 146 = (ToState 244, ToState 245)"
  "huffman_bits ! 147 = (ToState 246, ToState 247)"
  "huffman_bits ! 148 = (ToState 248, ToState 249)"
  "huffman_bits ! 149 = (ToState 250, ToState 251)"
  "huffman_bits ! 150 = (ToState 252, ToState 253)"
  "huffman_bits ! 151 = (ToSym 9, ToSym 142)"
  "huffman_bits ! 152 = (ToSym 144, ToSym 145)"
  "huffman_bits ! 153 = (ToSym 148, ToSym 159)"
  "huffman_bits ! 154 = (ToSym 171, ToSym 206)"
  "huffman_bits ! 155 = (ToSym 215, ToSym 225)"
  "huffman_bits ! 156 = (ToSym 236, ToSym 237)"
  "huffman_bits ! 157 = (ToState 141, ToState 142)"
  "huffman_bits ! 158 = (ToState 143, ToState 144)"
  "huffman_bits ! 159 = (ToState 145, ToState 146)"
  "huffman_bits ! 160 = (ToState 147, ToState 148)"
  "huffman_bits ! 161 = (ToState 149, ToState 150)"
  "huffman_bits ! 162 = (ToSym 1, ToSym 135)"
  "huffman_bits ! 163 = (ToSym 137, ToSym 138)"
  "huffman_bits ! 164 = (ToSym 139, ToSym 140)"
  "huffman_bits ! 165 = (ToSym 141, ToSym 143)"
  "huffman_bits ! 166 = (ToSym 147, ToSym 149)"
  "huffman_bits ! 167 = (ToSym 150, ToSym 151)"
  "huffman_bits ! 168 = (ToSym 152, ToSym 155)"
  "huffman_bits ! 169 = (ToSym 157, ToSym 158)"
  "huffman_bits ! 170 = (ToSym 165, ToSym 166)"
  "huffman_bits ! 171 = (ToSym 168, ToSym 174)"
  "huffman_bits ! 172 = (ToSym 175, ToSym 180)"
  "huffman_bits ! 173 = (ToSym 182, ToSym 183)"
  "huffman_bits ! 174 = (ToSym 188, ToSym 191)"
  "huffman_bits ! 175 = (ToSym 197, ToSym 231)"
  "huffman_bits ! 176 = (ToSym 239, ToState 151)"
  "huffman_bits ! 177 = (ToState 152, ToState 153)"
  "huffman_bits ! 178 = (ToState 154, ToState 155)"
  "huffman_bits ! 179 = (ToState 156, ToState 157)"
  "huffman_bits ! 180 = (ToState 158, ToState 159)"
  "huffman_bits ! 181 = (ToState 160, ToState 161)"
  "huffman_bits ! 182 = (ToSym 129, ToSym 132)"
  "huffman_bits ! 183 = (ToSym 133, ToSym 134)"
  "huffman_bits ! 184 = (ToSym 136, ToSym 146)"
  "huffman_bits ! 185 = (ToSym 154, ToSym 156)"
  "huffman_bits ! 186 = (ToSym 160, ToSym 163)"
  "huffman_bits ! 187 = (ToSym 164, ToSym 169)"
  "huffman_bits ! 188 = (ToSym 170, ToSym 173)"
  "huffman_bits ! 189 = (ToSym 178, ToSym 181)"
  "huffman_bits ! 190 = (ToSym 185, ToSym 186)"
  "huffman_bits ! 191 = (ToSym 187, ToSym 189)"
  by (simp_all add: huffman_bits_def)

lemma huffman_bits_at_3:
  "huffman_bits ! 192 = (ToSym 190, ToSym 196)"
  "huffman_bits ! 193 = (ToSym 198, ToSym 228)"
  "huffman_bits ! 194 = (ToSym 232, ToSym 233)"
  "huffman_bits ! 195 = (ToState 162, ToState 163)"
  "huffman_bits ! 196 = (ToState 164, ToState 165)"
  "huffman_bits ! 197 = (ToState 166, ToState 167)"
  "huffman_bits ! 198 = (ToState 168, ToState 169)"
  "huffman_bits ! 199 = (ToState 170, ToState 171)"
  "huffman_bits ! 200 = (ToState 172, ToState 173)"
  "huffman_bits ! 201 = (ToState 174, ToState 175)"
  "huffman_bits ! 202 = (ToState 176, ToState 177)"
  "huffman_bits ! 203 = (ToState 178, ToState 179)"
  "huffman_bits ! 204 = (ToState 180, ToState 181)"
  "huffman_bits ! 205 = (ToState 254, ToState 255)"
  "huffman_bits ! 206 = (ToSym 2, ToSym 3)"
  "huffman_bits ! 207 = (ToSym 4, ToSym 5)"
  "huffman_bits ! 208 = (ToSym 6, ToSym 7)"
  "huffman_bits ! 209 = (ToSym 8, ToSym 11)"
  "huffman_bits ! 210 = (ToSym 12, ToSym 14)"
  "huffman_bits ! 211 = (ToSym 15, ToSym 16)"
  "huffman_bits ! 212 = (ToSym 17, ToSym 18)"
  "huffman_bits ! 213 = (ToSym 19, ToSym 20)"
  "huffman_bits ! 214 = (ToSym 21, ToSym 23)"
  "huffman_bits ! 215 = (ToSym 24, ToSym 25)"
  "huffman_bits ! 216 = (ToSym 26, ToSym 27)"
  "huffman_bits ! 217 = (ToSym 28, ToSym 29)"
  "huffman_bits ! 218 = (ToSym 30, ToSym 31)"
  "huffman_bits ! 219 = (ToSym 127, ToSym 220)"
  "huffman_bits ! 220 = (ToSym 249, ToState 205)"
  "huffman_bits ! 221 = (ToSym 203, ToSym 204)"
  "huffman_bits ! 222 = (ToSym 211, ToSym 212)"
  "huffman_bits ! 223 = (ToSym 214, ToSym 221)"
  "huffman_bits ! 224 = (ToSym 222, ToSym 223)"
  "huffman_bits ! 225 = (ToSym 241, ToSym 244)"
  "huffman_bits ! 226 = (ToSym 245, ToSym 246)"
  "huffman_bits ! 227 = (ToSym 247, ToSym 248)"
  "huffman_bits ! 228 = (ToSym 250, ToSym 251)"
  "huffman_bits ! 229 = (ToSym 252, ToSym 253)"
  "huffman_bits ! 230 = (ToSym 254, ToState 206)"
  "huffman_bits ! 231 = (ToState 207, ToState 208)"
  "huffman_bits ! 232 = (ToState 209, ToState 210)"
  "huffman_bits ! 233 = (ToState 211, ToState 212)"
  "huffman_bits ! 234 = (ToState 213, ToState 214)"
  "huffman_bits ! 235 = (ToState 215, ToState 216)"
  "huffman_bits ! 236 = (ToState 217, ToState 218)"
  "huffman_bits ! 237 = (ToState 219, ToState 220)"
  "huffman_bits ! 238 = (ToSym 192, ToSym 193)"
  "huffman_bits ! 239 = (ToSym 200, ToSym 201)"
  "huffman_bits ! 240 = (ToSym 202, ToSym 205)"
  "huffman_bits ! 241 = (ToSym 210, ToSym 213)"
  "huffman_bits ! 242 = (ToSym 218, ToSym 219)"
  "huffman_bits ! 243 = (ToSym 238, ToSym 240)"
  "huffman_bits ! 244 = (ToSym 242, ToSym 243)"
  "huffman_bits ! 245 = (ToSym 255, ToState 221)"
  "huffman_bits ! 246 = (ToState 222, ToState 223)"
  "huffman_bits ! 247 = (ToState 224, ToState 225)"
  "huffman_bits ! 248 = (ToState 226, ToState 227)"
  "huffman_bits ! 249 = (ToState 228, ToState 229)"
  "huffman_bits ! 250 = (ToState 230, ToState 231)"
  "huffman_bits ! 251 = (ToState 232, ToState 233)"
  "huffman_bits ! 252 = (ToState 234, ToState 235)"
  "huffman_bits ! 253 = (ToState 236, ToState 237)"
  "huffman_bits ! 254 = (ToSym 10, ToSym 13)"
  "huffman_bits ! 255 = (ToSym 22, ToEos)"
  by (simp_all add: huffman_bits_def)

lemmas huffman_bits_at = huffman_bits_at_0 huffman_bits_at_1 huffman_bits_at_2 huffman_bits_at_3

lemma state_codes_at_0:
  "state_codes ! 0 = (0, 0)"
  "state_codes ! Suc 0 = (0, 4)"
  "state_codes ! 2 = (1, 4)"
  "state_codes ! 3 = (2, 4)"
  "state_codes ! 4 = (3, 4)"
  "state_codes ! 5 = (4, 4)"
  "state_codes ! 6 = (5, 4)"
  "state_codes ! 7 = (6, 4)"
  "state_codes ! 8 = (7, 4)"
  "state_codes ! 9 = (8, 4)"
  "state_codes ! 10 = (9, 4)"
  "state_codes ! 11 = (10, 4)"
  "state_codes ! 12 = (11, 4)"
  "state_codes ! 13 = (12, 4)"
  "state_codes ! 14 = (13, 4)"
  "state_codes ! 15 = (14, 4)"
  "state_codes ! 16 = (15, 4)"
  "state_codes ! 17 = (0, 3)"
  "state_codes ! 18 = (1, 3)"
  "state_codes ! 19 = (2, 3)"
  "state_codes ! 20 = (3, 3)"
  "state_codes ! 21 = (4, 3)"
  "state_codes ! 22 = (5, 3)"
  "state_codes ! 23 = (6, 3)"
  "state_codes ! 24 = (7, 3)"
  "state_codes ! 25 = (0, 2)"
  "state_codes ! 26 = (1, 2)"
  "state_codes ! 27 = (2, 2)"
  "state_codes ! 28 = (3, 2)"
  "state_codes ! 29 = (0, 1)"
  "state_codes ! 30 = (1, 1)"
  "state_codes ! 31 = (254, 8)"
  "state_codes ! 32 = (255, 8)"
  "state_codes ! 33 = (124, 7)"
  "state_codes ! 34 = (125, 7)"
  "state_codes ! 35 = (126, 7)"
  "state_codes ! 36 = (127, 7)"
  "state_codes ! 37 = (46, 6)"
  "state_codes ! 38 = (47, 6)"
  "state_codes ! 39 = (48, 6)"
  "state_codes ! 40 = (49, 6)"
  "state_codes ! 41 = (50, 6)"
  "state_codes ! 42 = (51, 6)"
  "state_codes ! 43 = (52, 6)"
  "state_codes ! 44 = (53, 6)"
  "state_codes ! 45 = (54, 6)"
  "state_codes ! 46 = (55, 6)"
  "state_codes ! 47 = (56, 6)"
  "state_codes ! 48 = (57, 6)"
  "state_codes ! 49 = (58, 6)"
  "state_codes ! 50 = (59, 6)"
  "state_codes ! 51 = (60, 6)"
  "state_codes ! 52 = (61, 6)"
  "state_codes ! 53 = (62, 6)"
  "state_codes ! 54 = (63, 6)"
  "state_codes ! 55 = (10, 5)"
  "state_codes ! 56 = (11, 5)"
  "state_codes ! 57 = (12, 5)"
  "state_codes ! 58 = (13, 5)"
  "state_codes ! 59 = (14, 5)"
  "state_codes ! 60 = (15, 5)"
  "state_codes ! 61 = (16, 5)"
  "state_codes ! 62 = (17, 5)"
  "state_codes ! 63 = (18, 5)"
  by (simp_all add: state_codes_def)

lemma state_codes_at_1:
  "state_codes ! 64 = (19, 5)"
  "state_codes ! 65 = (20, 5)"
  "state_codes ! 66 = (21, 5)"
  "state_codes ! 67 = (22, 5)"
  "state_codes ! 68 = (23, 5)"
  "state_codes ! 69 = (24, 5)"
  "state_codes ! 70 = (25, 5)"
  "state_codes ! 71 = (26, 5)"
  "state_codes ! 72 = (27, 5)"
  "state_codes ! 73 = (28, 5)"
  "state_codes ! 74 = (29, 5)"
  "state_codes ! 75 = (30, 5)"
  "state_codes ! 76 = (31, 5)"
  "state_codes ! 77 = (4092, 12)"
  "state_codes ! 78 = (4093, 12)"
  "state_codes ! 79 = (4094, 12)"
  "state_codes ! 80 = (4095, 12)"
  "state_codes ! 81 = (2045, 11)"
  "state_codes ! 82 = (2046, 11)"
  "state_codes ! 83 = (2047, 11)"
  "state_codes ! 84 = (1021, 10)"
  "state_codes ! 85 = (1022, 10)"
  "state_codes ! 86 = (1023, 10)"
  "state_codes ! 87 = (508, 9)"
  "state_codes ! 88 = (509, 9)"
  "state_codes ! 89 = (510, 9)"
  "state_codes ! 90 = (511, 9)"
  "state_codes ! 91 = (65534, 16)"
  "state_codes ! 92 = (65535, 16)"
  "state_codes ! 93 = (32767, 15)"
  "state_codes ! 94 = (16382, 14)"
  "state_codes ! 95 = (16383, 14)"
  "state_codes ! 96 = (8190, 13)"
  "state_codes ! 97 = (8191, 13)"
  "state_codes ! 98 = (1048558, 20)"
  "state_codes ! 99 = (1048559, 20)"
  "state_codes ! 100 = (1048560, 20)"
  "state_codes ! 101 = (1048561, 20)"
  "state_codes ! 102 = (1048562, 20)"
  "state_codes ! 103 = (1048563, 20)"
  "state_codes ! 104 = (1048564, 20)"
  "state_codes ! 105 = (1048565, 20)"
  "state_codes ! 106 = (1048566, 20)"
  "state_codes ! 107 = (1048567, 20)"
  "state_codes ! 108 = (1048568, 20)"
  "state_codes ! 109 = (1048569, 20)"
  "state_codes ! 110 = (1048570, 20)"
  "state_codes ! 111 = (1048571, 20)"
  "state_codes ! 112 = (1048572, 20)"
  "state_codes ! 113 = (1048573, 20)"
  "state_codes ! 114 = (1048574, 20)"
  "state_codes ! 115 = (1048575, 20)"
  "state_codes ! 116 = (524275, 19)"
  "state_codes ! 117 = (524276, 19)"
  "state_codes ! 118 = (524277, 19)"
  "state_codes ! 119 = (524278, 19)"
  "state_codes ! 120 = (524279, 19)"
  "state_codes ! 121 = (524280, 19)"
  "state_codes ! 122 = (524281, 19)"
  "state_codes ! 123 = (524282, 19)"
  "state_codes ! 124 = (524283, 19)"
  "state_codes ! 125 = (524284, 19)"
  "state_codes ! 126 = (524285, 19)"
  "state_codes ! 127 = (524286, 19)"
  by (simp_all add: state_codes_def)

lemma state_codes_at_2:
  "state_codes ! 128 = (524287, 19)"
  "state_codes ! 129 = (262136, 18)"
  "state_codes ! 130 = (262137, 18)"
  "state_codes ! 131 = (262138, 18)"
  "state_codes ! 132 = (262139, 18)"
  "state_codes ! 133 = (262140, 18)"
  "state_codes ! 134 = (262141, 18)"
  "state_codes ! 135 = (262142, 18)"
  "state_codes ! 136 = (262143, 18)"
  "state_codes ! 137 = (131068, 17)"
  "state_codes ! 138 = (131069, 17)"
  "state_codes ! 139 = (131070, 17)"
  "state_codes ! 140 = (131071, 17)"
  "state_codes ! 141 = (16777206, 24)"
  "state_codes ! 142 = (16777207, 24)"
  "state_codes ! 143 = (16777208, 24)"
  "state_codes ! 144 = (16777209, 24)"
  "state_codes ! 145 = (16777210, 24)"
  "state_codes ! 146 = (16777211, 24)"
  "state_codes ! 147 = (16777212, 24)"
  "state_codes ! 148 = (16777213, 24)"
  "state_codes ! 149 = (16777214, 24)"
  "state_codes ! 150 = (16777215, 24)"
  "state_codes ! 151 = (8388597, 23)"
  "state_codes ! 152 = (8388598, 23)"
  "state_codes ! 153 = (8388599, 23)"
  "state_codes ! 154 = (8388600, 23)"
  "state_codes ! 155 = (8388601, 23)"
  "state_codes ! 156 = (8388602, 23)"
  "state_codes ! 157 = (8388603, 23)"
  "state_codes ! 158 = (8388604, 23)"
  "state_codes ! 159 = (8388605, 23)"
  "state_codes ! 160 = (8388606, 23)"
  "state_codes ! 161 = (8388607, 23)"
  "state_codes ! 162 = (4194284, 22)"
  "state_codes ! 163 = (4194285, 22)"
  "state_codes ! 164 = (4194286, 22)"
  "state_codes ! 165 = (4194287, 22)"
  "state_codes ! 166 = (4194288, 22)"
  "state_codes ! 167 = (4194289, 22)"
  "state_codes ! 168 = (4194290, 22)"
  "state_codes ! 169 = (4194291, 22)"
  "state_codes ! 170 = (4194292, 22)"
  "state_codes ! 171 = (4194293, 22)"
  "state_codes ! 172 = (4194294, 22)"
  "state_codes ! 173 = (4194295, 22)"
  "state_codes ! 174 = (4194296, 22)"
  "state_codes ! 175 = (4194297, 22)"
  "state_codes ! 176 = (4194298, 22)"
  "state_codes ! 177 = (4194299, 22)"
  "state_codes ! 178 = (4194300, 22)"
  "state_codes ! 179 = (4194301, 22)"
  "state_codes ! 180 = (4194302, 22)"
  "state_codes ! 181 = (4194303, 22)"
  "state_codes ! 182 = (2097129, 21)"
  "state_codes ! 183 = (2097130, 21)"
  "state_codes ! 184 = (2097131, 21)"
  "state_codes ! 185 = (2097132, 21)"
  "state_codes ! 186 = (2097133, 21)"
  "state_codes ! 187 = (2097134, 21)"
  "state_codes ! 188 = (2097135, 21)"
  "state_codes ! 189 = (2097136, 21)"
  "state_codes ! 190 = (2097137, 21)"
  "state_codes ! 191 = (2097138, 21)"
  by (simp_all add: state_codes_def)

lemma state_codes_at_3:
  "state_codes ! 192 = (2097139, 21)"
  "state_codes ! 193 = (2097140, 21)"
  "state_codes ! 194 = (2097141, 21)"
  "state_codes ! 195 = (2097142, 21)"
  "state_codes ! 196 = (2097143, 21)"
  "state_codes ! 197 = (2097144, 21)"
  "state_codes ! 198 = (2097145, 21)"
  "state_codes ! 199 = (2097146, 21)"
  "state_codes ! 200 = (2097147, 21)"
  "state_codes ! 201 = (2097148, 21)"
  "state_codes ! 202 = (2097149, 21)"
  "state_codes ! 203 = (2097150, 21)"
  "state_codes ! 204 = (2097151, 21)"
  "state_codes ! 205 = (268435455, 28)"
  "state_codes ! 206 = (134217713, 27)"
  "state_codes ! 207 = (134217714, 27)"
  "state_codes ! 208 = (134217715, 27)"
  "state_codes ! 209 = (134217716, 27)"
  "state_codes ! 210 = (134217717, 27)"
  "state_codes ! 211 = (134217718, 27)"
  "state_codes ! 212 = (134217719, 27)"
  "state_codes ! 213 = (134217720, 27)"
  "state_codes ! 214 = (134217721, 27)"
  "state_codes ! 215 = (134217722, 27)"
  "state_codes ! 216 = (134217723, 27)"
  "state_codes ! 217 = (134217724, 27)"
  "state_codes ! 218 = (134217725, 27)"
  "state_codes ! 219 = (134217726, 27)"
  "state_codes ! 220 = (134217727, 27)"
  "state_codes ! 221 = (67108847, 26)"
  "state_codes ! 222 = (67108848, 26)"
  "state_codes ! 223 = (67108849, 26)"
  "state_codes ! 224 = (67108850, 26)"
  "state_codes ! 225 = (67108851, 26)"
  "state_codes ! 226 = (67108852, 26)"
  "state_codes ! 227 = (67108853, 26)"
  "state_codes ! 228 = (67108854, 26)"
  "state_codes ! 229 = (67108855, 26)"
  "state_codes ! 230 = (67108856, 26)"
  "state_codes ! 231 = (67108857, 26)"
  "state_codes ! 232 = (67108858, 26)"
  "state_codes ! 233 = (67108859, 26)"
  "state_codes ! 234 = (67108860, 26)"
  "state_codes ! 235 = (67108861, 26)"
  "state_codes ! 236 = (67108862, 26)"
  "state_codes ! 237 = (67108863, 26)"
  "state_codes ! 238 = (33554416, 25)"
  "state_codes ! 239 = (33554417, 25)"
  "state_codes ! 240 = (33554418, 25)"
  "state_codes ! 241 = (33554419, 25)"
  "state_codes ! 242 = (33554420, 25)"
  "state_codes ! 243 = (33554421, 25)"
  "state_codes ! 244 = (33554422, 25)"
  "state_codes ! 245 = (33554423, 25)"
  "state_codes ! 246 = (33554424, 25)"
  "state_codes ! 247 = (33554425, 25)"
  "state_codes ! 248 = (33554426, 25)"
  "state_codes ! 249 = (33554427, 25)"
  "state_codes ! 250 = (33554428, 25)"
  "state_codes ! 251 = (33554429, 25)"
  "state_codes ! 252 = (33554430, 25)"
  "state_codes ! 253 = (33554431, 25)"
  "state_codes ! 254 = (536870910, 29)"
  "state_codes ! 255 = (536870911, 29)"
  by (simp_all add: state_codes_def)

lemmas state_codes_at = state_codes_at_0 state_codes_at_1 state_codes_at_2 state_codes_at_3

lemma kHuffmanCodes_at_0:
  "kHuffmanCodes ! 0 = (0x1ff8, 13)"
  "kHuffmanCodes ! Suc 0 = (0x7fffd8, 23)"
  "kHuffmanCodes ! 2 = (0xfffffe2, 28)"
  "kHuffmanCodes ! 3 = (0xfffffe3, 28)"
  "kHuffmanCodes ! 4 = (0xfffffe4, 28)"
  "kHuffmanCodes ! 5 = (0xfffffe5, 28)"
  "kHuffmanCodes ! 6 = (0xfffffe6, 28)"
  "kHuffmanCodes ! 7 = (0xfffffe7, 28)"
  "kHuffmanCodes ! 8 = (0xfffffe8, 28)"
  "kHuffmanCodes ! 9 = (0xffffea, 24)"
  "kHuffmanCodes ! 10 = (0x3ffffffc, 30)"
  "kHuffmanCodes ! 11 = (0xfffffe9, 28)"
  "kHuffmanCodes ! 12 = (0xfffffea, 28)"
  "kHuffmanCodes ! 13 = (0x3ffffffd, 30)"
  "kHuffmanCodes ! 14 = (0xfffffeb, 28)"
  "kHuffmanCodes ! 15 = (0xfffffec, 28)"
  "kHuffmanCodes ! 16 = (0xfffffed, 28)"
  "kHuffmanCodes ! 17 = (0xfffffee, 28)"
  "kHuffmanCodes ! 18 = (0xfffffef, 28)"
  "kHuffmanCodes ! 19 = (0xffffff0, 28)"
  "kHuffmanCodes ! 20 = (0xffffff1, 28)"
  "kHuffmanCodes ! 21 = (0xffffff2, 28)"
  "kHuffmanCodes ! 22 = (0x3ffffffe, 30)"
  "kHuffmanCodes ! 23 = (0xffffff3, 28)"
  "kHuffmanCodes ! 24 = (0xffffff4, 28)"
  "kHuffmanCodes ! 25 = (0xffffff5, 28)"
  "kHuffmanCodes ! 26 = (0xffffff6, 28)"
  "kHuffmanCodes ! 27 = (0xffffff7, 28)"
  "kHuffmanCodes ! 28 = (0xffffff8, 28)"
  "kHuffmanCodes ! 29 = (0xffffff9, 28)"
  "kHuffmanCodes ! 30 = (0xffffffa, 28)"
  "kHuffmanCodes ! 31 = (0xffffffb, 28)"
  "kHuffmanCodes ! 32 = (0x14, 6)"
  "kHuffmanCodes ! 33 = (0x3f8, 10)"
  "kHuffmanCodes ! 34 = (0x3f9, 10)"
  "kHuffmanCodes ! 35 = (0xffa, 12)"
  "kHuffmanCodes ! 36 = (0x1ff9, 13)"
  "kHuffmanCodes ! 37 = (0x15, 6)"
  "kHuffmanCodes ! 38 = (0xf8, 8)"
  "kHuffmanCodes ! 39 = (0x7fa, 11)"
  "kHuffmanCodes ! 40 = (0x3fa, 10)"
  "kHuffmanCodes ! 41 = (0x3fb, 10)"
  "kHuffmanCodes ! 42 = (0xf9, 8)"
  "kHuffmanCodes ! 43 = (0x7fb, 11)"
  "kHuffmanCodes ! 44 = (0xfa, 8)"
  "kHuffmanCodes ! 45 = (0x16, 6)"
  "kHuffmanCodes ! 46 = (0x17, 6)"
  "kHuffmanCodes ! 47 = (0x18, 6)"
  "kHuffmanCodes ! 48 = (0x0, 5)"
  "kHuffmanCodes ! 49 = (0x1, 5)"
  "kHuffmanCodes ! 50 = (0x2, 5)"
  "kHuffmanCodes ! 51 = (0x19, 6)"
  "kHuffmanCodes ! 52 = (0x1a, 6)"
  "kHuffmanCodes ! 53 = (0x1b, 6)"
  "kHuffmanCodes ! 54 = (0x1c, 6)"
  "kHuffmanCodes ! 55 = (0x1d, 6)"
  "kHuffmanCodes ! 56 = (0x1e, 6)"
  "kHuffmanCodes ! 57 = (0x1f, 6)"
  "kHuffmanCodes ! 58 = (0x5c, 7)"
  "kHuffmanCodes ! 59 = (0xfb, 8)"
  "kHuffmanCodes ! 60 = (0x7ffc, 15)"
  "kHuffmanCodes ! 61 = (0x20, 6)"
  "kHuffmanCodes ! 62 = (0xffb, 12)"
  "kHuffmanCodes ! 63 = (0x3fc, 10)"
  by (simp_all add: kHuffmanCodes_def)

lemma kHuffmanCodes_at_1:
  "kHuffmanCodes ! 64 = (0x1ffa, 13)"
  "kHuffmanCodes ! 65 = (0x21, 6)"
  "kHuffmanCodes ! 66 = (0x5d, 7)"
  "kHuffmanCodes ! 67 = (0x5e, 7)"
  "kHuffmanCodes ! 68 = (0x5f, 7)"
  "kHuffmanCodes ! 69 = (0x60, 7)"
  "kHuffmanCodes ! 70 = (0x61, 7)"
  "kHuffmanCodes ! 71 = (0x62, 7)"
  "kHuffmanCodes ! 72 = (0x63, 7)"
  "kHuffmanCodes ! 73 = (0x64, 7)"
  "kHuffmanCodes ! 74 = (0x65, 7)"
  "kHuffmanCodes ! 75 = (0x66, 7)"
  "kHuffmanCodes ! 76 = (0x67, 7)"
  "kHuffmanCodes ! 77 = (0x68, 7)"
  "kHuffmanCodes ! 78 = (0x69, 7)"
  "kHuffmanCodes ! 79 = (0x6a, 7)"
  "kHuffmanCodes ! 80 = (0x6b, 7)"
  "kHuffmanCodes ! 81 = (0x6c, 7)"
  "kHuffmanCodes ! 82 = (0x6d, 7)"
  "kHuffmanCodes ! 83 = (0x6e, 7)"
  "kHuffmanCodes ! 84 = (0x6f, 7)"
  "kHuffmanCodes ! 85 = (0x70, 7)"
  "kHuffmanCodes ! 86 = (0x71, 7)"
  "kHuffmanCodes ! 87 = (0x72, 7)"
  "kHuffmanCodes ! 88 = (0xfc, 8)"
  "kHuffmanCodes ! 89 = (0x73, 7)"
  "kHuffmanCodes ! 90 = (0xfd, 8)"
  "kHuffmanCodes ! 91 = (0x1ffb, 13)"
  "kHuffmanCodes ! 92 = (0x7fff0, 19)"
  "kHuffmanCodes ! 93 = (0x1ffc, 13)"
  "kHuffmanCodes ! 94 = (0x3ffc, 14)"
  "kHuffmanCodes ! 95 = (0x22, 6)"
  "kHuffmanCodes ! 96 = (0x7ffd, 15)"
  "kHuffmanCodes ! 97 = (0x3, 5)"
  "kHuffmanCodes ! 98 = (0x23, 6)"
  "kHuffmanCodes ! 99 = (0x4, 5)"
  "kHuffmanCodes ! 100 = (0x24, 6)"
  "kHuffmanCodes ! 101 = (0x5, 5)"
  "kHuffmanCodes ! 102 = (0x25, 6)"
  "kHuffmanCodes ! 103 = (0x26, 6)"
  "kHuffmanCodes ! 104 = (0x27, 6)"
  "kHuffmanCodes ! 105 = (0x6, 5)"
  "kHuffmanCodes ! 106 = (0x74, 7)"
  "kHuffmanCodes ! 107 = (0x75, 7)"
  "kHuffmanCodes ! 108 = (0x28, 6)"
  "kHuffmanCodes ! 109 = (0x29, 6)"
  "kHuffmanCodes ! 110 = (0x2a, 6)"
  "kHuffmanCodes ! 111 = (0x7, 5)"
  "kHuffmanCodes ! 112 = (0x2b, 6)"
  "kHuffmanCodes ! 113 = (0x76, 7)"
  "kHuffmanCodes ! 114 = (0x2c, 6)"
  "kHuffmanCodes ! 115 = (0x8, 5)"
  "kHuffmanCodes ! 116 = (0x9, 5)"
  "kHuffmanCodes ! 117 = (0x2d, 6)"
  "kHuffmanCodes ! 118 = (0x77, 7)"
  "kHuffmanCodes ! 119 = (0x78, 7)"
  "kHuffmanCodes ! 120 = (0x79, 7)"
  "kHuffmanCodes ! 121 = (0x7a, 7)"
  "kHuffmanCodes ! 122 = (0x7b, 7)"
  "kHuffmanCodes ! 123 = (0x7ffe, 15)"
  "kHuffmanCodes ! 124 = (0x7fc, 11)"
  "kHuffmanCodes ! 125 = (0x3ffd, 14)"
  "kHuffmanCodes ! 126 = (0x1ffd, 13)"
  "kHuffmanCodes ! 127 = (0xffffffc, 28)"
  by (simp_all add: kHuffmanCodes_def)

lemma kHuffmanCodes_at_2:
  "kHuffmanCodes ! 128 = (0xfffe6, 20)"
  "kHuffmanCodes ! 129 = (0x3fffd2, 22)"
  "kHuffmanCodes ! 130 = (0xfffe7, 20)"
  "kHuffmanCodes ! 131 = (0xfffe8, 20)"
  "kHuffmanCodes ! 132 = (0x3fffd3, 22)"
  "kHuffmanCodes ! 133 = (0x3fffd4, 22)"
  "kHuffmanCodes ! 134 = (0x3fffd5, 22)"
  "kHuffmanCodes ! 135 = (0x7fffd9, 23)"
  "kHuffmanCodes ! 136 = (0x3fffd6, 22)"
  "kHuffmanCodes ! 137 = (0x7fffda, 23)"
  "kHuffmanCodes ! 138 = (0x7fffdb, 23)"
  "kHuffmanCodes ! 139 = (0x7fffdc, 23)"
  "kHuffmanCodes ! 140 = (0x7fffdd, 23)"
  "kHuffmanCodes ! 141 = (0x7fffde, 23)"
  "kHuffmanCodes ! 142 = (0xffffeb, 24)"
  "kHuffmanCodes ! 143 = (0x7fffdf, 23)"
  "kHuffmanCodes ! 144 = (0xffffec, 24)"
  "kHuffmanCodes ! 145 = (0xffffed, 24)"
  "kHuffmanCodes ! 146 = (0x3fffd7, 22)"
  "kHuffmanCodes ! 147 = (0x7fffe0, 23)"
  "kHuffmanCodes ! 148 = (0xffffee, 24)"
  "kHuffmanCodes ! 149 = (0x7fffe1, 23)"
  "kHuffmanCodes ! 150 = (0x7fffe2, 23)"
  "kHuffmanCodes ! 151 = (0x7fffe3, 23)"
  "kHuffmanCodes ! 152 = (0x7fffe4, 23)"
  "kHuffmanCodes ! 153 = (0x1fffdc, 21)"
  "kHuffmanCodes ! 154 = (0x3fffd8, 22)"
  "kHuffmanCodes ! 155 = (0x7fffe5, 23)"
  "kHuffmanCodes ! 156 = (0x3fffd9, 22)"
  "kHuffmanCodes ! 157 = (0x7fffe6, 23)"
  "kHuffmanCodes ! 158 = (0x7fffe7, 23)"
  "kHuffmanCodes ! 159 = (0xffffef, 24)"
  "kHuffmanCodes ! 160 = (0x3fffda, 22)"
  "kHuffmanCodes ! 161 = (0x1fffdd, 21)"
  "kHuffmanCodes ! 162 = (0xfffe9, 20)"
  "kHuffmanCodes ! 163 = (0x3fffdb, 22)"
  "kHuffmanCodes ! 164 = (0x3fffdc, 22)"
  "kHuffmanCodes ! 165 = (0x7fffe8, 23)"
  "kHuffmanCodes ! 166 = (0x7fffe9, 23)"
  "kHuffmanCodes ! 167 = (0x1fffde, 21)"
  "kHuffmanCodes ! 168 = (0x7fffea, 23)"
  "kHuffmanCodes ! 169 = (0x3fffdd, 22)"
  "kHuffmanCodes ! 170 = (0x3fffde, 22)"
  "kHuffmanCodes ! 171 = (0xfffff0, 24)"
  "kHuffmanCodes ! 172 = (0x1fffdf, 21)"
  "kHuffmanCodes ! 173 = (0x3fffdf, 22)"
  "kHuffmanCodes ! 174 = (0x7fffeb, 23)"
  "kHuffmanCodes ! 175 = (0x7fffec, 23)"
  "kHuffmanCodes ! 176 = (0x1fffe0, 21)"
  "kHuffmanCodes ! 177 = (0x1fffe1, 21)"
  "kHuffmanCodes ! 178 = (0x3fffe0, 22)"
  "kHuffmanCodes ! 179 = (0x1fffe2, 21)"
  "kHuffmanCodes ! 180 = (0x7fffed, 23)"
  "kHuffmanCodes ! 181 = (0x3fffe1, 22)"
  "kHuffmanCodes ! 182 = (0x7fffee, 23)"
  "kHuffmanCodes ! 183 = (0x7fffef, 23)"
  "kHuffmanCodes ! 184 = (0xfffea, 20)"
  "kHuffmanCodes ! 185 = (0x3fffe2, 22)"
  "kHuffmanCodes ! 186 = (0x3fffe3, 22)"
  "kHuffmanCodes ! 187 = (0x3fffe4, 22)"
  "kHuffmanCodes ! 188 = (0x7ffff0, 23)"
  "kHuffmanCodes ! 189 = (0x3fffe5, 22)"
  "kHuffmanCodes ! 190 = (0x3fffe6, 22)"
  "kHuffmanCodes ! 191 = (0x7ffff1, 23)"
  by (simp_all add: kHuffmanCodes_def)

lemma kHuffmanCodes_at_3:
  "kHuffmanCodes ! 192 = (0x3ffffe0, 26)"
  "kHuffmanCodes ! 193 = (0x3ffffe1, 26)"
  "kHuffmanCodes ! 194 = (0xfffeb, 20)"
  "kHuffmanCodes ! 195 = (0x7fff1, 19)"
  "kHuffmanCodes ! 196 = (0x3fffe7, 22)"
  "kHuffmanCodes ! 197 = (0x7ffff2, 23)"
  "kHuffmanCodes ! 198 = (0x3fffe8, 22)"
  "kHuffmanCodes ! 199 = (0x1ffffec, 25)"
  "kHuffmanCodes ! 200 = (0x3ffffe2, 26)"
  "kHuffmanCodes ! 201 = (0x3ffffe3, 26)"
  "kHuffmanCodes ! 202 = (0x3ffffe4, 26)"
  "kHuffmanCodes ! 203 = (0x7ffffde, 27)"
  "kHuffmanCodes ! 204 = (0x7ffffdf, 27)"
  "kHuffmanCodes ! 205 = (0x3ffffe5, 26)"
  "kHuffmanCodes ! 206 = (0xfffff1, 24)"
  "kHuffmanCodes ! 207 = (0x1ffffed, 25)"
  "kHuffmanCodes ! 208 = (0x7fff2, 19)"
  "kHuffmanCodes ! 209 = (0x1fffe3, 21)"
  "kHuffmanCodes ! 210 = (0x3ffffe6, 26)"
  "kHuffmanCodes ! 211 = (0x7ffffe0, 27)"
  "kHuffmanCodes ! 212 = (0x7ffffe1, 27)"
  "kHuffmanCodes ! 213 = (0x3ffffe7, 26)"
  "kHuffmanCodes ! 214 = (0x7ffffe2, 27)"
  "kHuffmanCodes ! 215 = (0xfffff2, 24)"
  "kHuffmanCodes ! 216 = (0x1fffe4, 21)"
  "kHuffmanCodes ! 217 = (0x1fffe5, 21)"
  "kHuffmanCodes ! 218 = (0x3ffffe8, 26)"
  "kHuffmanCodes ! 219 = (0x3ffffe9, 26)"
  "kHuffmanCodes ! 220 = (0xffffffd, 28)"
  "kHuffmanCodes ! 221 = (0x7ffffe3, 27)"
  "kHuffmanCodes ! 222 = (0x7ffffe4, 27)"
  "kHuffmanCodes ! 223 = (0x7ffffe5, 27)"
  "kHuffmanCodes ! 224 = (0xfffec, 20)"
  "kHuffmanCodes ! 225 = (0xfffff3, 24)"
  "kHuffmanCodes ! 226 = (0xfffed, 20)"
  "kHuffmanCodes ! 227 = (0x1fffe6, 21)"
  "kHuffmanCodes ! 228 = (0x3fffe9, 22)"
  "kHuffmanCodes ! 229 = (0x1fffe7, 21)"
  "kHuffmanCodes ! 230 = (0x1fffe8, 21)"
  "kHuffmanCodes ! 231 = (0x7ffff3, 23)"
  "kHuffmanCodes ! 232 = (0x3fffea, 22)"
  "kHuffmanCodes ! 233 = (0x3fffeb, 22)"
  "kHuffmanCodes ! 234 = (0x1ffffee, 25)"
  "kHuffmanCodes ! 235 = (0x1ffffef, 25)"
  "kHuffmanCodes ! 236 = (0xfffff4, 24)"
  "kHuffmanCodes ! 237 = (0xfffff5, 24)"
  "kHuffmanCodes ! 238 = (0x3ffffea, 26)"
  "kHuffmanCodes ! 239 = (0x7ffff4, 23)"
  "kHuffmanCodes ! 240 = (0x3ffffeb, 26)"
  "kHuffmanCodes ! 241 = (0x7ffffe6, 27)"
  "kHuffmanCodes ! 242 = (0x3ffffec, 26)"
  "kHuffmanCodes ! 243 = (0x3ffffed, 26)"
  "kHuffmanCodes ! 244 = (0x7ffffe7, 27)"
  "kHuffmanCodes ! 245 = (0x7ffffe8, 27)"
  "kHuffmanCodes ! 246 = (0x7ffffe9, 27)"
  "kHuffmanCodes ! 247 = (0x7ffffea, 27)"
  "kHuffmanCodes ! 248 = (0x7ffffeb, 27)"
  "kHuffmanCodes ! 249 = (0xffffffe, 28)"
  "kHuffmanCodes ! 250 = (0x7ffffec, 27)"
  "kHuffmanCodes ! 251 = (0x7ffffed, 27)"
  "kHuffmanCodes ! 252 = (0x7ffffee, 27)"
  "kHuffmanCodes ! 253 = (0x7ffffef, 27)"
  "kHuffmanCodes ! 254 = (0x7fffff0, 27)"
  "kHuffmanCodes ! 255 = (0x3ffffee, 26)"
  by (simp_all add: kHuffmanCodes_def)

lemmas kHuffmanCodes_at = kHuffmanCodes_at_0 kHuffmanCodes_at_1 kHuffmanCodes_at_2 kHuffmanCodes_at_3

section \<open>The bit-level automaton\<close>

definition bstep :: "nat \<Rightarrow> bool \<Rightarrow> htarget" where
  "bstep s b = (if b then snd (huffman_bits ! s) else fst (huffman_bits ! s))"

fun bwalk :: "nat \<Rightarrow> bool list \<Rightarrow> (nat list \<times> nat) option" where
  "bwalk s [] = Some ([], s)"
| "bwalk s (b # bs) = (case bstep s b of
     ToState q \<Rightarrow> bwalk q bs
   | ToSym c \<Rightarrow> (case bwalk 0 bs of None \<Rightarrow> None | Some (cs, q) \<Rightarrow> Some (c # cs, q))
   | ToEos \<Rightarrow> None)"

section \<open>Evaluations\<close>

text \<open>Every edge extends the path of its source by its bit.\<close>

definition edge_ok :: "nat \<Rightarrow> bool \<Rightarrow> bool" where
  "edge_ok s b = (case state_codes ! s of (v, n) \<Rightarrow>
     case bstep s b of
       ToState q \<Rightarrow> q < 256 \<and> state_codes ! q = (2 * v + of_bool b, Suc n)
     | ToSym c \<Rightarrow> c < 256 \<and> kHuffmanCodes ! c = (of_nat (2 * v + of_bool b), Suc n)
     | ToEos \<Rightarrow> True)"

lemma edges_ok_0: "list_all (\<lambda>s. edge_ok s False \<and> edge_ok s True) [0, 1, 2, 3, 4, 5, 6, 7, 8, 9, 10, 11, 12, 13, 14, 15, 16, 17, 18, 19, 20, 21, 22, 23, 24, 25, 26, 27, 28, 29, 30, 31]"
  by (simp add: edge_ok_def bstep_def huffman_bits_at state_codes_at kHuffmanCodes_at)

lemma edges_ok_1: "list_all (\<lambda>s. edge_ok s False \<and> edge_ok s True) [32, 33, 34, 35, 36, 37, 38, 39, 40, 41, 42, 43, 44, 45, 46, 47, 48, 49, 50, 51, 52, 53, 54, 55, 56, 57, 58, 59, 60, 61, 62, 63]"
  by (simp add: edge_ok_def bstep_def huffman_bits_at state_codes_at kHuffmanCodes_at)

lemma edges_ok_2: "list_all (\<lambda>s. edge_ok s False \<and> edge_ok s True) [64, 65, 66, 67, 68, 69, 70, 71, 72, 73, 74, 75, 76, 77, 78, 79, 80, 81, 82, 83, 84, 85, 86, 87, 88, 89, 90, 91, 92, 93, 94, 95]"
  by (simp add: edge_ok_def bstep_def huffman_bits_at state_codes_at kHuffmanCodes_at)

lemma edges_ok_3: "list_all (\<lambda>s. edge_ok s False \<and> edge_ok s True) [96, 97, 98, 99, 100, 101, 102, 103, 104, 105, 106, 107, 108, 109, 110, 111, 112, 113, 114, 115, 116, 117, 118, 119, 120, 121, 122, 123, 124, 125, 126, 127]"
  by (simp add: edge_ok_def bstep_def huffman_bits_at state_codes_at kHuffmanCodes_at)

lemma edges_ok_4: "list_all (\<lambda>s. edge_ok s False \<and> edge_ok s True) [128, 129, 130, 131, 132, 133, 134, 135, 136, 137, 138, 139, 140, 141, 142, 143, 144, 145, 146, 147, 148, 149, 150, 151, 152, 153, 154, 155, 156, 157, 158, 159]"
  by (simp add: edge_ok_def bstep_def huffman_bits_at state_codes_at kHuffmanCodes_at)

lemma edges_ok_5: "list_all (\<lambda>s. edge_ok s False \<and> edge_ok s True) [160, 161, 162, 163, 164, 165, 166, 167, 168, 169, 170, 171, 172, 173, 174, 175, 176, 177, 178, 179, 180, 181, 182, 183, 184, 185, 186, 187, 188, 189, 190, 191]"
  by (simp add: edge_ok_def bstep_def huffman_bits_at state_codes_at kHuffmanCodes_at)

lemma edges_ok_6: "list_all (\<lambda>s. edge_ok s False \<and> edge_ok s True) [192, 193, 194, 195, 196, 197, 198, 199, 200, 201, 202, 203, 204, 205, 206, 207, 208, 209, 210, 211, 212, 213, 214, 215, 216, 217, 218, 219, 220, 221, 222, 223]"
  by (simp add: edge_ok_def bstep_def huffman_bits_at state_codes_at kHuffmanCodes_at)

lemma edges_ok_7: "list_all (\<lambda>s. edge_ok s False \<and> edge_ok s True) [224, 225, 226, 227, 228, 229, 230, 231, 232, 233, 234, 235, 236, 237, 238, 239, 240, 241, 242, 243, 244, 245, 246, 247, 248, 249, 250, 251, 252, 253, 254, 255]"
  by (simp add: edge_ok_def bstep_def huffman_bits_at state_codes_at kHuffmanCodes_at)

definition nibbles :: "bool list list" where
  "nibbles = [
    [False, False, False, False], [False, False, False, True],
    [False, False, True, False], [False, False, True, True],
    [False, True, False, False], [False, True, False, True],
    [False, True, True, False], [False, True, True, True],
    [True, False, False, False], [True, False, False, True],
    [True, False, True, False], [True, False, True, True],
    [True, True, False, False], [True, True, False, True],
    [True, True, True, False], [True, True, True, True]]"

fun entry_matches :: "(nat list \<times> nat) option \<Rightarrow> HuffmanDecodeEntry \<Rightarrow> bool" where
  "entry_matches None (s, fl, c) \<longleftrightarrow> fl = HUFFMAN_FAIL"
| "entry_matches (Some (cs, q)) (s, fl, c) \<longleftrightarrow>
     q = s \<and> (fl = HUFFMAN_NONE \<and> cs = [] \<or> fl = HUFFMAN_EMIT \<and> cs = [c])"

definition row_ok :: "nat \<Rightarrow> HuffmanDecodeEntry list \<Rightarrow> bool" where
  "row_ok s row = list_all2 (\<lambda>bs e. entry_matches (bwalk s bs) e) nibbles row"

lemma rows_ok_0: "list_all2 row_ok [0, 1, 2, 3, 4, 5, 6, 7] huffman_rows_0"
  by (simp add: row_ok_def nibbles_def huffman_rows_0_def bstep_def huffman_bits_at)

lemma rows_ok_1: "list_all2 row_ok [8, 9, 10, 11, 12, 13, 14, 15] huffman_rows_1"
  by (simp add: row_ok_def nibbles_def huffman_rows_1_def bstep_def huffman_bits_at)

lemma rows_ok_2: "list_all2 row_ok [16, 17, 18, 19, 20, 21, 22, 23] huffman_rows_2"
  by (simp add: row_ok_def nibbles_def huffman_rows_2_def bstep_def huffman_bits_at)

lemma rows_ok_3: "list_all2 row_ok [24, 25, 26, 27, 28, 29, 30, 31] huffman_rows_3"
  by (simp add: row_ok_def nibbles_def huffman_rows_3_def bstep_def huffman_bits_at)

lemma rows_ok_4: "list_all2 row_ok [32, 33, 34, 35, 36, 37, 38, 39] huffman_rows_4"
  by (simp add: row_ok_def nibbles_def huffman_rows_4_def bstep_def huffman_bits_at)

lemma rows_ok_5: "list_all2 row_ok [40, 41, 42, 43, 44, 45, 46, 47] huffman_rows_5"
  by (simp add: row_ok_def nibbles_def huffman_rows_5_def bstep_def huffman_bits_at)

lemma rows_ok_6: "list_all2 row_ok [48, 49, 50, 51, 52, 53, 54, 55] huffman_rows_6"
  by (simp add: row_ok_def nibbles_def huffman_rows_6_def bstep_def huffman_bits_at)

lemma rows_ok_7: "list_all2 row_ok [56, 57, 58, 59, 60, 61, 62, 63] huffman_rows_7"
  by (simp add: row_ok_def nibbles_def huffman_rows_7_def bstep_def huffman_bits_at)

lemma rows_ok_8: "list_all2 row_ok [64, 65, 66, 67, 68, 69, 70, 71] huffman_rows_8"
  by (simp add: row_ok_def nibbles_def huffman_rows_8_def bstep_def huffman_bits_at)

lemma rows_ok_9: "list_all2 row_ok [72, 73, 74, 75, 76, 77, 78, 79] huffman_rows_9"
  by (simp add: row_ok_def nibbles_def huffman_rows_9_def bstep_def huffman_bits_at)

lemma rows_ok_10: "list_all2 row_ok [80, 81, 82, 83, 84, 85, 86, 87] huffman_rows_10"
  by (simp add: row_ok_def nibbles_def huffman_rows_10_def bstep_def huffman_bits_at)

lemma rows_ok_11: "list_all2 row_ok [88, 89, 90, 91, 92, 93, 94, 95] huffman_rows_11"
  by (simp add: row_ok_def nibbles_def huffman_rows_11_def bstep_def huffman_bits_at)

lemma rows_ok_12: "list_all2 row_ok [96, 97, 98, 99, 100, 101, 102, 103] huffman_rows_12"
  by (simp add: row_ok_def nibbles_def huffman_rows_12_def bstep_def huffman_bits_at)

lemma rows_ok_13: "list_all2 row_ok [104, 105, 106, 107, 108, 109, 110, 111] huffman_rows_13"
  by (simp add: row_ok_def nibbles_def huffman_rows_13_def bstep_def huffman_bits_at)

lemma rows_ok_14: "list_all2 row_ok [112, 113, 114, 115, 116, 117, 118, 119] huffman_rows_14"
  by (simp add: row_ok_def nibbles_def huffman_rows_14_def bstep_def huffman_bits_at)

lemma rows_ok_15: "list_all2 row_ok [120, 121, 122, 123, 124, 125, 126, 127] huffman_rows_15"
  by (simp add: row_ok_def nibbles_def huffman_rows_15_def bstep_def huffman_bits_at)

lemma rows_ok_16: "list_all2 row_ok [128, 129, 130, 131, 132, 133, 134, 135] huffman_rows_16"
  by (simp add: row_ok_def nibbles_def huffman_rows_16_def bstep_def huffman_bits_at)

lemma rows_ok_17: "list_all2 row_ok [136, 137, 138, 139, 140, 141, 142, 143] huffman_rows_17"
  by (simp add: row_ok_def nibbles_def huffman_rows_17_def bstep_def huffman_bits_at)

lemma rows_ok_18: "list_all2 row_ok [144, 145, 146, 147, 148, 149, 150, 151] huffman_rows_18"
  by (simp add: row_ok_def nibbles_def huffman_rows_18_def bstep_def huffman_bits_at)

lemma rows_ok_19: "list_all2 row_ok [152, 153, 154, 155, 156, 157, 158, 159] huffman_rows_19"
  by (simp add: row_ok_def nibbles_def huffman_rows_19_def bstep_def huffman_bits_at)

lemma rows_ok_20: "list_all2 row_ok [160, 161, 162, 163, 164, 165, 166, 167] huffman_rows_20"
  by (simp add: row_ok_def nibbles_def huffman_rows_20_def bstep_def huffman_bits_at)

lemma rows_ok_21: "list_all2 row_ok [168, 169, 170, 171, 172, 173, 174, 175] huffman_rows_21"
  by (simp add: row_ok_def nibbles_def huffman_rows_21_def bstep_def huffman_bits_at)

lemma rows_ok_22: "list_all2 row_ok [176, 177, 178, 179, 180, 181, 182, 183] huffman_rows_22"
  by (simp add: row_ok_def nibbles_def huffman_rows_22_def bstep_def huffman_bits_at)

lemma rows_ok_23: "list_all2 row_ok [184, 185, 186, 187, 188, 189, 190, 191] huffman_rows_23"
  by (simp add: row_ok_def nibbles_def huffman_rows_23_def bstep_def huffman_bits_at)

lemma rows_ok_24: "list_all2 row_ok [192, 193, 194, 195, 196, 197, 198, 199] huffman_rows_24"
  by (simp add: row_ok_def nibbles_def huffman_rows_24_def bstep_def huffman_bits_at)

lemma rows_ok_25: "list_all2 row_ok [200, 201, 202, 203, 204, 205, 206, 207] huffman_rows_25"
  by (simp add: row_ok_def nibbles_def huffman_rows_25_def bstep_def huffman_bits_at)

lemma rows_ok_26: "list_all2 row_ok [208, 209, 210, 211, 212, 213, 214, 215] huffman_rows_26"
  by (simp add: row_ok_def nibbles_def huffman_rows_26_def bstep_def huffman_bits_at)

lemma rows_ok_27: "list_all2 row_ok [216, 217, 218, 219, 220, 221, 222, 223] huffman_rows_27"
  by (simp add: row_ok_def nibbles_def huffman_rows_27_def bstep_def huffman_bits_at)

lemma rows_ok_28: "list_all2 row_ok [224, 225, 226, 227, 228, 229, 230, 231] huffman_rows_28"
  by (simp add: row_ok_def nibbles_def huffman_rows_28_def bstep_def huffman_bits_at)

lemma rows_ok_29: "list_all2 row_ok [232, 233, 234, 235, 236, 237, 238, 239] huffman_rows_29"
  by (simp add: row_ok_def nibbles_def huffman_rows_29_def bstep_def huffman_bits_at)

lemma rows_ok_30: "list_all2 row_ok [240, 241, 242, 243, 244, 245, 246, 247] huffman_rows_30"
  by (simp add: row_ok_def nibbles_def huffman_rows_30_def bstep_def huffman_bits_at)

lemma rows_ok_31: "list_all2 row_ok [248, 249, 250, 251, 252, 253, 254, 255] huffman_rows_31"
  by (simp add: row_ok_def nibbles_def huffman_rows_31_def bstep_def huffman_bits_at)

lemma accepting_states: "list_all2 (\<lambda>(v, n) a. a = (Suc v = 2 ^ n)) state_codes kHuffmanDecodeAccepting"
  by (simp add: state_codes_def kHuffmanDecodeAccepting_def)

lemma sym_parents_ok: "list_all (\<lambda>(c, p, b). p < 256 \<and> bstep p b = ToSym c) (enumerate 0 sym_parents)"
  by (simp add: sym_parents_def bstep_def huffman_bits_at)

lemma state_parents_ok: "list_all (\<lambda>(q, p, b). p < 256 \<and> bstep p b = ToState q) (enumerate 1 (tl state_parents))"
  by (simp add: state_parents_def bstep_def huffman_bits_at)

lemma states_by_32: "[0..<256] =
    [0, 1, 2, 3, 4, 5, 6, 7, 8, 9, 10, 11, 12, 13, 14, 15, 16, 17, 18, 19, 20, 21, 22, 23, 24, 25, 26, 27, 28, 29, 30, 31] @
    [32, 33, 34, 35, 36, 37, 38, 39, 40, 41, 42, 43, 44, 45, 46, 47, 48, 49, 50, 51, 52, 53, 54, 55, 56, 57, 58, 59, 60, 61, 62, 63] @
    [64, 65, 66, 67, 68, 69, 70, 71, 72, 73, 74, 75, 76, 77, 78, 79, 80, 81, 82, 83, 84, 85, 86, 87, 88, 89, 90, 91, 92, 93, 94, 95] @
    [96, 97, 98, 99, 100, 101, 102, 103, 104, 105, 106, 107, 108, 109, 110, 111, 112, 113, 114, 115, 116, 117, 118, 119, 120, 121, 122, 123, 124, 125, 126, 127] @
    [128, 129, 130, 131, 132, 133, 134, 135, 136, 137, 138, 139, 140, 141, 142, 143, 144, 145, 146, 147, 148, 149, 150, 151, 152, 153, 154, 155, 156, 157, 158, 159] @
    [160, 161, 162, 163, 164, 165, 166, 167, 168, 169, 170, 171, 172, 173, 174, 175, 176, 177, 178, 179, 180, 181, 182, 183, 184, 185, 186, 187, 188, 189, 190, 191] @
    [192, 193, 194, 195, 196, 197, 198, 199, 200, 201, 202, 203, 204, 205, 206, 207, 208, 209, 210, 211, 212, 213, 214, 215, 216, 217, 218, 219, 220, 221, 222, 223] @
    [224, 225, 226, 227, 228, 229, 230, 231, 232, 233, 234, 235, 236, 237, 238, 239, 240, 241, 242, 243, 244, 245, 246, 247, 248, 249, 250, 251, 252, 253, 254, 255]"
  by (simp add: upt_conv_Cons)

lemma states_by_8: "[0..<256] =
    [0, 1, 2, 3, 4, 5, 6, 7] @
    [8, 9, 10, 11, 12, 13, 14, 15] @
    [16, 17, 18, 19, 20, 21, 22, 23] @
    [24, 25, 26, 27, 28, 29, 30, 31] @
    [32, 33, 34, 35, 36, 37, 38, 39] @
    [40, 41, 42, 43, 44, 45, 46, 47] @
    [48, 49, 50, 51, 52, 53, 54, 55] @
    [56, 57, 58, 59, 60, 61, 62, 63] @
    [64, 65, 66, 67, 68, 69, 70, 71] @
    [72, 73, 74, 75, 76, 77, 78, 79] @
    [80, 81, 82, 83, 84, 85, 86, 87] @
    [88, 89, 90, 91, 92, 93, 94, 95] @
    [96, 97, 98, 99, 100, 101, 102, 103] @
    [104, 105, 106, 107, 108, 109, 110, 111] @
    [112, 113, 114, 115, 116, 117, 118, 119] @
    [120, 121, 122, 123, 124, 125, 126, 127] @
    [128, 129, 130, 131, 132, 133, 134, 135] @
    [136, 137, 138, 139, 140, 141, 142, 143] @
    [144, 145, 146, 147, 148, 149, 150, 151] @
    [152, 153, 154, 155, 156, 157, 158, 159] @
    [160, 161, 162, 163, 164, 165, 166, 167] @
    [168, 169, 170, 171, 172, 173, 174, 175] @
    [176, 177, 178, 179, 180, 181, 182, 183] @
    [184, 185, 186, 187, 188, 189, 190, 191] @
    [192, 193, 194, 195, 196, 197, 198, 199] @
    [200, 201, 202, 203, 204, 205, 206, 207] @
    [208, 209, 210, 211, 212, 213, 214, 215] @
    [216, 217, 218, 219, 220, 221, 222, 223] @
    [224, 225, 226, 227, 228, 229, 230, 231] @
    [232, 233, 234, 235, 236, 237, 238, 239] @
    [240, 241, 242, 243, 244, 245, 246, 247] @
    [248, 249, 250, 251, 252, 253, 254, 255]"
  by (simp add: upt_conv_Cons)

lemma edges_ok: "list_all (\<lambda>s. edge_ok s False \<and> edge_ok s True) [0..<256]"
  unfolding states_by_32 list_all_append
  by (intro conjI edges_ok_0 edges_ok_1 edges_ok_2 edges_ok_3 edges_ok_4 edges_ok_5 edges_ok_6 edges_ok_7)

lemma rows_ok: "list_all2 row_ok [0..<256] kHuffmanDecodeTable"
  unfolding states_by_8 kHuffmanDecodeTable_def
  by (intro list_all2_appendI rows_ok_0 rows_ok_1 rows_ok_2 rows_ok_3 rows_ok_4 rows_ok_5 rows_ok_6 rows_ok_7
      rows_ok_8 rows_ok_9 rows_ok_10 rows_ok_11 rows_ok_12 rows_ok_13 rows_ok_14 rows_ok_15
      rows_ok_16 rows_ok_17 rows_ok_18 rows_ok_19 rows_ok_20 rows_ok_21 rows_ok_22 rows_ok_23
      rows_ok_24 rows_ok_25 rows_ok_26 rows_ok_27 rows_ok_28 rows_ok_29 rows_ok_30 rows_ok_31)

end
