(* ===== verification/Hpack_Huffman.thy ===== *)
theory Hpack_Huffman
  imports Hpack_Huffman_Tree
begin

unbundle bit_operations_syntax

text \<open>
  \<open>HpackHuffman\<close> of \<^verbatim>\<open>galay-http2/protoc/http2_hpack.cc\<close>: \<open>encode\<close>,
  \<open>encodedLength\<close> and the table-driven \<open>decode\<close>. Both are related to plain bit lists: the encoder
  writes the concatenation of the code words and a padding of ones, the decoder runs the
  bit-level automaton of \<open>Hpack_Huffman_Tree\<close> four bits at a time.
\<close>

section \<open>Encoder and decoder\<close>

text \<open>The inner loop of \<open>encode\<close>: whole bytes out of the bit buffer, oldest bits first.\<close>

fun drain_bytes :: "u64 \<Rightarrow> nat \<Rightarrow> bytes \<Rightarrow> nat \<times> bytes" where
  "drain_bytes buffer bits out =
    (if bits \<ge> 8 then
       let bits' = bits - 8 in
       drain_bytes buffer bits' (out @ [ucast (drop_bit bits' buffer AND 0xFF)])
     else (bits, out))"

declare drain_bytes.simps [simp del]

fun huffman_encode_loop :: "bytes \<Rightarrow> u64 \<Rightarrow> nat \<Rightarrow> bytes \<Rightarrow> u64 \<times> nat \<times> bytes" where
  "huffman_encode_loop [] buffer bits out = (buffer, bits, out)"
| "huffman_encode_loop (c # input) buffer bits out =
    (let (code, n) = kHuffmanCodes ! unat c;
         buffer' = push_bit n buffer OR ucast code;
         (bits', out') = drain_bytes buffer' (bits + n) out
     in huffman_encode_loop input buffer' bits' out')"

definition huffman_encode :: "bytes \<Rightarrow> bytes" where
  "huffman_encode input =
    (let (buffer, bits, out) = huffman_encode_loop input 0 0 [] in
     if bits > 0 then
       let buffer' = push_bit (8 - bits) buffer OR drop_bit bits 0xFF
       in out @ [ucast (buffer' AND 0xFF)]
     else out)"

definition huffman_encodedLength :: "bytes \<Rightarrow> nat" where
  "huffman_encodedLength input = (sum_list (map (\<lambda>c. snd (kHuffmanCodes ! unat c)) input) + 7) div 8"

text \<open>One nibble of \<open>decode\<close>: the next state and the output, or the error.\<close>

definition huffman_nibble :: "nat \<Rightarrow> nat \<Rightarrow> bytes \<Rightarrow> Http2ErrorCode + (nat \<times> bytes)" where
  "huffman_nibble state nib out =
    (case kHuffmanDecodeTable ! state ! nib of (st, flags, symbol) \<Rightarrow>
       if flags = HUFFMAN_FAIL then Inl CompressionError
       else Inr (st, if flags = HUFFMAN_EMIT then out @ [of_nat symbol] else out))"

fun huffman_decode_loop :: "bytes \<Rightarrow> nat \<Rightarrow> bytes \<Rightarrow> Http2ErrorCode + (nat \<times> bytes)" where
  "huffman_decode_loop [] state out = Inr (state, out)"
| "huffman_decode_loop (byte # data) state out =
    (case huffman_nibble state (unat (drop_bit 4 byte)) out of
       Inl e \<Rightarrow> Inl e
     | Inr (state1, out1) \<Rightarrow>
         (case huffman_nibble state1 (unat (byte AND 0x0F)) out1 of
            Inl e \<Rightarrow> Inl e
          | Inr (state2, out2) \<Rightarrow> huffman_decode_loop data state2 out2))"

definition huffman_decode :: "bytes \<Rightarrow> Http2ErrorCode + bytes" where
  "huffman_decode data = (case huffman_decode_loop data 0 [] of
     Inl e \<Rightarrow> Inl e
   | Inr (state, out) \<Rightarrow>
       if \<not> kHuffmanDecodeAccepting ! state then Inl CompressionError else Inr out)"

section \<open>Bit lists\<close>

text \<open>The \<open>n\<close> low bits of a number, most significant first.\<close>

definition vbits :: "nat \<Rightarrow> nat \<Rightarrow> bool list" where
  "vbits n v = map (bit v) (rev [0..<n])"

definition bits_of :: "bytes \<Rightarrow> bool list" where
  "bits_of bs = concat (map (\<lambda>b. vbits 8 (unat b)) bs)"

definition state_path :: "nat \<Rightarrow> bool list" where
  "state_path s = (case state_codes ! s of (v, n) \<Rightarrow> vbits n v)"

definition code_bits :: "nat \<Rightarrow> bool list" where
  "code_bits c = (case kHuffmanCodes ! c of (code, n) \<Rightarrow> vbits n (unat code))"

lemma vbits_0 [simp]: "vbits 0 v = []"
  by (simp add: vbits_def)

lemma vbits_Suc: "vbits (Suc n) (2 * v + of_bool b) = vbits n v @ [b]"
proof -
  have "rev [0..<Suc n] = map Suc (rev [0..<n]) @ [0]"
    by (simp add: rev_map [symmetric] map_Suc_upt upt_conv_Cons del: upt_Suc)
  moreover have "bit (2 * v + of_bool b) (Suc i) = bit v i" for i
    by (simp add: bit_Suc)
  ultimately show ?thesis
    by (simp add: vbits_def o_def bit_0)
qed

lemma length_vbits [simp]: "length (vbits n v) = n"
  by (simp add: vbits_def)

lemma vbits_cong: "(\<And>i. i < n \<Longrightarrow> bit v i = bit w i) \<Longrightarrow> vbits n v = vbits n w"
  by (simp add: vbits_def)

lemma vbits_append:
  assumes "\<And>i. i < m \<Longrightarrow> bit v (i + n) = bit a i" "\<And>i. i < n \<Longrightarrow> bit v i = bit b i"
  shows "vbits (m + n) v = vbits m a @ vbits n b"
proof -
  have "rev [0..<m + n] = map (\<lambda>i. i + n) (rev [0..<m]) @ rev [0..<n]"
    by (simp add: rev_map [symmetric] map_add_upt upt_add_eq_append [of 0 n m] add.commute [of m])
  then show ?thesis
    using assms by (simp add: vbits_def o_def)
qed

lemma vbits_ones: "Suc v = 2 ^ n \<Longrightarrow> vbits n v = replicate n True"
proof -
  assume "Suc v = 2 ^ n"
  then have "v = mask n"
    by (simp add: mask_eq_exp_minus_1)
  then show ?thesis
    by (auto simp: vbits_def bit_mask_iff intro!: replicate_eqI)
qed

lemma bits_of_Nil [simp]: "bits_of [] = []"
  and bits_of_Cons [simp]: "bits_of (b # bs) = vbits 8 (unat b) @ bits_of bs"
  and bits_of_append [simp]: "bits_of (xs @ ys) = bits_of xs @ bits_of ys"
  by (simp_all add: bits_of_def)

lemma length_bits_of [simp]: "length (bits_of bs) = 8 * length bs"
  by (induction bs) auto

lemma vbits_8_nibbles: "vbits 8 (unat b) = vbits 4 (unat (drop_bit 4 b)) @ vbits 4 (unat (b AND 0x0F))"
  for b :: u8
proof -
  have *: "(0x0F :: u8) = mask 4"
    by (simp add: mask_eq_exp_minus_1)
  have "vbits (4 + 4) (unat b) = vbits 4 (unat (drop_bit 4 b)) @ vbits 4 (unat (b AND 0x0F))"
    unfolding * by (rule vbits_append) (auto simp: bit_unsigned_iff bit_drop_bit_eq bit_and_iff bit_mask_iff add.commute)
  then show ?thesis
    by simp
qed

section \<open>The automaton follows the code\<close>

lemma code_lengths: "list_all (\<lambda>(code, n). 5 \<le> n \<and> n \<le> 30 \<and> unat code < 2 ^ n) (take 256 kHuffmanCodes)"
  by (simp add: kHuffmanCodes_def)

lemma code_length:
  assumes "c < 256" "kHuffmanCodes ! c = (code, n)"
  shows "5 \<le> n" "n \<le> 30" "unat code < 2 ^ n"
proof -
  have "length kHuffmanCodes = 256 \<or> length kHuffmanCodes = 257"
    by (simp add: kHuffmanCodes_def)
  then have "c < length (take 256 kHuffmanCodes)"
    using assms(1) by auto
  then have "case kHuffmanCodes ! c of (code, n) \<Rightarrow> 5 \<le> n \<and> n \<le> 30 \<and> unat code < 2 ^ n"
    using code_lengths [unfolded list_all_length, rule_format, of c] assms(1) by simp
  then show "5 \<le> n" "n \<le> 30" "unat code < 2 ^ n"
    using assms(2) by auto
qed

lemma state_lengths: "list_all (\<lambda>(v, n). n < 30) state_codes"
  by (simp add: state_codes_def)

lemma length_state_codes: "length state_codes = 256"
  by (simp add: state_codes_def)

lemma length_state_path: "s < 256 \<Longrightarrow> length (state_path s) < 30"
  using state_lengths by (auto simp: list_all_length length_state_codes state_path_def split: prod.splits)

lemma state_path_0 [simp]: "state_path 0 = []"
  by (simp add: state_path_def state_codes_at)

lemma edge: "s < 256 \<Longrightarrow> edge_ok s b"
  using edges_ok by (cases b) (auto simp: list_all_iff)

lemma path_state:
  assumes "s < 256" "bstep s b = ToState q"
  shows "q < 256" "state_path q = state_path s @ [b]"
  using edge [of s b] assms by (auto simp: edge_ok_def state_path_def vbits_Suc split: prod.splits)

lemma path_sym:
  assumes "s < 256" "bstep s b = ToSym c"
  shows "c < 256" "code_bits c = state_path s @ [b]"
proof -
  obtain v n where vn: "state_codes ! s = (v, n)"
    by fastforce
  then have c: "c < 256" "kHuffmanCodes ! c = (of_nat (2 * v + of_bool b), Suc n)"
    using edge [of s b] assms by (auto simp: edge_ok_def)
  then have "Suc n \<le> 30"
    by (rule code_length(2))
  then have "vbits (Suc n) (unat (of_nat (2 * v + of_bool b) :: u32)) = vbits (Suc n) (2 * v + of_bool b)"
    by (intro vbits_cong, simp only: unsigned_of_nat) (simp add: bit_take_bit_iff)
  then show "c < 256" "code_bits c = state_path s @ [b]"
    using c vn by (simp_all add: code_bits_def state_path_def vbits_Suc)
qed

lemma state_parent: "0 < q \<Longrightarrow> q < 256 \<Longrightarrow> \<exists>p b. p < 256 \<and> bstep p b = ToState q"
proof -
  assume q: "0 < q" "q < 256"
  have len: "length state_parents = 256"
    by (simp add: state_parents_def)
  have "(q, state_parents ! q) \<in> set (enumerate 1 (tl state_parents))"
    using q len by (auto simp: in_set_enumerate_eq nth_tl)
  then show ?thesis
    using state_parents_ok by (cases "state_parents ! q") (fastforce simp: list_all_iff)
qed

lemma sym_parent: "c < 256 \<Longrightarrow> \<exists>p b. p < 256 \<and> bstep p b = ToSym c"
proof -
  assume c: "c < 256"
  have len: "length sym_parents = 256"
    by (simp add: sym_parents_def)
  have "(c, sym_parents ! c) \<in> set (enumerate 0 sym_parents)"
    using c len by (auto simp: in_set_enumerate_eq)
  then show ?thesis
    using sym_parents_ok by (cases "sym_parents ! c") (fastforce simp: list_all_iff)
qed

lemma bwalk_path: "q < 256 \<Longrightarrow> bwalk 0 (state_path q @ bs) = bwalk q bs"
proof (induction "length (state_path q)" arbitrary: q bs rule: less_induct)
  case less
  show ?case
  proof (cases "q = 0")
    case False
    then obtain p b where p: "p < 256" "bstep p b = ToState q"
      using state_parent less.prems by blast
    then show ?thesis
      using less.hyps [of p "b # bs"] path_state [OF p] by simp
  qed simp
qed

lemma bwalk_code:
  assumes "c < 256"
  shows "bwalk 0 (code_bits c @ bs) =
    (case bwalk 0 bs of None \<Rightarrow> None | Some (cs, q) \<Rightarrow> Some (c # cs, q))"
proof -
  obtain p b where p: "p < 256" "bstep p b = ToSym c"
    using sym_parent [OF assms] by blast
  then show ?thesis
    using bwalk_path [of p "b # bs"] path_sym [OF p] by simp
qed

lemma bwalk_codes:
  "\<forall>c \<in> set cs. c < 256 \<Longrightarrow> bwalk 0 bs = Some ([], q) \<Longrightarrow>
   bwalk 0 (concat (map code_bits cs) @ bs) = Some (cs, q)"
  by (induction cs) (auto simp: bwalk_code)

lemma bwalk_append:
  "bwalk s (xs @ ys) = (case bwalk s xs of
     None \<Rightarrow> None
   | Some (cs, q) \<Rightarrow> (case bwalk q ys of None \<Rightarrow> None | Some (cs', q') \<Rightarrow> Some (cs @ cs', q')))"
  by (induction s xs rule: bwalk.induct) (auto split: option.splits htarget.splits)

lemma bwalk_sound:
  "s < 256 \<Longrightarrow> bwalk s bs = Some (cs, q) \<Longrightarrow>
   q < 256 \<and> (\<forall>c \<in> set cs. c < 256) \<and> state_path s @ bs = concat (map code_bits cs) @ state_path q"
proof (induction s bs arbitrary: cs rule: bwalk.induct)
  case (2 s b bs)
  show ?case
  proof (cases "bstep s b")
    case (ToState p)
    then show ?thesis
      using 2(1) [OF ToState] 2(4) path_state [OF 2(3) ToState] by auto
  next
    case (ToSym c)
    then show ?thesis
      using 2 path_sym [OF 2(3) ToSym] by (fastforce split: option.splits)
  next
    case ToEos
    then show ?thesis
      using 2 by simp
  qed
qed simp

lemma bwalk_bound: "s < 256 \<Longrightarrow> bwalk s bs = Some (cs, q) \<Longrightarrow> q < 256"
  using bwalk_sound by blast

lemma accepting_path:
  assumes "s < 256" "kHuffmanDecodeAccepting ! s"
  shows "state_path s = replicate (length (state_path s)) True"
  using accepting_states assms
  by (auto simp: list_all2_conv_all_nth length_state_codes state_path_def vbits_ones split: prod.splits)

lemma padding: "k < 30 \<Longrightarrow> \<exists>q. bwalk 0 (replicate k True) = Some ([], q) \<and> kHuffmanDecodeAccepting ! q"
proof -
  assume "k < 30"
  have rep: "replicate (numeral n) True = True # replicate (pred_numeral n) True" for n
    by (simp add: numeral_eq_Suc)
  have "list_all (\<lambda>k. \<exists>q. bwalk 0 (replicate k True) = Some ([], q) \<and> kHuffmanDecodeAccepting ! q) [0..<30]"
    by (simp add: upt_conv_Cons rep bstep_def huffman_bits_at kHuffmanDecodeAccepting_def)
  with \<open>k < 30\<close> show ?thesis
    by (simp add: list_all_iff)
qed

section \<open>The decoder runs the automaton\<close>

lemma nibbles_nth: "n < 16 \<Longrightarrow> nibbles ! n = vbits 4 n"
proof -
  assume "n < 16"
  have "list_all (\<lambda>n. nibbles ! n = vbits 4 n) [0..<16]"
    by (simp add: nibbles_def vbits_def upt_conv_Cons bit_iff_odd)
  with \<open>n < 16\<close> show ?thesis
    by (simp add: list_all_iff)
qed

lemma length_nibbles: "length nibbles = 16"
  by (simp add: nibbles_def)

lemma table_entry:
  assumes "s < 256" "n < 16"
  shows "entry_matches (bwalk s (vbits 4 n)) (kHuffmanDecodeTable ! s ! n)"
proof -
  have "row_ok s (kHuffmanDecodeTable ! s)"
    using list_all2_nthD [OF rows_ok, of s] assms(1) by simp
  then have "entry_matches (bwalk s (nibbles ! n)) (kHuffmanDecodeTable ! s ! n)"
    using list_all2_nthD [of "\<lambda>bs e. entry_matches (bwalk s bs) e" nibbles "kHuffmanDecodeTable ! s" n]
      assms(2) length_nibbles by (simp add: row_ok_def)
  then show ?thesis
    using assms(2) by (simp add: nibbles_nth)
qed

lemma huffman_nibble_bwalk:
  assumes "s < 256" "n < 16"
  shows "huffman_nibble s n out = (case bwalk s (vbits 4 n) of
      None \<Rightarrow> Inl CompressionError
    | Some (cs, q) \<Rightarrow> Inr (q, out @ map of_nat cs))"
  using table_entry [OF assms]
  by (cases "(bwalk s (vbits 4 n), kHuffmanDecodeTable ! s ! n)" rule: entry_matches.cases)
     (auto simp: huffman_nibble_def)

lemma nibble_less: "unat (drop_bit 4 b) < 16" "unat (b AND 0x0F) < 16" for b :: u8
proof -
  show "unat (drop_bit 4 b) < 16"
    unfolding unat_drop_bit_eq unfolding drop_bit_eq_div using unat_u8_less [of b] by (simp add: less_mult_imp_div_less)
  show "unat (b AND 0x0F) < 16"
    using word_and_le1 [of b "0x0F"] by (simp add: word_le_nat_alt)
qed

lemma huffman_decode_loop_bwalk:
  "s < 256 \<Longrightarrow> huffman_decode_loop data s out = (case bwalk s (bits_of data) of
      None \<Rightarrow> Inl CompressionError
    | Some (cs, q) \<Rightarrow> Inr (q, out @ map of_nat cs))"
proof (induction data arbitrary: s out)
  case (Cons b data)
  note [simp] = Cons.prems vbits_8_nibbles bwalk_append huffman_nibble_bwalk nibble_less
  show ?case
  proof (cases "bwalk s (vbits 4 (unat (drop_bit 4 b)))")
    case (Some r1)
    then obtain cs1 q1 where w1: "bwalk s (vbits 4 (unat (drop_bit 4 b))) = Some (cs1, q1)"
      by (cases r1) auto
    note [simp] = bwalk_bound [OF Cons.prems w1]
    show ?thesis
    proof (cases "bwalk q1 (vbits 4 (unat (b AND 0x0F)))")
      case (Some r2)
      then obtain cs2 q2 where w2: "bwalk q1 (vbits 4 (unat (b AND 0x0F))) = Some (cs2, q2)"
        by (cases r2) auto
      have "q2 < 256"
        using w2 by (rule bwalk_bound [rotated]) simp
      then show ?thesis
        using w1 w2 by (auto simp: Cons.IH split: option.splits)
    qed (simp add: w1)
  qed simp
qed simp

lemma huffman_decode_bwalk:
  "huffman_decode data = (case bwalk 0 (bits_of data) of
      None \<Rightarrow> Inl CompressionError
    | Some (cs, q) \<Rightarrow> if kHuffmanDecodeAccepting ! q then Inr (map of_nat cs) else Inl CompressionError)"
  by (auto simp: huffman_decode_def huffman_decode_loop_bwalk split: option.splits)

section \<open>The encoder writes the code words\<close>

lemma vbits_drain:
  fixes buffer :: u64
  assumes "8 \<le> k"
  shows "vbits k (unat buffer) =
    vbits 8 (unat (ucast (drop_bit (k - 8) buffer AND 0xFF) :: u8)) @ vbits (k - 8) (unat buffer)"
proof -
  have *: "(0xFF :: u64) = mask 8"
    by (simp add: mask_eq_exp_minus_1)
  have "vbits (8 + (k - 8)) (unat buffer) =
    vbits 8 (unat (ucast (drop_bit (k - 8) buffer AND 0xFF) :: u8)) @ vbits (k - 8) (unat buffer)"
    unfolding * by (rule vbits_append)
      (auto simp: bit_unsigned_iff bit_drop_bit_eq bit_and_iff bit_mask_iff add.commute)
  then show ?thesis
    using assms by simp
qed

lemma drain_bytes_bits:
  "drain_bytes buffer k out = (k', out') \<Longrightarrow>
   bits_of out' @ vbits k' (unat buffer) = bits_of out @ vbits k (unat buffer) \<and> k' < 8"
proof (induction buffer k out rule: drain_bytes.induct)
  case (1 buffer k out)
  show ?case
  proof (cases "8 \<le> k")
    case True
    then show ?thesis
      using 1 vbits_drain [OF True, of buffer]
      by (subst (asm) (2) drain_bytes.simps) (simp add: Let_def)
  next
    case False
    then show ?thesis
      using 1(2) by (simp add: drain_bytes.simps)
  qed
qed

lemma vbits_push:
  fixes buffer :: u64 and code :: u32
  assumes "k + n \<le> 64" "unat code < 2 ^ n"
  shows "vbits (k + n) (unat (push_bit n buffer OR ucast code)) =
    vbits k (unat buffer) @ vbits n (unat code)"
proof (rule vbits_append)
  have hi: "\<not> bit code i" if "n \<le> i" for i
  proof -
    have "\<not> bit (unat code) i"
      using assms(2) that by (metis bit_take_bit_iff linorder_not_less take_bit_nat_eq_self)
    then show ?thesis
      by (simp add: bit_unsigned_iff)
  qed
  show "bit (unat (push_bit n buffer OR ucast code)) (i + n) = bit (unat buffer) i" if "i < k" for i
    using that assms(1) by (auto simp: bit_unsigned_iff bit_or_iff bit_push_bit_iff hi)
  show "bit (unat (push_bit n buffer OR ucast code)) i = bit (unat code) i" if "i < n" for i
    using that assms(1) by (auto simp: bit_unsigned_iff bit_or_iff bit_push_bit_iff dest: bit_imp_le_length)
qed

lemma huffman_encode_loop_bits:
  "huffman_encode_loop input buffer k out = (buffer', k', out') \<Longrightarrow> k < 8 \<Longrightarrow>
   bits_of out' @ vbits k' (unat buffer') =
     bits_of out @ vbits k (unat buffer) @ concat (map code_bits (map unat input)) \<and> k' < 8"
proof (induction input buffer k out rule: huffman_encode_loop.induct)
  case (2 c input buffer k out)
  obtain code n where code: "kHuffmanCodes ! unat c = (code, n)"
    by fastforce
  define buf where "buf = push_bit n buffer OR ucast code"
  obtain k1 out1 where d: "drain_bytes buf (k + n) out = (k1, out1)"
    by fastforce
  have n: "n \<le> 30" "unat code < 2 ^ n"
    using code_length [OF unat_u8_less code] by auto
  have step: "bits_of out1 @ vbits k1 (unat buf) = bits_of out @ vbits k (unat buffer) @ code_bits (unat c)"
      "k1 < 8"
    using drain_bytes_bits [OF d] vbits_push [of k n code buffer] n 2(3)
    by (auto simp: buf_def code_bits_def code)
  have "huffman_encode_loop input buf k1 out1 = (buffer', k', out')"
    using 2(2) d by (simp add: code buf_def Let_def)
  then show ?case
    using 2(1) [OF code [symmetric] refl buf_def d [symmetric] refl] step by simp
qed simp

lemma huffman_encode_bits:
  "\<exists>k < 8. bits_of (huffman_encode input) = concat (map code_bits (map unat input)) @ replicate k True"
proof -
  obtain buffer k out where l: "huffman_encode_loop input 0 0 [] = (buffer, k, out)"
    by (metis prod_cases3)
  have b: "bits_of out @ vbits k (unat buffer) = concat (map code_bits (map unat input))" "k < 8"
    using huffman_encode_loop_bits [OF l] by auto
  show ?thesis
  proof (cases "k = 0")
    case True
    then show ?thesis
      using b l by (auto simp: huffman_encode_def intro!: exI [of _ 0])
  next
    case False
    have m: "(0xFF :: u64) = mask 8"
      by (simp add: mask_eq_exp_minus_1)
    have ones: "vbits (8 - k) (mask (8 - k)) = replicate (8 - k) True"
      by (rule vbits_ones) (simp add: mask_eq_exp_minus_1)
    have "vbits (k + (8 - k)) (unat (ucast ((push_bit (8 - k) buffer OR drop_bit k 0xFF) AND 0xFF) :: u8)) =
        vbits k (unat buffer) @ vbits (8 - k) (mask (8 - k))"
      unfolding m using False b(2)
      by (intro vbits_append) (auto simp: bit_unsigned_iff bit_or_iff bit_and_iff bit_push_bit_iff
          bit_mask_iff bit_drop_bit_eq)
    then have "bits_of (huffman_encode input) =
        concat (map code_bits (map unat input)) @ replicate (8 - k) True"
      using False b l by (simp add: huffman_encode_def Let_def ones)
    then show ?thesis
      using False b(2) by (intro exI [of _ "8 - k"]) auto
  qed
qed

lemma length_code_bits: "length (code_bits c) = snd (kHuffmanCodes ! c)"
  by (simp add: code_bits_def split: prod.split)

lemma unat_of_nat_u8 [simp]: "c < 256 \<Longrightarrow> unat (of_nat c :: u8) = c"
  by (simp add: unat_of_nat)

lemma map_unat_of_nat: "\<forall>c \<in> set cs. c < 256 \<Longrightarrow> map unat (map of_nat cs :: bytes) = cs"
  by (induction cs) auto

lemma huffman_decode_iff:
  "huffman_decode data = Inr s \<longleftrightarrow>
   (\<exists>k < 30. bits_of data = concat (map code_bits (map unat s)) @ replicate k True)"
proof
  assume "huffman_decode data = Inr s"
  then obtain cs q where w: "bwalk 0 (bits_of data) = Some (cs, q)" "kHuffmanDecodeAccepting ! q"
      "s = map of_nat cs"
    by (auto simp: huffman_decode_bwalk split: option.splits if_splits)
  have q: "q < 256" "\<forall>c \<in> set cs. c < 256" "bits_of data = concat (map code_bits cs) @ state_path q"
    using bwalk_sound [OF _ w(1)] by auto
  then show "\<exists>k < 30. bits_of data = concat (map code_bits (map unat s)) @ replicate k True"
    using accepting_path [OF q(1) w(2)] length_state_path [OF q(1)] map_unat_of_nat [OF q(2)]
    by (intro exI [of _ "length (state_path q)"]) (simp add: w(3) del: map_map)
next
  assume "\<exists>k < 30. bits_of data = concat (map code_bits (map unat s)) @ replicate k True"
  then obtain k where k: "k < 30" "bits_of data = concat (map code_bits (map unat s)) @ replicate k True"
    by blast
  obtain q where q: "bwalk 0 (replicate k True) = Some ([], q)" "kHuffmanDecodeAccepting ! q"
    using padding [OF k(1)] by blast
  have "bwalk 0 (bits_of data) = Some (map unat s, q)"
    unfolding k(2) by (rule bwalk_codes) (auto simp: q(1) unat_u8_less)
  then show "huffman_decode data = Inr s"
    using q(2) by (simp add: huffman_decode_bwalk o_def)
qed

lemma huffman_decode_encode: "huffman_decode (huffman_encode s) = Inr s"
proof -
  obtain k where "k < 8" "bits_of (huffman_encode s) = concat (map code_bits (map unat s)) @ replicate k True"
    using huffman_encode_bits by blast
  then show ?thesis
    unfolding huffman_decode_iff by (intro exI [of _ k]) simp
qed

lemma huffman_encode_length: "length (huffman_encode s) = huffman_encodedLength s"
proof -
  obtain k where k: "k < 8" "bits_of (huffman_encode s) = concat (map code_bits (map unat s)) @ replicate k True"
    using huffman_encode_bits by blast
  from arg_cong [OF k(2), of length]
  have "8 * length (huffman_encode s) = sum_list (map (\<lambda>c. snd (kHuffmanCodes ! unat c)) s) + k"
    by (simp add: length_concat length_code_bits o_def)
  with k(1) show ?thesis
    unfolding huffman_encodedLength_def by linarith
qed

section \<open>Properties\<close>

text \<open>C28. The Huffman coder loses nothing: for every string, the table-driven decoder
  recovers exactly the string the bit-buffer encoder was given, and
  \<open>encodedLength\<close> predicts the number of bytes the encoder writes.\<close>

theorem huffman_roundtrip:
  "huffman_decode (huffman_encode s) = Inr s \<and> length (huffman_encode s) = huffman_encodedLength s"
  by (simp add: huffman_decode_encode huffman_encode_length)

text \<open>What \<open>decode\<close> accepts, exactly: an input is decoded to \<open>s\<close> precisely when its bits are
  the code words of \<open>s\<close> followed by fewer than thirty ones. So nothing is decoded to a string it does
  not encode, and no string has two decodings; but the accepting states also admit a padding
  of 8 to 29 bits, which RFC 7541 section 5.2 makes a decoding error.\<close>

theorem huffman_decode_exact:
  "huffman_decode data = Inr s \<longleftrightarrow>
   (\<exists>k < 30. bits_of data = concat (map code_bits (map unat s)) @ replicate k True)"
  by (rule huffman_decode_iff)

text \<open>A whole byte of padding is accepted.\<close>

lemma huffman_overlong_padding: "huffman_decode [0xFF] = Inr []"
proof -
  have "bits_of [0xFF] = replicate 8 True"
    by (simp add: bits_of_def vbits_ones)
  then show ?thesis
    by (auto simp: huffman_decode_iff intro!: exI [of _ 8])
qed

end
