(* ===== verification/Hpack_Codec.thy ===== *)
theory Hpack_Codec
  imports Hpack_Table Hpack_Int Hpack_Huffman
begin

unbundle bit_operations_syntax

text \<open>
  \<open>HpackEncoder\<close> and \<open>HpackDecoder\<close> of \<^verbatim>\<open>galay-http2/protoc/http2_hpack.cc\<close>. An encoder method
  returns the bytes it appends to its output; a decoder method returns its result and what is left
  of the input. \<open>decode\<close> and \<open>decodeRequestTarget\<close> also return the decoder, whose table keeps the
  insertions made before an error.
\<close>

section \<open>Encoder\<close>

record HpackEncoder =
  e_table :: HpackDynamicTable
  m_pending_table_size :: nat
  m_use_huffman :: bool
  m_table_size_update_pending :: bool

definition new_encoder :: "nat \<Rightarrow> HpackEncoder" where
  "new_encoder max_table_size =
    \<lparr>e_table = new_table max_table_size, m_pending_table_size = 0, m_use_huffman = False,
     m_table_size_update_pending = False\<rparr>"

definition encodeString :: "bool \<Rightarrow> bytes \<Rightarrow> bytes" where
  "encodeString use_huffman s =
    (if use_huffman then
       let encoded = huffman_encode s in encodeInteger (of_nat (length encoded)) 7 0x80 @ encoded
     else encodeInteger (of_nat (length s)) 7 0x00 @ s)"

definition encodeIndexed :: "nat \<Rightarrow> bytes" where
  "encodeIndexed index = encodeInteger (of_nat index) 7 0x80"

definition encodeLiteralIndexed_at :: "bool \<Rightarrow> nat \<Rightarrow> bytes \<Rightarrow> bytes" where
  "encodeLiteralIndexed_at huff name_index v = encodeInteger (of_nat name_index) 6 0x40 @ encodeString huff v"

definition encodeLiteralIndexed :: "bool \<Rightarrow> bytes \<Rightarrow> bytes \<Rightarrow> bytes" where
  "encodeLiteralIndexed huff n v = 0x40 # encodeString huff n @ encodeString huff v"

definition encodeLiteralWithoutIndexing_at :: "bool \<Rightarrow> nat \<Rightarrow> bytes \<Rightarrow> bytes" where
  "encodeLiteralWithoutIndexing_at huff name_index v =
    encodeInteger (of_nat name_index) 4 0x00 @ encodeString huff v"

definition encodeLiteralWithoutIndexing :: "bool \<Rightarrow> bytes \<Rightarrow> bytes \<Rightarrow> bytes" where
  "encodeLiteralWithoutIndexing huff n v = 0x00 # encodeString huff n @ encodeString huff v"

definition encodeLiteralNeverIndexed_at :: "bool \<Rightarrow> nat \<Rightarrow> bytes \<Rightarrow> bytes" where
  "encodeLiteralNeverIndexed_at huff name_index v =
    encodeInteger (of_nat name_index) 4 0x10 @ encodeString huff v"

definition encodeLiteralNeverIndexed :: "bool \<Rightarrow> bytes \<Rightarrow> bytes \<Rightarrow> bytes" where
  "encodeLiteralNeverIndexed huff n v = 0x10 # encodeString huff n @ encodeString huff v"

definition encoder_setMaxTableSize :: "HpackEncoder \<Rightarrow> nat \<Rightarrow> HpackEncoder" where
  "encoder_setMaxTableSize e sz =
    e\<lparr>e_table := setMaxSize (e_table e) sz, m_table_size_update_pending := True,
      m_pending_table_size := sz\<rparr>"

definition sensitive :: "bytes \<Rightarrow> bool" where
  "sensitive n \<longleftrightarrow> n = str ''authorization'' \<or> n = str ''cookie'' \<or> n = str ''set-cookie''
     \<or> n = str ''proxy-authorization''"

definition encodeField :: "HpackEncoder \<Rightarrow> Http2HeaderField \<Rightarrow> bytes \<times> HpackEncoder" where
  "encodeField e field =
    (let (static_idx, static_name_only) = static_find (hname field) (hvalue field) in
     if static_idx > 0 \<and> \<not> static_name_only then (encodeIndexed static_idx, e)
     else
       let (dyn_idx, dyn_name_only) = dyn_find (e_table e) (hname field) (hvalue field);
           huff = m_use_huffman e in
       if dyn_idx \<noteq> SIZE_MAX \<and> \<not> dyn_name_only then
         (encodeIndexed (kStaticTableSize + dyn_idx + 1), e)
       else if sensitive (hname field) then
         if static_idx > 0 then (encodeLiteralNeverIndexed_at huff static_idx (hvalue field), e)
         else (encodeLiteralNeverIndexed huff (hname field) (hvalue field), e)
       else
         (if static_idx > 0 then encodeLiteralIndexed_at huff static_idx (hvalue field)
          else if dyn_idx \<noteq> SIZE_MAX \<and> dyn_name_only then
            encodeLiteralIndexed_at huff (kStaticTableSize + dyn_idx + 1) (hvalue field)
          else encodeLiteralIndexed huff (hname field) (hvalue field),
          e\<lparr>e_table := add (e_table e) field\<rparr>))"

definition encodeFieldStateless :: "HpackEncoder \<Rightarrow> Http2HeaderField \<Rightarrow> bytes" where
  "encodeFieldStateless e field =
    (let (static_idx, static_name_only) = static_find (hname field) (hvalue field);
         huff = m_use_huffman e in
     if static_idx > 0 \<and> \<not> static_name_only then encodeIndexed static_idx
     else if static_idx > 0 then encodeLiteralWithoutIndexing_at huff static_idx (hvalue field)
     else encodeLiteralWithoutIndexing huff (hname field) (hvalue field))"

fun encode_fields :: "HpackEncoder \<Rightarrow> Http2HeaderField list \<Rightarrow> bytes \<times> HpackEncoder" where
  "encode_fields e [] = ([], e)"
| "encode_fields e (field # headers) =
    (let (out, e1) = encodeField e field; (outs, e2) = encode_fields e1 headers in (out @ outs, e2))"

definition hpack_encode :: "HpackEncoder \<Rightarrow> Http2HeaderField list \<Rightarrow> bytes \<times> HpackEncoder" where
  "hpack_encode e headers =
    (if m_table_size_update_pending e then
       let (out, e') = encode_fields (e\<lparr>m_table_size_update_pending := False\<rparr>) headers
       in (encodeInteger (of_nat (m_pending_table_size e)) 5 0x20 @ out, e')
     else encode_fields e headers)"

definition encodeStateless :: "HpackEncoder \<Rightarrow> Http2HeaderField list \<Rightarrow> bytes" where
  "encodeStateless e headers = concat (map (encodeFieldStateless e) headers)"

section \<open>Decoder\<close>

record HpackDecoder =
  d_table :: HpackDynamicTable
  m_max_table_size :: nat
  m_max_header_list_size :: nat

definition new_decoder :: "nat \<Rightarrow> HpackDecoder" where
  "new_decoder max_table_size =
    \<lparr>d_table = new_table max_table_size, m_max_table_size = max_table_size,
     m_max_header_list_size = SIZE_MAX\<rparr>"

definition decodeString :: "bytes \<Rightarrow> Http2ErrorCode + (bytes \<times> bytes)" where
  "decodeString data = (case data of
     [] \<Rightarrow> Inl CompressionError
   | b # _ \<Rightarrow>
       (case decodeInteger 7 data of
          Inl e \<Rightarrow> Inl e
        | Inr (len, data) \<Rightarrow>
            if unat len > length data then Inl CompressionError
            else if b AND 0x80 \<noteq> 0 then
              (case huffman_decode (take (unat len) data) of
                 Inl e \<Rightarrow> Inl e
               | Inr s \<Rightarrow> Inr (s, drop (unat len) data))
            else Inr (take (unat len) data, drop (unat len) data)))"

definition getField :: "HpackDecoder \<Rightarrow> nat \<Rightarrow> Http2HeaderField option" where
  "getField d index =
    (if index = 0 then None
     else if index \<le> kStaticTableSize then static_get index
     else dyn_get (d_table d) (index - kStaticTableSize - 1))"

definition decoder_setMaxTableSize :: "HpackDecoder \<Rightarrow> nat \<Rightarrow> HpackDecoder" where
  "decoder_setMaxTableSize d sz = d\<lparr>m_max_table_size := sz, d_table := setMaxSize (d_table d) sz\<rparr>"

definition setMaxHeaderListSize :: "HpackDecoder \<Rightarrow> nat \<Rightarrow> HpackDecoder" where
  "setMaxHeaderListSize d sz = d\<lparr>m_max_header_list_size := sz\<rparr>"

text \<open>A literal field with a \<open>k\<close>-bit name index: the index, the name (from the tables, or spelled
  out when the index is 0) and the value.\<close>

definition decodeLiteral :: "HpackDecoder \<Rightarrow> nat \<Rightarrow> bytes \<Rightarrow> Http2ErrorCode + (Http2HeaderField \<times> bytes)" where
  "decodeLiteral d k data = (case decodeInteger k data of
     Inl e \<Rightarrow> Inl e
   | Inr (index, data) \<Rightarrow>
       (case (if index > 0 then
                (case getField d (unat index) of
                   None \<Rightarrow> Inl CompressionError
                 | Some field \<Rightarrow> Inr (hname field, data))
              else decodeString data) of
          Inl e \<Rightarrow> Inl e
        | Inr (n, data) \<Rightarrow>
            (case decodeString data of
               Inl e \<Rightarrow> Inl e
             | Inr (v, data) \<Rightarrow> Inr (\<lparr>hname = n, hvalue = v\<rparr>, data))))"

definition over_limit :: "HpackDecoder \<Rightarrow> nat \<Rightarrow> Http2HeaderField \<Rightarrow> bool" where
  "over_limit d header_list_size field \<longleftrightarrow>
     header_size field > m_max_header_list_size d
     \<or> header_list_size > m_max_header_list_size d - header_size field"

lemma decodeString_shorter: "decodeString data = Inr (s, rest) \<Longrightarrow> length rest < length data"
  by (auto simp: decodeString_def dest!: decodeInteger_shorter split: list.splits sum.splits if_splits)

lemma decodeLiteral_shorter: "decodeLiteral d k data = Inr (f, rest) \<Longrightarrow> length rest < length data"
  by (fastforce simp: decodeLiteral_def dest!: decodeInteger_shorter decodeString_shorter
      split: sum.splits if_splits option.splits)

function decode_loop ::
  "HpackDecoder \<Rightarrow> bytes \<Rightarrow> nat \<Rightarrow> Http2HeaderField list \<Rightarrow>
   (Http2ErrorCode + Http2HeaderField list) \<times> HpackDecoder" where
  "decode_loop d [] header_list_size headers = (Inr headers, d)"
| "decode_loop d (byte # bytes) header_list_size headers =
    (if byte AND 0x80 \<noteq> 0 then
       (case decodeInteger 7 (byte # bytes) of
          Inl e \<Rightarrow> (Inl e, d)
        | Inr (index, data) \<Rightarrow>
            (case getField d (unat index) of
               None \<Rightarrow> (Inl CompressionError, d)
             | Some field \<Rightarrow>
                 if over_limit d header_list_size field then (Inl CompressionError, d)
                 else decode_loop d data (header_list_size + header_size field) (headers @ [field])))
     else if byte AND 0x40 \<noteq> 0 then
       (case decodeLiteral d 6 (byte # bytes) of
          Inl e \<Rightarrow> (Inl e, d)
        | Inr (field, data) \<Rightarrow>
            if over_limit d header_list_size field then (Inl CompressionError, d)
            else decode_loop (d\<lparr>d_table := add (d_table d) field\<rparr>) data
                   (header_list_size + header_size field) (headers @ [field]))
     else if byte AND 0x20 \<noteq> 0 then
       (case decodeInteger 5 (byte # bytes) of
          Inl e \<Rightarrow> (Inl e, d)
        | Inr (sz, data) \<Rightarrow>
            if unat sz > m_max_table_size d then (Inl CompressionError, d)
            else decode_loop (d\<lparr>d_table := setMaxSize (d_table d) (unat sz)\<rparr>) data
                   header_list_size headers)
     else
       (case decodeLiteral d 4 (byte # bytes) of
          Inl e \<Rightarrow> (Inl e, d)
        | Inr (field, data) \<Rightarrow>
            if over_limit d header_list_size field then (Inl CompressionError, d)
            else decode_loop d data (header_list_size + header_size field) (headers @ [field])))"
  by pat_completeness auto
termination
  by (relation "measure (\<lambda>(_, data, _, _). length data)")
     (auto simp del: One_nat_def dest: decodeInteger_shorter decodeLiteral_shorter)

declare decode_loop.simps(2) [simp del]

text \<open>A pointer and a length: \<open>None\<close> is the null pointer.\<close>

definition hpack_decode ::
  "HpackDecoder \<Rightarrow> bytes option \<Rightarrow> nat \<Rightarrow> (Http2ErrorCode + Http2HeaderField list) \<times> HpackDecoder" where
  "hpack_decode d data len = (case data of
     None \<Rightarrow> if len \<noteq> 0 then (Inl CompressionError, d) else decode_loop d [] 0 []
   | Some buf \<Rightarrow> decode_loop d (take len buf) 0 [])"

text \<open>The overload on strings.\<close>

definition decode_string :: "HpackDecoder \<Rightarrow> bytes \<Rightarrow> (Http2ErrorCode + Http2HeaderField list) \<times> HpackDecoder" where
  "decode_string d data = hpack_decode d (Some data) (length data)"

section \<open>Request target\<close>

record RequestTarget =
  rt_method :: bytes
  rt_path :: bytes
  rt_if_none_match :: bytes
  rt_range :: bytes

definition empty_target :: RequestTarget where
  "empty_target = \<lparr>rt_method = [], rt_path = [], rt_if_none_match = [], rt_range = []\<rparr>"

text \<open>The effect of \<open>record_field\<close> on the target, once the size check has passed.\<close>

definition record_target :: "RequestTarget \<Rightarrow> Http2HeaderField \<Rightarrow> RequestTarget" where
  "record_target target field =
    (if hname field = str '':method'' then target\<lparr>rt_method := hvalue field\<rparr>
     else if hname field = str '':path'' then target\<lparr>rt_path := hvalue field\<rparr>
     else if hname field = str ''if-none-match'' then target\<lparr>rt_if_none_match := hvalue field\<rparr>
     else if hname field = str ''range'' then target\<lparr>rt_range := hvalue field\<rparr>
     else target)"

definition record_field ::
  "HpackDecoder \<Rightarrow> nat \<Rightarrow> RequestTarget \<Rightarrow> Http2HeaderField \<Rightarrow> Http2ErrorCode + (nat \<times> RequestTarget)" where
  "record_field d header_list_size target field =
    (if over_limit d header_list_size field then Inl CompressionError
     else Inr (header_list_size + header_size field, record_target target field))"

function target_loop ::
  "HpackDecoder \<Rightarrow> bytes \<Rightarrow> nat \<Rightarrow> RequestTarget \<Rightarrow> (Http2ErrorCode + RequestTarget) \<times> HpackDecoder" where
  "target_loop d [] header_list_size target = (Inr target, d)"
| "target_loop d (byte # bytes) header_list_size target =
    (if byte AND 0x80 \<noteq> 0 then
       (case decodeInteger 7 (byte # bytes) of
          Inl e \<Rightarrow> (Inl e, d)
        | Inr (index, data) \<Rightarrow>
            (case getField d (unat index) of
               None \<Rightarrow> (Inl CompressionError, d)
             | Some field \<Rightarrow>
                 (case record_field d header_list_size target field of
                    Inl e \<Rightarrow> (Inl e, d)
                  | Inr (size', target') \<Rightarrow> target_loop d data size' target')))
     else if byte AND 0x40 \<noteq> 0 then
       (case decodeLiteral d 6 (byte # bytes) of
          Inl e \<Rightarrow> (Inl e, d)
        | Inr (field, data) \<Rightarrow>
            (case record_field d header_list_size target field of
               Inl e \<Rightarrow> (Inl e, d)
             | Inr (size', target') \<Rightarrow>
                 target_loop (d\<lparr>d_table := add (d_table d) field\<rparr>) data size' target'))
     else if byte AND 0x20 \<noteq> 0 then
       (case decodeInteger 5 (byte # bytes) of
          Inl e \<Rightarrow> (Inl e, d)
        | Inr (sz, data) \<Rightarrow>
            if unat sz > m_max_table_size d then (Inl CompressionError, d)
            else target_loop (d\<lparr>d_table := setMaxSize (d_table d) (unat sz)\<rparr>) data
                   header_list_size target)
     else
       (case decodeLiteral d 4 (byte # bytes) of
          Inl e \<Rightarrow> (Inl e, d)
        | Inr (field, data) \<Rightarrow>
            (case record_field d header_list_size target field of
               Inl e \<Rightarrow> (Inl e, d)
             | Inr (size', target') \<Rightarrow> target_loop d data size' target')))"
  by pat_completeness auto
termination
  by (relation "measure (\<lambda>(_, data, _, _). length data)")
     (auto simp del: One_nat_def dest: decodeInteger_shorter decodeLiteral_shorter)

declare target_loop.simps(2) [simp del]

definition decodeRequestTarget ::
  "HpackDecoder \<Rightarrow> bytes option \<Rightarrow> nat \<Rightarrow> (Http2ErrorCode + RequestTarget) \<times> HpackDecoder" where
  "decodeRequestTarget d data len = (case data of
     None \<Rightarrow> if len \<noteq> 0 then (Inl CompressionError, d) else target_loop d [] 0 empty_target
   | Some buf \<Rightarrow> target_loop d (take len buf) 0 empty_target)"

section \<open>First bytes\<close>

lemma encodeInteger_head:
  assumes "0 < k" "k \<le> 8"
  shows "\<exists>w rest. encodeInteger v k p = (p OR w) # rest \<and> (\<forall>n. k \<le> n \<longrightarrow> \<not> bit w n)"
proof (cases "v < ucast (max_prefix k)")
  case True
  have "unat v < 2 ^ k"
    using True assms unat_max_prefix [of k] by (simp add: word_less_nat_alt)
  then have "\<not> bit (unat v) n" if "k \<le> n" for n
    using that by (metis bit_take_bit_iff linorder_not_less take_bit_nat_eq_self)
  then have "\<not> bit (ucast v :: u8) n" if "k \<le> n" for n
    using that by (simp add: bit_unsigned_iff)
  then show ?thesis
    using True by (intro exI [of _ "ucast v"] exI [of _ "[]"]) (simp add: encodeInteger_def)
next
  case False
  then show ?thesis
    by (intro exI [of _ "max_prefix k"] exI [of _ "encodeInteger_tail (v - ucast (max_prefix k))"])
       (simp add: encodeInteger_def max_prefix_mask bit_mask_iff)
qed

lemma pattern_bits:
  "b AND 0x80 = 0 \<longleftrightarrow> \<not> bit b 7" "b AND 0x40 = 0 \<longleftrightarrow> \<not> bit b 6" "b AND 0x20 = 0 \<longleftrightarrow> \<not> bit b 5"
  for b :: u8
  using and_exp_eq_0_iff_not_bit [of b 7] and_exp_eq_0_iff_not_bit [of b 6] and_exp_eq_0_iff_not_bit [of b 5]
  by simp_all

lemma prefix_bits:
  "bit (0x80 :: u8) 7" "\<not> bit (0x40 :: u8) 7" "bit (0x40 :: u8) 6" "\<not> bit (0x20 :: u8) 7"
  "\<not> bit (0x20 :: u8) 6" "bit (0x20 :: u8) 5" "\<not> bit (0x10 :: u8) 7" "\<not> bit (0x10 :: u8) 6"
  "\<not> bit (0x10 :: u8) 5"
  by (simp_all add: bit_iff_odd_drop_bit)

lemma prefix_masks:
  "(0x80 :: u8) AND mask 7 = 0" "(0x40 :: u8) AND mask 6 = 0" "(0x20 :: u8) AND mask 5 = 0"
  "(0x10 :: u8) AND mask 4 = 0"
  by (simp_all add: mask_eq_exp_minus_1)

lemma encodeInteger_0: "0 < k \<Longrightarrow> k \<le> 8 \<Longrightarrow> encodeInteger 0 k p = [p]"
proof -
  assume k: "0 < k" "k \<le> 8"
  then have "0 < unat (max_prefix k)"
    using unat_max_prefix [of k] one_less_power [of "2 :: nat" k] by simp
  then have "(0 :: u32) < ucast (max_prefix k)"
    by (simp add: word_less_nat_alt)
  then show ?thesis
    by (simp add: encodeInteger_def)
qed

text \<open>The first byte of each representation selects its branch of the decoder.\<close>

lemma head_80: "\<exists>b bs. encodeInteger v 7 0x80 = b # bs \<and> b AND 0x80 \<noteq> 0"
  using encodeInteger_head [of 7 v "0x80"] by (auto simp: pattern_bits bit_or_iff prefix_bits)

lemma head_00: "\<exists>b bs. encodeInteger v 7 0 = b # bs \<and> b AND 0x80 = 0"
  using encodeInteger_head [of 7 v 0] by (auto simp: pattern_bits bit_or_iff)

lemma head_40: "\<exists>b bs. encodeInteger v 6 0x40 = b # bs \<and> b AND 0x80 = 0 \<and> b AND 0x40 \<noteq> 0"
  using encodeInteger_head [of 6 v "0x40"] by (auto simp: pattern_bits bit_or_iff prefix_bits)

lemma head_20: "\<exists>b bs. encodeInteger v 5 0x20 = b # bs \<and> b AND 0x80 = 0 \<and> b AND 0x40 = 0 \<and> b AND 0x20 \<noteq> 0"
  using encodeInteger_head [of 5 v "0x20"] by (auto simp: pattern_bits bit_or_iff prefix_bits)

lemma head_literal:
  assumes "p = 0 \<or> p = 0x10"
  shows "\<exists>b bs. encodeInteger v 4 p = b # bs \<and> b AND 0x80 = 0 \<and> b AND 0x40 = 0 \<and> b AND 0x20 = 0"
  using encodeInteger_head [of 4 v p] assms by (auto simp: pattern_bits bit_or_iff prefix_bits)

section \<open>Strings and literals\<close>

text \<open>The length a string takes on the wire, behind its length prefix.\<close>

definition wire_length :: "bool \<Rightarrow> bytes \<Rightarrow> nat" where
  "wire_length huff s = (if huff then huffman_encodedLength s else length s)"

lemma length_huffman_encode: "length (huffman_encode s) = huffman_encodedLength s"
  by (rule huffman_encode_length)

lemma unat_of_nat_u32: "n < 2 ^ 32 \<Longrightarrow> unat (of_nat n :: u32) = n"
  by (simp add: unat_of_nat)

lemma decode_encode_string:
  assumes "wire_length huff s < 2 ^ 32"
  shows "decodeString (encodeString huff s @ rest) = Inr (s, rest)"
proof (cases huff)
  case True
  obtain b bs where b: "encodeInteger (of_nat (length (huffman_encode s))) 7 0x80 = b # bs" "b AND 0x80 \<noteq> 0"
    using head_80 by blast
  have "decodeInteger 7 (b # bs @ huffman_encode s @ rest) =
      Inr (of_nat (length (huffman_encode s)), huffman_encode s @ rest)"
    using decode_encode_integer [of 7 "0x80" "of_nat (length (huffman_encode s))" "huffman_encode s @ rest"]
    by (simp add: prefix_masks b)
  then show ?thesis
    using True assms b
    by (simp add: decodeString_def encodeString_def wire_length_def length_huffman_encode [symmetric]
        unat_of_nat_u32 huffman_decode_encode)
next
  case False
  obtain b bs where b: "encodeInteger (of_nat (length s)) 7 0 = b # bs" "b AND 0x80 = 0"
    using head_00 by blast
  have "decodeInteger 7 (b # bs @ s @ rest) = Inr (of_nat (length s), s @ rest)"
    using decode_encode_integer [of 7 0 "of_nat (length s)" "s @ rest"] by (simp add: b)
  then show ?thesis
    using False assms b by (simp add: decodeString_def encodeString_def wire_length_def unat_of_nat_u32)
qed

definition field_ok :: "bool \<Rightarrow> Http2HeaderField \<Rightarrow> bool" where
  "field_ok huff f \<longleftrightarrow> wire_length huff (hname f) < 2 ^ 32 \<and> wire_length huff (hvalue f) < 2 ^ 32"

text \<open>The two spellings of a literal, by name index and by name.\<close>

definition literal_bytes :: "bool \<Rightarrow> nat \<Rightarrow> u8 \<Rightarrow> nat \<Rightarrow> Http2HeaderField \<Rightarrow> bytes" where
  "literal_bytes huff k p idx f = encodeInteger (of_nat idx) k p
     @ (if idx = 0 then encodeString huff (hname f) else []) @ encodeString huff (hvalue f)"

lemma literal_bytes_simps:
  "0 < idx \<Longrightarrow> encodeLiteralIndexed_at huff idx (hvalue f) = literal_bytes huff 6 0x40 idx f"
  "encodeLiteralIndexed huff (hname f) (hvalue f) = literal_bytes huff 6 0x40 0 f"
  "0 < idx \<Longrightarrow> encodeLiteralWithoutIndexing_at huff idx (hvalue f) = literal_bytes huff 4 0 idx f"
  "encodeLiteralWithoutIndexing huff (hname f) (hvalue f) = literal_bytes huff 4 0 0 f"
  "0 < idx \<Longrightarrow> encodeLiteralNeverIndexed_at huff idx (hvalue f) = literal_bytes huff 4 0x10 idx f"
  "encodeLiteralNeverIndexed huff (hname f) (hvalue f) = literal_bytes huff 4 0x10 0 f"
  by (simp_all add: literal_bytes_def encodeInteger_0 encodeLiteralIndexed_at_def encodeLiteralIndexed_def
      encodeLiteralWithoutIndexing_at_def encodeLiteralWithoutIndexing_def
      encodeLiteralNeverIndexed_at_def encodeLiteralNeverIndexed_def)

lemma decode_literal:
  assumes "0 < k" "k \<le> 8" "p AND mask k = 0" "field_ok huff f" "idx < 2 ^ 32"
    "idx > 0 \<longrightarrow> (\<exists>g. getField d idx = Some g \<and> hname g = hname f)"
  shows "decodeLiteral d k (literal_bytes huff k p idx f @ rest) = Inr (f, rest)"
proof -
  have z: "(of_nat idx :: u32) > 0 \<longleftrightarrow> idx > 0"
    using assms(5) by (simp add: word_less_nat_alt unat_of_nat_u32)
  have "decodeString (encodeString huff (hname f) @ r) = Inr (hname f, r)"
    "decodeString (encodeString huff (hvalue f) @ r) = Inr (hvalue f, r)" for r
    using assms(4) by (simp_all add: field_ok_def decode_encode_string)
  then show ?thesis
    using assms(5,6) by (auto simp: decodeLiteral_def literal_bytes_def decode_encode_integer [OF assms(1-3)] z
        unat_of_nat_u32)
qed

section \<open>Fields\<close>

lemma loop_indexed:
  assumes "getField d i = Some f" "i < 2 ^ 32" "\<not> over_limit d h f"
  shows "decode_loop d (encodeIndexed i @ rest) h hs = decode_loop d rest (h + header_size f) (hs @ [f])"
proof -
  obtain b bs where b: "encodeInteger (of_nat i) 7 0x80 = b # bs" "b AND 0x80 \<noteq> 0"
    using head_80 by blast
  have "decodeInteger 7 (b # bs @ rest) = Inr (of_nat i, rest)"
    using decode_encode_integer [of 7 "0x80" "of_nat i" rest] by (simp add: prefix_masks b)
  then show ?thesis
    using assms b by (simp add: encodeIndexed_def decode_loop.simps(2) unat_of_nat_u32)
qed

lemma loop_literal_indexed:
  assumes "field_ok huff f" "idx < 2 ^ 32" "idx > 0 \<longrightarrow> (\<exists>g. getField d idx = Some g \<and> hname g = hname f)"
    "\<not> over_limit d h f"
  shows "decode_loop d (literal_bytes huff 6 0x40 idx f @ rest) h hs =
    decode_loop (d\<lparr>d_table := add (d_table d) f\<rparr>) rest (h + header_size f) (hs @ [f])"
proof -
  obtain b bs where b: "literal_bytes huff 6 0x40 idx f = b # bs" "b AND 0x80 = 0" "b AND 0x40 \<noteq> 0"
    using head_40 [of "of_nat idx"] by (auto simp: literal_bytes_def)
  have "decodeLiteral d 6 (b # bs @ rest) = Inr (f, rest)"
    using decode_literal [of 6 "0x40" huff f idx d rest] assms by (simp add: prefix_masks b)
  then show ?thesis
    using assms(4) b by (simp add: decode_loop.simps(2))
qed

lemma loop_literal:
  assumes "p = 0 \<or> p = 0x10" "field_ok huff f" "idx < 2 ^ 32"
    "idx > 0 \<longrightarrow> (\<exists>g. getField d idx = Some g \<and> hname g = hname f)" "\<not> over_limit d h f"
  shows "decode_loop d (literal_bytes huff 4 p idx f @ rest) h hs =
    decode_loop d rest (h + header_size f) (hs @ [f])"
proof -
  obtain b bs where b: "literal_bytes huff 4 p idx f = b # bs" "b AND 0x80 = 0" "b AND 0x40 = 0" "b AND 0x20 = 0"
    using head_literal [OF assms(1), of "of_nat idx"] by (auto simp: literal_bytes_def)
  have "decodeLiteral d 4 (b # bs @ rest) = Inr (f, rest)"
    using decode_literal [of 4 p huff f idx d rest] assms by (auto simp: prefix_masks b)
  then show ?thesis
    using assms(5) b by (simp add: decode_loop.simps(2))
qed

lemma loop_size_update:
  assumes "n < 2 ^ 32" "n \<le> m_max_table_size d"
  shows "decode_loop d (encodeInteger (of_nat n) 5 0x20 @ rest) h hs =
    decode_loop (d\<lparr>d_table := setMaxSize (d_table d) n\<rparr>) rest h hs"
proof -
  obtain b bs where b: "encodeInteger (of_nat n) 5 0x20 = b # bs" "b AND 0x80 = 0" "b AND 0x40 = 0" "b AND 0x20 \<noteq> 0"
    using head_20 by blast
  have "decodeInteger 5 (b # bs @ rest) = Inr (of_nat n, rest)"
    using decode_encode_integer [of 5 "0x20" "of_nat n" rest] by (simp add: prefix_masks b)
  then show ?thesis
    using assms b by (simp add: decode_loop.simps(2) unat_of_nat_u32)
qed

lemma static_size: "kStaticTableSize = 61"
  by (simp add: kStaticTableSize_def kStaticTableEntries_def)

lemma static_get_bound: "static_get i = Some f \<Longrightarrow> 0 < i \<and> i \<le> 61"
  using static_size by (auto simp: static_get_def kStaticTableSize_def split: if_splits)

lemma getField_static: "static_get i = Some f \<Longrightarrow> getField d i = Some f"
  using static_get_bound [of i f] by (simp add: getField_def static_size)

lemma getField_dynamic: "getField d (Suc (kStaticTableSize + i)) = dyn_get (d_table d) i"
  by (simp add: getField_def)

text \<open>What \<open>find\<close> answers resolves on the decoder side, with a 32-bit index.\<close>

lemma static_hit:
  assumes "static_find n v = (i, no)" "0 < i"
  shows "i < 2 ^ 32" "\<exists>f. getField d i = Some f \<and> hname f = n \<and> (\<not> no \<longrightarrow> hvalue f = v)"
proof -
  obtain f where "static_get i = Some f" "hname f = n" "\<not> no \<longrightarrow> hvalue f = v"
    using static.look_up_sound [of n v i no] assms by auto
  then show "i < 2 ^ 32" "\<exists>f. getField d i = Some f \<and> hname f = n \<and> (\<not> no \<longrightarrow> hvalue f = v)"
    using static_get_bound [of i f] getField_static by auto
qed

definition encodable :: "HpackDynamicTable \<Rightarrow> bool" where
  "encodable t \<longleftrightarrow> table_ok t \<and> m_max_size t < 2 ^ 32"

lemma dynamic_hit:
  assumes "encodable (d_table d)" "dyn_find (d_table d) n v = (i, no)" "i \<noteq> SIZE_MAX"
  shows "Suc (kStaticTableSize + i) < 2 ^ 32"
    "\<exists>f. getField d (Suc (kStaticTableSize + i)) = Some f \<and> hname f = n \<and> (\<not> no \<longrightarrow> hvalue f = v)"
proof -
  have b: "bounded_table (d_table d)"
    using assms(1) by (simp add: encodable_def bounded_table_def SIZE_MAX_def)
  obtain f where f: "dyn_get (d_table d) i = Some f" "hname f = n" "\<not> no \<longrightarrow> hvalue f = v"
    using dynamic.look_up_sound [OF b assms(2,3)] by blast
  then have "i < m_count (d_table d)"
    by (simp add: dyn_get_def split: if_splits)
  then show "Suc (kStaticTableSize + i) < 2 ^ 32"
    using count_bound [of "d_table d"] assms(1) by (simp add: encodable_def static_size)
  show "\<exists>f. getField d (Suc (kStaticTableSize + i)) = Some f \<and> hname f = n \<and> (\<not> no \<longrightarrow> hvalue f = v)"
    using f by (simp add: getField_dynamic)
qed

lemma encodable_add: "encodable t \<Longrightarrow> encodable (add t f)"
  by (simp add: encodable_def add_refines)

lemma same_table: "d_table d = t \<Longrightarrow> d\<lparr>d_table := t\<rparr> = d"
  by auto

lemma loop_encodeField:
  assumes sync: "d_table d = e_table e" and enc: "encodable (e_table e)"
    and f: "field_ok (m_use_huffman e) f" "\<not> over_limit d h f"
    and out: "encodeField e f = (out, e')"
  shows "decode_loop d (out @ rest) h hs =
    decode_loop (d\<lparr>d_table := e_table e'\<rparr>) rest (h + header_size f) (hs @ [f])"
proof -
  obtain i no where s: "static_find (hname f) (hvalue f) = (i, no)"
    by fastforce
  obtain j dno where y: "dyn_find (d_table d) (hname f) (hvalue f) = (j, dno)"
    by fastforce
  have f_eq: "g = f" if "hname g = hname f" "hvalue g = hvalue f" for g
    using that by simp
  note hit = f static_hit(1) [OF s] static_hit(2) [OF s, of d] dynamic_hit [OF _ y] enc sync
  note loops = loop_indexed loop_literal_indexed loop_literal
  consider "0 < i" "\<not> no" | "\<not> (0 < i \<and> \<not> no)" "j \<noteq> SIZE_MAX" "\<not> dno"
    | "\<not> (0 < i \<and> \<not> no)" "\<not> (j \<noteq> SIZE_MAX \<and> \<not> dno)" "sensitive (hname f)"
    | "\<not> (0 < i \<and> \<not> no)" "\<not> (j \<noteq> SIZE_MAX \<and> \<not> dno)" "\<not> sensitive (hname f)"
    by blast
  then show ?thesis
  proof cases
    case 1
    then obtain g where "getField d i = Some g" "g = f" "i < 2 ^ 32"
      using hit f_eq by blast
    then show ?thesis
      using 1 out s f sync by (auto simp: encodeField_def loops same_table)
  next
    case 2
    then obtain g where "getField d (Suc (kStaticTableSize + j)) = Some g" "g = f"
        "Suc (kStaticTableSize + j) < 2 ^ 32"
      using hit f_eq by metis
    then show ?thesis
      using 2 out s y f sync by (auto simp: encodeField_def loops same_table)
  next
    case 3
    then show ?thesis
      using out s y sync hit by (auto simp: encodeField_def literal_bytes_simps loops same_table Let_def split: if_splits)
  next
    case 4
    then show ?thesis
      using out s y sync hit
      by (auto simp: encodeField_def literal_bytes_simps loops Let_def split: if_splits)
  qed
qed

lemma encodeField_state:
  "encodeField e f = (out, e') \<Longrightarrow> e' = e \<or> e' = e\<lparr>e_table := add (e_table e) f\<rparr>"
  by (auto simp: encodeField_def Let_def split: prod.splits if_splits)

lemma over_limit_iff:
  "over_limit d h f \<longleftrightarrow> h + header_size f > m_max_header_list_size d"
  by (auto simp: over_limit_def)

section \<open>Header blocks\<close>

lemma loop_encode_fields:
  assumes "d_table d = e_table e" "encodable (e_table e)" "\<forall>f \<in> set fs. field_ok (m_use_huffman e) f"
    "h + fields_size fs \<le> m_max_header_list_size d" "encode_fields e fs = (out, e')"
  shows "decode_loop d (out @ rest) h hs = decode_loop (d\<lparr>d_table := e_table e'\<rparr>) rest (h + fields_size fs) (hs @ fs)
    \<and> encodable (e_table e') \<and> m_use_huffman e' = m_use_huffman e
    \<and> m_table_size_update_pending e' = m_table_size_update_pending e"
  using assms
proof (induction fs arbitrary: d e h hs out)
  case Nil
  then show ?case
    by (auto simp: same_table)
next
  case (Cons f fs)
  obtain o1 e1 where e1: "encodeField e f = (o1, e1)"
    by fastforce
  obtain o2 where o2: "encode_fields e1 fs = (o2, e')" "out = o1 @ o2"
    using Cons.prems(5) e1 by (auto split: prod.splits)
  define d1 where "d1 = d\<lparr>d_table := e_table e1\<rparr>"
  have e1': "m_use_huffman e1 = m_use_huffman e" "encodable (e_table e1)"
    "m_table_size_update_pending e1 = m_table_size_update_pending e"
    using encodeField_state [OF e1] Cons.prems(2) by (auto simp: encodable_add)
  have "decode_loop d (out @ rest) h hs = decode_loop d1 (o2 @ rest) (h + header_size f) (hs @ [f])"
    using Cons.prems loop_encodeField [OF Cons.prems(1,2) _ _ e1, of h "o2 @ rest" hs] o2(2)
    by (simp add: over_limit_iff d1_def)
  then show ?case
    using Cons.IH [of d1 e1 "h + header_size f" o2 "hs @ [f]"] Cons.prems e1' o2(1)
    by (simp add: d1_def add.assoc)
qed

text \<open>Encoder and decoder agree on the table, once the decoder has seen a pending size update.\<close>

definition in_sync :: "HpackEncoder \<Rightarrow> HpackDecoder \<Rightarrow> bool" where
  "in_sync e d \<longleftrightarrow> e_table e =
     (if m_table_size_update_pending e then setMaxSize (d_table d) (m_pending_table_size e) else d_table d)"

definition peers :: "HpackEncoder \<Rightarrow> HpackDecoder \<Rightarrow> bool" where
  "peers e d \<longleftrightarrow> in_sync e d \<and> encodable (e_table e)
     \<and> (m_table_size_update_pending e \<longrightarrow> m_pending_table_size e < 2 ^ 32 \<and> m_pending_table_size e \<le> m_max_table_size d)"

definition sendable :: "HpackEncoder \<Rightarrow> HpackDecoder \<Rightarrow> Http2HeaderField list \<Rightarrow> bool" where
  "sendable e d headers \<longleftrightarrow> (\<forall>f \<in> set headers. field_ok (m_use_huffman e) f)
     \<and> fields_size headers \<le> m_max_header_list_size d"

lemma decode_encode_block:
  assumes "peers e d" "sendable e d headers" "hpack_encode e headers = (out, e')"
  shows "\<exists>t. decode_string d out = (Inr headers, d\<lparr>d_table := t\<rparr>) \<and> peers e' (d\<lparr>d_table := t\<rparr>)
    \<and> m_use_huffman e' = m_use_huffman e"
proof -
  define d1 where "d1 = d\<lparr>d_table := e_table e\<rparr>"
  define e1 where "e1 = e\<lparr>m_table_size_update_pending := False\<rparr>"
  have no_update: "\<not> m_table_size_update_pending e \<Longrightarrow> e\<lparr>m_table_size_update_pending := False\<rparr> = e"
    by (cases e) simp
  obtain body where body: "encode_fields e1 headers = (body, e')"
      "out = (if m_table_size_update_pending e then encodeInteger (of_nat (m_pending_table_size e)) 5 0x20 @ body else body)"
    using assms(3)
    by (cases "m_table_size_update_pending e") (auto simp: hpack_encode_def e1_def no_update split: prod.splits)
  have pre: "d_table d1 = e_table e1" "encodable (e_table e1)" "\<forall>f \<in> set headers. field_ok (m_use_huffman e1) f"
    "0 + fields_size headers \<le> m_max_header_list_size d1"
    using assms(1,2) by (auto simp: d1_def e1_def peers_def sendable_def)
  have r: "decode_loop d1 body 0 [] = (Inr headers, d\<lparr>d_table := e_table e'\<rparr>)" "encodable (e_table e')"
    "m_use_huffman e' = m_use_huffman e" "\<not> m_table_size_update_pending e'"
    using loop_encode_fields [OF pre body(1), of "[]" "[]"] by (simp_all add: d1_def e1_def)
  have "decode_loop d out 0 [] = decode_loop d1 body 0 []"
    using assms(1) body(2) by (auto simp: peers_def in_sync_def d1_def loop_size_update same_table)
  then show ?thesis
    using r by (intro exI [of _ "e_table e'"]) (simp add: decode_string_def hpack_decode_def peers_def in_sync_def)
qed

lemma loop_encodeStateless:
  assumes "\<forall>f \<in> set fs. field_ok (m_use_huffman e) f" "h + fields_size fs \<le> m_max_header_list_size d"
  shows "decode_loop d (encodeStateless e fs) h hs = (Inr (hs @ fs), d)"
  using assms
proof (induction fs arbitrary: h hs)
  case (Cons f fs)
  obtain i no where s: "static_find (hname f) (hvalue f) = (i, no)"
    by fastforce
  have f: "field_ok (m_use_huffman e) f" "\<not> over_limit d h f"
    using Cons.prems by (auto simp: over_limit_iff)
  have f_eq: "g = f" if "hname g = hname f" "hvalue g = hvalue f" for g
    using that by simp
  note hit = f static_hit(1) [OF s] static_hit(2) [OF s, of d]
  have "decode_loop d (encodeFieldStateless e f @ rest) h hs = decode_loop d rest (h + header_size f) (hs @ [f])" for rest
  proof (cases "0 < i \<and> \<not> no")
    case True
    then have "getField d i = Some f" "i < 2 ^ 32"
      using hit f_eq by fastforce+
    then show ?thesis
      using True s f by (simp add: encodeFieldStateless_def loop_indexed)
  next
    case False
    then show ?thesis
      using s hit by (auto simp: encodeFieldStateless_def literal_bytes_simps loop_literal Let_def)
  qed
  then show ?case
    using Cons.IH [of "h + header_size f" "hs @ [f]"] Cons.prems by (simp add: encodeStateless_def)
qed (simp add: encodeStateless_def)

lemma target_loop_decode:
  "target_loop d data h (foldl record_target empty_target hs) =
   map_prod (map_sum id (foldl record_target empty_target)) id (decode_loop d data h hs)"
proof (induction d data h hs rule: decode_loop.induct)
  case (2 d byte bytes h hs)
  then show ?case
    unfolding target_loop.simps(2) decode_loop.simps(2)
    by (auto simp: record_field_def split: sum.splits option.splits)
qed simp

section \<open>Decoder invariant\<close>

definition decoder_ok :: "HpackDecoder \<Rightarrow> bool" where
  "decoder_ok d \<longleftrightarrow> table_ok (d_table d) \<and> m_max_size (d_table d) \<le> m_max_table_size d"

lemma huffman_decode_error: "huffman_decode data = Inl e \<Longrightarrow> e = CompressionError"
  by (auto simp: huffman_decode_bwalk split: option.splits if_splits)

lemma decodeString_error: "decodeString data = Inl e \<Longrightarrow> e = CompressionError"
  by (auto simp: decodeString_def dest: decodeInteger_error huffman_decode_error
      split: list.splits sum.splits if_splits)

lemma decodeLiteral_error: "decodeLiteral d k data = Inl e \<Longrightarrow> e = CompressionError"
  by (auto simp: decodeLiteral_def dest!: decodeInteger_error decodeString_error
      split: sum.splits option.splits if_splits)

definition decode_post :: "HpackDecoder \<Rightarrow> (Http2ErrorCode + Http2HeaderField list) \<times> HpackDecoder \<Rightarrow> bool" where
  "decode_post d res \<longleftrightarrow> (case res of (r, d') \<Rightarrow>
     decoder_ok d' \<and> m_max_table_size d' = m_max_table_size d
     \<and> m_max_header_list_size d' = m_max_header_list_size d
     \<and> (case r of Inl e \<Rightarrow> e = CompressionError
        | Inr headers \<Rightarrow> fields_size headers \<le> m_max_header_list_size d))"

lemma decode_loop_post:
  "decoder_ok d \<Longrightarrow> h = fields_size hs \<Longrightarrow> h \<le> m_max_header_list_size d \<Longrightarrow> decode_post d (decode_loop d data h hs)"
proof (induction d data h hs rule: decode_loop.induct)
  case (2 d byte bytes h hs)
  have err: "decodeInteger k x = Inl e \<Longrightarrow> decode_post d (Inl e, d)"
    "decodeLiteral d k x = Inl e \<Longrightarrow> decode_post d (Inl e, d)" "decode_post d (Inl CompressionError, d)" for k x e
    using 2(5) by (auto simp: decode_post_def dest: decodeInteger_error decodeLiteral_error)
  have upd: "decoder_ok (d\<lparr>d_table := add (d_table d) f\<rparr>)"
    "n \<le> m_max_table_size d \<Longrightarrow> decoder_ok (d\<lparr>d_table := setMaxSize (d_table d) n\<rparr>)" for f n
    using 2(5) by (simp_all add: decoder_ok_def add_refines table_ok_setMaxSize)
  have keep: "decode_post (d\<lparr>d_table := t\<rparr>) res = decode_post d res" for t res
    by (auto simp: decode_post_def split: prod.splits sum.splits)
  show ?case
    unfolding decode_loop.simps(2)
    using 2 err upd by (auto simp: over_limit_iff keep split: sum.split option.split)
qed (simp add: decode_post_def)

section \<open>Properties\<close>


text \<open>One direction of a connection: header blocks encoded and decoded in turn.\<close>

fun hpack_session :: "HpackEncoder \<Rightarrow> HpackDecoder \<Rightarrow> Http2HeaderField list list \<Rightarrow> (Http2ErrorCode + Http2HeaderField list) list" where
  "hpack_session e d [] = []"
| "hpack_session e d (headers # blocks) =
    (let (out, e') = hpack_encode e headers; (r, d') = decode_string d out
     in r # hpack_session e' d' blocks)"

lemma peers_new: "n < 2 ^ 32 \<Longrightarrow> peers (new_encoder n) (new_decoder n)"
  by (simp add: peers_def in_sync_def new_encoder_def new_decoder_def encodable_def table_ok_new new_table_def [of n])
     (simp add: new_table_def table_ok_def ring_ok_def entries_def)

lemma hpack_session_roundtrip:
  "peers e d \<Longrightarrow> \<forall>b \<in> set blocks. sendable e d b \<Longrightarrow> hpack_session e d blocks = map Inr blocks"
proof (induction blocks arbitrary: e d)
  case (Cons b blocks)
  obtain out e' where o: "hpack_encode e b = (out, e')"
    by fastforce
  obtain t where t: "decode_string d out = (Inr b, d\<lparr>d_table := t\<rparr>)" "peers e' (d\<lparr>d_table := t\<rparr>)"
      "m_use_huffman e' = m_use_huffman e"
    using decode_encode_block [OF Cons.prems(1) _ o] Cons.prems(2) by auto
  have "\<forall>b \<in> set blocks. sendable e' (d\<lparr>d_table := t\<rparr>) b"
    using Cons.prems(2) t(3) by (auto simp: sendable_def)
  then show ?case
    using Cons.IH [OF t(2)] t(1) o by simp
qed simp

text \<open>Any number of header blocks: from a freshly created encoder and decoder of the same table
  size, every block of a connection is decoded to the header list that was encoded.\<close>

theorem header_blocks_roundtrip:
  assumes "n < 2 ^ 32" "\<forall>b \<in> set blocks. sendable (new_encoder n) (new_decoder n) b"
  shows "hpack_session (new_encoder n) (new_decoder n) blocks = map Inr blocks"
  using peers_new [OF assms(1)] assms(2) by (rule hpack_session_roundtrip)

definition sample_headers :: "Http2HeaderField list" where
  "sample_headers = [hf '':method'' ''GET'', hf ''x-trace'' ''1'', hf ''cookie'' ''c'']"

lemma sample_sendable: "sendable (new_encoder 4096) (new_decoder 4096) sample_headers"
  by (simp add: sample_headers_def sendable_def field_ok_def wire_length_def new_encoder_def new_decoder_def
      header_size_def str_def SIZE_MAX_def)


theorem header_blocks_roundtrip_witness:
  "hpack_session (new_encoder 4096) (new_decoder 4096) [sample_headers, sample_headers] =
   [Inr sample_headers, Inr sample_headers]"
  using header_blocks_roundtrip [of 4096 "[sample_headers, sample_headers]"] sample_sendable by simp

text \<open>The stateless encoder needs no agreement: whatever the decoder's table holds, a block
  written by \<open>encodeStateless\<close> is decoded to its header list and leaves the decoder unchanged.\<close>

theorem stateless_roundtrip:
  assumes "sendable e d headers"
  shows "decode_string d (encodeStateless e headers) = (Inr headers, d)"
  using assms loop_encodeStateless [of headers e 0 d "[]"]
  by (simp add: sendable_def decode_string_def hpack_decode_def)

theorem stateless_roundtrip_witness:
  "decode_string (new_decoder 4096) (encodeStateless (new_encoder 4096) sample_headers) =
   (Inr sample_headers, new_decoder 4096)"
  by (rule stateless_roundtrip [OF sample_sendable])

text \<open>The fast path for routing agrees with the full decoder: on every input, well-formed or not,
  \<open>decodeRequestTarget\<close> fails when \<open>decode\<close> fails, with the same error, leaves the decoder in the same
  state, and otherwise returns the last method, path, if-none-match and range of the header list.\<close>

theorem request_target_projection:
  "decodeRequestTarget d data len =
   map_prod (map_sum id (foldl record_target empty_target)) id (hpack_decode d data len)"
  using target_loop_decode [of d _ 0 "[]"]
  by (auto simp: decodeRequestTarget_def hpack_decode_def split: option.split)

text \<open>What the decoder guarantees on arbitrary input: its table stays well-formed and within the
  announced limit, on errors too; an accepted header list respects the header list limit; every
  rejection is a compression error.\<close>

theorem decode_invariant:
  assumes "decoder_ok d"
  shows "decode_post d (hpack_decode d data len)"
  using assms decode_loop_post [of d 0 "[]"]
  by (auto simp: hpack_decode_def decode_post_def split: option.split)

theorem decode_invariant_witness:
  "decoder_ok (new_decoder 64) \<and> fst (hpack_decode (new_decoder 64) (Some [0x3F, 0x42]) 2) = Inl CompressionError
   \<and> decode_post (new_decoder 64) (hpack_decode (new_decoder 64) (Some [0x3F, 0x42]) 2)"
proof -
  have "decoder_ok (new_decoder 64)"
    by (simp add: decoder_ok_def new_decoder_def table_ok_new) (simp add: new_table_def)
  moreover have "fst (hpack_decode (new_decoder 64) (Some [0x3F, 0x42]) 2) = Inl CompressionError"
    by (simp add: hpack_decode_def decode_loop.simps(2) decodeInteger_def new_decoder_def max_prefix_def)
  ultimately show ?thesis
    using decode_invariant [of "new_decoder 64"] by blast
qed

end
