(* ===== verification/H2_Conn.thy ===== *)
theory H2_Conn
  imports H2_Stream Hpack_Codec
begin

text \<open>
  The parts of \<^verbatim>\<open>galay-http2/kernel/http2_conn.h\<close> that are plain computation: \<open>Http2Settings\<close>, the
  receive-window policy, and the extraction of frames from the receive buffer
  (\<open>parseBufferedFrames\<close>, \<open>parseBufferedFrameBatch\<close>). The ring buffer is the list of its readable
  bytes: whether a frame lies in one segment or is copied together from two makes no difference to
  the bytes that are parsed.
\<close>

section \<open>Settings\<close>

record Http2Settings =
  header_table_size :: u32
  enable_push :: u32
  max_concurrent_streams :: u32
  initial_window_size :: u32
  max_frame_size :: u32
  max_header_list_size :: u32

definition default_settings :: Http2Settings where
  "default_settings = \<lparr>header_table_size = 4096, enable_push = 1, max_concurrent_streams = 100,
     initial_window_size = 65535, max_frame_size = 16384, max_header_list_size = 8192\<rparr>"

text \<open>One iteration of \<open>applySettings\<close>; the settings before a rejected one stay applied.\<close>

definition apply_setting :: "Setting \<Rightarrow> Http2Settings \<Rightarrow> Http2ErrorCode \<times> Http2Settings" where
  "apply_setting x s =
    (let i = s_id x; v = s_value x in
     if i = SID_HeaderTableSize then (NoError, s\<lparr>header_table_size := v\<rparr>)
     else if i = SID_EnablePush then
       if v > 1 then (ProtocolError, s) else (NoError, s\<lparr>enable_push := v\<rparr>)
     else if i = SID_MaxConcurrentStreams then (NoError, s\<lparr>max_concurrent_streams := v\<rparr>)
     else if i = SID_InitialWindowSize then
       if v > 2147483647 then (FlowControlError, s) else (NoError, s\<lparr>initial_window_size := v\<rparr>)
     else if i = SID_MaxFrameSize then
       if v < 16384 \<or> v > 16777215 then (ProtocolError, s) else (NoError, s\<lparr>max_frame_size := v\<rparr>)
     else if i = SID_MaxHeaderListSize then (NoError, s\<lparr>max_header_list_size := v\<rparr>)
     else (NoError, s))"

fun applySettings :: "Setting list \<Rightarrow> Http2Settings \<Rightarrow> Http2ErrorCode \<times> Http2Settings" where
  "applySettings [] s = (NoError, s)"
| "applySettings (x # xs) s =
    (case apply_setting x s of (e, s') \<Rightarrow> if e \<noteq> NoError then (e, s') else applySettings xs s')"

definition toFrame :: "Http2Settings \<Rightarrow> Http2Frame" where
  "toFrame s = SettingsFrame (default_header\<lparr>h_type := FT_Settings\<rparr>)
    [\<lparr>s_value = header_table_size s, s_id = SID_HeaderTableSize\<rparr>,
     \<lparr>s_value = enable_push s, s_id = SID_EnablePush\<rparr>,
     \<lparr>s_value = max_concurrent_streams s, s_id = SID_MaxConcurrentStreams\<rparr>,
     \<lparr>s_value = initial_window_size s, s_id = SID_InitialWindowSize\<rparr>,
     \<lparr>s_value = max_frame_size s, s_id = SID_MaxFrameSize\<rparr>,
     \<lparr>s_value = max_header_list_size s, s_id = SID_MaxHeaderListSize\<rparr>]"

definition validateSettingsFrame :: "Http2Frame \<Rightarrow> Http2ErrorCode" where
  "validateSettingsFrame f =
    (if streamId f \<noteq> 0 then ProtocolError
     else if isAck f \<and> m_settings f \<noteq> [] then FrameSizeError else NoError)"

definition settings_ok :: "Http2Settings \<Rightarrow> bool" where
  "settings_ok s \<longleftrightarrow> enable_push s \<le> 1 \<and> initial_window_size s \<le> 2147483647
     \<and> 16384 \<le> max_frame_size s \<and> max_frame_size s \<le> 16777215"

lemma apply_setting_ok: "settings_ok s \<Longrightarrow> settings_ok (snd (apply_setting x s))"
  by (simp add: settings_ok_def apply_setting_def Let_def not_less)

lemma applySettings_ok: "settings_ok s \<Longrightarrow> settings_ok (snd (applySettings xs s))"
proof (induction xs arbitrary: s)
  case (Cons x xs)
  then show ?case
    using apply_setting_ok [of s x] by (simp add: case_prod_unfold)
qed simp

lemma settings_roundtrip:
  assumes "settings_ok s"
  shows "applySettings (m_settings (toFrame s)) t = (NoError, s)"
  using assms by (simp add: settings_ok_def toFrame_def apply_setting_def Let_def h2_enum not_less)

section \<open>Receive windows\<close>

type_synonym flow_strategy = "int \<Rightarrow> int \<Rightarrow> u32 \<Rightarrow> nat \<Rightarrow> u32 \<times> u32"

text \<open>The two targets of \<open>evaluateRecvWindowUpdate\<close>; \<open>strategy\<close> is the user's
  \<open>flow_control_strategy\<close>, if one is configured. The products are 32-bit products.\<close>

definition conn_target :: "u32 \<Rightarrow> Http2Settings \<Rightarrow> u32" where
  "conn_target target local =
    (let t = (if target = 0 then initial_window_size local else target)
     in if t = 0 then kDefaultInitialWindowSize else t)"

definition stream_target :: "Http2Settings \<Rightarrow> u32" where
  "stream_target local = (if initial_window_size local = 0 then kDefaultInitialWindowSize else initial_window_size local)"

definition window_increment :: "u32 \<Rightarrow> int \<Rightarrow> u32" where
  "window_increment target window = (if window < sint (target * 3 div 4) then target - of_int window else 0)"

definition evaluateRecvWindowUpdate ::
  "u32 \<Rightarrow> flow_strategy option \<Rightarrow> Http2Settings \<Rightarrow> int \<Rightarrow> int \<Rightarrow> nat \<Rightarrow> u32 \<times> u32" where
  "evaluateRecvWindowUpdate target strategy local conn_window stream_window data_size =
    (case strategy of
       Some f \<Rightarrow> f conn_window stream_window (conn_target target local) data_size
     | None \<Rightarrow> (window_increment (conn_target target local) conn_window,
                 window_increment (stream_target local) stream_window))"

section \<open>Frames in the receive buffer\<close>

definition isKnownHttp2FrameType :: "Http2FrameType \<Rightarrow> bool" where
  "isKnownHttp2FrameType t \<longleftrightarrow> t \<in> {FT_Data, FT_Headers, FT_Priority, FT_RstStream, FT_Settings, FT_PushPromise,
     FT_Ping, FT_GoAway, FT_WindowUpdate, FT_Continuation}"

text \<open>
  Taking at most \<open>n\<close> frames of at most \<open>m\<close> octets from the buffer: the frames or the error, and what
  is left in the buffer. Frames of unknown types are skipped.
\<close>

function parse_buffered :: "u32 \<Rightarrow> nat \<Rightarrow> bytes \<Rightarrow> (Http2ErrorCode + Http2Frame list) \<times> bytes" where
  "parse_buffered m n buf =
    (if n = 0 \<or> length buf < kHttp2FrameHeaderLength then (Inr [], buf)
     else
       let header = the (Http2FrameHeader_deserialize buf);
           total = kHttp2FrameHeaderLength + unat (h_length header) in
       if h_length header > m then (Inl FrameSizeError, buf)
       else if length buf < total then (Inr [], buf)
       else if \<not> isKnownHttp2FrameType (h_type header) then parse_buffered m n (drop total buf)
       else (case the (parseFrame (take total buf)) of
           Inl e \<Rightarrow> (Inl e, buf)
         | Inr f \<Rightarrow>
             (case parse_buffered m (n - 1) (drop total buf) of
                (Inl e, rest) \<Rightarrow> (Inl e, rest)
              | (Inr fs, rest) \<Rightarrow> (Inr (f # fs), rest))))"
  by pat_completeness auto
termination
  by (relation "measure (\<lambda>(_, _, buf). length buf)") (auto simp: kHttp2FrameHeaderLength_def)

declare parse_buffered.simps [simp del]

text \<open>\<open>parseBufferedFrames\<close> limits frames by the local settings, the batch reader of the connection
  by the peer's.\<close>

definition parseBufferedFrames :: "Http2Settings \<Rightarrow> nat \<Rightarrow> bytes \<Rightarrow> (Http2ErrorCode + Http2Frame list) \<times> bytes" where
  "parseBufferedFrames local n buf = parse_buffered (max_frame_size local) n buf"

definition parseBufferedFrameBatch :: "Http2Settings \<Rightarrow> nat \<Rightarrow> bytes \<Rightarrow> (Http2ErrorCode + Http2Frame list) \<times> bytes" where
  "parseBufferedFrameBatch peer n buf = parse_buffered (max_frame_size peer) n buf"


section \<open>The byte stream and the frames in it\<close>

lemma deserialize_append: "9 \<le> length b \<Longrightarrow> Http2FrameHeader_deserialize (b @ c) = Http2FrameHeader_deserialize b"
  by (cases "b = []") (auto simp: Http2FrameHeader_deserialize_def rd32_in nth_append)

text \<open>The outcome of a parse continued on the rest of the stream.\<close>

fun continue_parse :: "Http2Frame list \<Rightarrow> (Http2ErrorCode + Http2Frame list) \<times> bytes \<Rightarrow> (Http2ErrorCode + Http2Frame list) \<times> bytes" where
  "continue_parse fs (Inl e, rest) = (Inl e, rest)"
| "continue_parse fs (Inr gs, rest) = (Inr (fs @ gs), rest)"

lemma continue_parse_Nil [simp]: "continue_parse [] r = r"
  by (cases "([] :: Http2Frame list, r)" rule: continue_parse.cases) auto

lemma continue_parse_append [simp]: "continue_parse fs (continue_parse gs r) = continue_parse (fs @ gs) r"
  by (cases "(fs, r)" rule: continue_parse.cases) auto

lemma parse_case: "(case r of (Inl e, rest) \<Rightarrow> (Inl e, rest) | (Inr fs, rest) \<Rightarrow> (Inr (f # fs), rest)) = continue_parse [f] r"
  by (cases r; cases "fst r") auto

lemma parse_buffered_append:
  "parse_buffered m n (buf @ suf) = (case parse_buffered m n buf of
     (Inl e, rest) \<Rightarrow> (Inl e, rest @ suf)
   | (Inr fs, rest) \<Rightarrow> continue_parse fs (parse_buffered m (n - length fs) (rest @ suf)))"
proof (induction m n buf rule: parse_buffered.induct)
  case (1 m n buf)
  show ?case
  proof (cases "n = 0 \<or> length buf < 9")
    case True
    then show ?thesis
      by (simp add: parse_buffered.simps [of m n buf] kHttp2FrameHeaderLength_def)
  next
    case False
    let ?h = "the (Http2FrameHeader_deserialize buf)"
    let ?t = "9 + unat (h_length ?h)"
    have h: "Http2FrameHeader_deserialize (buf @ suf) = Http2FrameHeader_deserialize buf"
      using False by (simp add: deserialize_append)
    consider "h_length ?h > m" | "\<not> h_length ?h > m" "length buf < ?t" | "\<not> h_length ?h > m" "?t \<le> length buf"
      by linarith
    then show ?thesis
    proof cases
      case 1
      then show ?thesis
        using False h by (subst (1 2) parse_buffered.simps) (simp add: kHttp2FrameHeaderLength_def Let_def)
    next
      case 2
      then show ?thesis
        using False by (simp add: parse_buffered.simps [of m n buf] kHttp2FrameHeaderLength_def Let_def)
    next
      case 3
      have le: "\<not> length (buf @ suf) < ?t" "\<not> length buf < ?t"
        using 3 by auto
      have td: "take ?t (buf @ suf) = take ?t buf" "drop ?t (buf @ suf) = drop ?t buf @ suf"
        using 3 by simp_all
      show ?thesis
      proof (cases "isKnownHttp2FrameType (h_type ?h)")
        case False
        then show ?thesis
          using 3 \<open>\<not> (n = 0 \<or> length buf < 9)\<close> h td le 1(1) [OF _ refl refl]
          by (subst (1 2) parse_buffered.simps) (simp add: kHttp2FrameHeaderLength_def Let_def)
      next
        case True
        show ?thesis
        proof (cases "the (parseFrame (take ?t buf))")
          case (Inl e)
          then show ?thesis
            using 3 False True h td le by (subst (1 2) parse_buffered.simps) (simp add: kHttp2FrameHeaderLength_def Let_def)
        next
          case (Inr f)
          have IH: "parse_buffered m (n - 1) (drop ?t buf @ suf) = (case parse_buffered m (n - 1) (drop ?t buf) of
              (Inl e, rest) \<Rightarrow> (Inl e, rest @ suf)
            | (Inr fs, rest) \<Rightarrow> continue_parse fs (parse_buffered m (n - 1 - length fs) (rest @ suf)))"
            by (rule 1(2) [OF _ refl refl, unfolded kHttp2FrameHeaderLength_def]) (use 3 False True Inr in simp_all)
          have step: "parse_buffered m n buf = continue_parse [f] (parse_buffered m (n - 1) (drop ?t buf))"
            "parse_buffered m n (buf @ suf) = continue_parse [f] (parse_buffered m (n - 1) (drop ?t buf @ suf))"
            using 3 False True Inr h td le
            by (subst parse_buffered.simps, simp add: kHttp2FrameHeaderLength_def Let_def parse_case)+
          show ?thesis
            unfolding step IH
            by (cases "parse_buffered m (n - 1) (drop ?t buf)"; cases "fst (parse_buffered m (n - 1) (drop ?t buf))") simp_all
        qed
      qed
    qed
  qed
qed

lemma parse_buffered_serialized:
  assumes "frame_ok f" "payload_length f \<le> unat m" "0 < n"
  shows "parse_buffered m n (serialize f @ buf) = continue_parse [with_length f] (parse_buffered m (n - 1) buf)"
proof -
  let ?h = "m_header (with_length f)"
  have wf: "frame_wf f" "payload_length f < 2 ^ 24" "h_stream_id (m_header f) < 2 ^ 31"
    using assms(1) by (simp_all add: frame_ok_def)
  have len: "length (serialize f) = 9 + payload_length f"
    by (rule length_serialize [OF wf(1)])
  have hl: "unat (h_length ?h) = payload_length f"
    using wf(2) by (simp add: with_length_def unat_of_nat_2p24)
  have h: "Http2FrameHeader_deserialize (serialize f @ buf) = Some ?h"
    unfolding serialize_split [OF wf(1)] append_assoc
    by (rule header_roundtrip) (use wf of_nat_less_2p24 [OF wf(2)] in \<open>simp_all add: with_length_def\<close>)
  have t: "isKnownHttp2FrameType (h_type ?h)"
    using wf(1) by (cases f) (simp_all add: with_length_def isKnownHttp2FrameType_def)
  have le: "\<not> h_length ?h > m"
    using assms(2) hl by (simp add: word_less_nat_alt)
  have p: "parseFrame (serialize f) = Some (Inr (with_length f))"
    using frame_roundtrip_raw [OF assms(1), of "[]"] by simp
  show ?thesis
    using assms(3) h hl t le p len
    by (subst parse_buffered.simps) (simp add: kHttp2FrameHeaderLength_def Let_def parse_case)
qed

lemma parse_buffered_frames:
  assumes "list_all (\<lambda>f. frame_ok f \<and> payload_length f \<le> unat m) fs" "length fs \<le> n"
  shows "parse_buffered m n (concat (map serialize fs) @ buf) = continue_parse (map with_length fs) (parse_buffered m (n - length fs) buf)"
  using assms
proof (induction fs arbitrary: n)
  case (Cons f fs)
  have "parse_buffered m (n - 1) (concat (map serialize fs) @ buf)
      = continue_parse (map with_length fs) (parse_buffered m (n - 1 - length fs) buf)"
    using Cons by (intro Cons.IH) auto
  then show ?case
    using Cons.prems by (simp add: parse_buffered_serialized)
qed simp

text \<open>One unfolding of the loop: the cases of \<open>parse_buffered\<close>.\<close>

lemma parse_buffered_cases:
  obtains (stop) "n = 0 \<or> length buf < 9 \<or> (length buf < 9 + unat (h_length (the (Http2FrameHeader_deserialize buf)))
       \<and> \<not> h_length (the (Http2FrameHeader_deserialize buf)) > m)" "parse_buffered m n buf = (Inr [], buf)"
  | (error) e where "parse_buffered m n buf = (Inl e, buf)" "\<And>k. 0 < k \<Longrightarrow> parse_buffered m k buf = (Inl e, buf)"
  | (skip) t where "9 \<le> t" "t \<le> length buf" "\<And>k. 0 < k \<Longrightarrow> parse_buffered m k buf = parse_buffered m k (drop t buf)" "0 < n"
  | (frame) t f where "9 \<le> t" "t \<le> length buf" "0 < n"
      "\<And>k. 0 < k \<Longrightarrow> parse_buffered m k buf = continue_parse [f] (parse_buffered m (k - 1) (drop t buf))"
proof -
  let ?h = "the (Http2FrameHeader_deserialize buf)"
  let ?t = "9 + unat (h_length ?h)"
  show ?thesis
  proof (cases "n = 0 \<or> length buf < 9 \<or> length buf < ?t \<and> \<not> h_length ?h > m")
    case True
    have "parse_buffered m n buf = (Inr [], buf)"
      by (subst parse_buffered.simps) (use True in \<open>auto simp: kHttp2FrameHeaderLength_def Let_def\<close>)
    then show ?thesis
      using stop True by blast
  next
    case A: False
    show ?thesis
    proof (cases "h_length ?h > m")
      case True
      have "0 < k \<Longrightarrow> parse_buffered m k buf = (Inl FrameSizeError, buf)" for k
        by (subst parse_buffered.simps) (use A True in \<open>simp add: kHttp2FrameHeaderLength_def Let_def\<close>)
      then show ?thesis
        using error A by blast
    next
      case B: False
      have le: "9 \<le> ?t" "?t \<le> length buf" "0 < n" "\<not> length buf < ?t" "\<not> length buf < 9"
        using A B by auto
      show ?thesis
      proof (cases "isKnownHttp2FrameType (h_type ?h)")
        case False
        have "0 < k \<Longrightarrow> parse_buffered m k buf = parse_buffered m k (drop ?t buf)" for k
          by (subst parse_buffered.simps) (use le B False in \<open>simp add: kHttp2FrameHeaderLength_def Let_def\<close>)
        then show ?thesis
          using skip [of ?t] le by blast
      next
        case True
        show ?thesis
        proof (cases "the (parseFrame (take ?t buf))")
          case (Inl e)
          have "0 < k \<Longrightarrow> parse_buffered m k buf = (Inl e, buf)" for k
            by (subst parse_buffered.simps) (use le B True Inl in \<open>simp add: kHttp2FrameHeaderLength_def Let_def\<close>)
          then show ?thesis
            using error le(3) by blast
        next
          case (Inr f)
          have "0 < k \<Longrightarrow> parse_buffered m k buf = continue_parse [f] (parse_buffered m (k - 1) (drop ?t buf))" for k
            by (subst parse_buffered.simps) (use le B True Inr in \<open>simp add: kHttp2FrameHeaderLength_def Let_def parse_case\<close>)
          then show ?thesis
            using frame [of ?t f] le by blast
        qed
      qed
    qed
  qed
qed

lemma continue_parse_Inr: "continue_parse fs r = (Inr gs, rest) \<longleftrightarrow> (\<exists>hs. r = (Inr hs, rest) \<and> gs = fs @ hs)"
  by (cases "(fs, r)" rule: continue_parse.cases) auto

lemma parse_buffered_enough:
  assumes "length buf < n" "length buf < k"
  shows "parse_buffered m n buf = parse_buffered m k buf"
  using assms
proof (induction "length buf" arbitrary: buf n k rule: less_induct)
  case less
  show ?case
  proof (cases m n buf rule: parse_buffered_cases)
    case stop
    then show ?thesis
      using less(2,3) by (subst (2) parse_buffered.simps) (auto simp: kHttp2FrameHeaderLength_def Let_def)
  next
    case (error e)
    then show ?thesis
      using less(3) by simp
  next
    case (skip t)
    then show ?thesis
      using less(2,3) less(1) [of "drop t buf" n k] by simp
  next
    case (frame t f)
    then show ?thesis
      using less(2,3) less(1) [of "drop t buf" "n - 1" "k - 1"] by simp
  qed
qed

text \<open>After a successful parse nothing in the buffer can be parsed, and every frame took some bytes.\<close>

lemma parse_buffered_rest:
  assumes "parse_buffered m n buf = (Inr fs, rest)" "length buf < n"
  shows "length rest + length fs \<le> length buf \<and> parse_buffered m k rest = (Inr [], rest)"
  using assms
proof (induction "length buf" arbitrary: buf n fs rule: less_induct)
  case less
  show ?case
  proof (cases m n buf rule: parse_buffered_cases)
    case stop
    have "parse_buffered m k buf = (Inr [], buf)"
      by (subst parse_buffered.simps) (use stop less(3) in \<open>auto simp: kHttp2FrameHeaderLength_def Let_def\<close>)
    then show ?thesis
      using stop(2) less(2) by simp
  next
    case (error e)
    then show ?thesis
      using less(2) by simp
  next
    case (skip t)
    then have "length rest + length fs \<le> length (drop t buf) \<and> parse_buffered m k rest = (Inr [], rest)"
      using less(2,3) by (intro less(1) [of "drop t buf" n fs]) auto
    then show ?thesis
      by auto
  next
    case (frame t f)
    obtain gs where "parse_buffered m (n - 1) (drop t buf) = (Inr gs, rest)" "fs = f # gs"
      using less(2) frame(4) [OF frame(3)] by (auto simp: continue_parse_Inr)
    moreover from this have "length rest + length gs \<le> length (drop t buf) \<and> parse_buffered m k rest = (Inr [], rest)"
      using frame less(3) by (intro less(1) [of "drop t buf" "n - 1" gs]) auto
    ultimately show ?thesis
      using frame(1,2) by auto
  qed
qed

text \<open>What the transport delivers piece by piece: each piece is appended to the receive buffer, which is then parsed.\<close>

fun receive_chunks :: "u32 \<Rightarrow> bytes \<Rightarrow> bytes list \<Rightarrow> (Http2ErrorCode + Http2Frame list) \<times> bytes" where
  "receive_chunks m buf [] = (Inr [], buf)"
| "receive_chunks m buf (c # cs) = (case parse_buffered m SIZE_MAX (buf @ c) of
     (Inl e, rest) \<Rightarrow> (Inl e, rest)
   | (Inr fs, rest) \<Rightarrow> continue_parse fs (receive_chunks m rest cs))"

lemma receive_chunks_parse:
  assumes "parse_buffered m SIZE_MAX (buf @ concat cs) = (Inr fs, rest)" "parse_buffered m SIZE_MAX buf = (Inr [], buf)"
    "length (buf @ concat cs) < SIZE_MAX"
  shows "receive_chunks m buf cs = (Inr fs, rest)"
  using assms
proof (induction cs arbitrary: buf fs)
  case (Cons c cs)
  obtain x y where p: "parse_buffered m SIZE_MAX (buf @ c) = (x, y)"
    by fastforce
  have whole: "parse_buffered m SIZE_MAX (buf @ concat (c # cs)) = (case (x, y) of
     (Inl e, rest) \<Rightarrow> (Inl e, rest @ concat cs)
   | (Inr fs, rest) \<Rightarrow> continue_parse fs (parse_buffered m (SIZE_MAX - length fs) (rest @ concat cs)))"
    using parse_buffered_append [of m SIZE_MAX "buf @ c" "concat cs"] by (simp add: p)
  obtain fs1 where x: "x = Inr fs1"
    using whole Cons.prems(1) by (cases x) auto
  have r: "length y + length fs1 \<le> length (buf @ c)" "parse_buffered m SIZE_MAX y = (Inr [], y)"
    using parse_buffered_rest [OF p [unfolded x]] Cons.prems(3) by auto
  obtain gs where gs: "parse_buffered m (SIZE_MAX - length fs1) (y @ concat cs) = (Inr gs, rest)" "fs = fs1 @ gs"
    using whole Cons.prems(1) x by (auto simp: continue_parse_Inr)
  have "parse_buffered m SIZE_MAX (y @ concat cs) = (Inr gs, rest)"
    using gs(1) r(1) Cons.prems(3) parse_buffered_enough [of "y @ concat cs" SIZE_MAX "SIZE_MAX - length fs1"] by auto
  then have "receive_chunks m y cs = (Inr gs, rest)"
    by (rule Cons.IH) (use r Cons.prems(3) in auto)
  then show ?case
    using p x gs(2) by simp
qed simp

lemma receive_frames:
  assumes "list_all (\<lambda>f. frame_ok f \<and> payload_length f \<le> unat m) fs" "concat pieces = concat (map serialize fs)"
    "length (concat pieces) < SIZE_MAX"
  shows "receive_chunks m [] pieces = (Inr (map with_length fs), [])"
proof (rule receive_chunks_parse)
  have le: "length fs \<le> length (concat (map serialize fs))"
    using assms(1) by (induction fs) (auto simp: frame_ok_def length_serialize)
  show "parse_buffered m SIZE_MAX ([] @ concat pieces) = (Inr (map with_length fs), [])"
    using parse_buffered_frames [OF assms(1), of SIZE_MAX "[]"] le assms(2,3)
    by (simp add: parse_buffered.simps kHttp2FrameHeaderLength_def)
qed (use assms(3) in \<open>simp_all add: parse_buffered.simps kHttp2FrameHeaderLength_def\<close>)

section \<open>Properties\<close>



end
