(* ===== verification/H2_Manager.thy ===== *)
theory H2_Manager
  imports H2_Conn "HOL-Library.AList"
begin

text \<open>
  \<open>Http2StreamManagerImpl\<close> of \<^verbatim>\<open>galay-http2/kernel/stream_manager.h\<close> with the connection state of
  \<open>Http2ConnImpl\<close> it works on: every frame handler of the reader, the pending actions and the reader's
  turn over a batch of frames. The model is that of a connection in stream-handler mode
  (\<open>m_active_conn_mode\<close> is false) without static routes or file mounts, the default configuration.
  The members of a stream that \<open>H2_Stream\<close> does not have are in a \<open>StreamSlot\<close>; the stream table is an
  association list whose order stands for the iteration order of the hash table. The pointers of a
  stream to the connection window and the send channel are loaded before each use (\<open>with_conn\<close>).
\<close>

section \<open>Messages\<close>

record Http2Request =
  rq_method :: bytes
  rq_scheme :: bytes
  rq_authority :: bytes
  rq_path :: bytes
  rq_headers :: "Http2HeaderField list"
  rq_common :: "bytes \<rightharpoonup> bytes"
  rq_body :: bytes

record Http2Response =
  rs_status :: int
  rs_headers :: "Http2HeaderField list"
  rs_body :: bytes

definition empty_request :: Http2Request where
  "empty_request = \<lparr>rq_method = [], rq_scheme = [], rq_authority = [], rq_path = [], rq_headers = [],
     rq_common = Map.empty, rq_body = []\<rparr>"

definition empty_response :: Http2Response where
  "empty_response = \<lparr>rs_status = 200, rs_headers = [], rs_body = []\<rparr>"

definition request_field :: "Http2HeaderField \<Rightarrow> Http2Request \<Rightarrow> Http2Request" where
  "request_field f r =
    (if hname f = str '':method'' then r\<lparr>rq_method := hvalue f\<rparr>
     else if hname f = str '':scheme'' then r\<lparr>rq_scheme := hvalue f\<rparr>
     else if hname f = str '':authority'' then r\<lparr>rq_authority := hvalue f\<rparr>
     else if hname f = str '':path'' then r\<lparr>rq_path := hvalue f\<rparr>
     else if hname f \<in> {str ''content-length'', str ''content-type'', str ''accept-encoding'', str ''user-agent''}
       then r\<lparr>rq_common := (rq_common r)(hname f \<mapsto> hvalue f)\<rparr>
     else r\<lparr>rq_headers := rq_headers r @ [f]\<rparr>)"

text \<open>\<open>std::from_chars\<close> into an \<open>int\<close> that holds 0: an optional minus sign and the longest run of digits;
  without digits, or out of range, the variable keeps its value.\<close>

definition digit :: "u8 \<Rightarrow> bool" where
  "digit b \<longleftrightarrow> 0x30 \<le> b \<and> b \<le> 0x39"

definition from_chars :: "bytes \<Rightarrow> int" where
  "from_chars s =
    (let neg = (s \<noteq> [] \<and> hd s = 0x2D);
         ds = takeWhile digit (if neg then tl s else s);
         v = foldl (\<lambda>n b. 10 * n + uint (b - 0x30)) 0 ds;
         w = (if neg then - v else v)
     in if ds = [] \<or> w < - 2147483648 \<or> w > 2147483647 then 0 else w)"

definition response_field :: "Http2HeaderField \<Rightarrow> Http2Response \<Rightarrow> Http2Response" where
  "response_field f r =
    (if hname f = str '':status'' then r\<lparr>rs_status := from_chars (hvalue f)\<rparr>
     else r\<lparr>rs_headers := rs_headers r @ [f]\<rparr>)"

section \<open>State\<close>

record Http2GoAwayError =
  ge_stream_id :: u32
  ge_last_stream_id :: u32
  ge_error_code :: Http2ErrorCode
  ge_retryable :: bool
  ge_debug :: bytes

record StreamSlot =
  sl_stream :: Http2Stream
  sl_recv_window :: int
  sl_header_block :: bytes
  sl_decoded_headers :: "Http2HeaderField list"
  sl_request :: Http2Request
  sl_response :: Http2Response
  sl_frames :: "Http2Frame option list"
  sl_queue_closed :: bool
  sl_queue_enabled :: bool
  sl_goaway_error :: "Http2GoAwayError option"
  sl_request_completed :: bool
  sl_response_completed :: bool
  sl_weight :: u8
  sl_dependency :: u32
  sl_exclusive :: bool

datatype PendingAction =
    SendGoawayAction Http2ErrorCode
  | SendRstStreamAction u32 Http2ErrorCode
  | SendWindowUpdateAction u32 u32

text \<open>Times are nanoseconds of the steady clock; the configured durations are milliseconds.\<close>

record Http2RuntimeConfig =
  ping_enabled :: bool
  ping_interval :: int
  ping_timeout :: int
  settings_ack_timeout :: int
  flow_control_target_window :: u32
  flow_control_strategy :: "flow_strategy option"

definition default_config :: Http2RuntimeConfig where
  "default_config = \<lparr>ping_enabled = True, ping_interval = 30000, ping_timeout = 10000, settings_ack_timeout = 10000,
     flow_control_target_window = kDefaultInitialWindowSize, flow_control_strategy = None\<rparr>"

record Manager =
  mg_is_client :: bool
  mg_local :: Http2Settings
  mg_peer :: Http2Settings
  mg_config :: Http2RuntimeConfig
  mg_streams :: "(u32 \<times> StreamSlot) list"
  mg_last_peer_stream_id :: u32
  mg_encoder :: HpackEncoder
  mg_decoder :: HpackDecoder
  mg_conn_send_window :: int
  mg_conn_recv_window :: int
  mg_goaway_sent :: bool
  mg_goaway_received :: bool
  mg_draining :: bool
  mg_goaway_last_stream_id :: u32
  mg_goaway_error_code :: Http2ErrorCode
  mg_goaway_debug_data :: bytes
  mg_settings_ack_pending :: bool
  mg_settings_sent_at :: int
  mg_closing :: bool
  mg_expecting_continuation :: bool
  mg_continuation_stream_id :: u32
  mg_reject_new_streams :: bool
  mg_waiting_ping_ack :: bool
  mg_last_ping_payload :: bytes
  mg_last_frame_recv_at :: int
  mg_last_ping_sent_at :: int
  mg_pending_actions :: "PendingAction list"
  mg_send_channel :: "Http2OutgoingFrame list"
  mg_spawns :: "u32 list"
  mg_retired :: "u32 list"
  mg_next_local_stream_id :: u32

text \<open>A stream as \<open>createStream\<close> and \<open>attachStreamIO\<close> leave it: the send window is the protocol's default,
  not the peer's \<open>initial_window_size\<close>.\<close>

definition new_stream :: "u32 \<Rightarrow> Http2Settings \<Rightarrow> Http2Stream" where
  "new_stream sid peer = \<lparr>hs_stream_id = sid, hs_state = Idle, hs_send_window = 65535,
     hs_end_stream_received = False, hs_end_stream_sent = False, hs_pending_data = [], hs_send_queue = Some [],
     hs_conn_send_window = Some 0, hs_max_frame_size = normalizeMaxFrameSize (max_frame_size peer),
     hs_max_header_list_size = max_header_list_size peer, hs_notified = []\<rparr>"

definition new_slot :: "u32 \<Rightarrow> Http2Settings \<Rightarrow> StreamSlot" where
  "new_slot sid peer = \<lparr>sl_stream = new_stream sid peer, sl_recv_window = 65535, sl_header_block = [],
     sl_decoded_headers = [], sl_request = empty_request, sl_response = empty_response, sl_frames = [],
     sl_queue_closed = False, sl_queue_enabled = True, sl_goaway_error = None, sl_request_completed = False,
     sl_response_completed = False, sl_weight = 16, sl_dependency = 0, sl_exclusive = False\<rparr>"

definition new_manager :: "bool \<Rightarrow> Http2Settings \<Rightarrow> Http2RuntimeConfig \<Rightarrow> Manager" where
  "new_manager client local config = \<lparr>mg_is_client = client, mg_local = local, mg_peer = default_settings,
     mg_config = config, mg_streams = [], mg_last_peer_stream_id = 0,
     mg_encoder = new_encoder 4096, mg_decoder = new_decoder 4096, mg_conn_send_window = 65535,
     mg_conn_recv_window = 65535, mg_goaway_sent = False, mg_goaway_received = False, mg_draining = False,
     mg_goaway_last_stream_id = 0, mg_goaway_error_code = NoError, mg_goaway_debug_data = [],
     mg_settings_ack_pending = False, mg_settings_sent_at = 0, mg_closing = False, mg_expecting_continuation = False, mg_continuation_stream_id = 0,
     mg_reject_new_streams = False, mg_waiting_ping_ack = False, mg_last_ping_payload = replicate 8 0,
     mg_last_frame_recv_at = 0, mg_last_ping_sent_at = 0,
     mg_pending_actions = [], mg_send_channel = [], mg_spawns = [], mg_retired = [],
     mg_next_local_stream_id = 0\<rparr>"

section \<open>Streams of the connection\<close>

definition getStream :: "Manager \<Rightarrow> u32 \<Rightarrow> StreamSlot option" where
  "getStream m sid = map_of (mg_streams m) sid"

definition put_stream :: "u32 \<Rightarrow> StreamSlot \<Rightarrow> Manager \<Rightarrow> Manager" where
  "put_stream sid sl m = m\<lparr>mg_streams := AList.update sid sl (mg_streams m)\<rparr>"

definition removeStream :: "u32 \<Rightarrow> Manager \<Rightarrow> Manager" where
  "removeStream sid m = m\<lparr>mg_streams := AList.delete sid (mg_streams m)\<rparr>"

text \<open>A handler that has returned leaves its stream to the reader, which removes it from the table.\<close>

definition enqueueRetireStream :: "u32 \<Rightarrow> Manager \<Rightarrow> Manager" where
  "enqueueRetireStream sid m = (if sid = 0 then m else m\<lparr>mg_retired := mg_retired m @ [sid]\<rparr>)"

definition drainRetiredStreams :: "Manager \<Rightarrow> Manager" where
  "drainRetiredStreams m = fold removeStream (mg_retired m) (m\<lparr>mg_retired := []\<rparr>)"

definition createStream :: "u32 \<Rightarrow> Manager \<Rightarrow> StreamSlot \<times> Manager" where
  "createStream sid m = (case getStream m sid of
     Some sl \<Rightarrow> (sl, m)
   | None \<Rightarrow> (let sl = new_slot sid (mg_peer m) in (sl, put_stream sid sl m)))"

definition createStreamInternal :: "u32 \<Rightarrow> Manager \<Rightarrow> StreamSlot \<times> Manager" where
  "createStreamInternal sid m = createStream sid (drainRetiredStreams m)"

definition newStream :: "u32 \<Rightarrow> Manager \<Rightarrow> StreamSlot \<times> Manager" where
  "newStream sid m = (case getStream m sid of Some sl \<Rightarrow> (sl, m) | None \<Rightarrow> createStreamInternal sid m)"

definition allocateStream :: "Manager \<Rightarrow> StreamSlot \<times> Manager" where
  "allocateStream m = (let sid = mg_next_local_stream_id m in newStream sid (m\<lparr>mg_next_local_stream_id := sid + 2\<rparr>))"

text \<open>Running a send operation of \<open>H2_Stream\<close> on the connection's window and channel.\<close>

definition with_conn :: "(Http2Stream \<Rightarrow> Http2Stream) \<Rightarrow> StreamSlot \<Rightarrow> Manager \<Rightarrow> StreamSlot \<times> Manager" where
  "with_conn f sl m =
    (let s = f ((sl_stream sl)\<lparr>hs_conn_send_window := Some (mg_conn_send_window m),
                               hs_send_queue := Some (mg_send_channel m)\<rparr>)
     in (sl\<lparr>sl_stream := s\<rparr>,
         m\<lparr>mg_conn_send_window := the (hs_conn_send_window s), mg_send_channel := the (hs_send_queue s)\<rparr>))"

definition upd_stream :: "(Http2Stream \<Rightarrow> Http2Stream) \<Rightarrow> StreamSlot \<Rightarrow> StreamSlot" where
  "upd_stream f sl = sl\<lparr>sl_stream := f (sl_stream sl)\<rparr>"

text \<open>The flush that follows a change of windows or settings, with the peer's limits loaded.\<close>

definition flush_slot :: "StreamSlot \<Rightarrow> Manager \<Rightarrow> StreamSlot \<times> Manager" where
  "flush_slot sl m = with_conn (\<lambda>s. snd (flushPendingData (s\<lparr>hs_max_frame_size := max_frame_size (mg_peer m),
       hs_max_header_list_size := max_header_list_size (mg_peer m)\<rparr>))) sl m"

fun for_each_stream :: "(StreamSlot \<Rightarrow> Manager \<Rightarrow> StreamSlot \<times> Manager) \<Rightarrow> (u32 \<times> StreamSlot) list \<Rightarrow> Manager \<Rightarrow> (u32 \<times> StreamSlot) list \<times> Manager" where
  "for_each_stream f [] m = ([], m)"
| "for_each_stream f ((sid, sl) # sls) m =
    (let (sl', m1) = f sl m; (sls', m2) = for_each_stream f sls m1 in ((sid, sl') # sls', m2))"

definition forEachStream :: "(StreamSlot \<Rightarrow> Manager \<Rightarrow> StreamSlot \<times> Manager) \<Rightarrow> Manager \<Rightarrow> Manager" where
  "forEachStream f m = (let (sls, m1) = for_each_stream f (mg_streams m) m in m1\<lparr>mg_streams := sls\<rparr>)"

section \<open>Actions and frames to send\<close>

definition push_action :: "PendingAction \<Rightarrow> Manager \<Rightarrow> Manager" where
  "push_action a m = m\<lparr>mg_pending_actions := mg_pending_actions m @ [a]\<rparr>"

abbreviation enqueueGoawayAction :: "Http2ErrorCode \<Rightarrow> Manager \<Rightarrow> Manager" where
  "enqueueGoawayAction e \<equiv> push_action (SendGoawayAction e)"

abbreviation enqueueRstStreamAction :: "u32 \<Rightarrow> Http2ErrorCode \<Rightarrow> Manager \<Rightarrow> Manager" where
  "enqueueRstStreamAction sid e \<equiv> push_action (SendRstStreamAction sid e)"

abbreviation enqueueWindowUpdateAction :: "u32 \<Rightarrow> u32 \<Rightarrow> Manager \<Rightarrow> Manager" where
  "enqueueWindowUpdateAction sid n \<equiv> push_action (SendWindowUpdateAction sid n)"

definition enqueueSendBytes :: "bytes \<Rightarrow> Manager \<Rightarrow> Manager" where
  "enqueueSendBytes b m = m\<lparr>mg_send_channel := mg_send_channel m @ [\<lparr>og_header = [], og_payload = b, og_waiter = None\<rparr>]\<rparr>"

definition enqueueSendFrame :: "Http2Frame \<Rightarrow> Manager \<Rightarrow> Manager" where
  "enqueueSendFrame f m = enqueueSendBytes (serialize f) m"

definition markGoawaySent :: "u32 \<Rightarrow> Http2ErrorCode \<Rightarrow> bytes \<Rightarrow> Manager \<Rightarrow> Manager" where
  "markGoawaySent last_id err debug m = m\<lparr>mg_goaway_sent := True, mg_draining := True, mg_goaway_last_stream_id := last_id,
     mg_goaway_error_code := err, mg_goaway_debug_data := debug\<rparr>"

definition markGoawayReceived :: "u32 \<Rightarrow> Http2ErrorCode \<Rightarrow> bytes \<Rightarrow> Manager \<Rightarrow> Manager" where
  "markGoawayReceived last_id err debug m = m\<lparr>mg_goaway_received := True, mg_draining := True, mg_goaway_last_stream_id := last_id,
     mg_goaway_error_code := err, mg_goaway_debug_data := debug\<rparr>"

definition enqueueGoaway_last :: "u32 \<Rightarrow> Http2ErrorCode \<Rightarrow> bytes \<Rightarrow> Manager \<Rightarrow> Manager" where
  "enqueueGoaway_last last_id err debug m =
    enqueueSendFrame (GoAwayFrame (default_header\<lparr>h_type := FT_GoAway\<rparr>) last_id debug err)
      (markGoawaySent last_id err debug m)"

definition enqueueGoaway :: "Http2ErrorCode \<Rightarrow> bytes \<Rightarrow> Manager \<Rightarrow> Manager" where
  "enqueueGoaway err debug m = enqueueGoaway_last (mg_last_peer_stream_id m) err debug m"

definition setExpectingContinuation :: "bool \<Rightarrow> u32 \<Rightarrow> Manager \<Rightarrow> Manager" where
  "setExpectingContinuation expecting sid m =
    m\<lparr>mg_expecting_continuation := expecting, mg_continuation_stream_id := sid\<rparr>"

section \<open>The application's side of a stream\<close>

definition pushFrame :: "Http2Frame \<Rightarrow> StreamSlot \<Rightarrow> StreamSlot" where
  "pushFrame f sl = (if sl_queue_enabled sl then sl\<lparr>sl_frames := sl_frames sl @ [Some f]\<rparr> else sl)"

definition markRequestCompleted :: "StreamSlot \<Rightarrow> StreamSlot" where
  "markRequestCompleted sl = sl\<lparr>sl_request_completed := True\<rparr>"

definition markResponseCompleted :: "StreamSlot \<Rightarrow> StreamSlot" where
  "markResponseCompleted sl = sl\<lparr>sl_response_completed := True\<rparr>"

definition notifyPendingDataWaiters :: "Http2Stream \<Rightarrow> Http2Stream" where
  "notifyPendingDataWaiters s =
    s\<lparr>hs_notified := hs_notified s @ waiting (map ds_waiter (hs_pending_data s)), hs_pending_data := []\<rparr>"

definition closeFrameQueue :: "StreamSlot \<Rightarrow> StreamSlot" where
  "closeFrameQueue sl =
    (if sl_queue_closed sl then sl
     else
       let sl1 = markResponseCompleted (markRequestCompleted
                   (upd_stream notifyPendingDataWaiters (sl\<lparr>sl_queue_closed := True\<rparr>)))
       in sl1\<lparr>sl_frames := sl_frames sl1 @ [None]\<rparr>)"

definition consumeDecodedHeadersAsRequest :: "StreamSlot \<Rightarrow> StreamSlot" where
  "consumeDecodedHeadersAsRequest sl =
    sl\<lparr>sl_request := fold request_field (sl_decoded_headers sl) (sl_request sl), sl_decoded_headers := []\<rparr>"

definition consumeDecodedHeadersAsResponse :: "StreamSlot \<Rightarrow> StreamSlot" where
  "consumeDecodedHeadersAsResponse sl =
    sl\<lparr>sl_response := fold response_field (sl_decoded_headers sl) (sl_response sl), sl_decoded_headers := []\<rparr>"

definition appendData :: "bool \<Rightarrow> bytes \<Rightarrow> StreamSlot \<Rightarrow> StreamSlot" where
  "appendData client d sl =
    (if client then sl\<lparr>sl_response := (sl_response sl)\<lparr>rs_body := rs_body (sl_response sl) @ d\<rparr>\<rparr>
     else sl\<lparr>sl_request := (sl_request sl)\<lparr>rq_body := rq_body (sl_request sl) @ d\<rparr>\<rparr>)"

definition markCompleted :: "bool \<Rightarrow> StreamSlot \<Rightarrow> StreamSlot" where
  "markCompleted client = (if client then markResponseCompleted else markRequestCompleted)"

definition setPriority :: "bool \<Rightarrow> u32 \<Rightarrow> u8 \<Rightarrow> StreamSlot \<Rightarrow> StreamSlot" where
  "setPriority exclusive dependency weight sl =
    sl\<lparr>sl_exclusive := exclusive, sl_dependency := dependency, sl_weight := weight\<rparr>"

text \<open>\<open>tryRetireClientStream\<close>, on the stream as it was just stored.\<close>

definition tryRetireClientStream :: "u32 \<Rightarrow> StreamSlot \<Rightarrow> Manager \<Rightarrow> Manager" where
  "tryRetireClientStream sid sl m =
    (if mg_is_client m \<and> sl_response_completed sl \<and> hs_state (sl_stream sl) = Closed
     then removeStream sid m else m)"

section \<open>Handlers of stream frames\<close>

definition findOrCreateHeadersStream :: "u32 \<Rightarrow> Manager \<Rightarrow> StreamSlot option \<times> Manager" where
  "findOrCreateHeadersStream sid m = (case getStream m sid of
     Some sl \<Rightarrow> (Some sl, m)
   | None \<Rightarrow>
       if mg_is_client m then (None, enqueueGoawayAction ProtocolError m)
       else if mg_reject_new_streams m \<or> (mg_goaway_sent m \<and> mg_goaway_last_stream_id m \<noteq> kMaxStreamId)
         then (None, enqueueRstStreamAction sid RefusedStream m)
       else if sid \<le> mg_last_peer_stream_id m then (None, enqueueGoawayAction ProtocolError m)
       else if length (mg_streams m) \<ge> unat (max_concurrent_streams (mg_local m))
         then (None, enqueueRstStreamAction sid RefusedStream m)
       else
         let (sl, m1) = createStreamInternal sid m
         in (Some sl, m1\<lparr>mg_last_peer_stream_id := sid\<rparr>))"

text \<open>A header block that does not decode is dropped without an error.\<close>

definition decodeBufferedHeaders :: "StreamSlot \<Rightarrow> Manager \<Rightarrow> StreamSlot \<times> Manager" where
  "decodeBufferedHeaders sl m =
    (let (r, d) = decode_string (mg_decoder m) (sl_header_block sl);
         sl1 = (case r of Inr hs \<Rightarrow> sl\<lparr>sl_decoded_headers := hs\<rparr> | Inl _ \<Rightarrow> sl)
     in (sl1\<lparr>sl_header_block := []\<rparr>, setExpectingContinuation False 0 (m\<lparr>mg_decoder := d\<rparr>)))"

definition completeDecodedHeaders :: "u32 \<Rightarrow> bool \<Rightarrow> StreamSlot \<Rightarrow> Manager \<Rightarrow> StreamSlot \<times> Manager" where
  "completeDecodedHeaders sid end_stream sl m =
    (if mg_is_client m then
       let sl1 = consumeDecodedHeadersAsResponse sl
       in (if end_stream then markResponseCompleted sl1 else sl1, m)
     else
       let sl1 = consumeDecodedHeadersAsRequest sl
       in (if end_stream then markRequestCompleted sl1 else sl1, m\<lparr>mg_spawns := mg_spawns m @ [sid]\<rparr>))"

definition completeReceivedHeaders :: "u32 \<Rightarrow> bool \<Rightarrow> StreamSlot \<Rightarrow> Manager \<Rightarrow> StreamSlot \<times> Manager" where
  "completeReceivedHeaders sid end_stream sl m =
    (let (sl1, m1) = decodeBufferedHeaders sl m in completeDecodedHeaders sid end_stream sl1 m1)"

definition appendHeaderBlock :: "bytes \<Rightarrow> StreamSlot \<Rightarrow> StreamSlot" where
  "appendHeaderBlock d sl = sl\<lparr>sl_header_block := sl_header_block sl @ d\<rparr>"

definition handleHeadersFrame :: "Http2Frame \<Rightarrow> u32 \<Rightarrow> Manager \<Rightarrow> Manager" where
  "handleHeadersFrame f sid m = (case findOrCreateHeadersStream sid m of
     (None, m1) \<Rightarrow> m1
   | (Some sl, m1) \<Rightarrow>
       if \<not> canReceiveHeaders (sl_stream sl) then enqueueRstStreamAction sid StreamClosed m1
       else
         let sl1 = (if hasPriority f then setPriority (m_exclusive f) (m_stream_dependency f) (m_weight f) sl else sl);
             sl2 = appendHeaderBlock (m_header_block f) (upd_stream (onHeadersReceived (isEndStream f)) sl1);
             (sl3, m2) = (if isEndHeaders f then completeReceivedHeaders sid (isEndStream f) sl2 m1
                          else (sl2, setExpectingContinuation True sid m1));
             sl4 = pushFrame f sl3
         in tryRetireClientStream sid sl4 (put_stream sid sl4 m2))"

definition handleContinuationFrame :: "Http2Frame \<Rightarrow> u32 \<Rightarrow> Manager \<Rightarrow> Manager" where
  "handleContinuationFrame f sid m = (case getStream m sid of
     None \<Rightarrow> enqueueGoawayAction ProtocolError m
   | Some sl \<Rightarrow>
       let sl1 = appendHeaderBlock (m_header_block f) sl;
           (sl2, m1) = (if isEndHeaders f
              then completeReceivedHeaders sid (hs_end_stream_received (sl_stream sl1)) sl1 m else (sl1, m))
       in put_stream sid (pushFrame f sl2) m1)"

definition applyRecvWindowUpdate :: "u32 \<Rightarrow> nat \<Rightarrow> StreamSlot \<Rightarrow> Manager \<Rightarrow> StreamSlot \<times> Manager" where
  "applyRecvWindowUpdate sid data_size sl m =
    (let (conn_inc, stream_inc) = evaluateRecvWindowUpdate (flow_control_target_window (mg_config m)) (flow_control_strategy (mg_config m)) (mg_local m)
           (mg_conn_recv_window m) (sl_recv_window sl) data_size;
         m1 = (if conn_inc > 0 then
                 (enqueueWindowUpdateAction 0 conn_inc m)\<lparr>mg_conn_recv_window := mg_conn_recv_window m + sint conn_inc\<rparr>
               else m)
     in if stream_inc > 0
        then (sl\<lparr>sl_recv_window := sl_recv_window sl + sint stream_inc\<rparr>, enqueueWindowUpdateAction sid stream_inc m1)
        else (sl, m1))"

text \<open>The part of \<open>handleDataFrame\<close> after its checks.\<close>

definition accept_data :: "Http2Frame \<Rightarrow> u32 \<Rightarrow> StreamSlot \<Rightarrow> Manager \<Rightarrow> Manager" where
  "accept_data f sid sl m =
    (let data_size = length (m_data f);
         sl1 = upd_stream (onDataReceived (isEndStream f)) sl;
         m1 = m\<lparr>mg_conn_recv_window := mg_conn_recv_window m - int data_size\<rparr>;
         sl2 = sl1\<lparr>sl_recv_window := sl_recv_window sl1 - int data_size\<rparr>;
         (sl3, m2) = applyRecvWindowUpdate sid data_size sl2 m1;
         sl4 = appendData (mg_is_client m2) (m_data f) sl3;
         sl5 = (if isEndStream f then markCompleted (mg_is_client m2) sl4 else sl4);
         sl6 = pushFrame f sl5
     in tryRetireClientStream sid sl6 (put_stream sid sl6 m2))"

definition handleDataFrame :: "Http2Frame \<Rightarrow> u32 \<Rightarrow> Manager \<Rightarrow> Manager" where
  "handleDataFrame f sid m =
    (if sid = 0 then enqueueGoawayAction ProtocolError m
     else case getStream m sid of
       None \<Rightarrow> enqueueRstStreamAction sid StreamClosed m
     | Some sl \<Rightarrow>
         if \<not> canReceiveData_stream (sl_stream sl) then enqueueRstStreamAction sid StreamClosed m
         else if length (m_data f) > nat (max (mg_conn_recv_window m) 0) then enqueueGoawayAction FlowControlError m
         else if length (m_data f) > nat (max (sl_recv_window sl) 0) then enqueueRstStreamAction sid FlowControlError m
         else accept_data f sid sl m)"

definition handlePriorityFrame :: "Http2Frame \<Rightarrow> u32 \<Rightarrow> Manager \<Rightarrow> Manager" where
  "handlePriorityFrame f sid m = (case getStream m sid of
     None \<Rightarrow> m
   | Some sl \<Rightarrow> put_stream sid (setPriority (m_exclusive f) (m_stream_dependency f) (m_weight f) sl) m)"

definition handleRstStreamFrame :: "Http2Frame \<Rightarrow> u32 \<Rightarrow> Manager \<Rightarrow> Manager" where
  "handleRstStreamFrame f sid m =
    (if sid = 0 then enqueueGoawayAction ProtocolError m
     else case getStream m sid of
       None \<Rightarrow> m
     | Some sl \<Rightarrow>
         let sl1 = closeFrameQueue (markResponseCompleted (markRequestCompleted (pushFrame f (upd_stream onRstStream sl))))
         in tryRetireClientStream sid sl1 (put_stream sid sl1 m))"

definition handleWindowUpdateFrame :: "Http2Frame \<Rightarrow> u32 \<Rightarrow> Manager \<Rightarrow> Manager" where
  "handleWindowUpdateFrame f sid m = (case getStream m sid of
     None \<Rightarrow> m
   | Some sl \<Rightarrow>
       let increment = m_window_size_increment f in
       if increment = 0 then enqueueRstStreamAction sid ProtocolError m
       else if hs_send_window (sl_stream sl) + uint increment > uint kMaxStreamId
         then enqueueRstStreamAction sid FlowControlError m
       else
         let (sl1, m1) = flush_slot (upd_stream (adjustSendWindow (sint increment)) sl) m
         in put_stream sid (pushFrame f sl1) m1)"

definition handlePushPromiseFrame :: "Http2Frame \<Rightarrow> u32 \<Rightarrow> Manager \<Rightarrow> Manager" where
  "handlePushPromiseFrame f sid m =
    (if \<not> mg_is_client m then enqueueGoawayAction ProtocolError m
     else
       let pid = m_promised_stream_id f;
           (sl, m1) = (case getStream m pid of
               Some sl \<Rightarrow> (sl, m)
             | None \<Rightarrow> (let (sl, m1) = createStreamInternal pid m
                         in (upd_stream (\<lambda>s. s\<lparr>hs_state := ReservedRemote\<rparr>) sl, m1)))
       in (put_stream pid (pushFrame f sl) m1)\<lparr>mg_spawns := mg_spawns m1 @ [pid]\<rparr>)"

definition dispatchStreamFrame :: "Http2Frame \<Rightarrow> Manager \<Rightarrow> Manager" where
  "dispatchStreamFrame f m =
    (let sid = streamId f in
     if sid = 0 then m
     else if isHeaders f then handleHeadersFrame f sid m
     else if isContinuation f then handleContinuationFrame f sid m
     else if isData f then handleDataFrame f sid m
     else if frame_type f = FT_Priority then handlePriorityFrame f sid m
     else if frame_type f = FT_RstStream then handleRstStreamFrame f sid m
     else if frame_type f = FT_WindowUpdate then handleWindowUpdateFrame f sid m
     else if frame_type f = FT_PushPromise then handlePushPromiseFrame f sid m
     else m)"

section \<open>Handlers of connection frames\<close>

definition applyPeerSettings :: "Http2Frame \<Rightarrow> Manager \<Rightarrow> Http2ErrorCode \<times> Manager" where
  "applyPeerSettings f m =
    (let e = validateSettingsFrame f in
     if e \<noteq> NoError then (e, m)
     else if isAck f then (NoError, m)
     else
       let (e, peer) = applySettings (m_settings f) (mg_peer m) in
       if e \<noteq> NoError then (e, m\<lparr>mg_peer := peer\<rparr>)
       else (NoError, m\<lparr>mg_peer := peer,
              mg_encoder := encoder_setMaxTableSize (mg_encoder m) (unat (header_table_size peer))\<rparr>))"

definition settings_ack :: Http2Frame where
  "settings_ack = setAck True (SettingsFrame (default_header\<lparr>h_type := FT_Settings\<rparr>) [])"

definition window_out_of_range :: "int \<Rightarrow> StreamSlot \<Rightarrow> bool" where
  "window_out_of_range delta sl \<longleftrightarrow>
    (let next_window = hs_send_window (sl_stream sl) + delta
     in next_window > uint kMaxStreamId \<or> next_window < - 2147483648)"

definition handleSettings :: "Http2Frame \<Rightarrow> Manager \<Rightarrow> Manager" where
  "handleSettings f m =
    (let e = validateSettingsFrame f in
     if e \<noteq> NoError then enqueueGoawayAction e m
     else if isAck f then m\<lparr>mg_settings_ack_pending := False\<rparr>
     else
       let (e1, next_settings) = applySettings (m_settings f) (mg_peer m) in
       if e1 \<noteq> NoError then enqueueGoawayAction e1 m
       else
         let delta = uint (initial_window_size next_settings) - uint (initial_window_size (mg_peer m)) in
         if delta \<noteq> 0 \<and> list_ex (\<lambda>(sid, sl). window_out_of_range delta sl) (mg_streams m)
           then enqueueGoawayAction FlowControlError m
         else
           let (e2, m1) = applyPeerSettings f m in
           if e2 \<noteq> NoError then enqueueGoawayAction e2 m1
           else enqueueSendFrame settings_ack
                  (forEachStream (\<lambda>sl. flush_slot (if delta \<noteq> 0 then upd_stream (adjustSendWindow delta) sl else sl)) m1))"

definition handlePing :: "Http2Frame \<Rightarrow> Manager \<Rightarrow> Manager" where
  "handlePing f m =
    (if streamId f \<noteq> 0 then enqueueGoawayAction ProtocolError m
     else if \<not> isAck f then
       enqueueSendFrame (setAck True (PingFrame (default_header\<lparr>h_type := FT_Ping\<rparr>) (m_opaque_data f))) m
     else if mg_waiting_ping_ack m \<and> m_opaque_data f = mg_last_ping_payload m
       then m\<lparr>mg_waiting_ping_ack := False\<rparr>
     else m)"

definition handleGoAway :: "Http2Frame \<Rightarrow> Manager \<Rightarrow> Manager" where
  "handleGoAway f m =
    (let last_id = m_last_stream_id f;
         m1 = markGoawayReceived last_id (m_error_code f) (m_debug_data f) (m\<lparr>mg_reject_new_streams := True\<rparr>)
     in if mg_is_client m then
          m1\<lparr>mg_streams := map (\<lambda>(sid, sl). (sid, if sid \<le> last_id then sl
             else closeFrameQueue (sl\<lparr>sl_goaway_error := Some \<lparr>ge_stream_id = sid, ge_last_stream_id = last_id,
                    ge_error_code = m_error_code f, ge_retryable = True, ge_debug = m_debug_data f\<rparr>\<rparr>))) (mg_streams m1)\<rparr>
        else m1)"

definition handleConnWindowUpdate :: "Http2Frame \<Rightarrow> Manager \<Rightarrow> Manager" where
  "handleConnWindowUpdate f m =
    (let increment = m_window_size_increment f in
     if increment = 0 then enqueueGoawayAction ProtocolError m
     else if mg_conn_send_window m + uint increment > uint kMaxStreamId then enqueueGoawayAction FlowControlError m
     else forEachStream flush_slot (m\<lparr>mg_conn_send_window := mg_conn_send_window m + sint increment\<rparr>))"

definition handleConnectionFrame :: "Http2Frame \<Rightarrow> Manager \<Rightarrow> Manager" where
  "handleConnectionFrame f m =
    (if frame_type f = FT_Settings then handleSettings f m
     else if frame_type f = FT_Ping then handlePing f m
     else if frame_type f = FT_GoAway then handleGoAway f m
     else if frame_type f = FT_WindowUpdate then handleConnWindowUpdate f m
     else m)"

section \<open>The reader\<close>

definition process_action :: "PendingAction \<Rightarrow> Manager \<Rightarrow> Manager" where
  "process_action a m = (case a of
     SendGoawayAction e \<Rightarrow> enqueueGoaway e [] m
   | SendRstStreamAction sid e \<Rightarrow>
       enqueueSendBytes (rstStreamBytes sid e) (case getStream m sid of
           None \<Rightarrow> m
         | Some sl \<Rightarrow> put_stream sid (upd_stream onRstStream sl) m)
   | SendWindowUpdateAction sid n \<Rightarrow>
       enqueueSendFrame (WindowUpdateFrame (default_header\<lparr>h_type := FT_WindowUpdate, h_stream_id := sid\<rparr>) n) m)"

definition processPendingActions :: "Manager \<Rightarrow> Manager" where
  "processPendingActions m = fold process_action (mg_pending_actions m) (m\<lparr>mg_pending_actions := []\<rparr>)"

definition isConnectionFrame :: "Http2Frame \<Rightarrow> bool" where
  "isConnectionFrame f \<longleftrightarrow> frame_type f = FT_Settings \<or> frame_type f = FT_Ping \<or> frame_type f = FT_GoAway
     \<or> (frame_type f = FT_WindowUpdate \<and> streamId f = 0)"

definition breaks_block :: "Http2Frame \<Rightarrow> Manager \<Rightarrow> bool" where
  "breaks_block f m \<longleftrightarrow> mg_expecting_continuation m \<and> (\<not> isContinuation f \<or> streamId f \<noteq> mg_continuation_stream_id m)"

definition handle_frame :: "Http2Frame \<Rightarrow> Manager \<Rightarrow> Manager" where
  "handle_frame f m = (if isConnectionFrame f then handleConnectionFrame f m else dispatchStreamFrame f m)"

text \<open>The loop over a batch; the result says whether the reader ends.\<close>

fun reader_frames :: "int \<Rightarrow> Http2Frame list \<Rightarrow> Manager \<Rightarrow> bool \<times> Manager" where
  "reader_frames now [] m = (False, m)"
| "reader_frames now (f # fs) m =
    (let m1 = m\<lparr>mg_last_frame_recv_at := now\<rparr> in
     if breaks_block f m1 then (True, enqueueGoaway ProtocolError [] m1) else reader_frames now fs (handle_frame f m1))"

definition reader_batch :: "int \<Rightarrow> Http2Frame list \<Rightarrow> Manager \<Rightarrow> bool \<times> Manager" where
  "reader_batch now fs m = (let (exit_loop, m1) = reader_frames now fs m in (exit_loop, processPendingActions m1))"

text \<open>\<open>prepareForStart\<close>: a server opens the connection's receive window to the configured target.\<close>

definition prepareForStart :: "int \<Rightarrow> Manager \<Rightarrow> Manager" where
  "prepareForStart now m =
    (let m1 = m\<lparr>mg_reject_new_streams := False, mg_last_frame_recv_at := now, mg_waiting_ping_ack := False,
               mg_next_local_stream_id := (if mg_next_local_stream_id m = 0 then if mg_is_client m then 3 else 2
                                           else mg_next_local_stream_id m)\<rparr>;
         target = flow_control_target_window (mg_config m1);
         window = mg_conn_recv_window m1
     in if \<not> mg_is_client m1 \<and> target > 0 \<and> sint target > window
        then let increment = (of_int (uint target - window) :: u32)
             in (enqueueWindowUpdateAction 0 increment m1)\<lparr>mg_conn_recv_window := window + sint increment\<rparr>
        else m1)"

section \<open>Sending by the application\<close>

text \<open>A send call of a handler on its stream, and \<open>sendHeadersInternal\<close>, which encodes with the connection's encoder.\<close>

definition send_on_stream :: "(Http2Stream \<Rightarrow> Http2Stream) \<Rightarrow> u32 \<Rightarrow> Manager \<Rightarrow> Manager" where
  "send_on_stream f sid m = (case getStream m sid of
     None \<Rightarrow> m
   | Some sl \<Rightarrow> let (sl1, m1) = with_conn f sl m in put_stream sid sl1 m1)"

definition sendHeadersInternal :: "Http2HeaderField list \<Rightarrow> bool \<Rightarrow> bool \<Rightarrow> nat option \<Rightarrow> u32 \<Rightarrow> Manager \<Rightarrow> Manager" where
  "sendHeadersInternal headers end_stream end_headers waiter sid m =
    (let (header_block, e) = hpack_encode (mg_encoder m) headers
     in send_on_stream (sendEncodedHeadersInternal header_block end_stream end_headers waiter) sid (m\<lparr>mg_encoder := e\<rparr>))"

text \<open>The writer takes a frame from the channel.\<close>

definition write_frame :: "Manager \<Rightarrow> Manager" where
  "write_frame m = m\<lparr>mg_send_channel := tl (mg_send_channel m)\<rparr>"

section \<open>The monitor\<close>

definition nonce_bytes :: "int \<Rightarrow> bytes" where
  "nonce_bytes now = (let nonce = (of_int (now div 1000) :: 64 word) in map (\<lambda>i. ucast (drop_bit (8 * (7 - i)) nonce)) [0..<8])"

definition shouldEnforceSettingsAckTimeout :: "int \<Rightarrow> Manager \<Rightarrow> bool" where
  "shouldEnforceSettingsAckTimeout now m =
    (let timeout = settings_ack_timeout (mg_config m) in
     if timeout \<le> 0 \<or> \<not> mg_settings_ack_pending m then False
     else if now - mg_settings_sent_at m \<le> timeout * 1000000 then False
     else mg_last_frame_recv_at m \<le> mg_settings_sent_at m)"

text \<open>One turn of \<open>monitorLoop\<close> at time \<open>now\<close>; the result says whether the loop ends.\<close>

definition monitor_turn :: "int \<Rightarrow> Manager \<Rightarrow> bool \<times> Manager" where
  "monitor_turn now m =
    (let c = mg_config m in
     if shouldEnforceSettingsAckTimeout now m then
       (True, (enqueueGoaway SettingsTimeout (str ''SETTINGS ACK timeout'') m)\<lparr>mg_closing := True\<rparr>)
     else if \<not> ping_enabled c \<or> ping_interval c \<le> 0 then (False, m)
     else if \<not> mg_waiting_ping_ack m then
       if now - mg_last_frame_recv_at m \<ge> ping_interval c * 1000000 then
         let payload = nonce_bytes now in
         (False, (enqueueSendFrame (PingFrame (default_header\<lparr>h_type := FT_Ping\<rparr>) payload) (m\<lparr>mg_last_ping_payload := payload\<rparr>))
            \<lparr>mg_waiting_ping_ack := True, mg_last_ping_sent_at := now\<rparr>)
       else (False, m)
     else if ping_timeout c > 0 \<and> now - mg_last_ping_sent_at m > ping_timeout c * 1000000 then
       (True, (enqueueGoaway ProtocolError (str ''PING ACK timeout'') m)\<lparr>mg_closing := True\<rparr>)
     else (False, m))"

end
