(* ===== verification/H2_Invariant.thy ===== *)
theory H2_Invariant
  imports H2_Manager
begin

text \<open>
  The invariant of the stream manager and of the connection it works on: the windows stay in the range
  of their 32-bit fields and the connection's are never overdrawn, the stream table has no key twice
  and every stream sits under its own id, with data and limits that its send operations rely on. Every
  handler of the reader, the pending actions, the monitor and the calls of the application keep it.
\<close>

section \<open>Windows\<close>

lemma sint_small: "uint (x :: u32) < 2147483648 \<Longrightarrow> sint x = uint x"
  using signed_take_bit_int_eq_self [of 31 "uint x"] by (simp add: sint_uint order_trans [OF _ uint_ge_0])

text \<open>The level below which a window is topped up to its target.\<close>

definition low_mark :: "u32 \<Rightarrow> int" where
  "low_mark t = uint t * 3 mod 4294967296 div 4"

lemma low_mark_le: "low_mark t \<le> uint t"
proof -
  have "x div 4 \<le> u" if "x \<le> u * 3" "0 \<le> u" for x u :: int
    using that by linarith
  then show ?thesis
    unfolding low_mark_def by (simp add: zmod_le_nonneg_dividend)
qed

lemma low_watermark: "sint (t * 3 div 4 :: u32) = low_mark t"
  by (subst sint_small) (simp_all add: low_mark_def uint_div uint_word_ariths)

lemma window_increment_spec:
  assumes "uint t \<le> 2147483647" "0 \<le> w" "w < low_mark t"
  shows "uint (window_increment t w) = uint t - w" "sint (window_increment t w) = uint t - w" "w < uint t"
proof -
  show w: "w < uint t"
    using assms(3) low_mark_le [of t] by simp
  then show u: "uint (window_increment t w) = uint t - w"
    using assms by (simp add: window_increment_def low_watermark uint_word_ariths uint_word_of_int)
  show "sint (window_increment t w) = uint t - w"
    using assms(1,2) by (subst sint_small) (simp_all add: u)
qed

lemma window_increment_zero: "\<not> w < low_mark t \<Longrightarrow> window_increment t w = 0"
  by (simp add: window_increment_def low_watermark)

section \<open>The invariant\<close>

definition stream_ok :: "Http2Stream \<Rightarrow> bool" where
  "stream_ok s \<longleftrightarrow> - 2147483648 \<le> hs_send_window s \<and> hs_send_window s \<le> 2147483647
     \<and> list_all item_ok (hs_pending_data s) \<and> 16384 \<le> hs_max_frame_size s \<and> hs_max_frame_size s \<le> 16777215"

definition slot_ok :: "u32 \<Rightarrow> StreamSlot \<Rightarrow> bool" where
  "slot_ok sid sl \<longleftrightarrow> hs_stream_id (sl_stream sl) = sid \<and> stream_ok (sl_stream sl)
     \<and> 0 \<le> sl_recv_window sl \<and> sl_recv_window sl \<le> 2147483647"

definition config_ok :: "Http2RuntimeConfig \<Rightarrow> bool" where
  "config_ok c \<longleftrightarrow> flow_control_target_window c \<le> 2147483647 \<and> flow_control_strategy c = None"

definition mgr_ok :: "Manager \<Rightarrow> bool" where
  "mgr_ok m \<longleftrightarrow> distinct (map fst (mg_streams m)) \<and> (\<forall>(sid, sl) \<in> set (mg_streams m). slot_ok sid sl)
     \<and> settings_ok (mg_local m) \<and> settings_ok (mg_peer m) \<and> config_ok (mg_config m)
     \<and> 0 \<le> mg_conn_send_window m \<and> mg_conn_send_window m \<le> 2147483647
     \<and> 0 \<le> mg_conn_recv_window m \<and> mg_conn_recv_window m \<le> 2147483647"

lemma field_updates [simp]:
  "mgr_ok (m\<lparr>mg_decoder := d\<rparr>) = mgr_ok m" "mgr_ok (m\<lparr>mg_encoder := e\<rparr>) = mgr_ok m"
  "mgr_ok (m\<lparr>mg_spawns := sp\<rparr>) = mgr_ok m" "mgr_ok (m\<lparr>mg_last_peer_stream_id := l\<rparr>) = mgr_ok m"
  "mgr_ok (m\<lparr>mg_settings_ack_pending := b\<rparr>) = mgr_ok m" "mgr_ok (m\<lparr>mg_waiting_ping_ack := b\<rparr>) = mgr_ok m"
  "mgr_ok (m\<lparr>mg_reject_new_streams := b\<rparr>) = mgr_ok m" "mgr_ok (m\<lparr>mg_last_frame_recv_at := n\<rparr>) = mgr_ok m"
  "mgr_ok (m\<lparr>mg_last_ping_sent_at := n\<rparr>) = mgr_ok m" "mgr_ok (m\<lparr>mg_last_ping_payload := p\<rparr>) = mgr_ok m"
  "mgr_ok (m\<lparr>mg_closing := b\<rparr>) = mgr_ok m" "mgr_ok (m\<lparr>mg_pending_actions := as\<rparr>) = mgr_ok m"
  "mgr_ok (m\<lparr>mg_retired := sp\<rparr>) = mgr_ok m" "mgr_ok (m\<lparr>mg_send_channel := q\<rparr>) = mgr_ok m" "mgr_ok (m\<lparr>mg_next_local_stream_id := l\<rparr>) = mgr_ok m"
  by (simp_all add: mgr_ok_def)

text \<open>
  A send operation of a stream works on the stream, the connection's window and the channel at once.
  What the manager needs of one: it keeps the stream well formed and under its id, it takes from the
  connection's window without overdrawing it, and it only appends to the channel.
\<close>

definition conn_stream :: "int \<Rightarrow> Http2OutgoingFrame list \<Rightarrow> Http2Stream \<Rightarrow> Http2Stream" where
  "conn_stream w q s = s\<lparr>hs_conn_send_window := Some w, hs_send_queue := Some q\<rparr>"

definition sends :: "int \<Rightarrow> Http2OutgoingFrame list \<Rightarrow> Http2Stream \<Rightarrow> Http2Stream \<Rightarrow> bool" where
  "sends w q s s' \<longleftrightarrow> (\<exists>w' q'. hs_conn_send_window s' = Some w' \<and> 0 \<le> w' \<and> w' \<le> w
     \<and> hs_send_queue s' = Some (q @ q') \<and> stream_ok s' \<and> hs_stream_id s' = hs_stream_id s)"

locale send_operation =
  fixes oper :: "Http2Stream \<Rightarrow> Http2Stream"
  assumes oper_sends: "stream_ok s \<Longrightarrow> 0 \<le> w \<Longrightarrow> sends w q s (oper (conn_stream w q s))"
begin

lemma with_conn_ok:
  assumes "slot_ok sid sl" "mgr_ok m"
  shows "slot_ok sid (fst (with_conn oper sl m)) \<and> mgr_ok (snd (with_conn oper sl m))"
proof -
  have s: "stream_ok (sl_stream sl)" "0 \<le> mg_conn_send_window m"
    using assms by (simp_all add: mgr_ok_def slot_ok_def)
  obtain s' where s': "s' = oper (conn_stream (mg_conn_send_window m) (mg_send_channel m) (sl_stream sl))"
    by simp
  then have w: "with_conn oper sl m = (sl\<lparr>sl_stream := s'\<rparr>,
      m\<lparr>mg_conn_send_window := the (hs_conn_send_window s'), mg_send_channel := the (hs_send_queue s')\<rparr>)"
    by (simp add: with_conn_def Let_def conn_stream_def)
  obtain w' where "hs_conn_send_window s' = Some w'" "0 \<le> w'" "w' \<le> mg_conn_send_window m" "stream_ok s'"
    "hs_stream_id s' = hs_stream_id (sl_stream sl)"
    using oper_sends [OF s] unfolding s' sends_def by blast
  then show ?thesis
    using assms unfolding w by (simp add: slot_ok_def mgr_ok_def)
qed

lemma with_conn_streams [simp]: "mg_streams (snd (with_conn oper sl m)) = mg_streams m"
  by (simp add: with_conn_def Let_def)

end

lemma frame_size_pos: "stream_ok s \<Longrightarrow> hs_max_frame_size s \<noteq> 0"
  by (auto simp: stream_ok_def)

lemma flush_sends:
  assumes "stream_ok s" "0 \<le> w"
  shows "sends w q s (snd (flushPendingData (conn_stream w q s)))"
proof -
  have s: "hs_send_queue (conn_stream w q s) \<noteq> None" "list_all item_ok (hs_pending_data (conn_stream w q s))"
    "hs_max_frame_size (conn_stream w q s) \<noteq> 0"
    using assms frame_size_pos [OF assms(1)] by (simp_all add: conn_stream_def stream_ok_def)
  obtain ds where ds: "flushed (conn_stream w q s) ds (snd (flushPendingData (conn_stream w q s)))"
    "list_all item_ok (hs_pending_data (snd (flushPendingData (conn_stream w q s))))"
    using flush_flushed [OF s] by blast
  then have "int (carried_size ds) \<le> w" "carried_size ds \<le> nat (hs_send_window s)"
    using assms(2) by (auto simp: flushed_def conn_stream_def)
  then show ?thesis
    using ds assms by (auto simp: sends_def flushed_def conn_stream_def stream_ok_def)
qed

lemma conn_stream_simps [simp]:
  "hs_conn_send_window (conn_stream w q s) = Some w" "hs_send_queue (conn_stream w q s) = Some q"
  "hs_stream_id (conn_stream w q s) = hs_stream_id s" "stream_ok (conn_stream w q s) = stream_ok s"
  by (simp_all add: conn_stream_def stream_ok_def)

lemma conn_stream_pending:
  "(conn_stream w q s)\<lparr>hs_pending_data := ps\<rparr> = conn_stream w q (s\<lparr>hs_pending_data := ps\<rparr>)"
  "hs_pending_data (conn_stream w q s) = hs_pending_data s"
  by (simp_all add: conn_stream_def)

interpretation queued: send_operation "queueDataForSend d e wt" for d e wt
proof
  fix s and w :: int and q
  assume s: "stream_ok s" "0 \<le> w"
  define s1 where "s1 = s\<lparr>hs_pending_data := hs_pending_data s
    @ [\<lparr>ds_payload = d, ds_offset = 0, ds_end_stream = e, ds_waiter = wt\<rparr>]\<rparr>"
  have "stream_ok s1" "sends w q s = sends w q s1"
    using s by (auto simp: s1_def stream_ok_def item_ok_def left_def sends_def fun_eq_iff)
  moreover have "queueDataForSend d e wt (conn_stream w q s) = snd (flushPendingData (conn_stream w q s1))"
    by (simp add: queueDataForSend_def s1_def conn_stream_pending)
  ultimately show "sends w q s (queueDataForSend d e wt (conn_stream w q s))"
    using flush_sends [of s1 w q] s(2) by simp
qed

interpretation headers: send_operation "sendEncodedHeadersInternal blk es eh wt" for blk es eh wt
proof
  fix s and w :: int and q
  assume s: "stream_ok s" "0 \<le> w"
  have h: "sends w q s (onHeadersSent es x) = sends w q s x" for x
    by (simp add: onHeadersSent_def Let_def stream_ok_def sends_def)
  show "sends w q s (sendEncodedHeadersInternal blk es eh wt (conn_stream w q s))"
    using s by (simp add: sendEncodedHeadersInternal_def Let_def h) (simp add: conn_stream_def stream_ok_def sends_def)
qed

lemma flush_with_limits:
  assumes "settings_ok peer"
  shows "send_operation (\<lambda>s. snd (flushPendingData (s\<lparr>hs_max_frame_size := max_frame_size peer,
       hs_max_header_list_size := max_header_list_size peer\<rparr>)))"
proof
  fix s and w :: int and q
  assume s: "stream_ok s" "0 \<le> w"
  define s1 where "s1 = s\<lparr>hs_max_frame_size := max_frame_size peer, hs_max_header_list_size := max_header_list_size peer\<rparr>"
  have ok: "stream_ok s1" "sends w q s = sends w q s1"
    using s assms by (simp_all add: s1_def stream_ok_def settings_ok_def sends_def fun_eq_iff)
  have c: "(conn_stream w q s)\<lparr>hs_max_frame_size := max_frame_size peer, hs_max_header_list_size := max_header_list_size peer\<rparr>
      = conn_stream w q s1"
    by (simp add: conn_stream_def s1_def)
  show "sends w q s (snd (flushPendingData ((conn_stream w q s)\<lparr>hs_max_frame_size := max_frame_size peer,
      hs_max_header_list_size := max_header_list_size peer\<rparr>)))"
    unfolding c ok(2) by (rule flush_sends [OF ok(1) s(2)])
qed

lemma flush_slot_ok:
  assumes "slot_ok sid sl" "mgr_ok m"
  shows "slot_ok sid (fst (flush_slot sl m)) \<and> mgr_ok (snd (flush_slot sl m))"
  unfolding flush_slot_def
  by (rule send_operation.with_conn_ok [OF flush_with_limits]) (use assms in \<open>simp_all add: mgr_ok_def\<close>)

section \<open>The stream table\<close>

lemma getStream_put [simp]: "getStream (put_stream sid sl m) k = (if k = sid then Some sl else getStream m k)"
  by (simp add: getStream_def put_stream_def update_conv)

lemma put_stream_fields [simp]:
  "mg_decoder (put_stream sid sl m) = mg_decoder m" "mg_spawns (put_stream sid sl m) = mg_spawns m"
  "mg_pending_actions (put_stream sid sl m) = mg_pending_actions m" "mg_send_channel (put_stream sid sl m) = mg_send_channel m"
  "mg_is_client (put_stream sid sl m) = mg_is_client m"
  "mg_expecting_continuation (put_stream sid sl m) = mg_expecting_continuation m"
  "mg_continuation_stream_id (put_stream sid sl m) = mg_continuation_stream_id m"
  by (simp_all add: put_stream_def)

lemma retire_server [simp]: "\<not> mg_is_client m \<Longrightarrow> tryRetireClientStream sid sl m = m"
  by (simp add: tryRetireClientStream_def)

lemma getStream_ok: "mgr_ok m \<Longrightarrow> getStream m sid = Some sl \<Longrightarrow> slot_ok sid sl"
  by (auto simp: mgr_ok_def getStream_def dest!: map_of_SomeD)

lemma put_stream_ok [simp]: "mgr_ok m \<Longrightarrow> slot_ok sid sl \<Longrightarrow> mgr_ok (put_stream sid sl m)"
proof -
  assume m: "mgr_ok m" "slot_ok sid sl"
  have d: "distinct (map fst (AList.update sid sl (mg_streams m)))"
    using m by (simp add: mgr_ok_def distinct_update)
  have "slot_ok k x" if "(k, x) \<in> set (AList.update sid sl (mg_streams m))" for k x
  proof -
    have "map_of (AList.update sid sl (mg_streams m)) k = Some x"
      using d that by (rule map_of_is_SomeI)
    then show ?thesis
      using m getStream_ok [OF m(1), of k x] by (auto simp: update_conv getStream_def split: if_splits)
  qed
  then show ?thesis
    using m d by (auto simp: mgr_ok_def put_stream_def)
qed

lemma removeStream_ok [simp]: "mgr_ok m \<Longrightarrow> mgr_ok (removeStream sid m)"
  by (auto simp: mgr_ok_def removeStream_def AList.delete_eq distinct_map_filter)

lemma fold_ok: "(\<And>x m. mgr_ok m \<Longrightarrow> mgr_ok (f x m)) \<Longrightarrow> mgr_ok m \<Longrightarrow> mgr_ok (fold f xs m)"
  by (induction xs arbitrary: m) auto

lemma drainRetiredStreams_ok [simp]: "mgr_ok m \<Longrightarrow> mgr_ok (drainRetiredStreams m)"
  unfolding drainRetiredStreams_def by (rule fold_ok) simp_all

lemma new_slot_ok: "settings_ok peer \<Longrightarrow> slot_ok sid (new_slot sid peer)"
  by (simp add: slot_ok_def new_slot_def new_stream_def stream_ok_def settings_ok_def normalizeMaxFrameSize_def
      kDefaultMaxFrameSize_def kMaxFrameSize_def)

lemma createStream_ok:
  assumes "mgr_ok m"
  shows "slot_ok sid (fst (createStream sid m)) \<and> mgr_ok (snd (createStream sid m))"
  using assms getStream_ok [OF assms, of sid] new_slot_ok [of "mg_peer m" sid]
  by (auto simp: createStream_def Let_def mgr_ok_def [of m] split: option.splits)

lemma createStreamInternal_ok:
  "mgr_ok m \<Longrightarrow> slot_ok sid (fst (createStreamInternal sid m)) \<and> mgr_ok (snd (createStreamInternal sid m))"
  unfolding createStreamInternal_def by (intro createStream_ok drainRetiredStreams_ok)

text \<open>A change of the manager that leaves the streams, the settings and the windows alone.\<close>

lemma mgr_ok_frame:
  "mg_streams m' = mg_streams m \<Longrightarrow> mg_local m' = mg_local m \<Longrightarrow> mg_peer m' = mg_peer m \<Longrightarrow> mg_config m' = mg_config m \<Longrightarrow>
   mg_conn_send_window m' = mg_conn_send_window m \<Longrightarrow> mg_conn_recv_window m' = mg_conn_recv_window m \<Longrightarrow> mgr_ok m' = mgr_ok m"
  by (simp add: mgr_ok_def)

lemma frame_updates [simp]:
  "mgr_ok (push_action a m) = mgr_ok m"
  "mgr_ok (enqueueSendBytes b m) = mgr_ok m"
  "mgr_ok (enqueueSendFrame f m) = mgr_ok m"
  "mgr_ok (setExpectingContinuation x sid m) = mgr_ok m"
  "mgr_ok (enqueueGoaway_last l e b m) = mgr_ok m"
  "mgr_ok (enqueueGoaway e b m) = mgr_ok m"
  "mgr_ok (markGoawayReceived l e b m) = mgr_ok m"
  "mgr_ok (enqueueRetireStream sid m) = mgr_ok m"
  by (simp_all add: push_action_def enqueueSendFrame_def enqueueSendBytes_def setExpectingContinuation_def enqueueGoaway_def
      enqueueGoaway_last_def markGoawaySent_def markGoawayReceived_def enqueueRetireStream_def mgr_ok_def)

lemma allocateStream_ok: "mgr_ok m \<Longrightarrow> mgr_ok (snd (allocateStream m))"
  using createStreamInternal_ok [of "m\<lparr>mg_next_local_stream_id := mg_next_local_stream_id m + 2\<rparr>" "mg_next_local_stream_id m"]
  by (simp add: allocateStream_def newStream_def Let_def split: option.splits)

lemma slot_updates [simp]:
  "slot_ok sid (pushFrame f sl) = slot_ok sid sl"
  "slot_ok sid (markRequestCompleted sl) = slot_ok sid sl"
  "slot_ok sid (markResponseCompleted sl) = slot_ok sid sl"
  "slot_ok sid (markCompleted c sl) = slot_ok sid sl"
  "slot_ok sid (setPriority x d w sl) = slot_ok sid sl"
  "slot_ok sid (appendHeaderBlock b sl) = slot_ok sid sl"
  "slot_ok sid (appendData c b sl) = slot_ok sid sl"
  "slot_ok sid (consumeDecodedHeadersAsRequest sl) = slot_ok sid sl"
  "slot_ok sid (consumeDecodedHeadersAsResponse sl) = slot_ok sid sl"
  "slot_ok sid (upd_stream (onHeadersReceived e) sl) = slot_ok sid sl"
  "slot_ok sid (upd_stream (onDataReceived e) sl) = slot_ok sid sl"
  "slot_ok sid (upd_stream onRstStream sl) = slot_ok sid sl"
  "slot_ok sid (upd_stream (\<lambda>s. s\<lparr>hs_state := x2\<rparr>) sl) = slot_ok sid sl"
  "slot_ok sid (sl\<lparr>sl_decoded_headers := hs\<rparr>) = slot_ok sid sl"
  "slot_ok sid (sl\<lparr>sl_header_block := b\<rparr>) = slot_ok sid sl"
  "slot_ok sid (sl\<lparr>sl_goaway_error := g\<rparr>) = slot_ok sid sl"
  by (simp_all add: slot_ok_def stream_ok_def pushFrame_def markRequestCompleted_def markResponseCompleted_def markCompleted_def
      setPriority_def appendHeaderBlock_def appendData_def consumeDecodedHeadersAsRequest_def consumeDecodedHeadersAsResponse_def
      upd_stream_def onHeadersReceived_def onDataReceived_def onRstStream_def remote_end_def Let_def)

lemma slot_completed [simp]: "slot_ok sid (if b then markCompleted c sl else sl) = slot_ok sid sl"
  by simp

lemma closeFrameQueue_ok [simp]: "slot_ok sid sl \<Longrightarrow> slot_ok sid (closeFrameQueue sl)"
  by (simp add: slot_ok_def stream_ok_def closeFrameQueue_def Let_def upd_stream_def notifyPendingDataWaiters_def
      markRequestCompleted_def markResponseCompleted_def)

lemma tryRetire_ok [simp]: "mgr_ok m \<Longrightarrow> mgr_ok (tryRetireClientStream sid sl m)"
  by (auto simp: tryRetireClientStream_def)

section \<open>Stream frames keep the invariant\<close>

lemma findOrCreate_ok:
  assumes "mgr_ok m"
  shows "mgr_ok (snd (findOrCreateHeadersStream sid m))"
    and "fst (findOrCreateHeadersStream sid m) = Some sl \<Longrightarrow> slot_ok sid sl"
  using assms getStream_ok [OF assms, of sid] createStreamInternal_ok [OF assms, of sid]
  by (auto simp: findOrCreateHeadersStream_def case_prod_unfold Let_def split: option.splits if_splits)

lemma completeReceivedHeaders_ok [simp]:
  "slot_ok sid sl \<Longrightarrow> slot_ok sid (fst (completeReceivedHeaders x e sl m))"
  "mgr_ok m \<Longrightarrow> mgr_ok (snd (completeReceivedHeaders x e sl m))"
  by (simp_all add: completeReceivedHeaders_def decodeBufferedHeaders_def completeDecodedHeaders_def case_prod_unfold Let_def
      split: sum.splits)

lemma handleHeadersFrame_ok:
  assumes "mgr_ok m"
  shows "mgr_ok (handleHeadersFrame f sid m)"
  using findOrCreate_ok [OF assms, of sid]
  by (simp add: handleHeadersFrame_def Let_def case_prod_unfold split: option.splits)

lemma handleContinuationFrame_ok:
  assumes "mgr_ok m"
  shows "mgr_ok (handleContinuationFrame f sid m)"
  using assms getStream_ok [OF assms, of sid]
  by (auto simp: handleContinuationFrame_def Let_def case_prod_unfold split: option.splits)

lemma conn_target_bounds: "settings_ok l \<Longrightarrow> config_ok c \<Longrightarrow> uint (conn_target (flow_control_target_window c) l) \<le> 2147483647"
  and stream_target_bounds: "settings_ok l \<Longrightarrow> uint (stream_target l) \<le> 2147483647"
  by (auto simp: conn_target_def stream_target_def settings_ok_def config_ok_def Let_def kDefaultInitialWindowSize_def word_le_def)

text \<open>A window after the update that follows a charge.\<close>

definition refilled :: "u32 \<Rightarrow> int \<Rightarrow> int" where
  "refilled target w = (if window_increment target w > 0 then w + sint (window_increment target w) else w)"

lemma refilled_spec:
  assumes "uint t \<le> 2147483647" "0 \<le> w" "w \<le> 2147483647"
  shows "refilled t w = (if w < low_mark t then uint t else w)"
    and "0 \<le> refilled t w" and "refilled t w \<le> 2147483647"
proof -
  show "refilled t w = (if w < low_mark t then uint t else w)"
    using window_increment_spec [OF assms(1,2)] window_increment_zero [of w t]
    by (auto simp: refilled_def word_less_def)
  then show "0 \<le> refilled t w" "refilled t w \<le> 2147483647"
    using assms by auto
qed

lemma applyRecvWindowUpdate_eq:
  assumes "config_ok (mg_config m)"
  shows "applyRecvWindowUpdate sid n sl m =
    (let t = conn_target (flow_control_target_window (mg_config m)) (mg_local m);
         u = stream_target (mg_local m);
         ci = window_increment t (mg_conn_recv_window m); si = window_increment u (sl_recv_window sl)
     in (sl\<lparr>sl_recv_window := refilled u (sl_recv_window sl)\<rparr>,
         m\<lparr>mg_conn_recv_window := refilled t (mg_conn_recv_window m),
           mg_pending_actions := mg_pending_actions m @ (if ci > 0 then [SendWindowUpdateAction 0 ci] else [])
             @ (if si > 0 then [SendWindowUpdateAction sid si] else [])\<rparr>))"
  using assms by (simp add: applyRecvWindowUpdate_def evaluateRecvWindowUpdate_def config_ok_def Let_def refilled_def push_action_def)

lemma accept_data_ok:
  assumes "mgr_ok m" "slot_ok sid sl" "int (length (m_data f)) \<le> mg_conn_recv_window m" "int (length (m_data f)) \<le> sl_recv_window sl"
  shows "mgr_ok (accept_data f sid sl m)"
proof -
  let ?n = "length (m_data f)"
  let ?sl = "(upd_stream (onDataReceived (isEndStream f)) sl)\<lparr>sl_recv_window :=
    sl_recv_window (upd_stream (onDataReceived (isEndStream f)) sl) - int ?n\<rparr>"
  let ?m = "m\<lparr>mg_conn_recv_window := mg_conn_recv_window m - int ?n\<rparr>"
  have c: "config_ok (mg_config ?m)" "settings_ok (mg_local ?m)"
    using assms by (simp_all add: mgr_ok_def)
  have sl: "slot_ok sid ?sl"
    using assms(2,4) slot_updates(11) [of sid "isEndStream f" sl] by (simp add: slot_ok_def upd_stream_def)
  have w: "0 \<le> mg_conn_recv_window ?m" "mg_conn_recv_window ?m \<le> 2147483647" "0 \<le> sl_recv_window ?sl" "sl_recv_window ?sl \<le> 2147483647"
    using assms sl by (simp_all add: mgr_ok_def slot_ok_def)
  have "slot_ok sid (fst (applyRecvWindowUpdate sid ?n ?sl ?m)) \<and> mgr_ok (snd (applyRecvWindowUpdate sid ?n ?sl ?m))"
    using refilled_spec(2,3) [OF conn_target_bounds [OF c(2,1)] w(1,2)] refilled_spec(2,3) [OF stream_target_bounds [OF c(2)] w(3,4)]
      sl assms(1)
    unfolding applyRecvWindowUpdate_eq [OF c(1)] by (simp add: Let_def mgr_ok_def slot_ok_def)
  then show ?thesis
    unfolding accept_data_def Let_def case_prod_unfold by (intro tryRetire_ok put_stream_ok) simp_all
qed

lemma handleDataFrame_ok:
  assumes "mgr_ok m"
  shows "mgr_ok (handleDataFrame f sid m)"
  using assms getStream_ok [OF assms, of sid] accept_data_ok [OF assms, of sid _ f]
  by (auto simp: handleDataFrame_def mgr_ok_def [of m] slot_ok_def split: option.splits)

lemma handlePriorityFrame_ok:
  assumes "mgr_ok m"
  shows "mgr_ok (handlePriorityFrame f sid m)"
  using assms getStream_ok [OF assms, of sid]
  by (simp add: handlePriorityFrame_def split: option.splits)

lemma handleRstStreamFrame_ok:
  assumes "mgr_ok m"
  shows "mgr_ok (handleRstStreamFrame f sid m)"
  using assms getStream_ok [OF assms, of sid]
  by (simp add: handleRstStreamFrame_def Let_def split: option.splits)

lemma handlePushPromiseFrame_ok:
  assumes "mgr_ok m"
  shows "mgr_ok (handlePushPromiseFrame f sid m)"
  using assms getStream_ok [OF assms, of "m_promised_stream_id f"] createStreamInternal_ok [OF assms, of "m_promised_stream_id f"]
  by (simp add: handlePushPromiseFrame_def Let_def case_prod_unfold split: option.splits)

definition increment_ok :: "Http2Frame \<Rightarrow> bool" where
  "increment_ok f \<longleftrightarrow> (frame_type f = FT_WindowUpdate \<longrightarrow> m_window_size_increment f \<le> 2147483647)"

lemma handleWindowUpdateFrame_ok:
  assumes "mgr_ok m" "m_window_size_increment f \<le> 2147483647"
  shows "mgr_ok (handleWindowUpdateFrame f sid m)"
proof (cases "getStream m sid")
  case (Some sl)
  let ?i = "m_window_size_increment f"
  have i: "sint ?i = uint ?i"
    using assms(2) by (intro sint_small) (simp add: word_le_def)
  have "slot_ok sid (upd_stream (adjustSendWindow (sint ?i)) sl)" if "\<not> hs_send_window (sl_stream sl) + uint ?i > uint kMaxStreamId"
    using that getStream_ok [OF assms(1) Some] unfolding i
    by (auto simp: slot_ok_def stream_ok_def upd_stream_def adjustSendWindow_def kMaxStreamId_def intro: add_increasing2)
  then show ?thesis
    using Some assms flush_slot_ok [of sid "upd_stream (adjustSendWindow (sint ?i)) sl" m]
    by (simp add: handleWindowUpdateFrame_def Let_def case_prod_unfold)
qed (use assms in \<open>simp add: handleWindowUpdateFrame_def\<close>)

lemma dispatchStreamFrame_ok:
  assumes "mgr_ok m" "increment_ok f"
  shows "mgr_ok (dispatchStreamFrame f m)"
  using assms handleWindowUpdateFrame_ok [OF assms(1), of f]
  by (simp add: dispatchStreamFrame_def Let_def handleHeadersFrame_ok handleContinuationFrame_ok handleDataFrame_ok
      handlePriorityFrame_ok handleRstStreamFrame_ok handlePushPromiseFrame_ok increment_ok_def)

section \<open>Connection frames keep the invariant\<close>

lemma for_each_stream_ok:
  assumes "\<And>sid sl m. P sid sl \<Longrightarrow> mgr_ok m \<Longrightarrow> slot_ok sid (fst (f sl m)) \<and> mgr_ok (snd (f sl m))"
    "\<forall>(sid, sl) \<in> set sls. P sid sl" "mgr_ok m"
  shows "(\<forall>(sid, sl) \<in> set (fst (for_each_stream f sls m)). slot_ok sid sl) \<and> mgr_ok (snd (for_each_stream f sls m))
    \<and> map fst (fst (for_each_stream f sls m)) = map fst sls"
  using assms(2,3)
proof (induction sls arbitrary: m)
  case (Cons x sls)
  obtain sid sl where x: "x = (sid, sl)"
    by (cases x)
  then show ?case
    using assms(1) [of sid sl m] Cons.prems Cons.IH [of "snd (f sl m)"] by (simp add: case_prod_unfold Let_def)
qed simp

lemma forEachStream_ok:
  assumes "\<And>sid sl m. P sid sl \<Longrightarrow> mgr_ok m \<Longrightarrow> slot_ok sid (fst (f sl m)) \<and> mgr_ok (snd (f sl m))"
    "\<forall>(sid, sl) \<in> set (mg_streams m). P sid sl" "mgr_ok m"
  shows "mgr_ok (forEachStream f m)"
proof -
  obtain sls m1 where r: "for_each_stream f (mg_streams m) m = (sls, m1)"
    by (cases "for_each_stream f (mg_streams m) m")
  have "(\<forall>(sid, sl) \<in> set sls. slot_ok sid sl) \<and> mgr_ok m1 \<and> map fst sls = map fst (mg_streams m)"
    using for_each_stream_ok [where P = P and f = f, OF assms] by (simp add: r)
  then show ?thesis
    using assms(3) by (simp add: forEachStream_def r mgr_ok_def)
qed

text \<open>What \<open>handleSettings\<close> comes to: \<open>applyPeerSettings\<close> repeats the checks that have already passed.\<close>

definition apply_settings_frame :: "Http2Frame \<Rightarrow> Manager \<Rightarrow> Manager" where
  "apply_settings_frame f m =
    (let peer = snd (applySettings (m_settings f) (mg_peer m));
         delta = uint (initial_window_size peer) - uint (initial_window_size (mg_peer m))
     in enqueueSendFrame settings_ack (forEachStream (\<lambda>sl. flush_slot (upd_stream (adjustSendWindow delta) sl))
          (m\<lparr>mg_peer := peer, mg_encoder := encoder_setMaxTableSize (mg_encoder m) (unat (header_table_size peer))\<rparr>)))"

lemma handleSettings_eq:
  "handleSettings f m =
    (let e = validateSettingsFrame f; e1 = fst (applySettings (m_settings f) (mg_peer m));
         delta = uint (initial_window_size (snd (applySettings (m_settings f) (mg_peer m)))) - uint (initial_window_size (mg_peer m))
     in if e \<noteq> NoError then enqueueGoawayAction e m
        else if isAck f then m\<lparr>mg_settings_ack_pending := False\<rparr>
        else if e1 \<noteq> NoError then enqueueGoawayAction e1 m
        else if delta \<noteq> 0 \<and> list_ex (\<lambda>(sid, sl). window_out_of_range delta sl) (mg_streams m) then enqueueGoawayAction FlowControlError m
        else apply_settings_frame f m)"
proof -
  have zero: "upd_stream (adjustSendWindow 0) sl = sl" for sl
    by (simp add: upd_stream_def adjustSendWindow_def)
  have if_zero: "(if d \<noteq> 0 then upd_stream (adjustSendWindow d) sl else sl) = upd_stream (adjustSendWindow d) sl" for d sl
    by (simp add: zero)
  show ?thesis
    by (simp only: handleSettings_def if_zero)
       (simp add: case_prod_unfold applyPeerSettings_def apply_settings_frame_def Let_def)
qed

lemma slot_shifted:
  "slot_ok sid sl \<Longrightarrow> delta = 0 \<or> \<not> window_out_of_range delta sl \<Longrightarrow> slot_ok sid (upd_stream (adjustSendWindow delta) sl)"
  by (auto simp: slot_ok_def stream_ok_def upd_stream_def adjustSendWindow_def window_out_of_range_def kMaxStreamId_def Let_def)

lemma handleSettings_ok:
  assumes "mgr_ok m"
  shows "mgr_ok (handleSettings f m)"
proof -
  let ?peer = "snd (applySettings (m_settings f) (mg_peer m))"
  let ?delta = "uint (initial_window_size ?peer) - uint (initial_window_size (mg_peer m))"
  let ?m = "m\<lparr>mg_peer := ?peer, mg_encoder := encoder_setMaxTableSize (mg_encoder m) (unat (header_table_size ?peer))\<rparr>"
  let ?P = "\<lambda>sid sl. slot_ok sid (upd_stream (adjustSendWindow ?delta) sl)"
  have "settings_ok ?peer"
    using assms by (intro applySettings_ok) (simp add: mgr_ok_def)
  then have m: "mgr_ok ?m"
    using assms by (simp add: mgr_ok_def)
  have "mgr_ok (apply_settings_frame f m)"
    if w: "\<not> (?delta \<noteq> 0 \<and> list_ex (\<lambda>(sid, sl). window_out_of_range ?delta sl) (mg_streams m))"
  proof -
    have "?P sid sl" if "(sid, sl) \<in> set (mg_streams m)" for sid sl
      by (rule slot_shifted) (use assms w that in \<open>auto simp: mgr_ok_def list_ex_iff\<close>)
    then have "mgr_ok (forEachStream (\<lambda>sl. flush_slot (upd_stream (adjustSendWindow ?delta) sl)) ?m)"
      by (intro forEachStream_ok [where P = ?P] flush_slot_ok m) auto
    then show ?thesis
      by (simp add: apply_settings_frame_def Let_def)
  qed
  then show ?thesis
    using assms unfolding handleSettings_eq Let_def by simp
qed

lemma handlePing_ok: "mgr_ok m \<Longrightarrow> mgr_ok (handlePing f m)"
  by (simp add: handlePing_def)

lemma handleGoAway_ok:
  assumes "mgr_ok m"
  shows "mgr_ok (handleGoAway f m)"
proof -
  have "fst \<circ> (\<lambda>(sid, sl). (sid, h sid sl)) = fst" for h :: "u32 \<Rightarrow> StreamSlot \<Rightarrow> StreamSlot"
    by auto
  then show ?thesis
    using assms by (auto simp: handleGoAway_def Let_def mgr_ok_def markGoawayReceived_def)
qed

lemma handleConnWindowUpdate_ok:
  assumes "mgr_ok m" "m_window_size_increment f \<le> 2147483647"
  shows "mgr_ok (handleConnWindowUpdate f m)"
proof -
  let ?i = "m_window_size_increment f"
  let ?m = "m\<lparr>mg_conn_send_window := mg_conn_send_window m + sint ?i\<rparr>"
  have i: "sint ?i = uint ?i"
    using assms(2) by (intro sint_small) (simp add: word_le_def)
  have "mgr_ok (forEachStream flush_slot ?m)" if "\<not> mg_conn_send_window m + uint ?i > uint kMaxStreamId"
    using assms(1) that by (intro forEachStream_ok [where P = slot_ok] flush_slot_ok)
      (auto simp: mgr_ok_def i kMaxStreamId_def)
  then show ?thesis
    using assms(1) by (simp add: handleConnWindowUpdate_def Let_def)
qed

lemma handle_frame_ok:
  assumes "mgr_ok m" "increment_ok f"
  shows "mgr_ok (handle_frame f m)"
  using assms handleConnWindowUpdate_ok [OF assms(1), of f]
  by (simp add: handle_frame_def handleConnectionFrame_def dispatchStreamFrame_ok handleSettings_ok handlePing_ok
      handleGoAway_ok increment_ok_def)

lemma reader_frames_ok:
  "mgr_ok m \<Longrightarrow> list_all increment_ok fs \<Longrightarrow> mgr_ok (snd (reader_frames now fs m))"
  by (induction fs arbitrary: m) (simp_all add: Let_def handle_frame_ok)

lemma process_action_ok: "mgr_ok m \<Longrightarrow> mgr_ok (process_action a m)"
  using getStream_ok [of m] by (auto simp: process_action_def split: PendingAction.splits option.splits)

lemma processPendingActions_ok: "mgr_ok m \<Longrightarrow> mgr_ok (processPendingActions m)"
  unfolding processPendingActions_def by (rule fold_ok [OF process_action_ok]) simp_all

lemma monitor_turn_ok: "mgr_ok m \<Longrightarrow> mgr_ok (snd (monitor_turn now m))"
  by (simp add: monitor_turn_def Let_def)

lemma prepareForStart_ok:
  assumes "mgr_ok m"
  shows "mgr_ok (prepareForStart now m)"
proof -
  let ?t = "flow_control_target_window (mg_config m)" and ?w = "mg_conn_recv_window m"
  have b: "uint ?t \<le> 2147483647" "0 \<le> ?w" "?w \<le> 2147483647"
    using assms by (simp_all add: mgr_ok_def config_ok_def word_le_def)
  then have t: "sint ?t = uint ?t"
    by (intro sint_small) simp
  have "sint (of_int (uint ?t - ?w) :: u32) = uint ?t - ?w" if "uint ?t > ?w"
    using b that by (subst sint_small) (simp_all add: uint_word_of_int uint_word_ariths)
  then show ?thesis
    using assms b by (auto simp: prepareForStart_def Let_def t mgr_ok_def push_action_def)
qed

end
