(* ===== verification/H2_Send.thy ===== *)
theory H2_Send
  imports H2_Invariant
begin

text \<open>
  The rest of the sending interface of \<open>Http2Stream\<close> (\<^verbatim>\<open>galay-http2/kernel/http2_stream.h\<close>): data in one
  piece, in batches and in chunks, headers together with data, RST_STREAM, WINDOW_UPDATE and raw frames. All
  but the raw frames are built from \<open>queueDataForSend\<close> and \<open>sendEncodedHeadersInternal\<close>.
\<close>

section \<open>Operations\<close>

definition notify :: "nat option \<Rightarrow> Http2Stream \<Rightarrow> Http2Stream" where
  "notify waiter s = s\<lparr>hs_notified := hs_notified s @ (case waiter of None \<Rightarrow> [] | Some w \<Rightarrow> [w])\<rparr>"

definition push_outgoing :: "Http2OutgoingFrame list \<Rightarrow> Http2Stream \<Rightarrow> Http2Stream" where
  "push_outgoing fs s = s\<lparr>hs_send_queue := map_option (\<lambda>q. q @ fs) (hs_send_queue s)\<rparr>"

definition sendDataInternal :: "bytes \<Rightarrow> bool \<Rightarrow> nat option \<Rightarrow> Http2Stream \<Rightarrow> Http2Stream" where
  "sendDataInternal payload end_stream waiter s = queueDataForSend payload end_stream waiter s"

definition sendRstStreamInternal :: "Http2ErrorCode \<Rightarrow> nat option \<Rightarrow> Http2Stream \<Rightarrow> Http2Stream" where
  "sendRstStreamInternal err waiter s =
    (if hs_send_queue s = None then s
     else push_outgoing [\<lparr>og_header = [], og_payload = rstStreamBytes (hs_stream_id s) err, og_waiter = waiter\<rparr>] (onRstStream s))"

definition sendWindowUpdate :: "u32 \<Rightarrow> Http2Stream \<Rightarrow> Http2Stream" where
  "sendWindowUpdate increment s =
    (if hs_send_queue s = None then s
     else push_outgoing [\<lparr>og_header = [], og_payload = serialize (WindowUpdateFrame
            (default_header\<lparr>h_type := FT_WindowUpdate, h_stream_id := hs_stream_id s\<rparr>) increment), og_waiter = None\<rparr>] s)"

text \<open>The loops over chunks: only the last chunk carries the end of the stream and the waiter.\<close>

fun queue_chunks :: "bytes list \<Rightarrow> bool \<Rightarrow> nat option \<Rightarrow> Http2Stream \<Rightarrow> Http2Stream" where
  "queue_chunks [] end_stream waiter s = s"
| "queue_chunks (c # cs) end_stream waiter s =
    (let final = (end_stream \<and> cs = [])
     in queue_chunks cs end_stream waiter (queueDataForSend c final (if final then waiter else None) s))"

definition sendDataBatchInternal :: "bytes list \<Rightarrow> bool \<Rightarrow> nat option \<Rightarrow> Http2Stream \<Rightarrow> Http2Stream" where
  "sendDataBatchInternal chunks end_stream waiter s =
    (if chunks = [] then
       if end_stream then queueDataForSend [] True waiter s else notify waiter s
     else queue_chunks chunks end_stream waiter s)"

definition sendDataChunksInternal :: "bytes list \<Rightarrow> bool \<Rightarrow> nat option \<Rightarrow> Http2Stream \<Rightarrow> Http2Stream" where
  "sendDataChunksInternal chunks end_stream waiter s =
    (if length chunks = 1 then sendDataInternal (hd chunks) end_stream waiter s
     else if chunks = [] then
       if end_stream then queueDataForSend [] True waiter s else notify waiter s
     else queue_chunks chunks end_stream waiter s)"

definition sendEncodedHeadersAndDataInternal :: "bytes \<Rightarrow> bytes \<Rightarrow> bool \<Rightarrow> nat option \<Rightarrow> Http2Stream \<Rightarrow> Http2Stream" where
  "sendEncodedHeadersAndDataInternal header_block payload end_headers waiter s =
    (let header_end_stream = (payload = []);
         header_waiter = (if header_end_stream then waiter else None) in
     if hs_send_queue s = None \<or> length header_block > unat (hs_max_header_list_size s) then notify waiter s
     else
       let s1 = sendEncodedHeadersInternal header_block header_end_stream end_headers header_waiter s
       in if payload \<noteq> [] then queueDataForSend payload True waiter s1 else s1)"

definition sendEncodedHeadersAndDataChunksInternal ::
  "bytes \<Rightarrow> bytes list \<Rightarrow> bool \<Rightarrow> nat option \<Rightarrow> Http2Stream \<Rightarrow> Http2Stream" where
  "sendEncodedHeadersAndDataChunksInternal header_block chunks end_headers waiter s =
    (if length chunks = 1 then sendEncodedHeadersAndDataInternal header_block (hd chunks) end_headers waiter s
     else
       let header_end_stream = (chunks = []);
           header_waiter = (if header_end_stream then waiter else None) in
       if hs_send_queue s = None \<or> length header_block > unat (hs_max_header_list_size s) then notify waiter s
       else
         let s1 = sendEncodedHeadersInternal header_block header_end_stream end_headers header_waiter s
         in queue_chunks chunks True waiter s1)"

text \<open>Raw frames: the stream's window is charged, the connection's is not, and nothing waits behind pending data.\<close>

definition batch_frame :: "Http2Frame \<Rightarrow> Http2Stream \<Rightarrow> Http2OutgoingFrame list \<times> Http2Stream" where
  "batch_frame frame s =
    (let f = set_header ((m_header frame)\<lparr>h_stream_id := hs_stream_id s\<rparr>) frame;
         out = [\<lparr>og_header = [], og_payload = serialize f, og_waiter = None\<rparr>] in
     if isHeaders f then (out, onHeadersSent (isEndStream f) s)
     else if isData f then
       if hs_send_window s < int (length (m_data f)) then ([], s)
       else
         let s1 = s\<lparr>hs_send_window := hs_send_window s - int (length (m_data f))\<rparr>
         in (out, if isEndStream f then onDataSent True s1 else s1)
     else if frame_type f = FT_RstStream then (out, onRstStream s)
     else (out, s))"

fun batch_frames :: "Http2Frame list \<Rightarrow> Http2Stream \<Rightarrow> Http2OutgoingFrame list \<times> Http2Stream" where
  "batch_frames [] s = ([], s)"
| "batch_frames (f # fs) s = (let (out, s1) = batch_frame f s; (outs, s2) = batch_frames fs s1 in (out @ outs, s2))"

definition sendFrameBatchInternal :: "Http2Frame list \<Rightarrow> nat option \<Rightarrow> Http2Stream \<Rightarrow> Http2Stream" where
  "sendFrameBatchInternal frames waiter s =
    (if hs_send_queue s = None then notify waiter s
     else
       let (outgoing, s1) = batch_frames frames s in
       if outgoing = [] then notify waiter s1
       else push_outgoing (butlast outgoing @ [(List.last outgoing)\<lparr>og_waiter := waiter\<rparr>]) s1)"

text \<open>Headers and data, encoded with the connection's encoder.\<close>

definition sendHeadersAndDataInternal :: "Http2HeaderField list \<Rightarrow> bytes \<Rightarrow> bool \<Rightarrow> nat option \<Rightarrow> u32 \<Rightarrow> Manager \<Rightarrow> Manager" where
  "sendHeadersAndDataInternal headers payload end_headers waiter sid m =
    (let (header_block, e) = hpack_encode (mg_encoder m) headers
     in send_on_stream (sendEncodedHeadersAndDataInternal header_block payload end_headers waiter) sid (m\<lparr>mg_encoder := e\<rparr>))"

definition sendHeadersAndDataChunksInternal :: "Http2HeaderField list \<Rightarrow> bytes list \<Rightarrow> bool \<Rightarrow> nat option \<Rightarrow> u32 \<Rightarrow> Manager \<Rightarrow> Manager" where
  "sendHeadersAndDataChunksInternal headers chunks end_headers waiter sid m =
    (let (header_block, e) = hpack_encode (mg_encoder m) headers
     in send_on_stream (sendEncodedHeadersAndDataChunksInternal header_block chunks end_headers waiter) sid (m\<lparr>mg_encoder := e\<rparr>))"

section \<open>The contract of a send operation\<close>

lemma send_operation_compose:
  assumes "send_operation f" "send_operation g"
  shows "send_operation (\<lambda>s. g (f s))"
proof
  fix s and w :: int and q
  assume s: "stream_ok s" "0 \<le> w"
  obtain w1 q1 where f: "hs_conn_send_window (f (conn_stream w q s)) = Some w1" "0 \<le> w1" "w1 \<le> w"
    "hs_send_queue (f (conn_stream w q s)) = Some (q @ q1)" "stream_ok (f (conn_stream w q s))"
    "hs_stream_id (f (conn_stream w q s)) = hs_stream_id s"
    using send_operation.oper_sends [OF assms(1) s, of q] unfolding sends_def by blast
  have "conn_stream w1 (q @ q1) (f (conn_stream w q s)) = f (conn_stream w q s)"
    using f by (simp add: conn_stream_def)
  then have "sends w1 (q @ q1) (f (conn_stream w q s)) (g (f (conn_stream w q s)))"
    using send_operation.oper_sends [OF assms(2) f(5,2), of "q @ q1"] by simp
  then show "sends w q s (g (f (conn_stream w q s)))"
    using f unfolding sends_def by fastforce
qed

lemma identity_operation: "send_operation (\<lambda>s. s)"
  by unfold_locales (simp add: sends_def)

lemma notify_operation: "send_operation (notify waiter)"
  by unfold_locales (simp add: sends_def notify_def stream_ok_def conn_stream_def)

lemma queue_chunks_operation: "send_operation (queue_chunks chunks es waiter)"
proof (induction chunks)
  case Nil
  have "queue_chunks [] es waiter = (\<lambda>s. s)"
    by (simp add: fun_eq_iff)
  then show ?case
    by (simp add: identity_operation)
next
  case (Cons c cs)
  have "queue_chunks (c # cs) es waiter =
      (\<lambda>s. queue_chunks cs es waiter (queueDataForSend c (es \<and> cs = []) (if es \<and> cs = [] then waiter else None) s))"
    by (simp add: fun_eq_iff Let_def)
  then show ?case
    using send_operation_compose [OF queued.send_operation_axioms Cons] by simp
qed

text \<open>An operation that chooses between send operations by a test of the state.\<close>

lemma send_operation_if:
  assumes "send_operation f" "send_operation g"
  shows "send_operation (\<lambda>s. if P s then f s else g s)"
  by unfold_locales (simp add: send_operation.oper_sends [OF assms(1)] send_operation.oper_sends [OF assms(2)])

lemmas send_operations = identity_operation notify_operation queue_chunks_operation queued.send_operation_axioms
  headers.send_operation_axioms

interpretation data_batch: send_operation "sendDataBatchInternal chunks es waiter" for chunks es waiter
proof -
  have "sendDataBatchInternal chunks es waiter = (if chunks = [] then if es then queueDataForSend [] True waiter else notify waiter
      else queue_chunks chunks es waiter)"
    by (simp add: fun_eq_iff sendDataBatchInternal_def)
  then show "send_operation (sendDataBatchInternal chunks es waiter)"
    by (simp add: send_operations)
qed

interpretation data_chunks: send_operation "sendDataChunksInternal chunks es waiter" for chunks es waiter
proof -
  have "sendDataChunksInternal chunks es waiter = (if length chunks = 1 then queueDataForSend (hd chunks) es waiter
      else if chunks = [] then if es then queueDataForSend [] True waiter else notify waiter else queue_chunks chunks es waiter)"
    by (simp add: fun_eq_iff sendDataChunksInternal_def sendDataInternal_def)
  then show "send_operation (sendDataChunksInternal chunks es waiter)"
    by (simp add: send_operations)
qed

interpretation headers_and_data: send_operation "sendEncodedHeadersAndDataInternal blk payload eh waiter" for blk payload eh waiter
proof -
  have "sendEncodedHeadersAndDataInternal blk payload eh waiter =
      (\<lambda>s. if hs_send_queue s = None \<or> length blk > unat (hs_max_header_list_size s) then notify waiter s
        else queue_chunks (if payload = [] then [] else [payload]) True waiter
          (sendEncodedHeadersInternal blk (payload = []) eh (if payload = [] then waiter else None) s))"
    by (simp add: fun_eq_iff sendEncodedHeadersAndDataInternal_def Let_def)
  then show "send_operation (sendEncodedHeadersAndDataInternal blk payload eh waiter)"
    using send_operation_if [OF notify_operation send_operation_compose [OF headers.send_operation_axioms queue_chunks_operation]] by simp
qed

interpretation headers_and_chunks: send_operation "sendEncodedHeadersAndDataChunksInternal blk chunks eh waiter" for blk chunks eh waiter
proof -
  have "sendEncodedHeadersAndDataChunksInternal blk chunks eh waiter =
      (if length chunks = 1 then sendEncodedHeadersAndDataInternal blk (hd chunks) eh waiter
       else (\<lambda>s. if hs_send_queue s = None \<or> length blk > unat (hs_max_header_list_size s) then notify waiter s
        else queue_chunks chunks True waiter (sendEncodedHeadersInternal blk (chunks = []) eh (if chunks = [] then waiter else None) s)))"
    by (simp add: fun_eq_iff sendEncodedHeadersAndDataChunksInternal_def Let_def)
  then show "send_operation (sendEncodedHeadersAndDataChunksInternal blk chunks eh waiter)"
    using send_operation_if [OF notify_operation send_operation_compose [OF headers.send_operation_axioms queue_chunks_operation]]
      headers_and_data.send_operation_axioms by simp
qed

lemma push_sends: "sends w q s s' \<Longrightarrow> sends w q s (push_outgoing fs s')"
  by (auto simp: sends_def push_outgoing_def stream_ok_def)

interpretation reset: send_operation "sendRstStreamInternal err waiter" for err waiter
proof
  fix s and w :: int and q
  assume "stream_ok s" "0 \<le> w"
  then have "sends w q s (onRstStream (conn_stream w q s))"
    by (simp add: sends_def onRstStream_def stream_ok_def conn_stream_def)
  then show "sends w q s (sendRstStreamInternal err waiter (conn_stream w q s))"
    by (simp add: sendRstStreamInternal_def push_sends)
qed

interpretation window_update: send_operation "sendWindowUpdate increment" for increment
proof
  fix s and w :: int and q
  assume "stream_ok s" "0 \<le> w"
  then have "sends w q s (conn_stream w q s)"
    by (simp add: sends_def)
  then show "sends w q s (sendWindowUpdate increment (conn_stream w q s))"
    by (simp add: sendWindowUpdate_def push_sends)
qed

lemma sends_state:
  assumes "sends w q s s'"
  shows "sends w q s (onHeadersSent e s')" "sends w q s (onDataSent e s')" "sends w q s (onRstStream s')" "sends w q s (notify wt s')"
  using assms by (auto simp: sends_def onHeadersSent_def onDataSent_def local_end_def onRstStream_def notify_def stream_ok_def Let_def)

lemma batch_frame_sends:
  assumes "sends w q s s'"
  shows "sends w q s (snd (batch_frame f s'))"
proof -
  have "sends w q s (s'\<lparr>hs_send_window := hs_send_window s' - int n\<rparr>)" if "\<not> hs_send_window s' < int n" for n
    using assms that by (auto simp: sends_def stream_ok_def)
  then show ?thesis
    using assms by (auto simp: batch_frame_def Let_def sends_state)
qed

lemma batch_frames_sends: "sends w q s s' \<Longrightarrow> sends w q s (snd (batch_frames fs s'))"
  by (induction fs arbitrary: s') (simp_all add: case_prod_unfold Let_def batch_frame_sends)

interpretation frame_batch: send_operation "sendFrameBatchInternal frames waiter" for frames waiter
proof
  fix s and w :: int and q
  assume "stream_ok s" "0 \<le> w"
  then have "sends w q s (snd (batch_frames frames (conn_stream w q s)))"
    by (intro batch_frames_sends) (simp add: sends_def)
  then show "sends w q s (sendFrameBatchInternal frames waiter (conn_stream w q s))"
    by (simp add: sendFrameBatchInternal_def case_prod_unfold Let_def push_sends sends_state)
qed

section \<open>What reaches the wire\<close>

definition ready :: "Http2Stream \<Rightarrow> bool" where
  "ready s \<longleftrightarrow> list_all item_ok (hs_pending_data s) \<and> hs_max_frame_size s \<noteq> 0"

definition blocked :: "Http2Stream \<Rightarrow> bool" where
  "blocked s \<longleftrightarrow> hs_send_window s \<le> 0 \<or> availableConnSendWindow s \<le> 0"

text \<open>\<open>data_sent s ms s'\<close>: DATA frames were queued that, with what is still pending, are what was pending and then \<open>ms\<close>.\<close>

definition data_sent :: "Http2Stream \<Rightarrow> mark list \<Rightarrow> Http2Stream \<Rightarrow> bool" where
  "data_sent s ms s' \<longleftrightarrow> ready s' \<and> hs_stream_id s' = hs_stream_id s \<and> hs_max_frame_size s' = hs_max_frame_size s
     \<and> (\<exists>ds. hs_send_queue s' = map_option (\<lambda>q. q @ map (outgoing_data (hs_stream_id s)) ds) (hs_send_queue s)
          \<and> carried ds @ owed (hs_pending_data s') = owed (hs_pending_data s) @ ms
          \<and> list_all (\<lambda>(d, e, w). length d \<le> unat (hs_max_frame_size s)) ds)"

lemma data_sent_trans:
  assumes "data_sent s ms s1" "data_sent s1 ns s2"
  shows "data_sent s (ms @ ns) s2"
proof -
  obtain ds es where ds: "hs_send_queue s1 = map_option (\<lambda>q. q @ map (outgoing_data (hs_stream_id s)) ds) (hs_send_queue s)"
      "carried ds @ owed (hs_pending_data s1) = owed (hs_pending_data s) @ ms"
      "list_all (\<lambda>(d, e, w). length d \<le> unat (hs_max_frame_size s)) ds"
    and es: "hs_send_queue s2 = map_option (\<lambda>q. q @ map (outgoing_data (hs_stream_id s)) es) (hs_send_queue s1)"
      "carried es @ owed (hs_pending_data s2) = owed (hs_pending_data s1) @ ns"
      "list_all (\<lambda>(d, e, w). length d \<le> unat (hs_max_frame_size s)) es"
    using assms unfolding data_sent_def by auto
  have "carried (ds @ es) @ owed (hs_pending_data s2) = owed (hs_pending_data s) @ ms @ ns"
    using ds(2) es(2) by (simp add: carried_def)
  then show ?thesis
    using assms ds es unfolding data_sent_def
    by (intro conjI exI [of _ "ds @ es"]) (simp_all add: option.map_comp comp_def)
qed

lemma queue_data_sent:
  assumes "ready s" "hs_send_queue s \<noteq> None"
  shows "data_sent s (marks d e) (queueDataForSend d e w s)
    \<and> (hs_pending_data (queueDataForSend d e w s) \<noteq> [] \<longrightarrow> blocked (queueDataForSend d e w s))"
proof -
  let ?s = "s\<lparr>hs_pending_data := hs_pending_data s @ [\<lparr>ds_payload = d, ds_offset = 0, ds_end_stream = e, ds_waiter = w\<rparr>]\<rparr>"
  have "hs_send_queue ?s \<noteq> None" "list_all item_ok (hs_pending_data ?s)" "hs_max_frame_size ?s \<noteq> 0"
    using assms by (auto simp: ready_def item_ok_def left_def)
  then obtain ds where "flushed ?s ds (snd (flushPendingData ?s))"
    "hs_pending_data (snd (flushPendingData ?s)) \<noteq> [] \<longrightarrow> blocked (snd (flushPendingData ?s))"
    "list_all item_ok (hs_pending_data (snd (flushPendingData ?s)))"
    using flush_flushed [of ?s] unfolding blocked_def by blast
  moreover have "owed (hs_pending_data ?s) = owed (hs_pending_data s) @ marks d e"
    by (simp add: owed_def)
  moreover have "queueDataForSend d e w s = snd (flushPendingData ?s)"
    using assms(2) by (auto simp: queueDataForSend_def)
  ultimately show ?thesis
    using assms(1) unfolding data_sent_def by (auto simp: flushed_def ready_def)
qed

lemma data_sent_queue: "data_sent s ms s' \<Longrightarrow> hs_send_queue s \<noteq> None \<Longrightarrow> hs_send_queue s' \<noteq> None"
  by (auto simp: data_sent_def)

lemma chunks_sent:
  assumes "ready s" "hs_send_queue s \<noteq> None"
  shows "data_sent s (map Octet (concat cs) @ (if es \<and> cs \<noteq> [] then [EndMark] else [])) (queue_chunks cs es w s)
    \<and> (cs \<noteq> [] \<longrightarrow> hs_pending_data (queue_chunks cs es w s) \<noteq> [] \<longrightarrow> blocked (queue_chunks cs es w s))"
  using assms
proof (induction cs arbitrary: s)
  case Nil
  then show ?case
    by (simp add: data_sent_def exI [of _ "[]"] carried_def option.map_ident)
next
  case (Cons c cs)
  let ?fin = "es \<and> cs = []"
  let ?s = "queueDataForSend c ?fin (if ?fin then w else None) s"
  have 1: "data_sent s (marks c ?fin) ?s" "hs_pending_data ?s \<noteq> [] \<longrightarrow> blocked ?s"
    using queue_data_sent [OF Cons.prems] by auto
  then have "ready ?s" "hs_send_queue ?s \<noteq> None"
    using data_sent_queue Cons.prems(2) by (auto simp: data_sent_def)
  then have 2: "data_sent ?s (map Octet (concat cs) @ (if es \<and> cs \<noteq> [] then [EndMark] else [])) (queue_chunks cs es w ?s)
    \<and> (cs \<noteq> [] \<longrightarrow> hs_pending_data (queue_chunks cs es w ?s) \<noteq> [] \<longrightarrow> blocked (queue_chunks cs es w ?s))"
    by (rule Cons.IH)
  have m: "marks c ?fin @ map Octet (concat cs) @ (if es \<and> cs \<noteq> [] then [EndMark] else [])
      = map Octet (concat (c # cs)) @ (if es then [EndMark] else [])"
    by (cases cs) simp_all
  have "data_sent s (map Octet (concat (c # cs)) @ (if es then [EndMark] else [])) (queue_chunks cs es w ?s)"
    using data_sent_trans [OF 1(1), of "map Octet (concat cs) @ (if es \<and> cs \<noteq> [] then [EndMark] else [])"] 2 unfolding m by simp
  then show ?case
    using 1(2) 2 by (cases "cs = []") (simp_all add: Let_def)
qed

text \<open>\<open>sendEncodedHeadersAndDataChunksInternal\<close> with one chunk is the same as without the special case for one chunk,
  except that an empty chunk is not sent.\<close>

lemma headers_and_chunks_eq:
  assumes "hs_send_queue s \<noteq> None" "length blk \<le> unat (hs_max_header_list_size s)"
  shows "sendEncodedHeadersAndDataChunksInternal blk chunks eh w s =
    (let cs = (if chunks = [[]] then [] else chunks)
     in queue_chunks cs True w (sendEncodedHeadersInternal blk (cs = []) eh (if cs = [] then w else None) s))"
proof (cases "length chunks = 1")
  case True
  then obtain c where "chunks = [c]"
    by (cases chunks) auto
  then show ?thesis
    using assms by (auto simp: sendEncodedHeadersAndDataChunksInternal_def sendEncodedHeadersAndDataInternal_def Let_def not_less)
next
  case False
  then have "chunks \<noteq> [[]]"
    by auto
  then show ?thesis
    using assms False by (auto simp: sendEncodedHeadersAndDataChunksInternal_def Let_def not_less)
qed

section \<open>Properties\<close>

text \<open>
  A whole message in one call: \<open>sendEncodedHeadersAndDataChunksInternal\<close> queues the frames of the header block and then DATA
  frames within the peer's frame size; these, followed by what the windows hold back, are what was pending before, then all
  chunks in order and one END_STREAM. When there is no data the header block carries the END_STREAM and no DATA is sent. Data
  stays pending only when a window is used up.
\<close>

theorem message_in_order:
  assumes "stream_ok s" "hs_send_queue s = Some q" "length blk \<le> unat (hs_max_header_list_size s)"
    "s' = sendEncodedHeadersAndDataChunksInternal blk chunks eh w s" "none = (chunks = [] \<or> chunks = [[]])"
  shows "\<exists>hs ds. hs_send_queue s' = Some (q @ hs @ map (outgoing_data (hs_stream_id s)) ds)
    \<and> map wire hs = map serialize (block_frames (hs_stream_id s) (unat (hs_max_frame_size s)) blk none eh True)
    \<and> carried ds @ owed (hs_pending_data s') = owed (hs_pending_data s) @ (if none then [] else map Octet (concat chunks) @ [EndMark])
    \<and> list_all (\<lambda>(d, e, w). length d \<le> unat (hs_max_frame_size s)) ds
    \<and> (none \<longrightarrow> ds = [])
    \<and> (\<not> none \<longrightarrow> hs_pending_data s' \<noteq> [] \<longrightarrow> hs_send_window s' \<le> 0 \<or> availableConnSendWindow s' \<le> 0)"
proof -
  let ?cs = "if chunks = [[]] then [] else chunks"
  let ?s1 = "sendEncodedHeadersInternal blk (?cs = []) eh (if ?cs = [] then w else None) s"
  have cs: "(?cs = []) = none" "concat ?cs = concat chunks"
    using assms(5) by auto
  have s': "s' = queue_chunks ?cs True w ?s1"
    using headers_and_chunks_eq [of s blk chunks eh w] assms(2,3,4) by (simp add: Let_def)
  obtain hs where hs: "hs_send_queue ?s1 = Some (q @ hs)"
    "map wire hs = map serialize (block_frames (hs_stream_id s) (unat (hs_max_frame_size s)) blk none eh True)"
    by (rule sent_block_wire [OF assms(2,3) frame_size_pos [OF assms(1)], of "?cs = []" eh "if ?cs = [] then w else None"])
       (use cs(1) in blast)
  have f: "hs_pending_data ?s1 = hs_pending_data s" "hs_max_frame_size ?s1 = hs_max_frame_size s" "hs_stream_id ?s1 = hs_stream_id s"
    by (simp_all add: sendEncodedHeadersInternal_def onHeadersSent_def Let_def)
  have r: "ready ?s1" "hs_send_queue ?s1 \<noteq> None"
    using assms(1) frame_size_pos [OF assms(1)] hs(1) f by (simp_all add: ready_def stream_ok_def)
  show ?thesis
  proof (cases none)
    case True
    then have "s' = ?s1"
      using s' cs(1) by simp
    then show ?thesis
      using hs f True by (intro exI [of _ hs] exI [of _ "[]"]) (simp add: carried_def)
  next
    case False
    then have c: "data_sent ?s1 (map Octet (concat chunks) @ [EndMark]) s'" "hs_pending_data s' \<noteq> [] \<longrightarrow> blocked s'"
      using chunks_sent [OF r, of ?cs True w] cs unfolding s' by simp_all
    then obtain ds where "hs_send_queue s' = Some (q @ hs @ map (outgoing_data (hs_stream_id s)) ds)"
      "carried ds @ owed (hs_pending_data s') = owed (hs_pending_data s) @ map Octet (concat chunks) @ [EndMark]"
      "list_all (\<lambda>(d, e, w). length d \<le> unat (hs_max_frame_size s)) ds"
      using hs(1) f by (auto simp: data_sent_def)
    then show ?thesis
      using hs(2) c(2) False by (intro exI [of _ hs] exI [of _ ds]) (simp add: blocked_def)
  qed
qed

theorem message_in_order_witness:
  "\<exists>hs ds. hs_send_queue (sendEncodedHeadersAndDataChunksInternal [0x88] [[1, 2], [3]] True None sample_stream0)
      = Some (hs @ map (outgoing_data 3) ds)
    \<and> carried ds @ owed (hs_pending_data (sendEncodedHeadersAndDataChunksInternal [0x88] [[1, 2], [3]] True None sample_stream0))
      = map Octet [1, 2, 3] @ [EndMark]"
proof -
  have s: "stream_ok sample_stream0" "hs_send_queue sample_stream0 = Some []"
    "length [0x88 :: u8] \<le> unat (hs_max_header_list_size sample_stream0)" "hs_stream_id sample_stream0 = 3"
    "owed (hs_pending_data sample_stream0) = []"
    by (simp_all add: sample_stream0_def stream_ok_def owed_def)
  show ?thesis
    using message_in_order [OF s(1-3) refl refl, of "[[1, 2], [3]]" True None] s(4,5) by fastforce
qed

text \<open>Raw DATA frames are charged to the stream's window only: the connection's window does not notice them, and does not
  hold them back.\<close>

lemma raw_data_ignores_connection_window:
  "let s = sample_stream0\<lparr>hs_state := Open, hs_conn_send_window := Some 0\<rparr>;
       s' = sendFrameBatchInternal [build_data 3 [1, 2] False] None s
   in map wire (the (hs_send_queue s')) = [serialize (build_data 3 [1, 2] False)] \<and> hs_conn_send_window s' = Some 0"
  by (simp add: Let_def sample_stream0_def sendFrameBatchInternal_def batch_frame_def build_defs isHeaders_def isData_def
      frame_type_def isEndStream_def hasFlag_def h2_enum push_outgoing_def wire_def)

end
