(* ===== verification/H2_Runs.thy ===== *)
theory H2_Runs
  imports H2_Send "HOL-Library.Multiset"
begin

text \<open>
  The runs of the stream manager: every interleaving of frames of the peer, pending actions, turns of the
  monitor, calls of the application, retired streams, the writer and rehashes of the stream table, and the
  invariant over all of them.
\<close>

section \<open>Runs\<close>

lemma received_increment:
  assumes "parseFrame b = Some (Inr f)"
  shows "increment_ok f"
  using assms
proof (rule parseFrame_success)
  fix h f0
  assume c: "createFrame (h_type h) = Some f0"
    and p: "parsePayload (set_header h f0) (take (unat (h_length h)) (drop 9 b)) = Some (NoError, f)"
  show ?thesis
  proof (cases "on_stream_zero f")
    case True
    then have "frame_wf f"
      using parsed_payload_shape [OF c p] by simp
    then show ?thesis
      by (cases f) (auto simp: increment_ok_def frame_type_def h2_enum word_le_def word_less_def)
  next
    case False
    from c show ?thesis
      by (cases rule: createFrame_cases)
         (use p False in \<open>auto simp: increment_ok_def frame_type_def h2_enum on_stream_zero_def bind_eq_Some_conv split: if_splits\<close>)
  qed
qed

lemma send_on_stream_ok:
  assumes "send_operation f" "mgr_ok m"
  shows "mgr_ok (send_on_stream f sid m)"
  using assms(2) send_operation.with_conn_ok [OF assms(1) getStream_ok [OF assms(2)] assms(2)]
  by (simp add: send_on_stream_def case_prod_unfold Let_def split: option.splits)

text \<open>The calls by which a handler sends on its stream.\<close>

inductive app_send :: "(Http2Stream \<Rightarrow> Http2Stream) \<Rightarrow> bool" where
  data: "app_send (sendDataInternal d e w)"
| data_batch: "app_send (sendDataBatchInternal ds e w)"
| data_chunks: "app_send (sendDataChunksInternal ds e w)"
| encoded: "app_send (sendEncodedHeadersInternal blk es eh w)"
| encoded_data: "app_send (sendEncodedHeadersAndDataInternal blk d eh w)"
| encoded_chunks: "app_send (sendEncodedHeadersAndDataChunksInternal blk ds eh w)"
| reset: "app_send (sendRstStreamInternal err w)"
| window_update: "app_send (sendWindowUpdate n)"
| frames: "app_send (sendFrameBatchInternal fs w)"

lemma app_send_operation: "app_send oper \<Longrightarrow> send_operation oper"
proof (induction rule: app_send.induct)
  case (data d e w)
  have "sendDataInternal d e w = queueDataForSend d e w"
    by (simp add: fun_eq_iff sendDataInternal_def)
  then show ?case
    by (simp add: queued.send_operation_axioms)
qed (rule data_batch.send_operation_axioms data_chunks.send_operation_axioms headers.send_operation_axioms
    headers_and_data.send_operation_axioms headers_and_chunks.send_operation_axioms reset.send_operation_axioms
    window_update.send_operation_axioms frame_batch.send_operation_axioms)+

inductive manager_step :: "Manager \<Rightarrow> Manager \<Rightarrow> bool" where
  frame: "parseFrame b = Some (Inr f) \<Longrightarrow> manager_step m (snd (reader_frames now [f] m))"
| actions: "manager_step m (processPendingActions m)"
| monitor: "manager_step m (snd (monitor_turn now m))"
| send: "app_send oper \<Longrightarrow> manager_step m (send_on_stream oper sid m)"
| headers: "manager_step m (sendHeadersInternal hs es eh w sid m)"
| headers_data: "manager_step m (sendHeadersAndDataInternal hs d eh w sid m)"
| headers_chunks: "manager_step m (sendHeadersAndDataChunksInternal hs ds eh w sid m)"
| allocate: "manager_step m (snd (allocateStream m))"
| retire: "manager_step m (enqueueRetireStream sid m)"
| drain: "manager_step m (drainRetiredStreams m)"
| written: "manager_step m (write_frame m)"
| rehash: "mset sls = mset (mg_streams m) \<Longrightarrow> manager_step m (m\<lparr>mg_streams := sls\<rparr>)"

inductive manager_reachable :: "Manager \<Rightarrow> bool" where
  start: "settings_ok local \<Longrightarrow> config_ok config \<Longrightarrow> manager_reachable (prepareForStart now (new_manager client local config))"
| step: "manager_reachable m \<Longrightarrow> manager_step m m' \<Longrightarrow> manager_reachable m'"

lemma manager_step_ok:
  assumes "manager_step m m'" "mgr_ok m"
  shows "mgr_ok m'"
  using assms
proof (cases rule: manager_step.cases)
  case (frame b f now)
  then show ?thesis
    using assms(2) received_increment [of b f] reader_frames_ok [of m "[f]" now] by simp
next
  case (send oper sid)
  then show ?thesis
    using send_on_stream_ok [OF app_send_operation assms(2)] by simp
next
  case (headers_data hs d eh w sid)
  then show ?thesis
    using send_on_stream_ok [OF headers_and_data.send_operation_axioms] assms(2)
    by (simp add: sendHeadersAndDataInternal_def case_prod_unfold Let_def)
next
  case (headers_chunks hs ds eh w sid)
  then show ?thesis
    using send_on_stream_ok [OF headers_and_chunks.send_operation_axioms] assms(2)
    by (simp add: sendHeadersAndDataChunksInternal_def case_prod_unfold Let_def)
next
  case (headers hs es eh w sid)
  then show ?thesis
    using send_on_stream_ok [OF headers.send_operation_axioms] assms(2)
    by (simp add: sendHeadersInternal_def case_prod_unfold Let_def)
next
  case (rehash sls)
  then have "set sls = set (mg_streams m)" "distinct (map fst sls) = distinct (map fst (mg_streams m))"
    by (metis set_mset_mset, metis mset_eq_imp_distinct_iff mset_map)
  then show ?thesis
    using assms(2) rehash by (simp add: mgr_ok_def)
qed (use assms(2) in \<open>simp_all add: processPendingActions_ok monitor_turn_ok allocateStream_ok write_frame_def\<close>)

lemma new_manager_ok: "settings_ok local \<Longrightarrow> config_ok config \<Longrightarrow> mgr_ok (new_manager client local config)"
  by (simp add: mgr_ok_def new_manager_def settings_ok_def default_settings_def)

lemma manager_reachable_ok: "manager_reachable m \<Longrightarrow> mgr_ok m"
  by (induction rule: manager_reachable.induct) (auto intro: prepareForStart_ok new_manager_ok manager_step_ok)

section \<open>Properties\<close>

text \<open>
  C2. In every state that the stream manager reaches, whatever frames arrive, whatever handlers send, allocate and retire, and
  however the monitor, the pending actions and the writer interleave: the stream table has no id twice and every stream is
  filed under its own id; the connection's two windows stay between 0 and 2^31 - 1 (none is ever overdrawn); every stream's send
  window stays in the range of its 32-bit field and its receive window between 0 and 2^31 - 1; and the settings of both sides
  and the limits handed to the streams stay within the bounds of RFC 7540.
\<close>

theorem manager_invariant:
  assumes "manager_reachable m"
  shows "distinct (map fst (mg_streams m))
    \<and> 0 \<le> mg_conn_send_window m \<and> mg_conn_send_window m \<le> 2147483647
    \<and> 0 \<le> mg_conn_recv_window m \<and> mg_conn_recv_window m \<le> 2147483647
    \<and> settings_ok (mg_peer m) \<and> settings_ok (mg_local m)
    \<and> (\<forall>sid sl. getStream m sid = Some sl \<longrightarrow> hs_stream_id (sl_stream sl) = sid
         \<and> - 2147483648 \<le> hs_send_window (sl_stream sl) \<and> hs_send_window (sl_stream sl) \<le> 2147483647
         \<and> 0 \<le> sl_recv_window sl \<and> sl_recv_window sl \<le> 2147483647
         \<and> 16384 \<le> hs_max_frame_size (sl_stream sl) \<and> hs_max_frame_size (sl_stream sl) \<le> 16777215)"
proof -
  have m: "mgr_ok m"
    by (rule manager_reachable_ok [OF assms])
  then show ?thesis
    using getStream_ok [OF m] by (simp add: mgr_ok_def slot_ok_def stream_ok_def)
qed

lemma started_reachable: "manager_reachable (prepareForStart now (new_manager client default_settings default_config))"
  by (rule manager_reachable.start)
     (simp_all add: settings_ok_def default_settings_def config_ok_def default_config_def kDefaultInitialWindowSize_def)

text \<open>A started server on which a handler has opened a stream and sent its headers.\<close>

definition sample_state :: Manager where
  "sample_state = sendHeadersInternal [] False True None 2
     (snd (allocateStream (prepareForStart 0 (new_manager False default_settings default_config))))"

lemma sample_state_simps:
  "manager_reachable sample_state"
  "getStream sample_state 2 = Some (upd_stream (\<lambda>s. (onHeadersSent False s)\<lparr>hs_conn_send_window := Some 65535,
      hs_send_queue := Some [\<lparr>og_header = headersHeaderBytes 2 0 False True, og_payload = [], og_waiter = None\<rparr>]\<rparr>)
     (new_slot 2 default_settings))"
  "\<not> mg_is_client sample_state" "mg_peer sample_state = default_settings" "mg_conn_recv_window sample_state = 65535"
proof -
  show "manager_reachable sample_state"
    unfolding sample_state_def
    by (rule manager_reachable.step [OF manager_reachable.step [OF started_reachable manager_step.allocate] manager_step.headers])
  have *: "prepareForStart 0 (new_manager False default_settings default_config)
      = (new_manager False default_settings default_config)\<lparr>mg_next_local_stream_id := 2\<rparr>"
    by (simp add: prepareForStart_def new_manager_def Let_def default_config_def kDefaultInitialWindowSize_def)
  show "getStream sample_state 2 = Some (upd_stream (\<lambda>s. (onHeadersSent False s)\<lparr>hs_conn_send_window := Some 65535,
      hs_send_queue := Some [\<lparr>og_header = headersHeaderBytes 2 0 False True, og_payload = [], og_waiter = None\<rparr>]\<rparr>)
     (new_slot 2 default_settings))"
    "\<not> mg_is_client sample_state" "mg_peer sample_state = default_settings" "mg_conn_recv_window sample_state = 65535"
    unfolding sample_state_def *
    by (simp_all add: allocateStream_def newStream_def new_manager_def getStream_def Let_def createStreamInternal_def
        drainRetiredStreams_def createStream_def put_stream_def sendHeadersInternal_def send_on_stream_def hpack_encode_def
        new_encoder_def with_conn_def sendEncodedHeadersInternal_def new_slot_def new_stream_def onHeadersSent_def upd_stream_def)
qed

theorem manager_invariant_witness:
  "0 \<le> mg_conn_send_window sample_state \<and> settings_ok (mg_peer sample_state)"
  using manager_invariant [OF sample_state_simps(1)] by simp

end
