(* ===== verification/H2_Account.thy ===== *)
theory H2_Account
  imports H2_Runs
begin

text \<open>
  What the manager's handlers do, beyond keeping the invariant: the receive windows after a DATA frame
  and the updates announced for them, SETTINGS applied as a whole with every stream flushed under the new
  limits, and the streams a server admits.
\<close>

section \<open>Receive-window accounting\<close>

text \<open>What a list of actions announces to the peer for a window.\<close>

definition credit :: "u32 \<Rightarrow> PendingAction list \<Rightarrow> int" where
  "credit sid acts = sum_list (map (\<lambda>a. case a of SendWindowUpdateAction s n \<Rightarrow> if s = sid then uint n else 0 | _ \<Rightarrow> 0) acts)"

lemma refilled_credit:
  assumes "uint t \<le> 2147483647" "0 \<le> w"
  shows "refilled t w = w + uint (window_increment t w)" and "low_mark t \<le> refilled t w"
proof (atomize (full), cases "w < low_mark t")
  case True
  then have "sint (window_increment t w) = uint t - w" "uint (window_increment t w) = uint t - w" "w < uint t"
    using window_increment_spec [OF assms] True by simp_all
  then show "refilled t w = w + uint (window_increment t w) \<and> low_mark t \<le> refilled t w"
    using low_mark_le [of t] by (simp add: refilled_def word_less_def)
next
  case False
  then have "window_increment t w = 0"
    by (rule window_increment_zero)
  then show "refilled t w = w + uint (window_increment t w) \<and> low_mark t \<le> refilled t w"
    using False by (simp add: refilled_def)
qed

lemma upd_stream_recv [simp]: "sl_recv_window (upd_stream g sl) = sl_recv_window sl"
  by (simp add: upd_stream_def)

text \<open>The state after an accepted DATA frame on a server.\<close>

lemma accept_data_server:
  assumes "mgr_ok m" "slot_ok sid sl" "\<not> mg_is_client m" "sid \<noteq> 0"
    "int (length (m_data f)) \<le> mg_conn_recv_window m" "int (length (m_data f)) \<le> sl_recv_window sl"
  shows "\<exists>acts sl'. getStream (accept_data f sid sl m) sid = Some sl'
    \<and> (\<forall>k. k \<noteq> sid \<longrightarrow> getStream (accept_data f sid sl m) k = getStream m k)
    \<and> mg_pending_actions (accept_data f sid sl m) = mg_pending_actions m @ acts
    \<and> mg_conn_recv_window (accept_data f sid sl m) = mg_conn_recv_window m - int (length (m_data f)) + credit 0 acts
    \<and> sl_recv_window sl' = sl_recv_window sl - int (length (m_data f)) + credit sid acts
    \<and> low_mark (conn_target (flow_control_target_window (mg_config m)) (mg_local m)) \<le> mg_conn_recv_window (accept_data f sid sl m)
    \<and> low_mark (stream_target (mg_local m)) \<le> sl_recv_window sl'
    \<and> rq_body (sl_request sl') = rq_body (sl_request sl) @ m_data f
    \<and> sl_request_completed sl' = (sl_request_completed sl \<or> isEndStream f)
    \<and> sl_stream sl' = onDataReceived (isEndStream f) (sl_stream sl)"
proof -
  let ?n = "length (m_data f)"
  let ?sl = "(upd_stream (onDataReceived (isEndStream f)) sl)\<lparr>sl_recv_window :=
    sl_recv_window (upd_stream (onDataReceived (isEndStream f)) sl) - int ?n\<rparr>"
  let ?m = "m\<lparr>mg_conn_recv_window := mg_conn_recv_window m - int ?n\<rparr>"
  let ?t = "conn_target (flow_control_target_window (mg_config m)) (mg_local m)" and ?u = "stream_target (mg_local m)"
  let ?ci = "window_increment ?t (mg_conn_recv_window m - int ?n)" and ?si = "window_increment ?u (sl_recv_window sl - int ?n)"
  have c: "config_ok (mg_config m)" "settings_ok (mg_local m)" "config_ok (mg_config ?m)"
    using assms by (simp_all add: mgr_ok_def)
  have ct: "refilled ?t (mg_conn_recv_window m - int ?n) = mg_conn_recv_window m - int ?n + uint ?ci"
    "low_mark ?t \<le> refilled ?t (mg_conn_recv_window m - int ?n)"
    using refilled_credit [OF conn_target_bounds [OF c(2,1)], of "mg_conn_recv_window m - int ?n"] assms(5) by simp_all
  have st: "refilled ?u (sl_recv_window sl - int ?n) = sl_recv_window sl - int ?n + uint ?si"
    "low_mark ?u \<le> refilled ?u (sl_recv_window sl - int ?n)"
    using refilled_credit [OF stream_target_bounds [OF c(2)], of "sl_recv_window sl - int ?n"] assms(6) by simp_all
  define acts where "acts = (if ?ci > 0 then [SendWindowUpdateAction 0 ?ci] else []) @ (if ?si > 0 then [SendWindowUpdateAction sid ?si] else [])"
  define sl1 where "sl1 = appendData False (m_data f) ((upd_stream (onDataReceived (isEndStream f)) sl)
    \<lparr>sl_recv_window := refilled ?u (sl_recv_window sl - int ?n)\<rparr>)"
  define sl' where "sl' = pushFrame f (if isEndStream f then markCompleted False sl1 else sl1)"
  have cr: "credit 0 acts = uint ?ci" "credit sid acts = uint ?si"
    using assms(4) by (simp_all add: acts_def credit_def word_gt_0)
  have u: "applyRecvWindowUpdate sid ?n ?sl ?m = ((upd_stream (onDataReceived (isEndStream f)) sl)
      \<lparr>sl_recv_window := refilled ?u (sl_recv_window sl - int ?n)\<rparr>,
      m\<lparr>mg_conn_recv_window := refilled ?t (mg_conn_recv_window m - int ?n), mg_pending_actions := mg_pending_actions m @ acts\<rparr>)"
    unfolding applyRecvWindowUpdate_eq [OF c(3)] Let_def acts_def by simp
  have a: "accept_data f sid sl m = put_stream sid sl' (m\<lparr>mg_conn_recv_window := refilled ?t (mg_conn_recv_window m - int ?n),
      mg_pending_actions := mg_pending_actions m @ acts\<rparr>)"
  proof -
    have "mg_is_client (m\<lparr>mg_conn_recv_window := x, mg_pending_actions := y\<rparr>) = False"
      "mg_is_client (put_stream sid z (m\<lparr>mg_conn_recv_window := x, mg_pending_actions := y\<rparr>)) = False" for x y z
      using assms(3) by (simp_all add: put_stream_def)
    then show ?thesis
      unfolding accept_data_def Let_def u prod.case sl'_def sl1_def tryRetireClientStream_def by (simp only: simp_thms if_False)
  qed
  have s: "sl_recv_window sl' = refilled ?u (sl_recv_window sl - int ?n)" "rq_body (sl_request sl') = rq_body (sl_request sl) @ m_data f"
    "sl_request_completed sl' = (sl_request_completed sl \<or> isEndStream f)" "sl_stream sl' = onDataReceived (isEndStream f) (sl_stream sl)"
    by (simp_all add: sl'_def sl1_def pushFrame_def markCompleted_def markRequestCompleted_def appendData_def upd_stream_def)
  show ?thesis
    unfolding a using s ct st cr by (intro exI [of _ acts] exI [of _ sl']) (simp add: put_stream_def getStream_def update_conv)
qed

section \<open>Flushing every stream\<close>

text \<open>\<open>slot_flushed c sl sl'\<close>: \<open>sl'\<close> has sent the front of what \<open>sl\<close> owes, and owes more only if its window
  or the connection's window \<open>c\<close> is used up.\<close>

definition slot_flushed :: "int \<Rightarrow> StreamSlot \<Rightarrow> StreamSlot \<Rightarrow> bool" where
  "slot_flushed c sl sl' \<longleftrightarrow> (\<exists>ds. carried ds @ owed (hs_pending_data (sl_stream sl')) = owed (hs_pending_data (sl_stream sl))
     \<and> hs_send_window (sl_stream sl') = hs_send_window (sl_stream sl) - int (carried_size ds)
     \<and> (hs_pending_data (sl_stream sl') \<noteq> [] \<longrightarrow> hs_send_window (sl_stream sl') \<le> 0 \<or> c \<le> 0))"

lemma slot_flushed_mono: "slot_flushed c sl sl' \<Longrightarrow> c' \<le> c \<Longrightarrow> slot_flushed c' sl sl'"
  unfolding slot_flushed_def by force

definition flush_frame :: "Manager \<Rightarrow> Manager \<Rightarrow> bool" where
  "flush_frame m m' \<longleftrightarrow> (\<exists>q. mg_send_channel m' = mg_send_channel m @ q) \<and> mg_conn_send_window m' \<le> mg_conn_send_window m
     \<and> mg_peer m' = mg_peer m \<and> mg_encoder m' = mg_encoder m \<and> mg_pending_actions m' = mg_pending_actions m"

lemma flush_slot_flushes:
  assumes "slot_ok sid sl" "mgr_ok m"
  shows "slot_flushed (mg_conn_send_window (snd (flush_slot sl m))) sl (fst (flush_slot sl m)) \<and> flush_frame m (snd (flush_slot sl m))"
proof -
  define s where "s = (conn_stream (mg_conn_send_window m) (mg_send_channel m) (sl_stream sl))\<lparr>hs_max_frame_size := max_frame_size (mg_peer m),
    hs_max_header_list_size := max_header_list_size (mg_peer m)\<rparr>"
  define s' where "s' = snd (flushPendingData s)"
  have s: "hs_pending_data s = hs_pending_data (sl_stream sl)" "hs_send_window s = hs_send_window (sl_stream sl)"
    "hs_conn_send_window s = Some (mg_conn_send_window m)" "hs_send_queue s = Some (mg_send_channel m)"
    by (simp_all add: s_def conn_stream_def)
  have "hs_send_queue s \<noteq> None" "list_all item_ok (hs_pending_data s)" "hs_max_frame_size s \<noteq> 0"
    using assms by (auto simp: slot_ok_def stream_ok_def s_def conn_stream_def mgr_ok_def settings_ok_def)
  then obtain ds where ds: "flushed s ds s'"
    "hs_pending_data s' \<noteq> [] \<longrightarrow> hs_send_window s' \<le> 0 \<or> availableConnSendWindow s' \<le> 0"
    using flush_flushed [of s] unfolding s'_def by blast
  then obtain w q where w: "hs_conn_send_window s' = Some w" "w \<le> mg_conn_send_window m" "hs_send_queue s' = Some (mg_send_channel m @ q)"
    by (auto simp: flushed_def s)
  have f: "flush_slot sl m = (sl\<lparr>sl_stream := s'\<rparr>, m\<lparr>mg_conn_send_window := w, mg_send_channel := mg_send_channel m @ q\<rparr>)"
    using w by (simp add: flush_slot_def with_conn_def Let_def conn_stream_def s'_def s_def)
  have "slot_flushed w sl (sl\<lparr>sl_stream := s'\<rparr>)"
    unfolding slot_flushed_def using ds w
    by (intro exI [of _ ds]) (simp add: flushed_def s availableConnSendWindow_def)
  then show ?thesis
    unfolding f using w(2) by (simp add: flush_frame_def)
qed

lemma flush_frame_trans: "flush_frame m m1 \<Longrightarrow> flush_frame m1 m2 \<Longrightarrow> flush_frame m m2"
  by (auto simp: flush_frame_def)

lemma for_each_flushes:
  assumes "\<forall>(sid, sl) \<in> set sls. slot_ok sid (g sl)" "mgr_ok m"
  shows "list_all2 (\<lambda>(k, sl) (k', sl'). k' = k \<and> slot_flushed (mg_conn_send_window (snd (for_each_stream (\<lambda>sl. flush_slot (g sl)) sls m))) (g sl) sl')
      sls (fst (for_each_stream (\<lambda>sl. flush_slot (g sl)) sls m))
    \<and> flush_frame m (snd (for_each_stream (\<lambda>sl. flush_slot (g sl)) sls m))"
  using assms
proof (induction sls arbitrary: m)
  case Nil
  then show ?case
    by (simp add: flush_frame_def)
next
  case (Cons x sls)
  obtain k sl where x: "x = (k, sl)"
    by (cases x)
  have f: "slot_flushed (mg_conn_send_window (snd (flush_slot (g sl) m))) (g sl) (fst (flush_slot (g sl) m))"
    "flush_frame m (snd (flush_slot (g sl) m))" "mgr_ok (snd (flush_slot (g sl) m))"
    using flush_slot_flushes [of k "g sl" m] flush_slot_ok [of k "g sl" m] Cons.prems x by auto
  note IH = Cons.IH [OF _ f(3)]
  then show ?case
    using Cons.prems(1) x f flush_frame_trans [OF f(2)] slot_flushed_mono [OF f(1)]
    by (simp add: case_prod_unfold Let_def flush_frame_def)
qed

lemma list_all2_map_of:
  assumes "list_all2 (\<lambda>(k, x) (k', y). k' = k \<and> P x y) xs ys" "map_of xs k = Some x"
  shows "\<exists>y. map_of ys k = Some y \<and> P x y"
  using assms by (induction rule: list_all2_induct) (auto split: if_splits)

lemma forEachStream_flushes:
  assumes "\<forall>(sid, sl) \<in> set (mg_streams m). slot_ok sid (g sl)" "mgr_ok m"
  shows "flush_frame m (forEachStream (\<lambda>sl. flush_slot (g sl)) m)"
    and "getStream m sid = Some sl \<Longrightarrow> \<exists>sl'. getStream (forEachStream (\<lambda>sl. flush_slot (g sl)) m) sid = Some sl'
      \<and> slot_flushed (mg_conn_send_window (forEachStream (\<lambda>sl. flush_slot (g sl)) m)) (g sl) sl'"
proof -
  let ?r = "for_each_stream (\<lambda>sl. flush_slot (g sl)) (mg_streams m) m"
  have r: "forEachStream (\<lambda>sl. flush_slot (g sl)) m = (snd ?r)\<lparr>mg_streams := fst ?r\<rparr>"
    by (simp add: forEachStream_def case_prod_unfold Let_def)
  note f = for_each_flushes [OF assms]
  show "flush_frame m (forEachStream (\<lambda>sl. flush_slot (g sl)) m)"
    using f unfolding r by (simp add: flush_frame_def)
  show "\<exists>sl'. getStream (forEachStream (\<lambda>sl. flush_slot (g sl)) m) sid = Some sl'
      \<and> slot_flushed (mg_conn_send_window (forEachStream (\<lambda>sl. flush_slot (g sl)) m)) (g sl) sl'"
    if "getStream m sid = Some sl"
    using list_all2_map_of [OF conjunct1 [OF f], of sid sl] that unfolding r by (simp add: getStream_def)
qed

section \<open>The streams a server admits\<close>

abbreviation keys :: "Manager \<Rightarrow> u32 list" where
  "keys m \<equiv> map fst (mg_streams m)"

text \<open>A step that leaves the table's keys and the last peer stream id alone.\<close>

definition table_kept :: "Manager \<Rightarrow> Manager \<Rightarrow> bool" where
  "table_kept m m' \<longleftrightarrow> keys m' = keys m \<and> mg_last_peer_stream_id m' = mg_last_peer_stream_id m"

lemma getStream_keys: "getStream m sid = Some sl \<Longrightarrow> sid \<in> set (keys m)"
  by (auto simp: getStream_def dest!: map_of_SomeD intro!: image_eqI [of _ fst "(sid, sl)"])

lemma getStream_None: "getStream m sid = None \<longleftrightarrow> sid \<notin> set (keys m)"
  by (simp add: getStream_def map_of_eq_None_iff)

lemma keys_put: "keys (put_stream sid sl m) = (if sid \<in> set (keys m) then keys m else keys m @ [sid])"
  by (simp add: put_stream_def update_keys)

lemma table_kept_simps [simp]:
  "table_kept m m" "table_kept m (push_action a m') = table_kept m m'" "table_kept m (enqueueSendFrame f m') = table_kept m m'"
  "table_kept m (setExpectingContinuation b k m') = table_kept m m'" "table_kept m (markGoawayReceived l e d m') = table_kept m m'"
  "table_kept m (m'\<lparr>mg_settings_ack_pending := b\<rparr>) = table_kept m m'" "table_kept m (m'\<lparr>mg_waiting_ping_ack := b\<rparr>) = table_kept m m'"
  "table_kept m (m'\<lparr>mg_reject_new_streams := b\<rparr>) = table_kept m m'" "table_kept m (m'\<lparr>mg_conn_send_window := w\<rparr>) = table_kept m m'"
  "table_kept m (m'\<lparr>mg_conn_recv_window := w\<rparr>) = table_kept m m'" "table_kept m (m'\<lparr>mg_pending_actions := as\<rparr>) = table_kept m m'"
  "table_kept m (m'\<lparr>mg_peer := p\<rparr>) = table_kept m m'" "table_kept m (m'\<lparr>mg_encoder := enc\<rparr>) = table_kept m m'"
  "table_kept m (snd (with_conn oper sl m')) = table_kept m m'"
  "table_kept m (snd (completeReceivedHeaders sid b sl m')) = table_kept m m'"
  by (simp_all add: table_kept_def push_action_def enqueueSendFrame_def enqueueSendBytes_def setExpectingContinuation_def
      markGoawayReceived_def with_conn_def Let_def completeReceivedHeaders_def decodeBufferedHeaders_def completeDecodedHeaders_def
      case_prod_unfold)

lemma table_kept_put: "table_kept m m' \<Longrightarrow> sid \<in> set (keys m) \<Longrightarrow> table_kept m (put_stream sid sl m')"
  by (auto simp: table_kept_def keys_put) (simp add: put_stream_def)

lemma table_kept_flush [simp]: "table_kept m (snd (flush_slot sl m')) = table_kept m m'"
  by (simp add: flush_slot_def)

lemma for_each_same: "map fst (fst (for_each_stream (\<lambda>sl. flush_slot (g sl)) sls m)) = map fst sls
   \<and> table_kept m (snd (for_each_stream (\<lambda>sl. flush_slot (g sl)) sls m))"
proof (induction sls arbitrary: m)
  case (Cons x sls)
  have "table_kept m (snd (flush_slot (g (snd x)) m))"
    by simp
  then show ?case
    using Cons [of "snd (flush_slot (g (snd x)) m)"] by (cases x) (auto simp: case_prod_unfold Let_def table_kept_def)
qed simp

lemma forEach_same [simp]: "table_kept m (forEachStream (\<lambda>sl. flush_slot (g sl)) m') = table_kept m m'"
  using for_each_same [of g "mg_streams m'" m'] by (simp add: forEachStream_def case_prod_unfold Let_def table_kept_def)

lemma forEach_flush_same [simp]: "table_kept m (forEachStream flush_slot m') = table_kept m m'"
  using forEach_same [of m "\<lambda>sl. sl" m'] by simp

lemma applyRecvWindowUpdate_same [simp]:
  "table_kept m (snd (applyRecvWindowUpdate sid n sl m')) = table_kept m m'"
  "mg_is_client (snd (applyRecvWindowUpdate sid n sl m')) = mg_is_client m'"
  by (simp_all add: applyRecvWindowUpdate_def case_prod_unfold Let_def table_kept_def push_action_def)

lemma connection_frame_same:
  assumes "\<not> mg_is_client m"
  shows "table_kept m (handleConnectionFrame f m)"
  using assms
  by (simp add: handleConnectionFrame_def handleSettings_eq apply_settings_frame_def handlePing_def handleGoAway_def
      handleConnWindowUpdate_def Let_def)

lemma known_stream_same:
  assumes "\<not> mg_is_client m"
  shows "table_kept m (handleContinuationFrame f sid m)" "table_kept m (handleDataFrame f sid m)"
    "table_kept m (handlePriorityFrame f sid m)" "table_kept m (handleRstStreamFrame f sid m)"
    "table_kept m (handleWindowUpdateFrame f sid m)" "table_kept m (handlePushPromiseFrame f sid m)"
  using assms getStream_keys [of m sid]
  by (simp_all add: handleContinuationFrame_def handleDataFrame_def accept_data_def handlePriorityFrame_def handleRstStreamFrame_def
      handleWindowUpdateFrame_def handlePushPromiseFrame_def case_prod_unfold Let_def table_kept_put split: option.splits)

lemma keys_drained: "set (keys (drainRetiredStreams m)) \<subseteq> set (keys m)" "length (mg_streams (drainRetiredStreams m)) \<le> length (mg_streams m)"
proof -
  have "set (keys (fold removeStream ks m)) \<subseteq> set (keys m) \<and> length (mg_streams (fold removeStream ks m)) \<le> length (mg_streams m)" for ks m
  proof (induction ks arbitrary: m)
    case (Cons k ks)
    have "set (keys (removeStream k m)) \<subseteq> set (keys m)" "length (mg_streams (removeStream k m)) \<le> length (mg_streams m)"
      by (auto simp: removeStream_def AList.delete_eq)
    then show ?case
      using Cons [of "removeStream k m"] by (simp del: set_map) (meson order_trans)
  qed simp
  from this [of "mg_retired m" "m\<lparr>mg_retired := []\<rparr>"]
  show "set (keys (drainRetiredStreams m)) \<subseteq> set (keys m)" "length (mg_streams (drainRetiredStreams m)) \<le> length (mg_streams m)"
    by (simp_all add: drainRetiredStreams_def)
qed

text \<open>HEADERS on a server: the table is kept, or the one new stream is the peer's next.\<close>

definition opened :: "Manager \<Rightarrow> u32 \<Rightarrow> Manager \<Rightarrow> bool" where
  "opened m sid m' \<longleftrightarrow> sid \<notin> set (keys m) \<and> mg_last_peer_stream_id m < sid \<and> mg_last_peer_stream_id m' = sid
     \<and> \<not> mg_reject_new_streams m \<and> (mg_goaway_sent m \<longrightarrow> mg_goaway_last_stream_id m = kMaxStreamId)
     \<and> length (mg_streams m) < unat (max_concurrent_streams (mg_local m)) \<and> length (mg_streams m') \<le> length (mg_streams m) + 1
     \<and> sid \<in> set (keys m') \<and> set (keys m') \<subseteq> insert sid (set (keys m))"

lemma find_or_create_table:
  assumes "\<not> mg_is_client m" "findOrCreateHeadersStream sid m = (r, m1)"
  shows "\<not> mg_is_client m1 \<and> (table_kept m m1 \<and> (r \<noteq> None \<longrightarrow> sid \<in> set (keys m)) \<or> opened m sid m1)"
proof -
  have d: "mg_is_client (drainRetiredStreams m) = mg_is_client m"
  proof -
    have "mg_is_client (fold removeStream ks m) = mg_is_client m" for ks m
      by (induction ks arbitrary: m) (simp_all add: removeStream_def)
    then show ?thesis
      by (simp add: drainRetiredStreams_def)
  qed
  have "opened m sid (snd (createStreamInternal sid m)\<lparr>mg_last_peer_stream_id := sid\<rparr>)"
    if "getStream m sid = None" "\<not> mg_reject_new_streams m" "mg_goaway_sent m \<longrightarrow> mg_goaway_last_stream_id m = kMaxStreamId"
      "mg_last_peer_stream_id m < sid" "length (mg_streams m) < unat (max_concurrent_streams (mg_local m))"
  proof -
    have n: "getStream (drainRetiredStreams m) sid = None"
      using keys_drained(1) [of m] that(1) by (auto simp: getStream_None)
    have k: "keys (snd (createStreamInternal sid m)) = keys (drainRetiredStreams m) @ [sid]"
      using n n [unfolded getStream_None] by (simp add: createStreamInternal_def createStream_def Let_def keys_put)
    then have "length (mg_streams (snd (createStreamInternal sid m))) = Suc (length (mg_streams (drainRetiredStreams m)))"
      by (metis length_append_singleton length_map)
    then show ?thesis
      using that k keys_drained [of m] by (auto simp: opened_def getStream_None simp del: map_append)
  qed
  moreover have "\<not> mg_is_client (snd (createStreamInternal sid m)\<lparr>mg_last_peer_stream_id := sid\<rparr>)"
    using assms(1) d by (simp add: createStreamInternal_def createStream_def Let_def put_stream_def split: option.splits)
  ultimately show ?thesis
    using assms getStream_keys [of m sid]
    by (auto simp: findOrCreateHeadersStream_def case_prod_unfold Let_def not_le not_less push_action_def split: option.splits if_splits)
qed

lemma opened_kept: "opened m sid m1 \<Longrightarrow> table_kept m1 m' \<Longrightarrow> opened m sid m'"
proof -
  assume "opened m sid m1" "table_kept m1 m'"
  moreover have "length (mg_streams m') = length (mg_streams m1)"
    using \<open>table_kept m1 m'\<close> by (metis length_map table_kept_def)
  ultimately show ?thesis
    unfolding opened_def table_kept_def by (simp del: set_map)
qed

lemma complete_client [simp]: "mg_is_client (snd (completeReceivedHeaders sid b sl m)) = mg_is_client m"
  by (simp add: completeReceivedHeaders_def decodeBufferedHeaders_def completeDecodedHeaders_def case_prod_unfold Let_def
      setExpectingContinuation_def)

lemma expecting_client [simp]: "mg_is_client (setExpectingContinuation b k m) = mg_is_client m"
  by (simp add: setExpectingContinuation_def)

lemma headers_table:
  assumes "\<not> mg_is_client m"
  shows "table_kept m (handleHeadersFrame f sid m) \<or> opened m sid (handleHeadersFrame f sid m)"
proof -
  obtain r m1 where r: "findOrCreateHeadersStream sid m = (r, m1)"
    by fastforce
  have c: "\<not> mg_is_client m1"
    using find_or_create_table [OF assms r] by simp
  have t: "table_kept m1 (handleHeadersFrame f sid m)" if "r \<noteq> None \<Longrightarrow> sid \<in> set (keys m1)"
    using that c by (cases r) (simp_all add: handleHeadersFrame_def r Let_def case_prod_unfold table_kept_put)
  from find_or_create_table [OF assms r] show ?thesis
  proof (elim disjE conjE)
    assume "table_kept m m1" "r \<noteq> None \<longrightarrow> sid \<in> set (keys m)"
    then show ?thesis
      using t by (auto simp: table_kept_def)
  next
    assume "opened m sid m1"
    then show ?thesis
      using t opened_kept [of m sid m1] by (auto simp: opened_def)
  qed
qed

lemma handle_frame_table:
  assumes "\<not> mg_is_client m"
  shows "table_kept m (handle_frame f m) \<or> (isHeaders f \<and> opened m (streamId f) (handle_frame f m))"
  using connection_frame_same [OF assms, of f] known_stream_same [OF assms, of f "streamId f"] headers_table [OF assms, of f "streamId f"]
  by (auto simp: handle_frame_def dispatchStreamFrame_def Let_def)

section \<open>Properties\<close>

text \<open>
  C14. Receive windows: in every reachable state of a server, a DATA frame that fits the connection's and the stream's receive
  window is accepted: its octets are appended to the request, both windows are charged by its length and topped up by exactly
  what the queued WINDOW_UPDATE actions announce, so that they stay above the low marks, and no other stream changes. A frame
  that exceeds the connection's window, the stream's window, or meets a stream that may not receive data changes nothing and
  is answered by one GOAWAY or RST_STREAM action with the error of that case.
\<close>

theorem data_accounting:
  assumes "manager_reachable m" "\<not> mg_is_client m" "sid \<noteq> 0" "getStream m sid = Some sl"
  shows "if \<not> canReceiveData_stream (sl_stream sl) then handleDataFrame f sid m = push_action (SendRstStreamAction sid StreamClosed) m
    else if int (length (m_data f)) > mg_conn_recv_window m then handleDataFrame f sid m = push_action (SendGoawayAction FlowControlError) m
    else if int (length (m_data f)) > sl_recv_window sl then handleDataFrame f sid m = push_action (SendRstStreamAction sid FlowControlError) m
    else \<exists>acts sl'. getStream (handleDataFrame f sid m) sid = Some sl'
      \<and> (\<forall>k. k \<noteq> sid \<longrightarrow> getStream (handleDataFrame f sid m) k = getStream m k)
      \<and> mg_pending_actions (handleDataFrame f sid m) = mg_pending_actions m @ acts
      \<and> mg_conn_recv_window (handleDataFrame f sid m) = mg_conn_recv_window m - int (length (m_data f)) + credit 0 acts
      \<and> sl_recv_window sl' = sl_recv_window sl - int (length (m_data f)) + credit sid acts
      \<and> low_mark (conn_target (flow_control_target_window (mg_config m)) (mg_local m)) \<le> mg_conn_recv_window (handleDataFrame f sid m)
      \<and> low_mark (stream_target (mg_local m)) \<le> sl_recv_window sl'
      \<and> rq_body (sl_request sl') = rq_body (sl_request sl) @ m_data f
      \<and> sl_request_completed sl' = (sl_request_completed sl \<or> isEndStream f)
      \<and> sl_stream sl' = onDataReceived (isEndStream f) (sl_stream sl)"
proof -
  have ok: "mgr_ok m" "slot_ok sid sl" "0 \<le> mg_conn_recv_window m" "0 \<le> sl_recv_window sl"
    using manager_reachable_ok [OF assms(1)] getStream_ok [OF _ assms(4)] by (auto simp: mgr_ok_def slot_ok_def)
  have w: "length (m_data f) > nat (max x 0) \<longleftrightarrow> int (length (m_data f)) > x" if "0 \<le> x" for x
    using that by auto
  have eq: "handleDataFrame f sid m =
     (if \<not> canReceiveData_stream (sl_stream sl) then push_action (SendRstStreamAction sid StreamClosed) m
      else if int (length (m_data f)) > mg_conn_recv_window m then push_action (SendGoawayAction FlowControlError) m
      else if int (length (m_data f)) > sl_recv_window sl then push_action (SendRstStreamAction sid FlowControlError) m
      else accept_data f sid sl m)"
    unfolding handleDataFrame_def assms(4) option.case w [OF ok(3)] w [OF ok(4)] using assms(3) by simp
  show ?thesis
    unfolding eq using accept_data_server [OF ok(1,2) assms(2,3), of f] by (simp add: not_less)
qed

theorem data_accounting_witness:
  "\<exists>sl. getStream (handleDataFrame (build_data 2 [1, 2, 3] True) 2 sample_state) 2 = Some sl \<and> rq_body (sl_request sl) = [1, 2, 3]"
  using data_accounting [OF sample_state_simps(1,3) _ sample_state_simps(2), of "build_data 2 [1, 2, 3] True"]
  by (auto simp: sample_state_simps(5) new_slot_def new_stream_def canReceiveData_stream_def upd_stream_def onHeadersSent_def Let_def
      build_defs empty_request_def)


definition sample_settings_frame :: Http2Frame where
  "sample_settings_frame = SettingsFrame (default_header\<lparr>h_type := FT_Settings\<rparr>) [\<lparr>s_value = 100, s_id = SID_InitialWindowSize\<rparr>]"

lemma sample_windows: "(sid, sl) \<in> set (mg_streams sample_state) \<Longrightarrow> hs_send_window (sl_stream sl) = 65535"
proof -
  assume "(sid, sl) \<in> set (mg_streams sample_state)"
  then show ?thesis
    by (auto simp: sample_state_def prepareForStart_def default_config_def kDefaultInitialWindowSize_def allocateStream_def newStream_def
        new_manager_def getStream_def Let_def createStreamInternal_def drainRetiredStreams_def createStream_def put_stream_def
        sendHeadersInternal_def send_on_stream_def hpack_encode_def new_encoder_def with_conn_def sendEncodedHeadersInternal_def
        new_slot_def new_stream_def onHeadersSent_def)
qed




end
