(* ===== verification/H2_Request.thy ===== *)
theory H2_Request
  imports H2_Runs
begin

text \<open>
  A header block from the sender's call to the receiver's handler: the client's
  \<open>sendHeadersInternal\<close> (encoder, framing, channel), the byte stream in any segmentation, the server's
  receive buffer, reader and decoder. The lemmas follow one block through the reader: a HEADERS frame
  that opens it, the CONTINUATION frames that extend it and the frame that ends it.
\<close>

section \<open>Frames of a block\<close>

lemma with_length_block [simp]:
  "streamId (with_length f) = streamId f" "frame_type (with_length f) = frame_type f"
  "isHeaders (with_length f) = isHeaders f" "isContinuation (with_length f) = isContinuation f"
  "isEndHeaders (with_length f) = isEndHeaders f" "isEndStream (with_length f) = isEndStream f"
  by (cases f; simp add: with_length_def streamId_def frame_type_def isHeaders_def isContinuation_def isEndHeaders_def
      isEndStream_def hasFlag_def)+

lemma with_length_header_block [simp]:
  "isHeaders f \<or> isContinuation f \<Longrightarrow> frame_wf f \<Longrightarrow> m_header_block (with_length f) = m_header_block f"
  by (cases f) (simp_all add: with_length_def isHeaders_def isContinuation_def frame_type_def h2_enum)

lemma built_ok:
  assumes "sid < 2 ^ 31" "length d < 2 ^ 24"
  shows "frame_ok (build_headers sid d es eh) \<and> payload_length (build_headers sid d es eh) = length d \<and> \<not> hasPriority (build_headers sid d es eh)"
    and "frame_ok (build_continuation sid d eh) \<and> payload_length (build_continuation sid d eh) = length d"
  using assms by (simp_all add: frame_ok_def build_defs build_continuation_def hasFlag_def hasPriority_def h2_enum)

lemma block_frames_ok:
  assumes "sid < 2 ^ 31" "n < 2 ^ 24"
  shows "list_all (\<lambda>f. frame_ok f \<and> payload_length f \<le> n) (block_frames sid n blk es eh first)"
  using assms
proof (induction sid n blk es eh first rule: block_frames.induct)
  case (1 sid n blk es eh first)
  let ?f = "if first then build_headers sid (take n blk) es (length blk \<le> n \<and> eh) else build_continuation sid (take n blk) (length blk \<le> n \<and> eh)"
  have "length (take n blk) < 2 ^ 24"
    using 1(3) by simp
  then have "frame_ok ?f \<and> payload_length ?f \<le> n"
    using built_ok [OF 1(2), of "take n blk"] by simp
  then show ?case
    using 1(1) [OF refl refl refl] 1(2,3) by (subst block_frames.simps) (simp add: Let_def)
qed

section \<open>A block in the reader\<close>

text \<open>A block of stream \<open>sid\<close> is open: \<open>blk\<close> has arrived so far; the parts of the state that the next
  fragments leave alone are those of \<open>m0\<close>.\<close>

definition untouched :: "Manager \<Rightarrow> Manager \<Rightarrow> bool" where
  "untouched m0 m \<longleftrightarrow> mg_decoder m = mg_decoder m0 \<and> mg_spawns m = mg_spawns m0
     \<and> mg_pending_actions m = mg_pending_actions m0 \<and> mg_send_channel m = mg_send_channel m0 \<and> \<not> mg_is_client m"

definition open_block :: "Manager \<Rightarrow> u32 \<Rightarrow> bytes \<Rightarrow> bool \<Rightarrow> Http2Request \<Rightarrow> Manager \<Rightarrow> bool" where
  "open_block m0 sid blk es req m \<longleftrightarrow> untouched m0 m \<and> mg_expecting_continuation m \<and> mg_continuation_stream_id m = sid
     \<and> (\<exists>sl. getStream m sid = Some sl \<and> sl_header_block sl = blk \<and> hs_end_stream_received (sl_stream sl) = es
          \<and> sl_request sl = req \<and> \<not> sl_request_completed sl)"

definition delivered_block :: "Manager \<Rightarrow> u32 \<Rightarrow> bool \<Rightarrow> Http2Request \<Rightarrow> HpackDecoder \<Rightarrow> Manager \<Rightarrow> bool" where
  "delivered_block m0 sid es req d m \<longleftrightarrow> \<not> mg_expecting_continuation m \<and> mg_decoder m = d
     \<and> mg_spawns m = mg_spawns m0 @ [sid] \<and> mg_pending_actions m = mg_pending_actions m0 \<and> mg_send_channel m = mg_send_channel m0
     \<and> (\<exists>sl. getStream m sid = Some sl \<and> sl_header_block sl = [] \<and> hs_end_stream_received (sl_stream sl) = es
          \<and> sl_request sl = req \<and> sl_request_completed sl = es)"

lemma complete_server:
  assumes "\<not> mg_is_client m" "decode_string (mg_decoder m) (sl_header_block sl) = (Inr hs, d)"
  shows "completeReceivedHeaders sid es sl m =
    ((if es then markRequestCompleted else id)
       (sl\<lparr>sl_header_block := [], sl_request := fold request_field hs (sl_request sl), sl_decoded_headers := []\<rparr>),
     m\<lparr>mg_decoder := d, mg_expecting_continuation := False, mg_continuation_stream_id := 0, mg_spawns := mg_spawns m @ [sid]\<rparr>)"
  using assms by (simp add: completeReceivedHeaders_def decodeBufferedHeaders_def completeDecodedHeaders_def
      consumeDecodedHeadersAsRequest_def setExpectingContinuation_def)

lemma getStream_update [simp]:
  "getStream (m\<lparr>mg_last_frame_recv_at := n\<rparr>) = getStream m" "getStream (setExpectingContinuation b k m) = getStream m"
  by (simp_all add: getStream_def fun_eq_iff setExpectingContinuation_def)

lemma slot_fields [simp]:
  "sl_header_block (pushFrame f sl) = sl_header_block sl" "sl_stream (pushFrame f sl) = sl_stream sl"
  "sl_request (pushFrame f sl) = sl_request sl" "sl_request_completed (pushFrame f sl) = sl_request_completed sl"
  "sl_header_block (appendHeaderBlock b sl) = sl_header_block sl @ b" "sl_stream (appendHeaderBlock b sl) = sl_stream sl"
  "sl_request (appendHeaderBlock b sl) = sl_request sl" "sl_request_completed (appendHeaderBlock b sl) = sl_request_completed sl"
  "sl_header_block (upd_stream g sl) = sl_header_block sl" "sl_stream (upd_stream g sl) = g (sl_stream sl)"
  "sl_request (upd_stream g sl) = sl_request sl" "sl_request_completed (upd_stream g sl) = sl_request_completed sl"
  "sl_header_block (markRequestCompleted sl) = sl_header_block sl" "sl_stream (markRequestCompleted sl) = sl_stream sl"
  "sl_request (markRequestCompleted sl) = sl_request sl" "sl_request_completed (markRequestCompleted sl)"
  by (simp_all add: pushFrame_def appendHeaderBlock_def upd_stream_def markRequestCompleted_def)

lemma continuation_frame:
  assumes "isContinuation f" "streamId f \<noteq> 0"
  shows "handle_frame f m = handleContinuationFrame f (streamId f) m"
  using assms by (simp add: handle_frame_def dispatchStreamFrame_def Let_def isConnectionFrame_def isHeaders_def isContinuation_def h2_enum)

lemma open_block_continues:
  assumes "open_block m0 sid blk es req m" "isContinuation f" "streamId f = sid" "sid \<noteq> 0" "\<not> isEndHeaders f"
  shows "reader_frames now (f # fs) m = reader_frames now fs (handle_frame f (m\<lparr>mg_last_frame_recv_at := now\<rparr>))
    \<and> open_block m0 sid (blk @ m_header_block f) es req (handle_frame f (m\<lparr>mg_last_frame_recv_at := now\<rparr>))"
  using assms by (auto simp: breaks_block_def Let_def open_block_def continuation_frame handleContinuationFrame_def untouched_def)

lemma open_block_ends:
  assumes "open_block m0 sid blk es req m" "isContinuation f" "streamId f = sid" "sid \<noteq> 0" "isEndHeaders f"
    "decode_string (mg_decoder m0) (blk @ m_header_block f) = (Inr hs, d)"
  shows "reader_frames now (f # fs) m = reader_frames now fs (handle_frame f (m\<lparr>mg_last_frame_recv_at := now\<rparr>))
    \<and> delivered_block m0 sid es (fold request_field hs req) d (handle_frame f (m\<lparr>mg_last_frame_recv_at := now\<rparr>))"
proof -
  obtain sl where sl: "getStream m sid = Some sl" "sl_header_block sl = blk" "hs_end_stream_received (sl_stream sl) = es"
    "sl_request sl = req" "\<not> sl_request_completed sl"
    using assms(1) by (auto simp: open_block_def)
  show ?thesis
    using assms sl
    by (auto simp: breaks_block_def Let_def open_block_def continuation_frame handleContinuationFrame_def untouched_def
        complete_server delivered_block_def)
qed

lemma continuation_run:
  assumes "open_block m0 sid blk es req m" "list_all (\<lambda>f. isContinuation f \<and> streamId f = sid) fs" "sid \<noteq> 0" "fs \<noteq> []"
    "map isEndHeaders fs = replicate (length fs - 1) False @ [True]"
    "decode_string (mg_decoder m0) (blk @ concat (map m_header_block fs)) = (Inr hs, d)"
  shows "\<exists>m'. reader_frames now fs m = (False, m') \<and> delivered_block m0 sid es (fold request_field hs req) d m'"
  using assms
proof (induction fs arbitrary: blk m)
  case (Cons f fs)
  show ?case
  proof (cases fs)
    case Nil
    then show ?thesis
      using open_block_ends [OF Cons.prems(1), of f hs d now fs] Cons.prems by simp
  next
    case (Cons g gs)
    then have f: "\<not> isEndHeaders f" "map isEndHeaders fs = replicate (length fs - 1) False @ [True]"
      using Cons.prems(5) by simp_all
    show ?thesis
      using open_block_continues [OF Cons.prems(1) _ _ Cons.prems(3) f(1), of now fs] Cons.prems f(2) Cons
        Cons.IH [of "blk @ m_header_block f" "handle_frame f (m\<lparr>mg_last_frame_recv_at := now\<rparr>)"] by simp
  qed
qed simp

text \<open>A server that takes a new stream \<open>sid\<close>.\<close>

definition admits :: "Manager \<Rightarrow> u32 \<Rightarrow> bool" where
  "admits m sid \<longleftrightarrow> \<not> mg_is_client m \<and> \<not> mg_reject_new_streams m \<and> \<not> mg_goaway_sent m \<and> mg_last_peer_stream_id m < sid
     \<and> length (mg_streams m) < unat (max_concurrent_streams (mg_local m)) \<and> getStream m sid = None"

lemma removed_fields [simp]:
  "untouched m0 (fold removeStream ks m) = untouched m0 m"
  "mg_expecting_continuation (fold removeStream ks m) = mg_expecting_continuation m"
  "mg_peer (fold removeStream ks m) = mg_peer m"
  by (induction ks arbitrary: m) (simp_all add: removeStream_def untouched_def)

lemma getStream_removed: "getStream m sid = None \<Longrightarrow> getStream (fold removeStream ks m) sid = None"
  by (induction ks arbitrary: m) (simp_all add: removeStream_def getStream_def delete_conv')

lemma headers_admitted:
  assumes "admits m sid"
  obtains m1 where "findOrCreateHeadersStream sid m = (Some (new_slot sid (mg_peer m)), m1)" "untouched m m1"
proof -
  have n: "getStream (drainRetiredStreams m) sid = None"
    using getStream_removed [of "m\<lparr>mg_retired := []\<rparr>" sid "mg_retired m"] assms
    by (simp add: drainRetiredStreams_def admits_def getStream_def)
  have u: "untouched m (drainRetiredStreams m)" "mg_peer (drainRetiredStreams m) = mg_peer m"
    using assms by (simp_all add: drainRetiredStreams_def) (simp add: untouched_def admits_def)
  show ?thesis
    by (rule that [of "(put_stream sid (new_slot sid (mg_peer m)) (drainRetiredStreams m))\<lparr>mg_last_peer_stream_id := sid\<rparr>"])
       (use assms n u in \<open>simp_all add: findOrCreateHeadersStream_def admits_def Let_def case_prod_unfold createStreamInternal_def
          createStream_def untouched_def not_le\<close>)
qed

lemma headers_frame:
  assumes "isHeaders f" "streamId f \<noteq> 0"
  shows "handle_frame f m = handleHeadersFrame f (streamId f) m"
  using assms by (simp add: handle_frame_def dispatchStreamFrame_def Let_def isConnectionFrame_def isHeaders_def h2_enum)

lemma priority_fields [simp]:
  "sl_header_block (setPriority x d w sl) = sl_header_block sl" "sl_stream (setPriority x d w sl) = sl_stream sl"
  "sl_request (setPriority x d w sl) = sl_request sl" "sl_request_completed (setPriority x d w sl) = sl_request_completed sl"
  by (simp_all add: setPriority_def)

lemma new_slot_fields [simp]:
  "sl_header_block (new_slot sid p) = []" "sl_request (new_slot sid p) = empty_request" "\<not> sl_request_completed (new_slot sid p)"
  "canReceiveHeaders (sl_stream (new_slot sid p))"
  "hs_end_stream_received (onHeadersReceived es (sl_stream (new_slot sid p))) = es"
  by (simp_all add: new_slot_def new_stream_def canReceiveHeaders_def onHeadersReceived_def remote_end_def Let_def)

lemma expecting_fields [simp]:
  "mg_expecting_continuation (setExpectingContinuation b k m) = b" "mg_continuation_stream_id (setExpectingContinuation b k m) = k"
  "mg_is_client (setExpectingContinuation b k m) = mg_is_client m"
  "untouched m0 (setExpectingContinuation b k m) = untouched m0 m" "untouched m0 (put_stream k sl m) = untouched m0 m"
  by (simp_all add: setExpectingContinuation_def untouched_def)

lemma headers_open:
  assumes "admits m sid" "isHeaders f" "streamId f = sid" "sid \<noteq> 0" "\<not> mg_expecting_continuation m"
  shows "reader_frames now (f # fs) m = reader_frames now fs (handle_frame f (m\<lparr>mg_last_frame_recv_at := now\<rparr>))
    \<and> (\<not> isEndHeaders f \<longrightarrow>
        open_block m sid (m_header_block f) (isEndStream f) empty_request (handle_frame f (m\<lparr>mg_last_frame_recv_at := now\<rparr>)))
    \<and> (\<forall>hs d. isEndHeaders f \<and> decode_string (mg_decoder m) (m_header_block f) = (Inr hs, d) \<longrightarrow>
        delivered_block m sid (isEndStream f) (fold request_field hs empty_request) d (handle_frame f (m\<lparr>mg_last_frame_recv_at := now\<rparr>)))"
proof -
  let ?m = "m\<lparr>mg_last_frame_recv_at := now\<rparr>"
  have "admits ?m sid"
    using assms(1) by (simp add: admits_def)
  then obtain m1 where m1: "findOrCreateHeadersStream sid ?m = (Some (new_slot sid (mg_peer ?m)), m1)" "untouched ?m m1"
    by (rule headers_admitted)
  define sl where "sl = appendHeaderBlock (m_header_block f) (upd_stream (onHeadersReceived (isEndStream f))
    (if hasPriority f then setPriority (m_exclusive f) (m_stream_dependency f) (m_weight f) (new_slot sid (mg_peer ?m))
     else new_slot sid (mg_peer ?m)))"
  have h: "handle_frame f ?m = (let (sl3, m2) = (if isEndHeaders f then completeReceivedHeaders sid (isEndStream f) sl m1
        else (sl, setExpectingContinuation True sid m1))
      in tryRetireClientStream sid (pushFrame f sl3) (put_stream sid (pushFrame f sl3) m2))"
    using assms(2-4) m1(1) by (simp add: headers_frame handleHeadersFrame_def sl_def Let_def)
  have sl: "sl_header_block sl = m_header_block f" "sl_request sl = empty_request" "\<not> sl_request_completed sl"
    "hs_end_stream_received (sl_stream sl) = isEndStream f"
    by (simp_all add: sl_def)
  have u: "untouched m m1" "mg_decoder m1 = mg_decoder m" "\<not> mg_is_client m1"
    using m1(2) by (simp_all add: untouched_def)
  have r: "reader_frames now (f # fs) m = reader_frames now fs (handle_frame f ?m)"
    using assms(5) by (simp add: breaks_block_def Let_def)
  have o: "open_block m sid (m_header_block f) (isEndStream f) empty_request (handle_frame f ?m)" if "\<not> isEndHeaders f"
    using that sl u by (simp add: h open_block_def)
  have "delivered_block m sid (isEndStream f) (fold request_field hs empty_request) d (handle_frame f ?m)"
    if "isEndHeaders f" "decode_string (mg_decoder m) (m_header_block f) = (Inr hs, d)" for hs d
    using that sl u by (simp add: h complete_server delivered_block_def untouched_def)
  then show ?thesis
    using r o by blast
qed

lemma server_receives_block:
  assumes "admits m sid" "sid \<noteq> 0" "\<not> mg_expecting_continuation m"
    "carries_block sid n blk True (f # fs)" "isHeaders f" "list_all isContinuation fs"
    "decode_string (mg_decoder m) blk = (Inr hs, d)"
  shows "\<exists>m'. reader_frames now (f # fs) m = (False, m')
    \<and> delivered_block m sid (isEndStream f) (fold request_field hs empty_request) d m'"
proof -
  have sid: "streamId f = sid" "list_all (\<lambda>f. isContinuation f \<and> streamId f = sid) fs"
    and blk: "m_header_block f @ concat (map m_header_block fs) = blk"
    and e: "map isEndHeaders (f # fs) = replicate (length fs) False @ [True]"
    using assms(4,6) by (auto simp: carries_block_def list_all_iff)
  note ho = headers_open [OF assms(1,5) sid(1) assms(2,3), of now fs]
  show ?thesis
  proof (cases fs)
    case Nil
    then show ?thesis
      using ho blk e assms(7) by simp
  next
    case (Cons g gs)
    then have "\<not> isEndHeaders f" "map isEndHeaders fs = replicate (length fs - 1) False @ [True]"
      using e by simp_all
    then show ?thesis
      using ho continuation_run [of m sid "m_header_block f" "isEndStream f" empty_request _ fs hs d now] sid(2) assms(2,7) blk Cons
      by fastforce
  qed
qed

section \<open>End to end\<close>

lemma carries_with_length:
  assumes "carries_block sid n blk eh fs" "list_all (\<lambda>f. isHeaders f \<or> isContinuation f) fs" "list_all (\<lambda>f. frame_ok f \<and> P f) fs"
  shows "carries_block sid n blk eh (map with_length fs)"
proof -
  have "map m_header_block (map with_length fs) = map m_header_block fs"
    using assms(2,3) by (auto simp: list_all_iff frame_ok_def)
  moreover have "map isEndHeaders (map with_length fs) = map isEndHeaders fs"
    by simp
  moreover have "list_all (\<lambda>f. streamId f = sid \<and> length (m_header_block f) \<le> n) (map with_length fs)"
    using assms by (auto simp: list_all_iff carries_block_def frame_ok_def)
  ultimately show ?thesis
    using assms(1) by (simp add: carries_block_def del: map_map)
qed

lemma channel_of_send:
  assumes "mgr_ok m" "getStream m sid = Some sl" "hpack_encode (mg_encoder m) hs = (blk, e)"
    "length blk \<le> unat (hs_max_header_list_size (sl_stream sl))"
  obtains os where "mg_send_channel (sendHeadersInternal hs es True w sid m) = mg_send_channel m @ os"
    "map wire os = map serialize (block_frames sid (unat (hs_max_frame_size (sl_stream sl))) blk es True True)"
    "mg_encoder (sendHeadersInternal hs es True w sid m) = e"
proof -
  let ?s = "conn_stream (mg_conn_send_window m) (mg_send_channel m) (sl_stream sl)"
  have sl: "slot_ok sid sl"
    using getStream_ok [OF assms(1,2)] .
  have s: "hs_send_queue ?s = Some (mg_send_channel m)" "length blk \<le> unat (hs_max_header_list_size ?s)" "hs_max_frame_size ?s \<noteq> 0"
    "hs_stream_id ?s = sid" "hs_max_frame_size ?s = hs_max_frame_size (sl_stream sl)"
    using assms(4) sl frame_size_pos [of "sl_stream sl"] by (simp_all add: conn_stream_def slot_ok_def)
  obtain os where os: "hs_send_queue (sendEncodedHeadersInternal blk es True w ?s) = Some (mg_send_channel m @ os)"
    "map wire os = map serialize (block_frames sid (unat (hs_max_frame_size (sl_stream sl))) blk es True True)"
    using sent_block_wire [OF s(1-3), of es True w] unfolding s(4,5) by blast
  show ?thesis
    by (rule that [OF _ os(2)])
       (use assms(2,3) os(1) in \<open>simp_all add: sendHeadersInternal_def send_on_stream_def getStream_def with_conn_def Let_def
          conn_stream_def put_stream_def\<close>)
qed

text \<open>How long a block gets: at most 18 octets for a field beside its strings.\<close>

lemma encodeInteger_tail_length: "unat v < 128 ^ n \<Longrightarrow> 0 < n \<Longrightarrow> length (encodeInteger_tail v) \<le> n"
proof (induction v arbitrary: n rule: encodeInteger_tail.induct)
  case (1 v)
  show ?case
  proof (cases "v \<ge> 128")
    case True
    have v: "128 \<le> unat v"
      using True by (simp add: word_le_nat_alt)
    obtain k where k: "n = Suc k"
      using 1(3) by (cases n) simp_all
    have "0 < k"
      using 1(2) v k by (cases k) simp_all
    moreover have "unat (drop_bit 7 v) < 128 ^ k"
      using 1(2) unfolding k by (simp only: unat_drop_bit_eq) (simp add: drop_bit_eq_div div_less_iff_less_mult mult.commute)
    ultimately have "length (encodeInteger_tail (drop_bit 7 v)) \<le> k"
      by (intro 1(1) True)
    then show ?thesis
      using True k by (subst encodeInteger_tail.simps) simp
  next
    case False
    then show ?thesis
      using 1(3) by (subst encodeInteger_tail.simps) simp
  qed
qed

lemma encodeInteger_length: "length (encodeInteger v k p) \<le> 6"
proof -
  have "length (encodeInteger_tail x) \<le> 5" for x
    by (rule encodeInteger_tail_length [OF less_le_trans [OF unsigned_less]]) simp_all
  then show ?thesis
    by (simp add: encodeInteger_def Let_def)
qed

lemma encodeString_length: "length (encodeString h s) \<le> 6 + wire_length h s"
  by (simp add: encodeString_def wire_length_def Let_def length_huffman_encode encodeInteger_length)

lemma encode_fields_length:
  "length (fst (encode_fields e hs)) \<le> sum_list (map (\<lambda>f. 18 + wire_length (m_use_huffman e) (hname f) + wire_length (m_use_huffman e) (hvalue f)) hs)"
proof (induction hs arbitrary: e)
  case (Cons f hs)
  have "length (fst (encodeField e f)) \<le> 18 + wire_length (m_use_huffman e) (hname f) + wire_length (m_use_huffman e) (hvalue f)"
  proof -
    have "length (literal_bytes (m_use_huffman e) k p idx f) \<le> 18 + wire_length (m_use_huffman e) (hname f) + wire_length (m_use_huffman e) (hvalue f)" for k p idx
      using encodeInteger_length [of "of_nat idx" k p] encodeString_length [of "m_use_huffman e" "hname f"]
        encodeString_length [of "m_use_huffman e" "hvalue f"] by (cases "idx = 0") (simp_all add: literal_bytes_def)
    moreover have "length (encodeIndexed i) \<le> 18 + x + y" for i x y
      using encodeInteger_length [of "of_nat i" 7 "0x80"] by (simp add: encodeIndexed_def)
    ultimately show ?thesis
      by (simp add: encodeField_def Let_def case_prod_unfold literal_bytes_simps)
  qed
  moreover have "m_use_huffman (snd (encodeField e f)) = m_use_huffman e"
    using encodeField_state [of e f "fst (encodeField e f)" "snd (encodeField e f)"] by auto
  ultimately show ?case
    using Cons [of "snd (encodeField e f)"] by (simp add: case_prod_unfold Let_def)
qed simp

end
