(* ===== verification/H2_Keepalive.thy ===== *)
theory H2_Keepalive
  imports H2_Invariant
begin

text \<open>
  The monitor of the stream manager against the frames that arrive meanwhile: when \<open>monitorLoop\<close> gives a
  connection up for an unanswered PING, such a PING was sent, long enough ago, and not answered.
\<close>

section \<open>What the handlers leave to the monitor\<close>

definition monitor_state :: "Manager \<Rightarrow> Http2RuntimeConfig \<times> bool \<times> bytes \<times> int" where
  "monitor_state m = (mg_config m, mg_waiting_ping_ack m, mg_last_ping_payload m, mg_last_ping_sent_at m)"

lemma monitor_kept [simp]:
  "monitor_state (push_action a m) = monitor_state m" "monitor_state (enqueueSendBytes b m) = monitor_state m"
  "monitor_state (enqueueSendFrame f m) = monitor_state m" "monitor_state (setExpectingContinuation x k m) = monitor_state m"
  "monitor_state (markGoawayReceived l e d m) = monitor_state m" "monitor_state (put_stream k sl m) = monitor_state m"
  "monitor_state (removeStream k m) = monitor_state m" "monitor_state (snd (with_conn oper sl m)) = monitor_state m"
  "monitor_state (tryRetireClientStream k sl m) = monitor_state m" "monitor_state (snd (completeReceivedHeaders k x sl m)) = monitor_state m"
  "monitor_state (snd (applyRecvWindowUpdate k n sl m)) = monitor_state m"
  by (simp_all add: monitor_state_def push_action_def enqueueSendBytes_def enqueueSendFrame_def setExpectingContinuation_def
      markGoawayReceived_def put_stream_def removeStream_def with_conn_def tryRetireClientStream_def completeReceivedHeaders_def
      decodeBufferedHeaders_def completeDecodedHeaders_def applyRecvWindowUpdate_def case_prod_unfold Let_def)

lemma monitor_kept_updates [simp]:
  "monitor_state (m\<lparr>mg_streams := sls\<rparr>) = monitor_state m" "monitor_state (m\<lparr>mg_last_peer_stream_id := k\<rparr>) = monitor_state m"
  "monitor_state (m\<lparr>mg_spawns := ks\<rparr>) = monitor_state m" "monitor_state (m\<lparr>mg_retired := ks\<rparr>) = monitor_state m"
  "monitor_state (m\<lparr>mg_conn_recv_window := w\<rparr>) = monitor_state m" "monitor_state (m\<lparr>mg_conn_send_window := w\<rparr>) = monitor_state m"
  "monitor_state (m\<lparr>mg_peer := p\<rparr>) = monitor_state m" "monitor_state (m\<lparr>mg_encoder := e\<rparr>) = monitor_state m"
  "monitor_state (m\<lparr>mg_settings_ack_pending := b\<rparr>) = monitor_state m" "monitor_state (m\<lparr>mg_reject_new_streams := b\<rparr>) = monitor_state m"
  "monitor_state (m\<lparr>mg_last_frame_recv_at := n\<rparr>) = monitor_state m"
  by (simp_all add: monitor_state_def)

lemma monitor_kept_streams [simp]:
  "monitor_state (drainRetiredStreams m) = monitor_state m" "monitor_state (snd (createStreamInternal k m)) = monitor_state m"
  "monitor_state (snd (findOrCreateHeadersStream k m)) = monitor_state m" "monitor_state (snd (flush_slot sl m)) = monitor_state m"
proof -
  have "monitor_state (fold removeStream ks m) = monitor_state m" for ks m
    by (induction ks arbitrary: m) simp_all
  then show d: "monitor_state (drainRetiredStreams m) = monitor_state m"
    by (simp add: drainRetiredStreams_def)
  then show c: "monitor_state (snd (createStreamInternal k m)) = monitor_state m"
    by (simp add: createStreamInternal_def createStream_def Let_def split: option.splits)
  show "monitor_state (snd (findOrCreateHeadersStream k m)) = monitor_state m"
    by (simp add: findOrCreateHeadersStream_def case_prod_unfold Let_def c split: option.splits)
  show "monitor_state (snd (flush_slot sl m)) = monitor_state m"
    by (simp add: flush_slot_def)
qed

lemma monitor_kept_forEach [simp]:
  assumes "\<And>sl m. monitor_state (snd (g sl m)) = monitor_state m"
  shows "monitor_state (forEachStream g m) = monitor_state m"
proof -
  have "monitor_state (snd (for_each_stream g sls m)) = monitor_state m" for sls m
  proof (induction sls arbitrary: m)
    case (Cons x sls)
    then show ?case
      by (cases x) (simp add: case_prod_unfold Let_def assms)
  qed simp
  then show ?thesis
    by (simp add: forEachStream_def case_prod_unfold Let_def)
qed

definition pong :: "bytes \<Rightarrow> Http2Frame \<Rightarrow> bool" where
  "pong payload f \<longleftrightarrow> frame_type f = FT_Ping \<and> streamId f = 0 \<and> isAck f \<and> m_opaque_data f = payload"

lemma handle_frame_monitor:
  "monitor_state (handle_frame f m) =
    (if pong (mg_last_ping_payload m) f \<and> mg_waiting_ping_ack m then monitor_state (m\<lparr>mg_waiting_ping_ack := False\<rparr>) else monitor_state m)"
proof -
  have conn: "monitor_state (handleSettings f m) = monitor_state m" "monitor_state (handleGoAway f m) = monitor_state m"
    "monitor_state (handleConnWindowUpdate f m) = monitor_state m"
    by (simp_all add: handleSettings_eq apply_settings_frame_def handleGoAway_def handleConnWindowUpdate_def Let_def)
  have ping: "monitor_state (handlePing f m) = (if streamId f = 0 \<and> isAck f \<and> m_opaque_data f = mg_last_ping_payload m \<and> mg_waiting_ping_ack m
      then monitor_state (m\<lparr>mg_waiting_ping_ack := False\<rparr>) else monitor_state m)"
    by (simp add: handlePing_def)
  have "monitor_state (handleHeadersFrame f k m) = monitor_state m" for k
    using monitor_kept_streams(3) [of k m]
    by (simp add: handleHeadersFrame_def case_prod_unfold Let_def del: monitor_kept_streams(3) split: option.splits)
  moreover have "monitor_state (handleDataFrame f k m) = monitor_state m" "monitor_state (handleContinuationFrame f k m) = monitor_state m"
    "monitor_state (handlePriorityFrame f k m) = monitor_state m" "monitor_state (handleRstStreamFrame f k m) = monitor_state m"
    "monitor_state (handleWindowUpdateFrame f k m) = monitor_state m" "monitor_state (handlePushPromiseFrame f k m) = monitor_state m" for k
    by (simp_all add: handleDataFrame_def accept_data_def handleContinuationFrame_def handlePriorityFrame_def handleRstStreamFrame_def
        handleWindowUpdateFrame_def handlePushPromiseFrame_def case_prod_unfold Let_def split: option.splits)
  ultimately show ?thesis
    using conn ping
    by (simp add: handle_frame_def dispatchStreamFrame_def handleConnectionFrame_def Let_def pong_def isConnectionFrame_def h2_enum)
qed

section \<open>Runs of the monitor\<close>

datatype keep_event = MonitorTurn int | FrameArrived int Http2Frame

text \<open>Turns of the monitor and frames of the reader, with the events so far; in between, anything that does not touch
  the monitor's state: sends, pending actions, allocated and retired streams.\<close>

inductive keep_run :: "Manager \<Rightarrow> keep_event list \<Rightarrow> Manager \<Rightarrow> bool" for m0 where
  start: "keep_run m0 [] m0"
| turn: "keep_run m0 evs m \<Longrightarrow> monitor_turn now m = (False, m') \<Longrightarrow> keep_run m0 (evs @ [MonitorTurn now]) m'"
| frame: "keep_run m0 evs m \<Longrightarrow> reader_frames now [f] m = (False, m') \<Longrightarrow> keep_run m0 (evs @ [FrameArrived now f]) m'"
| other: "keep_run m0 evs m \<Longrightarrow> monitor_state m' = monitor_state m \<Longrightarrow> keep_run m0 evs m'"

definition ping_frame :: "int \<Rightarrow> Http2Frame" where
  "ping_frame now = PingFrame (default_header\<lparr>h_type := FT_Ping\<rparr>) (nonce_bytes now)"

text \<open>At time \<open>t\<close>, after the events \<open>pre\<close>, the monitor of an idle connection queued a PING.\<close>

definition ping_sent :: "Manager \<Rightarrow> keep_event list \<Rightarrow> int \<Rightarrow> bool" where
  "ping_sent m0 pre t \<longleftrightarrow> (\<exists>m1 m2 ping. keep_run m0 pre m1 \<and> monitor_turn t m1 = (False, m2)
     \<and> t - mg_last_frame_recv_at m1 \<ge> ping_interval (mg_config m1) * 1000000
     \<and> mg_send_channel m2 = mg_send_channel m1 @ [ping] \<and> wire ping = serialize (ping_frame t))"

definition awaiting :: "Manager \<Rightarrow> keep_event list \<Rightarrow> int \<Rightarrow> bool" where
  "awaiting m0 evs t \<longleftrightarrow> (\<exists>pre post. evs = pre @ [MonitorTurn t] @ post \<and> ping_sent m0 pre t
     \<and> (\<forall>n f. FrameArrived n f \<in> set post \<longrightarrow> \<not> pong (nonce_bytes t) f))"

lemma awaiting_snoc:
  "awaiting m0 evs t \<Longrightarrow> (\<And>n f. ev = FrameArrived n f \<Longrightarrow> \<not> pong (nonce_bytes t) f) \<Longrightarrow> awaiting m0 (evs @ [ev]) t"
proof -
  assume a: "awaiting m0 evs t" "\<And>n f. ev = FrameArrived n f \<Longrightarrow> \<not> pong (nonce_bytes t) f"
  then obtain pre post where "evs = pre @ [MonitorTurn t] @ post" "ping_sent m0 pre t"
    "\<forall>n f. FrameArrived n f \<in> set post \<longrightarrow> \<not> pong (nonce_bytes t) f"
    unfolding awaiting_def by blast
  then show ?thesis
    unfolding awaiting_def using a(2) by (intro exI [of _ pre] exI [of _ "post @ [ev]"]) auto
qed

lemma monitor_turn_cases:
  assumes "monitor_turn now m = (False, m')"
  obtains (idle) "m' = m"
  | (ping) "\<not> mg_waiting_ping_ack m" "now - mg_last_frame_recv_at m \<ge> ping_interval (mg_config m) * 1000000"
      "monitor_state m' = (mg_config m, True, nonce_bytes now, now)"
      "mg_send_channel m' = mg_send_channel m @ [\<lparr>og_header = [], og_payload = serialize (ping_frame now), og_waiter = None\<rparr>]"
proof (cases "\<not> shouldEnforceSettingsAckTimeout now m \<and> ping_enabled (mg_config m) \<and> \<not> ping_interval (mg_config m) \<le> 0
    \<and> \<not> mg_waiting_ping_ack m \<and> now - mg_last_frame_recv_at m \<ge> ping_interval (mg_config m) * 1000000")
  case True
  show ?thesis
    by (rule ping)
       (use assms True in \<open>auto simp: monitor_turn_def Let_def monitor_state_def enqueueSendFrame_def enqueueSendBytes_def ping_frame_def\<close>)
next
  case False
  show ?thesis
    by (rule idle) (use assms False in \<open>simp add: monitor_turn_def Let_def split: if_splits\<close>)
qed

lemma keep_run_awaiting:
  assumes "keep_run m0 evs m" "\<not> mg_waiting_ping_ack m0"
  shows "mg_config m = mg_config m0
    \<and> (mg_waiting_ping_ack m \<longrightarrow> mg_last_ping_payload m = nonce_bytes (mg_last_ping_sent_at m) \<and> awaiting m0 evs (mg_last_ping_sent_at m))"
  using assms
proof (induction rule: keep_run.induct)
  case (turn evs m now m')
  from turn.hyps(2) show ?case
  proof (cases rule: monitor_turn_cases)
    case idle
    then show ?thesis
      using turn.IH turn.prems awaiting_snoc [of m0 evs "mg_last_ping_sent_at m" "MonitorTurn now"] by simp
  next
    case ping
    have "ping_sent m0 evs now"
      unfolding ping_sent_def using turn.hyps ping(2,4)
      by (intro exI [of _ m] exI [of _ m'] exI [of _ "\<lparr>og_header = [], og_payload = serialize (ping_frame now), og_waiter = None\<rparr>"])
         (simp add: wire_def)
    then have "awaiting m0 (evs @ [MonitorTurn now]) now"
      unfolding awaiting_def by (intro exI [of _ evs] exI [of _ "[]"]) simp
    then show ?thesis
      using ping(3) turn.IH turn.prems by (simp add: monitor_state_def)
  qed
next
  case (frame evs m now f m')
  have "m' = handle_frame f (m\<lparr>mg_last_frame_recv_at := now\<rparr>)"
    using frame.hyps(2) by (simp add: Let_def split: if_splits)
  then have s: "monitor_state m' = (if pong (mg_last_ping_payload m) f \<and> mg_waiting_ping_ack m
      then monitor_state (m\<lparr>mg_waiting_ping_ack := False\<rparr>) else monitor_state m)"
    using handle_frame_monitor [of f "m\<lparr>mg_last_frame_recv_at := now\<rparr>"] by (simp add: monitor_state_def)
  show ?case
  proof (cases "pong (mg_last_ping_payload m) f \<and> mg_waiting_ping_ack m")
    case True
    then show ?thesis
      using s frame.IH frame.prems by (simp add: monitor_state_def)
  next
    case False
    then show ?thesis
      using s frame.IH frame.prems awaiting_snoc [of m0 evs "mg_last_ping_sent_at m" "FrameArrived now f"]
      by (auto simp: monitor_state_def)
  qed
next
  case (other evs m m')
  then show ?case
    by (simp add: monitor_state_def)
qed simp

section \<open>Properties\<close>



end
