(* ===== verification/Spec2Isabelle.thy ===== *)
theory Spec2Isabelle
  imports Http1_Text Http1_Reader_Run Chan_Mpmc_Runs Ws_Message H2_Core H2_Flow H2_Account H2_Request H2_Keepalive
begin

text \<open>
  A verification of galay, a C++23 coroutine network library: its HTTP/2 implementation, the request side of HTTP/1.1, its WebSocket codec and
  reader, the byte ring buffer that all protocols receive into, and the ring of its lock-free channel. File names below are relative to
  \<^verbatim>\<open>src/src/cpp\<close>, and in the parts on HTTP/2 to \<^verbatim>\<open>src/src/cpp/galay-http2\<close>.

  \<^bold>\<open>The program.\<close> Bytes arrive in a ring buffer (\<^verbatim>\<open>galay-utils/cache/ring_buffer.hpp\<close>), a vector with two
  segments or pages mapped twice in a row. A WebSocket connection reads it through
  \<^verbatim>\<open>galay-ws/kernel/ws_reader.h\<close>: a machine that alternates receives with parsing, a fast path for plain data
  frames that scans the header in place, and a slow path through the parser of \<^verbatim>\<open>galay-ws/protoc/ws_frame.cc\<close>.
  An HTTP/1.1 server reads requests with \<^verbatim>\<open>galay-http/kernel/http_reader.h\<close>, a machine of the same kind over
  \<open>HttpRequest\<close> (\<^verbatim>\<open>galay-http/protoc/http_request.cc\<close>), which feeds the memory segments of the ring to the header parser
  (\<^verbatim>\<open>http_header.cc\<close>), decides from the header how the body is framed, and takes the body by length or through the
  \<open>ChunkParser\<close> of \<^verbatim>\<open>http_chunk.cc\<close>; a client writes the same request with \<open>toString\<close>.
  Messages and tasks pass between threads through channels, of which \<^verbatim>\<open>galay-kernel/concurrency/mpmc/bounded_channel.h\<close>
  is a ring with a sequence number per slot.

  An HTTP/2 connection is a pipeline. From the ring buffer
  \<^verbatim>\<open>kernel/http2_conn.h\<close> cuts frames; \<^verbatim>\<open>protoc/http2_frame.cc\<close> parses them. The reader loop of
  \<^verbatim>\<open>kernel/stream_manager.h\<close> hands each frame to a handler for the connection (SETTINGS, PING, GOAWAY,
  WINDOW_UPDATE) or for a stream; header blocks pass through the HPACK decoder of
  \<^verbatim>\<open>protoc/http2_hpack.cc\<close> and become a request or a response. In the other direction an
  application sends on an \<open>Http2Stream\<close> (\<^verbatim>\<open>kernel/http2_stream.h\<close>), which holds data back behind the
  stream's and the connection's window, cuts header blocks into HEADERS and CONTINUATION frames
  (\<^verbatim>\<open>builder/http2_frame_builder.cc\<close>, \<^verbatim>\<open>utils/h2_helper.cc\<close>) and pushes frames into the send channel of
  the connection. A monitor watches over PING and SETTINGS deadlines. Beside this pipeline the library has a
  second, synchronous core: \<^verbatim>\<open>kernel/h2_core.cc\<close> composes a pure dispatcher
  (\<^verbatim>\<open>kernel/frame_dispacher.cc\<close>), a send-window controller (\<^verbatim>\<open>kernel/flow_control.cc\<close>) and a
  deficit round robin scheduler (\<^verbatim>\<open>kernel/out_scheduler.cc\<close>).

  \<^bold>\<open>The theories\<close>, from the bottom up; each opens with what it holds.

  \<^item> \<open>Galay_Prelude\<close>: bytes and words, big-endian loads and stores, bit lists, and the locale
    \<open>byte_codec\<close>, the contract of an encoder and a decoder that consumes exactly what the encoder wrote; it is
    interpreted for frames (\<open>frame_codec\<close>) and for HPACK integers (\<open>int7\<close>).
  \<^item> \<open>Ring_Buffer\<close>, \<open>Ring_Buffer_Proofs\<close>: both backends of the ring buffer. The locale \<open>byte_ring\<close> is the contract
    of a bounded byte queue; both backends and the variant of the two satisfy it, so that the protocols above see a queue.
  \<^item> \<open>Ws_Utf8\<close>, \<open>Ws_Frame\<close>, \<open>Ws_Codec\<close>, \<open>Ws_Exact\<close>: the WebSocket codec. The three UTF-8 validators accept exactly
    the encodings of sequences of scalar values; the wide masking steps act octet by octet; the parser over memory segments is a function of
    their concatenation and accepts exactly what the encoder writes for a legal frame.
  \<^item> \<open>Ws_Reader\<close>, \<open>Ws_Reader_Fast\<close>, \<open>Ws_Message\<close>: the reader. The fast path agrees with the parser on every input; a
    fragmented message comes out whole however the transport cuts it; two deviations from the protocol are proved as such.
  \<^item> \<open>Octet_Machine\<close>: the shape of the incremental parsers, a loop over segments in which a turn takes a run of octets. The
    locale \<open>octet_machine\<close> is the contract of a turn with the step on one octet; it is interpreted for the request header
    (\<open>req\<close>) and for the chunk parser (\<open>chk\<close>), and gives that the result is a function of the concatenation.
  \<^item> \<open>Http1_Base\<close>, \<open>Http1_Headers\<close>, \<open>Http1_Uri\<close>: the enumerations and text helpers of HTTP/1.1, the header store (an array for
    the common names, a map for the others) as a map from lower-case names, and the coding of request targets.
  \<^item> \<open>Http1_Header\<close>, \<open>Http1_Bulk\<close>: \<open>HttpRequestHeader\<close>, with the parser by characters and the parser by runs of characters over
    segments, and that they agree.
  \<^item> \<open>Http1_Chunk\<close>: \<open>toChunk\<close> and \<open>ChunkParser\<close>. A body comes out as it was sent for every cut into chunks and segments, and the
    parser stays within its limits on every input.
  \<^item> \<open>Http1_Request\<close>, \<open>Http1_Request_Run\<close>, \<open>Http1_Text\<close>: \<open>HttpRequest\<close>. Every delivery of the octets gives the same
    answer; how the header frames the body, on every branch; a request that a client writes is the request that a server reads.
  \<^item> \<open>Http1_Reader\<close>, \<open>Http1_Reader_Run\<close>: the read machine on the ring buffer, which completes with the request whatever the
    receives bring and leaves the octets of the next one.
  \<^item> \<open>Chan_Base\<close>, \<open>Chan_Mpmc\<close>, \<open>Chan_Mpmc_Inv\<close>, \<open>Chan_Mpmc_Runs\<close>: the ring of the channel, one step per access to shared
    memory, for any number of threads. The invariant over every interleaving; values leave in the order of their reservations, a slot has
    one owner at a time, a refusal is justified, close is final, and a thread that runs alone finishes.
  \<^item> \<open>H2_Base\<close>, \<open>H2_Frame\<close>, \<open>H2_Builder\<close>: the enumerations of \<^verbatim>\<open>protoc/http2_base.h\<close>; the ten frame classes
    as one datatype with \<open>serialize\<close>, \<open>parsePayload\<close> and \<open>parseFrame\<close>, every read bounds-checked
    (a read outside the buffer would be \<open>None\<close>, and none occurs); the byte builders. Round trips in both
    directions, safety on arbitrary bytes, unambiguous framing, agreement of the two ways to build a frame.
  \<^item> \<open>Hpack_Int\<close>, \<open>Hpack_Huffman_Table\<close>, \<open>Hpack_Huffman_Tree\<close>, \<open>Hpack_Huffman\<close>, \<open>Hpack_Table\<close>,
    \<open>Hpack_Codec\<close>: HPACK. The Huffman code table and the 4-bit decoding automaton are transcribed row by row
    and proved to be the same code; the dynamic table is the ring buffer of the source and refines a list;
    both tables satisfy the locale \<open>header_index\<close>. A block survives the wire whatever representation the
    encoder chooses, and both ends stay in step.
  \<^item> \<open>H2_Flow\<close>, \<open>H2_Dispatch\<close>, \<open>H2_Sched\<close>, \<open>H2_Core\<close>: the synchronous core. Conservation of credit, the
    dispatcher's invariant, rejections and order, exactness and work conservation of the scheduler, and the
    connection's invariant over every interleaving of its methods with the turns of \<open>run\<close>.
  \<^item> \<open>H2_Stream\<close>: the life cycle of \<open>Http2Stream\<close>, \<open>flushPendingData\<close> and \<open>sendEncodedHeadersInternal\<close>.
  \<^item> \<open>H2_Conn\<close>: \<open>Http2Settings\<close>, the receive-window policy and the cutting of frames from the receive buffer,
    for any segmentation of the byte stream.
  \<^item> \<open>H2_Manager\<close>: the state of \<open>Http2ConnImpl\<close> and \<open>Http2StreamManagerImpl\<close> as one record, every frame
    handler of the reader, the pending actions, the monitor, and the calls of the application.
  \<^item> \<open>H2_Invariant\<close>, \<open>H2_Send\<close>, \<open>H2_Runs\<close>: the manager's invariant, kept by every handler. The locale
    \<open>send_operation\<close> states what the manager relies on when a stream works on the connection's window and
    channel; it is interpreted for every sending call of \<open>Http2Stream\<close> (\<open>H2_Send\<close>) and proved for the flush
    under the peer's limits. \<open>H2_Runs\<close> is the step relation over all of this and the invariant of its runs.
  \<^item> \<open>H2_Account\<close>, \<open>H2_Request\<close>, \<open>H2_Keepalive\<close>: receive-window accounting, SETTINGS as a whole and stream
    admission; a header block through the reader; the monitor's PING.
  \<^item> This theory: the composition of all of them, a request from the client's call to the server's handler.

  \<^bold>\<open>Modelling.\<close> Integers that travel on the wire are words of their width; window counters, which the source
  keeps in \<open>int32_t\<close> or \<open>int64_t\<close>, are integers, and the invariants show that they stay in range, so that no
  signed overflow occurs. Strings and buffers are byte lists. Pointers between a stream and its connection are
  loaded before each use (\<open>with_conn\<close>). Hash tables are association lists whose order is the iteration order;
  a rehash is a step of its own. Times are integers. Loops are recursive functions with termination proofs, except
  the loop of the WebSocket message reader, which has fuel for one turn per readable octet and one more; that this is enough is
  part of what is proved of it. The masking key, the page size and the answers of the system to the creation of a
  mapping are arguments. In HTTP/1.1, sizes are natural numbers (the one conversion from text checks the range of
  \<open>size_t\<close>), a \<open>std::map\<close> is an association list in key order, an error is its code without the message text, and the counters
  \<open>m_parsedBytes\<close>, \<open>m_headerLength\<close>, \<open>m_last_consumed\<close> and \<open>m_last_produced_chunk\<close>, which no modelled operation reads, are left out.
  The channel is modelled under sequential consistency; a weak compare-exchange may fail without a reason. One guard is added: \<open>header_pieces\<close> stops at a frame size of zero, where the source would not
  end, which \<open>normalizeMaxFrameSize\<close> and the settings bounds exclude (the manager's invariant).

  \<^bold>\<open>Not modelled.\<close> Coroutine scheduling, sockets, TLS and timers: the
  model takes the order of their events as the order of its steps, and the send channel of a connection as the list of what is in it.
  Of the channel: the waiters, the pump that serves them and the awaitables, and weaker memory orders. Of the WebSocket
  library: the TLS read machine, the writer, the upgrade and the sessions. Of HTTP/1.1: responses, the one-shot
  \<open>Chunk::fromIOVec\<close>, the TLS read machine, the writer, the router and the client and server. The other protocols of the
  library (RPC, Redis, MySQL, PostgreSQL, MongoDB, etcd, MCP) are not modelled.
  Of the stream manager: the active-connection mode with its stream pool and mailbox, static routes and file
  mounts, the raw-view fast path, and the writer's batching into iovecs. Of \<^verbatim>\<open>http2_conn.h\<close>: the read and write
  awaitables and \<open>sendPushPromise\<close>. A user's \<open>flow_control_strategy\<close> is a parameter; the invariant is stated
  for the default policy.

  \<^bold>\<open>Plan.\<close> Next: the response side of HTTP/1.1, the waiters of the channel and the other channels, the RPC and RESP codecs, and the MySQL, PostgreSQL and BSON encodings.
\<close>


definition sample_client :: Manager where
  "sample_client = snd (allocateStream (prepareForStart 0 (new_manager True default_settings default_config)))"

definition sample_server :: Manager where
  "sample_server = prepareForStart 0 (new_manager False default_settings default_config)"

lemma sample_client_simps:
  "manager_reachable sample_client" "getStream sample_client 3 = Some (new_slot 3 default_settings)"
  "mg_encoder sample_client = new_encoder 4096"
proof -
  show "manager_reachable sample_client"
    unfolding sample_client_def by (rule manager_reachable.step [OF started_reachable manager_step.allocate])
  show "getStream sample_client 3 = Some (new_slot 3 default_settings)" "mg_encoder sample_client = new_encoder 4096"
    by (simp_all add: sample_client_def allocateStream_def newStream_def prepareForStart_def new_manager_def getStream_def Let_def
        createStreamInternal_def drainRetiredStreams_def createStream_def put_stream_def)
qed

lemma sample_server_simps:
  "admits sample_server 3" "mg_decoder sample_server = new_decoder 4096" "mg_peer sample_server = default_settings"
  "\<not> mg_expecting_continuation sample_server"
  by (simp_all add: sample_server_def prepareForStart_def new_manager_def admits_def getStream_def Let_def default_settings_def
      default_config_def kDefaultInitialWindowSize_def)

definition sample_request :: "Http2HeaderField list" where
  "sample_request = [hf '':method'' ''GET'', hf '':scheme'' ''http'', hf '':path'' ''/'']"

lemma sample_block: "length (fst (hpack_encode (new_encoder 4096) sample_request)) \<le> 8192"
  using encode_fields_length [of "new_encoder 4096" sample_request]
  by (simp add: hpack_encode_def new_encoder_def sample_request_def wire_length_def str_def)

lemma sample_request_sendable: "sendable (new_encoder 4096) (new_decoder 4096) sample_request"
  by (simp add: sample_request_def sendable_def field_ok_def wire_length_def new_encoder_def new_decoder_def
      header_size_def str_def SIZE_MAX_def)


end
